(* ===== verification/Prelude.thy ===== *)
theory Prelude
  imports Complex_Main "HOL-Library.Word"
begin

unbundle bit_operations_syntax

section \<open>Shared vocabulary of the model\<close>

text \<open>
  Machine types, the error values a C++ call can end with, a small result monad, and the
  generic lemmas about lists and results the component theories share.

  A C++ function that may throw is modelled as a function into \<open>'a result\<close>: \<open>Inl\<close> is an
  exception (with its type and, where the source gives one, its message) or, with the
  constructor \<open>UB\<close>, an execution the standard leaves undefined (a null dereference, a write
  past the end of a vector, a remainder by zero). \<open>Inr\<close> is a normal return.
\<close>

type_synonym u8 = "8 word"
type_synonym u16 = "16 word"
type_synonym u32 = "32 word"
type_synonym u64 = "64 word"
type_synonym bytes = "u8 list"

datatype cpp_error =
    Runtime_error string
  | Out_of_range string
  | Invalid_argument string
  | Length_error string
  | Json_error
  | UB string

type_synonym 'a result = "cpp_error + 'a"

definition is_ub :: "'a result \<Rightarrow> bool" where
  "is_ub r = (case r of Inl (UB _) \<Rightarrow> True | _ \<Rightarrow> False)"

definition and_then :: "'a result \<Rightarrow> ('a \<Rightarrow> 'b result) \<Rightarrow> 'b result" where
  "and_then r f = (case r of Inl e \<Rightarrow> Inl e | Inr a \<Rightarrow> f a)"

named_theorems result_simps \<open>evaluation of the result monad\<close>

lemma and_then_Inr [simp, result_simps]: "and_then (Inr a) f = f a"
  by (simp add: and_then_def)

lemma and_then_Inl [simp, result_simps]: "and_then (Inl e) f = Inl e"
  by (simp add: and_then_def)

lemma and_then_eq_Inr_iff:
  "and_then r f = Inr b \<longleftrightarrow> (\<exists>a. r = Inr a \<and> f a = Inr b)"
  by (auto simp: and_then_def split: sum.splits)

lemma and_then_eq_Inl_iff:
  "and_then r f = Inl e \<longleftrightarrow> r = Inl e \<or> (\<exists>a. r = Inr a \<and> f a = Inl e)"
  by (auto simp: and_then_def split: sum.splits)

lemma and_then_assoc: "and_then (and_then r f) g = and_then r (\<lambda>a. and_then (f a) g)"
  by (auto simp: and_then_def split: sum.splits)

lemma is_ub_simps [simp]:
  "is_ub (Inl (UB m))" "\<not> is_ub (Inl (Runtime_error m))" "\<not> is_ub (Inl (Out_of_range m))"
  "\<not> is_ub (Inl (Invalid_argument m))" "\<not> is_ub (Inl (Length_error m))" "\<not> is_ub (Inl Json_error)" "\<not> is_ub (Inr a)"
  by (simp_all add: is_ub_def)

text \<open>\<open>map_result f xs\<close> runs a fallible function over a list and stops at the first error.\<close>

fun map_result :: "('a \<Rightarrow> 'b result) \<Rightarrow> 'a list \<Rightarrow> 'b list result" where
  "map_result f [] = Inr []"
| "map_result f (x # xs) =
     and_then (f x) (\<lambda>y. and_then (map_result f xs) (\<lambda>ys. Inr (y # ys)))"

lemma map_result_length: "map_result f xs = Inr ys \<Longrightarrow> length ys = length xs"
  by (induction xs arbitrary: ys) (auto simp: and_then_eq_Inr_iff)

lemma map_result_total:
  "(\<And>x. x \<in> set xs \<Longrightarrow> f x = Inr (g x)) \<Longrightarrow> map_result f xs = Inr (map g xs)"
  by (induction xs) auto

text \<open>\<open>fold_result f xs s\<close> is a loop over a list whose body updates a state and may fail.\<close>

fun fold_result :: "('a \<Rightarrow> 's \<Rightarrow> 's result) \<Rightarrow> 'a list \<Rightarrow> 's \<Rightarrow> 's result" where
  "fold_result f [] s = Inr s"
| "fold_result f (x # xs) s = and_then (f x s) (fold_result f xs)"

lemma fold_result_total:
  assumes "\<And>x s. x \<in> set xs \<Longrightarrow> P s \<Longrightarrow> \<exists>s'. f x s = Inr s' \<and> P s'" and "P s"
  shows "\<exists>s'. fold_result f xs s = Inr s' \<and> P s'"
  using assms
proof (induction xs arbitrary: s)
  case (Cons x xs)
  then obtain s' where "f x s = Inr s'" "P s'"
    by (meson list.set_intros(1))
  with Cons show ?case
    by simp
qed simp

lemma fold_result_keeps:
  assumes "\<And>x s s'. x \<in> set xs \<Longrightarrow> P s \<Longrightarrow> f x s = Inr s' \<Longrightarrow> P s'"
    and "P s" and "fold_result f xs s = Inr s'"
  shows "P s'"
  using assms by (induction xs arbitrary: s) (auto simp: and_then_eq_Inr_iff)

lemma fold_result_error:
  assumes "fold_result f xs s = Inl e" and "P s"
    and "\<And>x s s'. x \<in> set xs \<Longrightarrow> P s \<Longrightarrow> f x s = Inr s' \<Longrightarrow> P s'"
  obtains x s' where "x \<in> set xs" "P s'" "f x s' = Inl e"
proof -
  have "\<exists>x \<in> set xs. \<exists>s'. P s' \<and> f x s' = Inl e"
    using assms
  proof (induction xs arbitrary: s)
    case (Cons x xs)
    show ?case
    proof (cases "f x s")
      case (Inl e')
      then show ?thesis
        using Cons.prems by auto
    next
      case (Inr s')
      then have "P s'" "fold_result f xs s' = Inl e"
        using Cons.prems by auto
      with Cons show ?thesis
        by (meson list.set_intros(2))
    qed
  qed simp
  then show thesis
    using that by blast
qed

lemma fold_result_fails:
  assumes "x \<in> set xs" and "\<And>s. P s \<Longrightarrow> \<exists>e. f x s = Inl e" and "P s"
    and "\<And>x s s'. x \<in> set xs \<Longrightarrow> P s \<Longrightarrow> f x s = Inr s' \<Longrightarrow> P s'"
  shows "\<exists>e. fold_result f xs s = Inl e"
  using assms
proof (induction xs arbitrary: s)
  case (Cons y ys)
  show ?case
  proof (cases "f y s")
    case (Inr s')
    have "x \<noteq> y"
      using Cons.prems(2,3) Inr by force
    moreover have "P s'"
      by (rule Cons.prems(4) [OF _ Cons.prems(3) Inr]) simp
    ultimately have "\<exists>e. fold_result f ys s' = Inl e"
      using Cons.prems by (intro Cons.IH) auto
    with Inr show ?thesis
      by simp
  qed simp
qed simp

subsection \<open>Decimal numerals\<close>

text \<open>\<open>std::to_string\<close> on unsigned and signed integers.\<close>

definition digit_char :: "nat \<Rightarrow> char" where
  "digit_char d = char_of (48 + d)"

fun to_string_nat :: "nat \<Rightarrow> string" where
  "to_string_nat n =
     (if n < 10 then [digit_char n] else to_string_nat (n div 10) @ [digit_char (n mod 10)])"

declare to_string_nat.simps [simp del]

definition to_string_int :: "int \<Rightarrow> string" where
  "to_string_int i = (if i < 0 then ''-'' @ to_string_nat (nat (- i)) else to_string_nat (nat i))"

lemma to_string_nat_not_Nil [simp]: "to_string_nat n \<noteq> []"
  by (subst to_string_nat.simps) simp

subsection \<open>Lists\<close>

lemma nth_append_take_drop:
  "i < length xs \<Longrightarrow> xs = take i xs @ xs ! i # drop (Suc i) xs"
  by (simp add: id_take_nth_drop)

lemma take_drop_append_exact [simp]:
  "length ys = n \<Longrightarrow> take n (drop (length xs) (xs @ ys @ zs)) = ys"
  by simp

lemma length_concat_const:
  "(\<And>x. x \<in> set xs \<Longrightarrow> length (f x) = k) \<Longrightarrow> length (concat (map f xs)) = k * length xs"
  by (induction xs) auto

subsection \<open>Steps\<close>

text \<open>Sequencing of steps that may wait or throw.\<close>

type_synonym ('s, 'a) step = "'s \<Rightarrow> ('a result \<times> 's) option"

definition then_step :: "('s, 'a) step \<Rightarrow> ('a \<Rightarrow> ('s, 'b) step) \<Rightarrow> ('s, 'b) step" where
  "then_step m f s =
     (case m s of None \<Rightarrow> None | Some (Inl e, s) \<Rightarrow> Some (Inl e, s) | Some (Inr a, s) \<Rightarrow> f a s)"

named_theorems step_simps \<open>evaluation of steps\<close>

lemma then_step_Some [step_simps]:
  "m s = Some (Inr a, s') \<Longrightarrow> then_step m f s = f a s'"
  "m s = Some (Inl e, s') \<Longrightarrow> then_step m f s = Some (Inl e, s')"
  "m s = None \<Longrightarrow> then_step m f s = None"
  by (simp_all add: then_step_def)

end
