(* ===== verification/Binary64.thy ===== *)
theory Binary64
  imports Prelude
begin

section \<open>IEEE-754 binary64 values\<close>

text \<open>
  The type \<open>double\<close> of the model: the finite binary64 numbers, the two infinities and NaN, with
  every arithmetic operation rounded to nearest, ties to even, and overflow to infinity, as
  C++ does on the platforms the build files name.
  One departure is kept: the two zeros are one value (the sign of a zero is not represented).
\<close>

subsection \<open>Rounding a real to 53 significant bits\<close>

text \<open>\<open>rne\<close> rounds to the nearest integer, ties to even.\<close>

definition rne :: "real \<Rightarrow> int" where
  "rne y = (let r = \<lfloor>y + 1/2\<rfloor> in if of_int r = y + 1/2 \<and> odd r then r - 1 else r)"

lemma rne_of_int [simp]: "rne (of_int k) = k"
proof -
  have "\<lfloor>of_int k + 1/2 :: real\<rfloor> = k"
    by linarith
  then show ?thesis
    by (simp add: rne_def)
qed

lemma rne_mono:
  assumes "y \<le> z"
  shows "rne y \<le> rne z"
proof -
  define a b where "a = \<lfloor>y + 1/2\<rfloor>" and "b = \<lfloor>z + 1/2\<rfloor>"
  have ab: "a \<le> b"
    unfolding a_def b_def using assms by (intro floor_mono) simp
  have ry: "rne y = (if of_int a = y + 1/2 \<and> odd a then a - 1 else a)"
    and rz: "rne z = (if of_int b = z + 1/2 \<and> odd b then b - 1 else b)"
    by (simp_all add: rne_def a_def b_def Let_def)
  show ?thesis
  proof (cases "a = b")
    case True
    have "of_int a \<le> y + 1/2"
      unfolding a_def by (rule of_int_floor_le)
    then show ?thesis
      using True assms by (auto simp: ry rz)
  next
    case False
    with ab have "a \<le> b - 1"
      by simp
    then show ?thesis
      by (auto simp: ry rz)
  qed
qed

text \<open>The exponent of the unit in the last place of a positive real.\<close>

definition ulp_exp :: "real \<Rightarrow> int" where
  "ulp_exp x = max (\<lfloor>log 2 x\<rfloor> - 52) (- 1074)"

definition round_pos :: "real \<Rightarrow> real" where
  "round_pos x = of_int (rne (x / 2 powi ulp_exp x)) * 2 powi ulp_exp x"

definition round64 :: "real \<Rightarrow> real" where
  "round64 x = (if x = 0 then 0 else if 0 < x then round_pos x else - round_pos (- x))"

text \<open>A real with at most 53 significant bits and no bit below \<open>2 powi (- 1074)\<close>.\<close>

definition representable :: "real \<Rightarrow> bool" where
  "representable x \<longleftrightarrow>
     (\<exists>m e :: int. x = of_int m * 2 powi e \<and> \<bar>m\<bar> \<le> 2 ^ 53 \<and> - 1074 \<le> e)"

lemma powi_pos [simp]: "0 < (2::real) powi e"
  by (simp add: zero_less_power_int)

lemma floor_log2_bounds:
  assumes "0 < x"
  shows "2 powi \<lfloor>log 2 x\<rfloor> \<le> x" and "x < 2 powi (\<lfloor>log 2 x\<rfloor> + 1)"
proof -
  have "2 powr of_int \<lfloor>log 2 x\<rfloor> \<le> x \<and> x < 2 powr (of_int \<lfloor>log 2 x\<rfloor> + 1)"
    using assms floor_log_eq_powr_iff [of x 2 "\<lfloor>log 2 x\<rfloor>"] by simp
  moreover have "(2::real) powr of_int k = 2 powi k" for k
    by (simp add: powr_real_of_int')
  moreover have "(of_int \<lfloor>log 2 x\<rfloor> + 1 :: real) = of_int (\<lfloor>log 2 x\<rfloor> + 1)"
    by simp
  ultimately show "2 powi \<lfloor>log 2 x\<rfloor> \<le> x" and "x < 2 powi (\<lfloor>log 2 x\<rfloor> + 1)"
    by metis+
qed

lemma powi_le_iff [simp]: "(2::real) powi a \<le> 2 powi b \<longleftrightarrow> a \<le> b"
  by (meson linorder_not_le one_less_numeral_iff power_int_increasing power_int_strict_increasing
      less_imp_le not_le semiring_norm(76))

lemma powi_less_iff [simp]: "(2::real) powi a < 2 powi b \<longleftrightarrow> a < b"
  by (meson linorder_not_le powi_le_iff)

lemma round_pos_upper:
  assumes "0 < x" and "x \<le> 2 powi k" and "ulp_exp x \<le> k"
  shows "round_pos x \<le> 2 powi k"
proof -
  let ?e = "ulp_exp x"
  have "x / 2 powi ?e \<le> 2 powi (k - ?e)"
    using assms(2) by (simp add: power_int_diff divide_right_mono)
  also have "\<dots> = of_int (2 ^ nat (k - ?e))"
    using assms(3) by (simp add: power_int_def)
  finally have "rne (x / 2 powi ?e) \<le> 2 ^ nat (k - ?e)"
    by (metis rne_mono rne_of_int)
  then have "of_int (rne (x / 2 powi ?e)) \<le> (2::real) ^ nat (k - ?e)"
    by (metis of_int_le_iff of_int_numeral of_int_power)
  also have "\<dots> = 2 powi (k - ?e)"
    using assms(3) by (simp add: power_int_def)
  finally have "round_pos x \<le> 2 powi (k - ?e) * 2 powi ?e"
    unfolding round_pos_def by (rule mult_right_mono) (simp add: less_imp_le)
  then show ?thesis
    by (simp flip: power_int_add)
qed

lemma round_pos_lower:
  assumes "0 < x" and "2 powi k \<le> x" and "ulp_exp x \<le> k"
  shows "2 powi k \<le> round_pos x"
proof -
  let ?e = "ulp_exp x"
  have "of_int (2 ^ nat (k - ?e)) = (2::real) powi (k - ?e)"
    using assms(3) by (simp add: power_int_def)
  also have "\<dots> \<le> x / 2 powi ?e"
    using assms(2) by (simp add: power_int_diff divide_right_mono)
  finally have "2 ^ nat (k - ?e) \<le> rne (x / 2 powi ?e)"
    by (metis rne_mono rne_of_int)
  then have "(2::real) ^ nat (k - ?e) \<le> of_int (rne (x / 2 powi ?e))"
    by (metis of_int_le_iff of_int_numeral of_int_power)
  then have "(2::real) powi (k - ?e) \<le> of_int (rne (x / 2 powi ?e))"
    using assms(3) by (simp add: power_int_def)
  then have "2 powi (k - ?e) * 2 powi ?e \<le> round_pos x"
    unfolding round_pos_def by (rule mult_right_mono) (simp add: less_imp_le)
  then show ?thesis
    by (simp flip: power_int_add)
qed

lemma round_pos_nonneg: "0 < x \<Longrightarrow> 0 \<le> round_pos x"
proof -
  assume "0 < x"
  then have "0 \<le> x / 2 powi ulp_exp x"
    by simp
  then have "0 \<le> rne (x / 2 powi ulp_exp x)"
    by (metis rne_mono rne_of_int of_int_0)
  then show ?thesis
    by (simp add: round_pos_def)
qed

lemma round_pos_mono:
  assumes "0 < x" and "x \<le> y"
  shows "round_pos x \<le> round_pos y"
proof -
  have fl: "\<lfloor>log 2 x\<rfloor> \<le> \<lfloor>log 2 y\<rfloor>"
    using assms by (intro floor_mono) simp
  then have le: "ulp_exp x \<le> ulp_exp y"
    by (simp add: ulp_exp_def)
  show ?thesis
  proof (cases "ulp_exp x = ulp_exp y")
    case True
    have "rne (x / 2 powi ulp_exp y) \<le> rne (y / 2 powi ulp_exp y)"
      using assms by (intro rne_mono divide_right_mono) (simp_all add: less_imp_le)
    then show ?thesis
      unfolding round_pos_def True by (intro mult_right_mono) (simp_all add: less_imp_le)
  next
    case False
    with le have lt: "ulp_exp x < ulp_exp y"
      by simp
    then have ey: "ulp_exp y = \<lfloor>log 2 y\<rfloor> - 52"
      by (auto simp: ulp_exp_def max_def split: if_splits)
    let ?k = "\<lfloor>log 2 y\<rfloor>"
    have kx: "\<lfloor>log 2 x\<rfloor> + 1 \<le> ?k"
      using lt ey by (auto simp: ulp_exp_def max_def split: if_splits)
    have "x \<le> 2 powi (\<lfloor>log 2 x\<rfloor> + 1)"
      using floor_log2_bounds(2) [OF assms(1)] by simp
    also have "\<dots> \<le> 2 powi ?k"
      using kx by simp
    finally have "round_pos x \<le> 2 powi ?k"
      using lt ey assms(1) by (intro round_pos_upper) simp_all
    also have "\<dots> \<le> round_pos y"
      using assms floor_log2_bounds(1) [of y] ey by (intro round_pos_lower) simp_all
    finally show ?thesis .
  qed
qed


lemma representable_zero [simp]: "representable 0"
  unfolding representable_def by (rule exI [of _ 0], rule exI [of _ 0]) simp

lemma representable_uminusI: "representable x \<Longrightarrow> representable (- x)"
proof -
  assume "representable x"
  then obtain m e :: int where "x = of_int m * 2 powi e" "\<bar>m\<bar> \<le> 2 ^ 53" "- 1074 \<le> e"
    by (auto simp: representable_def)
  then have "- x = of_int (- m) * 2 powi e \<and> \<bar>- m\<bar> \<le> 2 ^ 53 \<and> - 1074 \<le> e"
    by simp
  then show ?thesis
    unfolding representable_def by blast
qed

lemma representable_minus [simp]: "representable (- x) \<longleftrightarrow> representable x"
  using representable_uminusI [of x] representable_uminusI [of "- x"] by auto

text \<open>A representable number whose multiplier is exactly \<open>2 ^ 53\<close> has a smaller one.\<close>

lemma representableE:
  assumes "representable x" and "0 < x"
  obtains m e :: int where "x = of_int m * 2 powi e" "0 < m" "m < 2 ^ 53" "- 1074 \<le> e"
proof -
  obtain m e :: int where me: "x = of_int m * 2 powi e" "\<bar>m\<bar> \<le> 2 ^ 53" "- 1074 \<le> e"
    using assms(1) by (auto simp: representable_def)
  have m: "0 < m"
    using assms(2) me(1) powi_pos [of e] by (simp add: zero_less_mult_iff)
  show thesis
  proof (cases "m = 2 ^ 53")
    case False
    with me m that show thesis
      by force
  next
    case True
    have "x = of_int (2 ^ 52) * 2 powi (e + 1)"
      using me(1) True by (simp add: power_int_add)
    then show thesis
      using that [of "2 ^ 52" "e + 1"] me(3) by simp
  qed
qed

lemma round_pos_representable:
  assumes "0 < x" and "representable x"
  shows "round_pos x = x"
proof -
  obtain m e :: int where me: "x = of_int m * 2 powi e" "0 < m" "m < 2 ^ 53" "- 1074 \<le> e"
    using assms(2,1) by (rule representableE)
  have "x < 2 ^ 53 * 2 powi e"
    using me(1,3) powi_pos [of e] by (metis mult_strict_right_mono of_int_less_numeral_power_cancel_iff)
  also have "\<dots> = 2 powi (53 + e)"
    by (simp add: power_int_add)
  finally have "2 powi \<lfloor>log 2 x\<rfloor> < (2::real) powi (53 + e)"
    by (rule le_less_trans [OF floor_log2_bounds(1) [OF assms(1)]])
  then have "\<lfloor>log 2 x\<rfloor> < 53 + e"
    by (simp only: powi_less_iff)
  then have le: "ulp_exp x \<le> e"
    using me(4) by (simp add: ulp_exp_def)
  have "x / 2 powi ulp_exp x = of_int m * 2 powi (e - ulp_exp x)"
    by (simp add: me(1) power_int_diff)
  also have "\<dots> = of_int (m * 2 ^ nat (e - ulp_exp x))"
    using le by (simp add: power_int_def)
  finally show ?thesis
    by (simp add: round_pos_def) (metis nonzero_eq_divide_eq of_int_mult of_int_numeral of_int_power
        order_less_irrefl powi_pos rne_of_int)
qed

lemma representable_round_pos:
  assumes "0 < x"
  shows "representable (round_pos x)"
proof -
  let ?e = "ulp_exp x" and ?k = "\<lfloor>log 2 x\<rfloor> + 1"
  have "x \<le> 2 powi (53 + ?e)"
    using floor_log2_bounds(2) [OF assms]
    by (rule order.trans [OF less_imp_le]) (simp add: ulp_exp_def)
  then have "x / 2 powi ?e \<le> 2 ^ 53"
    by (simp add: power_int_add pos_divide_le_eq)
  then have hi: "rne (x / 2 powi ?e) \<le> 2 ^ 53"
    by (metis of_int_numeral of_int_power rne_mono rne_of_int)
  have "0 \<le> x / 2 powi ?e"
    using assms by simp
  then have "0 \<le> rne (x / 2 powi ?e)"
    by (metis rne_mono rne_of_int of_int_0)
  with hi show ?thesis
    unfolding representable_def round_pos_def
    by (intro exI [of _ "rne (x / 2 powi ?e)"] exI [of _ ?e]) (simp add: ulp_exp_def)
qed

lemma round64_zero [simp]: "round64 0 = 0"
  by (simp add: round64_def)

lemma round64_minus [simp]: "round64 (- x) = - round64 x"
  by (auto simp: round64_def)

lemma representable_round64 [simp]: "representable (round64 x)"
  by (auto simp: round64_def representable_round_pos)

lemma round64_representable: "representable x \<Longrightarrow> round64 x = x"
  by (auto simp: round64_def round_pos_representable)

lemma round64_idem [simp]: "round64 (round64 x) = round64 x"
  by (simp add: round64_representable)

lemma round64_mono: "x \<le> y \<Longrightarrow> round64 x \<le> round64 y"
proof -
  assume le: "x \<le> y"
  consider "0 < x" | "y < 0" | "x \<le> 0" "0 \<le> y"
    by linarith
  then show ?thesis
  proof cases
    case 1
    then show ?thesis
      using le by (simp add: round64_def round_pos_mono)
  next
    case 2
    then show ?thesis
      using le round_pos_mono [of "- y" "- x"] by (simp add: round64_def)
  next
    case 3
    then show ?thesis
      using round_pos_nonneg [of y] round_pos_nonneg [of "- x"] by (auto simp: round64_def)
  qed
qed

lemma round64_nonneg: "0 \<le> x \<Longrightarrow> 0 \<le> round64 x"
  using round64_mono [of 0 x] by simp

lemma representable_of_int: "\<bar>m\<bar> \<le> 2 ^ 53 \<Longrightarrow> representable (of_int m)"
  unfolding representable_def by (rule exI [of _ m], rule exI [of _ 0]) simp

lemma representable_dyadic:
  "\<bar>m\<bar> \<le> 2 ^ 53 \<Longrightarrow> k \<le> 1074 \<Longrightarrow> representable (of_int m / 2 ^ k)"
  unfolding representable_def
  by (rule exI [of _ m], rule exI [of _ "- int k"]) (simp add: power_int_minus field_simps)


subsection \<open>The type of binary64 values\<close>

datatype raw_double = Fin real | Inf bool | Not_a_number

definition exact :: "real \<Rightarrow> bool" where
  "exact r \<longleftrightarrow> representable r \<and> \<bar>r\<bar> < 2 ^ 1024"

typedef double = "{d. case d of Fin r \<Rightarrow> exact r | _ \<Rightarrow> True}"
  by (rule exI [of _ Not_a_number]) simp

setup_lifting type_definition_double

definition raw_round :: "real \<Rightarrow> raw_double" where
  "raw_round r =
     (let s = round64 r in if \<bar>s\<bar> < 2 ^ 1024 then Fin s else Inf (0 < s))"

text \<open>\<open>D r\<close> is the double nearest to the real \<open>r\<close>: the value of a literal, of a conversion from
  an integer type, and of every correctly rounded operation.\<close>

lift_definition D :: "real \<Rightarrow> double" is raw_round
  by (simp add: raw_round_def exact_def Let_def)

lift_definition PINF :: double is "Inf True" by simp
lift_definition NINF :: double is "Inf False" by simp
lift_definition NAN :: double is Not_a_number by simp

lift_definition val :: "double \<Rightarrow> real" is
  "\<lambda>d. case d of Fin r \<Rightarrow> r | _ \<Rightarrow> 0" .

lift_definition isnan :: "double \<Rightarrow> bool" is "\<lambda>d. d = Not_a_number" .
lift_definition isfinite :: "double \<Rightarrow> bool" is "\<lambda>d. case d of Fin _ \<Rightarrow> True | _ \<Rightarrow> False" .

text \<open>Comparison as in C++: false as soon as one side is NaN.\<close>

fun raw_less :: "raw_double \<Rightarrow> raw_double \<Rightarrow> bool" where
  "raw_less (Fin r) (Fin s) = (r < s)"
| "raw_less (Fin r) (Inf p) = p"
| "raw_less (Inf p) (Fin s) = (\<not> p)"
| "raw_less (Inf p) (Inf q) = (\<not> p \<and> q)"
| "raw_less Not_a_number d = False"
| "raw_less d Not_a_number = False"

fun raw_eq :: "raw_double \<Rightarrow> raw_double \<Rightarrow> bool" where
  "raw_eq Not_a_number d = False"
| "raw_eq (Fin r) d = (d = Fin r)"
| "raw_eq (Inf p) d = (d = Inf p)"

fun raw_neg :: "raw_double \<Rightarrow> raw_double" where
  "raw_neg (Fin r) = Fin (- r)"
| "raw_neg (Inf p) = Inf (\<not> p)"
| "raw_neg Not_a_number = Not_a_number"

fun raw_add :: "raw_double \<Rightarrow> raw_double \<Rightarrow> raw_double" where
  "raw_add (Fin r) (Fin s) = raw_round (r + s)"
| "raw_add (Fin r) (Inf q) = Inf q"
| "raw_add (Inf p) (Fin s) = Inf p"
| "raw_add (Inf p) (Inf q) = (if p = q then Inf p else Not_a_number)"
| "raw_add Not_a_number d = Not_a_number"
| "raw_add d Not_a_number = Not_a_number"

fun raw_mul :: "raw_double \<Rightarrow> raw_double \<Rightarrow> raw_double" where
  "raw_mul (Fin r) (Fin s) = raw_round (r * s)"
| "raw_mul (Fin r) (Inf q) = (if r = 0 then Not_a_number else Inf ((0 < r) = q))"
| "raw_mul (Inf p) (Fin s) = (if s = 0 then Not_a_number else Inf (p = (0 < s)))"
| "raw_mul (Inf p) (Inf q) = Inf (p = q)"
| "raw_mul Not_a_number d = Not_a_number"
| "raw_mul d Not_a_number = Not_a_number"

text \<open>With one zero, a division by zero takes the sign of the dividend.\<close>

fun raw_div :: "raw_double \<Rightarrow> raw_double \<Rightarrow> raw_double" where
  "raw_div (Fin r) (Fin s) =
     (if s = 0 then (if r = 0 then Not_a_number else Inf (0 < r)) else raw_round (r / s))"
| "raw_div (Fin r) (Inf q) = Fin 0"
| "raw_div (Inf p) (Fin s) = Inf (p = (0 \<le> s))"
| "raw_div (Inf p) (Inf q) = Not_a_number"
| "raw_div Not_a_number d = Not_a_number"
| "raw_div d Not_a_number = Not_a_number"

lemma exact_zero [simp]: "exact 0"
  by (simp add: exact_def)

lemma exact_minus [simp]: "exact (- r) \<longleftrightarrow> exact r"
  by (simp add: exact_def)

lemma raw_round_inv [simp]: "case raw_round r of Fin s \<Rightarrow> exact s | _ \<Rightarrow> True"
  by (simp add: raw_round_def exact_def Let_def)

instantiation double :: "{zero, one, plus, minus, uminus, times, inverse, ord, abs}"
begin

lift_definition zero_double :: double is "Fin 0" by simp

definition one_double :: double where "1 = D 1"

lift_definition plus_double :: "double \<Rightarrow> double \<Rightarrow> double" is raw_add
  subgoal for a b by (cases "(a, b)" rule: raw_add.cases) auto
  done

lift_definition uminus_double :: "double \<Rightarrow> double" is raw_neg
  subgoal for a by (cases a) auto
  done

definition minus_double :: "double \<Rightarrow> double \<Rightarrow> double" where
  "minus_double a b = a + (- b)"

lift_definition times_double :: "double \<Rightarrow> double \<Rightarrow> double" is raw_mul
  subgoal for a b by (cases "(a, b)" rule: raw_mul.cases) auto
  done

lift_definition divide_double :: "double \<Rightarrow> double \<Rightarrow> double" is raw_div
  subgoal for a b by (cases "(a, b)" rule: raw_div.cases) auto
  done

definition inverse_double :: "double \<Rightarrow> double" where
  "inverse_double a = 1 div a"

lift_definition less_double :: "double \<Rightarrow> double \<Rightarrow> bool" is raw_less .

lift_definition less_eq_double :: "double \<Rightarrow> double \<Rightarrow> bool" is
  "\<lambda>a b. raw_less a b \<or> raw_eq a b" .

lift_definition abs_double :: "double \<Rightarrow> double" is
  "\<lambda>a. case a of Fin r \<Rightarrow> Fin \<bar>r\<bar> | Inf _ \<Rightarrow> Inf True | Not_a_number \<Rightarrow> Not_a_number"
  subgoal for a by (cases a) (auto simp: abs_if)
  done

instance ..

end

text \<open>The C++ \<open>==\<close> on doubles.\<close>

lift_definition deq :: "double \<Rightarrow> double \<Rightarrow> bool" is raw_eq .

definition std_max :: "double \<Rightarrow> double \<Rightarrow> double" where
  "std_max a b = (if a < b then b else a)"

definition std_min :: "double \<Rightarrow> double \<Rightarrow> double" where
  "std_min a b = (if b < a then b else a)"

definition std_clamp :: "double \<Rightarrow> double \<Rightarrow> double \<Rightarrow> double" where
  "std_clamp v lo hi = (if v < lo then lo else if hi < v then hi else v)"


subsection \<open>Exact values and the cases of a double\<close>

lemma exact_bound: "exact r \<Longrightarrow> - (2 ^ 1024) < r \<and> r < 2 ^ 1024"
  by (auto simp: exact_def abs_less_iff)

lemma raw_round_exact [simp]: "exact r \<Longrightarrow> raw_round r = Fin r"
  by (simp add: raw_round_def exact_def round64_representable)

lemma exact_of_int: "\<bar>m\<bar> \<le> 2 ^ 53 \<Longrightarrow> exact (of_int m)"
proof -
  assume m: "\<bar>m\<bar> \<le> 2 ^ 53"
  then have "\<bar>of_int m :: real\<bar> \<le> 2 ^ 53"
    by (metis of_int_abs of_int_le_iff of_int_numeral of_int_power)
  also have "(2::real) ^ 53 < 2 ^ 1024"
    by (rule power_strict_increasing) simp_all
  finally show ?thesis
    using m by (simp add: exact_def representable_of_int)
qed

lemma exact_dyadic: "\<bar>m\<bar> \<le> 2 ^ 53 \<Longrightarrow> k \<le> 1074 \<Longrightarrow> exact (of_int m / 2 ^ k)"
proof -
  assume m: "\<bar>m\<bar> \<le> 2 ^ 53" and k: "k \<le> 1074"
  have "\<bar>of_int m / 2 ^ k :: real\<bar> \<le> \<bar>of_int m\<bar> / 1"
    by (simp add: divide_le_eq) (metis abs_ge_zero abs_of_pos mult_left_mono mult_1_right
        one_le_numeral one_le_power zero_less_numeral zero_less_power)
  also have "\<dots> \<le> 2 ^ 53"
    using m by (metis div_by_1 of_int_abs of_int_le_iff of_int_numeral of_int_power)
  also have "(2::real) ^ 53 < 2 ^ 1024"
    by (rule power_strict_increasing) simp_all
  finally show ?thesis
    using m k by (simp add: exact_def representable_dyadic)
qed

lemma exact_one [simp]: "exact 1"
  using exact_of_int [of 1] by simp

lemma exact_numeral [simp]: "(numeral n :: int) \<le> 2 ^ 53 \<Longrightarrow> exact (numeral n)"
  using exact_of_int [of "numeral n"] by simp

lemma exact_half [simp]: "exact (1/2)"
  using exact_dyadic [of 1 1] by simp

lemma exact_of_nat [simp]: "n \<le> 2 ^ 53 \<Longrightarrow> exact (of_nat n)"
  using exact_of_int [of "int n"] by simp

lemma D_zero [simp]: "D 0 = 0"
  by transfer simp

lemma D_one [simp]: "D 1 = 1"
  by (simp add: one_double_def)

lemma val_D [simp]: "exact r \<Longrightarrow> val (D r) = r"
  by transfer simp

lemma val_special [simp]: "val PINF = 0" "val NINF = 0" "val NAN = 0" "val 0 = 0"
  by (transfer, simp)+

lemma val_one [simp]: "val 1 = 1"
  using val_D [of 1] by simp

lemma double_cases [cases type: double]:
  obtains (fin) r where "x = D r" "exact r"
  | (pinf) "x = PINF"
  | (ninf) "x = NINF"
  | (nan) "x = NAN"
proof -
  have "(\<exists>r. x = D r \<and> exact r) \<or> x = PINF \<or> x = NINF \<or> x = NAN"
  proof transfer
    fix x :: raw_double
    assume "case x of Fin r \<Rightarrow> exact r | _ \<Rightarrow> True"
    then show "(\<exists>r. x = raw_round r \<and> exact r) \<or> x = Inf True \<or> x = Inf False \<or> x = Not_a_number"
      by (cases x) (auto intro!: exI)
  qed
  then show thesis
    using that by blast
qed

lemma D_inj: "exact r \<Longrightarrow> exact s \<Longrightarrow> D r = D s \<longleftrightarrow> r = s"
  by transfer simp

lemma D_special [simp]:
  "exact r \<Longrightarrow> D r \<noteq> PINF" "exact r \<Longrightarrow> D r \<noteq> NINF" "exact r \<Longrightarrow> D r \<noteq> NAN"
  "exact r \<Longrightarrow> PINF \<noteq> D r" "exact r \<Longrightarrow> NINF \<noteq> D r" "exact r \<Longrightarrow> NAN \<noteq> D r"
  "PINF \<noteq> NINF" "PINF \<noteq> NAN" "NINF \<noteq> NAN" "NINF \<noteq> PINF" "NAN \<noteq> PINF" "NAN \<noteq> NINF"
  by (transfer, simp)+

lemma zero_not_special [simp]:
  "PINF \<noteq> 0" "NINF \<noteq> 0" "NAN \<noteq> 0" "0 \<noteq> PINF" "0 \<noteq> NINF" "0 \<noteq> NAN"
  "PINF \<noteq> 1" "NINF \<noteq> 1" "NAN \<noteq> 1" "1 \<noteq> PINF" "1 \<noteq> NINF" "1 \<noteq> NAN"
  using D_special(1-6) [OF exact_zero] D_special(1-6) [OF exact_one] by simp_all

lemma isfinite_simps [simp]:
  "exact r \<Longrightarrow> isfinite (D r)" "\<not> isfinite PINF" "\<not> isfinite NINF" "\<not> isfinite NAN"
  "isfinite 0"
  by (transfer, simp)+

lemma isfinite_one [simp]: "isfinite 1"
  using isfinite_simps(1) [of 1] by simp

lemma isnan_simps [simp]: "\<not> isnan (D r)" "\<not> isnan PINF" "\<not> isnan NINF" "isnan NAN" "\<not> isnan 0"
  by (transfer, simp add: raw_round_def Let_def)+

lemma isnan_one [simp]: "\<not> isnan 1"
  using isnan_simps(1) [of 1] by (simp del: isnan_simps)

lemma isnan_iff: "isnan x \<longleftrightarrow> x = NAN"
  by transfer simp

lemma isfinite_iff: "isfinite x \<longleftrightarrow> (\<exists>r. exact r \<and> x = D r)"
  by (cases x) auto

lemma D_val: "isfinite x \<Longrightarrow> D (val x) = x"
  by (cases x) auto

lemma exact_val [simp]: "exact (val x)"
  by (cases x) auto

subsection \<open>Comparison\<close>

lemma D_less [simp]: "exact r \<Longrightarrow> exact s \<Longrightarrow> D r < D s \<longleftrightarrow> r < s"
  by transfer simp

lemma D_le [simp]: "exact r \<Longrightarrow> exact s \<Longrightarrow> D r \<le> D s \<longleftrightarrow> r \<le> s"
  by transfer auto

lemma D_deq [simp]: "exact r \<Longrightarrow> exact s \<Longrightarrow> deq (D r) (D s) \<longleftrightarrow> r = s"
  by transfer auto

lemma zero_D [simp]:
  "exact r \<Longrightarrow> 0 < D r \<longleftrightarrow> 0 < r" "exact r \<Longrightarrow> D r < 0 \<longleftrightarrow> r < 0"
  "exact r \<Longrightarrow> 0 \<le> D r \<longleftrightarrow> 0 \<le> r" "exact r \<Longrightarrow> D r \<le> 0 \<longleftrightarrow> r \<le> 0"
  "exact r \<Longrightarrow> deq (D r) 0 \<longleftrightarrow> r = 0" "exact r \<Longrightarrow> deq 0 (D r) \<longleftrightarrow> r = 0"
  "exact r \<Longrightarrow> D r = 0 \<longleftrightarrow> r = 0" "exact r \<Longrightarrow> 0 = D r \<longleftrightarrow> r = 0"
  using D_inj [of r 0] D_inj [of 0 r] by (auto simp flip: D_zero)

lemma raw_order:
  "\<not> raw_less x Not_a_number" "\<not> raw_less Not_a_number x"
  "\<not> raw_less x (Inf False)" "\<not> raw_less (Inf True) x" "\<not> raw_eq x Not_a_number"
  by (cases x; simp)+

lemma less_special [simp]:
  "\<not> x < NAN" "\<not> NAN < x" "\<not> x \<le> NAN" "\<not> NAN \<le> x" "\<not> x < NINF" "\<not> PINF < x"
  "exact r \<Longrightarrow> D r < PINF" "exact r \<Longrightarrow> NINF < D r" "NINF < PINF"
  "exact r \<Longrightarrow> D r \<le> PINF" "exact r \<Longrightarrow> NINF \<le> D r" "NINF \<le> PINF"
  "exact r \<Longrightarrow> \<not> PINF \<le> D r" "exact r \<Longrightarrow> \<not> D r \<le> NINF" "\<not> PINF \<le> NINF"
  "PINF \<le> PINF" "NINF \<le> NINF"
  "0 < PINF" "0 \<le> PINF" "NINF < 0" "NINF \<le> 0" "\<not> PINF \<le> 0" "\<not> 0 \<le> NINF"
  by (transfer; simp add: raw_order)+

lemma deq_special [simp]:
  "\<not> deq x NAN" "\<not> deq NAN x" "deq PINF PINF" "deq NINF NINF" "\<not> deq PINF NINF"
  "\<not> deq NINF PINF" "exact r \<Longrightarrow> \<not> deq PINF (D r)" "exact r \<Longrightarrow> \<not> deq (D r) PINF"
  "exact r \<Longrightarrow> \<not> deq NINF (D r)" "exact r \<Longrightarrow> \<not> deq (D r) NINF"
  by (transfer; simp add: raw_order)+

lemma dle_refl: "x \<noteq> NAN \<Longrightarrow> x \<le> (x :: double)"
  by (cases x) auto

lemma dle_zero_refl [simp]: "(0 :: double) \<le> 0" "\<not> (0 :: double) < 0" "(1 :: double) \<le> 1"
  "(0 :: double) < 1" "(0 :: double) \<le> 1" "\<not> (1 :: double) < 0" "\<not> (1 :: double) \<le> 0"
  by (simp_all flip: D_zero D_one)

lemma dless_imp_le: "x < y \<Longrightarrow> x \<le> (y :: double)"
  by (cases x; cases y) auto

lemma dle_trans: "x \<le> y \<Longrightarrow> y \<le> z \<Longrightarrow> x \<le> (z :: double)"
  by (cases x; cases y; cases z) auto

lemma dless_le_trans: "x < y \<Longrightarrow> y \<le> z \<Longrightarrow> x < (z :: double)"
  by (cases x; cases y; cases z) auto

lemma dle_less_trans: "x \<le> y \<Longrightarrow> y < z \<Longrightarrow> x < (z :: double)"
  by (cases x; cases y; cases z) auto

lemma dless_irrefl [simp]: "\<not> x < (x :: double)"
  by (cases x) auto

lemma dnot_less: "x \<noteq> NAN \<Longrightarrow> y \<noteq> NAN \<Longrightarrow> \<not> x < y \<longleftrightarrow> y \<le> (x :: double)"
  by (cases x; cases y) auto

lemma dless_not_sym: "x < y \<Longrightarrow> \<not> y \<le> (x :: double)"
  by (cases x; cases y) auto

lemma dle_not_nan: "x \<le> y \<Longrightarrow> x \<noteq> NAN \<and> y \<noteq> NAN"
  by auto

lemma dless_not_nan: "x < y \<Longrightarrow> x \<noteq> NAN \<and> y \<noteq> NAN"
  by auto


subsection \<open>Arithmetic\<close>

lemma raw_zero_D: "(0 :: double) = D 0" "(1 :: double) = D 1"
  by simp_all

lemma D_plus [simp]: "exact r \<Longrightarrow> exact s \<Longrightarrow> D r + D s = D (r + s)"
  by transfer simp

lemma D_uminus [simp]: "exact r \<Longrightarrow> - D r = D (- r)"
  by transfer simp

lemma D_minus [simp]: "exact r \<Longrightarrow> exact s \<Longrightarrow> D r - D s = D (r - s)"
  by (simp add: minus_double_def)

lemma D_times [simp]: "exact r \<Longrightarrow> exact s \<Longrightarrow> D r * D s = D (r * s)"
  by transfer simp

lemma D_divide [simp]: "exact r \<Longrightarrow> exact s \<Longrightarrow> s \<noteq> 0 \<Longrightarrow> D r / D s = D (r / s)"
  by transfer simp

lemma D_abs [simp]: "exact r \<Longrightarrow> \<bar>D r\<bar> = D \<bar>r\<bar>"
  by transfer (auto simp: abs_if)

lemma abs_special [simp]: "\<bar>PINF\<bar> = PINF" "\<bar>NINF\<bar> = PINF" "\<bar>NAN\<bar> = NAN" "\<bar>0 :: double\<bar> = 0"
  by (transfer, simp)+

lemma plus_special [simp]:
  "exact r \<Longrightarrow> D r + PINF = PINF" "exact r \<Longrightarrow> PINF + D r = PINF"
  "exact r \<Longrightarrow> D r + NINF = NINF" "exact r \<Longrightarrow> NINF + D r = NINF"
  "PINF + PINF = PINF" "NINF + NINF = NINF" "PINF + NINF = NAN" "NINF + PINF = NAN"
  by (transfer, simp)+

lemma raw_nan [simp]: "raw_add x Not_a_number = Not_a_number" "raw_add Not_a_number x = Not_a_number"
  "raw_mul x Not_a_number = Not_a_number" "raw_mul Not_a_number x = Not_a_number"
  "raw_div x Not_a_number = Not_a_number" "raw_div Not_a_number x = Not_a_number"
  by (cases x; simp)+

lemma nan_absorbs [simp]:
  "NAN + x = NAN" "x + NAN = NAN" "NAN * x = NAN" "x * NAN = NAN" "NAN / x = NAN" "x / NAN = NAN"
  "- NAN = NAN" "NAN - x = NAN" "x - NAN = NAN"
  unfolding minus_double_def by (transfer, simp)+

lemma uminus_special [simp]: "- PINF = NINF" "- NINF = PINF" "- (0 :: double) = 0"
  by (transfer, simp)+

lemma plus_zero [simp]: "x + 0 = (x :: double)" "0 + x = (x :: double)"
  by (cases x; simp flip: D_zero)+

lemma minus_zero [simp]: "x - 0 = (x :: double)"
  by (simp add: minus_double_def)

lemma times_one [simp]: "x * 1 = (x :: double)" "1 * x = (x :: double)"
proof -
  have "PINF * D 1 = PINF" "D 1 * PINF = PINF" "NINF * D 1 = NINF" "D 1 * NINF = NINF"
    by (transfer, simp)+
  then show "x * 1 = x" "1 * x = x"
    by (cases x; simp flip: D_one)+
qed

lemma divide_one [simp]: "x / 1 = (x :: double)"
proof -
  have "PINF / D 1 = PINF" "NINF / D 1 = NINF"
    by (transfer, simp)+
  then show "x / 1 = x"
    by (cases x; simp flip: D_one)
qed

lemma dplus_commute: "x + y = y + (x :: double)"
  by (cases x; cases y) (simp_all add: add.commute)

lemma times_inf [simp]:
  "exact r \<Longrightarrow> 0 < r \<Longrightarrow> D r * PINF = PINF" "exact r \<Longrightarrow> 0 < r \<Longrightarrow> PINF * D r = PINF"
  "exact r \<Longrightarrow> 0 < r \<Longrightarrow> D r * NINF = NINF" "exact r \<Longrightarrow> 0 < r \<Longrightarrow> NINF * D r = NINF"
  "PINF * PINF = PINF" "NINF * NINF = PINF" "PINF * NINF = NINF" "NINF * PINF = NINF"
  "PINF * 0 = NAN" "0 * PINF = NAN" "NINF * 0 = NAN" "0 * NINF = NAN"
  by (transfer, simp)+

lemma divide_inf [simp]:
  "exact r \<Longrightarrow> D r / PINF = 0" "exact r \<Longrightarrow> D r / NINF = 0"
  "exact r \<Longrightarrow> 0 \<le> r \<Longrightarrow> PINF / D r = PINF"
  "exact r \<Longrightarrow> r < 0 \<Longrightarrow> PINF / D r = NINF"
  "PINF / PINF = NAN" "PINF / NINF = NAN" "NINF / PINF = NAN" "NINF / NINF = NAN"
  "exact r \<Longrightarrow> 0 < r \<Longrightarrow> D r / 0 = PINF" "exact r \<Longrightarrow> r < 0 \<Longrightarrow> D r / 0 = NINF" "0 / 0 = NAN"
  by (transfer, simp)+

lemma times_zero_fin [simp]: "isfinite x \<Longrightarrow> x * 0 = 0" "isfinite x \<Longrightarrow> 0 * x = 0"
proof -
  show "isfinite x \<Longrightarrow> x * 0 = 0"
    by (cases x) (simp_all flip: D_zero)
  show "isfinite x \<Longrightarrow> 0 * x = 0"
    by (cases x) (simp_all flip: D_zero)
qed

subsection \<open>Order and rounding\<close>

lemma D_cases: "D r = D (round64 r) \<and> exact (round64 r) \<or> D r = PINF \<and> 2 ^ 1024 \<le> round64 r
    \<or> D r = NINF \<and> round64 r \<le> - (2 ^ 1024)"
  by transfer (auto simp: raw_round_def Let_def exact_def abs_less_iff not_less)

lemma D_not_nan [simp]: "D r \<noteq> NAN"
  using isnan_simps(1) [of r] by (simp only: isnan_iff) simp

lemma D_mono:
  assumes "r \<le> s"
  shows "D r \<le> D s"
proof -
  have m: "round64 r \<le> round64 s"
    using assms by (rule round64_mono)
  have big: "(0::real) < 2 ^ 1024"
    by (rule zero_less_power) simp
  consider (a) "D r = D (round64 r)" "exact (round64 r)" | (b) "D r = PINF" "2 ^ 1024 \<le> round64 r"
    | (c) "D r = NINF"
    using D_cases [of r] by blast
  then show ?thesis
  proof cases
    case a
    consider (aa) "D s = D (round64 s)" "exact (round64 s)" | (ab) "D s = PINF"
      | (ac) "round64 s \<le> - (2 ^ 1024)"
      using D_cases [of s] by blast
    then show ?thesis
    proof cases
      case aa
      have "D (round64 r) \<le> D (round64 s)"
        using m a(2) aa(2) by (simp only: D_le)
      then show ?thesis
        by (simp only: a(1) [symmetric] aa(1) [symmetric])
    next
      case ab
      have "D (round64 r) \<le> PINF"
        using a(2) by (rule less_special)
      then show ?thesis
        by (simp only: ab a(1) [symmetric])
    next
      case ac
      then show ?thesis
        using m a(2) exact_bound [of "round64 r"] by linarith
    qed
  next
    case b
    then have "2 ^ 1024 \<le> round64 s"
      using m by linarith
    then have "D s = PINF"
      using D_cases [of s] exact_bound [of "round64 s"] big by auto
    with b show ?thesis
      by simp
  next
    case c
    then show ?thesis
      by (cases "D s") auto
  qed
qed

lemma D_between_inf [simp]: "NINF \<le> D r" "D r \<le> PINF"
  by (cases "D r"; auto)+

lemma D_nonneg: "0 \<le> r \<Longrightarrow> 0 \<le> D r"
  using D_mono [of 0 r] by simp

lemma D_le_exact: "r \<le> s \<Longrightarrow> exact s \<Longrightarrow> D r \<le> D s"
  by (rule D_mono)

lemma dplus_nonneg: "0 \<le> x \<Longrightarrow> 0 \<le> y \<Longrightarrow> 0 \<le> x + (y :: double)"
  by (cases x; cases y) (auto intro: D_nonneg)

lemma dtimes_nonneg: "0 \<le> x \<Longrightarrow> 0 \<le> y \<Longrightarrow> isfinite x \<Longrightarrow> isfinite y \<Longrightarrow> 0 \<le> x * (y :: double)"
  by (cases x; cases y) (auto intro: D_nonneg)

lemma ddivide_nonneg: "0 \<le> x \<Longrightarrow> 0 < y \<Longrightarrow> isfinite x \<Longrightarrow> 0 \<le> x / (y :: double)"
  by (cases x; cases y) (auto intro: D_nonneg)

lemma dplus_mono:
  "x \<le> y \<Longrightarrow> isfinite z \<Longrightarrow> x + z \<le> y + (z :: double)"
  by (cases x; cases y; cases z) (auto intro: D_mono)

lemma std_max_ge: "b \<noteq> NAN \<Longrightarrow> a \<noteq> NAN \<Longrightarrow> a \<le> std_max a b \<and> b \<le> std_max a b"
  by (cases a; cases b) (auto simp: std_max_def)

lemma std_max_left: "a \<noteq> NAN \<Longrightarrow> a \<le> std_max a b"
  by (cases a; cases b) (auto simp: std_max_def)

lemma std_min_left: "a \<noteq> NAN \<Longrightarrow> std_min a b \<le> a"
  by (cases a; cases b) (auto simp: std_min_def)

lemma std_min_ge: "c \<le> a \<Longrightarrow> c \<le> b \<Longrightarrow> c \<le> std_min a b"
  by (simp add: std_min_def)

lemma std_max_le: "a \<le> c \<Longrightarrow> b \<le> c \<Longrightarrow> std_max a b \<le> c"
  by (simp add: std_max_def)

lemma std_clamp_bounds:
  "v \<noteq> NAN \<Longrightarrow> lo \<le> hi \<Longrightarrow> lo \<le> std_clamp v lo hi \<and> std_clamp v lo hi \<le> hi"
  by (cases v; cases lo; cases hi) (auto simp: std_clamp_def)


subsection \<open>Elementary functions\<close>

text \<open>
  The functions of \<open>cmath\<close>, correctly rounded where they are defined, NaN outside their domain and
  with the limits the standard gives at the infinities.
\<close>

definition lift_fun :: "(real \<Rightarrow> double) \<Rightarrow> double \<Rightarrow> double \<Rightarrow> double \<Rightarrow> double" where
  "lift_fun f at_pinf at_ninf x =
     (if isfinite x then f (val x) else if x = PINF then at_pinf
      else if x = NINF then at_ninf else NAN)"

definition dsqrt :: "double \<Rightarrow> double" where
  "dsqrt = lift_fun (\<lambda>r. if r < 0 then NAN else D (sqrt r)) PINF NAN"

definition dexp :: "double \<Rightarrow> double" where
  "dexp = lift_fun (\<lambda>r. D (exp r)) PINF 0"

definition dcos :: "double \<Rightarrow> double" where
  "dcos = lift_fun (\<lambda>r. D (cos r)) NAN NAN"

definition dsin :: "double \<Rightarrow> double" where
  "dsin = lift_fun (\<lambda>r. D (sin r)) NAN NAN"

definition dtanh :: "double \<Rightarrow> double" where
  "dtanh = lift_fun (\<lambda>r. D (tanh r)) (D 1) (D (- 1))"

definition dcbrt :: "double \<Rightarrow> double" where
  "dcbrt = lift_fun (\<lambda>r. D (root 3 r)) PINF NINF"

definition dacos :: "double \<Rightarrow> double" where
  "dacos = lift_fun (\<lambda>r. if \<bar>r\<bar> \<le> 1 then D (arccos r) else NAN) NAN NAN"

text \<open>\<open>atan2(y, x)\<close> is the argument of \<open>x + iy\<close>; infinite coordinates count by their sign only.\<close>

definition direction :: "double \<Rightarrow> real" where
  "direction x = (if x = PINF then 1 else if x = NINF then - 1 else 0)"

definition datan2 :: "double \<Rightarrow> double \<Rightarrow> double" where
  "datan2 y x =
     (if isnan y \<or> isnan x then NAN
      else if isfinite y \<and> isfinite x then D (Arg (Complex (val x) (val y)))
      else D (Arg (Complex (direction x) (direction y))))"

text \<open>\<open>std::pow\<close>: a zero exponent gives one, a negative base needs an integral exponent.\<close>

definition pow_fin :: "real \<Rightarrow> real \<Rightarrow> double" where
  "pow_fin r s =
     (if s = 0 then D 1
      else if 0 < r then D (r powr s)
      else if r = 0 then (if 0 < s then 0 else PINF)
      else if s \<in> \<int> then D (r powi \<lfloor>s\<rfloor>)
      else NAN)"

definition dpow :: "double \<Rightarrow> double \<Rightarrow> double" where
  "dpow x y =
     (if y = 0 \<or> x = 1 then D 1
      else if isnan x \<or> isnan y then NAN
      else if isfinite x \<and> isfinite y then pow_fin (val x) (val y)
      else if isfinite x then
        (if \<bar>x\<bar> = 1 then D 1 else if (1 < \<bar>x\<bar>) = (y = PINF) then PINF else 0)
      else if x = PINF then (if 0 < y then PINF else 0)
      else if 0 < y then (if isfinite y \<and> odd \<lfloor>val y\<rfloor> \<and> val y \<in> \<int> then NINF else PINF)
      else 0)"

definition M_PI :: double where
  "M_PI = D (314159265358979323846 / 10 ^ 20)"

definition dround :: "double \<Rightarrow> double" where
  "dround x = (if isfinite x then
     D (if 0 \<le> val x then of_int \<lfloor>val x + 1/2\<rfloor> else - of_int \<lfloor>- val x + 1/2\<rfloor>) else x)"

text \<open>\<open>static_cast<int>\<close> truncates towards zero; a value outside the type's range is undefined.\<close>

definition trunc_to :: "int \<Rightarrow> int \<Rightarrow> double \<Rightarrow> int result" where
  "trunc_to lo hi x =
     (if isfinite x then
        (let t = (if 0 \<le> val x then \<lfloor>val x\<rfloor> else \<lceil>val x\<rceil>)
         in if lo \<le> t \<and> t \<le> hi then Inr t else Inl (UB ''float to integer out of range''))
      else Inl (UB ''float to integer out of range''))"

definition to_int32 :: "double \<Rightarrow> int result" where
  "to_int32 = trunc_to (- (2 ^ 31)) (2 ^ 31 - 1)"

definition of_i :: "int \<Rightarrow> double" where
  "of_i k = D (of_int k)"

lemma lift_fun_simps [simp]:
  "exact r \<Longrightarrow> lift_fun f p n (D r) = f r" "lift_fun f p n PINF = p" "lift_fun f p n NINF = n"
  "lift_fun f p n NAN = NAN" "lift_fun f p n 0 = f 0"
  by (auto simp: lift_fun_def)

lemma dsqrt_nonneg: "0 \<le> x \<Longrightarrow> 0 \<le> dsqrt x"
  by (cases x) (auto simp: dsqrt_def intro: D_nonneg)

lemma dexp_nonneg: "x \<noteq> NAN \<Longrightarrow> 0 \<le> dexp x"
  by (cases x) (auto simp: dexp_def intro: D_nonneg)

lemma of_i_nonneg: "0 \<le> k \<Longrightarrow> 0 \<le> of_i k"
  by (simp add: of_i_def D_nonneg)

lemma of_i_exact: "\<bar>k\<bar> \<le> 2 ^ 53 \<Longrightarrow> isfinite (of_i k)"
  by (simp add: of_i_def exact_of_int)

lemma of_i_mono: "k \<le> l \<Longrightarrow> of_i k \<le> of_i l"
  by (simp add: of_i_def D_mono)

lemma to_int32_range: "to_int32 x = Inr k \<Longrightarrow> - (2 ^ 31) \<le> k \<and> k \<le> 2 ^ 31 - 1"
  by (auto simp: to_int32_def trunc_to_def Let_def split: if_splits)

subsection \<open>Bit patterns\<close>

text \<open>\<open>std::memcpy\<close> between an integer and a \<open>double\<close> or \<open>float\<close> of its size.\<close>

definition ieee_decode :: "nat \<Rightarrow> nat \<Rightarrow> bool \<Rightarrow> nat \<Rightarrow> nat \<Rightarrow> double" where
  "ieee_decode ebits mbits neg e m =
     (let bias = 2 ^ (ebits - 1) - 1; s = (if neg then - 1 else 1) in
      if e = 2 ^ ebits - 1 then (if m \<noteq> 0 then NAN else if neg then NINF else PINF)
      else if e = 0 then D (s * of_nat m * 2 powi (1 - int bias - int mbits))
      else D (s * of_nat (2 ^ mbits + m) * 2 powi (int e - int bias - int mbits)))"

definition double_of_bits :: "u64 \<Rightarrow> double" where
  "double_of_bits w =
     ieee_decode 11 52 (bit w 63) (unat (drop_bit 52 w AND 0x7FF)) (unat (take_bit 52 w))"

definition double_of_float_bits :: "u32 \<Rightarrow> double" where
  "double_of_float_bits w =
     ieee_decode 8 23 (bit w 31) (unat (drop_bit 23 w AND 0xFF)) (unat (take_bit 23 w))"


definition bits_of_double :: "double \<Rightarrow> u64" where
  "bits_of_double x =
     (if x = NAN then 0x7FF8000000000000
      else if x = PINF then 0x7FF0000000000000
      else if x = NINF then 0xFFF0000000000000
      else (let r = val x; a = \<bar>r\<bar>; s = (if r < 0 then 2 ^ 63 else 0) in
        if a = 0 then 0
        else (let e = ulp_exp a; m = \<lfloor>a / 2 powi e\<rfloor> in
          word_of_int (s + (if m < 2 ^ 52 then m else (e + 1075) * 2 ^ 52 + (m - 2 ^ 52))))))"

lemma ieee_fields:
  assumes "m < 2 ^ 52" and "e < 2 ^ 11" and "s \<le> 1"
  defines "w \<equiv> (word_of_nat (s * 2 ^ 63 + e * 2 ^ 52 + m) :: u64)"
  shows "bit w 63 \<longleftrightarrow> s = 1" and "unat (drop_bit 52 w AND 0x7FF) = e" and "unat (take_bit 52 w) = m"
proof -
  let ?n = "s * 2 ^ 63 + e * 2 ^ 52 + m"
  have lt: "?n < 2 ^ 64"
    using assms(1-3) by simp
  then have u: "unat w = ?n"
    unfolding w_def by (simp only: unsigned_of_nat) (simp add: take_bit_nat_eq_self)
  have q: "?n div 2 ^ 52 = s * 2 ^ 11 + e"
    using assms(1) by simp
  have "bit w 63 \<longleftrightarrow> bit (unat w) 63"
    by (simp add: bit_unsigned_iff)
  also have "\<dots> \<longleftrightarrow> odd (?n div 2 ^ 63)"
    by (simp only: u bit_iff_odd)
  also have "?n div 2 ^ 63 = s"
    using assms(1,2) by simp
  also have "odd s \<longleftrightarrow> s = 1"
    using assms(3) by presburger
  finally show "bit w 63 \<longleftrightarrow> s = 1" .
  have "(0x7FF :: u64) = mask 11"
    by (simp add: mask_eq_exp_minus_1)
  then have "drop_bit 52 w AND 0x7FF = take_bit 11 (drop_bit 52 w)"
    by (simp only: take_bit_eq_mask)
  then have "unat (drop_bit 52 w AND 0x7FF) = (unat w div 2 ^ 52) mod 2 ^ 11"
    by (simp only: unsigned_take_bit_eq unat_drop_bit_eq)
       (simp only: take_bit_eq_mod drop_bit_eq_div)
  also have "\<dots> = (s * 2 ^ 11 + e) mod 2 ^ 11"
    by (simp only: u q)
  also have "\<dots> = e"
    using assms(2) by simp
  finally show "unat (drop_bit 52 w AND 0x7FF) = e" .
  have "unat (take_bit 52 w) = ?n mod 2 ^ 52"
    by (simp only: unsigned_take_bit_eq u) (simp only: take_bit_eq_mod)
  also have "?n = m + 2 ^ 52 * (s * 2 ^ 11 + e)"
    by simp
  also have "\<dots> mod 2 ^ 52 = m"
    using assms(1) by (simp only: mod_mult_self2) simp
  finally show "unat (take_bit 52 w) = m" .
qed

lemma exact_fields:
  assumes "exact a" and "0 < a"
  obtains m :: int where "a = of_int m * 2 powi ulp_exp a" "\<lfloor>a / 2 powi ulp_exp a\<rfloor> = m" "0 < m" "m < 2 ^ 53"
    "m < 2 ^ 52 \<longrightarrow> ulp_exp a = - 1074" "- 1074 \<le> ulp_exp a" "ulp_exp a \<le> 971"
proof -
  let ?e = "ulp_exp a"
  define m where "m = rne (a / 2 powi ?e)"
  have "round_pos a = a"
    using assms by (simp add: exact_def round_pos_representable)
  then have a: "a = of_int m * 2 powi ?e"
    by (simp add: round_pos_def m_def)
  then have fl: "\<lfloor>a / 2 powi ?e\<rfloor> = m"
    by (metis floor_of_int nonzero_mult_div_cancel_right order_less_irrefl powi_pos)
  have pos: "0 < m"
    using a assms(2) powi_pos [of ?e] by (metis of_int_0_less_iff zero_less_mult_pos2)
  have lt: "\<lfloor>log 2 a\<rfloor> < 1024"
  proof -
    have "a < 2 powi int 1024"
      using exact_bound [OF assms(1)] unfolding power_int_of_nat by blast
    then have "2 powi \<lfloor>log 2 a\<rfloor> < (2::real) powi int 1024"
      by (rule le_less_trans [OF floor_log2_bounds(1) [OF assms(2)]])
    then show ?thesis
      unfolding powi_less_iff by simp
  qed
  have "a < 2 powi (53 + ?e)"
    using floor_log2_bounds(2) [OF assms(2)]
    by (rule less_le_trans) (simp add: ulp_exp_def)
  then have "of_int m * 2 powi ?e < (2::real) ^ 53 * 2 powi ?e"
    by (simp only: a [symmetric]) (simp add: power_int_add)
  then have "of_int m < (2::real) ^ 53"
    using powi_pos [of ?e] by simp
  then have hi: "m < 2 ^ 53"
    by (metis of_int_less_iff of_int_numeral of_int_power)
  have sub: "m < 2 ^ 52 \<longrightarrow> ?e = - 1074"
  proof (rule impI, rule ccontr)
    assume that: "m < 2 ^ 52"
    assume "?e \<noteq> - 1074"
    then have "2 powi (52 + ?e) \<le> a"
      using floor_log2_bounds(1) [OF assms(2)] by (simp add: ulp_exp_def max_def split: if_splits)
    then have "2 ^ 52 * 2 powi ?e \<le> of_int m * (2::real) powi ?e"
      by (simp only: a [symmetric]) (simp add: power_int_add)
    then have "(2::real) ^ 52 \<le> of_int m"
      using powi_pos [of ?e] by simp
    then have "2 ^ 52 \<le> m"
      by (metis of_int_le_iff of_int_numeral of_int_power)
    then show False
      using that by simp
  qed
  show thesis
    using that [OF a fl pos hi sub] lt by (simp add: ulp_exp_def)
qed


lemma double_of_fields:
  assumes "m < 2 ^ 52" and "e < 2 ^ 11" and "s \<le> 1"
  shows "double_of_bits (word_of_nat (s * 2 ^ 63 + e * 2 ^ 52 + m)) = ieee_decode 11 52 (s = 1) e m"
  unfolding double_of_bits_def using ieee_fields [OF assms] by simp

text \<open>Writing a double to memory and reading it back gives the double.\<close>

lemma double_bits_roundtrip: "double_of_bits (bits_of_double x) = x"
proof (cases x)
  case nan
  then show ?thesis
    using double_of_fields [of "2 ^ 51" "2 ^ 11 - 1" 0]
    by (simp add: bits_of_double_def ieee_decode_def)
next
  case pinf
  then show ?thesis
    using double_of_fields [of 0 "2 ^ 11 - 1" 0] by (simp add: bits_of_double_def ieee_decode_def)
next
  case ninf
  then show ?thesis
    using double_of_fields [of 0 "2 ^ 11 - 1" 1] by (simp add: bits_of_double_def ieee_decode_def)
next
  case (fin r)
  show ?thesis
  proof (cases "r = 0")
    case True
    with fin show ?thesis
      using double_of_fields [of 0 0 0]
      by (simp add: bits_of_double_def ieee_decode_def)
  next
    case False
    let ?a = "\<bar>r\<bar>"
    have "exact ?a" "0 < ?a"
      using fin(2) False by (simp_all add: abs_if)
    then obtain m where m: "?a = of_int m * 2 powi ulp_exp ?a" "\<lfloor>?a / 2 powi ulp_exp ?a\<rfloor> = m"
      "0 < m" "m < 2 ^ 53" "m < 2 ^ 52 \<longrightarrow> ulp_exp ?a = - 1074" "- 1074 \<le> ulp_exp ?a"
      "ulp_exp ?a \<le> 971"
      by (rule exact_fields)
    let ?e = "ulp_exp ?a" and ?s = "if r < 0 then 1 else 0 :: nat"
    have r: "r = (if ?s = 1 then - 1 else 1) * ?a"
      by simp
    have x: "x \<noteq> NAN" "x \<noteq> PINF" "x \<noteq> NINF" "val x = r" "(?a = 0) = False"
      using fin False by simp_all
    have bits: "bits_of_double x = word_of_int ((if r < 0 then 2 ^ 63 else 0)
        + (if m < 2 ^ 52 then m else (?e + 1075) * 2 ^ 52 + (m - 2 ^ 52)))"
      unfolding bits_of_double_def Let_def x(4) m(2)
      by (simp only: x(1-3,5) simp_thms if_False)
    show ?thesis
    proof (cases "m < 2 ^ 52")
      case True
      have "bits_of_double x = word_of_int (int (?s * 2 ^ 63 + 0 * 2 ^ 52 + nat m))"
        using m(3) True by (simp add: bits)
      then have "bits_of_double x = word_of_nat (?s * 2 ^ 63 + 0 * 2 ^ 52 + nat m)"
        by (simp only: of_int_of_nat_eq)
      then have "double_of_bits (bits_of_double x) = ieee_decode 11 52 (?s = 1) 0 (nat m)"
        using True m(3) double_of_fields [of "nat m" 0 ?s] by (simp only:) (simp add: nat_less_iff)
      also have "\<dots> = D ((if ?s = 1 then - 1 else 1) * of_int m * 2 powi (- 1074))"
        using m(3) by (simp add: ieee_decode_def Let_def)
      also have "\<dots> = x"
        using m(1) mp [OF m(5) True] r fin(1) by (metis mult.assoc)
      finally show ?thesis .
    next
      case nt: False
      let ?b = "nat (?e + 1075)" and ?m = "nat (m - 2 ^ 52)"
      have b: "?b < 2 ^ 11" "?b \<noteq> 2 ^ 11 - 1" "?b \<noteq> 0" "int ?b = ?e + 1075"
        using m(6,7) by (simp_all add: nat_less_iff)
      have mm: "?m < 2 ^ 52" "int (2 ^ 52 + ?m) = m"
        using nt m(4) by (simp_all add: nat_less_iff)
      have "bits_of_double x = word_of_int (int (?s * 2 ^ 63 + ?b * 2 ^ 52 + ?m))"
        using nt mm b by (simp add: bits)
      then have "bits_of_double x = word_of_nat (?s * 2 ^ 63 + ?b * 2 ^ 52 + ?m)"
        by (simp only: of_int_of_nat_eq)
      then have "double_of_bits (bits_of_double x) = ieee_decode 11 52 (?s = 1) ?b ?m"
        using mm(1) b(1) double_of_fields [of ?m ?b ?s] by (simp only:) simp
      also have "\<dots> = D ((if ?s = 1 then - 1 else 1) * of_nat (2 ^ 52 + ?m) * 2 powi (int ?b - 1075))"
        using b(2,3) by (simp add: ieee_decode_def Let_def)
      also have "of_nat (2 ^ 52 + ?m) = (of_int m :: real)"
        using mm(2) by (metis of_int_of_nat_eq)
      also have "int ?b - 1075 = ?e"
        using b(4) by simp
      also have "D ((if ?s = 1 then - 1 else 1) * of_int m * 2 powi ?e) = x"
        using m(1) r fin(1) by (metis mult.assoc)
      finally show ?thesis .
    qed
  qed
qed

end
