(* ===== verification/Json.thy ===== *)
theory Json
  imports Binary64
begin

section \<open>JSON values\<close>

text \<open>
  The values of \<open>nlohmann::json\<close> as data (RFC 8259, with integers and doubles kept apart as
  the library does) and the few accesses the backend makes: \<open>contains\<close>, \<open>at\<close>, \<open>value\<close>, the
  assignment \<open>j[k] = v\<close> and the conversions of \<open>get\<close>. An object is an association list with
  distinct keys. The parser and the printer of the library are parameters of the functions
  that call them.
\<close>

datatype json =
    JNull
  | JBool bool
  | JInt int
  | JNum double
  | JStr string
  | JArr "json list"
  | JObj "(string \<times> json) list"

type_synonym json_parser = "bytes \<Rightarrow> json result"

definition json_contains :: "json \<Rightarrow> string \<Rightarrow> bool" where
  "json_contains j k = (case j of JObj kvs \<Rightarrow> map_of kvs k \<noteq> None | _ \<Rightarrow> False)"

definition json_at :: "json \<Rightarrow> string \<Rightarrow> json result" where
  "json_at j k = (case j of
      JObj kvs \<Rightarrow> (case map_of kvs k of Some v \<Rightarrow> Inr v | None \<Rightarrow> Inl Json_error)
    | _ \<Rightarrow> Inl Json_error)"

fun alist_put :: "string \<Rightarrow> json \<Rightarrow> (string \<times> json) list \<Rightarrow> (string \<times> json) list" where
  "alist_put k v [] = [(k, v)]"
| "alist_put k v ((k', v') # kvs) =
     (if k = k' then (k, v) # kvs else (k', v') # alist_put k v kvs)"

text \<open>\<open>j[k] = v\<close> turns a null value into an object and throws on any other non-object.\<close>

definition json_put :: "string \<Rightarrow> json \<Rightarrow> json \<Rightarrow> json result" where
  "json_put k v j = (case j of
      JObj kvs \<Rightarrow> Inr (JObj (alist_put k v kvs))
    | JNull \<Rightarrow> Inr (JObj [(k, v)])
    | _ \<Rightarrow> Inl Json_error)"

definition json_get_num :: "json \<Rightarrow> double result" where
  "json_get_num j = (case j of
      JInt i \<Rightarrow> Inr (of_i i) | JNum d \<Rightarrow> Inr d
    | _ \<Rightarrow> Inl Json_error)"

definition wrap32 :: "int \<Rightarrow> int" where
  "wrap32 i = signed_take_bit 31 i"

definition json_get_int :: "json \<Rightarrow> int result" where
  "json_get_int j = (case j of
      JInt i \<Rightarrow> Inr (wrap32 i) | JNum d \<Rightarrow> to_int32 d | JBool b \<Rightarrow> Inr (if b then 1 else 0)
    | _ \<Rightarrow> Inl Json_error)"

definition json_get_bool :: "json \<Rightarrow> bool result" where
  "json_get_bool j = (case j of JBool b \<Rightarrow> Inr b | _ \<Rightarrow> Inl Json_error)"

definition json_get_str :: "json \<Rightarrow> string result" where
  "json_get_str j = (case j of JStr s \<Rightarrow> Inr s | _ \<Rightarrow> Inl Json_error)"

text \<open>\<open>j.value(k, dflt)\<close>: the default when the key is missing, an exception on a non-object.\<close>

definition json_value :: "(json \<Rightarrow> 'a result) \<Rightarrow> json \<Rightarrow> string \<Rightarrow> 'a \<Rightarrow> 'a result" where
  "json_value get j k dflt = (case j of
      JObj kvs \<Rightarrow> (case map_of kvs k of Some v \<Rightarrow> get v | None \<Rightarrow> Inr dflt)
    | _ \<Rightarrow> Inl Json_error)"

text \<open>The conversion from \<open>std::vector<double>\<close>.\<close>

definition num_array :: "double list \<Rightarrow> json" where
  "num_array xs = JArr (map JNum xs)"

text \<open>The elements a range-based \<open>for\<close> over a value visits.\<close>

definition json_elements :: "json \<Rightarrow> json list" where
  "json_elements j = (case j of JNull \<Rightarrow> [] | JArr xs \<Rightarrow> xs | JObj kvs \<Rightarrow> map snd kvs | _ \<Rightarrow> [j])"

subsection \<open>Reading settings one by one\<close>

text \<open>A reader that throws leaves the settings read before it changed.\<close>

text \<open>\<open>if (j.contains(k)) j.at(k).get_to(field)\<close>, for one field.\<close>

type_synonym 'c loader = "json \<Rightarrow> 'c \<Rightarrow> cpp_error option \<times> 'c"

definition field :: "(json \<Rightarrow> 'a result) \<Rightarrow> string \<Rightarrow> ('a \<Rightarrow> 'c \<Rightarrow> 'c) \<Rightarrow> 'c loader" where
  "field get k assign j c =
     (if json_contains j k then
        (case and_then (json_at j k) get of Inl e \<Rightarrow> (Some e, c) | Inr v \<Rightarrow> (None, assign v c))
      else (None, c))"

fun in_order :: "'c loader list \<Rightarrow> 'c loader" where
  "in_order [] j c = (None, c)"
| "in_order (f # fs) j c =
     (case f j c of (Some e, c) \<Rightarrow> (Some e, c) | (None, c) \<Rightarrow> in_order fs j c)"

definition section_of :: "string \<Rightarrow> ('c \<Rightarrow> 'd) \<Rightarrow> ('d \<Rightarrow> 'c \<Rightarrow> 'c) \<Rightarrow> 'd loader \<Rightarrow> 'c loader" where
  "section_of k get put f j c =
     (if json_contains j k then
        (case json_at j k of Inl e \<Rightarrow> (Some e, c)
         | Inr d \<Rightarrow> (case f d (get c) of (e, x) \<Rightarrow> (e, put x c)))
      else (None, c))"

lemma wrap32_range: "- (2 ^ 31) \<le> wrap32 i \<and> wrap32 i < 2 ^ 31"
  using signed_take_bit_int_greater_eq_minus_exp [of 31 i] signed_take_bit_int_less_exp [of 31 i]
  by (simp add: wrap32_def)

lemma map_of_alist_put: "map_of (alist_put k v kvs) = (map_of kvs)(k \<mapsto> v)"
  by (induction kvs rule: alist_put.induct) auto

lemma json_put_contains:
  "json_put k v j = Inr j' \<Longrightarrow> json_contains j' k' \<longleftrightarrow> k' = k \<or> json_contains j k'"
  by (auto simp: json_put_def json_contains_def map_of_alist_put split: json.splits if_splits)

lemma json_put_at: "json_put k v j = Inr j' \<Longrightarrow> json_at j' k = Inr v"
  by (auto simp: json_put_def json_at_def map_of_alist_put split: json.splits)

lemma json_at_error: "json_at j k = Inl e \<Longrightarrow> e = Json_error"
  by (cases j) (auto simp: json_at_def split: option.splits)

lemma json_get_num_error: "json_get_num j = Inl e \<Longrightarrow> e = Json_error"
  by (cases j) (auto simp: json_get_num_def)

end
