(* ===== verification/Data_Model.thy ===== *)
theory Data_Model
  imports Json
begin

section \<open>The shared data of the backend (include/common.h)\<close>

text \<open>
  The enumerations and structures that the parser, the pipeline modules, the database and the
  servers exchange. A C++ \<open>int\<close> is an \<open>int\<close> here (the value it holds), a \<open>time_point\<close> is its
  nanosecond count, \<open>std::optional\<close> is \<open>option\<close>. A field the code leaves uninitialised holds
  \<open>indeterminate\<close>.
\<close>

type_synonym time_point = int

definition indeterminate :: "'a" where
  "indeterminate = undefined"

datatype alert_type =
  CRACK_DEPTH_EXCEEDED | CRACK_WIDTH_EXCEEDED | CRACK_PROPAGATION_RISK | VIBRATION_ANOMALY

datatype alert_status = PENDING | ACKNOWLEDGED | RESOLVED | IGNORED

datatype sensor_type = LASER_CONFOCAL_MICROSCOPE | MICRO_VIBRATION_SENSOR

datatype dynasty_type = SONG | YUAN

datatype repair_material_type = ZIRCONIA | SILICA | COMPOSITE

type_synonym vec = "double \<times> double \<times> double"

record point3d =
  px :: double
  py :: double
  pz :: double
  pdepth :: double
  pwidth :: double
  pnormal :: "(double \<times> double \<times> double) option"
  pcurvature :: "double option"

record crack_info =
  ci_id :: int
  ci_porcelain_id :: int
  ci_crack_code :: string
  ci_max_depth :: double
  ci_max_width :: double
  ci_total_length :: double
  ci_status :: string
  ci_points :: "point3d list"
  ci_detected_at :: time_point

record porcelain_info =
  po_id :: int
  po_museum_id :: string
  po_name :: string
  po_dynasty :: dynasty_type
  po_production_year :: int
  po_description :: string
  po_origin_location :: string
  po_dimensions :: json
  po_model_path :: "string option"

record laser_data =
  ld_id :: int
  ld_sensor_id :: int
  ld_porcelain_id :: int
  ld_measurement_time :: time_point
  ld_scan_area :: "double list"
  ld_resolution :: double
  ld_crack_detected :: bool
  ld_crack_count :: int
  ld_cracks :: "crack_info list"
  ld_processed_data :: json

record vibration_data =
  vd_id :: int
  vd_sensor_id :: int
  vd_porcelain_id :: int
  vd_measurement_time :: time_point
  vd_frequency_spectrum :: json
  vd_amplitude :: "double list"
  vd_rms_value :: double
  vd_peak_value :: double
  vd_dominant_frequency :: double
  vd_temperature :: double
  vd_humidity :: double

record alert =
  al_id :: int
  al_type :: alert_type
  al_porcelain_id :: int
  al_crack_id :: int
  al_sensor_id :: int
  al_threshold_value :: double
  al_actual_value :: double
  al_unit :: string
  al_message :: string
  al_status :: alert_status
  al_sms_sent :: bool
  al_websocket_sent :: bool
  al_created_at :: time_point

record crack_prediction =
  cp_id :: int
  cp_crack_id :: int
  cp_model_type :: string
  cp_parameters :: json
  cp_time_horizon_hours :: int
  cp_predicted_depth :: double
  cp_predicted_width :: double
  cp_predicted_length :: double
  cp_confidence :: double
  cp_risk_level :: string

record repair_material =
  rm_id :: int
  rm_type :: repair_material_type
  rm_name :: string
  rm_manufacturer :: string
  rm_particle_size_nm :: double
  rm_purity :: double
  rm_viscosity :: double
  rm_refractive_index :: double
  rm_thermal_expansion_coeff :: double
  rm_properties :: json

record repair_simulation =
  rs_id :: int
  rs_crack_id :: int
  rs_material_id :: int
  rs_method :: string
  rs_parameters :: json
  rs_particle_count :: int
  rs_filling_rate :: double
  rs_bonding_strength :: double
  rs_surface_smoothness :: double
  rs_durability_score :: double
  rs_result :: json

record profinet_packet =
  pp_source_ip :: string
  pp_destination_ip :: string
  pp_packet_type :: string
  pp_frame_id :: u16
  pp_payload :: bytes
  pp_received_at :: time_point

definition ALERT_DEPTH_THRESHOLD :: double where
  "ALERT_DEPTH_THRESHOLD = D 200"

definition ALERT_WIDTH_THRESHOLD :: double where
  "ALERT_WIDTH_THRESHOLD = D 50"

fun sensor_type_to_string :: "sensor_type \<Rightarrow> string" where
  "sensor_type_to_string LASER_CONFOCAL_MICROSCOPE = ''LASER_CONFOCAL_MICROSCOPE''"
| "sensor_type_to_string MICRO_VIBRATION_SENSOR = ''MICRO_VIBRATION_SENSOR''"

fun alert_type_to_string :: "alert_type \<Rightarrow> string" where
  "alert_type_to_string CRACK_DEPTH_EXCEEDED = ''CRACK_DEPTH_EXCEEDED''"
| "alert_type_to_string CRACK_WIDTH_EXCEEDED = ''CRACK_WIDTH_EXCEEDED''"
| "alert_type_to_string CRACK_PROPAGATION_RISK = ''CRACK_PROPAGATION_RISK''"
| "alert_type_to_string VIBRATION_ANOMALY = ''VIBRATION_ANOMALY''"

fun material_type_to_string :: "repair_material_type \<Rightarrow> string" where
  "material_type_to_string ZIRCONIA = ''ZIRCONIA''"
| "material_type_to_string SILICA = ''SILICA''"
| "material_type_to_string COMPOSITE = ''COMPOSITE''"

text \<open>\<open>to_json\<close> and \<open>from_json\<close> of a point: reading back restores the coordinates and leaves the
  optional fields of the target as they were.\<close>

definition point_to_json :: "point3d \<Rightarrow> json" where
  "point_to_json p = JObj
     ([(''x'', JNum (px p)), (''y'', JNum (py p)), (''z'', JNum (pz p)),
       (''depth'', JNum (pdepth p)), (''width'', JNum (pwidth p))] @
      (case pnormal p of
         Some (a, b, c) \<Rightarrow> [(''normal'', JArr [JNum a, JNum b, JNum c])] | None \<Rightarrow> []) @
      (case pcurvature p of Some c \<Rightarrow> [(''curvature'', JNum c)] | None \<Rightarrow> []))"

definition point_from_json :: "json \<Rightarrow> point3d \<Rightarrow> point3d result" where
  "point_from_json j p =
     and_then (and_then (json_at j ''x'') json_get_num) (\<lambda>x.
     and_then (and_then (json_at j ''y'') json_get_num) (\<lambda>y.
     and_then (and_then (json_at j ''z'') json_get_num) (\<lambda>z.
     and_then (and_then (json_at j ''depth'') json_get_num) (\<lambda>d.
     and_then (and_then (json_at j ''width'') json_get_num) (\<lambda>w.
       Inr (p\<lparr>px := x, py := y, pz := z, pdepth := d, pwidth := w\<rparr>))))))"

record stress_tensor =
  sigma_xx :: double
  sigma_yy :: double
  sigma_zz :: double
  tau_xy :: double
  tau_yz :: double
  tau_zx :: double
  von_mises :: double

record stress_grid_point =
  gx :: double
  gy :: double
  gz :: double
  gstress :: stress_tensor
  gcrack_density :: double
  gprincipal_direction :: double
  grefinement_level :: int

record stress_analysis_result =
  sa_id :: int
  sa_porcelain_id :: int
  sa_method :: string
  sa_parameters :: json
  sa_grid_points :: "stress_grid_point list"
  sa_max_von_mises :: double
  sa_avg_von_mises :: double
  sa_high_stress_area_ratio :: double
  sa_result :: json
  sa_created_at :: time_point

record penetration_prediction =
  pn_id :: int
  pn_crack_id :: int
  pn_material_id :: int
  pn_method :: string
  pn_parameters :: json
  pn_success :: bool
  pn_target_depth_um :: double
  pn_viscosity_pa_s :: double
  pn_surface_tension_n_m :: double
  pn_contact_angle_deg :: double
  pn_crack_width_um :: double
  pn_predicted_time_s :: double
  pn_penetration_rate_um_s :: double
  pn_time_series :: "double list"
  pn_depth_series :: "double list"
  pn_result :: json
  pn_created_at :: time_point
  pn_wall_roughness_ra_um :: double
  pn_roughness_factor :: double
  pn_wenzel_contact_angle :: double
  pn_effective_radius_um :: double
  pn_effective_tortuosity :: double
  pn_roughness_correction_applied :: bool

definition new_penetration_prediction :: penetration_prediction where
  "new_penetration_prediction =
     \<lparr>pn_id = 0, pn_crack_id = 0, pn_material_id = 0, pn_method = [], pn_parameters = JNull,
      pn_success = True, pn_target_depth_um = 0, pn_viscosity_pa_s = 0, pn_surface_tension_n_m = 0,
      pn_contact_angle_deg = 0, pn_crack_width_um = 0, pn_predicted_time_s = 0,
      pn_penetration_rate_um_s = 0, pn_time_series = [], pn_depth_series = [], pn_result = JNull,
      pn_created_at = 0, pn_wall_roughness_ra_um = 0, pn_roughness_factor = 0,
      pn_wenzel_contact_angle = 0, pn_effective_radius_um = 0, pn_effective_tortuosity = 0,
      pn_roughness_correction_applied = False\<rparr>"

record bending_test_result =
  bt_id :: int
  bt_porcelain_id :: int
  bt_crack_id :: int
  bt_material_id :: int
  bt_method :: string
  bt_parameters :: json
  bt_success :: bool
  bt_original_strength_mpa :: double
  bt_unrepaired_strength_mpa :: double
  bt_repaired_strength_mpa :: double
  bt_strength_recovery_ratio :: double
  bt_youngs_modulus_gpa :: double
  bt_fracture_toughness_mpa_m05 :: double
  bt_load :: "double list"
  bt_disp :: "double list"
  bt_stress_distribution :: json
  bt_result :: json
  bt_created_at :: time_point

definition new_bending_test_result :: bending_test_result where
  "new_bending_test_result =
     \<lparr>bt_id = 0, bt_porcelain_id = 0, bt_crack_id = 0, bt_material_id = 0, bt_method = [],
      bt_parameters = JNull, bt_success = True, bt_original_strength_mpa = 0,
      bt_unrepaired_strength_mpa = 0, bt_repaired_strength_mpa = 0, bt_strength_recovery_ratio = 0,
      bt_youngs_modulus_gpa = 0, bt_fracture_toughness_mpa_m05 = 0, bt_load = [], bt_disp = [],
      bt_stress_distribution = JNull, bt_result = JNull, bt_created_at = 0\<rparr>"

definition tensor_to_json :: "stress_tensor \<Rightarrow> json" where
  "tensor_to_json s = JObj
     [(''sigma_xx'', JNum (sigma_xx s)), (''sigma_yy'', JNum (sigma_yy s)),
      (''sigma_zz'', JNum (sigma_zz s)), (''tau_xy'', JNum (tau_xy s)),
      (''tau_yz'', JNum (tau_yz s)), (''tau_zx'', JNum (tau_zx s)),
      (''von_mises'', JNum (von_mises s))]"

definition tensor_from_json :: "json \<Rightarrow> stress_tensor result" where
  "tensor_from_json j =
     and_then (and_then (json_at j ''sigma_xx'') json_get_num) (\<lambda>a.
     and_then (and_then (json_at j ''sigma_yy'') json_get_num) (\<lambda>b.
     and_then (and_then (json_at j ''sigma_zz'') json_get_num) (\<lambda>c.
     and_then (and_then (json_at j ''tau_xy'') json_get_num) (\<lambda>d.
     and_then (and_then (json_at j ''tau_yz'') json_get_num) (\<lambda>e.
     and_then (and_then (json_at j ''tau_zx'') json_get_num) (\<lambda>f.
     and_then (and_then (json_at j ''von_mises'') json_get_num) (\<lambda>g.
       Inr \<lparr>sigma_xx = a, sigma_yy = b, sigma_zz = c, tau_xy = d, tau_yz = e, tau_zx = f,
            von_mises = g\<rparr>)))))))"

definition grid_point_to_json :: "stress_grid_point \<Rightarrow> json" where
  "grid_point_to_json p = JObj
     [(''x'', JNum (gx p)), (''y'', JNum (gy p)), (''z'', JNum (gz p)),
      (''stress'', tensor_to_json (gstress p)), (''crack_density'', JNum (gcrack_density p)),
      (''principal_direction'', JNum (gprincipal_direction p)),
      (''refinement_level'', JInt (grefinement_level p))]"

lemma point_json_roundtrip:
  "point_from_json (point_to_json p) q =
     Inr (q\<lparr>px := px p, py := py p, pz := pz p, pdepth := pdepth p, pwidth := pwidth p\<rparr>)"
  by (simp add: point_from_json_def point_to_json_def json_at_def json_get_num_def)

lemma tensor_json_roundtrip: "tensor_from_json (tensor_to_json s) = Inr s"
  by (simp add: tensor_from_json_def tensor_to_json_def json_at_def json_get_num_def)


text \<open>A preview of a repair, and the messages that name their results beside their inputs. No module
  sends these two messages.\<close>

record virtual_repair_result =
  vs_porcelain_id :: int
  vs_crack_id :: int
  vs_repaired_point_indices :: "int list"
  vs_repair_radius :: double
  vs_estimated_closure_ratio :: double
  vs_animation_data :: json

record penetration_message =
  nm_crack :: crack_info
  nm_material :: repair_material
  nm_prediction :: penetration_prediction

record bending_test_message =
  tm_porcelain_id :: int
  tm_crack :: crack_info
  tm_material :: repair_material
  tm_result :: bending_test_result

end
