(* ===== verification/Profinet.thy ===== *)
theory Profinet
  imports Data_Model
begin

section \<open>The PROFINET parser (src/profinet_parser.cpp)\<close>

text \<open>
  The little-endian readers and writers over a byte vector, the packet parser, the two payload
  parsers and the acknowledge builder of class \<open>ProfinetParser\<close>. Readers throw
  \<open>std::out_of_range\<close>; an unchecked \<open>operator[]\<close> past the end is \<open>UB\<close>. The clock is a parameter.
\<close>

subsection \<open>Readers and writers\<close>

text \<open>The unchecked \<open>data[offset]\<close>.\<close>

definition vec_get :: "'a list \<Rightarrow> nat \<Rightarrow> 'a result" where
  "vec_get xs i = (if i < length xs then Inr (xs ! i) else Inl (UB ''vector index''))"

definition vec_set :: "'a list \<Rightarrow> nat \<Rightarrow> 'a \<Rightarrow> 'a list result" where
  "vec_set xs i v = (if i < length xs then Inr (xs[i := v]) else Inl (UB ''vector index''))"

definition read_u16 :: "bytes \<Rightarrow> nat \<Rightarrow> u16 result" where
  "read_u16 data offset =
     (if offset + 1 \<ge> length data then Inl (Out_of_range ''read_u16 offset out of range'')
      else Inr (ucast (data ! offset) OR push_bit 8 (ucast (data ! (offset + 1)))))"

definition read_u32 :: "bytes \<Rightarrow> nat \<Rightarrow> u32 result" where
  "read_u32 data offset =
     (if offset + 3 \<ge> length data then Inl (Out_of_range ''read_u32 offset out of range'')
      else Inr (ucast (data ! offset) OR push_bit 8 (ucast (data ! (offset + 1)))
        OR push_bit 16 (ucast (data ! (offset + 2)))
        OR push_bit 24 (ucast (data ! (offset + 3)))))"

fun read_u64_loop :: "bytes \<Rightarrow> nat \<Rightarrow> nat list \<Rightarrow> u64 \<Rightarrow> u64" where
  "read_u64_loop data offset [] value = value"
| "read_u64_loop data offset (i # is) value =
     read_u64_loop data offset is (value OR push_bit (i * 8) (ucast (data ! (offset + i))))"

definition read_u64 :: "bytes \<Rightarrow> nat \<Rightarrow> u64 result" where
  "read_u64 data offset =
     (if offset + 7 \<ge> length data then Inl (Out_of_range ''read_u64 offset out of range'')
      else Inr (read_u64_loop data offset [0..<8] 0))"

definition read_float :: "bytes \<Rightarrow> nat \<Rightarrow> double result" where
  "read_float data offset =
     (if offset + 3 \<ge> length data then Inl (Out_of_range ''read_float offset out of range'')
      else and_then (read_u32 data offset) (\<lambda>w. Inr (double_of_float_bits w)))"

definition read_double :: "bytes \<Rightarrow> nat \<Rightarrow> double result" where
  "read_double data offset =
     (if offset + 7 \<ge> length data then Inl (Out_of_range ''read_double offset out of range'')
      else and_then (read_u64 data offset) (\<lambda>w. Inr (double_of_bits w)))"

definition write_u16 :: "bytes \<Rightarrow> nat \<Rightarrow> u16 \<Rightarrow> bytes result" where
  "write_u16 data offset value =
     and_then (vec_set data offset (ucast (value AND 0xFF))) (\<lambda>data.
       vec_set data (offset + 1) (ucast (drop_bit 8 value AND 0xFF)))"

fun write_u32_loop :: "nat list \<Rightarrow> bytes \<Rightarrow> nat \<Rightarrow> u32 \<Rightarrow> bytes result" where
  "write_u32_loop [] data offset value = Inr data"
| "write_u32_loop (i # is) data offset value =
     and_then (vec_set data (offset + i) (ucast (drop_bit (i * 8) value AND 0xFF)))
       (\<lambda>data. write_u32_loop is data offset value)"

definition write_u32 :: "bytes \<Rightarrow> nat \<Rightarrow> u32 \<Rightarrow> bytes result" where
  "write_u32 data offset value = write_u32_loop [0..<4] data offset value"

subsection \<open>Packets\<close>

datatype packet_type =
  RT_CLASS_1 | RT_CLASS_2 | RT_CLASS_3 | LASER_DATA | VIBRATION_DATA | DIAGNOSIS
| CONFIGURATION | ACKNOWLEDGE

fun packet_type_code :: "packet_type \<Rightarrow> u16" where
  "packet_type_code RT_CLASS_1 = 0x0001"
| "packet_type_code RT_CLASS_2 = 0x0002"
| "packet_type_code RT_CLASS_3 = 0x0003"
| "packet_type_code LASER_DATA = 0x8001"
| "packet_type_code VIBRATION_DATA = 0x8002"
| "packet_type_code DIAGNOSIS = 0x8003"
| "packet_type_code CONFIGURATION = 0x8004"
| "packet_type_code ACKNOWLEDGE = 0xFFFF"

definition packet_type_to_string :: "u16 \<Rightarrow> string" where
  "packet_type_to_string frame_id =
     (if frame_id = packet_type_code RT_CLASS_1 then ''RT_CLASS_1''
      else if frame_id = packet_type_code RT_CLASS_2 then ''RT_CLASS_2''
      else if frame_id = packet_type_code RT_CLASS_3 then ''RT_CLASS_3''
      else if frame_id = packet_type_code LASER_DATA then ''LASER_DATA''
      else if frame_id = packet_type_code VIBRATION_DATA then ''VIBRATION_DATA''
      else if frame_id = packet_type_code DIAGNOSIS then ''DIAGNOSIS''
      else if frame_id = packet_type_code CONFIGURATION then ''CONFIGURATION''
      else if frame_id = packet_type_code ACKNOWLEDGE then ''ACKNOWLEDGE''
      else ''UNKNOWN_'' @ to_string_nat (unat frame_id))"

record profinet_header =
  ph_frame_id :: u16
  ph_service_id :: u8
  ph_service_type :: u8
  ph_cycle_counter :: u32
  ph_timestamp :: u64
  ph_data_status :: u16
  ph_payload_length :: u16

definition HEADER_SIZE :: nat where
  "HEADER_SIZE = 16"

definition parse_header :: "bytes \<Rightarrow> profinet_header result" where
  "parse_header data =
     and_then (read_u16 data 0) (\<lambda>frame_id.
     and_then (vec_get data 2) (\<lambda>service_id.
     and_then (vec_get data 3) (\<lambda>service_type.
     and_then (read_u32 data 4) (\<lambda>cycle_counter.
     and_then (read_u64 data 8) (\<lambda>timestamp.
     and_then (read_u16 data 16) (\<lambda>data_status.
     and_then (read_u16 data 18) (\<lambda>payload_length.
       Inr \<lparr>ph_frame_id = frame_id, ph_service_id = service_id, ph_service_type = service_type,
            ph_cycle_counter = cycle_counter, ph_timestamp = timestamp,
            ph_data_status = data_status, ph_payload_length = payload_length\<rparr>)))))))"

definition parse_packet :: "time_point \<Rightarrow> bytes \<Rightarrow> string \<Rightarrow> string \<Rightarrow> profinet_packet result" where
  "parse_packet now data source_ip dest_ip =
     (if length data < HEADER_SIZE
      then Inl (Runtime_error ''Packet too small for PROFINET header'')
      else and_then (parse_header data) (\<lambda>header.
        let payload_offset = HEADER_SIZE + 4; n = unat (ph_payload_length header) in
        if payload_offset + n \<le> length data then
          Inr \<lparr>pp_source_ip = source_ip, pp_destination_ip = dest_ip,
               pp_packet_type = packet_type_to_string (ph_frame_id header),
               pp_frame_id = ph_frame_id header,
               pp_payload = take n (drop payload_offset data), pp_received_at = now\<rparr>
        else Inl (Runtime_error ''Incomplete PROFINET payload'')))"

subsection \<open>Payloads\<close>

text \<open>\<open>int\<close> fields are assigned from \<open>uint32_t\<close> (modulo \<open>2 ^ 32\<close>), \<open>time_point\<close> from
  \<open>uint64_t\<close> nanoseconds through a signed representation.\<close>

definition int_of_u32 :: "u32 \<Rightarrow> int" where
  "int_of_u32 w = sint w"

definition time_of_u64 :: "u64 \<Rightarrow> time_point" where
  "time_of_u64 w = sint w"

definition parse_point :: "bytes \<Rightarrow> nat \<Rightarrow> (point3d \<times> nat) result" where
  "parse_point payload offset =
     and_then (read_double payload offset) (\<lambda>x.
     and_then (read_double payload (offset + 8)) (\<lambda>y.
     and_then (read_double payload (offset + 16)) (\<lambda>z.
     and_then (read_double payload (offset + 24)) (\<lambda>depth.
     and_then (read_double payload (offset + 32)) (\<lambda>width.
     and_then (read_double payload (offset + 40)) (\<lambda>nx.
     and_then (read_double payload (offset + 48)) (\<lambda>ny.
     and_then (read_double payload (offset + 56)) (\<lambda>nz.
     and_then (read_double payload (offset + 64)) (\<lambda>curvature.
       Inr (\<lparr>px = x, py = y, pz = z, pdepth = depth, pwidth = width,
             pnormal = Some (nx, ny, nz), pcurvature = Some curvature\<rparr>, offset + 72))))))))))"

fun parse_points :: "nat \<Rightarrow> bytes \<Rightarrow> nat \<Rightarrow> (point3d list \<times> nat) result" where
  "parse_points 0 payload offset = Inr ([], offset)"
| "parse_points (Suc n) payload offset =
     and_then (parse_point payload offset) (\<lambda>(p, offset).
     and_then (parse_points n payload offset) (\<lambda>(ps, offset). Inr (p # ps, offset)))"

definition parse_crack :: "int \<Rightarrow> bytes \<Rightarrow> nat \<Rightarrow> (crack_info \<times> nat) result" where
  "parse_crack porcelain_id payload offset =
     and_then (read_double payload offset) (\<lambda>max_depth.
     and_then (read_double payload (offset + 8)) (\<lambda>max_width.
     and_then (read_double payload (offset + 16)) (\<lambda>total_length.
     and_then (read_u32 payload (offset + 24)) (\<lambda>point_count.
     and_then (parse_points (unat point_count) payload (offset + 28)) (\<lambda>(points, offset).
       Inr (\<lparr>ci_id = indeterminate, ci_porcelain_id = porcelain_id, ci_crack_code = [],
             ci_max_depth = max_depth, ci_max_width = max_width, ci_total_length = total_length,
             ci_status = [], ci_points = points, ci_detected_at = 0\<rparr>, offset))))))"

fun parse_cracks :: "nat \<Rightarrow> int \<Rightarrow> bytes \<Rightarrow> nat \<Rightarrow> (crack_info list \<times> nat) result" where
  "parse_cracks 0 pid payload offset = Inr ([], offset)"
| "parse_cracks (Suc n) pid payload offset =
     and_then (parse_crack pid payload offset) (\<lambda>(c, offset).
     and_then (parse_cracks n pid payload offset) (\<lambda>(cs, offset). Inr (c # cs, offset)))"

text \<open>The JSON tail: a length and, only when it is positive and fits, the text.\<close>

definition parse_json_tail :: "json_parser \<Rightarrow> bytes \<Rightarrow> nat \<Rightarrow> json result" where
  "parse_json_tail parse_json payload offset =
     and_then (read_u32 payload offset) (\<lambda>w.
       let n = unat w; offset = offset + 4 in
       if 0 < n \<and> offset + n \<le> length payload
       then parse_json (take n (drop offset payload)) else Inr JNull)"

definition parse_laser_data :: "json_parser \<Rightarrow> bytes \<Rightarrow> laser_data result" where
  "parse_laser_data parse_json payload =
     and_then (read_u32 payload 0) (\<lambda>sensor_id.
     and_then (read_u32 payload 4) (\<lambda>porcelain_id.
     and_then (read_u64 payload 8) (\<lambda>timestamp_ns.
     and_then (read_double payload 16) (\<lambda>s0.
     and_then (read_double payload 24) (\<lambda>s1.
     and_then (read_double payload 32) (\<lambda>s2.
     and_then (read_double payload 40) (\<lambda>s3.
     and_then (read_double payload 48) (\<lambda>resolution.
     and_then (vec_get payload 56) (\<lambda>flag.
     and_then (read_u32 payload 57) (\<lambda>crack_count.
     and_then (parse_cracks (nat (int_of_u32 crack_count)) (int_of_u32 porcelain_id) payload 61)
       (\<lambda>(cracks, offset).
     and_then (parse_json_tail parse_json payload offset) (\<lambda>processed.
       Inr \<lparr>ld_id = indeterminate, ld_sensor_id = int_of_u32 sensor_id,
            ld_porcelain_id = int_of_u32 porcelain_id,
            ld_measurement_time = time_of_u64 timestamp_ns,
            ld_scan_area = [s0, s1, s2, s3], ld_resolution = resolution,
            ld_crack_detected = (flag \<noteq> 0), ld_crack_count = int_of_u32 crack_count,
            ld_cracks = cracks, ld_processed_data = processed\<rparr>))))))))))))"

fun parse_amplitudes :: "nat \<Rightarrow> bytes \<Rightarrow> nat \<Rightarrow> (double list \<times> nat) result" where
  "parse_amplitudes 0 payload offset = Inr ([], offset)"
| "parse_amplitudes (Suc n) payload offset =
     and_then (read_double payload offset) (\<lambda>a.
     and_then (parse_amplitudes n payload (offset + 8)) (\<lambda>(as, offset). Inr (a # as, offset)))"

definition parse_vibration_data :: "json_parser \<Rightarrow> bytes \<Rightarrow> vibration_data result" where
  "parse_vibration_data parse_json payload =
     and_then (read_u32 payload 0) (\<lambda>sensor_id.
     and_then (read_u32 payload 4) (\<lambda>porcelain_id.
     and_then (read_u64 payload 8) (\<lambda>timestamp_ns.
     and_then (read_double payload 16) (\<lambda>rms.
     and_then (read_double payload 24) (\<lambda>peak.
     and_then (read_double payload 32) (\<lambda>freq.
     and_then (read_float payload 40) (\<lambda>temperature.
     and_then (read_float payload 44) (\<lambda>humidity.
     and_then (read_u32 payload 48) (\<lambda>amplitude_count.
     and_then (parse_amplitudes (unat amplitude_count) payload 52) (\<lambda>(amplitude, offset).
     and_then (parse_json_tail parse_json payload offset) (\<lambda>spectrum.
       Inr \<lparr>vd_id = indeterminate, vd_sensor_id = int_of_u32 sensor_id,
            vd_porcelain_id = int_of_u32 porcelain_id,
            vd_measurement_time = time_of_u64 timestamp_ns,
            vd_frequency_spectrum = spectrum, vd_amplitude = amplitude,
            vd_rms_value = rms, vd_peak_value = peak, vd_dominant_frequency = freq,
            vd_temperature = temperature, vd_humidity = humidity\<rparr>)))))))))))"

subsection \<open>The acknowledge\<close>

fun write_time_bytes :: "nat list \<Rightarrow> u64 \<Rightarrow> bytes \<Rightarrow> bytes result" where
  "write_time_bytes [] now packet = Inr packet"
| "write_time_bytes (i # is) now packet =
     and_then (vec_set packet (8 + i) (ucast (drop_bit (i * 8) now AND 0xFF)))
       (write_time_bytes is now)"

definition build_acknowledge :: "u64 \<Rightarrow> u32 \<Rightarrow> bytes result" where
  "build_acknowledge now_ns cycle_counter =
     and_then (write_u16 (replicate (HEADER_SIZE + 4) 0) 0 (packet_type_code ACKNOWLEDGE)) (\<lambda>packet.
     and_then (vec_set packet 2 0x01) (\<lambda>packet.
     and_then (vec_set packet 3 0x01) (\<lambda>packet.
     and_then (write_u32 packet 4 cycle_counter) (\<lambda>packet.
     and_then (write_time_bytes [0..<8] now_ns packet) (\<lambda>packet.
     and_then (write_u16 packet 16 0x0001) (\<lambda>packet.
     and_then (write_u16 packet 18 4) (\<lambda>packet.
       write_u32 packet 20 0)))))))"


subsection \<open>Functional behaviour\<close>

lemma read_ok_iff:
  "(\<exists>v. read_u16 data off = Inr v) \<longleftrightarrow> off + 2 \<le> length data"
  "(\<exists>v. read_u32 data off = Inr v) \<longleftrightarrow> off + 4 \<le> length data"
  "(\<exists>v. read_u64 data off = Inr v) \<longleftrightarrow> off + 8 \<le> length data"
  "(\<exists>v. read_float data off = Inr v) \<longleftrightarrow> off + 4 \<le> length data"
  "(\<exists>v. read_double data off = Inr v) \<longleftrightarrow> off + 8 \<le> length data"
  by (auto simp: read_u16_def read_u32_def read_u64_def read_float_def read_double_def)

lemma read_ok:
  "read_u16 data off = Inr v2 \<Longrightarrow> off + 2 \<le> length data"
  "read_u32 data off = Inr v4 \<Longrightarrow> off + 4 \<le> length data"
  "read_u64 data off = Inr v8 \<Longrightarrow> off + 8 \<le> length data"
  "read_float data off = Inr f \<Longrightarrow> off + 4 \<le> length data"
  "read_double data off = Inr d \<Longrightarrow> off + 8 \<le> length data"
  using read_ok_iff by blast+

lemma read_not_ub [simp]:
  "\<not> is_ub (read_u16 data off)" "\<not> is_ub (read_u32 data off)" "\<not> is_ub (read_u64 data off)"
  "\<not> is_ub (read_float data off)" "\<not> is_ub (read_double data off)"
  by (simp_all add: read_u16_def read_u32_def read_u64_def read_float_def read_double_def)

lemma is_ub_and_then:
  "is_ub (and_then r f) \<longleftrightarrow> is_ub r \<or> (\<exists>a. r = Inr a \<and> is_ub (f a))"
  by (cases r) (auto simp: is_ub_def split: sum.splits cpp_error.splits)

lemma vec_get_eq [simp]: "i < length xs \<Longrightarrow> vec_get xs i = Inr (xs ! i)"
  by (simp add: vec_get_def)

lemma is_ub_vec_get: "is_ub (vec_get xs i) \<longleftrightarrow> length xs \<le> i"
  by (simp add: vec_get_def)

text \<open>The header is read from the first twenty bytes, whatever \<open>HEADER_SIZE\<close> says.\<close>

lemma parse_header_ok:
  assumes "20 \<le> length data"
  shows "\<exists>h. parse_header data = Inr h \<and> read_u16 data 18 = Inr (ph_payload_length h)
    \<and> read_u16 data 0 = Inr (ph_frame_id h)"
proof -
  obtain a where a: "read_u16 data 0 = Inr a"
    using read_ok_iff(1) [of data 0] assms by auto
  obtain b where b: "read_u32 data 4 = Inr b"
    using read_ok_iff(2) [of data 4] assms by auto
  obtain c where c: "read_u64 data 8 = Inr c"
    using read_ok_iff(3) [of data 8] assms by auto
  obtain d where d: "read_u16 data 16 = Inr d"
    using read_ok_iff(1) [of data 16] assms by auto
  obtain e where e: "read_u16 data 18 = Inr e"
    using read_ok_iff(1) [of data 18] assms by auto
  show ?thesis
    using assms by (simp add: parse_header_def a b c d e)
qed

lemma parse_header_short:
  assumes "16 \<le> length data" and "length data < 20"
  shows "parse_header data = Inl (Out_of_range ''read_u16 offset out of range'')"
proof -
  obtain a where a: "read_u16 data 0 = Inr a"
    using read_ok_iff(1) [of data 0] assms by auto
  obtain b where b: "read_u32 data 4 = Inr b"
    using read_ok_iff(2) [of data 4] assms by auto
  obtain c where c: "read_u64 data 8 = Inr c"
    using read_ok_iff(3) [of data 8] assms by auto
  have "read_u16 data 18 = Inl (Out_of_range ''read_u16 offset out of range'')"
    using assms(2) by (simp add: read_u16_def)
  moreover have "read_u16 data 16 = Inl (Out_of_range ''read_u16 offset out of range'') \<or>
      (\<exists>d. read_u16 data 16 = Inr d)"
    by (simp add: read_u16_def)
  ultimately show ?thesis
    using assms by (auto simp: parse_header_def a b c)
qed

definition announced_length :: "bytes \<Rightarrow> nat" where
  "announced_length data = unat (data ! 18) + 256 * unat (data ! 19)"

lemma u16_of_bytes: "unat (ucast (a :: u8) OR push_bit 8 (ucast (b :: u8)) :: u16) = unat a + 256 * unat b"
proof -
  have lt: "unat a < 2 ^ 8" "unat b < 2 ^ 8"
    using unsigned_less [of a, where 'a = nat] unsigned_less [of b, where 'a = nat] by simp_all
  then have ua: "unat (ucast a :: u16) = unat a" and ub: "unat (ucast b :: u16) = unat b"
    by (simp_all add: unsigned_ucast_eq take_bit_nat_eq_self)
  have disj: "(ucast a :: u16) AND push_bit 8 (ucast b) = 0"
    by (rule bit_word_eqI) (auto simp: bit_simps dest: bit_imp_le_length)
  then have "ucast a OR push_bit 8 (ucast b) = (ucast a + push_bit 8 (ucast b) :: u16)"
    by (simp add: disjunctive_add_eq_or)
  also have "\<dots> = ucast a + 256 * ucast b"
    by (simp add: push_bit_eq_mult)
  finally have "unat (ucast a OR push_bit 8 (ucast b) :: u16) = (unat a + (256 * unat b) mod 2 ^ 16) mod 2 ^ 16"
    by (simp add: unat_word_ariths ua ub)
  then show ?thesis
    using lt by simp
qed

lemma read_u16_value:
  "read_u16 data 18 = Inr w \<Longrightarrow> unat w = announced_length data"
  using u16_of_bytes [of "data ! 18" "data ! 19"]
  by (auto simp: read_u16_def announced_length_def split: if_splits)

lemma parse_packet_closed:
  "parse_packet now data src dst =
     (if length data < 16 then Inl (Runtime_error ''Packet too small for PROFINET header'')
      else if length data < 20 then Inl (Out_of_range ''read_u16 offset out of range'')
      else if length data < 20 + announced_length data
        then Inl (Runtime_error ''Incomplete PROFINET payload'')
      else Inr \<lparr>pp_source_ip = src, pp_destination_ip = dst,
        pp_packet_type = packet_type_to_string (ucast (data ! 0) OR push_bit 8 (ucast (data ! 1))),
        pp_frame_id = ucast (data ! 0) OR push_bit 8 (ucast (data ! 1)),
        pp_payload = take (announced_length data) (drop 20 data), pp_received_at = now\<rparr>)"
proof (cases "length data < 20")
  case True
  then show ?thesis
    by (simp add: parse_packet_def HEADER_SIZE_def parse_header_short)
next
  case False
  then obtain h where h: "parse_header data = Inr h" "read_u16 data 18 = Inr (ph_payload_length h)"
    "read_u16 data 0 = Inr (ph_frame_id h)"
    using parse_header_ok [of data] by auto
  have "ph_frame_id h = ucast (data ! 0) OR push_bit 8 (ucast (data ! 1))"
    using h(3) False by (auto simp: read_u16_def split: if_splits)
  then show ?thesis
    using False h(1) read_u16_value [OF h(2)]
    by (simp add: parse_packet_def HEADER_SIZE_def Let_def)
qed

lemma build_acknowledge_ub: "is_ub (build_acknowledge now_ns cycle_counter)"
proof -
  have u16: "\<exists>d'. write_u16 d k v = Inr d' \<and> length d' = length d" if "k + 1 < length d" for d k v
    using that by (simp add: write_u16_def vec_set_def)
  have u32: "\<exists>d'. write_u32 d k v = Inr d' \<and> length d' = length d" if "k + 3 < length d" for d k v
    using that by (simp add: write_u32_def upt_rec vec_set_def)
  have vs: "vec_set d i v = Inr (d[i := v])" if "i < length d" for d :: bytes and i v
    using that by (simp add: vec_set_def)
  have time: "\<exists>d'. write_time_bytes [0..<8] w d = Inr d' \<and> length d' = length d" if "length d = 20" for d w
    using that by (simp add: upt_rec vec_set_def)
  obtain p1 where p1: "write_u16 (replicate 20 0) 0 (packet_type_code ACKNOWLEDGE) = Inr p1" "length p1 = 20"
    using u16 [of 0 "replicate 20 0"] by auto
  obtain p2 where p2: "write_u32 (p1[2 := 1, 3 := 1]) 4 cycle_counter = Inr p2" "length p2 = 20"
    using u32 [of 4 "p1[2 := 1, 3 := 1]"] p1(2) by auto
  obtain p3 where p3: "write_time_bytes [0..<8] now_ns p2 = Inr p3" "length p3 = 20"
    using time [OF p2(2)] p2(2) by auto
  obtain p4 where p4: "write_u16 p3 16 1 = Inr p4" "length p4 = 20"
    using u16 [of 16 p3] p3(2) by auto
  obtain p5 where p5: "write_u16 p4 18 4 = Inr p5" "length p5 = 20"
    using u16 [of 18 p4] p4(2) by auto
  have "is_ub (write_u32 p5 20 0)"
    using p5(2) by (simp add: write_u32_def upt_rec vec_set_def)
  then show ?thesis
    unfolding build_acknowledge_def HEADER_SIZE_def
    using p1 p2(1) p3(1) p4(1) p5(1) by (simp add: vs)
qed


text \<open>The packet parser never reads out of bounds. It succeeds exactly when the twenty header
  bytes and the announced payload are there, and then returns exactly those payload bytes;
  16 to 19 bytes (the guard checks 16, the header has 20) are an out-of-range error, and
  everything else is a runtime error.\<close>

theorem parse_packet_cases:
  "map_sum id pp_payload (parse_packet now data src dst) =
     (if length data < 16 then Inl (Runtime_error ''Packet too small for PROFINET header'')
      else if length data < 20 then Inl (Out_of_range ''read_u16 offset out of range'')
      else if length data < 20 + announced_length data
        then Inl (Runtime_error ''Incomplete PROFINET payload'')
      else Inr (take (announced_length data) (drop 20 data)))
    \<and> \<not> is_ub (parse_packet now data src dst)"
  by (simp add: parse_packet_closed)

text \<open>Building an acknowledge always has undefined behaviour, for every clock value and every
  cycle counter: the vector has 20 bytes and its last field is written at offset 20.\<close>

theorem build_acknowledge_oob:
  "is_ub (build_acknowledge now_ns cycle_counter)
    \<and> is_ub (write_u32 (replicate (HEADER_SIZE + 4) 0) 20 0)"
  using build_acknowledge_ub by (simp add: write_u32_def upt_rec vec_set_def HEADER_SIZE_def)

subsection \<open>Out-of-range reads and resource bounds of the payload parsers\<close>

lemma parse_point_not_ub [simp]: "\<not> is_ub (parse_point payload off)"
  by (auto simp: parse_point_def is_ub_and_then)

lemma parse_points_not_ub [simp]: "\<not> is_ub (parse_points n payload off)"
  by (induction n payload off rule: parse_points.induct)
    (auto simp: is_ub_and_then split: prod.splits)

lemma parse_crack_not_ub [simp]: "\<not> is_ub (parse_crack pid payload off)"
  by (auto simp: parse_crack_def is_ub_and_then split: prod.splits)

lemma parse_cracks_not_ub [simp]: "\<not> is_ub (parse_cracks n pid payload off)"
  by (induction n pid payload off rule: parse_cracks.induct)
    (auto simp: is_ub_and_then split: prod.splits)

lemma parse_amplitudes_not_ub [simp]: "\<not> is_ub (parse_amplitudes n payload off)"
  by (induction n payload off rule: parse_amplitudes.induct)
    (auto simp: is_ub_and_then split: prod.splits)

lemma parse_json_tail_not_ub:
  "(\<And>t. \<not> is_ub (pj t)) \<Longrightarrow> \<not> is_ub (parse_json_tail pj payload off)"
  by (auto simp: parse_json_tail_def is_ub_and_then Let_def)

lemma parse_point_offset:
  "parse_point payload off = Inr (p, off') \<Longrightarrow> off' = off + 72 \<and> off' \<le> length payload"
  by (auto simp: parse_point_def and_then_eq_Inr_iff dest!: read_ok)

lemma parse_points_offset:
  "parse_points n payload off = Inr (ps, off') \<Longrightarrow> off \<le> length payload \<Longrightarrow>
     length ps = n \<and> off' = off + 72 * n \<and> off' \<le> length payload"
proof (induction n arbitrary: off ps)
  case 0
  then show ?case by simp
next
  case (Suc n)
  then obtain p o1 qs where p: "parse_point payload off = Inr (p, o1)" and
    q: "parse_points n payload o1 = Inr (qs, off')" and ps: "ps = p # qs"
    by (auto simp: and_then_eq_Inr_iff split: prod.splits)
  then show ?case
    using Suc.IH [OF q] parse_point_offset [OF p] by simp
qed

text \<open>The bytes a crack takes in a payload.\<close>

definition crack_bytes :: "crack_info \<Rightarrow> nat" where
  "crack_bytes c = 28 + 72 * length (ci_points c)"

lemma parse_crack_offset:
  assumes "parse_crack pid payload off = Inr (c, off')"
  shows "off' = off + crack_bytes c \<and> off' \<le> length payload \<and> ci_porcelain_id c = pid"
proof -
  obtain n ps where n: "read_u32 payload (off + 24) = Inr n"
    and ps: "parse_points (unat n) payload (off + 28) = Inr (ps, off')" "ci_points c = ps"
    and pid: "ci_porcelain_id c = pid"
    using assms by (auto simp: parse_crack_def and_then_eq_Inr_iff split: prod.splits)
  then show ?thesis
    using parse_points_offset [OF ps(1)] read_ok(2) [OF n] by (simp add: crack_bytes_def)
qed

lemma parse_cracks_offset:
  "parse_cracks n pid payload off = Inr (cs, off') \<Longrightarrow> off \<le> length payload \<Longrightarrow>
     length cs = n \<and> off' = off + sum_list (map crack_bytes cs) \<and> off' \<le> length payload"
proof (induction n arbitrary: off cs)
  case 0
  then show ?case by simp
next
  case (Suc n)
  then obtain c ds o1 where c: "parse_crack pid payload off = Inr (c, o1)" and
    d: "parse_cracks n pid payload o1 = Inr (ds, off')" and cs: "cs = c # ds"
    by (auto simp: and_then_eq_Inr_iff split: prod.splits)
  then show ?case
    using Suc.IH [OF d] parse_crack_offset [OF c] by simp
qed

text \<open>Parsing a laser payload has undefined behaviour for exactly one length: a payload of 56
  bytes ends just before the crack flag, the only byte read without a bounds check.\<close>

theorem laser_ub_iff_56:
  assumes "\<And>t. \<not> is_ub (parse_json t)"
  shows "is_ub (parse_laser_data parse_json payload) \<longleftrightarrow> length payload = 56"
proof
  assume "is_ub (parse_laser_data parse_json payload)"
  then have "length payload \<le> 56 \<and> (\<exists>d. read_double payload 48 = Inr d)"
    using parse_json_tail_not_ub [OF assms]
    by (auto simp: parse_laser_data_def is_ub_and_then is_ub_vec_get split: prod.splits)
  then show "length payload = 56"
    using read_ok(5) [of payload 48] by force
next
  assume len: "length payload = 56"
  have d: "\<exists>v. read_double payload k = Inr v" if "k + 8 \<le> 56" for k
    using read_ok_iff(5) [of payload k] that len by simp
  have w: "\<exists>v. read_u32 payload k = Inr v" if "k + 4 \<le> 56" for k
    using read_ok_iff(2) [of payload k] that len by simp
  obtain a where a: "read_u32 payload 0 = Inr a" using w [of 0] by auto
  obtain b where b: "read_u32 payload 4 = Inr b" using w [of 4] by auto
  obtain c where c: "read_u64 payload 8 = Inr c" using read_ok_iff(3) [of payload 8] len by auto
  obtain s0 where s0: "read_double payload 16 = Inr s0" using d [of 16] by auto
  obtain s1 where s1: "read_double payload 24 = Inr s1" using d [of 24] by auto
  obtain s2 where s2: "read_double payload 32 = Inr s2" using d [of 32] by auto
  obtain s3 where s3: "read_double payload 40 = Inr s3" using d [of 40] by auto
  obtain s4 where s4: "read_double payload 48 = Inr s4" using d [of 48] by auto
  show "is_ub (parse_laser_data parse_json payload)"
    unfolding parse_laser_data_def a b c s0 s1 s2 s3 s4
    by (simp add: b c s0 s1 s2 s3 s4 vec_get_def len)
qed

lemma vibration_not_ub:
  "(\<And>t. \<not> is_ub (parse_json t)) \<Longrightarrow> \<not> is_ub (parse_vibration_data parse_json payload)"
  using parse_json_tail_not_ub [of parse_json]
  by (auto simp: parse_vibration_data_def is_ub_and_then split: prod.splits)

text \<open>What the laser parser allocates is bounded by the payload it was given: it returns as
  many cracks as announced (none for a count that reads as negative), and 28 bytes per crack
  plus 72 bytes per point fit in the payload beside its 65 fixed bytes.\<close>

theorem laser_size_bound:
  assumes "parse_laser_data parse_json payload = Inr d"
  shows "length (ld_cracks d) = nat (ld_crack_count d)
    \<and> 65 + sum_list (map crack_bytes (ld_cracks d)) \<le> length payload"
proof -
  obtain n pid cs off j where n: "read_u32 payload 57 = Inr n"
    and cs: "parse_cracks (nat (int_of_u32 n)) pid payload 61 = Inr (cs, off)"
    and j: "parse_json_tail parse_json payload off = Inr j"
    and d: "ld_cracks d = cs" "ld_crack_count d = int_of_u32 n"
    using assms by (auto simp: parse_laser_data_def and_then_eq_Inr_iff split: prod.splits)
  have "off + 4 \<le> length payload"
    using j by (auto simp: parse_json_tail_def and_then_eq_Inr_iff dest: read_ok)
  then show ?thesis
    using parse_cracks_offset [OF cs] read_ok(2) [OF n] d by simp
qed

theorem laser_ub_iff_56_witness:
  "is_ub (parse_laser_data (\<lambda>_. Inl Json_error) (replicate 56 0))
    \<and> \<not> is_ub (parse_laser_data (\<lambda>_. Inl Json_error) (replicate 57 0))"
  using laser_ub_iff_56 [of "\<lambda>_. Inl Json_error"] by simp

definition demo_laser_payload :: bytes where
  "demo_laser_payload = replicate 65 0"

lemma read_zeros:
  "off + 4 \<le> n \<Longrightarrow> read_u32 (replicate n 0) off = Inr 0"
  "off + 8 \<le> n \<Longrightarrow> \<exists>v. read_u64 (replicate n 0) off = Inr v"
  "off + 8 \<le> n \<Longrightarrow> \<exists>v. read_double (replicate n 0) off = Inr v"
  using read_ok_iff(3,5) [of "replicate n 0" off] by (auto simp: read_u32_def)

lemma parse_demo_laser: "\<exists>d. parse_laser_data (\<lambda>_. Inl Json_error) demo_laser_payload = Inr d"
proof -
  let ?p = "replicate 65 0 :: bytes"
  obtain c where c: "read_u64 ?p 8 = Inr c" using read_zeros(2) [of 8 65] by auto
  obtain s0 where s0: "read_double ?p 16 = Inr s0" using read_zeros(3) [of 16 65] by auto
  obtain s1 where s1: "read_double ?p 24 = Inr s1" using read_zeros(3) [of 24 65] by auto
  obtain s2 where s2: "read_double ?p 32 = Inr s2" using read_zeros(3) [of 32 65] by auto
  obtain s3 where s3: "read_double ?p 40 = Inr s3" using read_zeros(3) [of 40 65] by auto
  obtain s4 where s4: "read_double ?p 48 = Inr s4" using read_zeros(3) [of 48 65] by auto
  show ?thesis
    unfolding demo_laser_payload_def parse_laser_data_def
    by (simp add: read_zeros(1) c s0 s1 s2 s3 s4 parse_json_tail_def int_of_u32_def)
qed

theorem laser_size_bound_witness:
  "\<exists>d. parse_laser_data (\<lambda>_. Inl Json_error) demo_laser_payload = Inr d
    \<and> length (ld_cracks d) = nat (ld_crack_count d)
    \<and> 65 + sum_list (map crack_bytes (ld_cracks d)) \<le> length demo_laser_payload"
proof -
  obtain d where d: "parse_laser_data (\<lambda>_. Inl Json_error) demo_laser_payload = Inr d"
    using parse_demo_laser by blast
  from laser_size_bound [OF d] d show ?thesis
    by blast
qed

end
