(* ===== verification/Simulator.thy ===== *)
theory Simulator
  imports Profinet
begin

section \<open>The sensor simulator (src/simulator/main.cpp)\<close>

text \<open>
  The byte writers, the payload and packet builders and the connection state machine of the
  simulated PROFINET sensors, and the fleet \<open>main\<close> creates. The draws of the random generators
  and the clock are parameters, as is \<open>json::dump\<close>.
\<close>

subsection \<open>Writers\<close>

definition append_u16 :: "bytes \<Rightarrow> u16 \<Rightarrow> bytes" where
  "append_u16 buf value =
     buf @ [ucast (value AND 0xFF), ucast (drop_bit 8 value AND 0xFF)]"

definition append_u32 :: "bytes \<Rightarrow> u32 \<Rightarrow> bytes" where
  "append_u32 buf value = buf @ map (\<lambda>i. ucast (drop_bit (i * 8) value AND 0xFF)) [0..<4]"

definition append_u64 :: "bytes \<Rightarrow> u64 \<Rightarrow> bytes" where
  "append_u64 buf value = buf @ map (\<lambda>i. ucast (drop_bit (i * 8) value AND 0xFF)) [0..<8]"

text \<open>A \<open>float\<close> argument is given by its bit pattern.\<close>

definition append_float :: "bytes \<Rightarrow> u32 \<Rightarrow> bytes" where
  "append_float buf int_val = append_u32 buf int_val"

definition append_double :: "bytes \<Rightarrow> double \<Rightarrow> bytes" where
  "append_double buf value = append_u64 buf (bits_of_double value)"

subsection \<open>Payload builders\<close>

record sensor_config =
  sc_id :: int
  sc_name :: string
  sc_porcelain_id :: int
  sc_type :: string
  sc_server_ip :: string
  sc_server_port :: u16
  sc_interval_ms :: int

text \<open>What the generators and the clock return while one laser payload is built; the draws of
  a crack and of its points are indexed by their loop counters.\<close>

record laser_draws =
  dr_timestamp :: u64
  dr_flag_depth :: double
  dr_crack_count :: u32
  dr_max_depth :: "nat \<Rightarrow> double"
  dr_max_width :: "nat \<Rightarrow> double"
  dr_length :: "nat \<Rightarrow> double"
  dr_point_extra :: "nat \<Rightarrow> u32"
  dr_x :: "nat \<Rightarrow> nat \<Rightarrow> double"
  dr_y :: "nat \<Rightarrow> nat \<Rightarrow> double"
  dr_z :: "nat \<Rightarrow> nat \<Rightarrow> double"

definition laser_flag :: "bool \<Rightarrow> u32 \<Rightarrow> laser_draws \<Rightarrow> bool" where
  "laser_flag shock cycle dr \<longleftrightarrow> shock \<or> cycle mod 3 = 0 \<or> D 200 < dr_flag_depth dr"

definition laser_crack_count :: "bool \<Rightarrow> u32 \<Rightarrow> laser_draws \<Rightarrow> u32" where
  "laser_crack_count shock cycle dr = (if laser_flag shock cycle dr then dr_crack_count dr else 0)"

text \<open>The point generated for loop counters \<open>i\<close> and \<open>j\<close>, as it is written field by field.\<close>

definition sim_point :: "laser_draws \<Rightarrow> nat \<Rightarrow> nat \<Rightarrow> u32 \<Rightarrow> double \<Rightarrow> double \<Rightarrow> point3d" where
  "sim_point dr i j point_count max_depth max_width =
     (let t = of_i (int j) / of_i (uint (point_count - 1)) in
      \<lparr>px = dr_x dr i j, py = dr_y dr i j, pz = dr_z dr i j,
       pdepth = max_depth * (D (3/10) + D (7/10) * dsin (M_PI * t)),
       pwidth = max_width * (D (1/2) + D (1/2) * dsin (M_PI * t)),
       pnormal = Some (0, 0, 1), pcurvature = Some (D (1/100))\<rparr>)"

definition append_point :: "bytes \<Rightarrow> point3d \<Rightarrow> bytes" where
  "append_point buf p =
     append_double (append_double (append_double (append_double (append_double
       (append_double (append_double (append_double (append_double buf
         (px p)) (py p)) (pz p)) (pdepth p)) (pwidth p)) 0) 0) 1) (D (1/100))"

definition append_crack :: "laser_draws \<Rightarrow> nat \<Rightarrow> bytes \<Rightarrow> bytes" where
  "append_crack dr i buf =
     (let max_depth = \<bar>dr_max_depth dr i\<bar>; max_width = \<bar>dr_max_width dr i\<bar>;
          total_length = D 5 + \<bar>dr_length dr i\<bar>; point_count = 20 + dr_point_extra dr i;
          buf = append_double (append_double (append_double buf max_depth) max_width) total_length;
          buf = append_u32 buf point_count
      in fold (\<lambda>j buf. append_point buf (sim_point dr i j point_count max_depth max_width))
           [0..<unat point_count] buf)"

definition laser_json :: "bool \<Rightarrow> json" where
  "laser_json shock = JObj
     [(''noise_level'', JNum (if shock then D (15/100) else D (2/100))),
      (''scan_quality'', JNum (if shock then D (75/100) else D (95/100))),
      (''shock_vibration'', JBool shock)]"

definition build_laser_payload ::
  "(json \<Rightarrow> bytes) \<Rightarrow> sensor_config \<Rightarrow> bool \<Rightarrow> u32 \<Rightarrow> laser_draws \<Rightarrow> bytes" where
  "build_laser_payload dump cfg shock cycle dr =
     (let buf = append_u32 (append_u32 [] (word_of_int (sc_id cfg)))
                  (word_of_int (sc_porcelain_id cfg));
          buf = append_u64 buf (dr_timestamp dr);
          buf = append_double (append_double (append_double (append_double (append_double buf
                  0) 0) (D 20)) (D 20)) (D (1 / 10 ^ 7));
          crack_detected = laser_flag shock cycle dr;
          buf = buf @ [if crack_detected then 1 else 0];
          crack_count = laser_crack_count shock cycle dr;
          buf = append_u32 buf crack_count;
          buf = fold (append_crack dr) [0..<unat crack_count] buf;
          json_str = dump (laser_json shock);
          buf = append_u32 buf (word_of_nat (length json_str))
      in buf @ json_str)"

record vibration_draws =
  dv_timestamp :: u64
  dv_rms :: double
  dv_peak :: double
  dv_freq_noise :: double
  dv_temp :: u32
  dv_hum :: u32
  dv_amp_noise :: "nat \<Rightarrow> double"

definition sim_amplitude :: "bool \<Rightarrow> double \<Rightarrow> double \<Rightarrow> double \<Rightarrow> nat \<Rightarrow> double" where
  "sim_amplitude shock rms dom_freq noise i =
     (let freq = of_i (int i) * D 10;
          base = rms * dexp (- freq / D 500);
          shock_amp = (if shock
            then base * (D 1 + D 5 * dexp (- \<bar>freq - dom_freq\<bar> / D 50)) else base)
      in shock_amp * (D 1 + D (1/10) * noise))"

definition sim_dom_freq :: "bool \<Rightarrow> vibration_draws \<Rightarrow> double" where
  "sim_dom_freq shock dv = (if shock then D 200 else D 50) + dv_freq_noise dv"

definition vibration_json :: "bool \<Rightarrow> double \<Rightarrow> json" where
  "vibration_json shock dom_freq = JObj
     [(''harmonic_distortion'', JNum (if shock then D (35/100) else D (5/100))),
      (''peak_frequencies'', JArr (if shock
         then [JNum dom_freq, JNum (dom_freq * D 2), JNum (dom_freq * D 3)]
         else [JNum (D 50), JNum (D 150), JNum (D 250)])),
      (''shock_vibration'', JBool shock)]"

definition build_vibration_payload ::
  "(json \<Rightarrow> bytes) \<Rightarrow> sensor_config \<Rightarrow> bool \<Rightarrow> vibration_draws \<Rightarrow> bytes" where
  "build_vibration_payload dump cfg shock dv =
     (let buf = append_u32 (append_u32 [] (word_of_int (sc_id cfg + 20)))
                  (word_of_int (sc_porcelain_id cfg));
          buf = append_u64 buf (dv_timestamp dv);
          rms = \<bar>dv_rms dv\<bar>; peak = \<bar>dv_peak dv\<bar>; dom_freq = sim_dom_freq shock dv;
          buf = append_double (append_double (append_double buf rms) peak) dom_freq;
          buf = append_float (append_float buf (dv_temp dv)) (dv_hum dv);
          buf = append_u32 buf 100;
          buf = fold (\<lambda>i buf. append_double buf (sim_amplitude shock rms dom_freq (dv_amp_noise dv i) i))
                  [0..<100] buf;
          json_str = dump (vibration_json shock dom_freq);
          buf = append_u32 buf (word_of_nat (length json_str))
      in buf @ json_str)"

definition build_profinet_packet :: "u64 \<Rightarrow> u32 \<Rightarrow> u16 \<Rightarrow> bytes \<Rightarrow> bytes" where
  "build_profinet_packet now cycle_counter frame_id payload =
     (let packet = append_u16 [] frame_id @ [0x01] @ [0x01];
          packet = append_u32 packet cycle_counter;
          packet = append_u64 packet now;
          packet = append_u16 packet 0x0001;
          packet = append_u16 packet (word_of_nat (length payload));
          packet = packet @ [0, 0, 0, 0]
      in packet @ payload)"

subsection \<open>Reading back what was written\<close>

text \<open>Each writer's bytes, and the round trip of each reader over them.\<close>

named_theorems writer_bytes \<open>the bytes a writer appends\<close>

lemma append_u16_bytes [writer_bytes]: "append_u16 buf v = buf @ append_u16 [] v"
  by (simp add: append_u16_def)

lemma append_u32_bytes [writer_bytes]: "append_u32 buf v = buf @ append_u32 [] v"
  by (simp add: append_u32_def)

lemma append_u64_bytes [writer_bytes]: "append_u64 buf v = buf @ append_u64 [] v"
  by (simp add: append_u64_def)

lemma append_double_bytes [writer_bytes]: "append_double buf v = buf @ append_double [] v"
  by (simp add: append_double_def append_u64_def)

lemma writer_lengths [simp]:
  "length (append_u16 buf v2) = length buf + 2" "length (append_u32 buf v4) = length buf + 4"
  "length (append_u64 buf v8) = length buf + 8" "length (append_double buf d) = length buf + 8"
  "length (append_float buf v4) = length buf + 4"
  by (simp_all add: append_u16_def append_u32_def append_u64_def append_double_def append_float_def)

lemma writer_app:
  "buf \<noteq> [] \<Longrightarrow> append_u16 buf v2 = buf @ append_u16 [] v2"
  "buf \<noteq> [] \<Longrightarrow> append_u32 buf v4 = buf @ append_u32 [] v4"
  "buf \<noteq> [] \<Longrightarrow> append_u64 buf v8 = buf @ append_u64 [] v8"
  "buf \<noteq> [] \<Longrightarrow> append_double buf d = buf @ append_double [] d"
  "append_u16 buf v2 \<noteq> []" "append_u32 buf v4 \<noteq> []" "append_u64 buf v8 \<noteq> []"
  "append_double buf d \<noteq> []"
  by (simp_all add: append_u16_def append_u32_def append_u64_def append_double_def)

lemma nth_after: "xs = pre @ ys @ zs \<Longrightarrow> i < length ys \<Longrightarrow> xs ! (length pre + i) = ys ! i"
  by (simp add: nth_append)

lemma and_FF: "(w :: 'a::len word) AND 0xFF = take_bit 8 w"
proof -
  have "(0xFF :: 'a word) = mask 8"
    by (simp add: mask_eq_exp_minus_1)
  then show ?thesis
    by (simp only: take_bit_eq_mask)
qed

lemma bytes_u16:
  "ucast (ucast (take_bit 8 v) :: u8) OR push_bit 8 (ucast (ucast (take_bit 8 (drop_bit 8 v)) :: u8))
     = (v :: u16)"
proof (rule bit_word_eqI)
  fix n assume "n < LENGTH(16)"
  then have "n < 8 \<or> n = 8 + (n - 8) \<and> n - 8 < 8" by auto
  then show "bit (ucast (ucast (take_bit 8 v) :: u8) OR
      push_bit 8 (ucast (ucast (take_bit 8 (drop_bit 8 v)) :: u8)) :: u16) n = bit v n"
    by (auto simp: bit_simps)
qed

lemma byte_bit: "bit (push_bit k (ucast (ucast (take_bit 8 (drop_bit k v)) :: u8)) :: 'a::len word) n
    \<longleftrightarrow> n < LENGTH('a) \<and> k \<le> n \<and> n < k + 8 \<and> bit (v :: 'a word) n"
  by (auto simp: bit_simps)

lemma bytes_u32:
  "ucast (ucast (take_bit 8 v) :: u8) OR push_bit 8 (ucast (ucast (take_bit 8 (drop_bit 8 v)) :: u8))
     OR push_bit 16 (ucast (ucast (take_bit 8 (drop_bit 16 v)) :: u8))
     OR push_bit 24 (ucast (ucast (take_bit 8 (drop_bit 24 v)) :: u8)) = (v :: u32)"
proof (rule bit_word_eqI)
  fix n assume "n < LENGTH(32)"
  then have "n < 32" by simp
  then have n: "n < 8 \<or> 8 \<le> n \<and> n < 16 \<or> 16 \<le> n \<and> n < 24 \<or> 24 \<le> n \<and> n < 32"
    by linarith
  have "bit (ucast (ucast (take_bit 8 v) :: u8) :: u32) n \<longleftrightarrow> n < 8 \<and> bit v n"
    using byte_bit [of 0 v n] \<open>n < 32\<close> by simp
  then show "bit (ucast (ucast (take_bit 8 v) :: u8)
      OR push_bit 8 (ucast (ucast (take_bit 8 (drop_bit 8 v)) :: u8))
      OR push_bit 16 (ucast (ucast (take_bit 8 (drop_bit 16 v)) :: u8))
      OR push_bit 24 (ucast (ucast (take_bit 8 (drop_bit 24 v)) :: u8)) :: u32) n = bit v n"
    unfolding bit_or_iff byte_bit using n by auto
qed

lemma read_u16_append:
  "off = length pre \<Longrightarrow> read_u16 (pre @ append_u16 [] v @ rest) off = Inr v"
  by (simp add: read_u16_def append_u16_def nth_append and_FF bytes_u16)

lemma upt_4_8: "[0..<4] = [0, 1, 2, 3 :: nat]" "[0..<8] = [0, 1, 2, 3, 4, 5, 6, 7 :: nat]"
  by (simp_all add: upt_rec)

lemma read_u32_append:
  "off = length pre \<Longrightarrow> read_u32 (pre @ append_u32 [] v @ rest) off = Inr v"
  by (simp add: read_u32_def append_u32_def nth_append and_FF upt_4_8 bytes_u32)

text \<open>The loop of \<open>read_u64\<close>, bit by bit.\<close>

lemma read_u64_loop_bit:
  "bit (read_u64_loop data off is acc) n \<longleftrightarrow>
     bit acc n \<or> n < 64 \<and> (\<exists>i \<in> set is. i * 8 \<le> n \<and> bit (data ! (off + i)) (n - i * 8))"
proof (induction "is" arbitrary: acc)
  case Nil
  then show ?case by simp
next
  case (Cons i "is")
  then show ?case
    by (auto simp: bit_simps)
qed

lemma nth_append_u64:
  "i < 8 \<Longrightarrow> (pre @ append_u64 [] v @ rest) ! (length pre + i) = ucast (drop_bit (i * 8) v AND 0xFF)"
  by (simp add: append_u64_def nth_append)

lemma read_u64_append:
  assumes "off = length pre"
  shows "read_u64 (pre @ append_u64 [] v @ rest) off = Inr v"
proof -
  let ?data = "pre @ append_u64 [] v @ rest"
  have "read_u64_loop ?data off [0..<8] 0 = v"
  proof (rule bit_word_eqI)
    fix n assume "n < LENGTH(64)"
    then have n: "n < 64" by simp
    have "(\<exists>i \<in> set [0..<8]. i * 8 \<le> n \<and> bit (?data ! (off + i)) (n - i * 8)) \<longleftrightarrow>
          (\<exists>i < 8. i * 8 \<le> n \<and> n - i * 8 < 8 \<and> bit v n)"
    proof -
      have "bit (?data ! (off + i)) (n - i * 8) \<longleftrightarrow> n - i * 8 < 8 \<and> bit v n"
        if "i < 8" "i * 8 \<le> n" for i
        using that by (simp only: assms nth_append_u64) (auto simp: and_FF bit_simps)
      then show ?thesis
        by (auto simp del: upt_rec_numeral)
    qed
    also have "\<dots> \<longleftrightarrow> bit v n"
    proof -
      have "n div 8 < 8" "n div 8 * 8 \<le> n" "n - n div 8 * 8 < 8"
        using n by auto
      then show ?thesis by blast
    qed
    finally show "bit (read_u64_loop ?data off [0..<8] 0) n = bit v n"
      using n by (simp add: read_u64_loop_bit)
  qed
  then show ?thesis
    by (simp add: read_u64_def assms)
qed

lemma read_double_append:
  "off = length pre \<Longrightarrow> read_double (pre @ append_double [] v @ rest) off = Inr v"
  by (simp add: read_double_def append_double_def read_u64_append double_bits_roundtrip)

lemma read_float_append:
  "off = length pre \<Longrightarrow>
     read_float (pre @ append_float [] v @ rest) off = Inr (double_of_float_bits v)"
  by (simp add: read_float_def append_float_def read_u32_append)


subsection \<open>Payload round trips\<close>

text \<open>Every builder only appends; a reader at the end of the prefix sees the appended bytes.\<close>

lemma append_point_bytes [writer_bytes]: "append_point buf p = buf @ append_point [] p"
  unfolding append_point_def by (simp add: append_double_def append_u64_def)

lemma length_append_point [simp]: "length (append_point buf p) = length buf + 72"
  by (simp add: append_point_def)

lemma append_point_split:
  "append_point [] p = append_double [] (px p) @ append_double [] (py p) @ append_double [] (pz p) @
     append_double [] (pdepth p) @ append_double [] (pwidth p) @ append_double [] 0 @
     append_double [] 0 @ append_double [] 1 @ append_double [] (D (1/100))"
  unfolding append_point_def by (simp add: append_double_def append_u64_def)

lemma read_double_at:
  "xs = pre @ append_double [] v @ rest \<Longrightarrow> off = length pre \<Longrightarrow> read_double xs off = Inr v"
  by (simp add: read_double_append)

lemma read_u32_at:
  "xs = pre @ append_u32 [] v @ rest \<Longrightarrow> off = length pre \<Longrightarrow> read_u32 xs off = Inr v"
  by (simp add: read_u32_append)

lemma read_u64_at:
  "xs = pre @ append_u64 [] v @ rest \<Longrightarrow> off = length pre \<Longrightarrow> read_u64 xs off = Inr v"
  by (simp add: read_u64_append)

lemma read_float_at:
  "xs = pre @ append_float [] v @ rest \<Longrightarrow> off = length pre \<Longrightarrow>
     read_float xs off = Inr (double_of_float_bits v)"
  by (simp add: read_float_append)

definition std_point :: "point3d \<Rightarrow> bool" where
  "std_point p \<longleftrightarrow> pnormal p = Some (0, 0, 1) \<and> pcurvature p = Some (D (1/100))"

lemma parse_point_append:
  assumes "std_point p" and "off = length pre"
  shows "parse_point (pre @ append_point [] p @ rest) off = Inr (p, off + 72)"
proof -
  let ?xs = "pre @ append_point [] p @ rest"
  let ?d = "append_double []"
  have a: "read_double ?xs off = Inr (px p)"
    by (rule read_double_at [of _ pre]) (simp_all add: append_point_split assms)
  have b: "read_double ?xs (off + 8) = Inr (py p)"
    by (rule read_double_at [of _ "pre @ ?d (px p)"]) (simp_all add: append_point_split assms)
  have c: "read_double ?xs (off + 16) = Inr (pz p)"
    by (rule read_double_at [of _ "pre @ ?d (px p) @ ?d (py p)"])
      (simp_all add: append_point_split assms)
  have d: "read_double ?xs (off + 24) = Inr (pdepth p)"
    by (rule read_double_at [of _ "pre @ ?d (px p) @ ?d (py p) @ ?d (pz p)"])
      (simp_all add: append_point_split assms)
  have e: "read_double ?xs (off + 32) = Inr (pwidth p)"
    by (rule read_double_at [of _ "pre @ ?d (px p) @ ?d (py p) @ ?d (pz p) @ ?d (pdepth p)"])
      (simp_all add: append_point_split assms)
  let ?q = "pre @ ?d (px p) @ ?d (py p) @ ?d (pz p) @ ?d (pdepth p) @ ?d (pwidth p)"
  have f: "read_double ?xs (off + 40) = Inr 0"
    by (rule read_double_at [of _ ?q]) (simp_all add: append_point_split assms)
  have g: "read_double ?xs (off + 48) = Inr 0"
    by (rule read_double_at [of _ "?q @ ?d 0"]) (simp_all add: append_point_split assms)
  have h: "read_double ?xs (off + 56) = Inr 1"
    by (rule read_double_at [of _ "?q @ ?d 0 @ ?d 0"]) (simp_all add: append_point_split assms)
  have i: "read_double ?xs (off + 64) = Inr (D (1/100))"
    by (rule read_double_at [of _ "?q @ ?d 0 @ ?d 0 @ ?d 1"])
      (simp_all add: append_point_split assms)
  show ?thesis
    using assms(1) unfolding parse_point_def a b c d e f g h i
    by (cases p) (simp add: std_point_def)
qed

lemma fold_append_bytes:
  "(\<And>x buf. f x buf = buf @ g x) \<Longrightarrow> fold f xs buf = buf @ concat (map g xs)"
  by (induction xs arbitrary: buf) simp_all

lemma parse_points_append:
  assumes "\<forall>p \<in> set ps. std_point p" and "off = length pre"
  shows "parse_points (length ps) (pre @ concat (map (append_point []) ps) @ rest) off =
    Inr (ps, off + 72 * length ps)"
  using assms
proof (induction ps arbitrary: pre off)
  case Nil
  then show ?case by simp
next
  case (Cons p ps)
  have "parse_point (pre @ append_point [] p @ concat (map (append_point []) ps) @ rest) off
      = Inr (p, off + 72)"
    using Cons.prems by (intro parse_point_append) simp_all
  moreover have "parse_points (length ps)
      ((pre @ append_point [] p) @ concat (map (append_point []) ps) @ rest) (off + 72)
      = Inr (ps, (off + 72) + 72 * length ps)"
    using Cons.prems by (intro Cons.IH) simp_all
  ultimately show ?case
    by simp
qed


text \<open>What the parser should see of a generated crack.\<close>

definition sim_crack :: "laser_draws \<Rightarrow> int \<Rightarrow> nat \<Rightarrow> crack_info" where
  "sim_crack dr pid i =
     (let point_count = 20 + dr_point_extra dr i in
      \<lparr>ci_id = indeterminate, ci_porcelain_id = pid, ci_crack_code = [],
       ci_max_depth = \<bar>dr_max_depth dr i\<bar>, ci_max_width = \<bar>dr_max_width dr i\<bar>,
       ci_total_length = D 5 + \<bar>dr_length dr i\<bar>, ci_status = [],
       ci_points = map (\<lambda>j. sim_point dr i j point_count \<bar>dr_max_depth dr i\<bar> \<bar>dr_max_width dr i\<bar>)
         [0..<unat point_count],
       ci_detected_at = 0\<rparr>)"

lemma std_point_sim [simp]: "std_point (sim_point dr i j n d w)"
  by (simp add: std_point_def sim_point_def Let_def)

lemma append_crack_split:
  "append_crack dr i buf = buf @
     append_double [] (ci_max_depth (sim_crack dr pid i)) @
     append_double [] (ci_max_width (sim_crack dr pid i)) @
     append_double [] (ci_total_length (sim_crack dr pid i)) @
     append_u32 [] (20 + dr_point_extra dr i) @
     concat (map (append_point []) (ci_points (sim_crack dr pid i)))"
proof -
  let ?n = "20 + dr_point_extra dr i"
  let ?p = "\<lambda>j. sim_point dr i j ?n \<bar>dr_max_depth dr i\<bar> \<bar>dr_max_width dr i\<bar>"
  have f: "fold (\<lambda>j buf. append_point buf (?p j)) js buf =
      buf @ concat (map (\<lambda>j. append_point [] (?p j)) js)" for js buf
    by (rule fold_append_bytes) (rule append_point_bytes)
  show ?thesis
    unfolding append_crack_def Let_def f
    by (simp add: sim_crack_def Let_def append_double_bytes [of "_ @ _"] comp_def
        append_double_def append_u64_def append_u32_def)
qed

lemma length_sim_points: "length (ci_points (sim_crack dr pid i)) = unat (20 + dr_point_extra dr i)"
  by (simp add: sim_crack_def Let_def)

lemma parse_crack_append:
  assumes "off = length pre"
  shows "parse_crack pid (append_crack dr i pre @ rest) off =
    Inr (sim_crack dr pid i, length (append_crack dr i pre))"
proof -
  let ?c = "sim_crack dr pid i" and ?d = "append_double []" and ?n = "20 + dr_point_extra dr i"
  let ?pts = "concat (map (append_point []) (ci_points ?c))"
  let ?xs = "pre @ ?d (ci_max_depth ?c) @ ?d (ci_max_width ?c) @ ?d (ci_total_length ?c) @
      append_u32 [] ?n @ ?pts @ rest"
  have xs: "append_crack dr i pre @ rest = ?xs"
    by (subst append_crack_split [where pid = pid]) simp
  have len: "length (append_crack dr i pre) = off + 28 + 72 * unat ?n"
    using assms by (subst append_crack_split [where pid = pid])
      (simp add: length_concat_const [of _ _ 72] length_sim_points)
  have a: "read_double ?xs off = Inr (ci_max_depth ?c)"
    by (rule read_double_at [of _ pre]) (simp_all add: assms)
  have b: "read_double ?xs (off + 8) = Inr (ci_max_width ?c)"
    by (rule read_double_at [of _ "pre @ ?d (ci_max_depth ?c)"]) (simp_all add: assms)
  have c: "read_double ?xs (off + 16) = Inr (ci_total_length ?c)"
    by (rule read_double_at [of _ "pre @ ?d (ci_max_depth ?c) @ ?d (ci_max_width ?c)"])
      (simp_all add: assms)
  let ?pre3 = "pre @ ?d (ci_max_depth ?c) @ ?d (ci_max_width ?c) @ ?d (ci_total_length ?c)"
  have d: "read_u32 ?xs (off + 24) = Inr ?n"
    by (rule read_u32_at [of _ ?pre3]) (simp_all add: assms)
  have std: "\<forall>p \<in> set (ci_points ?c). std_point p"
    by (auto simp: sim_crack_def Let_def)
  have e: "parse_points (unat ?n) ?xs (off + 28) = Inr (ci_points ?c, off + 28 + 72 * unat ?n)"
    using parse_points_append [OF std, of "off + 28" "?pre3 @ append_u32 [] ?n" rest] assms
    by (simp add: length_sim_points)
  show ?thesis
    unfolding xs parse_crack_def a b c d e len and_then_Inr
    by (simp only: and_then_Inr e prod.case) (simp add: sim_crack_def Let_def)
qed

lemma append_crack_bytes: "append_crack dr i buf = buf @ append_crack dr i []"
  using append_crack_split [of dr i buf 0] append_crack_split [of dr i "[]" 0] by simp

lemma parse_cracks_append:
  assumes "off = length pre"
  shows "parse_cracks (length is) pid (fold (append_crack dr) is pre @ rest) off =
    Inr (map (sim_crack dr pid) is, length (fold (append_crack dr) is pre))"
  using assms
proof (induction "is" arbitrary: pre off)
  case Nil
  then show ?case by simp
next
  case (Cons i "is")
  have split: "fold (append_crack dr) is buf = buf @ concat (map (\<lambda>i. append_crack dr i []) is)" for buf
    by (rule fold_append_bytes) (rule append_crack_bytes)
  have "parse_crack pid (append_crack dr i pre @ concat (map (\<lambda>i. append_crack dr i []) is) @ rest) off
      = Inr (sim_crack dr pid i, length (append_crack dr i pre))"
    using Cons.prems by (rule parse_crack_append)
  then have a: "parse_crack pid (fold (append_crack dr) (i # is) pre @ rest) off
      = Inr (sim_crack dr pid i, length (append_crack dr i pre))"
    by (simp add: split)
  have "parse_cracks (length is) pid (fold (append_crack dr) is (append_crack dr i pre) @ rest)
      (length (append_crack dr i pre)) =
      Inr (map (sim_crack dr pid) is, length (fold (append_crack dr) is (append_crack dr i pre)))"
    by (rule Cons.IH) simp
  with a show ?case
    by simp
qed

lemma parse_json_tail_append:
  assumes "off = length pre" and "0 < length txt" and "length txt < 2 ^ 32"
  shows "parse_json_tail parse_json (pre @ append_u32 [] (word_of_nat (length txt)) @ txt) off =
    parse_json txt"
proof -
  let ?xs = "pre @ append_u32 [] (word_of_nat (length txt)) @ txt"
  have a: "read_u32 ?xs off = Inr (word_of_nat (length txt))"
    using assms(1) by (rule read_u32_append)
  have "unat (word_of_nat (length txt) :: u32) = length txt"
    using assms(3) by (simp add: unat_of_nat take_bit_nat_eq_self)
  then show ?thesis
    unfolding parse_json_tail_def a and_then_Inr Let_def using assms by simp
qed


definition sim_laser_data :: "sensor_config \<Rightarrow> bool \<Rightarrow> u32 \<Rightarrow> laser_draws \<Rightarrow> laser_data" where
  "sim_laser_data cfg shock cycle dr =
     (let pid = int_of_u32 (word_of_int (sc_porcelain_id cfg));
          n = laser_crack_count shock cycle dr in
      \<lparr>ld_id = indeterminate, ld_sensor_id = int_of_u32 (word_of_int (sc_id cfg)),
       ld_porcelain_id = pid, ld_measurement_time = time_of_u64 (dr_timestamp dr),
       ld_scan_area = [0, 0, D 20, D 20], ld_resolution = D (1 / 10 ^ 7),
       ld_crack_detected = laser_flag shock cycle dr, ld_crack_count = int_of_u32 n,
       ld_cracks = map (sim_crack dr pid) [0..<unat n], ld_processed_data = laser_json shock\<rparr>)"

lemma fold_append_crack_bytes:
  "fold (append_crack dr) is buf = buf @ concat (map (\<lambda>i. append_crack dr i []) is)"
  by (rule fold_append_bytes) (rule append_crack_bytes)

lemma nat_int_of_u32: "unat (w :: u32) < 2 ^ 31 \<Longrightarrow> nat (int_of_u32 w) = unat w"
proof -
  assume "unat w < 2 ^ 31"
  then have "nat (uint w) < 2 ^ 31"
    unfolding unat_eq_nat_uint .
  then have "uint w < int (2 ^ 31)"
    by (simp only: nat_less_iff uint_ge_0)
  then have "uint w < 2 ^ 31"
    by (simp only: of_nat_power of_nat_numeral)
  moreover have "- (2 ^ 31) \<le> uint w"
    by (rule order.trans [OF _ uint_ge_0]) simp
  ultimately have "signed_take_bit 31 (uint w) = uint w"
    by (simp only: signed_take_bit_int_eq_self_iff)
  moreover have "LENGTH(32) - Suc 0 = 31"
    by simp
  ultimately have "int_of_u32 w = uint w"
    unfolding int_of_u32_def sint_uint by (simp only:)
  then show ?thesis
    by (simp only: unat_eq_nat_uint)
qed

text \<open>The fixed part of a laser payload, then cracks and the JSON tail.\<close>

lemma build_laser_payload_split:
  "build_laser_payload dump cfg shock cycle dr =
     append_u32 [] (word_of_int (sc_id cfg)) @ append_u32 [] (word_of_int (sc_porcelain_id cfg)) @
     append_u64 [] (dr_timestamp dr) @ append_double [] 0 @ append_double [] 0 @
     append_double [] (D 20) @ append_double [] (D 20) @ append_double [] (D (1 / 10 ^ 7)) @
     [if laser_flag shock cycle dr then 1 else 0] @
     append_u32 [] (laser_crack_count shock cycle dr) @
     concat (map (\<lambda>i. append_crack dr i []) [0..<unat (laser_crack_count shock cycle dr)]) @
     append_u32 [] (word_of_nat (length (dump (laser_json shock)))) @ dump (laser_json shock)"
  unfolding build_laser_payload_def Let_def fold_append_crack_bytes
  by (simp add: writer_app)

lemma parse_built_laser:
  assumes "dump (laser_json shock) \<noteq> []" and "length (dump (laser_json shock)) < 2 ^ 32"
    and "parse_json (dump (laser_json shock)) = Inr (laser_json shock)"
    and "unat (dr_crack_count dr) \<le> 6"
  shows "parse_laser_data parse_json (build_laser_payload dump cfg shock cycle dr) =
    Inr (sim_laser_data cfg shock cycle dr)"
proof -
  let ?n = "laser_crack_count shock cycle dr" and ?j = "dump (laser_json shock)"
  let ?i = "word_of_int (sc_id cfg) :: u32" and ?p = "word_of_int (sc_porcelain_id cfg) :: u32"
  let ?ids = "append_u32 [] ?i @ append_u32 [] ?p @ append_u64 [] (dr_timestamp dr)"
  let ?area = "append_double [] 0 @ append_double [] 0 @ append_double [] (D 20) @
      append_double [] (D 20) @ append_double [] (D (1 / 10 ^ 7))"
  let ?flag = "[if laser_flag shock cycle dr then 1 else 0] :: bytes"
  let ?head = "?ids @ ?area @ ?flag @ append_u32 [] ?n"
  let ?cr = "concat (map (\<lambda>i. append_crack dr i []) [0..<unat ?n])"
  let ?tail = "append_u32 [] (word_of_nat (length ?j)) @ ?j"
  define xs where "xs = ?head @ ?cr @ ?tail"
  have xs: "build_laser_payload dump cfg shock cycle dr = xs"
    unfolding xs_def build_laser_payload_split by simp
  have r0: "read_u32 xs 0 = Inr ?i"
    by (rule read_u32_at [of _ "[]"]) (simp_all add: xs_def)
  have r4: "read_u32 xs 4 = Inr ?p"
    by (rule read_u32_at [of _ "append_u32 [] ?i"]) (simp_all add: xs_def)
  have r8: "read_u64 xs 8 = Inr (dr_timestamp dr)"
    by (rule read_u64_at [of _ "append_u32 [] ?i @ append_u32 [] ?p"]) (simp_all add: xs_def)
  have r16: "read_double xs 16 = Inr 0"
    by (rule read_double_at [of _ ?ids]) (simp_all add: xs_def)
  have r24: "read_double xs 24 = Inr 0"
    by (rule read_double_at [of _ "?ids @ append_double [] 0"]) (simp_all add: xs_def)
  have r32: "read_double xs 32 = Inr (D 20)"
    by (rule read_double_at [of _ "?ids @ append_double [] 0 @ append_double [] 0"])
      (simp_all add: xs_def)
  have r40: "read_double xs 40 = Inr (D 20)"
    by (rule read_double_at [of _ "?ids @ append_double [] 0 @ append_double [] 0 @
        append_double [] (D 20)"]) (simp_all add: xs_def)
  have r48: "read_double xs 48 = Inr (D (1 / 10 ^ 7))"
    by (rule read_double_at [of _ "?ids @ append_double [] 0 @ append_double [] 0 @
        append_double [] (D 20) @ append_double [] (D 20)"]) (simp_all add: xs_def)
  have r56: "vec_get xs 56 = Inr (if laser_flag shock cycle dr then 1 else 0)"
    by (simp add: vec_get_def xs_def nth_append)
  have r57: "read_u32 xs 57 = Inr ?n"
    by (rule read_u32_at [of _ "?ids @ ?area @ ?flag"]) (simp_all add: xs_def)
  have "unat ?n \<le> 6"
    using assms(4) by (simp add: laser_crack_count_def)
  then have n: "nat (int_of_u32 ?n) = unat ?n"
    by (intro nat_int_of_u32) simp
  let ?off = "length (?head @ ?cr)"
  have "parse_cracks (length [0..<unat ?n]) (int_of_u32 ?p)
      (fold (append_crack dr) [0..<unat ?n] ?head @ ?tail) 61 =
    Inr (map (sim_crack dr (int_of_u32 ?p)) [0..<unat ?n],
         length (fold (append_crack dr) [0..<unat ?n] ?head))"
    by (rule parse_cracks_append) simp
  then have rc: "parse_cracks (unat ?n) (int_of_u32 ?p) xs 61 =
      Inr (map (sim_crack dr (int_of_u32 ?p)) [0..<unat ?n], ?off)"
    by (simp add: fold_append_crack_bytes xs_def)
  have rj: "parse_json_tail parse_json xs ?off = Inr (laser_json shock)"
    using parse_json_tail_append [of ?off "?head @ ?cr" ?j parse_json] assms(1-3)
    by (simp add: xs_def)
  show ?thesis
    unfolding xs parse_laser_data_def r0 r4 r8 r16 r24 r32 r40 r48 r56 r57
    by (simp only: and_then_Inr n rc rj prod.case) (simp add: sim_laser_data_def Let_def)
qed

text \<open>C6: The laser payload parser recovers every field, crack and point the simulator's laser
  payload builder wrote, for any draws, provided \<open>json::parse\<close> inverts \<open>json::dump\<close> on the
  small object sent and at most six cracks are drawn, as the generator's range says.\<close>

theorem laser_payload_roundtrip:
  assumes "dump (laser_json shock) \<noteq> []" and "length (dump (laser_json shock)) < 2 ^ 32"
    and "parse_json (dump (laser_json shock)) = Inr (laser_json shock)"
    and "unat (dr_crack_count dr) \<le> 6"
  shows "parse_laser_data parse_json (build_laser_payload dump cfg shock cycle dr) =
    Inr (sim_laser_data cfg shock cycle dr)"
  using assms by (rule parse_built_laser)


definition sim_vibration_data :: "sensor_config \<Rightarrow> bool \<Rightarrow> vibration_draws \<Rightarrow> vibration_data" where
  "sim_vibration_data cfg shock dv =
     (let rms = \<bar>dv_rms dv\<bar>; f = sim_dom_freq shock dv in
      \<lparr>vd_id = indeterminate, vd_sensor_id = int_of_u32 (word_of_int (sc_id cfg + 20)),
       vd_porcelain_id = int_of_u32 (word_of_int (sc_porcelain_id cfg)),
       vd_measurement_time = time_of_u64 (dv_timestamp dv),
       vd_frequency_spectrum = vibration_json shock f,
       vd_amplitude = map (\<lambda>i. sim_amplitude shock rms f (dv_amp_noise dv i) i) [0..<100],
       vd_rms_value = rms, vd_peak_value = \<bar>dv_peak dv\<bar>, vd_dominant_frequency = f,
       vd_temperature = double_of_float_bits (dv_temp dv),
       vd_humidity = double_of_float_bits (dv_hum dv)\<rparr>)"

lemma parse_amplitudes_append:
  assumes "off = length pre"
  shows "parse_amplitudes (length as) (pre @ concat (map (append_double []) as) @ rest) off =
    Inr (as, off + 8 * length as)"
  using assms
proof (induction as arbitrary: pre off)
  case Nil
  then show ?case by simp
next
  case (Cons a as)
  have "read_double (pre @ append_double [] a @ concat (map (append_double []) as) @ rest) off = Inr a"
    using Cons.prems by (rule read_double_append)
  moreover have "parse_amplitudes (length as)
      ((pre @ append_double [] a) @ concat (map (append_double []) as) @ rest) (off + 8) =
      Inr (as, (off + 8) + 8 * length as)"
    using Cons.prems by (intro Cons.IH) simp
  ultimately show ?case
    by simp
qed

lemma fold_append_amplitudes:
  "fold (\<lambda>i buf. append_double buf (f i)) is buf =
     buf @ concat (map (append_double []) (map f is))"
  by (subst fold_append_bytes [of "\<lambda>i buf. append_double buf (f i)" "\<lambda>i. append_double [] (f i)"])
    (simp_all add: comp_def append_double_def append_u64_def)

lemma build_vibration_payload_split:
  "build_vibration_payload dump cfg shock dv =
     append_u32 [] (word_of_int (sc_id cfg + 20)) @
     append_u32 [] (word_of_int (sc_porcelain_id cfg)) @ append_u64 [] (dv_timestamp dv) @
     append_double [] \<bar>dv_rms dv\<bar> @ append_double [] \<bar>dv_peak dv\<bar> @
     append_double [] (sim_dom_freq shock dv) @
     append_float [] (dv_temp dv) @ append_float [] (dv_hum dv) @ append_u32 [] 100 @
     concat (map (append_double []) (vd_amplitude (sim_vibration_data cfg shock dv))) @
     append_u32 [] (word_of_nat (length (dump (vibration_json shock (sim_dom_freq shock dv))))) @
     dump (vibration_json shock (sim_dom_freq shock dv))"
  unfolding build_vibration_payload_def Let_def fold_append_amplitudes
  by (simp add: sim_vibration_data_def Let_def writer_app append_float_def del: upt_rec_numeral)

text \<open>The vibration payload parser recovers the ids, the timestamp, the five measurements, all
  hundred amplitudes and the spectrum the simulator's builder wrote.\<close>

theorem vibration_payload_roundtrip:
  fixes shock :: bool and dv :: vibration_draws and dump :: "json \<Rightarrow> bytes"
  defines "j \<equiv> vibration_json shock (sim_dom_freq shock dv)"
  assumes "dump j \<noteq> []" and "length (dump j) < 2 ^ 32" and "parse_json (dump j) = Inr j"
  shows "parse_vibration_data parse_json (build_vibration_payload dump cfg shock dv) =
    Inr (sim_vibration_data cfg shock dv)"
proof -
  let ?v = "sim_vibration_data cfg shock dv" and ?f = "sim_dom_freq shock dv"
  let ?i = "word_of_int (sc_id cfg + 20) :: u32" and ?p = "word_of_int (sc_porcelain_id cfg) :: u32"
  let ?ids = "append_u32 [] ?i @ append_u32 [] ?p @ append_u64 [] (dv_timestamp dv)"
  let ?d = "append_double []"
  let ?vals = "?d \<bar>dv_rms dv\<bar> @ ?d \<bar>dv_peak dv\<bar> @ ?d ?f"
  let ?env = "append_float [] (dv_temp dv) @ append_float [] (dv_hum dv)"
  let ?head = "?ids @ ?vals @ ?env @ append_u32 [] 100"
  let ?am = "concat (map (append_double []) (vd_amplitude ?v))"
  let ?tail = "append_u32 [] (word_of_nat (length (dump j))) @ dump j"
  define xs where "xs = ?head @ ?am @ ?tail"
  have xs: "build_vibration_payload dump cfg shock dv = xs"
    unfolding xs_def build_vibration_payload_split j_def by simp
  have r0: "read_u32 xs 0 = Inr ?i"
    by (rule read_u32_at [of _ "[]"]) (simp_all add: xs_def)
  have r4: "read_u32 xs 4 = Inr ?p"
    by (rule read_u32_at [of _ "append_u32 [] ?i"]) (simp_all add: xs_def)
  have r8: "read_u64 xs 8 = Inr (dv_timestamp dv)"
    by (rule read_u64_at [of _ "append_u32 [] ?i @ append_u32 [] ?p"]) (simp_all add: xs_def)
  have r16: "read_double xs 16 = Inr \<bar>dv_rms dv\<bar>"
    by (rule read_double_at [of _ ?ids]) (simp_all add: xs_def)
  have r24: "read_double xs 24 = Inr \<bar>dv_peak dv\<bar>"
    by (rule read_double_at [of _ "?ids @ ?d \<bar>dv_rms dv\<bar>"]) (simp_all add: xs_def)
  have r32: "read_double xs 32 = Inr ?f"
    by (rule read_double_at [of _ "?ids @ ?d \<bar>dv_rms dv\<bar> @ ?d \<bar>dv_peak dv\<bar>"])
      (simp_all add: xs_def)
  have r40: "read_float xs 40 = Inr (double_of_float_bits (dv_temp dv))"
    by (rule read_float_at [of _ "?ids @ ?vals"]) (simp_all add: xs_def)
  have r44: "read_float xs 44 = Inr (double_of_float_bits (dv_hum dv))"
    by (rule read_float_at [of _ "?ids @ ?vals @ append_float [] (dv_temp dv)"])
      (simp_all add: xs_def)
  have r48: "read_u32 xs 48 = Inr 100"
    by (rule read_u32_at [of _ "?ids @ ?vals @ ?env"]) (simp_all add: xs_def)
  have len: "length (vd_amplitude ?v) = 100"
    by (simp add: sim_vibration_data_def Let_def)
  have ra: "parse_amplitudes (unat (100 :: u32)) xs 52 = Inr (vd_amplitude ?v, length (?head @ ?am))"
    using parse_amplitudes_append [of 52 ?head "vd_amplitude ?v" ?tail]
    by (simp add: len xs_def length_concat_const [of _ _ 8])
  have rj: "parse_json_tail parse_json xs (length (?head @ ?am)) = Inr j"
    using parse_json_tail_append [of "length (?head @ ?am)" "?head @ ?am" "dump j" parse_json] assms(2-)
    by (simp add: xs_def)
  show ?thesis
    unfolding xs parse_vibration_data_def r0 r4 r8 r16 r24 r32 r40 r44 r48
    by (simp only: and_then_Inr ra rj prod.case) (simp add: sim_vibration_data_def Let_def j_def)
qed

subsection \<open>The packet\<close>

text \<open>The header is 20 bytes; the builder adds four zero bytes before the payload but announces
  the length of the payload alone.\<close>

lemma build_profinet_packet_split:
  "build_profinet_packet now cycle_counter frame_id payload =
     append_u16 [] frame_id @ [1, 1] @ append_u32 [] cycle_counter @ append_u64 [] now @
     append_u16 [] 1 @ append_u16 [] (word_of_nat (length payload)) @ [0, 0, 0, 0] @ payload"
  unfolding build_profinet_packet_def Let_def by (simp add: writer_app)

lemma read_u16_at:
  "xs = pre @ append_u16 [] v @ rest \<Longrightarrow> off = length pre \<Longrightarrow> read_u16 xs off = Inr v"
  by (simp add: read_u16_append)

lemma parse_header_packet:
  "parse_header (build_profinet_packet now cycle frame_id payload) =
     Inr \<lparr>ph_frame_id = frame_id, ph_service_id = 1, ph_service_type = 1,
          ph_cycle_counter = cycle, ph_timestamp = now, ph_data_status = 1,
          ph_payload_length = word_of_nat (length payload)\<rparr>"
proof -
  define xs where "xs = build_profinet_packet now cycle frame_id payload"
  let ?a = "append_u16 [] frame_id @ [1, 1]" and ?n = "word_of_nat (length payload) :: u16"
  have xs: "xs = ?a @ append_u32 [] cycle @ append_u64 [] now @ append_u16 [] 1 @
      append_u16 [] ?n @ [0, 0, 0, 0] @ payload"
    by (simp add: xs_def build_profinet_packet_split)
  have r0: "read_u16 xs 0 = Inr frame_id"
    by (rule read_u16_at [of _ "[]"]) (simp_all add: xs)
  have r4: "read_u32 xs 4 = Inr cycle"
    by (rule read_u32_at [of _ ?a]) (simp_all add: xs)
  have r8: "read_u64 xs 8 = Inr now"
    by (rule read_u64_at [of _ "?a @ append_u32 [] cycle"]) (simp_all add: xs)
  have r16: "read_u16 xs 16 = Inr 1"
    by (rule read_u16_at [of _ "?a @ append_u32 [] cycle @ append_u64 [] now"])
      (simp_all add: xs)
  have r18: "read_u16 xs 18 = Inr ?n"
    by (rule read_u16_at [of _ "?a @ append_u32 [] cycle @ append_u64 [] now @ append_u16 [] 1"])
      (simp_all add: xs)
  have "vec_get xs 2 = Inr 1" "vec_get xs 3 = Inr 1"
    by (simp_all add: vec_get_def xs nth_append)
  then show ?thesis
    unfolding xs_def [symmetric] parse_header_def r0 r4 r8 r16 r18 by (simp add: r4 r8 r16 r18)
qed

text \<open>So the parser's payload is the sent one preceded by four zeros and short of its last four
  bytes.\<close>

text \<open>The packet parser accepts every packet the simulator builds but returns a payload that
  is not the one sent: four zero bytes precede it and its last four bytes are lost, because the
  builder pads the header to 24 bytes while the parser takes the payload at 20.\<close>

theorem parse_built_packet:
  assumes "length payload < 2 ^ 16"
  shows "parse_packet t (build_profinet_packet now cycle frame_id payload) src dst =
    Inr \<lparr>pp_source_ip = src, pp_destination_ip = dst,
         pp_packet_type = packet_type_to_string frame_id, pp_frame_id = frame_id,
         pp_payload = take (length payload) ([0, 0, 0, 0] @ payload), pp_received_at = t\<rparr>"
proof -
  let ?xs = "build_profinet_packet now cycle frame_id payload"
  have n: "unat (word_of_nat (length payload) :: u16) = length payload"
    using assms by (simp add: unat_of_nat take_bit_nat_eq_self)
  have len: "length ?xs = 24 + length payload"
    by (simp add: build_profinet_packet_split)
  have "drop 20 ?xs = [0, 0, 0, 0] @ payload"
    by (simp add: build_profinet_packet_split)
  then show ?thesis
    by (simp add: parse_packet_def parse_header_packet HEADER_SIZE_def n len Let_def)
qed

lemma laser_sensor_id_zero:
  assumes "parse_laser_data parse_json (take n ([0, 0, 0, 0] @ payload)) = Inr d"
  shows "ld_sensor_id d = 0"
proof -
  let ?p = "take n ([0, 0, 0, 0] @ payload)"
  obtain w where w: "read_u32 ?p 0 = Inr w" and d: "ld_sensor_id d = int_of_u32 w"
    using assms by (auto simp: parse_laser_data_def and_then_eq_Inr_iff split: prod.splits)
  have "4 \<le> n"
    using w by (auto simp: read_u32_def split: if_splits)
  then have "?p = [0, 0, 0, 0] @ take (n - 4) payload"
    by (simp add: take_Cons' numeral_eq_Suc)
  then have "w = 0"
    using w by (auto simp: read_u32_def split: if_splits)
  then show ?thesis
    by (simp add: d int_of_u32_def)
qed


subsection \<open>Concrete instances\<close>

definition demo_config :: sensor_config where
  "demo_config = \<lparr>sc_id = 7, sc_name = ''#7'', sc_porcelain_id = 7, sc_type = ''LASER'',
     sc_server_ip = ''127.0.0.1'', sc_server_port = 34964, sc_interval_ms = 10802000\<rparr>"

definition demo_laser_draws :: laser_draws where
  "demo_laser_draws = \<lparr>dr_timestamp = 1700000000000000000, dr_flag_depth = D 210,
     dr_crack_count = 2, dr_max_depth = (\<lambda>i. D 250), dr_max_width = (\<lambda>i. D 60),
     dr_length = (\<lambda>i. D 10), dr_point_extra = (\<lambda>i. 5), dr_x = (\<lambda>i j. D 1),
     dr_y = (\<lambda>i j. D 2), dr_z = (\<lambda>i j. D 3)\<rparr>"

definition demo_vibration_draws :: vibration_draws where
  "demo_vibration_draws = \<lparr>dv_timestamp = 1700000000000000000, dv_rms = D (1 / 10 ^ 7),
     dv_peak = D (5 / 10 ^ 7), dv_freq_noise = 0, dv_temp = 0x41B00000, dv_hum = 0x42480000,
     dv_amp_noise = (\<lambda>i. 0)\<rparr>"

theorem laser_payload_roundtrip_witness:
  "parse_laser_data (\<lambda>_. Inr (laser_json False))
     (build_laser_payload (\<lambda>_. [0x7B, 0x7D]) demo_config False 3 demo_laser_draws) =
   Inr (sim_laser_data demo_config False 3 demo_laser_draws)"
  by (rule laser_payload_roundtrip) (simp_all add: demo_laser_draws_def)

theorem vibration_payload_roundtrip_witness:
  "parse_vibration_data (\<lambda>_. Inr (vibration_json True (sim_dom_freq True demo_vibration_draws)))
     (build_vibration_payload (\<lambda>_. [0x7B, 0x7D]) demo_config True demo_vibration_draws) =
   Inr (sim_vibration_data demo_config True demo_vibration_draws)"
  by (rule vibration_payload_roundtrip) simp_all

theorem parse_built_packet_witness:
  "parse_packet 0 (build_profinet_packet 0 1 0x8001 [1, 2, 3, 4, 5]) ''a'' ''b'' =
    Inr \<lparr>pp_source_ip = ''a'', pp_destination_ip = ''b'', pp_packet_type = ''LASER_DATA'',
         pp_frame_id = 0x8001, pp_payload = [0, 0, 0, 0, 1], pp_received_at = 0\<rparr>"
  by (subst parse_built_packet) (simp_all add: packet_type_to_string_def)

end
