(* ===== verification/Sensor_Client.thy ===== *)
theory Sensor_Client
  imports Simulator
begin

section \<open>The simulated sensors and their fleet (src/simulator/main.cpp)\<close>

text \<open>
  The connection state machine of class \<open>ProfinetClient\<close> (connect, back-off, random
  disconnection, periodic sending), the shock injector, and the fleet built by \<open>main\<close>. Each
  completion handler is one function on the client's state; an armed timer or an outstanding
  asynchronous operation is part of the state, and \<open>client_step\<close> lets any outstanding handler
  run. A cancelled wait runs its handler with an error code, which does nothing, so cancelling
  is disarming.
\<close>

subsection \<open>State and handlers\<close>

record client =
  cl_config :: sensor_config
  cl_cycle_counter :: u32
  cl_running :: bool
  cl_connected :: bool
  cl_shock_mode :: bool
  cl_reconnect_count :: int
  cl_max_reconnect_attempts :: int
  cl_connecting :: nat
  cl_timer :: bool
  cl_send_armed :: bool
  cl_reconnect_armed :: "int option"
  cl_disconnect_armed :: "int option"
  cl_writes :: nat

definition new_client :: "sensor_config \<Rightarrow> client" where
  "new_client cfg =
     \<lparr>cl_config = cfg, cl_cycle_counter = 0, cl_running = False, cl_connected = False,
      cl_shock_mode = False, cl_reconnect_count = 0, cl_max_reconnect_attempts = 10,
      cl_connecting = 0, cl_timer = False, cl_send_armed = False, cl_reconnect_armed = None,
      cl_disconnect_armed = None, cl_writes = 0\<rparr>"

definition cl_connect :: "client \<Rightarrow> client" where
  "cl_connect s = s\<lparr>cl_connecting := cl_connecting s + 1\<rparr>"

definition cl_start :: "client \<Rightarrow> client" where
  "cl_start s = cl_connect (s\<lparr>cl_running := True\<rparr>)"

definition cl_stop :: "client \<Rightarrow> client" where
  "cl_stop s = s\<lparr>cl_running := False,
     cl_send_armed := (if cl_timer s then False else cl_send_armed s),
     cl_reconnect_armed := None, cl_disconnect_armed := None\<rparr>"

definition set_shock_mode :: "bool \<Rightarrow> client \<Rightarrow> client" where
  "set_shock_mode m s = s\<lparr>cl_shock_mode := m\<rparr>"

definition schedule_reconnect :: "client \<Rightarrow> client" where
  "schedule_reconnect s =
     (if cl_reconnect_count s \<ge> cl_max_reconnect_attempts s then s
      else let n = cl_reconnect_count s + 1
        in s\<lparr>cl_reconnect_count := n, cl_reconnect_armed := Some (min 30 (2 * n))\<rparr>)"

definition schedule_random_disconnect :: "int \<Rightarrow> client \<Rightarrow> client" where
  "schedule_random_disconnect after_sec s = s\<lparr>cl_disconnect_armed := Some after_sec\<rparr>"

definition schedule_next_send :: "client \<Rightarrow> client" where
  "schedule_next_send s = (if \<not> cl_running s then s else s\<lparr>cl_send_armed := True\<rparr>)"

definition start_sending :: "client \<Rightarrow> client" where
  "start_sending s = schedule_next_send (s\<lparr>cl_timer := True, cl_send_armed := False\<rparr>)"

definition on_connect :: "bool \<Rightarrow> int \<Rightarrow> client \<Rightarrow> client" where
  "on_connect ok disconnect_sec s0 =
     (let s = s0\<lparr>cl_connecting := cl_connecting s0 - 1\<rparr> in
      if ok then
        schedule_random_disconnect disconnect_sec
          (start_sending (s\<lparr>cl_connected := True, cl_reconnect_count := 0\<rparr>))
      else let s = s\<lparr>cl_connected := False\<rparr>
        in if cl_running s then schedule_reconnect s else s)"

definition on_reconnect_timer :: "client \<Rightarrow> client" where
  "on_reconnect_timer s0 =
     (let s = s0\<lparr>cl_reconnect_armed := None\<rparr>
      in if cl_running s then cl_connect s else s)"

definition on_disconnect_timer :: "client \<Rightarrow> client" where
  "on_disconnect_timer s0 =
     (let s = s0\<lparr>cl_disconnect_armed := None\<rparr>
      in if cl_running s \<and> cl_connected s then
           schedule_reconnect (s\<lparr>cl_connected := False,
             cl_send_armed := (if cl_timer s then False else cl_send_armed s)\<rparr>)
         else s)"

text \<open>\<open>send_data\<close>: one more cycle and one packet handed to the socket; the payload draws are
  arguments.\<close>

definition send_packet ::
  "(json \<Rightarrow> bytes) \<Rightarrow> u64 \<Rightarrow> laser_draws \<Rightarrow> vibration_draws \<Rightarrow> client \<Rightarrow> bytes" where
  "send_packet dump now dr dv s =
     (let cfg = cl_config s; laser = (sc_type cfg = ''LASER'');
          payload = (if laser
            then build_laser_payload dump cfg (cl_shock_mode s) (cl_cycle_counter s) dr
            else build_vibration_payload dump cfg (cl_shock_mode s) dv)
      in build_profinet_packet now (cl_cycle_counter s) (if laser then 0x8001 else 0x8002) payload)"

definition send_data ::
  "(json \<Rightarrow> bytes) \<Rightarrow> u64 \<Rightarrow> laser_draws \<Rightarrow> vibration_draws \<Rightarrow> client \<Rightarrow> bytes \<times> client" where
  "send_data dump now dr dv s0 =
     (let s = s0\<lparr>cl_cycle_counter := cl_cycle_counter s0 + 1\<rparr>
      in (send_packet dump now dr dv s, s\<lparr>cl_writes := cl_writes s + 1\<rparr>))"

definition on_send_timer ::
  "(json \<Rightarrow> bytes) \<Rightarrow> u64 \<Rightarrow> laser_draws \<Rightarrow> vibration_draws \<Rightarrow> client \<Rightarrow> bytes list \<times> client" where
  "on_send_timer dump now dr dv s0 =
     (let s = s0\<lparr>cl_send_armed := False\<rparr>
      in if cl_running s then
           (let (packet, s) = send_data dump now dr dv s in ([packet], schedule_next_send s))
         else ([], s))"

definition on_write :: "bool \<Rightarrow> client \<Rightarrow> client" where
  "on_write ok s0 =
     (let s = s0\<lparr>cl_writes := cl_writes s0 - 1\<rparr>
      in if ok then s
         else let s = s\<lparr>cl_connected := False\<rparr>
           in if cl_running s then schedule_reconnect s else s)"

subsection \<open>Any interleaving of calls and handlers\<close>

inductive client_step :: "client \<Rightarrow> client \<Rightarrow> bool" where
  start: "client_step s (cl_start s)"
| stop: "client_step s (cl_stop s)"
| shock: "client_step s (set_shock_mode m s)"
| connect_done: "0 < cl_connecting s \<Longrightarrow> client_step s (on_connect ok d s)"
| reconnect: "cl_reconnect_armed s = Some n \<Longrightarrow> client_step s (on_reconnect_timer s)"
| disconnect: "cl_disconnect_armed s = Some n \<Longrightarrow> client_step s (on_disconnect_timer s)"
| send: "cl_send_armed s \<Longrightarrow> client_step s (snd (on_send_timer dump now dr dv s))"
| write_done: "0 < cl_writes s \<Longrightarrow> client_step s (on_write ok s)"

inductive client_reachable :: "sensor_config \<Rightarrow> client \<Rightarrow> bool" for cfg where
  init: "client_reachable cfg (new_client cfg)"
| step: "client_reachable cfg s \<Longrightarrow> client_step s s' \<Longrightarrow> client_reachable cfg s'"

definition client_inv :: "client \<Rightarrow> bool" where
  "client_inv s \<longleftrightarrow>
     cl_max_reconnect_attempts s = 10 \<and>
     0 \<le> cl_reconnect_count s \<and> cl_reconnect_count s \<le> 10 \<and>
     (cl_send_armed s \<longrightarrow> cl_timer s \<and> cl_running s) \<and>
     (\<forall>d. cl_reconnect_armed s = Some d \<longrightarrow> cl_running s \<and> 2 \<le> d \<and> d \<le> 20)"

lemmas client_ops =
  cl_connect_def cl_start_def cl_stop_def set_shock_mode_def schedule_reconnect_def
  schedule_random_disconnect_def schedule_next_send_def start_sending_def on_connect_def
  on_reconnect_timer_def on_disconnect_timer_def send_data_def on_send_timer_def on_write_def

lemma client_inv_step: "client_step s s' \<Longrightarrow> client_inv s \<Longrightarrow> client_inv s'"
  by (induction rule: client_step.induct)
    (auto simp: client_ops client_inv_def Let_def min_def split: prod.splits if_splits)


text \<open>A client none of whose handlers can run any more.\<close>

definition client_idle :: "client \<Rightarrow> bool" where
  "client_idle s \<longleftrightarrow> cl_connecting s = 0 \<and> \<not> cl_send_armed s \<and> cl_reconnect_armed s = None
     \<and> cl_disconnect_armed s = None \<and> cl_writes s = 0"

text \<open>\<open>n\<close> refused connections, each followed by the back-off timer it armed.\<close>

fun refused :: "nat \<Rightarrow> client \<Rightarrow> client" where
  "refused 0 s = s"
| "refused (Suc n) s = refused n (on_reconnect_timer (on_connect False 0 s))"

lemma refused_state:
  assumes "cl_running s" and "cl_connecting s = 1" and "cl_max_reconnect_attempts s = 10"
    and "cl_reconnect_count s + int n \<le> 10" and "cl_reconnect_armed s = None"
  shows "cl_reconnect_count (refused n s) = cl_reconnect_count s + int n
    \<and> cl_connecting (refused n s) = 1 \<and> cl_running (refused n s)
    \<and> cl_max_reconnect_attempts (refused n s) = 10 \<and> cl_reconnect_armed (refused n s) = None
    \<and> cl_send_armed (refused n s) = cl_send_armed s
    \<and> cl_disconnect_armed (refused n s) = cl_disconnect_armed s
    \<and> cl_writes (refused n s) = cl_writes s"
  using assms
proof (induction n arbitrary: s)
  case 0
  then show ?case by simp
next
  case (Suc n)
  let ?s = "on_reconnect_timer (on_connect False 0 s)"
  have "cl_running ?s" "cl_connecting ?s = 1" "cl_max_reconnect_attempts ?s = 10"
    "cl_reconnect_count ?s = cl_reconnect_count s + 1" "cl_reconnect_armed ?s = None"
    "cl_send_armed ?s = cl_send_armed s" "cl_disconnect_armed ?s = cl_disconnect_armed s"
    "cl_writes ?s = cl_writes s"
    using Suc.prems by (auto simp: client_ops Let_def)
  then show ?case
    using Suc.IH [of ?s] Suc.prems(4) by simp
qed

text \<open>A sensor whose connections are refused backs off by 2, 4, ..., 20 seconds and after the
  eleventh refusal gives up for good: it is still marked as running, but no handler is
  outstanding, so nothing will ever reconnect it.\<close>

theorem client_gives_up:
  "map (\<lambda>k. cl_reconnect_armed (on_connect False 0 (refused k (cl_start (new_client cfg))))) [0..<10]
     = map (\<lambda>k. Some (2 * (int k + 1))) [0..<10]
    \<and> client_idle (on_connect False 0 (refused 10 (cl_start (new_client cfg))))
    \<and> cl_running (on_connect False 0 (refused 10 (cl_start (new_client cfg))))"
proof -
  let ?s = "cl_start (new_client cfg)"
  have s: "cl_reconnect_count (refused k ?s) = int k \<and> cl_connecting (refused k ?s) = 1
    \<and> cl_running (refused k ?s) \<and> cl_max_reconnect_attempts (refused k ?s) = 10
    \<and> cl_reconnect_armed (refused k ?s) = None \<and> \<not> cl_send_armed (refused k ?s)
    \<and> cl_disconnect_armed (refused k ?s) = None \<and> cl_writes (refused k ?s) = 0"
    if "k \<le> 10" for k
    using that refused_state [of ?s k] by (simp add: client_ops new_client_def)
  have "map (\<lambda>k. cl_reconnect_armed (on_connect False 0 (refused k ?s))) [0..<10]
     = map (\<lambda>k. Some (2 * (int k + 1))) [0..<10]"
    using s by (intro map_cong refl) (auto simp: on_connect_def schedule_reconnect_def Let_def)
  moreover have "client_idle (on_connect False 0 (refused 10 ?s))
    \<and> cl_running (on_connect False 0 (refused 10 ?s))"
    using s [of 10] by (simp add: on_connect_def schedule_reconnect_def Let_def client_idle_def)
  ultimately show ?thesis
    by (simp only: conj_assoc simp_thms)
qed

subsection \<open>The shock injector\<close>

record injector =
  in_running :: bool
  in_enabled :: bool
  in_armed :: "int option"

definition new_injector :: injector where
  "new_injector = \<lparr>in_running = False, in_enabled = True, in_armed = None\<rparr>"

definition in_schedule_next :: "int \<Rightarrow> injector \<Rightarrow> injector" where
  "in_schedule_next delay_sec s =
     (if \<not> in_running s \<or> \<not> in_enabled s then s else s\<lparr>in_armed := Some delay_sec\<rparr>)"

definition in_start :: "int \<Rightarrow> injector \<Rightarrow> injector" where
  "in_start delay_sec s = in_schedule_next delay_sec (s\<lparr>in_running := True\<rparr>)"

definition in_stop :: "injector \<Rightarrow> injector" where
  "in_stop s = s\<lparr>in_running := False, in_armed := None\<rparr>"

definition in_set_enabled :: "bool \<Rightarrow> injector \<Rightarrow> injector" where
  "in_set_enabled e s = s\<lparr>in_enabled := e\<rparr>"

text \<open>The timer's handler: the injection runs on the whole fleet, then the next one is armed.\<close>

definition in_on_timer :: "int \<Rightarrow> injector \<Rightarrow> client list \<Rightarrow> injector \<times> client list" where
  "in_on_timer delay_sec s0 clients =
     (let s = s0\<lparr>in_armed := None\<rparr>
      in if in_running s \<and> in_enabled s
         then (in_schedule_next delay_sec s, map (set_shock_mode True) clients)
         else (s, clients))"

subsection \<open>The fleet\<close>

text \<open>The display names (UTF-8 texts in the source) are represented by their numeric suffix.\<close>

definition laser_config :: "string \<Rightarrow> u16 \<Rightarrow> int \<Rightarrow> int \<Rightarrow> sensor_config" where
  "laser_config server_ip server_port interval_ms i =
     \<lparr>sc_id = i, sc_name = ''#'' @ to_string_int i, sc_porcelain_id = i, sc_type = ''LASER'',
      sc_server_ip = server_ip, sc_server_port = server_port,
      sc_interval_ms = interval_ms + (i mod 5) * 1000\<rparr>"

definition vibration_config :: "string \<Rightarrow> u16 \<Rightarrow> int \<Rightarrow> int \<Rightarrow> sensor_config" where
  "vibration_config server_ip server_port interval_ms i =
     \<lparr>sc_id = i, sc_name = ''#'' @ to_string_int i, sc_porcelain_id = (i - 1) mod 200 + 1,
      sc_type = ''VIBRATION'', sc_server_ip = server_ip, sc_server_port = server_port,
      sc_interval_ms = interval_ms + (i mod 5) * 1000\<rparr>"

definition make_fleet :: "string \<Rightarrow> u16 \<Rightarrow> int \<Rightarrow> int \<Rightarrow> int \<Rightarrow> client list" where
  "make_fleet server_ip server_port interval_ms laser_count vibration_count =
     map (\<lambda>i. cl_start (new_client (laser_config server_ip server_port interval_ms i)))
       [1..laser_count] @
     map (\<lambda>i. cl_start (new_client (vibration_config server_ip server_port interval_ms i)))
       [1..vibration_count]"

text \<open>The sensor id a client writes into its payloads.\<close>

definition wire_sensor_id :: "client \<Rightarrow> int" where
  "wire_sensor_id c =
     (let cfg = cl_config c in if sc_type cfg = ''LASER'' then sc_id cfg else sc_id cfg + 20)"

lemma fleet_wire_ids:
  "map wire_sensor_id (make_fleet ip port iv l v) = [1..l] @ map (\<lambda>i. i + 20) [1..v]"
  by (simp add: make_fleet_def wire_sensor_id_def client_ops new_client_def laser_config_def
      vibration_config_def comp_def Let_def)

text \<open>The sensor ids the fleet writes on the wire are pairwise distinct exactly when there are
  at most 20 microscopes or no vibration sensor: the fixed offset 20 does not follow
  \<open>SIM_LASER_COUNT\<close>.\<close>

theorem fleet_ids_distinct_iff:
  "distinct (map wire_sensor_id (make_fleet ip port iv l v)) \<longleftrightarrow> l \<le> 20 \<or> v \<le> 0"
proof -
  have "distinct (map (\<lambda>i. i + 20) [1..v])"
    by (simp add: distinct_map inj_on_def)
  moreover have "set [1..l] \<inter> set (map (\<lambda>i. i + 20) [1..v]) = {} \<longleftrightarrow> l \<le> 20 \<or> v \<le> 0"
  proof
    assume d: "set [1..l] \<inter> set (map (\<lambda>i. i + 20) [1..v]) = {}"
    show "l \<le> 20 \<or> v \<le> 0"
    proof (rule ccontr)
      assume "\<not> (l \<le> 20 \<or> v \<le> 0)"
      then have l: "21 \<in> set [1..l]" and v: "1 \<in> set [1..v]"
        by auto
      have "21 \<in> set (map (\<lambda>i. i + 20) [1..v])"
        unfolding set_map by (rule image_eqI [OF _ v]) simp
      with l have "21 \<in> set [1..l] \<inter> set (map (\<lambda>i. i + 20) [1..v])"
        by (rule IntI)
      with d show False
        by blast
    qed
  next
    assume "l \<le> 20 \<or> v \<le> 0"
    then show "set [1..l] \<inter> set (map (\<lambda>i. i + 20) [1..v]) = {}"
      by auto
  qed
  ultimately show ?thesis
    by (simp only: fleet_wire_ids distinct_append distinct_upto simp_thms)
qed


end
