(* ===== verification/Tcp_Session.thy ===== *)
theory Tcp_Session
  imports Profinet
begin

section \<open>The PROFINET server (src/tcp_server.cpp)\<close>

text \<open>
  The TCP session's frame buffer and its framing loop, the UDP receiver and the acceptor. A
  handler run is a function from the session's state and the received bytes to the calls it
  makes to the registered callbacks and the acknowledges it sends. Exceptions are caught per
  frame by the code; an undefined execution ends the run with \<open>Inl\<close>. The JSON parser, the
  clock and the endpoints' addresses are parameters.
\<close>

datatype delivery =
    Laser_delivery profinet_packet laser_data
  | Vibration_delivery profinet_packet vibration_data
  | Ack_sent bytes

record tcp_env =
  te_json :: json_parser
  te_now :: time_point
  te_now_ns :: u64
  te_remote :: string
  te_local :: string

subsection \<open>One frame\<close>

text \<open>The callbacks of a packet: what was delivered before an exception stays delivered.\<close>

definition dispatch_packet :: "json_parser \<Rightarrow> profinet_packet \<Rightarrow> delivery list result" where
  "dispatch_packet pj packet =
     (if pp_frame_id packet = packet_type_code LASER_DATA then
        and_then (parse_laser_data pj (pp_payload packet)) (\<lambda>d. Inr [Laser_delivery packet d])
      else if pp_frame_id packet = packet_type_code VIBRATION_DATA then
        and_then (parse_vibration_data pj (pp_payload packet)) (\<lambda>d. Inr [Vibration_delivery packet d])
      else Inr [])"

text \<open>The body of the \<open>try\<close> block, over any acknowledge builder: the deliveries made and the
  error it ended with, if any.\<close>

definition process_frame ::
  "(u32 \<Rightarrow> bytes result) \<Rightarrow> tcp_env \<Rightarrow> bytes \<Rightarrow> delivery list \<times> cpp_error option" where
  "process_frame build_ack env frame_data =
     (case and_then (parse_packet (te_now env) frame_data (te_remote env) (te_local env))
        (dispatch_packet (te_json env)) of
        Inl e \<Rightarrow> ([], Some e)
      | Inr ds \<Rightarrow>
          (case and_then (read_u32 frame_data 4) build_ack of
             Inl e \<Rightarrow> (ds, Some e)
           | Inr ack \<Rightarrow> (ds @ [Ack_sent ack], None)))"

subsection \<open>The framing loop\<close>

definition frame_payload_len :: "bytes \<Rightarrow> nat" where
  "frame_payload_len buf = unat (ucast (buf ! 12) OR push_bit 8 (ucast (buf ! 13)) :: u16)"

definition frame_total :: "bytes \<Rightarrow> nat" where
  "frame_total buf = HEADER_SIZE + frame_payload_len buf"

definition MAX_FRAME_BUF_SIZE :: nat where
  "MAX_FRAME_BUF_SIZE = 4 * 1024 * 1024"

definition frame_ready :: "bytes \<Rightarrow> bool" where
  "frame_ready buf \<longleftrightarrow> HEADER_SIZE \<le> length buf \<and> frame_total buf \<le> length buf"

function parse_loop ::
  "(bytes \<Rightarrow> delivery list \<times> cpp_error option) \<Rightarrow> bytes \<Rightarrow> delivery list
     \<Rightarrow> (delivery list \<times> bytes) result" where
  "parse_loop handle buf out =
     (if \<not> frame_ready buf then Inr (out, buf)
      else (case handle (take (frame_total buf) buf) of
          (ds, Some (UB m)) \<Rightarrow> Inl (UB m)
        | (ds, _) \<Rightarrow> parse_loop handle (drop (frame_total buf) buf) (out @ ds)))"
  by pat_completeness auto
termination
  by (relation "measure (\<lambda>(_, buf, _). length buf)")
    (auto simp: frame_ready_def frame_total_def HEADER_SIZE_def)

declare parse_loop.simps [simp del]

definition try_parse_frames_with ::
  "(bytes \<Rightarrow> delivery list \<times> cpp_error option) \<Rightarrow> bytes \<Rightarrow> (delivery list \<times> bytes) result" where
  "try_parse_frames_with handle buf =
     and_then (parse_loop handle buf []) (\<lambda>(out, buf).
       Inr (out, if MAX_FRAME_BUF_SIZE < length buf then [] else buf))"

text \<open>A successful read appends the received bytes and parses.\<close>

definition on_read_with ::
  "(bytes \<Rightarrow> delivery list \<times> cpp_error option) \<Rightarrow> bytes \<Rightarrow> bytes \<Rightarrow> (delivery list \<times> bytes) result"
  where "on_read_with handle frame_buf received = try_parse_frames_with handle (frame_buf @ received)"

definition on_read :: "tcp_env \<Rightarrow> bytes \<Rightarrow> bytes \<Rightarrow> (delivery list \<times> bytes) result" where
  "on_read env frame_buf received =
     on_read_with (process_frame (build_acknowledge (te_now_ns env)) env) frame_buf received"

subsection \<open>UDP datagrams and the acceptor\<close>

definition udp_handle_receive :: "tcp_env \<Rightarrow> bool \<Rightarrow> bytes \<Rightarrow> delivery list \<times> cpp_error option" where
  "udp_handle_receive env error data =
     (if error \<or> data = [] then ([], None)
      else process_frame (build_acknowledge (te_now_ns env)) env data)"

record profinet_server =
  ps_sessions :: "bytes list"
  ps_accepting :: bool

definition server_accept :: "bool \<Rightarrow> profinet_server \<Rightarrow> profinet_server" where
  "server_accept ok s = (if ok then s\<lparr>ps_sessions := ps_sessions s @ [[]]\<rparr> else s)"

definition server_stop :: "profinet_server \<Rightarrow> profinet_server" where
  "server_stop s = s\<lparr>ps_accepting := False, ps_sessions := []\<rparr>"

subsection \<open>The specification of framing\<close>

text \<open>\<open>split_frames\<close> cuts a byte stream into complete frames and an incomplete rest.\<close>

function split_frames :: "bytes \<Rightarrow> bytes list \<times> bytes" where
  "split_frames buf =
     (if \<not> frame_ready buf then ([], buf)
      else let (fs, rest) = split_frames (drop (frame_total buf) buf)
        in (take (frame_total buf) buf # fs, rest))"
  by pat_completeness auto
termination
  by (relation "measure length") (auto simp: frame_ready_def frame_total_def HEADER_SIZE_def)

declare split_frames.simps [simp del]

definition handler_total :: "(bytes \<Rightarrow> delivery list \<times> cpp_error option) \<Rightarrow> bool" where
  "handler_total handle \<longleftrightarrow> (\<forall>f m. snd (handle f) \<noteq> Some (UB m))"

lemma frame_total_append: "HEADER_SIZE \<le> length a \<Longrightarrow> frame_total (a @ b) = frame_total a"
  by (simp add: frame_total_def frame_payload_len_def HEADER_SIZE_def nth_append)

lemma frame_ready_append: "frame_ready a \<Longrightarrow> frame_ready (a @ b)"
  by (auto simp: frame_ready_def frame_total_append)

lemma frame_total_bound: "frame_total buf < 16 + 2 ^ 16"
proof -
  have "frame_payload_len buf < 2 ^ 16"
    unfolding frame_payload_len_def by (rule order.strict_trans2 [OF unsigned_less]) simp
  then show ?thesis
    by (simp add: frame_total_def HEADER_SIZE_def)
qed

lemma not_ready_short: "\<not> frame_ready buf \<Longrightarrow> length buf < 16 + 2 ^ 16"
  using frame_total_bound [of buf] by (auto simp: frame_ready_def HEADER_SIZE_def)

lemma split_frames_concat: "split_frames buf = (fs, rest) \<Longrightarrow> buf = concat fs @ rest"
proof (induction buf arbitrary: fs rest rule: split_frames.induct)
  case (1 buf)
  show ?case
  proof (cases "frame_ready buf")
    case True
    then obtain gs where "split_frames (drop (frame_total buf) buf) = (gs, rest)"
      "fs = take (frame_total buf) buf # gs"
      using 1(2) by (subst (asm) split_frames.simps) (auto split: prod.splits)
    then show ?thesis
      using 1(1) [of gs rest] True by (metis append.assoc append_take_drop_id concat.simps(2))
  next
    case False
    then show ?thesis
      using 1(2) by (subst (asm) split_frames.simps) auto
  qed
qed

lemma split_frames_rest: "split_frames buf = (fs, rest) \<Longrightarrow> \<not> frame_ready rest"
proof (induction buf arbitrary: fs rest rule: split_frames.induct)
  case (1 buf)
  then show ?case
    by (subst (asm) (2) split_frames.simps) (auto split: prod.splits if_splits)
qed

lemma split_frames_append:
  "split_frames a = (fs, rest) \<Longrightarrow>
     split_frames (a @ b) = (fs @ fst (split_frames (rest @ b)), snd (split_frames (rest @ b)))"
proof (induction a arbitrary: fs rest rule: split_frames.induct)
  case (1 a)
  show ?case
  proof (cases "frame_ready a")
    case True
    let ?n = "frame_total a"
    have n: "?n \<le> length a" "HEADER_SIZE \<le> length a"
      using True by (simp_all add: frame_ready_def)
    obtain gs where g: "split_frames (drop ?n a) = (gs, rest)" "fs = take ?n a # gs"
      using 1(2) True by (subst (asm) split_frames.simps) (auto split: prod.splits)
    have "split_frames (drop ?n a @ b) =
        (gs @ fst (split_frames (rest @ b)), snd (split_frames (rest @ b)))"
      using 1(1) [OF _ g(1)] True by simp
    then show ?thesis
      using True n g(2) frame_ready_append [OF True, of b]
      by (subst split_frames.simps) (simp add: frame_total_append)
  next
    case False
    then have "fs = []" "rest = a"
      using 1(2) by (subst (asm) split_frames.simps, simp)+
    then show ?thesis
      by simp
  qed
qed

text \<open>The loop implements the specification.\<close>

definition deliveries :: "(bytes \<Rightarrow> delivery list \<times> cpp_error option) \<Rightarrow> bytes list \<Rightarrow> delivery list" where
  "deliveries handle fs = concat (map (\<lambda>f. fst (handle f)) fs)"

lemma parse_loop_spec:
  assumes "handler_total handle"
  shows "parse_loop handle buf out =
    Inr (out @ deliveries handle (fst (split_frames buf)), snd (split_frames buf))"
proof (induction buf arbitrary: out rule: split_frames.induct)
  case (1 buf)
  show ?case
  proof (cases "frame_ready buf")
    case True
    let ?n = "frame_total buf"
    obtain ds e where h: "handle (take ?n buf) = (ds, e)"
      by (cases "handle (take ?n buf)")
    have nu: "\<And>m. e \<noteq> Some (UB m)"
      using assms unfolding handler_total_def by (metis h snd_conv)
    have "parse_loop handle buf out = parse_loop handle (drop ?n buf) (out @ ds)"
      using True nu by (subst parse_loop.simps)
        (auto simp: h split: option.splits cpp_error.splits)
    also have "\<dots> = Inr ((out @ ds) @ deliveries handle (fst (split_frames (drop ?n buf))),
        snd (split_frames (drop ?n buf)))"
      using "1.IH" [of "out @ ds"] True by simp
    finally show ?thesis
      using True h
      by (simp add: split_frames.simps [of buf] split_beta Let_def deliveries_def)
  next
    case False
    then have "split_frames buf = ([], buf)" "parse_loop handle buf out = Inr (out, buf)"
      by (simp_all add: split_frames.simps [of buf] parse_loop.simps [of handle buf])
    then show ?thesis
      by (simp add: deliveries_def)
  qed
qed

lemma try_parse_frames_spec:
  assumes "handler_total handle"
  shows "try_parse_frames_with handle buf =
    Inr (deliveries handle (fst (split_frames buf)), snd (split_frames buf))"
proof -
  obtain fs rest where s: "split_frames buf = (fs, rest)"
    by (cases "split_frames buf")
  have "length rest < 16 + 2 ^ 16"
    by (rule not_ready_short [OF split_frames_rest [OF s]])
  then have "\<not> MAX_FRAME_BUF_SIZE < length rest"
    by (simp add: MAX_FRAME_BUF_SIZE_def)
  then show ?thesis
    by (simp add: try_parse_frames_with_def parse_loop_spec [OF assms] s)
qed

fun feed ::
  "(bytes \<Rightarrow> delivery list \<times> cpp_error option) \<Rightarrow> bytes \<Rightarrow> bytes list \<Rightarrow> (delivery list \<times> bytes) result"
  where
  "feed handle buf [] = Inr ([], buf)"
| "feed handle buf (chunk # chunks) =
     and_then (on_read_with handle buf chunk) (\<lambda>(out, buf).
     and_then (feed handle buf chunks) (\<lambda>(out', buf). Inr (out @ out', buf)))"


text \<open>The buffer a session keeps between reads is always an incomplete frame, shorter than
  65552 bytes, and the loop never drops or duplicates a byte: consumed frames and rest
  concatenate to the input. The 4 MiB overflow reset is unreachable.\<close>

theorem session_buffer_bound:
  assumes "handler_total handle"
  shows "\<exists>fs rest. parse_loop handle buf [] = Inr (deliveries handle fs, rest)
    \<and> try_parse_frames_with handle buf = Inr (deliveries handle fs, rest)
    \<and> buf = concat fs @ rest \<and> length rest < 65552"
proof -
  obtain fs rest where s: "split_frames buf = (fs, rest)"
    by (cases "split_frames buf")
  then show ?thesis
    using parse_loop_spec [OF assms, of buf "[]"] try_parse_frames_spec [OF assms, of buf]
      split_frames_concat [OF s] not_ready_short [OF split_frames_rest [OF s]]
    by auto
qed

text \<open>C39: The server cannot survive a valid frame: whenever a complete frame parses and its
  callback's parser succeeds, the acknowledge that follows writes out of bounds, so the read
  handler ends in undefined behaviour.\<close>

theorem valid_frame_is_fatal:
  assumes "frame_ready (frame_buf @ received)"
    and "and_then (parse_packet (te_now env) (take (frame_total (frame_buf @ received)) (frame_buf @ received))
           (te_remote env) (te_local env)) (dispatch_packet (te_json env)) = Inr ds"
  shows "is_ub (on_read env frame_buf received)"
proof -
  let ?buf = "frame_buf @ received"
  let ?f = "take (frame_total ?buf) ?buf"
  let ?h = "process_frame (build_acknowledge (te_now_ns env)) env"
  have "\<not> length ?f < 16"
    using assms(2) by (auto simp: parse_packet_def HEADER_SIZE_def)
  then obtain c where c: "read_u32 ?f 4 = Inr c"
    using read_ok_iff(2) [of ?f 4] by auto
  obtain m where m: "build_acknowledge (te_now_ns env) c = Inl (UB m)"
    using build_acknowledge_ub [of "te_now_ns env" c]
    by (auto simp: is_ub_def split: sum.splits cpp_error.splits)
  have "snd (?h ?f) = Some (UB m)"
    using assms(2) c m by (simp add: process_frame_def del: take_append)
  then obtain ds' where "?h ?f = (ds', Some (UB m))"
    by (metis prod.collapse)
  then have "parse_loop ?h ?buf [] = Inl (UB m)"
    using assms(1) by (subst parse_loop.simps) simp
  then show ?thesis
    by (simp add: on_read_def on_read_with_def try_parse_frames_with_def)
qed

subsection \<open>Concrete runs\<close>

definition demo_env :: tcp_env where
  "demo_env = \<lparr>te_json = (\<lambda>_. Inl Json_error), te_now = 0, te_now_ns = 0,
     te_remote = ''r'', te_local = ''l''\<rparr>"

text \<open>Twenty bytes whose framing length (bytes 12 and 13) is 4 and whose payload is empty.\<close>

definition demo_frame :: bytes where
  "demo_frame = [0, 0, 0, 0, 0, 0, 0, 0, 0, 0, 0, 0, 4, 0, 0, 0, 0, 0, 0, 0]"

lemma demo_frame_ready: "frame_ready (demo_frame @ xs)" "frame_total (demo_frame @ xs) = 20"
  by (simp_all add: frame_ready_def frame_total_def frame_payload_len_def demo_frame_def HEADER_SIZE_def)

lemma length_demo_frame: "length demo_frame = 20"
  by (simp add: demo_frame_def)


theorem session_buffer_bound_witness:
  "\<exists>fs rest. parse_loop (\<lambda>f. ([], None)) demo_frame [] = Inr (deliveries (\<lambda>f. ([], None)) fs, rest)
    \<and> try_parse_frames_with (\<lambda>f. ([], None)) demo_frame = Inr (deliveries (\<lambda>f. ([], None)) fs, rest)
    \<and> demo_frame = concat fs @ rest \<and> length rest < 65552"
  by (rule session_buffer_bound) (simp add: handler_total_def)

theorem valid_frame_is_fatal_witness: "is_ub (on_read demo_env [] demo_frame)"
proof (rule valid_frame_is_fatal)
  show "frame_ready ([] @ demo_frame)"
    using demo_frame_ready [of "[]"] by simp
  have f: "take (frame_total ([] @ demo_frame)) ([] @ demo_frame) = demo_frame"
    using demo_frame_ready [of "[]"] by (simp add: demo_frame_def)
  have "\<exists>p. parse_packet (te_now demo_env) demo_frame (te_remote demo_env) (te_local demo_env) = Inr p
      \<and> pp_frame_id p = 0"
    by (simp add: parse_packet_closed demo_frame_def announced_length_def)
  then show "and_then (parse_packet (te_now demo_env) (take (frame_total ([] @ demo_frame)) ([] @ demo_frame))
      (te_remote demo_env) (te_local demo_env)) (dispatch_packet (te_json demo_env)) = Inr []"
    unfolding f by (auto simp: dispatch_packet_def)
qed

end
