(* ===== verification/Database.thy ===== *)
theory Database
  imports Data_Model
begin

section \<open>Connections, pool and statements (src/database.cpp)\<close>

text \<open>
  The connection pool and every operation of \<open>DatabaseManager\<close>, over the client library
  \<open>libpq\<close> as a parameter: \<open>pg_exec\<close> runs one statement on one connection. A statement carries
  the values the code splices into its SQL text, in the order of the columns it names; their
  decimal rendering is not modelled. An operation that throws does not release its connection.
\<close>

subsection \<open>Statements and the client library\<close>

datatype sql_value =
    VNull
  | VInt int
  | VNum double
  | VBool bool
  | VText string
  | VTime int
  | VNums "double list"
  | VJson string

datatype sql =
    Begin
  | Commit
  | Rollback
  | Insert string "(string \<times> sql_value) list" bool
  | Select string "string list" "(string \<times> int) list" "string option" "int option"
  | Update string "(string \<times> sql_value) list" int
  | Prepare string
  | Exec_prepared string "sql_value list"
  | Deallocate string

datatype pg_result = Command_ok | Tuples_ok "string list list" | Failed

record 'db pg_env =
  pg_exec :: "nat \<Rightarrow> sql \<Rightarrow> 'db \<Rightarrow> pg_result \<times> 'db"
  pg_connected :: "nat \<Rightarrow> 'db \<Rightarrow> bool"
  pg_parse :: "string \<Rightarrow> json result"
  pg_dump :: "json \<Rightarrow> string result"
  pg_atoi :: "string \<Rightarrow> int"
  pg_atof :: "string \<Rightarrow> double"

type_synonym ('db, 'a) db_op = "nat \<Rightarrow> 'db \<Rightarrow> 'a result \<times> 'db"

subsection \<open>The pool\<close>

record 'db dbm =
  dm_available :: "nat list"
  dm_server :: 'db

text \<open>Only connections that came up enter the pool.\<close>

definition pool_init :: "'db pg_env \<Rightarrow> nat \<Rightarrow> 'db \<Rightarrow> 'db dbm" where
  "pool_init env pool_size db =
     \<lparr>dm_available = filter (\<lambda>c. pg_connected env c db) [0..<pool_size], dm_server = db\<rparr>"

text \<open>\<open>None\<close> is a wait on the condition variable that nothing has ended.\<close>

definition pool_acquire :: "'db dbm \<Rightarrow> (nat \<times> 'db dbm) option" where
  "pool_acquire s =
     (if dm_available s = [] then None
      else Some (last (dm_available s), s\<lparr>dm_available := butlast (dm_available s)\<rparr>))"

definition pool_release :: "nat \<Rightarrow> 'db dbm \<Rightarrow> 'db dbm" where
  "pool_release c s = s\<lparr>dm_available := dm_available s @ [c]\<rparr>"

text \<open>The frame of every operation: acquire, run, and release unless an exception escaped.\<close>

definition with_conn :: "('db, 'a) db_op \<Rightarrow> 'db dbm \<Rightarrow> ('a result \<times> 'db dbm) option" where
  "with_conn op s =
     (case pool_acquire s of
        None \<Rightarrow> None
      | Some (c, s) \<Rightarrow>
          (let (r, db) = op c (dm_server s); s = s\<lparr>dm_server := db\<rparr>
           in Some (r, case r of Inl _ \<Rightarrow> s | Inr _ \<Rightarrow> pool_release c s)))"

definition begin_transaction :: "'db pg_env \<Rightarrow> nat \<Rightarrow> 'db \<Rightarrow> bool \<times> 'db" where
  "begin_transaction env c db =
     (if \<not> pg_connected env c db then (False, db)
      else let (r, db) = pg_exec env c Begin db in (r = Command_ok, db))"

definition commit_transaction :: "'db pg_env \<Rightarrow> nat \<Rightarrow> 'db \<Rightarrow> bool \<times> 'db" where
  "commit_transaction env c db =
     (if \<not> pg_connected env c db then (False, db)
      else let (r, db) = pg_exec env c Commit db in (r = Command_ok, db))"

definition rollback_transaction :: "'db pg_env \<Rightarrow> nat \<Rightarrow> 'db \<Rightarrow> bool \<times> 'db" where
  "rollback_transaction env c db =
     (if \<not> pg_connected env c db then (False, db)
      else let (r, db) = pg_exec env c Rollback db in (r = Command_ok, db))"

subsection \<open>Values\<close>

definition to_time_t :: "time_point \<Rightarrow> int" where
  "to_time_t t = t div 10 ^ 9"

definition json_empty :: "json \<Rightarrow> bool" where
  "json_empty j = (case j of JNull \<Rightarrow> True | JArr xs \<Rightarrow> xs = [] | JObj kvs \<Rightarrow> kvs = [] | _ \<Rightarrow> False)"

text \<open>\<open>NULL\<close> for an empty value, otherwise its text; \<open>dump\<close> throws on text that is not UTF-8.\<close>

definition json_or_null :: "'db pg_env \<Rightarrow> json \<Rightarrow> sql_value result" where
  "json_or_null env j = (if json_empty j then Inr VNull else map_sum id VJson (pg_dump env j))"

definition json_text :: "'db pg_env \<Rightarrow> json \<Rightarrow> sql_value result" where
  "json_text env j = map_sum id VJson (pg_dump env j)"

text \<open>The id of a \<open>RETURNING id\<close> statement, or -1.\<close>

definition returned_id :: "'db pg_env \<Rightarrow> pg_result \<Rightarrow> int" where
  "returned_id env r = (case r of Tuples_ok ((v # _) # _) \<Rightarrow> pg_atoi env v | _ \<Rightarrow> - 1)"

definition insert_returning :: "'db pg_env \<Rightarrow> sql result \<Rightarrow> ('db, int) db_op" where
  "insert_returning env q c db =
     (case q of Inl e \<Rightarrow> (Inl e, db)
      | Inr q \<Rightarrow> (let (r, db) = pg_exec env c q db in (Inr (returned_id env r), db)))"

subsection \<open>Single inserts\<close>

definition laser_columns :: "laser_data \<Rightarrow> sql_value \<Rightarrow> (string \<times> sql_value) list" where
  "laser_columns d processed =
     [(''sensor_id'', VInt (ld_sensor_id d)), (''porcelain_id'', VInt (ld_porcelain_id d)),
      (''measurement_time'', VTime (to_time_t (ld_measurement_time d))),
      (''scan_area'', VNums (ld_scan_area d)), (''resolution'', VNum (ld_resolution d)),
      (''crack_detected'', VBool (ld_crack_detected d)), (''crack_count'', VInt (ld_crack_count d)),
      (''processed_data'', processed)]"

definition laser_insert :: "'db pg_env \<Rightarrow> bool \<Rightarrow> laser_data \<Rightarrow> sql result" where
  "laser_insert env returning d =
     and_then (json_or_null env (ld_processed_data d)) (\<lambda>p.
       Inr (Insert ''laser_microscope_data'' (laser_columns d p) returning))"

definition insert_laser_data :: "'db pg_env \<Rightarrow> laser_data \<Rightarrow> 'db dbm \<Rightarrow> (int result \<times> 'db dbm) option"
  where "insert_laser_data env d = with_conn (insert_returning env (laser_insert env True d))"

definition vibration_insert :: "'db pg_env \<Rightarrow> bool \<Rightarrow> vibration_data \<Rightarrow> sql result" where
  "vibration_insert env returning d =
     and_then (json_or_null env (vd_frequency_spectrum d)) (\<lambda>f.
       Inr (Insert ''vibration_data''
         [(''sensor_id'', VInt (vd_sensor_id d)), (''porcelain_id'', VInt (vd_porcelain_id d)),
          (''measurement_time'', VTime (to_time_t (vd_measurement_time d))),
          (''frequency_spectrum'', f), (''amplitude'', VNums (vd_amplitude d)),
          (''rms_value'', VNum (vd_rms_value d)), (''peak_value'', VNum (vd_peak_value d)),
          (''dominant_frequency'', VNum (vd_dominant_frequency d)),
          (''temperature'', VNum (vd_temperature d)), (''humidity'', VNum (vd_humidity d))] returning))"

definition insert_vibration_data ::
  "'db pg_env \<Rightarrow> vibration_data \<Rightarrow> 'db dbm \<Rightarrow> (int result \<times> 'db dbm) option" where
  "insert_vibration_data env d = with_conn (insert_returning env (vibration_insert env True d))"

definition crack_insert :: "crack_info \<Rightarrow> int \<Rightarrow> sql" where
  "crack_insert crack porcelain_id =
     Insert ''cracks''
       [(''porcelain_id'', VInt porcelain_id), (''crack_code'', VText (ci_crack_code crack)),
        (''detected_date'', VTime (to_time_t (ci_detected_at crack))),
        (''max_depth'', VNum (ci_max_depth crack)), (''max_width'', VNum (ci_max_width crack)),
        (''total_length'', VNum (ci_total_length crack))] True"

definition insert_crack ::
  "'db pg_env \<Rightarrow> crack_info \<Rightarrow> int \<Rightarrow> 'db dbm \<Rightarrow> (int result \<times> 'db dbm) option" where
  "insert_crack env crack porcelain_id =
     with_conn (insert_returning env (Inr (crack_insert crack porcelain_id)))"

definition point_insert :: "int \<Rightarrow> bool \<Rightarrow> point3d \<Rightarrow> sql" where
  "point_insert crack_id returning p =
     Insert ''crack_points''
       [(''crack_id'', VInt crack_id), (''point_3d'', VNums [px p, py p, pz p]),
        (''normal_vector'', case pnormal p of Some (a, b, c) \<Rightarrow> VNums [a, b, c] | None \<Rightarrow> VNull),
        (''depth'', VNum (pdepth p)), (''width'', VNum (pwidth p)),
        (''curvature'', case pcurvature p of Some k \<Rightarrow> VNum k | None \<Rightarrow> VNull)] returning"

text \<open>Each point in its own statement; a failed one is skipped without a word.\<close>

fun insert_points_loop :: "'db pg_env \<Rightarrow> nat \<Rightarrow> int \<Rightarrow> point3d list \<Rightarrow> int \<Rightarrow> 'db \<Rightarrow> int \<times> 'db" where
  "insert_points_loop env c crack_id [] last_id db = (last_id, db)"
| "insert_points_loop env c crack_id (p # ps) last_id db =
     (let (r, db) = pg_exec env c (point_insert crack_id True p) db in
      insert_points_loop env c crack_id ps
        (case r of Tuples_ok ((v # _) # _) \<Rightarrow> pg_atoi env v | _ \<Rightarrow> last_id) db)"

definition insert_crack_points ::
  "'db pg_env \<Rightarrow> int \<Rightarrow> point3d list \<Rightarrow> 'db dbm \<Rightarrow> (int result \<times> 'db dbm) option" where
  "insert_crack_points env crack_id points =
     with_conn (\<lambda>c db.
       let (ok, db) = begin_transaction env c db in
       if \<not> ok then (Inr (- 1), db)
       else
         let (last_id, db) = insert_points_loop env c crack_id points (- 1) db;
             (ok, db) = commit_transaction env c db
         in if \<not> ok then (let (_, db) = rollback_transaction env c db in (Inr (- 1), db))
            else (Inr last_id, db))"

definition insert_alert :: "'db pg_env \<Rightarrow> alert \<Rightarrow> 'db dbm \<Rightarrow> (int result \<times> 'db dbm) option" where
  "insert_alert env a =
     with_conn (insert_returning env (Inr (Insert ''alerts''
       [(''alert_type'', VText (alert_type_to_string (al_type a))),
        (''porcelain_id'', VInt (al_porcelain_id a)), (''crack_id'', VInt (al_crack_id a)),
        (''sensor_id'', VInt (al_sensor_id a)), (''threshold_value'', VNum (al_threshold_value a)),
        (''actual_value'', VNum (al_actual_value a)), (''unit'', VText (al_unit a)),
        (''message'', VText (al_message a)), (''status'', VText ''PENDING''),
        (''sms_sent'', VBool (al_sms_sent a)), (''websocket_sent'', VBool (al_websocket_sent a))]
       True)))"

definition insert_prediction ::
  "'db pg_env \<Rightarrow> crack_prediction \<Rightarrow> 'db dbm \<Rightarrow> (int result \<times> 'db dbm) option" where
  "insert_prediction env p =
     with_conn (insert_returning env (and_then (json_text env (cp_parameters p)) (\<lambda>j.
       Inr (Insert ''crack_propagation_predictions''
         [(''crack_id'', VInt (cp_crack_id p)), (''model_type'', VText (cp_model_type p)),
          (''parameters'', j), (''time_horizon_hours'', VInt (cp_time_horizon_hours p)),
          (''predicted_depth'', VNum (cp_predicted_depth p)),
          (''predicted_width'', VNum (cp_predicted_width p)),
          (''predicted_length'', VNum (cp_predicted_length p)),
          (''confidence'', VNum (cp_confidence p)), (''risk_level'', VText (cp_risk_level p))] True))))"

definition insert_simulation ::
  "'db pg_env \<Rightarrow> repair_simulation \<Rightarrow> 'db dbm \<Rightarrow> (int result \<times> 'db dbm) option" where
  "insert_simulation env r =
     with_conn (insert_returning env (and_then (json_text env (rs_parameters r)) (\<lambda>jp.
       and_then (json_text env (rs_result r)) (\<lambda>jr.
       Inr (Insert ''repair_simulations''
         [(''crack_id'', VInt (rs_crack_id r)), (''material_id'', VInt (rs_material_id r)),
          (''method'', VText (rs_method r)), (''parameters'', jp),
          (''particle_count'', VInt (rs_particle_count r)),
          (''filling_rate'', VNum (rs_filling_rate r)),
          (''bonding_strength'', VNum (rs_bonding_strength r)),
          (''surface_smoothness'', VNum (rs_surface_smoothness r)),
          (''durability_score'', VNum (rs_durability_score r)),
          (''simulation_result'', jr)] True)))))"

text \<open>The raw payload bytes are put into a JSON string, which \<open>dump\<close> requires to be UTF-8.\<close>

definition packet_json :: "bytes \<Rightarrow> json" where
  "packet_json payload = JObj
     [(''raw'', JStr (map (\<lambda>b. char_of (unat b)) payload)), (''size'', JInt (int (length payload)))]"

definition log_profinet_packet ::
  "'db pg_env \<Rightarrow> string \<Rightarrow> string \<Rightarrow> u16 \<Rightarrow> bytes \<Rightarrow> 'db dbm \<Rightarrow> (unit result \<times> 'db dbm) option" where
  "log_profinet_packet env source_ip dest_ip frame_id payload =
     with_conn (\<lambda>c db.
       case json_text env (packet_json payload) of
         Inl e \<Rightarrow> (Inl e, db)
       | Inr j \<Rightarrow>
           (let (r, db) = pg_exec env c (Insert ''profinet_packets''
                [(''source_ip'', VText source_ip), (''destination_ip'', VText dest_ip),
                 (''frame_id'', VInt (uint frame_id)), (''payload_length'', VInt (int (length payload))),
                 (''payload'', j)] False) db
            in (Inr (), db)))"

subsection \<open>What every operation does to the pool\<close>

lemma with_conn_blocked: "with_conn op s = None \<longleftrightarrow> dm_available s = []"
  by (simp add: with_conn_def pool_acquire_def split_beta Let_def)

text \<open>A normal return gives the connection back where it was taken; an exception loses it.\<close>

lemma with_conn_pool:
  "with_conn op s = Some (r, s') \<Longrightarrow>
     dm_available s' = (case r of Inl _ \<Rightarrow> butlast (dm_available s) | Inr _ \<Rightarrow> dm_available s)"
  by (auto simp: with_conn_def pool_acquire_def pool_release_def Let_def split: prod.splits
      if_splits sum.splits)

lemma insert_returning_no_throw:
  "with_conn (insert_returning env (Inr q)) s = Some (r, s') \<Longrightarrow>
     dm_available s' = dm_available s \<and> (\<exists>i. r = Inr i)"
  by (auto simp: with_conn_def pool_acquire_def pool_release_def insert_returning_def Let_def
      split: prod.splits if_splits)

fun log_packets :: "'db pg_env \<Rightarrow> bytes list \<Rightarrow> 'db dbm \<Rightarrow> 'db dbm option" where
  "log_packets env [] s = Some s"
| "log_packets env (p # ps) s =
     (case log_profinet_packet env ''a'' ''b'' 0 p s of
        None \<Rightarrow> None | Some (_, s) \<Rightarrow> log_packets env ps s)"

lemma log_packet_leaks:
  assumes "pg_dump env (packet_json payload) = Inl e" and "dm_available s \<noteq> []"
  shows "log_profinet_packet env src dst fid payload s =
    Some (Inl e, s\<lparr>dm_available := butlast (dm_available s)\<rparr>)"
  using assms by (simp add: log_profinet_packet_def with_conn_def pool_acquire_def json_text_def)

lemma log_packets_leak:
  assumes "\<forall>p \<in> set ps. \<exists>e. pg_dump env (packet_json p) = Inl e" and "length ps \<le> length (dm_available s)"
  shows "log_packets env ps s =
    Some (s\<lparr>dm_available := take (length (dm_available s) - length ps) (dm_available s)\<rparr>)"
  using assms
proof (induction ps arbitrary: s)
  case Nil
  then show ?case by simp
next
  case (Cons p ps)
  then have ne: "dm_available s \<noteq> []" and len: "length ps \<le> length (butlast (dm_available s))"
    by auto
  obtain e where e: "pg_dump env (packet_json p) = Inl e"
    using Cons.prems(1) by auto
  have "log_packets env ps (s\<lparr>dm_available := butlast (dm_available s)\<rparr>) =
      Some (s\<lparr>dm_available := take (length (butlast (dm_available s)) - length ps) (butlast (dm_available s))\<rparr>)"
    using Cons.IH [of "s\<lparr>dm_available := butlast (dm_available s)\<rparr>"] Cons.prems(1) len by simp
  then show ?case
    using ne Cons.prems(2) by (simp add: log_packet_leaks [OF e ne] butlast_conv_take min_def)
qed

text \<open>C38: Logging a packet whose payload is not UTF-8 loses a database connection: \<open>dump\<close> throws
  between acquire and release. After as many such packets as the pool has connections every
  operation waits for a connection forever.\<close>

theorem invalid_payloads_exhaust_pool:
  assumes "\<forall>p \<in> set ps. \<exists>e. pg_dump env (packet_json p) = Inl e"
    and "length ps = length (dm_available s)"
  shows "\<exists>s'. log_packets env ps s = Some s' \<and> dm_available s' = []
    \<and> (\<forall>d. insert_laser_data env d s' = None) \<and> (\<forall>c pid. insert_crack env c pid s' = None)"
  using log_packets_leak [of ps env s] assms
  by (simp add: insert_laser_data_def insert_crack_def with_conn_blocked)

text \<open>When the database cannot be reached at start-up the pool is created empty, and the first
  operation waits forever instead of failing.\<close>

theorem unreachable_database_blocks:
  assumes "\<forall>c. \<not> pg_connected env c db"
  shows "insert_alert env a (pool_init env n db) = None
    \<and> log_profinet_packet env src dst fid payload (pool_init env n db) = None"
  using assms by (simp add: insert_alert_def log_profinet_packet_def with_conn_blocked pool_init_def)

subsection \<open>A concrete server\<close>

text \<open>A server that accepts everything and numbers its answers, whose printer rejects bytes of
  128 and above, as a strict UTF-8 printer rejects a stray one.\<close>

definition demo_env :: "nat pg_env" where
  "demo_env = \<lparr>pg_exec = (\<lambda>c q db. (case q of Insert _ _ True \<Rightarrow> Tuples_ok [[''1'']] | _ \<Rightarrow> Command_ok, Suc db)),
     pg_connected = (\<lambda>c db. True), pg_parse = (\<lambda>_. Inl Json_error),
     pg_dump = (\<lambda>j. case json_at j ''raw'' of
         Inr (JStr t) \<Rightarrow> if list_all (\<lambda>c. of_char c < (128 :: nat)) t then Inr t else Inl Json_error
       | _ \<Rightarrow> Inr ''{}''),
     pg_atoi = (\<lambda>s. int (length s)), pg_atof = (\<lambda>_. 0)\<rparr>"

theorem invalid_payloads_exhaust_pool_witness:
  "\<exists>s'. log_packets demo_env [[0xFF], [0x41, 0x80]] (pool_init demo_env 2 0) = Some s'
    \<and> dm_available s' = [] \<and> (\<forall>d. insert_laser_data demo_env d s' = None)
    \<and> (\<forall>c pid. insert_crack demo_env c pid s' = None)"
  by (rule invalid_payloads_exhaust_pool)
    (simp_all add: demo_env_def packet_json_def json_at_def pool_init_def)

theorem unreachable_database_blocks_witness:
  "\<forall>a. insert_alert (demo_env\<lparr>pg_connected := (\<lambda>c db. False)\<rparr>) a
       (pool_init (demo_env\<lparr>pg_connected := (\<lambda>c db. False)\<rparr>) 10 0) = None"
  using unreachable_database_blocks [of "demo_env\<lparr>pg_connected := (\<lambda>c db. False)\<rparr>" 0 _ 10] by simp

end
