(* ===== verification/Alert_Manager.thy ===== *)
theory Alert_Manager
  imports Database
begin

section \<open>The alert manager (src/alert_manager.cpp)\<close>

text \<open>
  Threshold checks on laser, vibration and prediction data, the persisted alert queue and the
  worker that sends each queued alert by text message, over the web socket and to the callbacks.
  Storing an alert is the database's operation; the decimal rendering of a double by an
  \<open>ostream\<close> and the clock are parameters.
\<close>

subsection \<open>Texts (UTF-8)\<close>

definition utf8 :: "nat list \<Rightarrow> string" where
  "utf8 bs = map char_of bs"

definition txt_um :: string where
  "txt_um =
     utf8 [0xCE, 0xBC, 0x6D]"

definition txt_ms2 :: string where
  "txt_ms2 =
     utf8 [0x6D, 0x2F, 0x73, 0xC2, 0xB2]"

definition txt_porcelain :: string where
  "txt_porcelain =
     utf8 [0xE7, 0x93, 0xB7, 0xE5, 0x99, 0xA8, 0x49, 0x44, 0x20]"

definition txt_depth :: string where
  "txt_depth =
     utf8 [0x20, 0xE8, 0xA3, 0x82, 0xE7, 0xBA, 0xB9, 0xE6, 0xB7, 0xB1, 0xE5, 0xBA, 0xA6,
     0x20]"

definition txt_width :: string where
  "txt_width =
     utf8 [0x20, 0xE8, 0xA3, 0x82, 0xE7, 0xBA, 0xB9, 0xE5, 0xAE, 0xBD, 0xE5, 0xBA, 0xA6,
     0x20]"

definition txt_over :: string where
  "txt_over =
     utf8 [0xCE, 0xBC, 0x6D, 0x20, 0xE8, 0xB6, 0x85, 0xE8, 0xBF, 0x87, 0xE9, 0x98, 0x88,
     0xE5, 0x80, 0xBC, 0x20]"

definition txt_vibration :: string where
  "txt_vibration =
     utf8 [0x20, 0xE6, 0x8C, 0xAF, 0xE5, 0x8A, 0xA8, 0xE5, 0xBC, 0x82, 0xE5, 0xB8, 0xB8,
     0x20, 0x2D, 0x20, 0x52, 0x4D, 0x53, 0x3A, 0x20]"

definition txt_peak :: string where
  "txt_peak =
     utf8 [0x20, 0x6D, 0x2F, 0x73, 0xC2, 0xB2, 0x2C, 0x20, 0xE5, 0xB3, 0xB0, 0xE5, 0x80,
     0xBC, 0x3A, 0x20]"

definition txt_ms2_end :: string where
  "txt_ms2_end =
     utf8 [0x20, 0x6D, 0x2F, 0x73, 0xC2, 0xB2]"

definition txt_crack :: string where
  "txt_crack =
     utf8 [0xE8, 0xA3, 0x82, 0xE7, 0xBA, 0xB9, 0x49, 0x44, 0x20]"

definition txt_risk :: string where
  "txt_risk =
     utf8 [0x20, 0xE6, 0x89, 0xA9, 0xE5, 0xB1, 0x95, 0xE9, 0xA3, 0x8E, 0xE9, 0x99, 0xA9,
     0xE7, 0xAD, 0x89, 0xE7, 0xBA, 0xA7, 0x3A, 0x20]"

definition txt_after :: string where
  "txt_after =
     utf8 [0xEF, 0xBC, 0x8C, 0xE9, 0xA2, 0x84, 0xE6, 0xB5, 0x8B, 0x37, 0x32, 0x30, 0xE5,
     0xB0, 0x8F, 0xE6, 0x97, 0xB6, 0xE5, 0x90, 0x8E, 0xE6, 0xB7, 0xB1, 0xE5, 0xBA, 0xA6,
     0x3A, 0x20]"
subsection \<open>State\<close>

datatype alert_output =
    Sms_sent string alert
  | Ws_broadcast json
  | Callback_called nat alert

record alert_manager =
  am_depth_threshold :: double
  am_width_threshold :: double
  am_sms_enabled :: bool
  am_websocket_enabled :: bool
  am_sms_gateway_url :: string
  am_alert_phone_number :: string
  am_ws_server :: bool
  am_callbacks :: "(alert \<Rightarrow> cpp_error option) list"
  am_queue :: "alert list"
  am_running :: bool

definition new_alert_manager :: alert_manager where
  "new_alert_manager =
     \<lparr>am_depth_threshold = D 200, am_width_threshold = D 50, am_sms_enabled = True,
      am_websocket_enabled = True, am_sms_gateway_url = [], am_alert_phone_number = [],
      am_ws_server = False, am_callbacks = [], am_queue = [], am_running = False\<rparr>"

definition am_init ::
  "double \<Rightarrow> double \<Rightarrow> bool \<Rightarrow> bool \<Rightarrow> string \<Rightarrow> string \<Rightarrow> alert_manager \<Rightarrow> alert_manager" where
  "am_init depth width sms ws gateway phone m =
     m\<lparr>am_depth_threshold := depth, am_width_threshold := width, am_sms_enabled := sms,
       am_websocket_enabled := ws, am_sms_gateway_url := gateway, am_alert_phone_number := phone\<rparr>"

definition am_start :: "alert_manager \<Rightarrow> alert_manager" where
  "am_start m = m\<lparr>am_running := True\<rparr>"

definition am_stop :: "alert_manager \<Rightarrow> alert_manager" where
  "am_stop m = m\<lparr>am_running := False\<rparr>"

definition enqueue_alert :: "alert \<Rightarrow> alert_manager \<Rightarrow> alert_manager" where
  "enqueue_alert a m = m\<lparr>am_queue := am_queue m @ [a]\<rparr>"

subsection \<open>Checks\<close>

text \<open>Fields the code does not set are indeterminate.\<close>

definition blank_alert :: "time_point \<Rightarrow> alert_type \<Rightarrow> alert" where
  "blank_alert now t =
     \<lparr>al_id = indeterminate, al_type = t, al_porcelain_id = indeterminate,
      al_crack_id = indeterminate, al_sensor_id = indeterminate, al_threshold_value = indeterminate,
      al_actual_value = indeterminate, al_unit = [], al_message = [], al_status = PENDING,
      al_sms_sent = False, al_websocket_sent = False, al_created_at = now\<rparr>"

definition depth_alert :: "(double \<Rightarrow> string) \<Rightarrow> time_point \<Rightarrow> alert_manager \<Rightarrow> crack_info \<Rightarrow> alert" where
  "depth_alert fmt now m crack =
     (blank_alert now CRACK_DEPTH_EXCEEDED)
       \<lparr>al_porcelain_id := ci_porcelain_id crack, al_crack_id := wrap32 (ci_id crack),
        al_threshold_value := am_depth_threshold m, al_actual_value := ci_max_depth crack,
        al_unit := txt_um,
        al_message := txt_porcelain @ to_string_int (ci_porcelain_id crack) @ txt_depth @
          fmt (ci_max_depth crack) @ txt_over @ fmt (am_depth_threshold m) @ txt_um\<rparr>"

definition width_alert :: "(double \<Rightarrow> string) \<Rightarrow> time_point \<Rightarrow> alert_manager \<Rightarrow> crack_info \<Rightarrow> alert" where
  "width_alert fmt now m crack =
     (blank_alert now CRACK_WIDTH_EXCEEDED)
       \<lparr>al_porcelain_id := ci_porcelain_id crack, al_crack_id := wrap32 (ci_id crack),
        al_threshold_value := am_width_threshold m, al_actual_value := ci_max_width crack,
        al_unit := txt_um,
        al_message := txt_porcelain @ to_string_int (ci_porcelain_id crack) @ txt_width @
          fmt (ci_max_width crack) @ txt_over @ fmt (am_width_threshold m) @ txt_um\<rparr>"

definition check_crack_thresholds ::
  "(double \<Rightarrow> string) \<Rightarrow> time_point \<Rightarrow> alert_manager \<Rightarrow> crack_info \<Rightarrow> alert list" where
  "check_crack_thresholds fmt now m crack =
     (if am_depth_threshold m < ci_max_depth crack then [depth_alert fmt now m crack] else []) @
     (if am_width_threshold m < ci_max_width crack then [width_alert fmt now m crack] else [])"

text \<open>Store an alert and queue it under its id; a refused insert is dropped. \<open>store\<close> is
  \<open>DatabaseManager::insert_alert\<close>, which may wait for a connection (\<open>None\<close>).\<close>

type_synonym 'db alert_store = "alert \<Rightarrow> 'db dbm \<Rightarrow> (int result \<times> 'db dbm) option"

definition save_alert ::
  "'db alert_store \<Rightarrow> alert \<Rightarrow> alert_manager \<times> 'db dbm \<Rightarrow> (unit result \<times> alert_manager \<times> 'db dbm) option"
  where
  "save_alert store a ms =
     (case store a (snd ms) of
        None \<Rightarrow> None
      | Some (Inl e, db) \<Rightarrow> Some (Inl e, fst ms, db)
      | Some (Inr i, db) \<Rightarrow>
          Some (Inr (), (if 0 < i then enqueue_alert (a\<lparr>al_id := i\<rparr>) (fst ms) else fst ms), db))"

fun save_alerts ::
  "'db alert_store \<Rightarrow> alert list \<Rightarrow> alert_manager \<times> 'db dbm \<Rightarrow> (unit result \<times> alert_manager \<times> 'db dbm) option"
  where
  "save_alerts store [] ms = Some (Inr (), ms)"
| "save_alerts store (a # as) ms =
     (case save_alert store a ms of
        None \<Rightarrow> None
      | Some (Inl e, ms) \<Rightarrow> Some (Inl e, ms)
      | Some (Inr _, ms) \<Rightarrow> save_alerts store as ms)"

text \<open>All alerts of a laser message, in the order they are stored.\<close>

definition laser_alerts ::
  "(double \<Rightarrow> string) \<Rightarrow> time_point \<Rightarrow> alert_manager \<Rightarrow> laser_data \<Rightarrow> alert list" where
  "laser_alerts fmt now m d =
     (if \<not> ld_crack_detected d then []
      else map (\<lambda>a. a\<lparr>al_sensor_id := ld_sensor_id d\<rparr>)
        (concat (map (check_crack_thresholds fmt now m) (ld_cracks d))))"

definition check_laser_data ::
  "'db alert_store \<Rightarrow> (double \<Rightarrow> string) \<Rightarrow> time_point \<Rightarrow> laser_data
     \<Rightarrow> alert_manager \<times> 'db dbm \<Rightarrow> (unit result \<times> alert_manager \<times> 'db dbm) option" where
  "check_laser_data store fmt now d ms = save_alerts store (laser_alerts fmt now (fst ms) d) ms"

definition VIBRATION_RMS_THRESHOLD :: double where
  "VIBRATION_RMS_THRESHOLD = D (1 / 10 ^ 6)"

definition VIBRATION_PEAK_THRESHOLD :: double where
  "VIBRATION_PEAK_THRESHOLD = D (5 / 10 ^ 6)"

definition vibration_alerts :: "(double \<Rightarrow> string) \<Rightarrow> time_point \<Rightarrow> vibration_data \<Rightarrow> alert list" where
  "vibration_alerts fmt now d =
     (if VIBRATION_RMS_THRESHOLD < vd_rms_value d \<or> VIBRATION_PEAK_THRESHOLD < vd_peak_value d then
        [(blank_alert now VIBRATION_ANOMALY)
           \<lparr>al_porcelain_id := vd_porcelain_id d, al_sensor_id := vd_sensor_id d,
            al_threshold_value := VIBRATION_RMS_THRESHOLD, al_actual_value := vd_rms_value d,
            al_unit := txt_ms2,
            al_message := txt_porcelain @ to_string_int (vd_porcelain_id d) @ txt_vibration @
              fmt (vd_rms_value d) @ txt_peak @ fmt (vd_peak_value d) @ txt_ms2_end\<rparr>]
      else [])"

definition check_vibration_data ::
  "'db alert_store \<Rightarrow> (double \<Rightarrow> string) \<Rightarrow> time_point \<Rightarrow> vibration_data
     \<Rightarrow> alert_manager \<times> 'db dbm \<Rightarrow> (unit result \<times> alert_manager \<times> 'db dbm) option" where
  "check_vibration_data store fmt now d ms = save_alerts store (vibration_alerts fmt now d) ms"

text \<open>The source reads a field \<open>predicted_depth_720h\<close> that \<open>CrackPrediction\<close> does not have; the
  model reads the depth predicted for the prediction's horizon.\<close>

definition prediction_alerts :: "(double \<Rightarrow> string) \<Rightarrow> time_point \<Rightarrow> crack_prediction \<Rightarrow> alert list" where
  "prediction_alerts fmt now p =
     (if cp_risk_level p = ''CRITICAL'' \<or> cp_risk_level p = ''HIGH'' then
        [(blank_alert now CRACK_PROPAGATION_RISK)
           \<lparr>al_crack_id := cp_crack_id p, al_threshold_value := 0,
            al_actual_value := cp_predicted_depth p, al_unit := txt_um,
            al_message := txt_crack @ to_string_int (cp_crack_id p) @ txt_risk @ cp_risk_level p @
              txt_after @ fmt (cp_predicted_depth p) @ txt_um\<rparr>]
      else [])"

definition check_prediction ::
  "'db alert_store \<Rightarrow> (double \<Rightarrow> string) \<Rightarrow> time_point \<Rightarrow> crack_prediction
     \<Rightarrow> alert_manager \<times> 'db dbm \<Rightarrow> (unit result \<times> alert_manager \<times> 'db dbm) option" where
  "check_prediction store fmt now p ms = save_alerts store (prediction_alerts fmt now p) ms"

subsection \<open>Delivery\<close>

definition send_sms :: "alert_manager \<Rightarrow> alert \<Rightarrow> alert_output list" where
  "send_sms m a = [Sms_sent (am_alert_phone_number m) a]"

definition alert_json :: "alert \<Rightarrow> json" where
  "alert_json a = JObj [(''type'', JStr ''alert''), (''data'', JObj
     [(''id'', JInt (al_id a)), (''alert_type'', JStr (alert_type_to_string (al_type a))),
      (''porcelain_id'', JInt (al_porcelain_id a)), (''crack_id'', JInt (al_crack_id a)),
      (''sensor_id'', JInt (al_sensor_id a)), (''threshold'', JNum (al_threshold_value a)),
      (''actual'', JNum (al_actual_value a)), (''unit'', JStr (al_unit a)),
      (''message'', JStr (al_message a)), (''status'', JStr ''PENDING'')])]"

definition send_websocket :: "alert_manager \<Rightarrow> alert \<Rightarrow> alert_output list" where
  "send_websocket m a = (if \<not> am_ws_server m then [] else [Ws_broadcast (alert_json a)])"

text \<open>The callbacks in order; one that throws ends the handling of this alert.\<close>

fun run_callbacks :: "nat \<Rightarrow> (alert \<Rightarrow> cpp_error option) list \<Rightarrow> alert \<Rightarrow> alert_output list" where
  "run_callbacks i [] a = []"
| "run_callbacks i (cb # cbs) a =
     Callback_called i a # (case cb a of Some e \<Rightarrow> [] | None \<Rightarrow> run_callbacks (Suc i) cbs a)"

definition handle_alert :: "alert_manager \<Rightarrow> alert \<Rightarrow> alert_output list" where
  "handle_alert m a =
     (if am_sms_enabled m then send_sms m a else []) @
     (if am_websocket_enabled m then send_websocket m a else []) @
     run_callbacks 0 (am_callbacks m) a"

fun drain_alerts :: "nat \<Rightarrow> alert_manager \<Rightarrow> alert_output list \<times> alert_manager" where
  "drain_alerts 0 m = ([], m)"
| "drain_alerts (Suc n) m =
     (case am_queue m of
        [] \<Rightarrow> ([], m)
      | a # as \<Rightarrow> (let (out, m') = drain_alerts n (m\<lparr>am_queue := as\<rparr>) in (handle_alert m a @ out, m')))"

text \<open>One wake-up of the worker: nothing once it has seen \<open>running_\<close> false, otherwise the inner
  loop until the queue is empty.\<close>

definition process_alerts :: "alert_manager \<Rightarrow> alert_output list \<times> alert_manager" where
  "process_alerts m = (if \<not> am_running m then ([], m) else drain_alerts (length (am_queue m)) m)"

subsection \<open>Properties\<close>

text \<open>A crack raises a depth alert exactly when its depth is greater than the threshold and a
  width alert exactly when its width is: equality and NaN raise nothing, the depth alert comes
  first, and each carries the measured value, the threshold and the crack's ids.\<close>

lemma crack_threshold_alerts:
  "map (\<lambda>a. (al_type a, al_actual_value a, al_threshold_value a, al_porcelain_id a, al_crack_id a))
     (check_crack_thresholds fmt now m crack) =
   (if am_depth_threshold m < ci_max_depth crack
      then [(CRACK_DEPTH_EXCEEDED, ci_max_depth crack, am_depth_threshold m, ci_porcelain_id crack, wrap32 (ci_id crack))]
      else []) @
   (if am_width_threshold m < ci_max_width crack
      then [(CRACK_WIDTH_EXCEEDED, ci_max_width crack, am_width_threshold m, ci_porcelain_id crack, wrap32 (ci_id crack))]
      else [])
   \<and> check_crack_thresholds fmt now m (crack\<lparr>ci_max_depth := NAN, ci_max_width := am_width_threshold m\<rparr>) = []"
  by (simp add: check_crack_thresholds_def depth_alert_def width_alert_def blank_alert_def)

text \<open>A store that never waits nor throws, and gives every alert the next positive id.\<close>

fun numbered :: "int \<Rightarrow> alert list \<Rightarrow> alert list" where
  "numbered i [] = []"
| "numbered i (a # as) = a\<lparr>al_id := i\<rparr> # numbered (i + 1) as"

lemma save_alerts_counting:
  assumes "\<And>a db. store a db = Some (Inr (next db), step db)"
    and "\<And>db. next (step db) = next db + 1" and "0 < next db"
  shows "\<exists>db'. save_alerts store as (m, db) =
    Some (Inr (), m\<lparr>am_queue := am_queue m @ numbered (next db) as\<rparr>, db') \<and> next db' = next db + int (length as)"
  using assms(3)
proof (induction as arbitrary: m db)
  case Nil
  then show ?case by simp
next
  case (Cons a as)
  have "\<exists>db'. save_alerts store as (enqueue_alert (a\<lparr>al_id := next db\<rparr>) m, step db) =
      Some (Inr (), (enqueue_alert (a\<lparr>al_id := next db\<rparr>) m)\<lparr>am_queue :=
        am_queue (enqueue_alert (a\<lparr>al_id := next db\<rparr>) m) @ numbered (next (step db)) as\<rparr>, db')
      \<and> next db' = next (step db) + int (length as)"
    using Cons.prems assms(2) [of db] by (intro Cons.IH) simp
  moreover have "save_alert store a (m, db) = Some (Inr (), enqueue_alert (a\<lparr>al_id := next db\<rparr>) m, step db)"
    using Cons.prems by (simp add: save_alert_def assms(1))
  ultimately show ?case
    using assms(2) [of db] by (auto simp: enqueue_alert_def)
qed

text \<open>Every alert of a laser message is stored and queued, once, in order and under the id the
  database gave it; without a detected crack nothing is.\<close>

theorem laser_alerts_queued:
  assumes "\<And>a db. store a db = Some (Inr (next db), step db)"
    and "\<And>db. next (step db) = next db + 1" and "0 < next db"
  shows "\<exists>db'. check_laser_data store fmt now d (m, db) =
    Some (Inr (), m\<lparr>am_queue := am_queue m @ numbered (next db) (laser_alerts fmt now m d)\<rparr>, db')
    \<and> next db' = next db + int (length (laser_alerts fmt now m d))"
  unfolding check_laser_data_def fst_conv by (rule save_alerts_counting [OF assms])

lemma drain_alerts_all:
  "drain_alerts (length (am_queue m)) m =
     (concat (map (handle_alert m) (am_queue m)), m\<lparr>am_queue := []\<rparr>)"
proof (induction "am_queue m" arbitrary: m)
  case Nil
  then show ?case by simp
next
  case (Cons a as)
  have h: "handle_alert (m\<lparr>am_queue := q\<rparr>) = handle_alert m" for q
    by (rule ext) (simp add: handle_alert_def send_sms_def send_websocket_def)
  have "drain_alerts (length as) (m\<lparr>am_queue := as\<rparr>) =
      (concat (map (handle_alert m) as), m\<lparr>am_queue := []\<rparr>)"
    using Cons.hyps(1) [of "m\<lparr>am_queue := as\<rparr>"] by (simp add: h)
  then show ?case
    using Cons.hyps(2) [symmetric] by simp
qed

text \<open>One wake-up of the worker handles every queued alert in order and empties the queue; an
  alert whose callback throws has been sent by text message and web socket and does not keep
  the following alerts from being handled. An iteration that begins after \<open>stop\<close> sends nothing,
  whatever is queued.\<close>

theorem alerts_processed_in_order:
  "process_alerts m =
     (if am_running m then (concat (map (handle_alert m) (am_queue m)), m\<lparr>am_queue := []\<rparr>) else ([], m))
   \<and> process_alerts (am_stop m) = ([], am_stop m)"
  by (simp add: process_alerts_def drain_alerts_all am_stop_def)

subsection \<open>A concrete store\<close>

definition demo_store :: "int alert_store" where
  "demo_store a db = Some (Inr (dm_server db), db\<lparr>dm_server := dm_server db + 1\<rparr>)"

definition demo_message :: laser_data where
  "demo_message = \<lparr>ld_id = 0, ld_sensor_id = 2, ld_porcelain_id = 4, ld_measurement_time = 0,
     ld_scan_area = [], ld_resolution = 0, ld_crack_detected = True, ld_crack_count = 1,
     ld_cracks = [\<lparr>ci_id = 9, ci_porcelain_id = 4, ci_crack_code = [], ci_max_depth = D 250,
       ci_max_width = D 60, ci_total_length = 0, ci_status = [], ci_points = [], ci_detected_at = 0\<rparr>],
     ld_processed_data = JNull\<rparr>"

theorem laser_alerts_queued_witness:
  "\<exists>db'. check_laser_data demo_store (\<lambda>_. ''x'') 0 demo_message (new_alert_manager, \<lparr>dm_available = [0], dm_server = 5\<rparr>) =
    Some (Inr (), new_alert_manager\<lparr>am_queue := numbered 5 (laser_alerts (\<lambda>_. ''x'') 0 new_alert_manager demo_message)\<rparr>, db')
    \<and> dm_server db' = 5 + int (length (laser_alerts (\<lambda>_. ''x'') 0 new_alert_manager demo_message))"
  using laser_alerts_queued [of demo_store dm_server "\<lambda>db. db\<lparr>dm_server := dm_server db + 1\<rparr>"
      "\<lparr>dm_available = [0], dm_server = 5\<rparr>" "\<lambda>_. ''x''" 0 demo_message new_alert_manager]
  by (simp add: demo_store_def new_alert_manager_def)

end
