(* ===== verification/Lockfree_Queue.thy ===== *)
theory Lockfree_Queue
  imports Prelude
begin

section \<open>The message queue (include/lockfree_queue.h)\<close>

text \<open>
  A linked list of nodes with a dummy at the head: \<open>push\<close> exchanges the tail and then links the
  old tail to the new node, \<open>try_pop\<close> advances the head. Nodes are numbered in the order they
  are allocated. The first part is the heap of nodes with the operations run to completion, the
  contract \<open>fifo_queue\<close> its clients rely on and its interpretation; the second part interleaves
  the two halves of the pushes of any number of producers with the pops of one consumer, and
  shows what goes wrong with two consumers.
\<close>

subsection \<open>The contract\<close>

locale fifo_queue =
  fixes new_q :: 'q
    and enq :: "'a \<Rightarrow> 'q \<Rightarrow> 'q"
    and deq :: "'q \<Rightarrow> ('a \<times> 'q) option"
    and is_empty :: "'q \<Rightarrow> bool"
    and contents :: "'q \<Rightarrow> 'a list"
    and ok :: "'q \<Rightarrow> bool"
  assumes new_ok: "ok new_q"
    and new_contents: "contents new_q = []"
    and enq_ok: "ok q \<Longrightarrow> ok (enq x q)"
    and enq_contents: "ok q \<Longrightarrow> contents (enq x q) = contents q @ [x]"
    and deq_none: "ok q \<Longrightarrow> deq q = None \<longleftrightarrow> contents q = []"
    and deq_ok: "ok q \<Longrightarrow> deq q = Some (x, q') \<Longrightarrow> ok q'"
    and deq_contents: "ok q \<Longrightarrow> deq q = Some (x, q') \<Longrightarrow> contents q = x # contents q'"
    and empty_contents: "ok q \<Longrightarrow> is_empty q \<longleftrightarrow> contents q = []"

fun enq_all :: "('a \<Rightarrow> 'q \<Rightarrow> 'q) \<Rightarrow> 'a list \<Rightarrow> 'q \<Rightarrow> 'q" where
  "enq_all enq [] q = q"
| "enq_all enq (x # xs) q = enq_all enq xs (enq x q)"

text \<open>Popping \<open>n\<close> times, as a consumer's loop does.\<close>

fun drain :: "('q \<Rightarrow> ('a \<times> 'q) option) \<Rightarrow> nat \<Rightarrow> 'q \<Rightarrow> 'a list \<times> 'q" where
  "drain deq 0 q = ([], q)"
| "drain deq (Suc n) q =
     (case deq q of None \<Rightarrow> ([], q)
      | Some (x, q') \<Rightarrow> (let (xs, q'') = drain deq n q' in (x # xs, q'')))"

context fifo_queue
begin

lemma enq_all_ok: "ok q \<Longrightarrow> ok (enq_all enq xs q)"
  by (induction xs arbitrary: q) (simp_all add: enq_ok)

lemma enq_all_contents: "ok q \<Longrightarrow> contents (enq_all enq xs q) = contents q @ xs"
  by (induction xs arbitrary: q) (simp_all add: enq_ok enq_contents)

lemma deq_cases:
  assumes "ok q"
  obtains "contents q = []" "deq q = None"
  | x q' where "deq q = Some (x, q')" "ok q'" "contents q = x # contents q'"
  using assms deq_none [OF assms] deq_ok [OF assms] deq_contents [OF assms]
  by (cases "deq q") auto

lemma drain_contents:
  "ok q \<Longrightarrow> drain deq n q = (xs, q') \<Longrightarrow>
     xs = take n (contents q) \<and> contents q' = drop n (contents q) \<and> ok q'"
proof (induction n arbitrary: q xs)
  case 0
  then show ?case by simp
next
  case (Suc n)
  from Suc.prems(1) show ?case
  proof (cases rule: deq_cases)
    case 1
    then show ?thesis
      using Suc.prems by simp
  next
    case (2 x p)
    obtain ys p' where d: "drain deq n p = (ys, p')"
      by (cases "drain deq n p")
    then have "xs = x # ys" "q' = p'"
      using 2(1) Suc.prems(2) by simp_all
    then show ?thesis
      using 2 d Suc.IH [of p ys] by simp
  qed
qed

lemma drain_all:
  "ok q \<Longrightarrow> length (contents q) \<le> n \<Longrightarrow> fst (drain deq n q) = contents q \<and>
     contents (snd (drain deq n q)) = []"
  using drain_contents [of q n] by (metis drop_all prod.collapse take_all)

end

subsection \<open>Nodes and operations\<close>

record 'a lfq =
  q_next :: "nat \<Rightarrow> nat option"
  q_value :: "nat \<Rightarrow> 'a option"
  q_head :: nat
  q_tail :: nat
  q_fresh :: nat

definition new_queue :: "'a lfq" where
  "new_queue = \<lparr>q_next = (\<lambda>_. None), q_value = (\<lambda>_. None), q_head = 0, q_tail = 0, q_fresh = 1\<rparr>"

text \<open>The two halves of \<open>push\<close>: allocate and exchange the tail, then link.\<close>

definition exchange_tail :: "'a \<Rightarrow> 'a lfq \<Rightarrow> nat \<times> nat \<times> 'a lfq" where
  "exchange_tail v q =
     (let new = q_fresh q; old_tail = q_tail q
      in (old_tail, new,
          q\<lparr>q_next := (q_next q)(new := None), q_value := (q_value q)(new := Some v),
            q_tail := new, q_fresh := new + 1\<rparr>))"

definition link_node :: "nat \<Rightarrow> nat \<Rightarrow> 'a lfq \<Rightarrow> 'a lfq" where
  "link_node old_tail new q = q\<lparr>q_next := (q_next q)(old_tail := Some new)\<rparr>"

definition push :: "'a \<Rightarrow> 'a lfq \<Rightarrow> 'a lfq" where
  "push v q = (let (old_tail, new, q) = exchange_tail v q in link_node old_tail new q)"

text \<open>With one consumer the compare-and-swap cannot fail, so the loop body runs once.\<close>

definition try_pop :: "'a lfq \<Rightarrow> ('a \<times> 'a lfq) option" where
  "try_pop q =
     (case q_next q (q_head q) of
        None \<Rightarrow> None
      | Some n \<Rightarrow> (case q_value q n of
            Some v \<Rightarrow> Some (v, q\<lparr>q_head := n\<rparr>)
          | None \<Rightarrow> None))"

definition queue_empty :: "'a lfq \<Rightarrow> bool" where
  "queue_empty q \<longleftrightarrow> q_next q (q_head q) = None"

text \<open>The chain from the head to the tail is unbroken and every node after the head is filled.\<close>

definition queue_ok :: "'a lfq \<Rightarrow> bool" where
  "queue_ok q \<longleftrightarrow>
     q_head q \<le> q_tail q \<and> q_fresh q = q_tail q + 1 \<and> q_next q (q_tail q) = None \<and>
     (\<forall>i. q_head q \<le> i \<and> i < q_tail q \<longrightarrow> q_next q i = Some (i + 1)) \<and>
     (\<forall>i. q_head q < i \<and> i \<le> q_tail q \<longrightarrow> q_value q i \<noteq> None)"

definition queue_contents :: "'a lfq \<Rightarrow> 'a list" where
  "queue_contents q = map (\<lambda>i. the (q_value q i)) [q_head q + 1..<q_tail q + 1]"

lemma push_simp:
  "push v q = q\<lparr>q_next := ((q_next q)(q_fresh q := None))(q_tail q := Some (q_fresh q)),
     q_value := (q_value q)(q_fresh q := Some v), q_tail := q_fresh q, q_fresh := q_fresh q + 1\<rparr>"
  by (simp add: push_def exchange_tail_def link_node_def Let_def)

lemma push_ok: "queue_ok q \<Longrightarrow> queue_ok (push v q)"
  unfolding queue_ok_def push_simp by (auto simp: less_Suc_eq)

lemma push_contents: "queue_ok q \<Longrightarrow> queue_contents (push v q) = queue_contents q @ [v]"
  unfolding queue_ok_def push_simp queue_contents_def by auto

lemma try_pop_cases:
  assumes "queue_ok q"
  shows "try_pop q = (case queue_contents q of [] \<Rightarrow> None | x # xs \<Rightarrow> Some (x, q\<lparr>q_head := q_head q + 1\<rparr>))"
proof (cases "q_head q = q_tail q")
  case True
  then show ?thesis
    using assms by (simp add: queue_ok_def try_pop_def queue_contents_def)
next
  case False
  then have "q_head q < q_tail q"
    using assms by (simp add: queue_ok_def)
  then show ?thesis
    using assms by (auto simp: queue_ok_def try_pop_def queue_contents_def upt_conv_Cons
        simp del: upt_Suc split: option.splits)
qed

lemma pop_state:
  assumes "queue_ok q" and "try_pop q = Some (x, q')"
  shows "queue_ok q' \<and> queue_contents q = x # queue_contents q'"
proof -
  have ne: "queue_contents q \<noteq> []" and q': "q' = q\<lparr>q_head := q_head q + 1\<rparr>"
    and x: "x = hd (queue_contents q)"
    using assms by (auto simp: try_pop_cases split: list.splits)
  then have lt: "q_head q < q_tail q"
    by (auto simp: queue_contents_def split: if_splits)
  then have "queue_contents q = the (q_value q (q_head q + 1)) # queue_contents q'"
    by (simp add: queue_contents_def q' upt_conv_Cons del: upt_Suc)
  then show ?thesis
    using assms(1) lt x by (auto simp: queue_ok_def q')
qed

interpretation lfq: fifo_queue new_queue push try_pop queue_empty queue_contents queue_ok
proof
  show "queue_ok new_queue" "queue_contents new_queue = []"
    by (auto simp: queue_ok_def new_queue_def queue_contents_def)
next
  fix q :: "'a lfq" and x :: 'a and q' :: "'a lfq"
  assume ok: "queue_ok q"
  show "queue_ok (push x q)" "queue_contents (push x q) = queue_contents q @ [x]"
    using ok by (rule push_ok, intro push_contents)
  show "try_pop q = None \<longleftrightarrow> queue_contents q = []"
    using ok by (simp add: try_pop_cases split: list.splits)
  show "queue_ok q'" if "try_pop q = Some (x, q')"
    using pop_state [OF ok that] by simp
  show "queue_contents q = x # queue_contents q'" if "try_pop q = Some (x, q')"
    using pop_state [OF ok that] by simp
  show "queue_empty q \<longleftrightarrow> queue_contents q = []"
    using ok by (cases "q_head q = q_tail q")
      (auto simp: queue_ok_def queue_empty_def queue_contents_def)
qed

subsection \<open>Interleaved producers and one consumer\<close>

text \<open>
  A producer between its exchange and its link is a pending pair. The ghost fields record the
  values in exchange order and the values popped; \<open>c_freed\<close> holds the deleted nodes.
\<close>

record 'a cq =
  c_q :: "'a lfq"
  c_pending :: "(nat \<times> nat) list"
  c_freed :: "nat set"
  c_pushed :: "'a list"
  c_popped :: "'a list"

definition cq_init :: "'a cq" where
  "cq_init = \<lparr>c_q = new_queue, c_pending = [], c_freed = {}, c_pushed = [], c_popped = []\<rparr>"

definition cq_exchange :: "'a \<Rightarrow> 'a cq \<Rightarrow> 'a cq" where
  "cq_exchange v s =
     (let (old_tail, new, q) = exchange_tail v (c_q s)
      in s\<lparr>c_q := q, c_pending := c_pending s @ [(old_tail, new)], c_pushed := c_pushed s @ [v]\<rparr>)"

definition cq_link :: "nat \<times> nat \<Rightarrow> 'a cq \<Rightarrow> 'a cq" where
  "cq_link p s = s\<lparr>c_q := link_node (fst p) (snd p) (c_q s), c_pending := remove1 p (c_pending s)\<rparr>"

definition cq_pop :: "'a cq \<Rightarrow> 'a cq" where
  "cq_pop s =
     (case try_pop (c_q s) of
        None \<Rightarrow> s
      | Some (v, q) \<Rightarrow> s\<lparr>c_q := q, c_freed := insert (q_head (c_q s)) (c_freed s),
                        c_popped := c_popped s @ [v]\<rparr>)"

inductive cq_step :: "'a cq \<Rightarrow> 'a cq \<Rightarrow> bool" where
  exchange: "cq_step s (cq_exchange v s)"
| link: "p \<in> set (c_pending s) \<Longrightarrow> cq_step s (cq_link p s)"
| pop: "cq_step s (cq_pop s)"

inductive cq_reachable :: "'a cq \<Rightarrow> bool" where
  init: "cq_reachable cq_init"
| step: "cq_reachable s \<Longrightarrow> cq_step s s' \<Longrightarrow> cq_reachable s'"

inductive_cases cq_stepE: "cq_step s s'"

text \<open>Node \<open>i + 1\<close> carries the value of the \<open>i\<close>-th exchange; a node without successor is the
  tail or has a pending link, and no node at or after the head has been freed.\<close>

definition cq_inv :: "'a cq \<Rightarrow> bool" where
  "cq_inv s \<longleftrightarrow>
     (let q = c_q s; n = length (c_pushed s) in
      q_tail q = n \<and> q_fresh q = n + 1 \<and> q_head q \<le> n \<and>
      (\<forall>i \<le> n. q_next q i = (if i < n \<and> (i, i + 1) \<notin> set (c_pending s) then Some (i + 1) else None)) \<and>
      (\<forall>i < n. q_value q (i + 1) = Some (c_pushed s ! i)) \<and>
      distinct (c_pending s) \<and>
      (\<forall>p \<in> set (c_pending s). snd p = fst p + 1 \<and> q_head q \<le> fst p \<and> fst p < n) \<and>
      c_freed s = {..<q_head q} \<and>
      c_popped s = take (q_head q) (c_pushed s))"

lemma cq_inv_init: "cq_inv cq_init"
  by (simp add: cq_inv_def cq_init_def new_queue_def)

lemma cq_inv_exchange:
  assumes "cq_inv s"
  shows "cq_inv (cq_exchange v s)"
proof -
  let ?n = "length (c_pushed s)"
  have "(?n, Suc ?n) \<notin> set (c_pending s)"
    using assms by (auto simp: cq_inv_def Let_def)
  then show ?thesis
    using assms unfolding cq_inv_def Let_def cq_exchange_def exchange_tail_def
    by (auto simp: nth_append less_Suc_eq le_Suc_eq)
qed

lemma cq_inv_link:
  assumes "cq_inv s" and p: "p \<in> set (c_pending s)"
  shows "cq_inv (cq_link p s)"
proof -
  obtain i where i: "p = (i, i + 1)" "q_head (c_q s) \<le> i" "i < length (c_pushed s)"
    using assms by (cases p) (auto simp: cq_inv_def Let_def)
  have "set (remove1 p (c_pending s)) = set (c_pending s) - {p}"
    using assms by (auto simp: cq_inv_def Let_def set_remove1_eq)
  then show ?thesis
    using assms i unfolding cq_inv_def Let_def cq_link_def link_node_def
    by (auto simp: distinct_remove1)
qed

lemma cq_inv_pop:
  assumes "cq_inv s"
  shows "cq_inv (cq_pop s)"
proof (cases "try_pop (c_q s)")
  case None
  then show ?thesis
    using assms by (simp add: cq_pop_def)
next
  case (Some r)
  let ?q = "c_q s" and ?h = "q_head (c_q s)" and ?n = "length (c_pushed s)"
  have h: "?h < ?n" "(?h, ?h + 1) \<notin> set (c_pending s)" and r: "r = (c_pushed s ! ?h, ?q\<lparr>q_head := ?h + 1\<rparr>)"
    using assms Some by (auto simp: cq_inv_def Let_def try_pop_def split: option.splits if_splits)
  have ph: "Suc ?h \<le> fst p" if "p \<in> set (c_pending s)" for p
  proof -
    have "?h \<le> fst p" "p = (fst p, fst p + 1)"
      using assms that by (auto simp: cq_inv_def Let_def prod_eq_iff)
    then show ?thesis
      using h(2) that by (metis le_antisym not_less_eq_eq)
  qed
  have "cq_pop s = s\<lparr>c_q := ?q\<lparr>q_head := ?h + 1\<rparr>, c_freed := insert ?h (c_freed s),
      c_popped := c_popped s @ [c_pushed s ! ?h]\<rparr>"
    by (simp add: cq_pop_def Some r)
  then show ?thesis
    using assms h ph by (auto simp: cq_inv_def Let_def take_Suc_conv_app_nth)
qed

lemma cq_reachable_inv: "cq_reachable s \<Longrightarrow> cq_inv s"
proof (induction rule: cq_reachable.induct)
  case init
  show ?case by (rule cq_inv_init)
next
  case (step s s')
  from step.hyps(2) step.IH show ?case
    by (cases rule: cq_step.cases) (auto intro: cq_inv_exchange cq_inv_link cq_inv_pop)
qed

text \<open>C7: With any number of producers and one consumer the queue loses, duplicates and reorders
  nothing: what has been popped is always a prefix of the values in the order the producers
  exchanged the tail, and no producer's pending link or later pop touches a deleted node.\<close>

theorem mpsc_fifo:
  assumes "cq_reachable s"
  shows "c_popped s = take (length (c_popped s)) (c_pushed s)
    \<and> fst ` set (c_pending s) \<inter> c_freed s = {} \<and> q_head (c_q s) \<notin> c_freed s
    \<and> q_tail (c_q s) \<notin> c_freed s"
proof -
  have inv: "cq_inv s"
    using assms by (rule cq_reachable_inv)
  then have "length (c_popped s) = q_head (c_q s)"
    by (simp add: cq_inv_def Let_def)
  then show ?thesis
    using inv by (auto simp: cq_inv_def Let_def)
qed

text \<open>A stalled producer blocks the consumer: once a push has exchanged the tail and not yet
  linked, pushes completed after it are not visible, so \<open>try_pop\<close> reports an empty queue while
  every completed message waits behind the missing link.\<close>

theorem stalled_producer_hides_messages:
  "(let s = cq_exchange (2::nat) (cq_exchange 1 cq_init); s = cq_link (1, 2) s in
     try_pop (c_q s) = None \<and> c_pushed s = [1, 2] \<and> c_pending s = [(0, 1)]
     \<and> map_option fst (try_pop (c_q (cq_link (0, 1) s))) = Some 1)"
  by (simp add: cq_exchange_def exchange_tail_def cq_link_def link_node_def cq_init_def
      new_queue_def try_pop_def Let_def)

text \<open>Two consumers are not safe: when both have loaded the same head and one pops and deletes
  it, the other still reads the \<open>next\<close> field of the deleted node.\<close>

theorem two_consumers_use_after_free:
  "(let s = cq_link (0, 1) (cq_exchange (7::nat) cq_init);
        loaded_by_second = q_head (c_q s);
        s' = cq_pop s
    in cq_reachable s' \<and> loaded_by_second \<in> c_freed s')"
proof -
  have a: "cq_reachable (cq_exchange (7::nat) cq_init)"
    by (rule cq_reachable.step [OF cq_reachable.init cq_step.exchange])
  have "(0, 1) \<in> set (c_pending (cq_exchange (7::nat) cq_init))"
    by (simp add: cq_exchange_def exchange_tail_def cq_init_def new_queue_def)
  then have b: "cq_reachable (cq_link (0, 1) (cq_exchange (7::nat) cq_init))"
    by (rule cq_reachable.step [OF a cq_step.link])
  then have c: "cq_reachable (cq_pop (cq_link (0, 1) (cq_exchange (7::nat) cq_init)))"
    by (rule cq_reachable.step [OF _ cq_step.pop])
  then show ?thesis
    by (simp add: cq_pop_def cq_exchange_def exchange_tail_def cq_link_def link_node_def cq_init_def
        new_queue_def try_pop_def Let_def)
qed

definition demo_cq :: "nat cq" where
  "demo_cq = cq_pop (cq_exchange 8 (cq_link (0, 1) (cq_exchange 7 cq_init)))"

lemma demo_cq_reachable: "cq_reachable demo_cq"
proof -
  have "cq_reachable (cq_exchange (7::nat) cq_init)"
    by (rule cq_reachable.step [OF cq_reachable.init cq_step.exchange])
  moreover have "(0, 1) \<in> set (c_pending (cq_exchange (7::nat) cq_init))"
    by (simp add: cq_exchange_def exchange_tail_def cq_init_def new_queue_def)
  ultimately have "cq_reachable (cq_link (0, 1) (cq_exchange (7::nat) cq_init))"
    by (rule cq_reachable.step [OF _ cq_step.link])
  then show ?thesis
    unfolding demo_cq_def
    by (rule cq_reachable.step [OF cq_reachable.step [OF _ cq_step.exchange] cq_step.pop])
qed

theorem mpsc_fifo_witness:
  "c_popped demo_cq = take (length (c_popped demo_cq)) (c_pushed demo_cq)
    \<and> fst ` set (c_pending demo_cq) \<inter> c_freed demo_cq = {} \<and> q_head (c_q demo_cq) \<notin> c_freed demo_cq
    \<and> q_tail (c_q demo_cq) \<notin> c_freed demo_cq"
  by (rule mpsc_fifo) (rule demo_cq_reachable)

end
