(* ===== verification/Alert_Ws.thy ===== *)
theory Alert_Ws
  imports Alert_Manager Lockfree_Queue
begin

section \<open>The alert and web-socket module (include/modules/alert_ws_module.h)\<close>

text \<open>
  The sink of the pipeline: it takes one message at a time from its four input queues in a fixed
  order of preference, stores it, checks it for alerts and broadcasts a summary. An exception
  ends the handling of the message; a wait for a database connection stops the module (\<open>None\<close>).
\<close>

subsection \<open>Messages and state\<close>

record laser_message =
  lm_packet :: profinet_packet
  lm_data :: laser_data

record vibration_message =
  vm_packet :: profinet_packet
  vm_data :: vibration_data

record prediction_message =
  pm_crack :: crack_info
  pm_porcelain_id :: int
  pm_prediction :: crack_prediction

record dem_message =
  dmsg_crack :: crack_info
  dmsg_porcelain_id :: int
  dmsg_material :: repair_material
  dmsg_result :: repair_simulation

record 'db alert_ws =
  aw_manager :: alert_manager
  aw_db :: "'db dbm"
  aw_laser_in :: "laser_message lfq option"
  aw_vibration_in :: "vibration_message lfq option"
  aw_prediction_in :: "prediction_message lfq option"
  aw_dem_in :: "dem_message lfq option"
  aw_broadcasts :: "json list"
  aw_processed :: u64

record 'db aw_env =
  ae_pg :: "'db pg_env"
  ae_fmt :: "double \<Rightarrow> string"
  ae_now :: time_point
  ae_clock :: "nat \<Rightarrow> time_point"

definition aw_init ::
  "double \<Rightarrow> double \<Rightarrow> bool \<Rightarrow> bool \<Rightarrow> string \<Rightarrow> string \<Rightarrow> 'db alert_ws \<Rightarrow> 'db alert_ws" where
  "aw_init depth width sms ws gateway phone s =
     s\<lparr>aw_manager := (am_init depth width sms ws gateway phone (aw_manager s))\<lparr>am_ws_server := True\<rparr>\<rparr>"

definition on_db :: "('db dbm \<Rightarrow> ('a result \<times> 'db dbm) option) \<Rightarrow> ('db alert_ws, 'a) step" where
  "on_db op s = (case op (aw_db s) of None \<Rightarrow> None | Some (r, db) \<Rightarrow> Some (r, s\<lparr>aw_db := db\<rparr>))"

definition on_manager ::
  "(alert_manager \<times> 'db dbm \<Rightarrow> (unit result \<times> alert_manager \<times> 'db dbm) option)
     \<Rightarrow> ('db alert_ws, unit) step" where
  "on_manager op s =
     (case op (aw_manager s, aw_db s) of
        None \<Rightarrow> None
      | Some (r, m, db) \<Rightarrow> Some (r, s\<lparr>aw_manager := m, aw_db := db\<rparr>))"

text \<open>\<open>broadcast_json\<close>, then the processed counter.\<close>

definition broadcast_and_count :: "json \<Rightarrow> ('db alert_ws, unit) step" where
  "broadcast_and_count j s =
     Some (Inr (), s\<lparr>aw_broadcasts := aw_broadcasts s @ [j], aw_processed := aw_processed s + 1\<rparr>)"

text \<open>The handlers' \<open>try\<close> block: an exception is printed and dropped.\<close>

definition guarded :: "('db alert_ws, unit) step \<Rightarrow> ('db alert_ws, unit) step" where
  "guarded m s =
     (case m s of
        None \<Rightarrow> None
      | Some (Inl (UB e), s) \<Rightarrow> Some (Inl (UB e), s)
      | Some (_, s) \<Rightarrow> Some (Inr (), s))"

subsection \<open>Handlers\<close>

definition crack_code :: "int \<Rightarrow> time_point \<Rightarrow> string" where
  "crack_code porcelain_id now =
     ''CRK-'' @ to_string_int porcelain_id @ ''-'' @ to_string_int (to_time_t now)"

text \<open>The source assigns to the elements of a constant vector; the model gives each crack its code
  and date and stores it and, when it got an id, its points.\<close>

definition coded_crack :: "laser_data \<Rightarrow> time_point \<Rightarrow> crack_info \<Rightarrow> crack_info" where
  "coded_crack d now c =
     c\<lparr>ci_crack_code := crack_code (ld_porcelain_id d) now, ci_detected_at := ld_measurement_time d\<rparr>"

fun store_cracks ::
  "'db pg_env \<Rightarrow> laser_data \<Rightarrow> (nat \<Rightarrow> time_point) \<Rightarrow> nat \<Rightarrow> crack_info list \<Rightarrow> ('db alert_ws, unit) step" where
  "store_cracks pg d clock i [] s = Some (Inr (), s)"
| "store_cracks pg d clock i (c # cs) s =
     then_step (on_db (insert_crack pg (coded_crack d (clock i) c) (ld_porcelain_id d))) (\<lambda>crack_id.
     then_step (\<lambda>s. if 0 < crack_id then
           then_step (on_db (insert_crack_points pg crack_id (ci_points c))) (\<lambda>_ s. Some (Inr (), s)) s
         else Some (Inr (), s)) (\<lambda>_.
     store_cracks pg d clock (Suc i) cs)) s"

definition laser_summary :: "laser_data \<Rightarrow> json" where
  "laser_summary d = JObj [(''type'', JStr ''laser_data''), (''data'', JObj
     [(''sensor_id'', JInt (ld_sensor_id d)), (''porcelain_id'', JInt (ld_porcelain_id d)),
      (''crack_detected'', JBool (ld_crack_detected d)), (''crack_count'', JInt (ld_crack_count d))])]"

definition handle_laser :: "'db aw_env \<Rightarrow> laser_message \<Rightarrow> ('db alert_ws, unit) step" where
  "handle_laser env msg =
     (let p = lm_packet msg; d = lm_data msg; pg = ae_pg env in
      guarded
        (then_step (on_db (log_profinet_packet pg (pp_source_ip p) (pp_destination_ip p) (pp_frame_id p)
           (pp_payload p))) (\<lambda>_.
         then_step (on_db (insert_laser_data pg d)) (\<lambda>_.
         then_step (\<lambda>s. if ld_crack_detected d then store_cracks pg d (ae_clock env) 0 (ld_cracks d) s
             else Some (Inr (), s)) (\<lambda>_.
         then_step (on_manager (check_laser_data (insert_alert pg) (ae_fmt env) (ae_now env) d)) (\<lambda>_.
         broadcast_and_count (laser_summary d)))))))"

definition vibration_summary :: "vibration_data \<Rightarrow> json" where
  "vibration_summary d = JObj [(''type'', JStr ''vibration_data''), (''data'', JObj
     [(''sensor_id'', JInt (vd_sensor_id d)), (''porcelain_id'', JInt (vd_porcelain_id d)),
      (''rms_value'', JNum (vd_rms_value d)), (''peak_value'', JNum (vd_peak_value d)),
      (''temperature'', JNum (vd_temperature d)), (''humidity'', JNum (vd_humidity d))])]"

definition handle_vibration :: "'db aw_env \<Rightarrow> vibration_message \<Rightarrow> ('db alert_ws, unit) step" where
  "handle_vibration env msg =
     (let p = vm_packet msg; d = vm_data msg; pg = ae_pg env in
      guarded
        (then_step (on_db (log_profinet_packet pg (pp_source_ip p) (pp_destination_ip p) (pp_frame_id p)
           (pp_payload p))) (\<lambda>_.
         then_step (on_db (insert_vibration_data pg d)) (\<lambda>_.
         then_step (on_manager (check_vibration_data (insert_alert pg) (ae_fmt env) (ae_now env) d)) (\<lambda>_.
         broadcast_and_count (vibration_summary d))))))"

definition prediction_summary :: "prediction_message \<Rightarrow> json" where
  "prediction_summary msg = (let p = pm_prediction msg in
     JObj [(''type'', JStr ''fatigue_prediction''), (''data'', JObj
     [(''crack_id'', JInt (cp_crack_id p)), (''porcelain_id'', JInt (pm_porcelain_id msg)),
      (''risk_level'', JStr (cp_risk_level p)), (''confidence'', JNum (cp_confidence p)),
      (''predicted_length_720h'', JNum (cp_predicted_length p))])])"

definition handle_prediction :: "'db aw_env \<Rightarrow> prediction_message \<Rightarrow> ('db alert_ws, unit) step" where
  "handle_prediction env msg =
     guarded
       (then_step (on_manager (check_prediction (insert_alert (ae_pg env)) (ae_fmt env) (ae_now env)
          (pm_prediction msg))) (\<lambda>_.
        broadcast_and_count (prediction_summary msg)))"

definition dem_summary :: "dem_message \<Rightarrow> json" where
  "dem_summary msg = (let r = dmsg_result msg in
     JObj [(''type'', JStr ''dem_simulation''), (''data'', JObj
     [(''crack_id'', JInt (rs_crack_id r)), (''porcelain_id'', JInt (dmsg_porcelain_id msg)),
      (''filling_rate'', JNum (rs_filling_rate r)), (''durability_score'', JNum (rs_durability_score r)),
      (''particle_count'', JInt (rs_particle_count r))])])"

definition handle_dem :: "'db aw_env \<Rightarrow> dem_message \<Rightarrow> ('db alert_ws, unit) step" where
  "handle_dem env msg = guarded (broadcast_and_count (dem_summary msg))"

text \<open>\<open>q && q->try_pop(msg)\<close>\<close>

definition pop_in :: "'a lfq option \<Rightarrow> ('a \<times> 'a lfq) option" where
  "pop_in q = (case q of None \<Rightarrow> None | Some q \<Rightarrow> try_pop q)"

text \<open>One turn of the worker thread.\<close>

definition worker_turn :: "'db aw_env \<Rightarrow> ('db alert_ws, unit) step" where
  "worker_turn env s =
     (case pop_in (aw_laser_in s) of
        Some (m, q) \<Rightarrow> handle_laser env m (s\<lparr>aw_laser_in := Some q\<rparr>)
      | None \<Rightarrow> (case pop_in (aw_vibration_in s) of
          Some (m, q) \<Rightarrow> handle_vibration env m (s\<lparr>aw_vibration_in := Some q\<rparr>)
        | None \<Rightarrow> (case pop_in (aw_prediction_in s) of
            Some (m, q) \<Rightarrow> handle_prediction env m (s\<lparr>aw_prediction_in := Some q\<rparr>)
          | None \<Rightarrow> (case pop_in (aw_dem_in s) of
              Some (m, q) \<Rightarrow> handle_dem env m (s\<lparr>aw_dem_in := Some q\<rparr>)
            | None \<Rightarrow> Some (Inr (), s)))))"

subsection \<open>Properties\<close>

text \<open>What no handler touches: the other queues keep their messages.\<close>

definition aw_queues :: "'db alert_ws \<Rightarrow> laser_message lfq option \<times> vibration_message lfq option
    \<times> prediction_message lfq option \<times> dem_message lfq option" where
  "aw_queues s = (aw_laser_in s, aw_vibration_in s, aw_prediction_in s, aw_dem_in s)"

definition keeps_queues :: "('db alert_ws, 'a) step \<Rightarrow> bool" where
  "keeps_queues m \<longleftrightarrow> (\<forall>s r s'. m s = Some (r, s') \<longrightarrow> aw_queues s' = aw_queues s)"

lemma keeps_queuesD: "keeps_queues m \<Longrightarrow> m s = Some (r, s') \<Longrightarrow> aw_queues s' = aw_queues s"
  by (simp add: keeps_queues_def)

lemma keeps_then: "keeps_queues m \<Longrightarrow> (\<And>a. keeps_queues (f a)) \<Longrightarrow> keeps_queues (then_step m f)"
  unfolding keeps_queues_def then_step_def
  by (auto split: option.splits sum.splits prod.splits)

lemma keeps_db: "keeps_queues (on_db op)"
  by (auto simp: keeps_queues_def on_db_def aw_queues_def split: option.splits)

lemma keeps_manager: "keeps_queues (on_manager op)"
  by (auto simp: keeps_queues_def on_manager_def aw_queues_def split: option.splits)

lemma keeps_broadcast: "keeps_queues (broadcast_and_count j)"
  by (auto simp: keeps_queues_def broadcast_and_count_def aw_queues_def)

lemma keeps_skip: "keeps_queues (\<lambda>s. Some (Inr (), s))"
  by (auto simp: keeps_queues_def)

lemma keeps_if: "keeps_queues m \<Longrightarrow> keeps_queues n \<Longrightarrow> keeps_queues (\<lambda>s. if b then m s else n s)"
  by (cases b) simp_all

lemma keeps_guarded: "keeps_queues m \<Longrightarrow> keeps_queues (guarded m)"
  unfolding keeps_queues_def guarded_def
  by (auto split: option.splits sum.splits prod.splits cpp_error.splits)

lemma keeps_store_cracks: "keeps_queues (store_cracks pg d clock i cs)"
proof (induction cs arbitrary: i)
  case Nil
  then show ?case
    by (simp add: keeps_queues_def)
next
  case (Cons c cs)
  have e: "store_cracks pg d clock i (c # cs) =
      then_step (on_db (insert_crack pg (coded_crack d (clock i) c) (ld_porcelain_id d))) (\<lambda>crack_id.
      then_step (\<lambda>s. if 0 < crack_id then
            then_step (on_db (insert_crack_points pg crack_id (ci_points c))) (\<lambda>_ s. Some (Inr (), s)) s
          else Some (Inr (), s)) (\<lambda>_.
      store_cracks pg d clock (Suc i) cs))"
    by (rule ext) simp
  show ?case
    unfolding e by (intro keeps_then keeps_db keeps_if keeps_skip Cons.IH)
qed

lemmas keeps_intros = keeps_then keeps_db keeps_manager keeps_broadcast keeps_skip keeps_if
  keeps_guarded keeps_store_cracks

lemma keeps_handlers:
  "keeps_queues (handle_laser env lm)" "keeps_queues (handle_vibration env vm)"
  "keeps_queues (handle_prediction env pm)" "keeps_queues (handle_dem env dm)"
  unfolding handle_laser_def handle_vibration_def handle_prediction_def handle_dem_def Let_def
  by (intro keeps_intros)+

text \<open>A turn takes at most one message, always from the first non-empty queue in the order
  laser, vibration, prediction, simulation: while a laser message waits no other queue is
  served, and the queues that are not served keep exactly their messages, whatever happens to
  the handled one.\<close>

theorem worker_turn_priority:
  assumes "aw_laser_in s = Some q" and "queue_ok q" and "queue_contents q = m # ms"
    and "worker_turn env s = Some (r, s')"
  shows "map_option queue_contents (aw_laser_in s') = Some ms
    \<and> aw_vibration_in s' = aw_vibration_in s \<and> aw_prediction_in s' = aw_prediction_in s
    \<and> aw_dem_in s' = aw_dem_in s"
proof -
  obtain q' where pop: "try_pop q = Some (m, q')"
    using assms(2,3) by (simp add: try_pop_cases)
  then have q': "queue_contents q' = ms"
    using pop_state [OF assms(2) pop] assms(3) by simp
  have "handle_laser env m (s\<lparr>aw_laser_in := Some q'\<rparr>) = Some (r, s')"
    using assms(1,4) pop by (simp add: worker_turn_def pop_in_def)
  then have "aw_queues s' = aw_queues (s\<lparr>aw_laser_in := Some q'\<rparr>)"
    by (rule keeps_queuesD [OF keeps_handlers(1)])
  then show ?thesis
    using q' by (simp add: aw_queues_def)
qed

text \<open>All cracks of one message that are stored within the same second get the same code, so
  under the unique constraint of the \<open>cracks\<close> table at most one of them can be stored.\<close>

lemma crack_codes_collide:
  assumes "\<forall>i < length cs. to_time_t (clock i) = t"
  shows "map (\<lambda>i. ci_crack_code (coded_crack d (clock i) (cs ! i))) [0..<length cs] =
    replicate (length cs) (''CRK-'' @ to_string_int (ld_porcelain_id d) @ ''-'' @ to_string_int t)"
  using assms by (intro nth_equalityI) (simp_all add: coded_crack_def crack_code_def)

text \<open>When the payload of a laser packet cannot be printed as JSON, nothing of the message is
  kept: no measurement, crack, alert or broadcast, the counter does not move, and the pool is
  one connection shorter.\<close>

theorem unprintable_packet_is_lost:
  assumes "pg_dump (ae_pg env) (packet_json (pp_payload (lm_packet m))) = Inl Json_error"
    and "dm_available (aw_db s) \<noteq> []"
  shows "handle_laser env m s =
    Some (Inr (), s\<lparr>aw_db := (aw_db s)\<lparr>dm_available := butlast (dm_available (aw_db s))\<rparr>\<rparr>)"
  using log_packet_leaks [OF assms]
  by (simp add: handle_laser_def Let_def guarded_def then_step_def on_db_def)

subsection \<open>Concrete runs\<close>

definition demo_packet :: "bytes \<Rightarrow> profinet_packet" where
  "demo_packet payload = \<lparr>pp_source_ip = ''a'', pp_destination_ip = ''b'', pp_packet_type = ''LASER_DATA'',
     pp_frame_id = 0x8001, pp_payload = payload, pp_received_at = 0\<rparr>"

definition demo_lm :: "bytes \<Rightarrow> laser_message" where
  "demo_lm payload = \<lparr>lm_packet = demo_packet payload, lm_data = demo_message\<rparr>"

definition demo_aw_env :: "nat aw_env" where
  "demo_aw_env = \<lparr>ae_pg = demo_env, ae_fmt = (\<lambda>_. ''x''), ae_now = 0, ae_clock = (\<lambda>_. 0)\<rparr>"

definition demo_aw :: "nat alert_ws" where
  "demo_aw = \<lparr>aw_manager = new_alert_manager, aw_db = \<lparr>dm_available = [0, 1], dm_server = 0\<rparr>,
     aw_laser_in = Some (push (demo_lm [0xFF]) new_queue), aw_vibration_in = None,
     aw_prediction_in = None, aw_dem_in = None, aw_broadcasts = [], aw_processed = 0\<rparr>"

lemma demo_dump: "pg_dump demo_env (packet_json [0xFF]) = Inl Json_error"
  by (simp add: demo_env_def packet_json_def json_at_def)

theorem unprintable_packet_is_lost_witness:
  "handle_laser demo_aw_env (demo_lm [0xFF]) demo_aw =
    Some (Inr (), demo_aw\<lparr>aw_db := \<lparr>dm_available = [0], dm_server = 0\<rparr>\<rparr>)"
  by (subst unprintable_packet_is_lost)
    (simp_all add: demo_aw_env_def demo_lm_def demo_packet_def demo_dump demo_aw_def)

theorem worker_turn_priority_witness:
  "\<exists>r s'. worker_turn demo_aw_env demo_aw = Some (r, s')
    \<and> map_option queue_contents (aw_laser_in s') = Some [] \<and> aw_dem_in s' = None"
proof -
  let ?q = "push (demo_lm [0xFF]) new_queue"
  have q: "queue_ok ?q" "queue_contents ?q = [demo_lm [0xFF]]"
    by (simp_all add: push_ok push_contents lfq.new_ok lfq.new_contents)
  have "try_pop ?q = Some (demo_lm [0xFF], ?q\<lparr>q_head := q_head ?q + 1\<rparr>)"
    using q by (simp add: try_pop_cases)
  then have "\<exists>r s'. worker_turn demo_aw_env demo_aw = Some (r, s')"
    using log_packet_leaks [of demo_env "[0xFF]" Json_error "\<lparr>dm_available = [0, 1], dm_server = 0\<rparr>"]
    by (simp add: worker_turn_def pop_in_def demo_aw_def handle_laser_def guarded_def then_step_def
        on_db_def demo_aw_env_def demo_lm_def demo_packet_def demo_dump)
  then obtain r s' where run: "worker_turn demo_aw_env demo_aw = Some (r, s')"
    by blast
  have "aw_laser_in demo_aw = Some ?q" "aw_dem_in demo_aw = None"
    by (simp_all add: demo_aw_def)
  then show ?thesis
    using worker_turn_priority [OF _ q run] run by simp
qed

lemma crack_codes_collide_example:
  "map (\<lambda>i. ci_crack_code (coded_crack demo_message ((\<lambda>i. 10 ^ 9 + int i) i) (ld_cracks demo_message ! i)))
     [0..<length (ld_cracks demo_message)] =
   replicate (length (ld_cracks demo_message)) (''CRK-'' @ to_string_int 4 @ ''-'' @ to_string_int 1)"
  by (subst crack_codes_collide [of _ "\<lambda>i. 10 ^ 9 + int i" 1])
    (simp_all add: demo_message_def to_time_t_def)

end
