(* ===== verification/Enclosures.thy ===== *)
theory Enclosures
  imports Binary64
begin

section \<open>Enclosures of double expressions\<close>

text \<open>
  A calculus to bound the value of an expression in floating-point arithmetic: \<open>encl x l u\<close> says
  that \<open>x\<close> is finite and lies between the binary64 numbers \<open>l\<close> and \<open>u\<close>. Since rounding is monotone
  and keeps binary64 numbers, each operation needs only its bounds over the reals.
\<close>

definition encl :: "double \<Rightarrow> real \<Rightarrow> real \<Rightarrow> bool" where
  "encl x l u \<longleftrightarrow> isfinite x \<and> l \<le> val x \<and> val x \<le> u"

lemma enclE:
  assumes "encl x l u"
  obtains r where "x = D r" and "exact r" and "l \<le> r" and "r \<le> u"
  using assms by (cases x) (auto simp: encl_def)

lemma encl_D:
  assumes "exact l" and "exact u" and "l \<le> r" and "r \<le> u"
  shows "encl (D r) l u"
proof -
  have b: "l \<le> round64 r" "round64 r \<le> u"
    using assms round64_mono [of l r] round64_mono [of r u]
    by (simp_all add: exact_def round64_representable)
  have "\<bar>round64 r\<bar> < 2 ^ 1024"
    using b exact_bound [OF assms(1)] exact_bound [OF assms(2)] by (simp add: abs_less_iff)
  then have e: "exact (round64 r)" and r: "D r = D (round64 r)"
    using D_cases [of r] by (auto simp: exact_def)
  show ?thesis
    unfolding encl_def r using e b by simp
qed

lemma encl_exact: "exact r \<Longrightarrow> encl (D r) r r"
  by (rule encl_D) simp_all

lemma encl_weaken: "encl x l u \<Longrightarrow> l' \<le> l \<Longrightarrow> u \<le> u' \<Longrightarrow> encl x l' u'"
  by (simp add: encl_def)

lemma encl_plus:
  assumes "encl x a b" and "encl y c d" and "exact l" and "exact u" and "l \<le> a + c" and "b + d \<le> u"
  shows "encl (x + y) l u"
  using assms(1,2) assms(3-6) by (elim enclE) (auto intro!: encl_D)

lemma encl_minus:
  assumes "encl x a b" and "encl y c d" and "exact l" and "exact u" and "l \<le> a - d" and "b - c \<le> u"
  shows "encl (x - y) l u"
  using assms(1,2) assms(3-6) by (elim enclE) (auto intro!: encl_D)

lemma encl_uminus: "encl x l u \<Longrightarrow> encl (- x) (- u) (- l)"
  by (erule enclE) (simp add: encl_def)

lemma mult_corners:
  fixes r s :: real
  assumes r: "a \<le> r" "r \<le> b" and s: "c \<le> s" "s \<le> d"
    and lo: "l \<le> a * c" "l \<le> a * d" "l \<le> b * c" "l \<le> b * d"
    and hi: "a * c \<le> u" "a * d \<le> u" "b * c \<le> u" "b * d \<le> u"
  shows "l \<le> r * s \<and> r * s \<le> u"
proof -
  have end_s: "l \<le> e * s \<and> e * s \<le> u"
    if "l \<le> e * c" "l \<le> e * d" "e * c \<le> u" "e * d \<le> u" for e
  proof (cases "0 \<le> e")
    case True
    then have "e * c \<le> e * s" "e * s \<le> e * d"
      using s by (simp_all add: mult_left_mono)
    then show ?thesis
      using that by linarith
  next
    case False
    then have "e * d \<le> e * s" "e * s \<le> e * c"
      using s by (simp_all add: mult_left_mono_neg)
    then show ?thesis
      using that by linarith
  qed
  show ?thesis
  proof (cases "0 \<le> s")
    case True
    then have "a * s \<le> r * s" "r * s \<le> b * s"
      using r by (simp_all add: mult_right_mono)
    then show ?thesis
      using end_s [OF lo(1,2) hi(1,2)] end_s [OF lo(3,4) hi(3,4)] by linarith
  next
    case False
    then have "b * s \<le> r * s" "r * s \<le> a * s"
      using r by (simp_all add: mult_right_mono_neg)
    then show ?thesis
      using end_s [OF lo(1,2) hi(1,2)] end_s [OF lo(3,4) hi(3,4)] by linarith
  qed
qed

lemma encl_times:
  assumes "encl x a b" and "encl y c d" and "exact l" and "exact u"
    and "l \<le> a * c" "l \<le> a * d" "l \<le> b * c" "l \<le> b * d"
    and "a * c \<le> u" "a * d \<le> u" "b * c \<le> u" "b * d \<le> u"
  shows "encl (x * y) l u"
proof -
  obtain r s where x: "x = D r" "exact r" "a \<le> r" "r \<le> b" and y: "y = D s" "exact s" "c \<le> s" "s \<le> d"
    using assms(1,2) by (elim enclE)
  have "l \<le> r * s \<and> r * s \<le> u"
    using x(3,4) y(3,4) assms(5-12) by (rule mult_corners)
  then show ?thesis
    using x(1,2) y(1,2) assms(3,4) by (auto intro: encl_D)
qed

lemma encl_divide:
  assumes "encl x a b" and "encl y c d" and "0 < c" and "exact l" and "exact u"
    and "l \<le> a / c" "l \<le> a / d" "l \<le> b / c" "l \<le> b / d"
    and "a / c \<le> u" "a / d \<le> u" "b / c \<le> u" "b / d \<le> u"
  shows "encl (x / y) l u"
proof -
  obtain r s where x: "x = D r" "exact r" "a \<le> r" "r \<le> b" and y: "y = D s" "exact s" "c \<le> s" "s \<le> d"
    using assms(1,2) by (elim enclE)
  have s: "inverse d \<le> inverse s" "inverse s \<le> inverse c"
    using y(3,4) assms(3) by (simp_all add: le_imp_inverse_le)
  have "l \<le> r * inverse s \<and> r * inverse s \<le> u"
    by (rule mult_corners [OF x(3,4) s]) (use assms(6-13) in \<open>simp_all add: field_simps\<close>)
  then show ?thesis
    using x(1,2) y assms(3-5) by (auto simp: divide_inverse [symmetric] intro: encl_D)
qed

lemma encl_abs:
  "encl x l u \<Longrightarrow> 0 \<le> l \<Longrightarrow> encl \<bar>x\<bar> l u"
  "encl x l u \<Longrightarrow> u \<le> 0 \<Longrightarrow> encl \<bar>x\<bar> (- u) (- l)"
  by (auto simp: encl_def elim!: isfinite_iff [THEN iffD1, elim_format])

lemma encl_finite: "encl x l u \<Longrightarrow> isfinite x"
  by (simp add: encl_def)

lemma encl_pos: "encl x l u \<Longrightarrow> 0 < l \<Longrightarrow> 0 < x"
  by (elim enclE) simp

lemma encl_neg: "encl x l u \<Longrightarrow> u < 0 \<Longrightarrow> x < 0"
  by (elim enclE) simp

lemma encl_less: "encl x a b \<Longrightarrow> encl y c d \<Longrightarrow> b < c \<Longrightarrow> x < y"
  by (elim enclE) simp

lemma isfinite_D_small [simp]: "\<bar>r\<bar> \<le> 1 \<Longrightarrow> isfinite (D r)"
  by (rule encl_finite [OF encl_D [of "- 1" 1]]) (simp_all add: abs_le_iff)

subsection \<open>Signs, including the infinities\<close>

lemma times_inf_neg [simp]:
  "exact r \<Longrightarrow> r < 0 \<Longrightarrow> D r * PINF = NINF" "exact r \<Longrightarrow> r < 0 \<Longrightarrow> PINF * D r = NINF"
  by (transfer, simp)+

lemma dtimes_neg_nonneg: "x < 0 \<Longrightarrow> isfinite x \<Longrightarrow> 0 \<le> y \<Longrightarrow> x * y \<le> (0 :: double)"
  by (cases x; cases y) (auto simp: mult_nonpos_nonneg intro: D_mono [of _ 0, unfolded D_zero])

lemma dtimes_pos_nonneg: "0 < x \<Longrightarrow> isfinite x \<Longrightarrow> 0 \<le> y \<Longrightarrow> 0 \<le> x * (y :: double)"
  by (cases x; cases y) (auto intro: D_nonneg)

lemma dminus_nonpos: "x \<le> 0 \<Longrightarrow> 0 \<le> y \<Longrightarrow> x - y \<le> (0 :: double)"
  by (cases x; cases y) (auto simp: minus_double_def intro: D_mono [of _ 0, unfolded D_zero])

subsection \<open>Ranges\<close>

lemma finite_between: "0 \<le> x \<Longrightarrow> x \<le> y \<Longrightarrow> isfinite y \<Longrightarrow> isfinite x"
  by (cases x; cases y) auto

lemma positive_val: "0 \<le> x \<Longrightarrow> x \<noteq> 0 \<Longrightarrow> isfinite x \<Longrightarrow> 0 < val x"
  by (cases x) (auto simp: less_le)

lemma dless_asym: "x < y \<Longrightarrow> \<not> y < (x :: double)"
  using dless_not_sym dless_imp_le by blast

lemma D_range:
  assumes "D l \<le> x" and "x \<le> D u" and "exact l" and "exact u"
  shows "isfinite x" and "l \<le> val x" and "val x \<le> u"
  using assms by (cases x; simp)+

lemma finite_posE:
  assumes "0 < x" and "isfinite x"
  obtains r where "x = D r" and "exact r" and "0 < r"
  using assms by (cases x) auto

lemma dtimes_mono:
  assumes x: "0 < x" "isfinite x" "x \<le> y" and z: "0 < z" "isfinite z" "z \<le> w" "isfinite w"
  shows "x * z \<le> y * w"
proof -
  obtain a where a: "x = D a" "exact a" "0 < a"
    using x(1,2) by (rule finite_posE)
  obtain b where b: "z = D b" "exact b" "0 < b"
    using z(1,2) by (rule finite_posE)
  have "0 < w"
    using z(1,3) by (rule dless_le_trans)
  then obtain c where c: "w = D c" "exact c" "0 < c"
    using z(4) by (rule finite_posE)
  show ?thesis
  proof (cases y)
    case (fin d)
    then have "a * b \<le> d * c"
      using x(3) z(3) a b c by (intro mult_mono) simp_all
    then show ?thesis
      using fin a b c by (simp add: D_mono)
  next
    case pinf
    then show ?thesis
      using a b c by simp
  qed (use x(3) a in simp_all)
qed

lemma ddivide_antimono:
  assumes x: "0 < x" "isfinite x" and y: "0 < y" "isfinite y" "y \<le> z"
  shows "x / z \<le> x / y"
proof -
  obtain a where a: "x = D a" "exact a" "0 < a"
    using x by (rule finite_posE)
  obtain b where b: "y = D b" "exact b" "0 < b"
    using y(1,2) by (rule finite_posE)
  show ?thesis
  proof (cases z)
    case (fin c)
    then have "a / c \<le> a / b"
      using y(3) a b by (intro divide_left_mono) simp_all
    then show ?thesis
      using fin y(3) a b by (simp add: D_mono)
  next
    case pinf
    then show ?thesis
      using a b by (simp add: D_nonneg)
  qed (use y(3) b in simp_all)
qed

end
