(* ===== verification/Crack_Propagation.thy ===== *)
theory Crack_Propagation
  imports Data_Model Enclosures
begin

section \<open>Paris-law crack propagation (algorithms/crack_propagation.cpp)\<close>

text \<open>
  The prediction of crack growth under cyclic loading with residual-stress correction, in
  floating-point arithmetic. A model object is its parameter record. The loop that estimates the
  remaining life may run for ever as far as its type goes, so it is a partial function; it is
  shown to return always. Narrowing and counter overflow of the series loop (more than
  \<open>2^31 - 1\<close> steps) are not modelled.
\<close>

subsection \<open>Data\<close>

record xrd_data =
  xr_x :: double
  xr_y :: double
  xr_z :: double
  xr_sigma_parallel :: double
  xr_sigma_perpendicular :: double
  xr_psi_angle_deg :: double
  xr_measurement_error :: double
  xr_is_valid :: bool

record paris_params =
  par_C :: double
  par_m :: double
  par_stress_ratio_R :: double
  par_initial_crack_length :: double
  par_maximum_stress :: double
  par_minimum_stress :: double
  par_residual_parallel :: double
  par_residual_perpendicular :: double
  par_calibration_factor :: double
  par_fracture_toughness :: double
  par_geometric_factor_Y :: double
  par_cyclic_frequency :: double
  par_enable_correction :: bool
  par_xrd :: "xrd_data list"

definition default_paris :: paris_params where
  "default_paris = \<lparr>par_C = D (15 / 10 ^ 11), par_m = D 3, par_stress_ratio_R = D (1/10),
     par_initial_crack_length = 0, par_maximum_stress = D 25000000,
     par_minimum_stress = D 2500000, par_residual_parallel = D (- 35000000),
     par_residual_perpendicular = D (- 20000000), par_calibration_factor = 1,
     par_fracture_toughness = D 1000000, par_geometric_factor_Y = 1,
     par_cyclic_frequency = 1 / D 10800, par_enable_correction = True, par_xrd = []\<rparr>"

record paris_result =
  pl_time_hours :: "double list"
  pl_crack_length :: "double list"
  pl_crack_depth :: "double list"
  pl_crack_width :: "double list"
  pl_stress_intensity_range :: "double list"
  pl_crack_growth_rate :: "double list"
  pl_length_720h :: double
  pl_depth_720h :: double
  pl_width_720h :: double
  pl_time_to_failure_hours :: double
  pl_confidence :: double
  pl_risk_level :: string
  pl_parameters :: paris_params

definition new_paris_result :: "paris_params \<Rightarrow> paris_result" where
  "new_paris_result p = \<lparr>pl_time_hours = [], pl_crack_length = [], pl_crack_depth = [],
     pl_crack_width = [], pl_stress_intensity_range = [], pl_crack_growth_rate = [],
     pl_length_720h = 0, pl_depth_720h = 0, pl_width_720h = 0, pl_time_to_failure_hours = D (- 1),
     pl_confidence = D (85/100), pl_risk_level = ''LOW'', pl_parameters = p\<rparr>"

subsection \<open>Stresses and growth rate\<close>

definition calculate_stress_intensity :: "paris_params \<Rightarrow> double \<Rightarrow> double \<Rightarrow> double" where
  "calculate_stress_intensity p crack_length stress =
     (let effective_stress =
        (if par_enable_correction p then
           let residual_parallel = par_residual_parallel p * par_calibration_factor p;
               residual_perp = par_residual_perpendicular p * par_calibration_factor p;
               k_sigma = 1 + (residual_parallel + residual_perp) / (D 2 * \<bar>stress\<bar> + 1)
           in stress * k_sigma + D (3/10) * residual_parallel
         else stress)
      in par_geometric_factor_Y p * effective_stress * dsqrt (M_PI * crack_length))"

definition calculate_effective_stress :: "paris_params \<Rightarrow> double \<Rightarrow> double \<Rightarrow> double" where
  "calculate_effective_stress p applied_stress crack_angle_rad =
     (if \<not> par_enable_correction p then applied_stress
      else
        let cos2 = dcos crack_angle_rad * dcos crack_angle_rad;
            sin2 = dsin crack_angle_rad * dsin crack_angle_rad;
            sigma_xx = par_residual_parallel p * par_calibration_factor p;
            sigma_yy = par_residual_perpendicular p * par_calibration_factor p;
            residual_on_crack = sigma_xx * cos2 + sigma_yy * sin2;
            alpha = D (4/10)
        in applied_stress + alpha * residual_on_crack)"

text \<open>The sums over the valid calibration points: weighted value and weight.\<close>

fun xrd_sums :: "double \<Rightarrow> double \<Rightarrow> double \<Rightarrow> bool \<Rightarrow> xrd_data list \<Rightarrow> double \<times> double \<Rightarrow> double \<times> double" where
  "xrd_sums x y z par [] acc = acc"
| "xrd_sums x y z par (dp # dps) (weighted_sum, total_weight) =
     (if \<not> xr_is_valid dp then xrd_sums x y z par dps (weighted_sum, total_weight)
      else
        let dx = x - xr_x dp; dy = y - xr_y dp; dz = z - xr_z dp;
            dist = dsqrt (dx * dx + dy * dy + dz * dz);
            h = D 2;
            weight = dexp (- dist * dist / (D 2 * h * h));
            value = (if par then xr_sigma_parallel dp else xr_sigma_perpendicular dp)
        in xrd_sums x y z par dps (weighted_sum + weight * value, total_weight + weight))"

definition interpolate_xrd_data ::
  "paris_params \<Rightarrow> double \<Rightarrow> double \<Rightarrow> double \<Rightarrow> bool \<Rightarrow> double" where
  "interpolate_xrd_data p x y z parallel_component =
     (if par_xrd p = [] then 0
      else
        let (weighted_sum, total_weight) = xrd_sums x y z parallel_component (par_xrd p) (0, 0) in
        if total_weight < D (1 / 10 ^ 10) then
          (if parallel_component then par_residual_parallel p * par_calibration_factor p
           else par_residual_perpendicular p * par_calibration_factor p)
        else weighted_sum / total_weight * par_calibration_factor p)"

definition calculate_residual_stress_at_point ::
  "paris_params \<Rightarrow> double \<Rightarrow> double \<Rightarrow> double \<Rightarrow> double" where
  "calculate_residual_stress_at_point p x y z =
     (if par_xrd p = [] then par_residual_parallel p * par_calibration_factor p
      else interpolate_xrd_data p x y z True)"

fun xrd_totals :: "xrd_data list \<Rightarrow> double \<times> double \<times> nat \<Rightarrow> double \<times> double \<times> nat" where
  "xrd_totals [] acc = acc"
| "xrd_totals (dp # dps) (sum_parallel, sum_perp, valid_count) =
     (if \<not> xr_is_valid dp then xrd_totals dps (sum_parallel, sum_perp, valid_count)
      else xrd_totals dps (sum_parallel + xr_sigma_parallel dp,
        sum_perp + xr_sigma_perpendicular dp, Suc valid_count))"

definition calibrate_with_xrd :: "xrd_data list \<Rightarrow> paris_params \<Rightarrow> paris_params" where
  "calibrate_with_xrd xrd p =
     (if xrd = [] then p
      else
        let p = p\<lparr>par_xrd := xrd\<rparr>;
            (sum_parallel, sum_perp, valid_count) = xrd_totals xrd (0, 0, 0) in
        if 0 < valid_count then
          let avg_parallel = sum_parallel / of_i (int valid_count);
              avg_perp = sum_perp / of_i (int valid_count);
              p = (if D (1 / 10 ^ 6) < \<bar>par_residual_parallel p\<bar> then
                     p\<lparr>par_calibration_factor := std_max (D (1/2))
                       (std_min (D 2) (avg_parallel / par_residual_parallel p))\<rparr>
                   else p)
          in p\<lparr>par_residual_parallel := avg_parallel, par_residual_perpendicular := avg_perp\<rparr>
        else p)"

definition calculate_crack_growth_rate :: "paris_params \<Rightarrow> double \<Rightarrow> double" where
  "calculate_crack_growth_rate p delta_K =
     (if delta_K \<le> 0 then 0 else par_C p * dpow delta_K (par_m p))"

definition critical_crack_length :: "paris_params \<Rightarrow> double" where
  "critical_crack_length p =
     dpow (par_fracture_toughness p / (par_geometric_factor_Y p * par_maximum_stress p)) (D 2) / M_PI"

definition delta_K :: "paris_params \<Rightarrow> double \<Rightarrow> double" where
  "delta_K p a =
     (let sigma_max_eff = calculate_effective_stress p (par_maximum_stress p) 0;
          sigma_min_eff = calculate_effective_stress p (par_minimum_stress p) 0
      in calculate_stress_intensity p a sigma_max_eff - calculate_stress_intensity p a sigma_min_eff)"

definition runge_kutta_step :: "paris_params \<Rightarrow> double \<Rightarrow> double \<Rightarrow> double \<Rightarrow> double" where
  "runge_kutta_step p a t dt =
     (let da_dN = calculate_crack_growth_rate p (delta_K p a);
          cycles_per_sec = par_cyclic_frequency p
      in da_dN * cycles_per_sec * dt)"

partial_function (option) life_loop ::
  "paris_params \<Rightarrow> double \<Rightarrow> double \<Rightarrow> double \<Rightarrow> double \<Rightarrow> double option" where
  "life_loop p critical_length dt a t =
     (if a < critical_length \<and> t < D 100000000 then
        let da = runge_kutta_step p a t dt in
        if da < D (1 / 10 ^ 15) then Some (t + dt)
        else life_loop p critical_length dt (a + da) (t + dt)
      else Some t)"

definition estimate_remaining_life :: "paris_params \<Rightarrow> double \<Rightarrow> double \<Rightarrow> double option" where
  "estimate_remaining_life p initial_length critical_length =
     (if critical_length \<le> initial_length then Some 0
      else map_option (\<lambda>t. t / D 3600) (life_loop p critical_length (D 3600) initial_length 0))"

subsection \<open>Prediction\<close>

definition assess_risk_level :: "paris_result \<Rightarrow> string" where
  "assess_risk_level r =
     (if 0 < pl_time_to_failure_hours r \<and> pl_time_to_failure_hours r < D 720 then ''CRITICAL''
      else
        let growth_rate = (if pl_crack_growth_rate r = [] then 0 else last (pl_crack_growth_rate r)) in
        if D (1 / 10 ^ 8) < growth_rate then ''HIGH''
        else if D (1 / 10 ^ 10) < growth_rate then ''MEDIUM''
        else if D (1 / 10 ^ 12) < growth_rate then ''LOW''
        else ''NEGLIGIBLE'')"

text \<open>One entry of the six series.\<close>

definition push_series ::
  "double \<Rightarrow> double \<Rightarrow> double \<Rightarrow> double \<Rightarrow> double \<Rightarrow> double \<Rightarrow> paris_result \<Rightarrow> paris_result" where
  "push_series t_hours a depth width dK da_dN r =
     r\<lparr>pl_time_hours := pl_time_hours r @ [t_hours], pl_crack_length := pl_crack_length r @ [a],
       pl_crack_depth := pl_crack_depth r @ [depth], pl_crack_width := pl_crack_width r @ [width],
       pl_stress_intensity_range := pl_stress_intensity_range r @ [dK],
       pl_crack_growth_rate := pl_crack_growth_rate r @ [da_dN]\<rparr>"

definition growth_increment :: "paris_params \<Rightarrow> double \<Rightarrow> double \<Rightarrow> double \<Rightarrow> double" where
  "growth_increment p a t dt =
     (let k1 = runge_kutta_step p a t dt;
          k2 = runge_kutta_step p (a + D (1/2) * k1 * dt) (t + D (1/2) * dt) dt;
          k3 = runge_kutta_step p (a + D (1/2) * k2 * dt) (t + D (1/2) * dt) dt;
          k4 = runge_kutta_step p (a + k3 * dt) (t + dt) dt
      in (k1 + D 2 * k2 + D 2 * k3 + k4) * dt / D 6)"

text \<open>The series loop: \<open>n\<close> iterations are left and \<open>i\<close> is the counter.\<close>

fun series_loop ::
  "paris_params \<Rightarrow> double \<Rightarrow> double \<Rightarrow> int \<Rightarrow> double \<times> double \<times> double \<Rightarrow> nat \<Rightarrow> int
     \<Rightarrow> double \<times> double \<times> double \<Rightarrow> paris_result \<Rightarrow> paris_result" where
  "series_loop p dt critical_length time_steps (a0, depth0, width0) 0 i (a, depth, width) r = r"
| "series_loop p dt critical_length time_steps (a0, depth0, width0) (Suc n) i (a, depth, width) r =
     (let t_hours = of_i i * dt / D 3600;
          dK = delta_K p a;
          r = push_series t_hours a depth width dK (calculate_crack_growth_rate p dK) r
      in if i < time_steps then
           let a = a + growth_increment p a (of_i i * dt) dt;
               depth = depth0 + (a - a0) * D (4/10);
               width = width0 + (a - a0) * D (25/100)
           in if critical_length \<le> a then r\<lparr>pl_time_to_failure_hours := t_hours\<rparr>
              else series_loop p dt critical_length time_steps (a0, depth0, width0) n (i + 1)
                (a, depth, width) r
         else series_loop p dt critical_length time_steps (a0, depth0, width0) n (i + 1)
           (a, depth, width) r)"

text \<open>Integer division truncates towards zero; a zero divisor and an overflowing product are
  undefined.\<close>

definition c_div :: "int \<Rightarrow> int \<Rightarrow> int" where
  "c_div a b = (if (a < 0) = (b < 0) then \<bar>a\<bar> div \<bar>b\<bar> else - (\<bar>a\<bar> div \<bar>b\<bar>))"

definition index_720 :: "int \<Rightarrow> int \<Rightarrow> int result" where
  "index_720 time_steps time_horizon_hours =
     (if \<not> (- (2 ^ 31) \<le> 720 * time_steps \<and> 720 * time_steps < 2 ^ 31) then Inl (UB ''signed overflow'')
      else if time_horizon_hours = 0 then Inl (UB ''integer division by zero'')
      else Inr (min time_steps (c_div (720 * time_steps) time_horizon_hours)))"

definition read_720 :: "int \<Rightarrow> paris_result \<Rightarrow> paris_result" where
  "read_720 idx r =
     (if 0 \<le> idx \<and> nat idx < length (pl_crack_length r) then
        r\<lparr>pl_length_720h := pl_crack_length r ! nat idx, pl_depth_720h := pl_crack_depth r ! nat idx,
          pl_width_720h := pl_crack_width r ! nat idx\<rparr>
      else if pl_crack_length r \<noteq> [] then
        r\<lparr>pl_length_720h := last (pl_crack_length r), pl_depth_720h := last (pl_crack_depth r),
          pl_width_720h := last (pl_crack_width r)\<rparr>
      else r)"

definition grade :: "double \<Rightarrow> double \<Rightarrow> double \<Rightarrow> int \<Rightarrow> paris_result \<Rightarrow> paris_result" where
  "grade ttf a0 critical_length time_horizon_hours r =
     (let r = (if pl_time_to_failure_hours r < 0 then r\<lparr>pl_time_to_failure_hours := ttf\<rparr> else r);
          r = r\<lparr>pl_risk_level := assess_risk_level r\<rparr>
      in r\<lparr>pl_confidence :=
           (if 0 < ttf \<and> ttf < of_i time_horizon_hours then D (9/10)
            else if D (1/2) < a0 / critical_length then D (8/10)
            else D (75/100))\<rparr>)"

text \<open>The size the prediction starts from: missing or non-positive measurements get a default.\<close>

definition start_length :: "crack_info \<Rightarrow> double" where
  "start_length crack = (if 0 < ci_total_length crack then ci_total_length crack else D (1/1000))"

definition start_depth :: "crack_info \<Rightarrow> double" where
  "start_depth crack = (if 0 < ci_max_depth crack then ci_max_depth crack else D (5/10000))"

definition start_width :: "crack_info \<Rightarrow> double" where
  "start_width crack = (if 0 < ci_max_width crack then ci_max_width crack else D (1/10000))"

text \<open>\<open>predict\<close> returns the result and the updated model; \<open>None\<close> would be a life estimate that
  never returns.\<close>

definition predict ::
  "crack_info \<Rightarrow> int \<Rightarrow> int \<Rightarrow> paris_params \<Rightarrow> (paris_result result \<times> paris_params) option" where
  "predict crack time_horizon_hours time_steps p =
     (let a0 = start_length crack; depth0 = start_depth crack; width0 = start_width crack;
          result = new_paris_result p;
          p = p\<lparr>par_initial_crack_length := a0\<rparr>;
          dt = of_i time_horizon_hours * D 3600 / of_i time_steps;
          critical_length = critical_crack_length p
      in case estimate_remaining_life p a0 critical_length of
           None \<Rightarrow> None
         | Some ttf \<Rightarrow>
             let result = series_loop p dt critical_length time_steps (a0, depth0, width0)
                   (nat (time_steps + 1)) 0 (a0, depth0, width0) result
             in Some (and_then (index_720 time_steps time_horizon_hours) (\<lambda>idx.
                  Inr (grade ttf a0 critical_length time_horizon_hours (read_720 idx result))), p))"

subsection \<open>Calibration and history\<close>

definition calibrate_with_measurement :: "double list \<Rightarrow> double list \<Rightarrow> paris_params \<Rightarrow> paris_params" where
  "calibrate_with_measurement ts lengths p =
     (if length ts < 2 \<or> length lengths < 2 then p
      else
        let dt = last ts - hd ts; da = last lengths - hd lengths in
        if 0 < dt \<and> 0 < da then
          let avg_length = (last lengths + hd lengths) / D 2;
              delta_stress = par_maximum_stress p - par_minimum_stress p;
              dK = par_geometric_factor_Y p * delta_stress * dsqrt (M_PI * avg_length);
              cycles = par_cyclic_frequency p * dt * D 3600;
              measured_da_dN = da / cycles
          in if 0 < dK then
               p\<lparr>par_C := std_max (D (1 / 10 ^ 12))
                 (std_min (D (1 / 10 ^ 8)) (measured_da_dN / dpow dK (par_m p)))\<rparr>
             else p
        else p)"

text \<open>\<open>duration_cast<hours>\<close> of a time in nanoseconds truncates.\<close>

definition hours_of :: "time_point \<Rightarrow> int" where
  "hours_of t = c_div t (3600 * 10 ^ 9)"

definition predict_with_history ::
  "crack_info \<Rightarrow> crack_info list \<Rightarrow> int \<Rightarrow> paris_params \<Rightarrow> (paris_result result \<times> paris_params) option" where
  "predict_with_history crack history time_horizon_hours p =
     (let p = (if 2 \<le> length history then
                 calibrate_with_measurement (map (\<lambda>h. of_i (hours_of (ci_detected_at h))) history)
                   (map ci_total_length history) p
               else p)
      in predict crack time_horizon_hours 100 p)"

text \<open>\<open>interpolate_history\<close>; reading past the end of \<open>values\<close> is undefined.\<close>

definition at_index :: "double list \<Rightarrow> nat \<Rightarrow> double result" where
  "at_index xs i = (if i < length xs then Inr (xs ! i) else Inl (UB ''vector index''))"

definition back_value :: "double list \<Rightarrow> double result" where
  "back_value xs = (if xs = [] then Inl (UB ''back of an empty vector'') else Inr (last xs))"

definition interpolate_history :: "double list \<Rightarrow> double list \<Rightarrow> double \<Rightarrow> double result" where
  "interpolate_history ts values target_time =
     (if ts = [] then Inr 0
      else if target_time \<le> hd ts then at_index values 0
      else if last ts \<le> target_time then back_value values
      else case find (\<lambda>i. target_time \<le> ts ! i) [1..<length ts] of
          Some i \<Rightarrow>
            (let t = (target_time - ts ! (i - 1)) / (ts ! i - ts ! (i - 1)) in
             and_then (at_index values (i - 1)) (\<lambda>v0. and_then (at_index values i) (\<lambda>v1.
               Inr (v0 + t * (v1 - v0)))))
        | None \<Rightarrow> back_value values)"

definition result_to_json :: "paris_result \<Rightarrow> json" where
  "result_to_json r =
     (let q = pl_parameters r in JObj
       [(''time_hours'', num_array (pl_time_hours r)),
        (''crack_length'', num_array (pl_crack_length r)),
        (''crack_depth'', num_array (pl_crack_depth r)),
        (''crack_width'', num_array (pl_crack_width r)),
        (''stress_intensity_range'', num_array (pl_stress_intensity_range r)),
        (''crack_growth_rate'', num_array (pl_crack_growth_rate r)),
        (''predicted_length_720h'', JNum (pl_length_720h r)),
        (''predicted_depth_720h'', JNum (pl_depth_720h r)),
        (''predicted_width_720h'', JNum (pl_width_720h r)),
        (''time_to_failure_hours'', JNum (pl_time_to_failure_hours r)),
        (''confidence'', JNum (pl_confidence r)),
        (''risk_level'', JStr (pl_risk_level r)),
        (''parameters'', JObj
          [(''C'', JNum (par_C q)), (''m'', JNum (par_m q)),
           (''stress_ratio'', JNum (par_stress_ratio_R q)),
           (''initial_crack_length'', JNum (par_initial_crack_length q)),
           (''maximum_stress'', JNum (par_maximum_stress q)),
           (''fracture_toughness'', JNum (par_fracture_toughness q)),
           (''residual_stress_parallel'', JNum (par_residual_parallel q)),
           (''residual_stress_perpendicular'', JNum (par_residual_perpendicular q)),
           (''residual_stress_calibration_factor'', JNum (par_calibration_factor q)),
           (''enable_residual_stress_correction'', JBool (par_enable_correction q)),
           (''xrd_calibration_points'', JInt (int (length (par_xrd q))))])])"

subsection \<open>The life estimate returns\<close>

text \<open>The clock of the estimate, an exact number of seconds after \<open>k\<close> hours.\<close>

definition hour :: "nat \<Rightarrow> double" where
  "hour k = D (3600 * real k)"

lemma exact_hour: "k \<le> 27778 \<Longrightarrow> exact (3600 * real k)"
  using exact_of_nat [of "3600 * k"] by simp

lemma hour_simps:
  "hour 0 = 0" "k < 27778 \<Longrightarrow> hour k + D 3600 = hour (Suc k)" "\<not> hour 27778 < D 100000000"
  "k \<le> 27778 \<Longrightarrow> hour k / D 3600 = D (real k)"
proof -
  show "hour 0 = 0" "\<not> hour 27778 < D 100000000"
    by (simp_all add: hour_def)
  show "k < 27778 \<Longrightarrow> hour k + D 3600 = hour (Suc k)"
    using D_plus [OF exact_hour [of k], of 3600] by (simp add: hour_def algebra_simps)
  show "k \<le> 27778 \<Longrightarrow> hour k / D 3600 = D (real k)"
    using D_divide [OF exact_hour [of k], of 3600] by (simp add: hour_def)
qed

lemma life_loop_returns:
  assumes "k \<le> 27778"
  shows "\<exists>m \<le> 27778. life_loop p c (D 3600) a (hour k) = Some (hour m)"
  using assms
proof (induction "27778 - k" arbitrary: k a)
  case 0
  then have "k = 27778"
    by simp
  then show ?case
    by (subst life_loop.simps) (auto simp: hour_simps)
next
  case (Suc j)
  then have k: "k < 27778" "j = 27778 - Suc k" "Suc k \<le> 27778"
    by simp_all
  show ?case
  proof (cases "a < c \<and> hour k < D 100000000")
    case True
    then show ?thesis
      using Suc.hyps(1) [OF k(2,3)] k(3)
      by (subst life_loop.simps) (auto simp: Let_def hour_simps(2) [OF k(1)] intro: exI [of _ "Suc k"])
  next
    case False
    then show ?thesis
      using Suc.prems by (subst life_loop.simps) auto
  qed
qed

lemma remaining_life_some: "\<exists>t. estimate_remaining_life p a c = Some t"
  using life_loop_returns [of 0 p c a] by (auto simp: estimate_remaining_life_def hour_simps(1))

text \<open>The life estimate returns for every parameter set, whatever the stresses and even for
  values that are NaN: it takes at most 27778 steps of an hour and the life it reports lies
  between 0 and 27778 hours, and is 0 for a crack that has reached the critical length.\<close>

theorem remaining_life_returns:
  "\<exists>t. estimate_remaining_life p a c = Some t
     \<and> t \<in> (if c \<le> a then {0} else {t. 0 \<le> t \<and> t \<le> D 27778})"
proof (cases "c \<le> a")
  case True
  then show ?thesis
    by (simp add: estimate_remaining_life_def)
next
  case False
  obtain m where m: "m \<le> 27778" "life_loop p c (D 3600) a 0 = Some (hour m)"
    using life_loop_returns [of 0 p c a] by (auto simp: hour_simps(1))
  then show ?thesis
    using False by (simp add: estimate_remaining_life_def hour_simps(4) D_nonneg D_mono)
qed

subsection \<open>Shape of a prediction\<close>

definition series :: "paris_result \<Rightarrow> double list list" where
  "series r = [pl_time_hours r, pl_crack_length r, pl_crack_depth r, pl_crack_width r,
     pl_stress_intensity_range r, pl_crack_growth_rate r]"

lemma push_series_lengths:
  "\<forall>xs \<in> set (series r). length xs = k \<Longrightarrow>
   \<forall>xs \<in> set (series (push_series t a d w dk g r)). length xs = Suc k"
  by (simp add: series_def push_series_def)

lemma series_time_to_failure [simp]: "series (r\<lparr>pl_time_to_failure_hours := t\<rparr>) = series r"
  by (simp add: series_def)

lemma series_loop_lengths:
  "\<forall>xs \<in> set (series r). length xs = k \<Longrightarrow>
   \<exists>m. (0 < n \<longrightarrow> k < m) \<and> k \<le> m \<and> m \<le> k + n \<and>
     (\<forall>xs \<in> set (series (series_loop p dt c s (a0, d0, w0) n i (a, d, w) r)). length xs = m)"
proof (induction n arbitrary: i a d w r k)
  case 0
  then show ?case by auto
next
  case (Suc n)
  define r' where "r' = push_series (of_i i * dt / D 3600) a d w (delta_K p a)
    (calculate_crack_growth_rate p (delta_K p a)) r"
  have r': "\<forall>xs \<in> set (series r'). length xs = Suc k"
    unfolding r'_def by (rule push_series_lengths [OF Suc.prems])
  have ih: "\<exists>m. k < m \<and> m \<le> Suc (k + n) \<and>
      (\<forall>xs \<in> set (series (series_loop p dt c s (a0, d0, w0) n (i + 1) (a', d', w') r')). length xs = m)"
    for a' d' w'
    using Suc.IH [OF r', of "i + 1" a' d' w'] by (auto simp: Suc_le_eq)
  show ?case
  proof (cases "i < s \<and> c \<le> a + growth_increment p a (of_i i * dt) dt")
    case True
    then show ?thesis
      using r' by (auto simp: Let_def r'_def [symmetric] intro!: exI [of _ "Suc k"])
  next
    case False
    then have e: "\<exists>a' d' w'. series_loop p dt c s (a0, d0, w0) (Suc n) i (a, d, w) r =
        series_loop p dt c s (a0, d0, w0) n (i + 1) (a', d', w') r'"
      by (auto simp: Let_def r'_def [symmetric])
    then show ?thesis
      using ih by (metis add_Suc_right less_imp_le)
  qed
qed

lemma series_read [simp]: "series (read_720 idx r) = series r"
  by (simp add: series_def read_720_def)

lemma series_grade [simp]: "series (grade ttf a c h r) = series r"
  by (simp add: series_def grade_def Let_def)

lemma read_720_mem:
  assumes "pl_crack_length r \<noteq> []"
  shows "pl_length_720h (read_720 idx r) \<in> set (pl_crack_length r)"
  using assms by (auto simp: read_720_def intro: nth_mem)

lemma grade_fields [simp]:
  "pl_length_720h (grade ttf a c h r) = pl_length_720h r" "pl_depth_720h (grade ttf a c h r) = pl_depth_720h r"
  "pl_width_720h (grade ttf a c h r) = pl_width_720h r" "pl_crack_length (grade ttf a c h r) = pl_crack_length r"
  "pl_crack_growth_rate (grade ttf a c h r) = pl_crack_growth_rate r"
  by (simp_all add: grade_def Let_def)

text \<open>A prediction over any positive number of steps the index computation can take returns:
  its six series have one and the same length, at least one and at most one more than the steps,
  the size reported for 720 hours is an entry of the length series, and the risk level is one of
  the five grades.\<close>

theorem prediction_shape:
  assumes "0 \<le> steps" and "720 * steps < 2 ^ 31" and "h \<noteq> 0"
  shows "\<exists>r p'. predict crack h steps p = Some (Inr r, p')
    \<and> (\<exists>m \<ge> 1. int m \<le> steps + 1 \<and> (\<forall>xs \<in> set (series r). length xs = m))
    \<and> pl_length_720h r \<in> set (pl_crack_length r)
    \<and> pl_risk_level r \<in> {''CRITICAL'', ''HIGH'', ''MEDIUM'', ''LOW'', ''NEGLIGIBLE''}"
proof -
  define a0 where "a0 = start_length crack"
  define p' where "p' = p\<lparr>par_initial_crack_length := a0\<rparr>"
  define c where "c = critical_crack_length p'"
  define r where "r = series_loop p' (of_i h * D 3600 / of_i steps) c steps
    (a0, start_depth crack, start_width crack) (nat (steps + 1)) 0
    (a0, start_depth crack, start_width crack) (new_paris_result p)"
  obtain ttf where ttf: "estimate_remaining_life p' a0 c = Some ttf"
    using remaining_life_some by blast
  obtain idx where idx: "index_720 steps h = Inr idx"
    using assms by (simp add: index_720_def)
  have e: "predict crack h steps p = Some (Inr (grade ttf a0 c h (read_720 idx r)), p')"
    using ttf idx by (simp add: predict_def Let_def a0_def p'_def c_def r_def)
  obtain m where m: "1 \<le> m" "int m \<le> steps + 1" "\<forall>xs \<in> set (series r). length xs = m"
  proof -
    have z: "\<forall>xs \<in> set (series (new_paris_result p)). length xs = 0"
      by (simp add: series_def new_paris_result_def)
    obtain m where "0 < nat (steps + 1) \<longrightarrow> 0 < m" "m \<le> 0 + nat (steps + 1)"
        "\<forall>xs \<in> set (series r). length xs = m"
      using series_loop_lengths [OF z, of "nat (steps + 1)" p' "of_i h * D 3600 / of_i steps" c steps
          a0 "start_depth crack" "start_width crack" 0 a0 "start_depth crack" "start_width crack"]
      unfolding r_def by (elim exE conjE)
    then show ?thesis
      using assms(1) that [of m] by linarith
  qed
  then have "pl_crack_length r \<noteq> []"
    by (auto simp: series_def)
  then have "pl_length_720h (read_720 idx r) \<in> set (pl_crack_length (read_720 idx r))"
    using read_720_mem [of r idx] series_read [of idx r] by (simp add: series_def)
  moreover have "pl_risk_level (grade ttf a0 c h (read_720 idx r)) \<in>
      {''CRITICAL'', ''HIGH'', ''MEDIUM'', ''LOW'', ''NEGLIGIBLE''}"
    by (simp add: grade_def assess_risk_level_def Let_def)
  ultimately show ?thesis
    using e m by (auto simp del: insert_iff)
qed

text \<open>Calibration keeps the parameters in range, whatever was measured: the Paris constant is
  unchanged or ends between \<open>1e-12\<close> and \<open>1e-8\<close>, the residual-stress factor is unchanged or ends
  between a half and two, even when the measurements give NaN.\<close>

theorem calibration_clamps:
  "(par_C (calibrate_with_measurement ts ls p) = par_C p
     \<or> D (1 / 10 ^ 12) \<le> par_C (calibrate_with_measurement ts ls p)
       \<and> par_C (calibrate_with_measurement ts ls p) \<le> D (1 / 10 ^ 8))
   \<and> (par_calibration_factor (calibrate_with_xrd xrd p) = par_calibration_factor p
     \<or> D (1/2) \<le> par_calibration_factor (calibrate_with_xrd xrd p)
       \<and> par_calibration_factor (calibrate_with_xrd xrd p) \<le> D 2)"
proof -
  have clamp: "D lo \<le> std_max (D lo) (std_min (D hi) x) \<and> std_max (D lo) (std_min (D hi) x) \<le> D hi"
    if "lo \<le> hi" for lo hi x
  proof -
    have "std_min (D hi) x \<le> D hi"
      by (rule std_min_left) simp
    then show ?thesis
      using that by (auto intro: std_max_le std_max_left D_mono)
  qed
  show ?thesis
    using clamp [of "1 / 10 ^ 12" "1 / 10 ^ 8"] clamp [of "1/2" 2]
    by (simp add: calibrate_with_measurement_def calibrate_with_xrd_def Let_def split: prod.splits)
qed

subsection \<open>What the default parameters predict\<close>

text \<open>The start length stored in the model plays no part in the equations.\<close>

lemma start_length_unused [simp]:
  "calculate_effective_stress (p\<lparr>par_initial_crack_length := x\<rparr>) = calculate_effective_stress p"
  "calculate_stress_intensity (p\<lparr>par_initial_crack_length := x\<rparr>) = calculate_stress_intensity p"
  "calculate_crack_growth_rate (p\<lparr>par_initial_crack_length := x\<rparr>) = calculate_crack_growth_rate p"
  "critical_crack_length (p\<lparr>par_initial_crack_length := x\<rparr>) = critical_crack_length p"
  "delta_K (p\<lparr>par_initial_crack_length := x\<rparr>) = delta_K p"
  by (simp_all add: fun_eq_iff calculate_effective_stress_def calculate_stress_intensity_def
      calculate_crack_growth_rate_def critical_crack_length_def delta_K_def)

lemma exact_neg_numeral [simp]: "(numeral n :: int) \<le> 2 ^ 53 \<Longrightarrow> exact (- numeral n)"
  by simp

lemma exact_dyadic_num: "(numeral m :: int) \<le> 2 ^ 53 \<Longrightarrow> k \<le> 1074 \<Longrightarrow> exact (numeral m / 2 ^ k)"
  using exact_dyadic [of "numeral m" k] by simp

lemma exact_neg_dyadic: "(numeral m :: int) \<le> 2 ^ 53 \<Longrightarrow> k \<le> 1074 \<Longrightarrow> exact (- (numeral m / 2 ^ k))"
  by (simp add: exact_dyadic_num)

text \<open>Both stresses are corrected for the residual stress of \<open>-35\<close> MPa, once here...\<close>

lemma default_effective_stress:
  "encl (calculate_effective_stress default_paris (D 25000000) 0) 10990000 11010000"
  "encl (calculate_effective_stress default_paris (D 2500000) 0) (- 11510000) (- 11490000)"
proof -
  have e: "calculate_effective_stress default_paris s 0 = s + D (4/10) * D (- 35000000)" for s
    by (simp add: calculate_effective_stress_def default_paris_def dcos_def dsin_def)
  have al: "encl (D (4/10)) (13107 / 2 ^ 15) (13108 / 2 ^ 15)"
    by (rule encl_D [OF exact_dyadic_num exact_dyadic_num]) simp_all
  have alr: "encl (D (4/10) * D (- 35000000)) (- 14001000) (- 13999000)"
    by (rule encl_times [OF al encl_exact [of "- 35000000"]]) simp_all
  show "encl (calculate_effective_stress default_paris (D 25000000) 0) 10990000 11010000"
    unfolding e by (rule encl_plus [OF encl_exact alr]) simp_all
  show "encl (calculate_effective_stress default_paris (D 2500000) 0) (- 11510000) (- 11490000)"
    unfolding e by (rule encl_plus [OF encl_exact alr]) simp_all
qed

text \<open>... and once more in the stress intensity, which turns the two stresses round.\<close>

definition intensity_stress :: "paris_params \<Rightarrow> double \<Rightarrow> double" where
  "intensity_stress p stress =
     stress * (1 + (par_residual_parallel p * par_calibration_factor p +
         par_residual_perpendicular p * par_calibration_factor p) / (D 2 * \<bar>stress\<bar> + 1))
       + D (3/10) * (par_residual_parallel p * par_calibration_factor p)"

lemma stress_intensity_alt:
  "par_enable_correction p \<Longrightarrow> calculate_stress_intensity p a stress =
     par_geometric_factor_Y p * intensity_stress p stress * dsqrt (M_PI * a)"
  by (simp add: calculate_stress_intensity_def intensity_stress_def Let_def)

lemma encl_one: "encl 1 1 1"
  using encl_exact [of 1] by simp

lemma encl_two: "encl (D 2) 2 2"
  by (rule encl_exact) simp

lemma encl_residual_sum: "encl (D (- 55000000)) (- 55000000) (- 55000000)"
  by (rule encl_exact) simp

lemma residual_share: "encl (D (3/10) * D (- 35000000)) (- 10501000) (- 10499000)"
proof -
  have "encl (D (3/10)) (9830 / 2 ^ 15) (9831 / 2 ^ 15)"
    by (rule encl_D [OF exact_dyadic_num exact_dyadic_num]) simp_all
  then show ?thesis
    by (rule encl_times [OF _ encl_exact [of "- 35000000"]]) simp_all
qed

lemma default_intensity_stress:
  "intensity_stress default_paris s =
     s * (1 + D (- 55000000) / (D 2 * \<bar>s\<bar> + 1)) + D (3/10) * D (- 35000000)"
  by (simp add: intensity_stress_def default_paris_def)

lemma intensity_stress_max:
  assumes "encl s 10990000 11010000"
  shows "intensity_stress default_paris s < 0" and "isfinite (intensity_stress default_paris s)"
proof -
  have "encl \<bar>s\<bar> 10990000 11010000"
    by (rule encl_abs(1) [OF assms]) simp
  then have "encl (D 2 * \<bar>s\<bar>) 21980000 22020000"
    by (rule encl_times [OF encl_two]) simp_all
  then have "encl (D 2 * \<bar>s\<bar> + 1) 21980001 22020001"
    by (rule encl_plus [OF _ encl_one]) simp_all
  then have "encl (D (- 55000000) / (D 2 * \<bar>s\<bar> + 1)) (- (321 / 2 ^ 7)) (- (319 / 2 ^ 7))"
    by (rule encl_divide [OF encl_residual_sum _ _ exact_neg_dyadic exact_neg_dyadic]) simp_all
  then have "encl (1 + D (- 55000000) / (D 2 * \<bar>s\<bar> + 1)) (- (193 / 2 ^ 7)) (- (191 / 2 ^ 7))"
    by (rule encl_plus [OF encl_one _ exact_neg_dyadic exact_neg_dyadic]) simp_all
  then have "encl (s * (1 + D (- 55000000) / (D 2 * \<bar>s\<bar> + 1))) (- 16602000) (- 16398000)"
    by (rule encl_times [OF assms]) simp_all
  then have "encl (intensity_stress default_paris s) (- 27103000) (- 26897000)"
    unfolding default_intensity_stress by (rule encl_plus [OF _ residual_share]) simp_all
  note e = this
  show "intensity_stress default_paris s < 0"
    by (rule encl_neg [OF e]) simp
  show "isfinite (intensity_stress default_paris s)"
    by (rule encl_finite [OF e])
qed

lemma intensity_stress_min:
  assumes "encl s (- 11510000) (- 11490000)"
  shows "0 < intensity_stress default_paris s" and "isfinite (intensity_stress default_paris s)"
proof -
  have "encl \<bar>s\<bar> 11490000 11510000"
    using encl_abs(2) [OF assms] by simp
  then have "encl (D 2 * \<bar>s\<bar>) 22980000 23020000"
    by (rule encl_times [OF encl_two]) simp_all
  then have "encl (D 2 * \<bar>s\<bar> + 1) 22980001 23020001"
    by (rule encl_plus [OF _ encl_one]) simp_all
  then have "encl (D (- 55000000) / (D 2 * \<bar>s\<bar> + 1)) (- (307 / 2 ^ 7)) (- (305 / 2 ^ 7))"
    by (rule encl_divide [OF encl_residual_sum _ _ exact_neg_dyadic exact_neg_dyadic]) simp_all
  then have "encl (1 + D (- 55000000) / (D 2 * \<bar>s\<bar> + 1)) (- (179 / 2 ^ 7)) (- (177 / 2 ^ 7))"
    by (rule encl_plus [OF encl_one _ exact_neg_dyadic exact_neg_dyadic]) simp_all
  then have "encl (s * (1 + D (- 55000000) / (D 2 * \<bar>s\<bar> + 1))) 15888000 16097000"
    by (rule encl_times [OF assms]) simp_all
  then have "encl (intensity_stress default_paris s) 5387000 5598000"
    unfolding default_intensity_stress by (rule encl_plus [OF _ residual_share]) simp_all
  note e = this
  show "0 < intensity_stress default_paris s"
    by (rule encl_pos [OF e]) simp
  show "isfinite (intensity_stress default_paris s)"
    by (rule encl_finite [OF e])
qed

lemma M_PI_encl: "encl M_PI (201 / 2 ^ 6) (202 / 2 ^ 6)"
  unfolding M_PI_def by (rule encl_D [OF exact_dyadic_num exact_dyadic_num]) simp_all

lemma default_delta_K:
  assumes "0 \<le> a"
  shows "delta_K default_paris a \<le> 0"
proof -
  have Y: "par_enable_correction default_paris" "par_geometric_factor_Y default_paris = 1"
      "par_maximum_stress default_paris = D 25000000" "par_minimum_stress default_paris = D 2500000"
    by (simp_all add: default_paris_def)
  have s: "0 \<le> dsqrt (M_PI * a)"
    by (intro dsqrt_nonneg dtimes_pos_nonneg encl_pos [OF M_PI_encl] encl_finite [OF M_PI_encl] assms) simp
  have "intensity_stress default_paris (calculate_effective_stress default_paris (D 25000000) 0) * dsqrt (M_PI * a) \<le> 0"
    by (intro dtimes_neg_nonneg intensity_stress_max default_effective_stress s)
  moreover have "0 \<le> intensity_stress default_paris (calculate_effective_stress default_paris (D 2500000) 0) * dsqrt (M_PI * a)"
    by (intro dtimes_pos_nonneg intensity_stress_min default_effective_stress s)
  ultimately show ?thesis
    unfolding delta_K_def Let_def Y stress_intensity_alt [OF Y(1)] times_one by (rule dminus_nonpos)
qed

lemma default_growth_rate: "0 \<le> a \<Longrightarrow> calculate_crack_growth_rate default_paris (delta_K default_paris a) = 0"
  by (simp add: calculate_crack_growth_rate_def default_delta_K)

lemma dpow_square:
  assumes "encl x l u" and "0 < l" and "u < 1"
  shows "dpow x (D 2) = x * x"
proof -
  obtain r where x: "x = D r" "exact r" "0 < r" "r < 1"
    using assms by (elim enclE) simp
  then have "x \<noteq> 1"
    using D_inj [of r 1] by simp
  then show ?thesis
    using x D_inj [of 2 0] by (simp add: dpow_def pow_fin_def power2_eq_square)
qed

lemma critical_length_encl: "encl (critical_crack_length default_paris) (531 / 2 ^ 20) (535 / 2 ^ 20)"
proof -
  let ?q = "D 1000000 / (1 * D 25000000)"
  have q: "encl ?q (41943 / 2 ^ 20) (41944 / 2 ^ 20)"
    unfolding times_one
    by (rule encl_divide [OF encl_exact encl_exact _ exact_dyadic_num exact_dyadic_num]) simp_all
  have "encl (?q * ?q) (1677 / 2 ^ 20) (1678 / 2 ^ 20)"
    by (rule encl_times [OF q q exact_dyadic_num exact_dyadic_num]) simp_all
  then have "encl (dpow ?q (D 2)) (1677 / 2 ^ 20) (1678 / 2 ^ 20)"
    using dpow_square [OF q] by simp
  then have "encl (dpow ?q (D 2) / M_PI) (531 / 2 ^ 20) (535 / 2 ^ 20)"
    by (rule encl_divide [OF _ M_PI_encl _ exact_dyadic_num exact_dyadic_num]) simp_all
  then show ?thesis
    by (simp add: critical_crack_length_def default_paris_def)
qed

lemma dzero_divide [simp]: "isfinite y \<Longrightarrow> y \<noteq> 0 \<Longrightarrow> 0 / y = (0 :: double)"
  by (auto simp: isfinite_iff) (metis D_divide D_zero divide_eq_0_iff exact_zero)

lemma D_numeral_nonzero [simp]: "(numeral n :: int) \<le> 2 ^ 53 \<Longrightarrow> D (numeral n) \<noteq> 0"
  using D_inj [of "numeral n" 0] by simp

text \<open>With a zero rate at the current length the four stages of a step are all zero.\<close>

lemma no_growth_increment:
  assumes "calculate_crack_growth_rate p (delta_K p a) = 0"
    and "isfinite (par_cyclic_frequency p)" and "isfinite dt"
  shows "growth_increment p a t dt = 0"
proof -
  have "runge_kutta_step p a t' dt = 0" for t'
    using assms by (simp add: runge_kutta_step_def)
  then show ?thesis
    using assms(3) by (simp add: growth_increment_def)
qed

lemma series_loop_constant:
  assumes "\<And>t. growth_increment p a0 t dt = 0" and "a0 < c" and "isfinite a0"
    and "calculate_crack_growth_rate p (delta_K p a0) = 0"
  shows "\<exists>ts. series_loop p dt c s (a0, d0, w0) n i (a0, d0, w0) r =
    r\<lparr>pl_time_hours := pl_time_hours r @ ts, pl_crack_length := pl_crack_length r @ replicate n a0,
      pl_crack_depth := pl_crack_depth r @ replicate n d0,
      pl_crack_width := pl_crack_width r @ replicate n w0,
      pl_stress_intensity_range := pl_stress_intensity_range r @ replicate n (delta_K p a0),
      pl_crack_growth_rate := pl_crack_growth_rate r @ replicate n 0\<rparr>"
proof (induction n arbitrary: i r)
  case 0
  show ?case by (rule exI [of _ "[]"]) simp
next
  case (Suc n)
  have z: "a0 - a0 = 0"
    using assms(3) by (cases a0) simp_all
  have step: "series_loop p dt c s (a0, d0, w0) (Suc n) i (a0, d0, w0) r =
      series_loop p dt c s (a0, d0, w0) n (i + 1) (a0, d0, w0)
        (push_series (of_i i * dt / D 3600) a0 d0 w0 (delta_K p a0) 0 r)"
    using assms(1,4) dless_not_sym [OF assms(2)] by (simp add: Let_def z)
  obtain ts where ts: "series_loop p dt c s (a0, d0, w0) (Suc n) i (a0, d0, w0) r =
      (push_series (of_i i * dt / D 3600) a0 d0 w0 (delta_K p a0) 0 r)
       \<lparr>pl_time_hours := (pl_time_hours r @ [of_i i * dt / D 3600]) @ ts,
        pl_crack_length := (pl_crack_length r @ [a0]) @ replicate n a0,
        pl_crack_depth := (pl_crack_depth r @ [d0]) @ replicate n d0,
        pl_crack_width := (pl_crack_width r @ [w0]) @ replicate n w0,
        pl_stress_intensity_range := (pl_stress_intensity_range r @ [delta_K p a0]) @ replicate n (delta_K p a0),
        pl_crack_growth_rate := (pl_crack_growth_rate r @ [0]) @ replicate n 0\<rparr>"
    using Suc.IH [of "i + 1" "push_series (of_i i * dt / D 3600) a0 d0 w0 (delta_K p a0) 0 r"]
    unfolding step by (auto simp: push_series_def)
  show ?case
    by (rule exI [of _ "(of_i i * dt / D 3600) # ts"]) (simp only: ts, simp add: push_series_def)
qed

lemma start_length_pos: "0 < start_length crack"
  using encl_pos [OF encl_D [of "1 / 2 ^ 10" 1 "1 / 1000"]] exact_dyadic [of 1 10]
  by (auto simp: start_length_def)

lemma small_not_negative: "0 \<le> r \<Longrightarrow> \<not> D r < 0"
  using D_nonneg [of r] dless_not_sym by blast

lemma step_finite:
  assumes "1 < h" and "h < 2 ^ 31"
  shows "isfinite (of_i h * D 3600 / of_i 100)"
proof -
  have e: "exact (of_int h)" "exact (of_int h * 3600)" "exact (of_int h * 36)"
    using assms exact_of_int [of h] exact_of_int [of "h * 3600"] exact_of_int [of "h * 36"] by simp_all
  have "of_i h * D 3600 = D (of_int h * 3600)"
    using D_times [OF e(1), of 3600] by (simp add: of_i_def)
  moreover have "D (of_int h * 3600) / of_i 100 = D (of_int h * 36)"
    using D_divide [OF e(2), of 100] by (simp add: of_i_def mult.commute)
  ultimately show ?thesis
    using e(3) by simp
qed

lemma default_frequency: "isfinite (par_cyclic_frequency default_paris)"
proof -
  have "1 / D 10800 = D (1 / 10800)"
    using D_divide [of 1 10800] by simp
  then show ?thesis
    by (simp add: default_paris_def)
qed

lemma read_720_constant:
  assumes "pl_crack_length r = replicate n a" and "pl_crack_depth r = replicate n d"
    and "pl_crack_width r = replicate n w" and "0 < n"
  shows "pl_length_720h (read_720 idx r) = a \<and> pl_depth_720h (read_720 idx r) = d
    \<and> pl_width_720h (read_720 idx r) = w
    \<and> pl_crack_growth_rate (read_720 idx r) = pl_crack_growth_rate r
    \<and> pl_time_to_failure_hours (read_720 idx r) = pl_time_to_failure_hours r"
  using assms by (simp add: read_720_def)

lemma index_720_ok: "1 < h \<Longrightarrow> \<exists>idx. index_720 100 h = Inr idx"
  by (simp add: index_720_def)

text \<open>The two cases of a prediction without growth.\<close>

lemma short_crack_series:
  assumes "a0 < c" and "isfinite dt" and "0 < a0" and "isfinite a0"
  shows "\<exists>r. series_loop default_paris dt c 100 (a0, d0, w0) 101 0 (a0, d0, w0) (new_paris_result p) = r
    \<and> pl_crack_length r = replicate 101 a0 \<and> pl_crack_depth r = replicate 101 d0
    \<and> pl_crack_width r = replicate 101 w0 \<and> pl_crack_growth_rate r = replicate 101 0
    \<and> pl_time_to_failure_hours r = D (- 1)"
proof -
  have rate: "calculate_crack_growth_rate default_paris (delta_K default_paris a0) = 0"
    using assms(3) by (simp add: default_growth_rate dless_imp_le)
  obtain ts where "series_loop default_paris dt c 100 (a0, d0, w0) 101 0 (a0, d0, w0) (new_paris_result p) =
    (new_paris_result p)\<lparr>pl_time_hours := ts, pl_crack_length := replicate 101 a0,
      pl_crack_depth := replicate 101 d0, pl_crack_width := replicate 101 w0,
      pl_stress_intensity_range := replicate 101 (delta_K default_paris a0),
      pl_crack_growth_rate := replicate 101 0\<rparr>"
    using series_loop_constant [OF no_growth_increment [OF rate default_frequency assms(2)] assms(1,4) rate,
        of 100 d0 w0 101 0 "new_paris_result p"]
    by (auto simp: new_paris_result_def)
  then show ?thesis
    by (simp add: new_paris_result_def)
qed

lemma long_crack_series:
  assumes "c \<le> a0" and "isfinite dt" and "0 < a0"
  shows "\<exists>r. series_loop default_paris dt c 100 (a0, d0, w0) 101 0 (a0, d0, w0) (new_paris_result p) = r
    \<and> pl_crack_length r = [a0] \<and> pl_crack_depth r = [d0] \<and> pl_crack_width r = [w0]
    \<and> pl_crack_growth_rate r = [0] \<and> pl_time_to_failure_hours r = 0"
proof -
  have rate: "calculate_crack_growth_rate default_paris (delta_K default_paris a0) = 0"
    using assms(3) by (simp add: default_growth_rate dless_imp_le)
  have "series_loop default_paris dt c 100 (a0, d0, w0) (Suc 100) 0 (a0, d0, w0) (new_paris_result p) =
      (push_series (of_i 0 * dt / D 3600) a0 d0 w0 (delta_K default_paris a0) 0 (new_paris_result p))
        \<lparr>pl_time_to_failure_hours := of_i 0 * dt / D 3600\<rparr>"
    unfolding series_loop.simps(2) Let_def rate
    using assms(1) no_growth_increment [OF rate default_frequency assms(2)] by simp
  moreover have "of_i 0 * dt / D 3600 = 0"
    using assms(2) by (simp add: of_i_def)
  ultimately show ?thesis
    by (simp add: push_series_def new_paris_result_def)
qed

lemma series_start_unused [simp]:
  "series_loop (p\<lparr>par_initial_crack_length := x\<rparr>) dt c s (a0, d0, w0) n i (a, d, w) r =
   series_loop p dt c s (a0, d0, w0) n i (a, d, w) r"
proof (induction n arbitrary: i a d w r)
  case 0
  show ?case by simp
next
  case (Suc n)
  have "runge_kutta_step (p\<lparr>par_initial_crack_length := x\<rparr>) = runge_kutta_step p"
    by (intro ext) (simp add: runge_kutta_step_def)
  then have "growth_increment (p\<lparr>par_initial_crack_length := x\<rparr>) = growth_increment p"
    by (intro ext) (simp add: growth_increment_def)
  then show ?case
    by (simp only: series_loop.simps(2) start_length_unused Suc.IH)
qed

lemma default_life:
  assumes "a0 < c" and "0 < a0"
  shows "estimate_remaining_life (default_paris\<lparr>par_initial_crack_length := x\<rparr>) a0 c = Some 1"
proof -
  have tiny: "0 < D (1 / 10 ^ 15)"
    using encl_pos [OF encl_D [of "1 / 2 ^ 50" 1 "1 / 10 ^ 15"]] exact_dyadic [of 1 50] by simp
  have "runge_kutta_step (default_paris\<lparr>par_initial_crack_length := x\<rparr>) a0 0 (D 3600) = 0"
    using default_growth_rate [of a0] assms(2) default_frequency
    by (simp add: runge_kutta_step_def dless_imp_le)
  then have "life_loop (default_paris\<lparr>par_initial_crack_length := x\<rparr>) c (D 3600) a0 0 = Some (D 3600)"
    using assms(1) tiny by (subst life_loop.simps) simp
  then show ?thesis
    using dless_not_sym [OF assms(1)] by (simp add: estimate_remaining_life_def)
qed

lemma predict_default_unfold:
  assumes "estimate_remaining_life (default_paris\<lparr>par_initial_crack_length := start_length crack\<rparr>)
      (start_length crack) (critical_crack_length default_paris) = Some ttf"
    and "index_720 100 h = Inr idx"
  shows "\<exists>p'. predict crack h 100 (default_paris\<lparr>par_initial_crack_length := x\<rparr>) = Some (Inr (grade ttf (start_length crack)
      (critical_crack_length default_paris) h (read_720 idx (series_loop default_paris
        (of_i h * D 3600 / of_i 100) (critical_crack_length default_paris) 100
        (start_length crack, start_depth crack, start_width crack) 101 0
        (start_length crack, start_depth crack, start_width crack) (new_paris_result (default_paris\<lparr>par_initial_crack_length := x\<rparr>))))), p')"
  using assms by (simp add: predict_def Let_def)

lemma grade_verdicts:
  "pl_time_to_failure_hours q = D (- 1) \<Longrightarrow>
     (pl_time_to_failure_hours (grade 1 a c h q), pl_risk_level (grade 1 a c h q)) = (1, ''CRITICAL'')"
  "pl_time_to_failure_hours q = 0 \<Longrightarrow> pl_crack_growth_rate q = [0] \<Longrightarrow>
     (pl_time_to_failure_hours (grade 0 a c h q), pl_risk_level (grade 0 a c h q)) = (0, ''NEGLIGIBLE'')"
proof -
  have "1 < D 720"
    using D_less [of 1 720] by simp
  then show "pl_time_to_failure_hours q = D (- 1) \<Longrightarrow>
      (pl_time_to_failure_hours (grade 1 a c h q), pl_risk_level (grade 1 a c h q)) = (1, ''CRITICAL'')"
    by (simp add: grade_def assess_risk_level_def Let_def)
  show "pl_time_to_failure_hours q = 0 \<Longrightarrow> pl_crack_growth_rate q = [0] \<Longrightarrow>
      (pl_time_to_failure_hours (grade 0 a c h q), pl_risk_level (grade 0 a c h q)) = (0, ''NEGLIGIBLE'')"
    by (simp add: grade_def assess_risk_level_def Let_def small_not_negative)
qed

lemma default_verdict_any_start:
  assumes "1 < h" and "h < 2 ^ 31"
  shows "\<exists>r p'. predict crack h 100 (default_paris\<lparr>par_initial_crack_length := x\<rparr>) = Some (Inr r, p')
    \<and> set (pl_crack_growth_rate r) = {0}
    \<and> pl_length_720h r = start_length crack \<and> pl_depth_720h r = start_depth crack
    \<and> pl_width_720h r = start_width crack
    \<and> encl (critical_crack_length default_paris) (531 / 2 ^ 20) (535 / 2 ^ 20)
    \<and> (pl_time_to_failure_hours r, pl_risk_level r) =
        (if start_length crack < critical_crack_length default_paris then (1, ''CRITICAL'')
         else (0, ''NEGLIGIBLE''))"
proof -
  define a0 c dt where "a0 = start_length crack" and "c = critical_crack_length default_paris"
    and "dt = of_i h * D 3600 / of_i 100"
  note defs = a0_def [symmetric] c_def [symmetric] dt_def [symmetric]
  have dt: "isfinite dt"
    unfolding dt_def using assms by (rule step_finite)
  have a0: "0 < a0"
    unfolding a0_def by (rule start_length_pos)
  have c: "c \<noteq> NAN" "isfinite c"
    using encl_finite [OF critical_length_encl] unfolding c_def by (auto simp: isfinite_iff)
  obtain idx where idx: "index_720 100 h = Inr idx"
    using index_720_ok [OF assms(1)] by blast
  show ?thesis
  proof (cases "a0 < c")
    case True
    then have fin: "isfinite a0"
      using a0 c(2) by (cases a0) (auto simp: isfinite_iff)
    obtain r where r: "series_loop default_paris dt c 100 (a0, start_depth crack, start_width crack) 101 0
          (a0, start_depth crack, start_width crack) (new_paris_result (default_paris\<lparr>par_initial_crack_length := x\<rparr>)) = r"
        "pl_crack_length r = replicate 101 a0" "pl_crack_depth r = replicate 101 (start_depth crack)"
        "pl_crack_width r = replicate 101 (start_width crack)" "pl_crack_growth_rate r = replicate 101 0"
        "pl_time_to_failure_hours r = D (- 1)"
      using short_crack_series [OF True dt a0 fin] by blast
    let ?g = "grade 1 a0 c h (read_720 idx r)"
    obtain p' where "predict crack h 100 (default_paris\<lparr>par_initial_crack_length := x\<rparr>) = Some (Inr ?g, p')"
      using predict_default_unfold [of crack 1 h idx x, unfolded defs, OF default_life [OF True a0] idx]
      unfolding r(1) by blast
    then show ?thesis
      unfolding defs using read_720_constant [OF r(2,3,4), of idx] r(5,6) True critical_length_encl [unfolded defs]
        grade_verdicts(1) [of "read_720 idx r" a0 c h]
      by (intro exI [of _ ?g] exI [of _ p']) simp
  next
    case False
    then have le: "c \<le> a0"
      using dnot_less [of a0 c] a0 c(1) dless_not_nan by blast
    obtain r where r: "series_loop default_paris dt c 100 (a0, start_depth crack, start_width crack) 101 0
          (a0, start_depth crack, start_width crack) (new_paris_result (default_paris\<lparr>par_initial_crack_length := x\<rparr>)) = r"
        "pl_crack_length r = [a0]" "pl_crack_depth r = [start_depth crack]"
        "pl_crack_width r = [start_width crack]" "pl_crack_growth_rate r = [0]"
        "pl_time_to_failure_hours r = 0"
      using long_crack_series [OF le dt a0] by blast
    let ?g = "grade 0 a0 c h (read_720 idx r)"
    have "estimate_remaining_life (default_paris\<lparr>par_initial_crack_length := a0\<rparr>) a0 c = Some 0"
      using le by (simp add: estimate_remaining_life_def)
    then obtain p' where "predict crack h 100 (default_paris\<lparr>par_initial_crack_length := x\<rparr>) = Some (Inr ?g, p')"
      using predict_default_unfold [of crack 0 h idx x, unfolded defs, OF _ idx] unfolding r(1) by blast
    then show ?thesis
      unfolding defs using read_720_constant [of r 1 a0 "start_depth crack" "start_width crack" idx]
        r(2-6) False critical_length_encl [unfolded defs] grade_verdicts(2) [of "read_720 idx r" a0 c h]
      by (intro exI [of _ ?g] exI [of _ p']) simp
  qed
qed

text \<open>C1: With the default parameters, which are the only ones the program ever uses, no crack is
  predicted to grow: the residual stress is subtracted twice, so the stress-intensity range is
  never positive. Every growth rate is zero, the size predicted for 720 hours is today's, and the
  verdict is upside down: a crack shorter than the critical length (about half a millimetre when
  lengths are metres) is CRITICAL with one hour to live, a longer one is NEGLIGIBLE.\<close>

theorem default_verdict:
  assumes "1 < h" and "h < 2 ^ 31"
  shows "\<exists>r p'. predict crack h 100 default_paris = Some (Inr r, p')
    \<and> set (pl_crack_growth_rate r) = {0}
    \<and> pl_length_720h r = start_length crack \<and> pl_depth_720h r = start_depth crack
    \<and> pl_width_720h r = start_width crack
    \<and> encl (critical_crack_length default_paris) (531 / 2 ^ 20) (535 / 2 ^ 20)
    \<and> (pl_time_to_failure_hours r, pl_risk_level r) =
        (if start_length crack < critical_crack_length default_paris then (1, ''CRITICAL'')
         else (0, ''NEGLIGIBLE''))"
proof -
  have "default_paris\<lparr>par_initial_crack_length := 0\<rparr> = default_paris"
    by (simp add: default_paris_def)
  then show ?thesis
    using default_verdict_any_start [OF assms, of crack 0] by simp
qed

subsection \<open>Concrete predictions\<close>

definition sample_crack :: "double \<Rightarrow> crack_info" where
  "sample_crack l = \<lparr>ci_id = 1, ci_porcelain_id = 4, ci_crack_code = ''c'', ci_max_depth = D 250,
     ci_max_width = D 60, ci_total_length = l, ci_status = [], ci_points = [], ci_detected_at = 0\<rparr>"

lemma long_start:
  assumes "exact l" and "1 \<le> l" and "ci_total_length crack = D l"
  shows "\<not> start_length crack < critical_crack_length default_paris"
proof -
  have "encl (start_length crack) l l"
    using assms encl_exact [of l] by (simp add: start_length_def)
  then have "critical_crack_length default_paris < start_length crack"
    by (rule encl_less [OF critical_length_encl]) (use assms in simp)
  then show ?thesis
    by (meson dless_imp_le dless_not_sym)
qed

theorem default_verdict_witness:
  "\<exists>r p'. predict (sample_crack (D 10)) 720 100 default_paris = Some (Inr r, p')
    \<and> pl_length_720h r = D 10 \<and> pl_risk_level r = ''NEGLIGIBLE''"
proof -
  have "start_length (sample_crack (D 10)) = D 10"
    by (simp add: start_length_def sample_crack_def)
  moreover have "\<not> start_length (sample_crack (D 10)) < critical_crack_length default_paris"
    by (rule long_start [of 10]) (simp_all add: sample_crack_def)
  ultimately show ?thesis
    using default_verdict [of 720 "sample_crack (D 10)"] by auto
qed

theorem prediction_shape_witness:
  "\<exists>r p'. predict (sample_crack (D 10)) 720 100 default_paris = Some (Inr r, p')
    \<and> pl_length_720h r \<in> set (pl_crack_length r)"
  using prediction_shape [of 100 720 "sample_crack (D 10)" default_paris] by auto

end
