(* ===== verification/Module_Pipeline.thy ===== *)
theory Module_Pipeline
  imports Data_Model Lockfree_Queue
begin

section \<open>Pipeline modules (include/module_base.h, modules/fanout_module.h, crack_router_module.h)\<close>

text \<open>
  A module owns an input and an output queue (a shared pointer, null until it is wired) and a
  thread that pops a message, processes it and counts it when \<open>process\<close> returned. One run of the
  loop body is \<open>module_iteration\<close>; the module's own state \<open>'s\<close> includes the queues it writes to.
\<close>

subsection \<open>The module loop\<close>

record ('i, 's) modul =
  m_input :: "'i lfq option"
  m_state :: 's
  m_running :: bool
  m_thread :: bool
  m_processed :: u64
  m_errors :: "cpp_error list"

type_synonym ('i, 's) process = "'i \<Rightarrow> 's \<Rightarrow> 's \<times> cpp_error option"

definition new_module :: "'s \<Rightarrow> ('i, 's) modul" where
  "new_module s = \<lparr>m_input = None, m_state = s, m_running = False, m_thread = False,
     m_processed = 0, m_errors = []\<rparr>"

definition set_input :: "'i lfq option \<Rightarrow> ('i, 's) modul \<Rightarrow> ('i, 's) modul" where
  "set_input q m = m\<lparr>m_input := q\<rparr>"

definition module_start :: "('i, 's) modul \<Rightarrow> ('i, 's) modul" where
  "module_start m = (if m_running m then m else m\<lparr>m_running := True, m_thread := True\<rparr>)"

definition module_stop :: "('i, 's) modul \<Rightarrow> ('i, 's) modul" where
  "module_stop m = m\<lparr>m_running := False, m_thread := False\<rparr>"

text \<open>\<open>input_ && input_->try_pop(msg)\<close>, then \<open>process\<close> inside the \<open>try\<close> block; a caught exception
  is printed (recorded here) and the message is gone; an empty or missing queue sleeps.\<close>

definition module_iteration :: "('i, 's) process \<Rightarrow> ('i, 's) modul \<Rightarrow> ('i, 's) modul result" where
  "module_iteration process m =
     (case m_input m of
        None \<Rightarrow> Inr m
      | Some q \<Rightarrow>
          (case try_pop q of
             None \<Rightarrow> Inr m
           | Some (msg, q') \<Rightarrow>
               (case process msg (m_state m) of
                  (s', None) \<Rightarrow> Inr (m\<lparr>m_input := Some q', m_state := s', m_processed := m_processed m + 1\<rparr>)
                | (s', Some (UB e)) \<Rightarrow> Inl (UB e)
                | (s', Some e) \<Rightarrow>
                    Inr (m\<lparr>m_input := Some q', m_state := s', m_errors := m_errors m @ [e]\<rparr>))))"

fun run_loop :: "nat \<Rightarrow> ('i, 's) process \<Rightarrow> ('i, 's) modul \<Rightarrow> ('i, 's) modul result" where
  "run_loop 0 process m = Inr m"
| "run_loop (Suc n) process m =
     (if m_running m then and_then (module_iteration process m) (run_loop n process) else Inr m)"

text \<open>What processing a list of messages does to the module's state, and how many succeed.\<close>

fun process_all :: "('i, 's) process \<Rightarrow> 'i list \<Rightarrow> 's \<Rightarrow> 's" where
  "process_all process [] s = s"
| "process_all process (x # xs) s = process_all process xs (fst (process x s))"

fun count_ok :: "('i, 's) process \<Rightarrow> 'i list \<Rightarrow> 's \<Rightarrow> nat" where
  "count_ok process [] s = 0"
| "count_ok process (x # xs) s =
     (if snd (process x s) = None then 1 else 0) + count_ok process xs (fst (process x s))"

definition process_total :: "('i, 's) process \<Rightarrow> bool" where
  "process_total process \<longleftrightarrow> (\<forall>x s e. snd (process x s) \<noteq> Some (UB e))"

lemma run_loop_idle:
  assumes "m_input m = Some q" and "queue_ok q" and "queue_contents q = []"
  shows "run_loop n process m = Inr m"
  using assms by (induction n) (simp_all add: module_iteration_def try_pop_cases)

lemma module_iteration_step:
  assumes "process_total process" and "m_input m = Some q" and "queue_ok q"
    and "queue_contents q = x # xs"
  shows "\<exists>m'. module_iteration process m = Inr m' \<and> m_running m' = m_running m
    \<and> (\<exists>q'. m_input m' = Some q' \<and> queue_ok q' \<and> queue_contents q' = xs)
    \<and> m_state m' = fst (process x (m_state m))
    \<and> m_processed m' = m_processed m + (if snd (process x (m_state m)) = None then 1 else 0)"
proof -
  obtain q' where pop: "try_pop q = Some (x, q')"
    using assms(3,4) by (simp add: try_pop_cases)
  then have q': "queue_ok q'" "queue_contents q' = xs"
    using pop_state [OF assms(3) pop] assms(4) by simp_all
  obtain s' e where p: "process x (m_state m) = (s', e)"
    by (cases "process x (m_state m)")
  have nu: "\<And>u. e \<noteq> Some (UB u)"
    using assms(1) unfolding process_total_def by (metis p snd_conv)
  show ?thesis
    using assms(2) pop q' p nu
    by (cases e) (auto simp: module_iteration_def split: cpp_error.splits)
qed

text \<open>C27: A running module that is given enough turns processes every queued message exactly once
  and in queue order, empties its queue, and counts exactly the messages whose processing did
  not throw: an exception costs the one message that raised it.\<close>

theorem run_loop_drains:
  assumes "process_total process" and "m_running m" and "m_input m = Some q" and "queue_ok q"
    and "length (queue_contents q) \<le> n"
  shows "\<exists>m'. run_loop n process m = Inr m'
    \<and> map_option queue_contents (m_input m') = Some []
    \<and> m_state m' = process_all process (queue_contents q) (m_state m)
    \<and> m_processed m' = m_processed m + word_of_nat (count_ok process (queue_contents q) (m_state m))"
  using assms
proof (induction n arbitrary: m q)
  case 0
  then show ?case
    by simp
next
  case (Suc n)
  show ?case
  proof (cases "queue_contents q")
    case Nil
    then show ?thesis
      using run_loop_idle [of m q "Suc n" process] Suc.prems by simp
  next
    case (Cons x xs)
    obtain m1 q1 where m1: "module_iteration process m = Inr m1" "m_running m1"
      "m_input m1 = Some q1" "queue_ok q1" "queue_contents q1 = xs"
      "m_state m1 = fst (process x (m_state m))"
      "m_processed m1 = m_processed m + (if snd (process x (m_state m)) = None then 1 else 0)"
      using module_iteration_step [OF Suc.prems(1,3,4) Cons] Suc.prems(2) by auto
    then show ?thesis
      using Suc.IH [OF Suc.prems(1) m1(2-4)] Suc.prems(2,5) Cons by auto
  qed
qed

subsection \<open>FanOut\<close>

text \<open>The state is the primary output and the extra ones; a null pointer is skipped.\<close>

record 'a fanout =
  fo_primary :: "'a lfq option"
  fo_extra :: "'a lfq option list"

definition add_output :: "'a lfq option \<Rightarrow> 'a fanout \<Rightarrow> 'a fanout" where
  "add_output q f = f\<lparr>fo_extra := fo_extra f @ [q]\<rparr>"

definition fanout_process :: "('a, 'a fanout) process" where
  "fanout_process msg f =
     (f\<lparr>fo_primary := map_option (push msg) (fo_primary f),
        fo_extra := map (map_option (push msg)) (fo_extra f)\<rparr>, None)"

definition fanout_outputs :: "'a fanout \<Rightarrow> 'a list option list" where
  "fanout_outputs f = map (map_option queue_contents) (fo_primary f # fo_extra f)"

definition fanout_ok :: "'a fanout \<Rightarrow> bool" where
  "fanout_ok f \<longleftrightarrow> list_all (\<lambda>q. case q of None \<Rightarrow> True | Some q \<Rightarrow> queue_ok q) (fo_primary f # fo_extra f)"

lemma fanout_process_ok: "fanout_ok f \<Longrightarrow> fanout_ok (fst (fanout_process msg f))"
  by (auto simp: fanout_ok_def fanout_process_def push_ok list_all_iff split: option.splits)

lemma fanout_process_outputs:
  "fanout_ok f \<Longrightarrow> fanout_outputs (fst (fanout_process msg f)) =
     map (map_option (\<lambda>xs. xs @ [msg])) (fanout_outputs f)"
  by (auto simp: fanout_ok_def fanout_outputs_def fanout_process_def option.map_comp comp_def
      list_all_iff push_contents split: option.splits intro!: option.map_cong)

lemma fanout_all:
  "fanout_ok f \<Longrightarrow>
     fanout_outputs (process_all fanout_process msgs f) =
       map (map_option (\<lambda>xs. xs @ msgs)) (fanout_outputs f)
     \<and> fanout_ok (process_all fanout_process msgs f)"
proof (induction msgs arbitrary: f)
  case Nil
  then show ?case
    by (simp add: map_idI option.map_ident)
next
  case (Cons x xs)
  then show ?case
    using Cons.IH [OF fanout_process_ok [OF Cons.prems, of x]]
    by (simp add: fanout_process_outputs option.map_comp comp_def)
qed

subsection \<open>The crack router\<close>

record crack_detection =
  cd_laser_data :: laser_data
  cd_porcelain_id :: int
  cd_cracks :: "crack_info list"
  cd_crack_points :: "point3d list list"

definition crack_router_process :: "(laser_data, crack_detection lfq option) process" where
  "crack_router_process d out =
     (if \<not> ld_crack_detected d \<or> ld_cracks d = [] then (out, None)
      else (map_option (push \<lparr>cd_laser_data = d, cd_porcelain_id = ld_porcelain_id d,
              cd_cracks = ld_cracks d, cd_crack_points = map ci_points (ld_cracks d)\<rparr>) out, None))"

definition routed :: "laser_data \<Rightarrow> bool" where
  "routed d \<longleftrightarrow> ld_crack_detected d \<and> ld_cracks d \<noteq> []"

definition detection_of :: "laser_data \<Rightarrow> crack_detection" where
  "detection_of d = \<lparr>cd_laser_data = d, cd_porcelain_id = ld_porcelain_id d,
     cd_cracks = ld_cracks d, cd_crack_points = map ci_points (ld_cracks d)\<rparr>"

text \<open>The router forwards, in order, one detection for each laser message that reports a crack
  and carries at least one, and nothing for the others.\<close>

theorem crack_router_filters:
  assumes "queue_ok q"
  shows "map_option queue_contents (process_all crack_router_process ds (Some q)) =
    Some (queue_contents q @ map detection_of (filter routed ds))"
  using assms
proof (induction ds arbitrary: q)
  case Nil
  then show ?case by simp
next
  case (Cons d ds)
  show ?case
  proof (cases "routed d")
    case True
    then have "fst (crack_router_process d (Some q)) = Some (push (detection_of d) q)"
      by (auto simp: crack_router_process_def routed_def detection_of_def)
    then show ?thesis
      using True Cons.IH [OF push_ok [OF Cons.prems]] by (simp add: push_contents Cons.prems)
  next
    case False
    then have "fst (crack_router_process d (Some q)) = Some q"
      by (auto simp: crack_router_process_def routed_def)
    then show ?thesis
      using False Cons by simp
  qed
qed

subsection \<open>Wiring (src/main.cpp)\<close>

text \<open>
  Queues are shared objects, so modules refer to them by number; \<open>None\<close> is a null pointer, as
  every module's input is before \<open>set_input\<close>. The profinet parser and the alert module have
  outputs and inputs of their own. What the fatigue predictor and the simulator compute from a
  detection is a parameter of their turns.
\<close>

datatype pipeline_msg =
    Laser_msg laser_data
  | Vibration_msg vibration_data
  | Crack_msg crack_detection
  | Prediction_msg crack_prediction
  | Dem_msg repair_simulation

record pipeline =
  pl_queues :: "nat \<Rightarrow> pipeline_msg lfq"
  pl_allocated :: nat
  pl_profinet_laser_out :: "nat option"
  pl_profinet_vibration_out :: "nat option"
  pl_laser_fanout_in :: "nat option"
  pl_laser_fanout_out :: "nat option list"
  pl_router_in :: "nat option"
  pl_router_out :: "nat option"
  pl_crack_fanout_in :: "nat option"
  pl_crack_fanout_out :: "nat option list"
  pl_fatigue_in :: "nat option"
  pl_fatigue_out :: "nat option"
  pl_dem_in :: "nat option"
  pl_dem_out :: "nat option"
  pl_alert_laser :: "nat option"
  pl_alert_vibration :: "nat option"
  pl_alert_prediction :: "nat option"
  pl_alert_dem :: "nat option"

text \<open>After the constructors: the parser owns two queues, the alert module four, everybody else
  has null pointers.\<close>

definition new_pipeline :: pipeline where
  "new_pipeline =
     \<lparr>pl_queues = (\<lambda>_. new_queue), pl_allocated = 2,
      pl_profinet_laser_out = Some 0, pl_profinet_vibration_out = Some 1,
      pl_laser_fanout_in = None, pl_laser_fanout_out = [None],
      pl_router_in = None, pl_router_out = None,
      pl_crack_fanout_in = None, pl_crack_fanout_out = [None],
      pl_fatigue_in = None, pl_fatigue_out = None, pl_dem_in = None, pl_dem_out = None,
      pl_alert_laser = None, pl_alert_vibration = None, pl_alert_prediction = None,
      pl_alert_dem = None\<rparr>"

definition wire_pipeline :: "pipeline \<Rightarrow> pipeline" where
  "wire_pipeline p =
     (let n = pl_allocated p;
          laser_q_alert = n; laser_q_router = n + 1; crack_q_fatigue = n + 2; crack_q_dem = n + 3;
          prediction_q = n + 4; dem_q = n + 5; vibration_q = n + 6
      in p\<lparr>pl_allocated := n + 7,
           pl_profinet_laser_out := pl_laser_fanout_in p,
           pl_profinet_vibration_out := Some vibration_q,
           pl_laser_fanout_out := [Some laser_q_alert, Some laser_q_router],
           pl_router_in := Some laser_q_router,
           pl_router_out := pl_crack_fanout_in p,
           pl_crack_fanout_out := [Some crack_q_fatigue, Some crack_q_dem],
           pl_fatigue_in := Some crack_q_fatigue, pl_fatigue_out := Some prediction_q,
           pl_dem_in := Some crack_q_dem, pl_dem_out := Some dem_q,
           pl_alert_laser := Some laser_q_alert, pl_alert_vibration := Some vibration_q,
           pl_alert_prediction := Some prediction_q, pl_alert_dem := Some dem_q\<rparr>)"

definition pl_push :: "pipeline_msg \<Rightarrow> nat \<Rightarrow> pipeline \<Rightarrow> pipeline" where
  "pl_push m q p = p\<lparr>pl_queues := (pl_queues p)(q := push m (pl_queues p q))\<rparr>"

text \<open>The callbacks of \<open>ProfinetParserModule::start\<close> dereference the queue pointer unchecked.\<close>

definition on_laser_packet :: "laser_data \<Rightarrow> pipeline \<Rightarrow> pipeline result" where
  "on_laser_packet d p = (case pl_profinet_laser_out p of
      None \<Rightarrow> Inl (UB ''null laser queue'') | Some q \<Rightarrow> Inr (pl_push (Laser_msg d) q p))"

definition on_vibration_packet :: "vibration_data \<Rightarrow> pipeline \<Rightarrow> pipeline result" where
  "on_vibration_packet d p = (case pl_profinet_vibration_out p of
      None \<Rightarrow> Inl (UB ''null vibration queue'') | Some q \<Rightarrow> Inr (pl_push (Vibration_msg d) q p))"

text \<open>One turn of a module: pop from its input, if any, and push what \<open>process\<close> yields to its
  outputs.\<close>

definition pl_turn ::
  "nat option \<Rightarrow> nat option list \<Rightarrow> (pipeline_msg \<Rightarrow> pipeline_msg list) \<Rightarrow> pipeline \<Rightarrow> pipeline" where
  "pl_turn inq outs process p =
     (case inq of None \<Rightarrow> p
      | Some q \<Rightarrow> (case try_pop (pl_queues p q) of None \<Rightarrow> p
          | Some (m, q') \<Rightarrow>
              fold (\<lambda>out p. case out of None \<Rightarrow> p | Some k \<Rightarrow> fold (\<lambda>m p. pl_push m k p) (process m) p)
                outs (p\<lparr>pl_queues := (pl_queues p)(q := q')\<rparr>)))"

definition route_msg :: "pipeline_msg \<Rightarrow> pipeline_msg list" where
  "route_msg m = (case m of Laser_msg d \<Rightarrow> (if routed d then [Crack_msg (detection_of d)] else []) | _ \<Rightarrow> [])"

inductive pl_step :: "pipeline \<Rightarrow> pipeline \<Rightarrow> bool" where
  laser: "on_laser_packet d p = Inr p' \<Longrightarrow> pl_step p p'"
| vibration: "on_vibration_packet v p = Inr p' \<Longrightarrow> pl_step p p'"
| laser_fanout: "pl_step p (pl_turn (pl_laser_fanout_in p) (pl_laser_fanout_out p) (\<lambda>m. [m]) p)"
| router: "pl_step p (pl_turn (pl_router_in p) [pl_router_out p] route_msg p)"
| crack_fanout: "pl_step p (pl_turn (pl_crack_fanout_in p) (pl_crack_fanout_out p) (\<lambda>m. [m]) p)"
| fatigue: "pl_step p (pl_turn (pl_fatigue_in p) [pl_fatigue_out p] predict p)"
| dem: "pl_step p (pl_turn (pl_dem_in p) [pl_dem_out p] simulate p)"
| alert_laser: "pl_step p (pl_turn (pl_alert_laser p) [] process p)"
| alert_vibration: "pl_step p (pl_turn (pl_alert_vibration p) [] process p)"
| alert_prediction: "pl_step p (pl_turn (pl_alert_prediction p) [] process p)"
| alert_dem: "pl_step p (pl_turn (pl_alert_dem p) [] process p)"

inductive pl_reachable :: "pipeline \<Rightarrow> bool" where
  wired: "pl_reachable (wire_pipeline new_pipeline)"
| step: "pl_reachable p \<Longrightarrow> pl_step p p' \<Longrightarrow> pl_reachable p'"

text \<open>The wiring never changes and no laser or crack queue ever holds a message.\<close>

definition wired_inv :: "pipeline \<Rightarrow> bool" where
  "wired_inv p \<longleftrightarrow>
     p = (wire_pipeline new_pipeline)\<lparr>pl_queues := pl_queues p\<rparr> \<and>
     (\<forall>k. queue_ok (pl_queues p k)) \<and>
     (\<forall>k. k \<noteq> 8 \<longrightarrow> queue_contents (pl_queues p k) = [])"

lemma pl_turn_idle:
  "inq = None \<or> (\<exists>k. inq = Some k \<and> queue_ok (pl_queues p k) \<and> queue_contents (pl_queues p k) = [])
     \<Longrightarrow> pl_turn inq outs process p = p"
  by (auto simp: pl_turn_def try_pop_cases)

lemma pl_turn_null: "pl_turn None outs process p = p"
  by (simp add: pl_turn_def)

lemma wired_inv_update:
  assumes "wired_inv p" and "queue_ok q"
  shows "wired_inv (p\<lparr>pl_queues := (pl_queues p)(8 := q)\<rparr>)"
proof -
  have "p = (wire_pipeline new_pipeline)\<lparr>pl_queues := pl_queues p\<rparr>"
    using assms(1) by (simp add: wired_inv_def)
  from arg_cong [OF this, of "pl_queues_update (\<lambda>_. (pl_queues p)(8 := q))"]
  have "p\<lparr>pl_queues := (pl_queues p)(8 := q)\<rparr> =
      (wire_pipeline new_pipeline)\<lparr>pl_queues := (pl_queues p)(8 := q)\<rparr>"
    by simp
  then show ?thesis
    using assms by (simp add: wired_inv_def)
qed

lemma pl_turn_sink:
  "wired_inv p \<Longrightarrow> wired_inv (pl_turn (Some 8) [] process p)"
proof -
  assume inv: "wired_inv p"
  show ?thesis
  proof (cases "try_pop (pl_queues p 8)")
    case None
    then show ?thesis
      using inv by (simp add: pl_turn_def)
  next
    case (Some r)
    then obtain m q where pop: "try_pop (pl_queues p 8) = Some (m, q)"
      by (cases r) simp
    have "queue_ok q"
      using pop_state [OF _ pop] inv by (simp add: wired_inv_def)
    then show ?thesis
      using wired_inv_update [OF inv] by (simp add: pl_turn_def pop)
  qed
qed

lemma wired_fields:
  assumes "wired_inv p"
  shows "pl_profinet_laser_out p = None" "pl_profinet_vibration_out p = Some 8"
    "pl_laser_fanout_in p = None" "pl_router_in p = Some 3" "pl_crack_fanout_in p = None"
    "pl_fatigue_in p = Some 4" "pl_dem_in p = Some 5" "pl_alert_laser p = Some 2"
    "pl_alert_vibration p = Some 8" "pl_alert_prediction p = Some 6" "pl_alert_dem p = Some 7"
proof -
  have p: "p = (wire_pipeline new_pipeline)\<lparr>pl_queues := pl_queues p\<rparr>"
    using assms by (simp add: wired_inv_def)
  show "pl_profinet_laser_out p = None" "pl_profinet_vibration_out p = Some 8"
    "pl_laser_fanout_in p = None" "pl_router_in p = Some 3" "pl_crack_fanout_in p = None"
    "pl_fatigue_in p = Some 4" "pl_dem_in p = Some 5" "pl_alert_laser p = Some 2"
    "pl_alert_vibration p = Some 8" "pl_alert_prediction p = Some 6" "pl_alert_dem p = Some 7"
    by (subst p, simp add: wire_pipeline_def new_pipeline_def Let_def)+
qed

lemma wired_inv_step:
  assumes "pl_step p p'" and "wired_inv p"
  shows "wired_inv p'"
proof -
  have idle: "pl_turn (Some k) outs f p = p" if "k \<noteq> 8" for k outs f
    using assms(2) that by (intro pl_turn_idle) (auto simp: wired_inv_def)
  from assms(1) show ?thesis
  proof cases
    case (laser d)
    then show ?thesis
      using assms(2) by (simp add: on_laser_packet_def wired_fields)
  next
    case (vibration v)
    then have "p' = pl_push (Vibration_msg v) 8 p"
      using assms(2) by (simp add: on_vibration_packet_def wired_fields)
    then show ?thesis
      using wired_inv_update [OF assms(2)] assms(2) by (simp add: wired_inv_def pl_push_def push_ok)
  next
    case alert_vibration
    then show ?thesis
      using pl_turn_sink [OF assms(2)] by (simp add: wired_fields [OF assms(2)])
  qed (use assms(2) in \<open>simp_all add: wired_fields [OF assms(2)] idle pl_turn_null\<close>)
qed

lemma wired_reachable: "pl_reachable p \<Longrightarrow> wired_inv p"
proof (induction rule: pl_reachable.induct)
  case wired
  show ?case
    by (auto simp: wired_inv_def wire_pipeline_def new_pipeline_def Let_def queue_ok_def
        new_queue_def queue_contents_def)
next
  case (step p p')
  then show ?case
    by (blast intro: wired_inv_step)
qed

text \<open>C9: As \<open>wire_pipeline\<close> connects them, the two fan-out modules never get an input queue:
  in every reachable state a laser packet dereferences a null pointer, and the queues of the
  crack router, the fatigue predictor, the simulator and the alert module's laser, prediction
  and simulation inputs are empty; only vibration packets reach a consumer.\<close>

theorem laser_pipeline_disconnected:
  assumes "pl_reachable p"
  shows "is_ub (on_laser_packet d p)
    \<and> (\<forall>k. k \<noteq> 8 \<longrightarrow> queue_contents (pl_queues p k) = [])
    \<and> \<not> is_ub (on_vibration_packet v p) \<and> pl_alert_vibration p = pl_profinet_vibration_out p"
proof -
  have inv: "wired_inv p"
    using assms by (rule wired_reachable)
  then show ?thesis
    by (simp add: on_laser_packet_def on_vibration_packet_def wired_fields [OF inv])
       (simp add: wired_inv_def)
qed

text \<open>A fan-out gives every non-null output each message once and in order, and leaves null
  outputs alone.\<close>

theorem fanout_copies:
  assumes "fanout_ok f"
  shows "fanout_outputs (process_all fanout_process msgs f) =
    map (map_option (\<lambda>xs. xs @ msgs)) (fanout_outputs f)"
  using fanout_all [OF assms] by blast

subsection \<open>Concrete runs\<close>

definition demo_queue :: "nat lfq" where
  "demo_queue = push 3 (push 0 (push 5 new_queue))"

lemma demo_queue_ok: "queue_ok demo_queue" "queue_contents demo_queue = [5, 0, 3]"
  using push_ok push_contents
  by (simp_all add: demo_queue_def push_contents push_ok lfq.new_ok lfq.new_contents)

text \<open>A process that throws on zero and collects the rest.\<close>

definition demo_process :: "(nat, nat list) process" where
  "demo_process x s = (if x = 0 then (s, Some (Runtime_error ''zero'')) else (s @ [x], None))"

theorem run_loop_drains_witness:
  "\<exists>m'. run_loop 4 demo_process \<lparr>m_input = Some demo_queue, m_state = [], m_running = True,
       m_thread = True, m_processed = 0, m_errors = []\<rparr> = Inr m'
    \<and> map_option queue_contents (m_input m') = Some [] \<and> m_state m' = [5, 3] \<and> m_processed m' = 2"
  using run_loop_drains [of demo_process "\<lparr>m_input = Some demo_queue, m_state = [], m_running = True,
       m_thread = True, m_processed = 0, m_errors = []\<rparr>" demo_queue 4] demo_queue_ok
  by (simp add: process_total_def demo_process_def)

definition demo_crack :: crack_info where
  "demo_crack = \<lparr>ci_id = 1, ci_porcelain_id = 4, ci_crack_code = ''c'', ci_max_depth = D 250,
     ci_max_width = D 60, ci_total_length = D 10, ci_status = [], ci_points = [],
     ci_detected_at = 0\<rparr>"

definition demo_laser :: "bool \<Rightarrow> laser_data" where
  "demo_laser b = \<lparr>ld_id = 1, ld_sensor_id = 2, ld_porcelain_id = 4, ld_measurement_time = 0,
     ld_scan_area = [0, 0, D 20, D 20], ld_resolution = 0, ld_crack_detected = b,
     ld_crack_count = 1, ld_cracks = [demo_crack], ld_processed_data = JNull\<rparr>"

theorem crack_router_filters_witness:
  "map_option queue_contents (process_all crack_router_process
     [demo_laser False, demo_laser True, demo_laser False] (Some new_queue)) =
   Some [detection_of (demo_laser True)]"
  by (subst crack_router_filters)
    (simp_all add: lfq.new_ok lfq.new_contents routed_def demo_laser_def)

theorem laser_pipeline_disconnected_witness:
  "\<forall>d v. is_ub (on_laser_packet d (wire_pipeline new_pipeline))
    \<and> \<not> is_ub (on_vibration_packet v (wire_pipeline new_pipeline))"
  using laser_pipeline_disconnected [OF pl_reachable.wired] by blast

theorem fanout_copies_witness:
  "fanout_outputs (process_all fanout_process [1 :: nat, 2] \<lparr>fo_primary = Some new_queue, fo_extra = [None, Some new_queue]\<rparr>)
    = [Some [1, 2], None, Some [1, 2]]"
  by (subst fanout_copies) (simp_all add: fanout_ok_def fanout_outputs_def lfq.new_ok lfq.new_contents)

end
