(* ===== verification/Fatigue_Predictor.thy ===== *)
theory Fatigue_Predictor
  imports Alert_Ws Crack_Propagation Module_Pipeline
begin

section \<open>The fatigue predictor module (include/modules/fatigue_predictor_module.h)\<close>

text \<open>
  The pipeline stage that predicts the growth of every detected crack. Its parameters are the
  defaults of \<open>ParisLawParameters\<close>, since nothing in the program sets others; the horizon comes
  from the configuration. \<open>None\<close> would be a prediction that never returns.
\<close>

definition prediction_of :: "crack_info \<Rightarrow> int \<Rightarrow> paris_result \<Rightarrow> crack_prediction" where
  "prediction_of crack horizon result =
     \<lparr>cp_id = 0, cp_crack_id = wrap32 (ci_id crack), cp_model_type = ''ParisLaw+ResidualStress'',
      cp_parameters = result_to_json result, cp_time_horizon_hours = horizon,
      cp_predicted_depth = pl_depth_720h result, cp_predicted_width = pl_width_720h result,
      cp_predicted_length = pl_length_720h result, cp_confidence = pl_confidence result,
      cp_risk_level = pl_risk_level result\<rparr>"

fun fatigue_loop ::
  "paris_params \<Rightarrow> int \<Rightarrow> int \<Rightarrow> crack_info list \<Rightarrow> prediction_message lfq option
     \<Rightarrow> (prediction_message lfq option \<times> cpp_error option) option" where
  "fatigue_loop params horizon porcelain_id [] out = Some (out, None)"
| "fatigue_loop params horizon porcelain_id (crack # cracks) out =
     (case predict crack horizon 100 (params\<lparr>par_initial_crack_length := ci_total_length crack\<rparr>) of
        None \<Rightarrow> None
      | Some (Inl e, _) \<Rightarrow> Some (out, Some e)
      | Some (Inr result, _) \<Rightarrow>
          fatigue_loop params horizon porcelain_id cracks
            (map_option (push \<lparr>pm_crack = crack, pm_porcelain_id = porcelain_id,
               pm_prediction = prediction_of crack horizon result\<rparr>) out))"

definition fatigue_process ::
  "paris_params \<Rightarrow> int \<Rightarrow> crack_detection \<Rightarrow> prediction_message lfq option
     \<Rightarrow> (prediction_message lfq option \<times> cpp_error option) option" where
  "fatigue_process params horizon msg out =
     fatigue_loop params horizon (cd_porcelain_id msg) (cd_cracks msg) out"

subsection \<open>What the module emits\<close>

definition short_crack :: "crack_info \<Rightarrow> bool" where
  "short_crack crack \<longleftrightarrow> start_length crack < critical_crack_length default_paris"

text \<open>One prediction: no growth, and a propagation alert exactly for a short crack.\<close>

definition no_growth_message :: "prediction_message \<Rightarrow> bool" where
  "no_growth_message m \<longleftrightarrow>
     cp_predicted_length (pm_prediction m) = start_length (pm_crack m)
     \<and> cp_predicted_depth (pm_prediction m) = start_depth (pm_crack m)
     \<and> cp_risk_level (pm_prediction m) = (if short_crack (pm_crack m) then ''CRITICAL'' else ''NEGLIGIBLE'')"

lemma fatigue_loop_default:
  assumes "1 < h" and "h < 2 ^ 31"
  shows "queue_ok q \<Longrightarrow> \<exists>q' ms. fatigue_loop default_paris h pid cracks (Some q) = Some (Some q', None)
    \<and> queue_ok q' \<and> queue_contents q' = queue_contents q @ ms \<and> map pm_crack ms = cracks
    \<and> list_all no_growth_message ms"
proof (induction cracks arbitrary: q)
  case Nil
  then show ?case by simp
next
  case (Cons c cs)
  obtain r p' where r: "predict c h 100 (default_paris\<lparr>par_initial_crack_length := ci_total_length c\<rparr>) = Some (Inr r, p')"
      "pl_length_720h r = start_length c" "pl_depth_720h r = start_depth c"
      "pl_risk_level r = (if short_crack c then ''CRITICAL'' else ''NEGLIGIBLE'')"
    using default_verdict_any_start [OF assms, of c "ci_total_length c"]
    by (auto simp: short_crack_def split: if_splits)
  let ?m = "\<lparr>pm_crack = c, pm_porcelain_id = pid, pm_prediction = prediction_of c h r\<rparr>"
  have m: "no_growth_message ?m"
    using r by (simp add: no_growth_message_def prediction_of_def)
  obtain q' ms where "fatigue_loop default_paris h pid cs (Some (push ?m q)) = Some (Some q', None)"
      "queue_ok q'" "queue_contents q' = queue_contents (push ?m q) @ ms" "map pm_crack ms = cs"
      "list_all no_growth_message ms"
    using Cons.IH [OF push_ok [OF Cons.prems]] by blast
  then show ?case
    using r(1) m by (intro exI [of _ q'] exI [of _ "?m # ms"]) (simp add: push_contents [OF Cons.prems])
qed

lemma no_growth_alert:
  "no_growth_message m \<Longrightarrow> prediction_alerts fmt now (pm_prediction m) \<noteq> [] \<longleftrightarrow> short_crack (pm_crack m)"
  by (simp add: no_growth_message_def prediction_alerts_def)

text \<open>C23: The fatigue predictor emits one prediction per detected crack, in order, for every
  configured horizon; none predicts growth, and the alert manager raises a propagation alert for
  exactly the cracks that are shorter than the critical length, never for the longer ones.\<close>

theorem fatigue_alerts_short_cracks_only:
  assumes "1 < h" and "h < 2 ^ 31" and "queue_ok q"
  shows "\<exists>q' ms. fatigue_process default_paris h msg (Some q) = Some (Some q', None)
    \<and> queue_contents q' = queue_contents q @ ms \<and> map pm_crack ms = cd_cracks msg
    \<and> map (\<lambda>m. (cp_predicted_length (pm_prediction m), prediction_alerts fmt now (pm_prediction m) \<noteq> [])) ms =
        map (\<lambda>c. (start_length c, short_crack c)) (cd_cracks msg)"
proof -
  obtain q' ms where "fatigue_process default_paris h msg (Some q) = Some (Some q', None)"
      "queue_contents q' = queue_contents q @ ms" and ms: "map pm_crack ms = cd_cracks msg"
      "list_all no_growth_message ms"
    using fatigue_loop_default [OF assms] unfolding fatigue_process_def by blast
  moreover have "map (\<lambda>m. (cp_predicted_length (pm_prediction m), prediction_alerts fmt now (pm_prediction m) \<noteq> [])) ms =
      map (\<lambda>c. (start_length c, short_crack c)) (map pm_crack ms)"
    using ms(2) no_growth_alert by (auto simp: list_all_iff no_growth_message_def)
  ultimately show ?thesis
    using ms(1) by auto
qed

definition demo_detection :: crack_detection where
  "demo_detection = \<lparr>cd_laser_data = demo_message, cd_porcelain_id = 4,
     cd_cracks = [sample_crack (D 10)], cd_crack_points = [[]]\<rparr>"

theorem fatigue_alerts_short_cracks_only_witness:
  "\<exists>q' ms. fatigue_process default_paris 720 demo_detection (Some new_queue) = Some (Some q', None)
    \<and> queue_contents q' = queue_contents new_queue @ ms \<and> map pm_crack ms = [sample_crack (D 10)]
    \<and> map (\<lambda>m. (cp_predicted_length (pm_prediction m), prediction_alerts (\<lambda>_. ''x'') 0 (pm_prediction m) \<noteq> [])) ms =
        [(start_length (sample_crack (D 10)), False)]"
proof -
  have "\<not> short_crack (sample_crack (D 10))"
    unfolding short_crack_def by (rule long_start [of 10]) (simp_all add: sample_crack_def)
  then show ?thesis
    using fatigue_alerts_short_cracks_only [of 720 new_queue demo_detection "\<lambda>_. ''x''" 0] lfq.new_ok
    by (simp add: demo_detection_def)
qed

end
