(* ===== verification/Database_Batch.thy ===== *)
theory Database_Batch
  imports Database
begin

section \<open>Transactions and queries (src/database.cpp)\<close>

text \<open>
  The multi-statement inserts of \<open>DatabaseManager\<close>, with the sequence of statements each of them
  issues, the status update and the row readers of its queries.
\<close>

subsection \<open>Batch inserts\<close>

text \<open>The loop of a batch: stop at the first statement that does not report success.\<close>

fun batch_loop :: "'db pg_env \<Rightarrow> nat \<Rightarrow> ('a \<Rightarrow> sql result) \<Rightarrow> 'a list \<Rightarrow> 'db \<Rightarrow> bool result \<times> 'db" where
  "batch_loop env c mk [] db = (Inr True, db)"
| "batch_loop env c mk (x # xs) db =
     (case mk x of Inl e \<Rightarrow> (Inl e, db)
      | Inr q \<Rightarrow> (let (r, db) = pg_exec env c q db in
          if r \<noteq> Command_ok then (Inr False, db) else batch_loop env c mk xs db))"

definition batch_insert ::
  "'db pg_env \<Rightarrow> ('a \<Rightarrow> sql result) \<Rightarrow> 'a list \<Rightarrow> 'db dbm \<Rightarrow> (bool result \<times> 'db dbm) option" where
  "batch_insert env mk xs s =
     (if xs = [] then Some (Inr True, s)
      else with_conn (\<lambda>c db.
        let (ok, db) = begin_transaction env c db in
        if \<not> ok then (Inr False, db)
        else (case batch_loop env c mk xs db of
            (Inl e, db) \<Rightarrow> (Inl e, db)
          | (Inr ok, db) \<Rightarrow>
              (let (_, db) = (if ok then commit_transaction env c db else rollback_transaction env c db)
               in (Inr ok, db)))) s)"

definition batch_insert_laser_data ::
  "'db pg_env \<Rightarrow> laser_data list \<Rightarrow> 'db dbm \<Rightarrow> (bool result \<times> 'db dbm) option" where
  "batch_insert_laser_data env = batch_insert env (laser_insert env False)"

definition batch_insert_vibration_data ::
  "'db pg_env \<Rightarrow> vibration_data list \<Rightarrow> 'db dbm \<Rightarrow> (bool result \<times> 'db dbm) option" where
  "batch_insert_vibration_data env = batch_insert env (vibration_insert env False)"

text \<open>One laser record with its cracks and their points. \<open>None\<close> of the inner loops is the early
  return after a rollback.\<close>

fun batch_points :: "'db pg_env \<Rightarrow> nat \<Rightarrow> int \<Rightarrow> point3d list \<Rightarrow> 'db \<Rightarrow> bool \<times> 'db" where
  "batch_points env c crack_id [] db = (True, db)"
| "batch_points env c crack_id (p # ps) db =
     (let (r, db) = pg_exec env c (point_insert crack_id False p) db in
      if r \<noteq> Command_ok then (let (_, db) = rollback_transaction env c db in (False, db))
      else batch_points env c crack_id ps db)"

definition got_row :: "pg_result \<Rightarrow> bool" where
  "got_row r = (case r of Tuples_ok (_ # _) \<Rightarrow> True | _ \<Rightarrow> False)"

fun batch_cracks ::
  "'db pg_env \<Rightarrow> nat \<Rightarrow> int \<Rightarrow> (crack_info \<times> point3d list) list \<Rightarrow> 'db \<Rightarrow> bool \<times> 'db" where
  "batch_cracks env c pid [] db = (True, db)"
| "batch_cracks env c pid ((crack, points) # rest) db =
     (let (r, db) = pg_exec env c (crack_insert crack pid) db in
      if \<not> got_row r then (let (_, db) = rollback_transaction env c db in (False, db))
      else let (ok, db) = batch_points env c (returned_id env r) points db in
        if \<not> ok then (False, db) else batch_cracks env c pid rest db)"

definition batch_insert_crack_detections ::
  "'db pg_env \<Rightarrow> laser_data \<Rightarrow> crack_info list \<Rightarrow> point3d list list \<Rightarrow> int \<Rightarrow> 'db dbm
     \<Rightarrow> (bool result \<times> 'db dbm) option" where
  "batch_insert_crack_detections env d cracks crack_points pid =
     with_conn (\<lambda>c db.
       let (ok, db) = begin_transaction env c db in
       if \<not> ok then (Inr False, db)
       else (case laser_insert env True d of
           Inl e \<Rightarrow> (Inl e, db)
         | Inr q \<Rightarrow>
             (let (r, db) = pg_exec env c q db in
              if \<not> got_row r then (let (_, db) = rollback_transaction env c db in (Inr False, db))
              else let (ok, db) = batch_cracks env c pid (zip cracks crack_points) db in
                if \<not> ok then (Inr False, db)
                else let (ok, db) = commit_transaction env c db in
                  if \<not> ok then (let (_, db) = rollback_transaction env c db in (Inr False, db))
                  else (Inr True, db))))"

subsection \<open>The statements a batch issues\<close>

text \<open>A server that also records the statements and their results.\<close>

definition logged :: "'db pg_env \<Rightarrow> ((sql \<times> pg_result) list \<times> 'db) pg_env" where
  "logged env =
     \<lparr>pg_exec = (\<lambda>c q (tr, db). let (r, db) = pg_exec env c q db in (r, (tr @ [(q, r)], db))),
      pg_connected = (\<lambda>c (tr, db). pg_connected env c db), pg_parse = pg_parse env,
      pg_dump = pg_dump env, pg_atoi = pg_atoi env, pg_atof = pg_atof env\<rparr>"

lemma logged_exec:
  "pg_exec (logged env) c q (tr, db) =
     (fst (pg_exec env c q db), (tr @ [(q, fst (pg_exec env c q db))], snd (pg_exec env c q db)))"
  by (simp add: logged_def split_beta Let_def)

text \<open>A connected server for which \<open>ROLLBACK\<close> runs: then it is the last statement.\<close>

definition always_connected :: "'db pg_env \<Rightarrow> bool" where
  "always_connected env \<longleftrightarrow> (\<forall>c db. pg_connected env c db)"

lemma logged_connected: "always_connected env \<Longrightarrow> pg_connected (logged env) c s"
  by (cases s) (simp add: always_connected_def logged_def)

definition rolled_back :: "(sql \<times> pg_result) list \<Rightarrow> bool" where
  "rolled_back tr \<longleftrightarrow> (\<exists>l r. tr = l @ [(Rollback, r)])"

definition all_succeeded :: "(sql \<times> pg_result) list \<Rightarrow> bool" where
  "all_succeeded tr \<longleftrightarrow> (\<forall>(q, r) \<in> set tr. r \<noteq> Failed)"

lemma rollback_logged:
  assumes "always_connected env"
  shows "\<exists>r. fst (snd (rollback_transaction (logged env) c (tr, db))) = tr @ [(Rollback, r)]"
  using assms by (simp add: rollback_transaction_def logged_connected logged_exec)

lemma batch_points_log:
  assumes "always_connected env" and "all_succeeded tr"
    and "batch_points (logged env) c cid ps (tr, db) = (ok, tr', db')"
  shows "(if ok then all_succeeded tr' \<and> (\<exists>l. tr' = tr @ l) else rolled_back tr')"
  using assms(2,3)
proof (induction ps arbitrary: tr db)
  case Nil
  then show ?case by simp
next
  case (Cons p ps)
  let ?r = "fst (pg_exec env c (point_insert cid False p) db)"
  let ?db = "snd (pg_exec env c (point_insert cid False p) db)"
  let ?tr = "tr @ [(point_insert cid False p, ?r)]"
  show ?case
  proof (cases "?r = Command_ok")
    case True
    then have "all_succeeded ?tr"
      using Cons.prems(1) by (simp add: all_succeeded_def)
    then show ?thesis
      using Cons.IH [of ?tr ?db] Cons.prems(2) True by (auto simp: logged_exec split: if_splits)
  next
    case False
    then show ?thesis
      using Cons.prems(2) rollback_logged [OF assms(1), of c ?tr ?db]
      by (auto simp: logged_exec rolled_back_def split: prod.splits)
  qed
qed

lemma batch_cracks_log:
  assumes "always_connected env" and "all_succeeded tr"
    and "batch_cracks (logged env) c pid cs (tr, db) = (ok, tr', db')"
  shows "(if ok then all_succeeded tr' \<and> (\<exists>l. tr' = tr @ l) else rolled_back tr')"
  using assms(2,3)
proof (induction cs arbitrary: tr db)
  case Nil
  then show ?case by simp
next
  case (Cons cp cs)
  obtain crack points where cp: "cp = (crack, points)"
    by (cases cp)
  let ?q = "crack_insert crack pid"
  let ?r = "fst (pg_exec env c ?q db)" and ?db = "snd (pg_exec env c ?q db)"
  let ?tr = "tr @ [(?q, ?r)]"
  show ?case
  proof (cases "got_row ?r")
    case False
    then show ?thesis
      using Cons.prems(2) rollback_logged [OF assms(1), of c ?tr ?db]
      by (auto simp: cp logged_exec rolled_back_def split: prod.splits)
  next
    case True
    then have s: "all_succeeded ?tr"
      using Cons.prems(1) by (auto simp: all_succeeded_def got_row_def)
    obtain ok2 tr2 db2 where p: "batch_points (logged env) c (returned_id (logged env) ?r) points (?tr, ?db)
        = (ok2, tr2, db2)"
      by (metis prod.exhaust)
    have p2: "if ok2 then all_succeeded tr2 \<and> (\<exists>l. tr2 = ?tr @ l) else rolled_back tr2"
      using batch_points_log [OF assms(1) s p] .
    show ?thesis
    proof (cases ok2)
      case True
      then have "batch_cracks (logged env) c pid cs (tr2, db2) = (ok, tr', db')"
        using Cons.prems(2) p \<open>got_row ?r\<close> by (simp add: cp logged_exec)
      then show ?thesis
        using Cons.IH [of tr2 db2] p2 True by (auto split: if_splits)
    next
      case False
      then show ?thesis
        using Cons.prems(2) p p2 \<open>got_row ?r\<close> by (simp add: cp logged_exec)
    qed
  qed
qed


text \<open>The batch inserts of measurements do not look at the result of their COMMIT: with a
  server that accepts every statement and refuses the COMMIT they still report success.\<close>

theorem batch_ignores_commit_failure:
  assumes "always_connected env" and "dm_available s \<noteq> []" and "xs \<noteq> []"
    and "\<forall>x. \<exists>q. mk x = Inr q \<and> (\<forall>c db. fst (pg_exec env c q db) = Command_ok)"
    and "\<forall>c db. fst (pg_exec env c Begin db) = Command_ok"
    and "\<forall>c db. fst (pg_exec env c Commit db) = Failed"
  shows "\<exists>s'. batch_insert env mk xs s = Some (Inr True, s')"
proof -
  have loop: "\<exists>db'. batch_loop env c mk ys db = (Inr True, db')" for c ys db
  proof (induction ys arbitrary: db)
    case (Cons y ys)
    obtain q where "mk y = Inr q" "\<forall>c db. fst (pg_exec env c q db) = Command_ok"
      using assms(4) by blast
    then show ?case
      using Cons [of "snd (pg_exec env c q db)"] by (simp add: split_beta Let_def)
  qed simp
  have "\<exists>db'. begin_transaction env c db = (True, db')" for c db
    using assms(1,5) by (simp add: begin_transaction_def always_connected_def split_beta Let_def)
  then obtain db1 where b: "begin_transaction env (last (dm_available s)) (dm_server s) = (True, db1)"
    by blast
  obtain db2 where l: "batch_loop env (last (dm_available s)) mk xs db1 = (Inr True, db2)"
    using loop by blast
  show ?thesis
    using assms(2,3) b l
    by (simp add: batch_insert_def with_conn_def pool_acquire_def split_beta Let_def)
qed

subsection \<open>Status update and queries\<close>

fun alert_status_text :: "alert_status \<Rightarrow> string" where
  "alert_status_text ACKNOWLEDGED = ''ACKNOWLEDGED''"
| "alert_status_text RESOLVED = ''RESOLVED''"
| "alert_status_text IGNORED = ''IGNORED''"
| "alert_status_text PENDING = ''PENDING''"

text \<open>Columns set to \<open>CURRENT_TIMESTAMP\<close> carry that text.\<close>

definition update_alert_status ::
  "'db pg_env \<Rightarrow> int \<Rightarrow> alert_status \<Rightarrow> 'db dbm \<Rightarrow> (bool result \<times> 'db dbm) option" where
  "update_alert_status env alert_id status =
     with_conn (\<lambda>c db.
       let stamp = (\<lambda>col. (col, VText ''CURRENT_TIMESTAMP''));
           (r, db) = pg_exec env c (Update ''alerts''
             ([(''status'', VText (alert_status_text status)), stamp ''updated_at''] @
              (if status = ACKNOWLEDGED then [stamp ''acknowledged_at'']
               else if status = RESOLVED then [stamp ''resolved_at''] else [])) alert_id) db
       in (Inr (r = Command_ok), db))"

text \<open>\<open>PQgetvalue\<close>: the text of a cell, empty for a null.\<close>

definition cell :: "string list \<Rightarrow> nat \<Rightarrow> string" where
  "cell row i = (if i < length row then row ! i else [])"

definition cell_json :: "'db pg_env \<Rightarrow> string list \<Rightarrow> nat \<Rightarrow> json result" where
  "cell_json env row i = (if cell row i \<noteq> [] then pg_parse env (cell row i) else Inr JNull)"

text \<open>The frame of the list queries: the rows in order, or nothing when the statement failed.\<close>

definition query_rows ::
  "'db pg_env \<Rightarrow> sql \<Rightarrow> (string list \<Rightarrow> 'a result) \<Rightarrow> ('db, 'a list) db_op" where
  "query_rows env q read c db =
     (let (r, db) = pg_exec env c q db in
      (case r of Tuples_ok rows \<Rightarrow> map_result read rows | _ \<Rightarrow> Inr [], db))"

text \<open>The frame of the single-row queries: a value-initialised record when there is no row.\<close>

definition query_row ::
  "'db pg_env \<Rightarrow> sql \<Rightarrow> 'a \<Rightarrow> (string list \<Rightarrow> 'a result) \<Rightarrow> ('db, 'a) db_op" where
  "query_row env q dflt read c db =
     (let (r, db) = pg_exec env c q db in
      (case r of Tuples_ok (row # _) \<Rightarrow> read row | _ \<Rightarrow> Inr dflt, db))"

definition porcelain_columns :: "string list" where
  "porcelain_columns = [''id'', ''museum_id'', ''name'', ''dynasty'', ''production_year'',
     ''description'', ''origin_location'', ''dimensions'', ''model_path'']"

definition read_porcelain :: "'db pg_env \<Rightarrow> string list \<Rightarrow> porcelain_info result" where
  "read_porcelain env row =
     and_then (cell_json env row 7) (\<lambda>dims.
       Inr \<lparr>po_id = pg_atoi env (cell row 0), po_museum_id = cell row 1, po_name = cell row 2,
            po_dynasty = (if cell row 3 = ''SONG'' then SONG else YUAN),
            po_production_year = pg_atoi env (cell row 4), po_description = cell row 5,
            po_origin_location = cell row 6, po_dimensions = dims,
            po_model_path = (if cell row 8 \<noteq> [] then Some (cell row 8) else None)\<rparr>)"

definition empty_porcelain :: porcelain_info where
  "empty_porcelain = \<lparr>po_id = 0, po_museum_id = [], po_name = [], po_dynasty = SONG,
     po_production_year = 0, po_description = [], po_origin_location = [], po_dimensions = JNull,
     po_model_path = None\<rparr>"

definition get_all_porcelains ::
  "'db pg_env \<Rightarrow> 'db dbm \<Rightarrow> (porcelain_info list result \<times> 'db dbm) option" where
  "get_all_porcelains env =
     with_conn (query_rows env (Select ''porcelains'' porcelain_columns [] (Some ''id'') None)
       (read_porcelain env))"

definition get_porcelain ::
  "'db pg_env \<Rightarrow> int \<Rightarrow> 'db dbm \<Rightarrow> (porcelain_info result \<times> 'db dbm) option" where
  "get_porcelain env i =
     with_conn (query_row env (Select ''porcelains'' porcelain_columns [(''id'', i)] None None)
       empty_porcelain (read_porcelain env))"

definition crack_columns :: "string list" where
  "crack_columns = [''id'', ''porcelain_id'', ''crack_code'', ''max_depth'', ''max_width'',
     ''total_length'', ''status'', ''detected_date'']"

text \<open>The date column is read and dropped: \<open>detected_at\<close> keeps the clock's epoch.\<close>

definition read_crack :: "'db pg_env \<Rightarrow> string list \<Rightarrow> crack_info result" where
  "read_crack env row =
     Inr \<lparr>ci_id = pg_atoi env (cell row 0), ci_porcelain_id = pg_atoi env (cell row 1),
          ci_crack_code = cell row 2, ci_max_depth = pg_atof env (cell row 3),
          ci_max_width = pg_atof env (cell row 4), ci_total_length = pg_atof env (cell row 5),
          ci_status = cell row 6, ci_points = [], ci_detected_at = 0\<rparr>"

definition empty_crack :: crack_info where
  "empty_crack = \<lparr>ci_id = 0, ci_porcelain_id = 0, ci_crack_code = [], ci_max_depth = 0,
     ci_max_width = 0, ci_total_length = 0, ci_status = [], ci_points = [], ci_detected_at = 0\<rparr>"

definition get_cracks_by_porcelain ::
  "'db pg_env \<Rightarrow> int \<Rightarrow> int \<Rightarrow> 'db dbm \<Rightarrow> (crack_info list result \<times> 'db dbm) option" where
  "get_cracks_by_porcelain env pid limit =
     with_conn (query_rows env (Select ''cracks'' crack_columns [(''porcelain_id'', pid)]
       (Some ''detected_date DESC'') (Some limit)) (read_crack env))"

definition get_crack :: "'db pg_env \<Rightarrow> int \<Rightarrow> 'db dbm \<Rightarrow> (crack_info result \<times> 'db dbm) option" where
  "get_crack env i =
     with_conn (query_row env (Select ''cracks'' crack_columns [(''id'', i)] None None)
       empty_crack (read_crack env))"

definition read_point :: "'db pg_env \<Rightarrow> string list \<Rightarrow> point3d result" where
  "read_point env row =
     Inr \<lparr>px = pg_atof env (cell row 0), py = pg_atof env (cell row 1), pz = pg_atof env (cell row 2),
          pdepth = pg_atof env (cell row 3), pwidth = pg_atof env (cell row 4),
          pnormal = (if cell row 5 \<noteq> [] then Some (pg_atof env (cell row 5),
             pg_atof env (cell row 6), pg_atof env (cell row 7)) else None),
          pcurvature = (if cell row 8 \<noteq> [] then Some (pg_atof env (cell row 8)) else None)\<rparr>"

definition get_crack_points ::
  "'db pg_env \<Rightarrow> int \<Rightarrow> 'db dbm \<Rightarrow> (point3d list result \<times> 'db dbm) option" where
  "get_crack_points env crack_id =
     with_conn (query_rows env (Select ''crack_points''
       [''point_3d[1]'', ''point_3d[2]'', ''point_3d[3]'', ''depth'', ''width'',
        ''normal_vector[1]'', ''normal_vector[2]'', ''normal_vector[3]'', ''curvature'']
       [(''crack_id'', crack_id)] (Some ''id'') None) (read_point env))"

definition read_alert :: "'db pg_env \<Rightarrow> string list \<Rightarrow> alert result" where
  "read_alert env row =
     Inr \<lparr>al_id = pg_atoi env (cell row 0),
          al_type = (if cell row 1 = ''CRACK_DEPTH_EXCEEDED'' then CRACK_DEPTH_EXCEEDED
            else if cell row 1 = ''CRACK_WIDTH_EXCEEDED'' then CRACK_WIDTH_EXCEEDED
            else if cell row 1 = ''CRACK_PROPAGATION_RISK'' then CRACK_PROPAGATION_RISK
            else VIBRATION_ANOMALY),
          al_porcelain_id = pg_atoi env (cell row 2), al_crack_id = pg_atoi env (cell row 3),
          al_sensor_id = pg_atoi env (cell row 4), al_threshold_value = pg_atof env (cell row 5),
          al_actual_value = pg_atof env (cell row 6), al_unit = cell row 7,
          al_message = cell row 8, al_status = PENDING, al_sms_sent = indeterminate,
          al_websocket_sent = indeterminate, al_created_at = 0\<rparr>"

definition get_active_alerts :: "'db pg_env \<Rightarrow> 'db dbm \<Rightarrow> (alert list result \<times> 'db dbm) option" where
  "get_active_alerts env =
     with_conn (query_rows env (Select ''active_alerts''
       [''id'', ''alert_type'', ''porcelain_id'', ''crack_id'', ''sensor_id'', ''threshold_value'',
        ''actual_value'', ''unit'', ''message'', ''status'', ''created_at'']
       [] (Some ''created_at DESC'') (Some 100)) (read_alert env))"

definition read_material :: "'db pg_env \<Rightarrow> string list \<Rightarrow> repair_material result" where
  "read_material env row =
     and_then (cell_json env row 9) (\<lambda>props.
       Inr \<lparr>rm_id = pg_atoi env (cell row 0),
            rm_type = (if cell row 1 = ''ZIRCONIA'' then ZIRCONIA
              else if cell row 1 = ''SILICA'' then SILICA else COMPOSITE),
            rm_name = cell row 2, rm_manufacturer = cell row 3,
            rm_particle_size_nm = pg_atof env (cell row 4), rm_purity = pg_atof env (cell row 5),
            rm_viscosity = pg_atof env (cell row 6), rm_refractive_index = pg_atof env (cell row 7),
            rm_thermal_expansion_coeff = pg_atof env (cell row 8), rm_properties = props\<rparr>)"

definition get_repair_materials ::
  "'db pg_env \<Rightarrow> 'db dbm \<Rightarrow> (repair_material list result \<times> 'db dbm) option" where
  "get_repair_materials env =
     with_conn (query_rows env (Select ''repair_materials''
       [''id'', ''material_type'', ''name'', ''manufacturer'', ''particle_size_nm'', ''purity'',
        ''viscosity'', ''refractive_index'', ''thermal_expansion_coeff'', ''properties'']
       [] (Some ''id'') None) (read_material env))"

lemma material_type_roundtrip:
  "cell row 1 = material_type_to_string t \<Longrightarrow> read_material env row = Inr m \<Longrightarrow> rm_type m = t"
  by (cases t) (auto simp: read_material_def and_then_eq_Inr_iff)

text \<open>A single-row query gives its connection back exactly when the JSON column of the row
  parses (or is null); when it does not parse the exception loses the connection.\<close>

theorem query_leaks_on_bad_json:
  assumes "dm_available s \<noteq> []"
    and "fst (pg_exec env (last (dm_available s)) (Select ''porcelains'' porcelain_columns [(''id'', i)] None None)
          (dm_server s)) = Tuples_ok (row # rows)"
  shows "map_option (\<lambda>(r, s'). dm_available s') (get_porcelain env i s) =
    Some (case cell_json env row 7 of Inl e \<Rightarrow> butlast (dm_available s) | Inr _ \<Rightarrow> dm_available s)"
  using assms
  by (cases "cell_json env row 7")
    (auto simp: get_porcelain_def with_conn_def pool_acquire_def pool_release_def query_row_def
      read_porcelain_def split_beta Let_def)

subsection \<open>Concrete runs\<close>

definition demo_record :: laser_data where
  "demo_record = \<lparr>ld_id = 0, ld_sensor_id = 2, ld_porcelain_id = 4, ld_measurement_time = 0,
     ld_scan_area = [0, 0, D 20, D 20], ld_resolution = 0, ld_crack_detected = True,
     ld_crack_count = 1, ld_cracks = [], ld_processed_data = JNull\<rparr>"

definition demo_point :: point3d where
  "demo_point = \<lparr>px = 0, py = 1, pz = 0, pdepth = 1, pwidth = 1, pnormal = None, pcurvature = None\<rparr>"

lemma demo_env_connected: "always_connected demo_env"
  by (simp add: always_connected_def demo_env_def)

lemma demo_batch:
  "\<exists>s'. batch_insert_crack_detections (logged demo_env) demo_record [empty_crack] [[demo_point]] 4
      \<lparr>dm_available = [0, 1], dm_server = ([], 0)\<rparr> = Some (Inr True, s')"
  by (simp add: batch_insert_crack_detections_def with_conn_def pool_acquire_def pool_release_def
      begin_transaction_def commit_transaction_def logged_connected [OF demo_env_connected]
      logged_exec laser_insert_def json_or_null_def json_empty_def demo_record_def)
    (simp add: demo_env_def got_row_def crack_insert_def point_insert_def)


text \<open>A server that accepts everything but the COMMIT.\<close>

definition refusing_env :: "unit pg_env" where
  "refusing_env = \<lparr>pg_exec = (\<lambda>c q db. (if q = Commit then Failed else Command_ok, db)),
     pg_connected = (\<lambda>c db. True), pg_parse = (\<lambda>_. Inl Json_error), pg_dump = (\<lambda>_. Inr ''{}''),
     pg_atoi = (\<lambda>_. 0), pg_atof = (\<lambda>_. 0)\<rparr>"

theorem batch_ignores_commit_failure_witness:
  "\<exists>s'. batch_insert_laser_data refusing_env [demo_record] \<lparr>dm_available = [0], dm_server = ()\<rparr> =
    Some (Inr True, s')"
  unfolding batch_insert_laser_data_def
  by (rule batch_ignores_commit_failure)
    (simp_all add: always_connected_def refusing_env_def laser_insert_def json_or_null_def)

definition bad_row :: "string list" where
  "bad_row = replicate 7 ''1'' @ [''{'', []]"

definition bad_row_env :: "unit pg_env" where
  "bad_row_env = refusing_env\<lparr>pg_exec := (\<lambda>c q db. (Tuples_ok [bad_row], db))\<rparr>"

theorem query_leaks_on_bad_json_witness:
  "map_option (\<lambda>(r, s'). dm_available s') (get_porcelain bad_row_env 1 \<lparr>dm_available = [0, 1], dm_server = ()\<rparr>) =
    Some [0]"
  by (subst query_leaks_on_bad_json [where row = bad_row and rows = "[]"])
    (simp_all add: bad_row_env_def bad_row_def refusing_env_def cell_json_def cell_def nth_append)

end
