(* ===== verification/Database_Extensions.thy ===== *)
theory Database_Extensions
  imports Database_Batch
begin

section \<open>Stress, penetration, bending and repair records (src/database_extensions.cpp)\<close>

text \<open>
  The inserts and queries of the analysis results, on the same frame as the other operations,
  and the prepared-statement insert of the stress grid with what it leaves on its connection.
\<close>

subsection \<open>Stress analysis\<close>

definition insert_stress_analysis ::
  "'db pg_env \<Rightarrow> stress_analysis_result \<Rightarrow> 'db dbm \<Rightarrow> (int result \<times> 'db dbm) option" where
  "insert_stress_analysis env r =
     with_conn (insert_returning env (and_then (json_or_null env (sa_parameters r)) (\<lambda>jp.
       and_then (json_or_null env (sa_result r)) (\<lambda>jr.
       Inr (Insert ''stress_analysis_results''
         [(''porcelain_id'', VInt (sa_porcelain_id r)), (''method'', VText (sa_method r)),
          (''parameters'', jp), (''max_von_mises'', VNum (sa_max_von_mises r)),
          (''avg_von_mises'', VNum (sa_avg_von_mises r)),
          (''high_stress_area_ratio'', VNum (sa_high_stress_area_ratio r)), (''result'', jr),
          (''created_at'', VTime (to_time_t (sa_created_at r)))] True)))))"

definition grid_stmt :: string where
  "grid_stmt = ''stress_grid_point_insert''"

definition grid_params :: "int \<Rightarrow> stress_grid_point \<Rightarrow> sql_value list" where
  "grid_params analysis_id p =
     [VInt analysis_id, VNum (gx p), VNum (gy p), VNum (gz p), VNum (sigma_xx (gstress p)),
      VNum (sigma_yy (gstress p)), VNum (sigma_zz (gstress p)), VNum (tau_xy (gstress p)),
      VNum (tau_yz (gstress p)), VNum (tau_zx (gstress p)), VNum (von_mises (gstress p)),
      VNum (gcrack_density p), VNum (gprincipal_direction p)]"

fun grid_loop :: "'db pg_env \<Rightarrow> nat \<Rightarrow> int \<Rightarrow> stress_grid_point list \<Rightarrow> 'db \<Rightarrow> bool \<times> 'db" where
  "grid_loop env c aid [] db = (True, db)"
| "grid_loop env c aid (p # ps) db =
     (let (r, db) = pg_exec env c (Exec_prepared grid_stmt (grid_params aid p)) db in
      if r \<noteq> Command_ok then (False, db) else grid_loop env c aid ps db)"

definition grid_finish :: "'db pg_env \<Rightarrow> nat \<Rightarrow> bool \<Rightarrow> 'db \<Rightarrow> bool \<times> 'db" where
  "grid_finish env c ok db =
     (let (_, db) = pg_exec env c (Deallocate grid_stmt) db in
      if ok then (let (done, db) = commit_transaction env c db in
        if \<not> done then (let (_, db) = rollback_transaction env c db in (False, db)) else (True, db))
      else (let (_, db) = rollback_transaction env c db in (False, db)))"

definition grid_op :: "'db pg_env \<Rightarrow> int \<Rightarrow> stress_grid_point list \<Rightarrow> nat \<Rightarrow> 'db \<Rightarrow> bool \<times> 'db" where
  "grid_op env aid points c db =
     (let (ok, db) = begin_transaction env c db in
      if \<not> ok then (False, db)
      else let (r, db) = pg_exec env c (Prepare grid_stmt) db in
        if r \<noteq> Command_ok then (let (_, db) = rollback_transaction env c db in (False, db))
        else let (ok, db) = grid_loop env c aid points db in grid_finish env c ok db)"

definition insert_stress_grid_points ::
  "'db pg_env \<Rightarrow> int \<Rightarrow> stress_grid_point list \<Rightarrow> 'db dbm \<Rightarrow> (bool result \<times> 'db dbm) option" where
  "insert_stress_grid_points env aid points s =
     (if points = [] then Some (Inr True, s)
      else with_conn (\<lambda>c db. let (ok, db) = grid_op env aid points c db in (Inr ok, db)) s)"

definition stress_columns :: "string list" where
  "stress_columns = [''id'', ''porcelain_id'', ''method'', ''parameters'', ''max_von_mises'',
     ''avg_von_mises'', ''high_stress_area_ratio'', ''result'', ''created_at'']"

definition empty_stress :: stress_analysis_result where
  "empty_stress = \<lparr>sa_id = 0, sa_porcelain_id = 0, sa_method = [], sa_parameters = JNull,
     sa_grid_points = [], sa_max_von_mises = 0, sa_avg_von_mises = 0, sa_high_stress_area_ratio = 0,
     sa_result = JNull, sa_created_at = 0\<rparr>"

definition read_stress :: "'db pg_env \<Rightarrow> string list \<Rightarrow> stress_analysis_result result" where
  "read_stress env row =
     and_then (cell_json env row 3) (\<lambda>params.
     and_then (cell_json env row 7) (\<lambda>res.
       Inr \<lparr>sa_id = pg_atoi env (cell row 0), sa_porcelain_id = pg_atoi env (cell row 1),
            sa_method = cell row 2, sa_parameters = params, sa_grid_points = [],
            sa_max_von_mises = pg_atof env (cell row 4), sa_avg_von_mises = pg_atof env (cell row 5),
            sa_high_stress_area_ratio = pg_atof env (cell row 6), sa_result = res,
            sa_created_at = 0\<rparr>))"

definition read_grid_point :: "'db pg_env \<Rightarrow> string list \<Rightarrow> stress_grid_point result" where
  "read_grid_point env row =
     (let f = (\<lambda>i. pg_atof env (cell row i)) in
      Inr \<lparr>gx = f 0, gy = f 1, gz = f 2,
           gstress = \<lparr>sigma_xx = f 3, sigma_yy = f 4, sigma_zz = f 5, tau_xy = f 6, tau_yz = f 7,
             tau_zx = f 8, von_mises = f 9\<rparr>,
           gcrack_density = f 10, gprincipal_direction = f 11, grefinement_level = indeterminate\<rparr>)"

text \<open>The latest analysis, then its grid when there is one.\<close>

definition get_latest_stress_analysis ::
  "'db pg_env \<Rightarrow> int \<Rightarrow> 'db dbm \<Rightarrow> (stress_analysis_result result \<times> 'db dbm) option" where
  "get_latest_stress_analysis env pid =
     with_conn (\<lambda>c db.
       case query_row env (Select ''stress_analysis_results'' stress_columns [(''porcelain_id'', pid)]
              (Some ''created_at DESC'') (Some 1)) empty_stress (read_stress env) c db of
         (Inl e, db) \<Rightarrow> (Inl e, db)
       | (Inr res, db) \<Rightarrow>
           if sa_id res > 0 then
             (case query_rows env (Select ''stress_grid_points''
                  [''x'', ''y'', ''z'', ''sigma_xx'', ''sigma_yy'', ''sigma_zz'', ''tau_xy'', ''tau_yz'',
                   ''tau_zx'', ''von_mises'', ''crack_density'', ''principal_direction'']
                  [(''analysis_id'', sa_id res)] (Some ''id'') None) (read_grid_point env) c db of
                (Inl e, db) \<Rightarrow> (Inl e, db)
              | (Inr pts, db) \<Rightarrow> (Inr (res\<lparr>sa_grid_points := pts\<rparr>), db))
           else (Inr res, db))"

definition get_stress_analysis_history ::
  "'db pg_env \<Rightarrow> int \<Rightarrow> int \<Rightarrow> 'db dbm \<Rightarrow> (stress_analysis_result list result \<times> 'db dbm) option" where
  "get_stress_analysis_history env pid limit =
     with_conn (query_rows env (Select ''stress_analysis_results'' stress_columns
       [(''porcelain_id'', pid)] (Some ''created_at DESC'') (Some limit)) (read_stress env))"

subsection \<open>Penetration, bending and repair records\<close>

definition insert_penetration_prediction ::
  "'db pg_env \<Rightarrow> penetration_prediction \<Rightarrow> 'db dbm \<Rightarrow> (int result \<times> 'db dbm) option" where
  "insert_penetration_prediction env p =
     with_conn (insert_returning env (and_then (json_or_null env (pn_parameters p)) (\<lambda>jp.
       and_then (json_or_null env (pn_result p)) (\<lambda>jr.
       Inr (Insert ''penetration_predictions''
         [(''crack_id'', VInt (pn_crack_id p)), (''material_id'', VInt (pn_material_id p)),
          (''method'', VText (pn_method p)), (''parameters'', jp),
          (''target_depth_um'', VNum (pn_target_depth_um p)),
          (''viscosity_pa_s'', VNum (pn_viscosity_pa_s p)),
          (''surface_tension_n_m'', VNum (pn_surface_tension_n_m p)),
          (''contact_angle_deg'', VNum (pn_contact_angle_deg p)),
          (''crack_width_um'', VNum (pn_crack_width_um p)),
          (''predicted_time_s'', VNum (pn_predicted_time_s p)),
          (''penetration_rate_um_s'', VNum (pn_penetration_rate_um_s p)),
          (''time_series'', VNums (pn_time_series p)), (''depth_series'', VNums (pn_depth_series p)),
          (''result'', jr), (''created_at'', VTime (to_time_t (pn_created_at p)))] True)))))"

definition read_penetration :: "'db pg_env \<Rightarrow> string list \<Rightarrow> penetration_prediction result" where
  "read_penetration env row =
     and_then (cell_json env row 4) (\<lambda>params.
     and_then (cell_json env row 12) (\<lambda>res.
       Inr (new_penetration_prediction
         \<lparr>pn_id := pg_atoi env (cell row 0), pn_crack_id := pg_atoi env (cell row 1),
          pn_material_id := pg_atoi env (cell row 2), pn_method := cell row 3,
          pn_parameters := params, pn_target_depth_um := pg_atof env (cell row 5),
          pn_viscosity_pa_s := pg_atof env (cell row 6),
          pn_surface_tension_n_m := pg_atof env (cell row 7),
          pn_contact_angle_deg := pg_atof env (cell row 8),
          pn_crack_width_um := pg_atof env (cell row 9),
          pn_predicted_time_s := pg_atof env (cell row 10),
          pn_penetration_rate_um_s := pg_atof env (cell row 11), pn_result := res\<rparr>)))"

definition get_penetration_predictions ::
  "'db pg_env \<Rightarrow> int \<Rightarrow> 'db dbm \<Rightarrow> (penetration_prediction list result \<times> 'db dbm) option" where
  "get_penetration_predictions env crack_id =
     with_conn (query_rows env (Select ''penetration_predictions''
       [''id'', ''crack_id'', ''material_id'', ''method'', ''parameters'', ''target_depth_um'',
        ''viscosity_pa_s'', ''surface_tension_n_m'', ''contact_angle_deg'', ''crack_width_um'',
        ''predicted_time_s'', ''penetration_rate_um_s'', ''result'', ''created_at'']
       [(''crack_id'', crack_id)] (Some ''created_at DESC'') None) (read_penetration env))"

definition insert_bending_test_result ::
  "'db pg_env \<Rightarrow> bending_test_result \<Rightarrow> 'db dbm \<Rightarrow> (int result \<times> 'db dbm) option" where
  "insert_bending_test_result env b =
     with_conn (insert_returning env (and_then (json_or_null env (bt_parameters b)) (\<lambda>jp.
       and_then (json_or_null env (bt_stress_distribution b)) (\<lambda>js.
       and_then (json_or_null env (bt_result b)) (\<lambda>jr.
       Inr (Insert ''bending_test_results''
         [(''porcelain_id'', VInt (bt_porcelain_id b)), (''crack_id'', VInt (bt_crack_id b)),
          (''material_id'', VInt (bt_material_id b)), (''method'', VText (bt_method b)),
          (''parameters'', jp), (''original_strength_mpa'', VNum (bt_original_strength_mpa b)),
          (''unrepaired_strength_mpa'', VNum (bt_unrepaired_strength_mpa b)),
          (''repaired_strength_mpa'', VNum (bt_repaired_strength_mpa b)),
          (''strength_recovery_ratio'', VNum (bt_strength_recovery_ratio b)),
          (''youngs_modulus_gpa'', VNum (bt_youngs_modulus_gpa b)),
          (''fracture_toughness_mpa_m05'', VNum (bt_fracture_toughness_mpa_m05 b)),
          (''load_series'', VNums (bt_load b)), (''displacement_series'', VNums (bt_disp b)),
          (''stress_distribution'', js), (''result'', jr),
          (''created_at'', VTime (to_time_t (bt_created_at b)))] True))))))"

definition read_bending :: "'db pg_env \<Rightarrow> string list \<Rightarrow> bending_test_result result" where
  "read_bending env row =
     and_then (cell_json env row 5) (\<lambda>params.
     and_then (cell_json env row 12) (\<lambda>res.
       Inr (new_bending_test_result
         \<lparr>bt_id := pg_atoi env (cell row 0), bt_porcelain_id := pg_atoi env (cell row 1),
          bt_crack_id := pg_atoi env (cell row 2), bt_material_id := pg_atoi env (cell row 3),
          bt_method := cell row 4, bt_parameters := params,
          bt_original_strength_mpa := pg_atof env (cell row 6),
          bt_unrepaired_strength_mpa := pg_atof env (cell row 7),
          bt_repaired_strength_mpa := pg_atof env (cell row 8),
          bt_strength_recovery_ratio := pg_atof env (cell row 9),
          bt_youngs_modulus_gpa := pg_atof env (cell row 10),
          bt_fracture_toughness_mpa_m05 := pg_atof env (cell row 11), bt_result := res\<rparr>)))"

definition get_bending_test_results ::
  "'db pg_env \<Rightarrow> int \<Rightarrow> int \<Rightarrow> 'db dbm \<Rightarrow> (bending_test_result list result \<times> 'db dbm) option" where
  "get_bending_test_results env pid crack_id =
     with_conn (query_rows env (Select ''bending_test_results''
       [''id'', ''porcelain_id'', ''crack_id'', ''material_id'', ''method'', ''parameters'',
        ''original_strength_mpa'', ''unrepaired_strength_mpa'', ''repaired_strength_mpa'',
        ''strength_recovery_ratio'', ''youngs_modulus_gpa'', ''fracture_toughness_mpa_m05'',
        ''result'', ''created_at'']
       ((''porcelain_id'', pid) # (if crack_id > 0 then [(''crack_id'', crack_id)] else []))
       (Some ''created_at DESC'') None) (read_bending env))"

definition insert_virtual_repair_record ::
  "'db pg_env \<Rightarrow> int \<Rightarrow> int \<Rightarrow> json \<Rightarrow> double \<Rightarrow> double \<Rightarrow> json \<Rightarrow> 'db dbm \<Rightarrow> (int result \<times> 'db dbm) option"
  where
  "insert_virtual_repair_record env pid crack_id region radius closure anim =
     with_conn (insert_returning env (and_then (json_or_null env region) (\<lambda>jr.
       and_then (json_or_null env anim) (\<lambda>ja.
       Inr (Insert ''virtual_repair_records''
         [(''porcelain_id'', VInt pid), (''crack_id'', VInt crack_id), (''repaired_region'', jr),
          (''repair_radius'', VNum radius), (''closure_ratio'', VNum closure),
          (''animation_data'', ja)] True)))))"

subsection \<open>What a failed grid insert leaves behind\<close>

text \<open>
  The documented behaviour of the server the code relies on, for one connection: in an aborted
  transaction every statement but its end fails and changes nothing; a failure inside a
  transaction aborts it; preparing a name twice on one connection fails; a rollback does not
  forget prepared statements.
\<close>

datatype txn_state = Txn_idle | Txn_active | Txn_aborted

definition pg_rules ::
  "'db pg_env \<Rightarrow> (nat \<Rightarrow> 'db \<Rightarrow> txn_state) \<Rightarrow> (nat \<Rightarrow> 'db \<Rightarrow> string set) \<Rightarrow> bool" where
  "pg_rules env txn prepared \<longleftrightarrow>
     (\<forall>c q db r db'. pg_exec env c q db = (r, db') \<longrightarrow>
       (q = Begin \<and> r = Command_ok \<longrightarrow> txn c db' = Txn_active) \<and>
       (txn c db = Txn_active \<and> r = Failed \<longrightarrow> txn c db' = Txn_aborted) \<and>
       (txn c db = Txn_active \<and> r \<noteq> Failed \<and> q \<noteq> Commit \<and> q \<noteq> Rollback \<longrightarrow> txn c db' = Txn_active) \<and>
       (txn c db = Txn_aborted \<and> q \<noteq> Commit \<and> q \<noteq> Rollback \<longrightarrow>
          r = Failed \<and> txn c db' = Txn_aborted \<and> prepared c db \<subseteq> prepared c db') \<and>
       (\<forall>n. q = Prepare n \<and> n \<in> prepared c db \<longrightarrow> r = Failed) \<and>
       (\<forall>n. q = Prepare n \<and> r = Command_ok \<longrightarrow> n \<in> prepared c db') \<and>
       ((\<forall>n. q \<noteq> Deallocate n) \<longrightarrow> prepared c db \<subseteq> prepared c db') \<and>
       (\<forall>n vs. q = Exec_prepared n vs \<longrightarrow> r = Command_ok \<or> r = Failed))"

lemma pg_rulesD:
  assumes "pg_rules env txn prepared" and "pg_exec env c q db = (r, db')"
  shows "q = Begin \<Longrightarrow> r = Command_ok \<Longrightarrow> txn c db' = Txn_active"
    and "txn c db = Txn_active \<Longrightarrow> r = Failed \<Longrightarrow> txn c db' = Txn_aborted"
    and "txn c db = Txn_active \<Longrightarrow> r \<noteq> Failed \<Longrightarrow> q \<noteq> Commit \<Longrightarrow> q \<noteq> Rollback \<Longrightarrow> txn c db' = Txn_active"
    and "txn c db = Txn_aborted \<Longrightarrow> q \<noteq> Commit \<Longrightarrow> q \<noteq> Rollback \<Longrightarrow>
      r = Failed \<and> txn c db' = Txn_aborted \<and> prepared c db \<subseteq> prepared c db'"
    and "q = Prepare n \<Longrightarrow> n \<in> prepared c db \<Longrightarrow> r = Failed"
    and "q = Prepare n \<Longrightarrow> r = Command_ok \<Longrightarrow> n \<in> prepared c db'"
    and "(\<And>n. q \<noteq> Deallocate n) \<Longrightarrow> prepared c db \<subseteq> prepared c db'"
    and "q = Exec_prepared n vs \<Longrightarrow> r = Command_ok \<or> r = Failed"
  using assms unfolding pg_rules_def by blast+

lemma rollback_prepared:
  assumes "pg_rules env txn prepared"
  shows "prepared c db \<subseteq> prepared c (snd (rollback_transaction env c db))"
  using pg_rulesD(7) [OF assms, of c Rollback db]
  by (auto simp: rollback_transaction_def split: prod.splits)

lemma begin_prepared:
  assumes "pg_rules env txn prepared" and "begin_transaction env c db = (ok, db')"
  shows "prepared c db \<subseteq> prepared c db' \<and> (ok \<longrightarrow> txn c db' = Txn_active)"
  using assms(2) pg_rulesD(1,7) [OF assms(1), of c Begin db]
  by (auto simp: begin_transaction_def split: prod.splits if_splits)

lemma grid_loop_failed:
  assumes "pg_rules env txn prepared" and "txn c db = Txn_active"
    and "grid_loop env c aid pts db = (False, db')"
  shows "txn c db' = Txn_aborted \<and> prepared c db \<subseteq> prepared c db'"
  using assms(2,3)
proof (induction pts arbitrary: db)
  case Nil
  then show ?case by simp
next
  case (Cons p ps)
  let ?q = "Exec_prepared grid_stmt (grid_params aid p)"
  obtain r db1 where e: "pg_exec env c ?q db = (r, db1)"
    by (cases "pg_exec env c ?q db")
  note rules = pg_rulesD [OF assms(1) e]
  show ?case
  proof (cases "r = Command_ok")
    case True
    then have "txn c db1 = Txn_active" "prepared c db \<subseteq> prepared c db1"
      using rules(3) [OF Cons.prems(1)] rules(7) by simp_all
    then show ?thesis
      using Cons.IH [of db1] Cons.prems(2) True e by auto
  next
    case False
    then have "r = Failed"
      using rules(8) by blast
    then show ?thesis
      using rules(2) [OF Cons.prems(1)] rules(7) Cons.prems(2) e by auto
  qed
qed

text \<open>A statement left prepared makes the whole operation fail and stays prepared.\<close>

lemma grid_op_poisoned:
  assumes "pg_rules env txn prepared" and "grid_stmt \<in> prepared c db"
  shows "\<not> fst (grid_op env aid points c db) \<and> grid_stmt \<in> prepared c (snd (grid_op env aid points c db))"
proof -
  obtain ok db1 where b: "begin_transaction env c db = (ok, db1)"
    by (cases "begin_transaction env c db")
  have p1: "grid_stmt \<in> prepared c db1"
    using begin_prepared [OF assms(1) b] assms(2) by blast
  obtain r db2 where e: "pg_exec env c (Prepare grid_stmt) db1 = (r, db2)"
    by (cases "pg_exec env c (Prepare grid_stmt) db1")
  have "r = Failed" "grid_stmt \<in> prepared c db2"
    using pg_rulesD(5,7) [OF assms(1) e] p1 by auto
  then show ?thesis
    using b e p1 rollback_prepared [OF assms(1), of c db2]
    by (auto simp: grid_op_def split: prod.splits)
qed


subsection \<open>A concrete session\<close>

text \<open>One session that follows the rules and rejects every row.\<close>

type_synonym session_state = "txn_state \<times> string set"

definition session_exec :: "nat \<Rightarrow> sql \<Rightarrow> session_state \<Rightarrow> pg_result \<times> session_state" where
  "session_exec c q s =
     (case s of (t, ps) \<Rightarrow>
        let failed = (Failed, (if t = Txn_active then Txn_aborted else t, ps)) in
        if t = Txn_aborted \<and> q \<noteq> Commit \<and> q \<noteq> Rollback then (Failed, s)
        else (case q of
            Begin \<Rightarrow> (Command_ok, (Txn_active, ps))
          | Commit \<Rightarrow> (Command_ok, (Txn_idle, ps))
          | Rollback \<Rightarrow> (Command_ok, (Txn_idle, ps))
          | Prepare n \<Rightarrow> if n \<in> ps then failed else (Command_ok, (t, insert n ps))
          | Deallocate n \<Rightarrow> (Command_ok, (t, ps - {n}))
          | Exec_prepared n vs \<Rightarrow> failed
          | _ \<Rightarrow> (Command_ok, s)))"

definition session_env :: "session_state pg_env" where
  "session_env = \<lparr>pg_exec = session_exec, pg_connected = (\<lambda>c db. True),
     pg_parse = (\<lambda>_. Inl Json_error), pg_dump = (\<lambda>_. Inr ''{}''), pg_atoi = (\<lambda>_. 0),
     pg_atof = (\<lambda>_. 0)\<rparr>"

lemma session_rules: "pg_rules session_env (\<lambda>c. fst) (\<lambda>c. snd)"
  unfolding pg_rules_def session_env_def
  by (auto simp: session_exec_def Let_def split: sql.splits if_splits)

definition demo_grid_point :: stress_grid_point where
  "demo_grid_point = \<lparr>gx = 0, gy = 0, gz = 0, gstress = \<lparr>sigma_xx = 0, sigma_yy = 0, sigma_zz = 0,
     tau_xy = 0, tau_yz = 0, tau_zx = 0, von_mises = 0\<rparr>, gcrack_density = 0,
     gprincipal_direction = 0, grefinement_level = 0\<rparr>"


end
