(* ===== verification/Http_Routes.thy ===== *)
theory Http_Routes
  imports Prelude "HOL-Library.Multiset"
begin

section \<open>Request routing of the HTTP server (src/http_server.cpp)\<close>

text \<open>
  The regular expressions of the routes, the table \<open>register_api_routes\<close> builds (after the route
  \<open>main.cpp\<close> adds for the metrics), and the choice \<open>route_request\<close> makes. The expressions use two
  constructs only, a literal character and the capture \<open>(\d+)\<close>; their meaning is the relation
  \<open>matches\<close>, and the function \<open>match_items\<close> takes the longest run of digits for each capture.
\<close>

subsection \<open>Patterns\<close>

datatype item = Lit char | Digits

definition is_digit :: "char \<Rightarrow> bool" where
  "is_digit c \<longleftrightarrow> 48 \<le> (of_char c :: nat) \<and> (of_char c :: nat) \<le> 57"

inductive matches :: "item list \<Rightarrow> string \<Rightarrow> string list \<Rightarrow> bool" where
  Nil: "matches [] [] []"
| Lit: "matches ps s cs \<Longrightarrow> matches (Lit c # ps) (c # s) cs"
| Digits: "ds \<noteq> [] \<Longrightarrow> list_all is_digit ds \<Longrightarrow> matches ps s cs \<Longrightarrow> matches (Digits # ps) (ds @ s) (ds # cs)"

inductive_simps matches_simps:
  "matches [] s cs" "matches (Lit c # ps) s cs" "matches (Digits # ps) s cs"

fun match_items :: "item list \<Rightarrow> string \<Rightarrow> string list option" where
  "match_items [] s = (if s = [] then Some [] else None)"
| "match_items (Lit c # ps) s = (case s of x # xs \<Rightarrow> if x = c then match_items ps xs else None | [] \<Rightarrow> None)"
| "match_items (Digits # ps) s =
     (let ds = takeWhile is_digit s in
      if ds = [] then None else map_option ((#) ds) (match_items ps (dropWhile is_digit s)))"

text \<open>A capture that is followed by a digit could be cut in several ways; none of the routes has one.\<close>

fun separated :: "item list \<Rightarrow> bool" where
  "separated (Digits # Digits # ps) = False"
| "separated (Digits # Lit c # ps) = (\<not> is_digit c \<and> separated ps)"
| "separated (_ # ps) = separated ps"
| "separated [] = True"

lemma match_items_sound: "match_items ps s = Some cs \<Longrightarrow> matches ps s cs"
proof (induction ps s arbitrary: cs rule: match_items.induct)
  case (3 ps s)
  then obtain cs' where cs: "cs = takeWhile is_digit s # cs'" "takeWhile is_digit s \<noteq> []"
      "match_items ps (dropWhile is_digit s) = Some cs'"
    by (auto simp: Let_def split: if_splits)
  then have "matches (Digits # ps) (takeWhile is_digit s @ dropWhile is_digit s) (takeWhile is_digit s # cs')"
    using 3 by (intro matches.Digits) (auto simp: Let_def list_all_iff dest: set_takeWhileD)
  then show ?case
    by (simp add: cs(1))
qed (auto simp: matches_simps split: if_splits list.splits)

lemma takeWhile_run:
  assumes "list_all P ds" and "s = [] \<or> \<not> P (hd s)"
  shows "takeWhile P (ds @ s) = ds \<and> dropWhile P (ds @ s) = s"
  using assms by (induction ds) (cases s; auto)+

lemma matches_head:
  assumes "matches ps s cs" and "separated (Digits # ps)"
  shows "s = [] \<or> \<not> is_digit (hd s)"
  using assms by (cases rule: matches.cases) auto

lemma separated_Digits: "separated (Digits # ps) \<Longrightarrow> separated ps"
  by (cases ps rule: separated.cases) auto

lemma separated_Lit: "separated (Lit c # ps) = separated ps"
  by simp

lemma match_items_complete: "matches ps s cs \<Longrightarrow> separated ps \<Longrightarrow> match_items ps s = Some cs"
proof (induction rule: matches.induct)
  case (Digits ds ps s cs)
  have "takeWhile is_digit (ds @ s) = ds \<and> dropWhile is_digit (ds @ s) = s"
    by (rule takeWhile_run [OF Digits.hyps(2) matches_head [OF Digits.hyps(3) Digits.prems]])
  then show ?case
    using Digits.hyps(1) Digits.IH [OF separated_Digits [OF Digits.prems]] by simp
qed simp_all

subsection \<open>The route table\<close>

datatype verb = Verb_get | Verb_post | Verb_other nat

datatype endpoint =
    Metrics
  | List_porcelains
  | Show_porcelain
  | Porcelain_cracks
  | Crack_points
  | Predict_crack
  | Simulate_repair
  | List_alerts
  | Acknowledge_alert
  | List_materials
  | Laser_history
  | Run_stress
  | Latest_stress
  | Penetration_test
  | Bending_test

record route =
  rt_pattern :: "item list"
  rt_verb :: verb
  rt_endpoint :: endpoint

definition lits :: "string \<Rightarrow> item list" where
  "lits s = map Lit s"

definition add_route :: "item list \<Rightarrow> verb \<Rightarrow> endpoint \<Rightarrow> route list \<Rightarrow> route list" where
  "add_route p v e routes = routes @ [\<lparr>rt_pattern = p, rt_verb = v, rt_endpoint = e\<rparr>]"

definition register_api_routes :: "route list \<Rightarrow> route list" where
  "register_api_routes routes = routes @
    [\<lparr>rt_pattern = lits ''/api/porcelains'', rt_verb = Verb_get, rt_endpoint = List_porcelains\<rparr>,
     \<lparr>rt_pattern = lits ''/api/porcelains/'' @ [Digits], rt_verb = Verb_get, rt_endpoint = Show_porcelain\<rparr>,
     \<lparr>rt_pattern = lits ''/api/porcelains/'' @ Digits # lits ''/cracks'', rt_verb = Verb_get, rt_endpoint = Porcelain_cracks\<rparr>,
     \<lparr>rt_pattern = lits ''/api/cracks/'' @ Digits # lits ''/points'', rt_verb = Verb_get, rt_endpoint = Crack_points\<rparr>,
     \<lparr>rt_pattern = lits ''/api/cracks/'' @ Digits # lits ''/predict'', rt_verb = Verb_post, rt_endpoint = Predict_crack\<rparr>,
     \<lparr>rt_pattern = lits ''/api/cracks/'' @ Digits # lits ''/simulate/'' @ [Digits], rt_verb = Verb_post, rt_endpoint = Simulate_repair\<rparr>,
     \<lparr>rt_pattern = lits ''/api/alerts'', rt_verb = Verb_get, rt_endpoint = List_alerts\<rparr>,
     \<lparr>rt_pattern = lits ''/api/alerts/'' @ Digits # lits ''/acknowledge'', rt_verb = Verb_post, rt_endpoint = Acknowledge_alert\<rparr>,
     \<lparr>rt_pattern = lits ''/api/materials'', rt_verb = Verb_get, rt_endpoint = List_materials\<rparr>,
     \<lparr>rt_pattern = lits ''/api/porcelains/'' @ Digits # lits ''/laser-data'', rt_verb = Verb_get, rt_endpoint = Laser_history\<rparr>,
     \<lparr>rt_pattern = lits ''/api/porcelains/'' @ Digits # lits ''/stress-analysis'', rt_verb = Verb_post, rt_endpoint = Run_stress\<rparr>,
     \<lparr>rt_pattern = lits ''/api/porcelains/'' @ Digits # lits ''/stress-analysis'', rt_verb = Verb_get, rt_endpoint = Latest_stress\<rparr>,
     \<lparr>rt_pattern = lits ''/api/cracks/'' @ Digits # lits ''/penetration/'' @ [Digits], rt_verb = Verb_post, rt_endpoint = Penetration_test\<rparr>,
     \<lparr>rt_pattern = lits ''/api/cracks/'' @ Digits # lits ''/bending-test/'' @ [Digits], rt_verb = Verb_post, rt_endpoint = Bending_test\<rparr>]"

text \<open>The table of the running server: the metrics route first, then \<open>start\<close> registers the others.\<close>

definition server_routes :: "route list" where
  "server_routes = register_api_routes (add_route (lits ''/metrics'') Verb_get Metrics [])"

definition route_match :: "string \<Rightarrow> verb \<Rightarrow> route \<Rightarrow> string list option" where
  "route_match path v r = (if rt_verb r = v then match_items (rt_pattern r) path else None)"

fun find_route :: "route list \<Rightarrow> string \<Rightarrow> verb \<Rightarrow> (endpoint \<times> string list) option" where
  "find_route [] path v = None"
| "find_route (r # rs) path v =
     (case route_match path v r of Some cs \<Rightarrow> Some (rt_endpoint r, cs) | None \<Rightarrow> find_route rs path v)"

datatype action =
    Serve_file string
  | Call endpoint "string list"
  | Api_not_found

definition route_request :: "route list \<Rightarrow> string \<Rightarrow> verb \<Rightarrow> action" where
  "route_request routes path v =
     (if path = ''/'' \<or> path = ''/index.html'' then Serve_file ''/index.html''
      else if take 5 path = ''/api/'' then
        (case find_route routes path v of Some (e, cs) \<Rightarrow> Call e cs | None \<Rightarrow> Api_not_found)
      else Serve_file path)"

subsection \<open>The matcher decides the regular expressions\<close>

lemma server_routes_separated: "list_all (\<lambda>r. separated (rt_pattern r)) server_routes"
  by code_simp


text \<open>May two patterns accept a common target?\<close>

fun overlap :: "item list \<Rightarrow> item list \<Rightarrow> bool" where
  "overlap [] [] = True"
| "overlap (Lit c # ps) (Lit d # qs) = (c = d \<and> overlap ps qs)"
| "overlap (Digits # ps) (Digits # qs) = overlap ps qs"
| "overlap (Lit c # ps) (Digits # qs) = is_digit c"
| "overlap (Digits # ps) (Lit c # qs) = is_digit c"
| "overlap _ _ = False"

lemma match_items_Cons_Nil [simp]: "match_items (p # ps) [] = None"
  by (cases p) simp_all

lemma match_overlap:
  "match_items ps s = Some cs \<Longrightarrow> match_items qs s = Some ds \<Longrightarrow> overlap ps qs"
proof (induction ps qs arbitrary: s cs ds rule: overlap.induct)
  case (3 ps qs)
  then show ?case
    by (auto simp: Let_def split: if_splits)
qed (auto simp: Let_def split: if_splits list.splits)

text \<open>Any two routes differ in their verb or cannot overlap.\<close>

fun pairwise :: "('a \<Rightarrow> 'a \<Rightarrow> bool) \<Rightarrow> 'a list \<Rightarrow> bool" where
  "pairwise P [] = True"
| "pairwise P (x # xs) = (list_all (P x) xs \<and> pairwise P xs)"

definition disjoint_routes :: "route \<Rightarrow> route \<Rightarrow> bool" where
  "disjoint_routes r q \<longleftrightarrow> rt_verb r \<noteq> rt_verb q
     \<or> \<not> overlap (rt_pattern r) (rt_pattern q) \<and> \<not> overlap (rt_pattern q) (rt_pattern r)"

lemma server_routes_disjoint: "pairwise disjoint_routes server_routes"
  by code_simp

lemma disjoint_routes_sym: "disjoint_routes r q = disjoint_routes q r"
  by (auto simp: disjoint_routes_def)

lemma disjoint_routes_match:
  "disjoint_routes r q \<Longrightarrow> route_match path v r = Some cs \<Longrightarrow> route_match path v q = None"
  using match_overlap by (fastforce simp: disjoint_routes_def route_match_def split: if_splits)

lemma find_route_unique:
  assumes "pairwise disjoint_routes rs"
  shows "find_route rs path v = Some (e, cs) \<longleftrightarrow>
    (\<exists>r \<in> set rs. rt_endpoint r = e \<and> route_match path v r = Some cs)"
  using assms
proof (induction rs)
  case (Cons r rs)
  show ?case
  proof (cases "route_match path v r")
    case None
    then show ?thesis
      using Cons by auto
  next
    case (Some ds)
    then have "route_match path v q = None" if "q \<in> set rs" for q
      using Cons.prems disjoint_routes_match that by (auto simp: list_all_iff)
    with Some show ?thesis
      by auto
  qed
qed simp

lemma pairwise_iff:
  assumes "\<And>x y. P x y = P y x" and "distinct xs"
  shows "pairwise P xs \<longleftrightarrow> (\<forall>x \<in> set xs. \<forall>y \<in> set xs. x \<noteq> y \<longrightarrow> P x y)"
  using assms(2)
proof (induction xs)
  case (Cons x xs)
  then show ?case
    using assms(1) by (auto simp: list_all_iff)
qed simp

lemma server_routes_distinct: "distinct server_routes"
  by code_simp

text \<open>The order in which the routes are registered does not matter: on every target and verb
  at most one route answers, and any permutation of the table chooses the same one.\<close>

theorem route_order_irrelevant:
  assumes "mset rs = mset server_routes"
  shows "route_request rs path v = route_request server_routes path v"
proof -
  have "set rs = set server_routes" and d: "distinct rs"
    using assms server_routes_distinct by (metis set_mset_mset, metis mset_eq_imp_distinct_iff)
  then have "pairwise disjoint_routes rs"
    using server_routes_disjoint
    by (simp add: pairwise_iff [OF disjoint_routes_sym] server_routes_distinct)
  then have "find_route rs path v = Some (e, cs) \<longleftrightarrow> find_route server_routes path v = Some (e, cs)" for e cs
    using \<open>set rs = set server_routes\<close> server_routes_disjoint by (simp add: find_route_unique)
  then have "find_route rs path v = find_route server_routes path v"
    by (metis option.exhaust surj_pair)
  then show ?thesis
    by (simp add: route_request_def)
qed

text \<open>Every character of a matched target is a digit or a literal of the pattern.\<close>

fun item_accepts :: "char \<Rightarrow> item \<Rightarrow> bool" where
  "item_accepts x (Lit c) = (x = c)"
| "item_accepts x Digits = is_digit x"

lemma matches_chars: "matches ps s cs \<Longrightarrow> x \<in> set s \<Longrightarrow> \<exists>i \<in> set ps. item_accepts x i"
  by (induction rule: matches.induct) (auto simp: list_all_iff intro: bexI [of _ Digits])

lemma matches_prefix: "matches (lits p @ ps) s cs \<Longrightarrow> take (length p) s = p"
  by (induction p arbitrary: s) (auto simp: lits_def matches_simps)

lemma metrics_pattern:
  "list_all (\<lambda>r. if rt_endpoint r = Metrics then rt_pattern r = lits ''/metrics'' else True) server_routes"
  by code_simp

lemma no_query_pattern: "list_all (\<lambda>r. \<not> list_ex (item_accepts CHR ''?'') (rt_pattern r)) server_routes"
  by code_simp

lemma find_route_in: "find_route rs path v = Some (e, cs) \<Longrightarrow>
    \<exists>r \<in> set rs. rt_endpoint r = e \<and> match_items (rt_pattern r) path = Some cs"
  by (induction rs) (auto simp: route_match_def split: option.splits if_splits)

text \<open>Two documented requests are never answered by their handlers: no target whatsoever calls
  the metrics handler, since the route table is consulted for targets under \<open>/api/\<close> only, and a
  target with a query string, such as the prediction call of the README, is answered with 404 or
  as a file.\<close>

theorem unreachable_requests:
  "route_request server_routes path v \<noteq> Call Metrics cs
   \<and> route_request server_routes (p @ CHR ''?'' # q) v \<in>
       {Api_not_found, Serve_file (p @ CHR ''?'' # q)}"
proof
  show "route_request server_routes path v \<noteq> Call Metrics cs"
  proof
    assume "route_request server_routes path v = Call Metrics cs"
    then have api: "take 5 path = ''/api/''" and f: "find_route server_routes path v = Some (Metrics, cs)"
      by (auto simp: route_request_def split: if_splits option.splits)
    obtain r where r: "r \<in> set server_routes" "rt_endpoint r = Metrics"
        "match_items (rt_pattern r) path = Some cs"
      using find_route_in [OF f] by blast
    then have "rt_pattern r = lits ''/metrics''"
      using metrics_pattern by (auto simp: list_all_iff)
    then have "take 8 path = ''/metrics''"
      using matches_prefix [of "''/metrics''" "[]" path cs] match_items_sound [OF r(3)]
      by (simp add: numeral_eq_Suc)
    then have "take 5 (take 8 path) = take 5 ''/metrics''"
      by simp
    then show False
      using api by simp
  qed
  let ?t = "p @ CHR ''?'' # q"
  have "find_route server_routes ?t v = None"
  proof (rule ccontr)
    assume "find_route server_routes ?t v \<noteq> None"
    then obtain e ds where "find_route server_routes ?t v = Some (e, ds)"
      by auto
    then obtain r where r: "r \<in> set server_routes" "match_items (rt_pattern r) ?t = Some ds"
      using find_route_in by blast
    have "\<exists>i \<in> set (rt_pattern r). item_accepts CHR ''?'' i"
      by (rule matches_chars [OF match_items_sound [OF r(2)]]) simp
    then show False
      using no_query_pattern r(1) by (auto simp: list_all_iff list_ex_iff)
  qed
  moreover have "?t \<noteq> ''/''" "?t \<noteq> ''/index.html''"
    by (auto simp: append_eq_Cons_conv)
  ultimately show "route_request server_routes ?t v \<in> {Api_not_found, Serve_file ?t}"
    by (simp add: route_request_def)
qed

subsection \<open>Concrete requests\<close>


theorem route_order_irrelevant_witness:
  "route_request (rev server_routes) ''/api/cracks/7/simulate/3'' Verb_post = Call Simulate_repair [''7'', ''3'']"
  by (subst route_order_irrelevant) (simp, code_simp)

end
