(* ===== verification/Config.thy ===== *)
theory Config
  imports Database
begin

section \<open>The configuration and its loader (include/config.h, include/config_loader.h)\<close>

text \<open>
  The configuration record with its defaults, the overrides from the environment, the loader of the
  JSON file, and the two copies \<open>main.cpp\<close> makes of the result. The environment and the file system
  are functions; the parser of the JSON library and \<open>std::atof\<close> are parameters. A loader step that
  throws keeps what the steps before it have assigned, as the \<open>catch\<close> block does.
\<close>

record database_config =
  dc_host :: string
  dc_port :: u16
  dc_name :: string
  dc_user :: string
  dc_password :: string
  dc_pool_size :: int
  dc_max_pool_size :: int
  dc_connection_timeout_ms :: int

record server_config =
  sc_profinet_port :: u16
  sc_http_port :: u16
  sc_websocket_port :: u16
  sc_bind_address :: string
  sc_thread_pool_size :: int

record alert_config =
  ac_depth_threshold :: double
  ac_width_threshold :: double
  ac_sms_enabled :: bool
  ac_websocket_enabled :: bool
  ac_sms_gateway_url :: string
  ac_alert_phone_number :: string

record paris_config =
  pc_default_C :: double
  pc_default_m :: double
  pc_stress_ratio :: double
  pc_prediction_horizon_hours :: int

record dem_config =
  dg_particle_radius_nm :: double
  dg_youngs_modulus :: double
  dg_poissons_ratio :: double
  dg_density :: double
  dg_max_particles :: int
  dg_simulation_steps :: int
  dg_time_step :: double

record stress_fem_config =
  sf_grid_resolution :: int
  sf_youngs_modulus_gpa :: double
  sf_poissons_ratio :: double
  sf_crack_density_sensitivity :: double
  sf_max_stress_mpa :: double
  sf_use_adaptive_mesh :: bool
  sf_max_refinement_level :: int
  sf_refinement_stress_gradient_threshold :: double
  sf_refinement_crack_density_threshold :: double
  sf_coarsening_stress_gradient_threshold :: double
  sf_min_grid_resolution :: int
  sf_max_total_nodes :: int

record washburn_config =
  wc_default_surface_tension_n_m :: double
  wc_default_contact_angle_deg :: double
  wc_tortuosity_factor :: double
  wc_surface_roughness_factor :: double
  wc_time_series_points :: int
  wc_wall_roughness_ra_um :: double
  wc_wenzel_roughness_correction :: bool
  wc_roughness_tortuosity_coeff :: double
  wc_roughness_radius_coeff :: double
  wc_min_roughness_factor :: double
  wc_max_roughness_factor :: double

record bending_config =
  bg_support_span_mm :: double
  bg_loading_span_mm :: double
  bg_specimen_width_mm :: double
  bg_specimen_thickness_mm :: double
  bg_porcelain_strength_mpa :: double
  bg_repair_interface_strength_ratio :: double
  bg_load_steps :: int
  bg_enable_bayesian_calibration :: bool
  bg_calibration_max_iter :: int
  bg_calibration_initial_samples :: int
  bg_calibration_exploration_weight :: double
  bg_calibration_noise_std :: double

record config =
  cfg_database :: database_config
  cfg_server :: server_config
  cfg_alerts :: alert_config
  cfg_paris_law :: paris_config
  cfg_dem :: dem_config
  cfg_stress_fem :: stress_fem_config
  cfg_washburn :: washburn_config
  cfg_bending_test :: bending_config

definition default_database :: database_config where
  "default_database = \<lparr>dc_host = ''localhost'', dc_port = 5432, dc_name = ''porcelain_monitor'',
     dc_user = ''postgres'', dc_password = ''postgres'', dc_pool_size = 10, dc_max_pool_size = 50,
     dc_connection_timeout_ms = 5000\<rparr>"

definition default_server :: server_config where
  "default_server = \<lparr>sc_profinet_port = 34964, sc_http_port = 8080, sc_websocket_port = 8081,
     sc_bind_address = ''0.0.0.0'', sc_thread_pool_size = 8\<rparr>"

definition default_alerts :: alert_config where
  "default_alerts = \<lparr>ac_depth_threshold = D 200, ac_width_threshold = D 50, ac_sms_enabled = True,
     ac_websocket_enabled = True, ac_sms_gateway_url = ''http://sms-gateway.example.com/send'',
     ac_alert_phone_number = ''+8613800138000''\<rparr>"

definition default_paris_config :: paris_config where
  "default_paris_config = \<lparr>pc_default_C = D (15 / 10 ^ 11), pc_default_m = D 3, pc_stress_ratio = D (1/10),
     pc_prediction_horizon_hours = 720\<rparr>"

definition default_dem :: dem_config where
  "default_dem = \<lparr>dg_particle_radius_nm = D 25, dg_youngs_modulus = D (70 * 10 ^ 9),
     dg_poissons_ratio = D (22/100), dg_density = D 3950, dg_max_particles = 10000,
     dg_simulation_steps = 1000, dg_time_step = D (1 / 10 ^ 9)\<rparr>"

definition default_stress_fem :: stress_fem_config where
  "default_stress_fem = \<lparr>sf_grid_resolution = 50, sf_youngs_modulus_gpa = D 70,
     sf_poissons_ratio = D (11/50), sf_crack_density_sensitivity = D 50, sf_max_stress_mpa = D 300,
     sf_use_adaptive_mesh = True, sf_max_refinement_level = 3,
     sf_refinement_stress_gradient_threshold = D 20,
     sf_refinement_crack_density_threshold = D (3/10),
     sf_coarsening_stress_gradient_threshold = D 5, sf_min_grid_resolution = 20,
     sf_max_total_nodes = 500000\<rparr>"

definition default_washburn :: washburn_config where
  "default_washburn = \<lparr>wc_default_surface_tension_n_m = D (9/125),
     wc_default_contact_angle_deg = D 30, wc_tortuosity_factor = D (3/2),
     wc_surface_roughness_factor = D (6/5), wc_time_series_points = 100,
     wc_wall_roughness_ra_um = D (1/2), wc_wenzel_roughness_correction = True,
     wc_roughness_tortuosity_coeff = D (3/10), wc_roughness_radius_coeff = D (3/20),
     wc_min_roughness_factor = D (1/10), wc_max_roughness_factor = D 3\<rparr>"

definition default_bending :: bending_config where
  "default_bending = \<lparr>bg_support_span_mm = D 40, bg_loading_span_mm = D 20,
     bg_specimen_width_mm = D 10, bg_specimen_thickness_mm = D 5,
     bg_porcelain_strength_mpa = D 120, bg_repair_interface_strength_ratio = D (93/100),
     bg_load_steps = 50, bg_enable_bayesian_calibration = False, bg_calibration_max_iter = 50,
     bg_calibration_initial_samples = 10, bg_calibration_exploration_weight = D (1/100),
     bg_calibration_noise_std = D (1/20)\<rparr>"

definition default_config :: config where
  "default_config = \<lparr>cfg_database = default_database, cfg_server = default_server,
     cfg_alerts = default_alerts, cfg_paris_law = default_paris_config, cfg_dem = default_dem,
     cfg_stress_fem = default_stress_fem, cfg_washburn = default_washburn,
     cfg_bending_test = default_bending\<rparr>"

subsection \<open>The environment\<close>

text \<open>\<open>std::atoi\<close>: blanks, a sign, digits; a value that does not fit is undefined.\<close>

definition blank :: "char \<Rightarrow> bool" where
  "blank c \<longleftrightarrow> of_char c \<in> {9, 10, 11, 12, 13, 32 :: nat}"

definition decimal :: "char \<Rightarrow> bool" where
  "decimal c \<longleftrightarrow> 48 \<le> (of_char c :: nat) \<and> (of_char c :: nat) \<le> 57"

definition unsigned_value :: "string \<Rightarrow> int" where
  "unsigned_value s = foldl (\<lambda>n c. 10 * n + (int (of_char c) - 48)) 0 (takeWhile decimal s)"

definition atoi :: "string \<Rightarrow> int result" where
  "atoi s =
     (let s = dropWhile blank s;
          v = (case s of [] \<Rightarrow> 0
               | c # cs \<Rightarrow> if c = CHR ''-'' then - unsigned_value cs
                           else if c = CHR ''+'' then unsigned_value cs else unsigned_value s)
      in if - (2 ^ 31) \<le> v \<and> v < 2 ^ 31 then Inr v else Inl (UB ''atoi out of range''))"

type_synonym environment = "string \<Rightarrow> string option"

definition getenv :: "environment \<Rightarrow> string \<Rightarrow> (string \<Rightarrow> 'c \<Rightarrow> 'c result) \<Rightarrow> 'c \<Rightarrow> 'c result" where
  "getenv env key assign c = (case env key of None \<Rightarrow> Inr c | Some v \<Rightarrow> assign v c)"

definition database_env :: "environment \<Rightarrow> database_config \<Rightarrow> database_config result" where
  "database_env env c =
     and_then (getenv env ''PM_DB_HOST'' (\<lambda>v c. Inr (c\<lparr>dc_host := v\<rparr>)) c) (\<lambda>c.
     and_then (getenv env ''PM_DB_PORT'' (\<lambda>v c. and_then (atoi v) (\<lambda>n. Inr (c\<lparr>dc_port := word_of_int n\<rparr>))) c) (\<lambda>c.
     and_then (getenv env ''PM_DB_NAME'' (\<lambda>v c. Inr (c\<lparr>dc_name := v\<rparr>)) c) (\<lambda>c.
     and_then (getenv env ''PM_DB_USER'' (\<lambda>v c. Inr (c\<lparr>dc_user := v\<rparr>)) c) (\<lambda>c.
     and_then (getenv env ''PM_DB_PASSWORD'' (\<lambda>v c. Inr (c\<lparr>dc_password := v\<rparr>)) c) (\<lambda>c.
     getenv env ''PM_DB_POOL_SIZE'' (\<lambda>v c. and_then (atoi v) (\<lambda>n.
       Inr (c\<lparr>dc_pool_size := max 1 (min n (dc_max_pool_size c))\<rparr>))) c)))))"

definition server_env :: "environment \<Rightarrow> server_config \<Rightarrow> server_config result" where
  "server_env env c =
     and_then (getenv env ''PM_PROFINET_PORT'' (\<lambda>v c. and_then (atoi v) (\<lambda>n. Inr (c\<lparr>sc_profinet_port := word_of_int n\<rparr>))) c) (\<lambda>c.
     and_then (getenv env ''PM_HTTP_PORT'' (\<lambda>v c. and_then (atoi v) (\<lambda>n. Inr (c\<lparr>sc_http_port := word_of_int n\<rparr>))) c) (\<lambda>c.
     and_then (getenv env ''PM_WS_PORT'' (\<lambda>v c. and_then (atoi v) (\<lambda>n. Inr (c\<lparr>sc_websocket_port := word_of_int n\<rparr>))) c) (\<lambda>c.
     getenv env ''PM_THREAD_POOL'' (\<lambda>v c. and_then (atoi v) (\<lambda>n. Inr (c\<lparr>sc_thread_pool_size := max 1 n\<rparr>))) c)))"

definition alert_env :: "(string \<Rightarrow> double) \<Rightarrow> environment \<Rightarrow> alert_config \<Rightarrow> alert_config result" where
  "alert_env atof env c =
     and_then (getenv env ''PM_DEPTH_THRESHOLD'' (\<lambda>v c. Inr (c\<lparr>ac_depth_threshold := atof v\<rparr>)) c) (\<lambda>c.
     and_then (getenv env ''PM_WIDTH_THRESHOLD'' (\<lambda>v c. Inr (c\<lparr>ac_width_threshold := atof v\<rparr>)) c) (\<lambda>c.
     getenv env ''PM_SMS_ENABLED'' (\<lambda>v c. Inr (c\<lparr>ac_sms_enabled := (v = ''1'' \<or> v = ''true'')\<rparr>)) c))"

definition apply_env :: "(string \<Rightarrow> double) \<Rightarrow> environment \<Rightarrow> config \<Rightarrow> config result" where
  "apply_env atof env c =
     and_then (database_env env (cfg_database c)) (\<lambda>d.
     and_then (server_env env (cfg_server c)) (\<lambda>s.
     and_then (alert_env atof env (cfg_alerts c)) (\<lambda>a.
     Inr (c\<lparr>cfg_database := d, cfg_server := s, cfg_alerts := a\<rparr>))))"

subsection \<open>The file\<close>

text \<open>\<open>get_to\<close> a 16-bit field: integers wrap, an out-of-range double is undefined.\<close>

definition json_get_u16 :: "json \<Rightarrow> u16 result" where
  "json_get_u16 j = (case j of
      JInt i \<Rightarrow> Inr (word_of_int i)
    | JNum d \<Rightarrow> and_then (trunc_to 0 65535 d) (\<lambda>i. Inr (word_of_int i))
    | JBool b \<Rightarrow> Inr (if b then 1 else 0)
    | _ \<Rightarrow> Inl Json_error)"

definition load_database :: "database_config loader" where
  "load_database = in_order
     [field json_get_str ''host'' (\<lambda>v c. c\<lparr>dc_host := v\<rparr>),
      field json_get_u16 ''port'' (\<lambda>v c. c\<lparr>dc_port := v\<rparr>),
      field json_get_str ''name'' (\<lambda>v c. c\<lparr>dc_name := v\<rparr>),
      field json_get_str ''user'' (\<lambda>v c. c\<lparr>dc_user := v\<rparr>),
      field json_get_str ''password'' (\<lambda>v c. c\<lparr>dc_password := v\<rparr>),
      field json_get_int ''pool_size'' (\<lambda>v c. c\<lparr>dc_pool_size := v\<rparr>)]"

definition load_server :: "server_config loader" where
  "load_server = in_order
     [field json_get_u16 ''profinet_port'' (\<lambda>v c. c\<lparr>sc_profinet_port := v\<rparr>),
      field json_get_u16 ''http_port'' (\<lambda>v c. c\<lparr>sc_http_port := v\<rparr>),
      field json_get_u16 ''websocket_port'' (\<lambda>v c. c\<lparr>sc_websocket_port := v\<rparr>),
      field json_get_str ''bind_address'' (\<lambda>v c. c\<lparr>sc_bind_address := v\<rparr>),
      field json_get_int ''thread_pool_size'' (\<lambda>v c. c\<lparr>sc_thread_pool_size := v\<rparr>)]"

definition load_alerts :: "alert_config loader" where
  "load_alerts = in_order
     [field json_get_num ''depth_threshold'' (\<lambda>v c. c\<lparr>ac_depth_threshold := v\<rparr>),
      field json_get_num ''width_threshold'' (\<lambda>v c. c\<lparr>ac_width_threshold := v\<rparr>),
      field json_get_bool ''sms_enabled'' (\<lambda>v c. c\<lparr>ac_sms_enabled := v\<rparr>),
      field json_get_bool ''websocket_enabled'' (\<lambda>v c. c\<lparr>ac_websocket_enabled := v\<rparr>),
      field json_get_str ''sms_gateway_url'' (\<lambda>v c. c\<lparr>ac_sms_gateway_url := v\<rparr>),
      field json_get_str ''alert_phone_number'' (\<lambda>v c. c\<lparr>ac_alert_phone_number := v\<rparr>)]"

definition load_paris_law :: "paris_config loader" where
  "load_paris_law = in_order
     [field json_get_num ''default_C'' (\<lambda>v c. c\<lparr>pc_default_C := v\<rparr>),
      field json_get_num ''default_m'' (\<lambda>v c. c\<lparr>pc_default_m := v\<rparr>),
      field json_get_num ''stress_ratio'' (\<lambda>v c. c\<lparr>pc_stress_ratio := v\<rparr>),
      field json_get_int ''prediction_horizon_hours'' (\<lambda>v c. c\<lparr>pc_prediction_horizon_hours := v\<rparr>)]"

definition load_dem :: "dem_config loader" where
  "load_dem = in_order
     [field json_get_num ''particle_radius_nm'' (\<lambda>v c. c\<lparr>dg_particle_radius_nm := v\<rparr>),
      field json_get_num ''youngs_modulus'' (\<lambda>v c. c\<lparr>dg_youngs_modulus := v\<rparr>),
      field json_get_num ''poissons_ratio'' (\<lambda>v c. c\<lparr>dg_poissons_ratio := v\<rparr>),
      field json_get_num ''density'' (\<lambda>v c. c\<lparr>dg_density := v\<rparr>),
      field json_get_int ''max_particles'' (\<lambda>v c. c\<lparr>dg_max_particles := v\<rparr>),
      field json_get_int ''simulation_steps'' (\<lambda>v c. c\<lparr>dg_simulation_steps := v\<rparr>),
      field json_get_num ''time_step'' (\<lambda>v c. c\<lparr>dg_time_step := v\<rparr>)]"

definition load_algorithms :: "config loader" where
  "load_algorithms = in_order
     [section_of ''paris_law'' cfg_paris_law (\<lambda>p c. c\<lparr>cfg_paris_law := p\<rparr>) load_paris_law,
      section_of ''dem'' cfg_dem (\<lambda>d c. c\<lparr>cfg_dem := d\<rparr>) load_dem]"

definition load_sections :: "config loader" where
  "load_sections = in_order
     [section_of ''database'' cfg_database (\<lambda>d c. c\<lparr>cfg_database := d\<rparr>) load_database,
      section_of ''server'' cfg_server (\<lambda>s c. c\<lparr>cfg_server := s\<rparr>) load_server,
      section_of ''alerts'' cfg_alerts (\<lambda>a c. c\<lparr>cfg_alerts := a\<rparr>) load_alerts,
      section_of ''algorithms'' (\<lambda>c. c) (\<lambda>x c. x) load_algorithms]"

text \<open>An exception is caught; undefined behaviour is not.\<close>

definition load_from_file :: "(string \<Rightarrow> double) \<Rightarrow> json_parser \<Rightarrow> environment \<Rightarrow> (string \<Rightarrow> bytes option) \<Rightarrow>
    string \<Rightarrow> config result" where
  "load_from_file atof parse env fs path =
     and_then (apply_env atof env default_config) (\<lambda>cfg.
       case fs path of
         None \<Rightarrow> Inr cfg
       | Some content \<Rightarrow>
           (case parse content of
              Inl e \<Rightarrow> Inr cfg
            | Inr j \<Rightarrow>
                (case load_sections j cfg of
                   (Some (UB m), cfg) \<Rightarrow> Inl (UB m)
                 | (_, cfg) \<Rightarrow> Inr cfg)))"

definition load_default :: "(string \<Rightarrow> double) \<Rightarrow> json_parser \<Rightarrow> environment \<Rightarrow> (string \<Rightarrow> bytes option) \<Rightarrow> config result" where
  "load_default atof parse env fs = load_from_file atof parse env fs ''config.json''"

subsection \<open>The server's two copies\<close>

text \<open>\<open>MonitorServer::init\<close> keeps what the loader returned in \<open>cfg_\<close>, copies it to the global
  configuration and applies the environment to the copy once more. The database pool is made from
  the copy, the I/O threads of \<open>start\<close> from \<open>cfg_\<close>.\<close>

definition server_init_config :: "(string \<Rightarrow> double) \<Rightarrow> environment \<Rightarrow> config \<Rightarrow> (config \<times> config) result" where
  "server_init_config atof env kept = and_then (apply_env atof env kept) (\<lambda>cfg. Inr (kept, cfg))"

definition io_thread_count :: "config \<Rightarrow> nat" where
  "io_thread_count kept = nat (sc_thread_pool_size (cfg_server kept))"

definition server_pool :: "'db pg_env \<Rightarrow> config \<Rightarrow> 'db \<Rightarrow> 'db dbm" where
  "server_pool env cfg db = pool_init env (nat (dc_pool_size (cfg_database cfg))) db"

subsection \<open>Lemmas\<close>

named_theorems loader_simps \<open>successful loading, one step at a time\<close>

lemma in_order_None [loader_simps]:
  "in_order [] j c = (None, c') \<longleftrightarrow> c' = c"
  "in_order (f # fs) j c = (None, c') \<longleftrightarrow> (\<exists>c1. f j c = (None, c1) \<and> in_order fs j c1 = (None, c'))"
  by (auto split: prod.splits option.splits)

declare in_order.simps [simp del]

lemma field_None [loader_simps]:
  "field get k assign j c = (None, c') \<longleftrightarrow>
    (if json_contains j k then \<exists>v. and_then (json_at j k) get = Inr v \<and> c' = assign v c else c' = c)"
  by (auto simp: field_def split: sum.splits)

lemma section_None [loader_simps]:
  "section_of k get put f j c = (None, c') \<longleftrightarrow>
    (if json_contains j k then \<exists>d x. json_at j k = Inr d \<and> f d (get c) = (None, x) \<and> c' = put x c else c' = c)"
  by (auto simp: section_of_def split: sum.splits prod.splits)

lemma getenv_Inr: "getenv env k assign c = Inr c' \<longleftrightarrow>
    (case env k of None \<Rightarrow> c' = c | Some v \<Rightarrow> assign v c = Inr c')"
  by (auto simp: getenv_def split: option.splits)

lemmas env_simps = database_env_def server_env_def alert_env_def getenv_Inr and_then_eq_Inr_iff

lemma json_at_contains: "json_at j k = Inr v \<Longrightarrow> json_contains j k"
  by (auto simp: json_at_def json_contains_def split: json.splits option.splits)

lemma section_kept:
  assumes "section_of k get put f j c = (None, c')" and "\<And>x c. p (put x c) = p c"
  shows "p c' = p c"
  using assms by (auto simp: section_None split: if_splits)

lemma section_loaded:
  assumes "section_of k get put f j c = (None, c')" and "\<And>x c. get (put x c) = x" and "json_at j k = Inr d"
  shows "f d (get c) = (None, get c')"
  using assms json_at_contains [OF assms(3)] by (auto simp: section_None)

lemma algorithms_kept:
  assumes "section_of ''algorithms'' (\<lambda>c. c) (\<lambda>x c. x) load_algorithms j c = (None, c')"
  shows "cfg_server c' = cfg_server c \<and> cfg_database c' = cfg_database c"
proof (cases "json_contains j ''algorithms''")
  case True
  then obtain d where "load_algorithms d c = (None, c')"
    using assms by (auto simp: section_None)
  then obtain c1 where c1: "section_of ''paris_law'' cfg_paris_law (\<lambda>p c. c\<lparr>cfg_paris_law := p\<rparr>) load_paris_law d c = (None, c1)"
      "section_of ''dem'' cfg_dem (\<lambda>x c. c\<lparr>cfg_dem := x\<rparr>) load_dem d c1 = (None, c')"
    unfolding load_algorithms_def in_order_None by blast
  show ?thesis
    using section_kept [OF c1(1), of cfg_server] section_kept [OF c1(2), of cfg_server]
      section_kept [OF c1(1), of cfg_database] section_kept [OF c1(2), of cfg_database] by simp
next
  case False
  then show ?thesis
    using assms by (simp add: section_None)
qed

lemma load_sections_None:
  assumes "load_sections j c = (None, c')"
  obtains c1 c2 c3 where
    "section_of ''database'' cfg_database (\<lambda>d c. c\<lparr>cfg_database := d\<rparr>) load_database j c = (None, c1)"
    "section_of ''server'' cfg_server (\<lambda>s c. c\<lparr>cfg_server := s\<rparr>) load_server j c1 = (None, c2)"
    "section_of ''alerts'' cfg_alerts (\<lambda>a c. c\<lparr>cfg_alerts := a\<rparr>) load_alerts j c2 = (None, c3)"
    "cfg_server c' = cfg_server c3" "cfg_database c' = cfg_database c3"
  using assms algorithms_kept unfolding load_sections_def in_order_None by blast

lemma loaded_thread_pool_size:
  assumes "load_sections j c = (None, c')" and "json_at j ''server'' = Inr s"
    and "json_at s ''thread_pool_size'' = Inr (JInt n)"
  shows "sc_thread_pool_size (cfg_server c') = wrap32 n"
  using assms(1)
proof (rule load_sections_None)
  fix c1 c2 c3
  assume sv: "section_of ''server'' cfg_server (\<lambda>s c. c\<lparr>cfg_server := s\<rparr>) load_server j c1 = (None, c2)"
    and al: "section_of ''alerts'' cfg_alerts (\<lambda>a c. c\<lparr>cfg_alerts := a\<rparr>) load_alerts j c2 = (None, c3)"
    and c': "cfg_server c' = cfg_server c3"
  have "load_server s (cfg_server c1) = (None, cfg_server c2)"
    by (rule section_loaded [OF sv _ assms(2)]) simp
  then have "sc_thread_pool_size (cfg_server c2) = wrap32 n"
    using assms(3) json_at_contains [OF assms(3)]
    by (auto simp: load_server_def loader_simps json_get_int_def)
  then show ?thesis
    using section_kept [OF al, of cfg_server] c' by simp
qed

lemma loaded_pool_size:
  assumes "load_sections j c = (None, c')" and "json_at j ''database'' = Inr d"
    and "json_at d ''pool_size'' = Inr (JInt p)"
  shows "dc_pool_size (cfg_database c') = wrap32 p"
  using assms(1)
proof (rule load_sections_None)
  fix c1 c2 c3
  assume db: "section_of ''database'' cfg_database (\<lambda>d c. c\<lparr>cfg_database := d\<rparr>) load_database j c = (None, c1)"
    and sv: "section_of ''server'' cfg_server (\<lambda>s c. c\<lparr>cfg_server := s\<rparr>) load_server j c1 = (None, c2)"
    and al: "section_of ''alerts'' cfg_alerts (\<lambda>a c. c\<lparr>cfg_alerts := a\<rparr>) load_alerts j c2 = (None, c3)"
    and c': "cfg_database c' = cfg_database c3"
  have "load_database d (cfg_database c) = (None, cfg_database c1)"
    by (rule section_loaded [OF db _ assms(2)]) simp
  then have "dc_pool_size (cfg_database c1) = wrap32 p"
    using assms(3) json_at_contains [OF assms(3)]
    by (auto simp: load_database_def loader_simps json_get_int_def)
  then show ?thesis
    using section_kept [OF al, of cfg_database] section_kept [OF sv, of cfg_database] c' by simp
qed

subsection \<open>Properties\<close>

definition env_or :: "environment \<Rightarrow> string \<Rightarrow> string \<Rightarrow> string" where
  "env_or env key dflt = (case env key of None \<Rightarrow> dflt | Some v \<Rightarrow> v)"

text \<open>The assignments as one record update, with the numbers of the environment read first.\<close>

definition env_int :: "environment \<Rightarrow> string \<Rightarrow> int option result" where
  "env_int env key = (case env key of None \<Rightarrow> Inr None | Some v \<Rightarrow> and_then (atoi v) (\<lambda>n. Inr (Some n)))"

definition opt_or :: "(int \<Rightarrow> 'a) \<Rightarrow> int option \<Rightarrow> 'a \<Rightarrow> 'a" where
  "opt_or f n d = (case n of None \<Rightarrow> d | Some x \<Rightarrow> f x)"

lemma opt_or_idem [simp]: "opt_or f n (opt_or f n d) = opt_or f n d"
  by (simp add: opt_or_def split: option.splits)

lemma env_or_idem [simp]: "env_or env k (env_or env k d) = env_or env k d"
  by (simp add: env_or_def split: option.splits)

lemma getenv_database:
  fixes c :: database_config
  shows "getenv env k (\<lambda>v c. Inr (c\<lparr>dc_host := v\<rparr>)) c = Inr (c\<lparr>dc_host := env_or env k (dc_host c)\<rparr>)"
    "getenv env k (\<lambda>v c. Inr (c\<lparr>dc_name := v\<rparr>)) c = Inr (c\<lparr>dc_name := env_or env k (dc_name c)\<rparr>)"
    "getenv env k (\<lambda>v c. Inr (c\<lparr>dc_user := v\<rparr>)) c = Inr (c\<lparr>dc_user := env_or env k (dc_user c)\<rparr>)"
    "getenv env k (\<lambda>v c. Inr (c\<lparr>dc_password := v\<rparr>)) c = Inr (c\<lparr>dc_password := env_or env k (dc_password c)\<rparr>)"
    "getenv env k (\<lambda>v c. and_then (atoi v) (\<lambda>n. Inr (c\<lparr>dc_port := word_of_int n\<rparr>))) c =
       and_then (env_int env k) (\<lambda>n. Inr (c\<lparr>dc_port := opt_or word_of_int n (dc_port c)\<rparr>))"
    "getenv env k (\<lambda>v c. and_then (atoi v) (\<lambda>n. Inr (c\<lparr>dc_pool_size := max 1 (min n (dc_max_pool_size c))\<rparr>))) c =
       and_then (env_int env k) (\<lambda>n. Inr (c\<lparr>dc_pool_size := opt_or (\<lambda>n. max 1 (min n (dc_max_pool_size c))) n (dc_pool_size c)\<rparr>))"
  by (cases "env k"; simp add: getenv_def env_or_def env_int_def opt_or_def and_then_assoc)+

lemma getenv_server:
  fixes c :: server_config
  shows "getenv env k (\<lambda>v c. and_then (atoi v) (\<lambda>n. Inr (c\<lparr>sc_profinet_port := word_of_int n\<rparr>))) c =
       and_then (env_int env k) (\<lambda>n. Inr (c\<lparr>sc_profinet_port := opt_or word_of_int n (sc_profinet_port c)\<rparr>))"
    "getenv env k (\<lambda>v c. and_then (atoi v) (\<lambda>n. Inr (c\<lparr>sc_http_port := word_of_int n\<rparr>))) c =
       and_then (env_int env k) (\<lambda>n. Inr (c\<lparr>sc_http_port := opt_or word_of_int n (sc_http_port c)\<rparr>))"
    "getenv env k (\<lambda>v c. and_then (atoi v) (\<lambda>n. Inr (c\<lparr>sc_websocket_port := word_of_int n\<rparr>))) c =
       and_then (env_int env k) (\<lambda>n. Inr (c\<lparr>sc_websocket_port := opt_or word_of_int n (sc_websocket_port c)\<rparr>))"
    "getenv env k (\<lambda>v c. and_then (atoi v) (\<lambda>n. Inr (c\<lparr>sc_thread_pool_size := max 1 n\<rparr>))) c =
       and_then (env_int env k) (\<lambda>n. Inr (c\<lparr>sc_thread_pool_size := opt_or (max 1) n (sc_thread_pool_size c)\<rparr>))"
  by (cases "env k"; simp add: getenv_def env_int_def opt_or_def and_then_assoc)+

lemma getenv_alert:
  fixes c :: alert_config
  shows "getenv env k (\<lambda>v c. Inr (c\<lparr>ac_depth_threshold := atof v\<rparr>)) c =
       Inr (c\<lparr>ac_depth_threshold := (case env k of None \<Rightarrow> ac_depth_threshold c | Some v \<Rightarrow> atof v)\<rparr>)"
    "getenv env k (\<lambda>v c. Inr (c\<lparr>ac_width_threshold := atof v\<rparr>)) c =
       Inr (c\<lparr>ac_width_threshold := (case env k of None \<Rightarrow> ac_width_threshold c | Some v \<Rightarrow> atof v)\<rparr>)"
    "getenv env k (\<lambda>v c. Inr (c\<lparr>ac_sms_enabled := (v = ''1'' \<or> v = ''true'')\<rparr>)) c =
       Inr (c\<lparr>ac_sms_enabled := (case env k of None \<Rightarrow> ac_sms_enabled c | Some v \<Rightarrow> v = ''1'' \<or> v = ''true'')\<rparr>)"
  by (cases "env k"; simp add: getenv_def)+

lemma database_env_eq:
  "database_env env c =
     and_then (env_int env ''PM_DB_PORT'') (\<lambda>port.
     and_then (env_int env ''PM_DB_POOL_SIZE'') (\<lambda>size.
     Inr (c\<lparr>dc_host := env_or env ''PM_DB_HOST'' (dc_host c), dc_port := opt_or word_of_int port (dc_port c),
       dc_name := env_or env ''PM_DB_NAME'' (dc_name c), dc_user := env_or env ''PM_DB_USER'' (dc_user c),
       dc_password := env_or env ''PM_DB_PASSWORD'' (dc_password c),
       dc_pool_size := opt_or (\<lambda>n. max 1 (min n (dc_max_pool_size c))) size (dc_pool_size c)\<rparr>)))"
  by (simp add: database_env_def getenv_database and_then_assoc)

lemma server_env_eq:
  "server_env env c =
     and_then (env_int env ''PM_PROFINET_PORT'') (\<lambda>p. and_then (env_int env ''PM_HTTP_PORT'') (\<lambda>h.
     and_then (env_int env ''PM_WS_PORT'') (\<lambda>w. and_then (env_int env ''PM_THREAD_POOL'') (\<lambda>t.
     Inr (c\<lparr>sc_profinet_port := opt_or word_of_int p (sc_profinet_port c),
       sc_http_port := opt_or word_of_int h (sc_http_port c),
       sc_websocket_port := opt_or word_of_int w (sc_websocket_port c),
       sc_thread_pool_size := opt_or (max 1) t (sc_thread_pool_size c)\<rparr>)))))"
  by (simp add: server_env_def getenv_server and_then_assoc)

lemma env_int_cases: "env_int env k = Inr n \<Longrightarrow> (n = None) = (env k = None)"
  by (auto simp: env_int_def and_then_eq_Inr_iff split: option.splits)

lemma database_env_result:
  assumes "database_env env c = Inr c'"
  shows "dc_host c' = env_or env ''PM_DB_HOST'' (dc_host c) \<and> dc_name c' = env_or env ''PM_DB_NAME'' (dc_name c) \<and>
    dc_user c' = env_or env ''PM_DB_USER'' (dc_user c) \<and> dc_password c' = env_or env ''PM_DB_PASSWORD'' (dc_password c) \<and>
    (if env ''PM_DB_POOL_SIZE'' = None then dc_pool_size c' = dc_pool_size c
     else dc_pool_size c' \<in> {1..max 1 (dc_max_pool_size c)})"
proof -
  obtain port size where size: "env_int env ''PM_DB_POOL_SIZE'' = Inr size"
    and c': "c' = c\<lparr>dc_host := env_or env ''PM_DB_HOST'' (dc_host c), dc_port := opt_or word_of_int port (dc_port c),
       dc_name := env_or env ''PM_DB_NAME'' (dc_name c), dc_user := env_or env ''PM_DB_USER'' (dc_user c),
       dc_password := env_or env ''PM_DB_PASSWORD'' (dc_password c),
       dc_pool_size := opt_or (\<lambda>n. max 1 (min n (dc_max_pool_size c))) size (dc_pool_size c)\<rparr>"
    using assms unfolding database_env_eq and_then_eq_Inr_iff by auto
  show ?thesis
    using env_int_cases [OF size] unfolding c' by (cases size) (auto simp: opt_or_def)
qed

lemma server_env_result:
  assumes "server_env env c = Inr c'"
  shows "if env ''PM_THREAD_POOL'' = None then sc_thread_pool_size c' = sc_thread_pool_size c
     else 1 \<le> sc_thread_pool_size c'"
proof -
  obtain t where t: "env_int env ''PM_THREAD_POOL'' = Inr t"
    and c': "sc_thread_pool_size c' = opt_or (max 1) t (sc_thread_pool_size c)"
    using assms unfolding server_env_eq and_then_eq_Inr_iff by auto
  show ?thesis
    using env_int_cases [OF t] unfolding c' by (cases t) (auto simp: opt_or_def)
qed

lemma database_env_idem: "database_env env c = Inr c' \<Longrightarrow> database_env env c' = Inr c'"
  unfolding database_env_eq and_then_eq_Inr_iff by (elim exE conjE, drule Inr_inject) auto

lemma server_env_idem: "server_env env c = Inr c' \<Longrightarrow> server_env env c' = Inr c'"
  unfolding server_env_eq and_then_eq_Inr_iff by (elim exE conjE, drule Inr_inject) auto

lemma alert_env_idem: "alert_env atof env c = Inr c' \<Longrightarrow> alert_env atof env c' = Inr c'"
  by (auto simp: alert_env_def getenv_alert split: option.splits)

lemma apply_env_idem: "apply_env atof env c = Inr c' \<Longrightarrow> apply_env atof env c' = Inr c'"
  by (auto simp: apply_env_def and_then_eq_Inr_iff database_env_idem server_env_idem alert_env_idem)

text \<open>In the copy the server works with, the environment wins over the file: every text
  variable that is set is the value used, a pool size from it lies between 1 and the maximum, a
  thread count from it is at least 1, and applying the environment again changes nothing. The
  other copy, which sets the number of I/O threads, is the loader's result as it is.\<close>

theorem environment_wins_in_copy:
  assumes "server_init_config atof env kept = Inr (kept', cfg)"
  shows "kept' = kept \<and> apply_env atof env cfg = Inr cfg \<and>
    dc_host (cfg_database cfg) = env_or env ''PM_DB_HOST'' (dc_host (cfg_database kept)) \<and>
    dc_name (cfg_database cfg) = env_or env ''PM_DB_NAME'' (dc_name (cfg_database kept)) \<and>
    dc_user (cfg_database cfg) = env_or env ''PM_DB_USER'' (dc_user (cfg_database kept)) \<and>
    dc_password (cfg_database cfg) = env_or env ''PM_DB_PASSWORD'' (dc_password (cfg_database kept)) \<and>
    (if env ''PM_DB_POOL_SIZE'' = None then dc_pool_size (cfg_database cfg) = dc_pool_size (cfg_database kept)
     else dc_pool_size (cfg_database cfg) \<in> {1..max 1 (dc_max_pool_size (cfg_database kept))}) \<and>
    (if env ''PM_THREAD_POOL'' = None then sc_thread_pool_size (cfg_server cfg) = sc_thread_pool_size (cfg_server kept)
     else 1 \<le> sc_thread_pool_size (cfg_server cfg))"
proof -
  have cfg: "kept' = kept" "apply_env atof env kept = Inr cfg"
    using assms by (auto simp: server_init_config_def and_then_eq_Inr_iff)
  then have "database_env env (cfg_database kept) = Inr (cfg_database cfg)"
      "server_env env (cfg_server kept) = Inr (cfg_server cfg)"
    by (auto simp: apply_env_def and_then_eq_Inr_iff)
  then show ?thesis
    using cfg apply_env_idem [OF cfg(2)] database_env_result server_env_result by blast
qed

text \<open>What the file says is not clamped. The number of I/O threads is the file's
  \<open>thread_pool_size\<close> whatever \<open>PM_THREAD_POOL\<close> says, so 0 or less starts no thread; and without
  \<open>PM_DB_POOL_SIZE\<close> a \<open>pool_size\<close> of 0 or less gives a pool on which every operation waits for ever.\<close>

theorem file_values_not_clamped:
  assumes "apply_env atof env default_config = Inr base" and "fs path = Some content" and "parse content = Inr j"
    and "load_sections j base = (None, kept)" and "server_init_config atof env kept = Inr (kept', cfg)"
    and "json_at j ''server'' = Inr s" and "json_at s ''thread_pool_size'' = Inr (JInt n)"
    and "json_at j ''database'' = Inr d" and "json_at d ''pool_size'' = Inr (JInt p)"
    and "env ''PM_DB_POOL_SIZE'' = None"
  shows "load_from_file atof parse env fs path = Inr kept \<and> io_thread_count kept' = nat (wrap32 n) \<and>
    (if wrap32 p \<le> 0 then insert_alert pg a (server_pool pg cfg db) = None else dc_pool_size (cfg_database cfg) = wrap32 p)"
proof -
  have cfg: "kept' = kept" "database_env env (cfg_database kept) = Inr (cfg_database cfg)"
    using assms(5) by (auto simp: server_init_config_def apply_env_def and_then_eq_Inr_iff)
  have "dc_pool_size (cfg_database cfg) = wrap32 p"
    using database_env_result [OF cfg(2)] loaded_pool_size [OF assms(4,8,9)] assms(10) by simp
  moreover have "insert_alert pg a (server_pool pg cfg db) = None" if "dc_pool_size (cfg_database cfg) \<le> 0"
    using that by (simp add: insert_alert_def with_conn_blocked server_pool_def pool_init_def)
  ultimately show ?thesis
    using assms(1-4) loaded_thread_pool_size [OF assms(4,6,7)] cfg(1)
    by (simp add: load_from_file_def io_thread_count_def)
qed

text \<open>A section that throws keeps the fields assigned before it.\<close>

lemma partial_file_kept:
  "load_sections (JObj [(''database'', JObj [(''host'', JStr h)]), (''server'', JObj [(''http_port'', JStr p)])]) c =
     (Some Json_error, c\<lparr>cfg_database := (cfg_database c)\<lparr>dc_host := h\<rparr>\<rparr>)"
  by (simp add: load_sections_def section_of_def field_def json_contains_def json_at_def in_order.simps
    load_database_def load_server_def json_get_str_def json_get_u16_def)

definition demo_environment :: environment where
  "demo_environment = [''PM_THREAD_POOL'' \<mapsto> ''4'', ''PM_DB_HOST'' \<mapsto> ''db'']"

lemma atoi_four: "atoi ''4'' = Inr 4"
  by (simp add: atoi_def unsigned_value_def blank_def decimal_def Let_def)

lemma demo_apply_env: "apply_env atof demo_environment c =
    Inr (c\<lparr>cfg_database := (cfg_database c)\<lparr>dc_host := ''db''\<rparr>,
      cfg_server := (cfg_server c)\<lparr>sc_thread_pool_size := 4\<rparr>\<rparr>)"
  by (simp add: apply_env_def database_env_def server_env_def alert_env_def getenv_def demo_environment_def
    atoi_four)

theorem environment_wins_in_copy_witness:
  "\<exists>cfg. server_init_config (\<lambda>_. 0) demo_environment default_config = Inr (default_config, cfg) \<and>
     dc_host (cfg_database cfg) = ''db'' \<and> dc_user (cfg_database cfg) = ''postgres''"
proof -
  obtain cfg where cfg: "server_init_config (\<lambda>_. 0) demo_environment default_config = Inr (default_config, cfg)"
    by (simp add: server_init_config_def demo_apply_env)
  from environment_wins_in_copy [OF this] have
    "dc_host (cfg_database cfg) = env_or demo_environment ''PM_DB_HOST'' (dc_host default_database)"
    "dc_user (cfg_database cfg) = env_or demo_environment ''PM_DB_USER'' (dc_user default_database)"
    by (simp_all add: default_config_def)
  then show ?thesis
    using cfg by (simp add: env_or_def demo_environment_def default_database_def)
qed

definition demo_file :: json where
  "demo_file = JObj [(''database'', JObj [(''pool_size'', JInt 0)]), (''server'', JObj [(''thread_pool_size'', JInt 0)])]"

theorem file_values_not_clamped_witness:
  "\<exists>kept cfg. load_from_file (\<lambda>_. 0) (\<lambda>_. Inr demo_file) demo_environment (\<lambda>_. Some []) ''config.json'' = Inr kept \<and>
     server_init_config (\<lambda>_. 0) demo_environment kept = Inr (kept, cfg) \<and> io_thread_count kept = 0 \<and>
     (\<forall>a. insert_alert demo_env a (server_pool demo_env cfg 0) = None)"
proof -
  define base where "base = default_config\<lparr>cfg_database := (cfg_database default_config)\<lparr>dc_host := ''db''\<rparr>,
      cfg_server := (cfg_server default_config)\<lparr>sc_thread_pool_size := 4\<rparr>\<rparr>"
  have base: "apply_env (\<lambda>_. 0) demo_environment default_config = Inr base"
    by (simp add: demo_apply_env base_def)
  obtain kept where kept: "load_sections demo_file base = (None, kept)"
    by (simp add: demo_file_def load_sections_def section_of_def field_def json_contains_def json_at_def
      in_order.simps load_database_def load_server_def json_get_int_def)
  obtain cfg where cfg: "server_init_config (\<lambda>_. 0) demo_environment kept = Inr (kept, cfg)"
    by (simp add: server_init_config_def demo_apply_env)
  have "load_from_file (\<lambda>_. 0) (\<lambda>_. Inr demo_file) demo_environment (\<lambda>_. Some []) ''config.json'' = Inr kept \<and>
      io_thread_count kept = nat (wrap32 0) \<and>
      (if wrap32 0 \<le> 0 then insert_alert demo_env a (server_pool demo_env cfg 0) = None
       else dc_pool_size (cfg_database cfg) = wrap32 0)" for a
    by (rule file_values_not_clamped [OF base _ _ kept cfg,
        where s = "JObj [(''thread_pool_size'', JInt 0)]" and d = "JObj [(''pool_size'', JInt 0)]"])
      (simp_all add: demo_file_def json_at_def demo_environment_def)
  then show ?thesis
    using cfg by (auto simp: wrap32_def)
qed


subsection \<open>The connection string\<close>

text \<open>The values are spliced in without quotes, as \<open>DatabaseManager::init\<close> hands them on.\<close>

definition build_conninfo :: "string \<Rightarrow> u16 \<Rightarrow> string \<Rightarrow> string \<Rightarrow> string \<Rightarrow> string" where
  "build_conninfo host port dbname user password =
     ''host='' @ host @ '' port='' @ to_string_int (uint port) @ '' dbname='' @ dbname @ '' user='' @ user
       @ '' password='' @ password"

definition server_conninfo :: "config \<Rightarrow> string" where
  "server_conninfo cfg =
     (let d = cfg_database cfg in build_conninfo (dc_host d) (dc_port d) (dc_name d) (dc_user d) (dc_password d))"

text \<open>The string does not determine the fields: a space in one of them starts another.\<close>

lemma conninfo_ambiguous:
  "build_conninfo host port dbname (user @ '' password='' @ a) b = build_conninfo host port dbname user (a @ '' password='' @ b)"
  "build_conninfo host port (dbname @ '' user='' @ a) b password = build_conninfo host port dbname (a @ '' user='' @ b) password"
  by (simp_all add: build_conninfo_def)

text \<open>The connection parameters can be injected through a field. With a password from the
  environment that itself contains a parameter, the server connects with the string of another
  configuration: one whose user and password are different.\<close>

theorem conninfo_injected:
  assumes "apply_env atof env c = Inr cfg" and "env ''PM_DB_PASSWORD'' = Some (a @ '' password='' @ b)"
  shows "server_conninfo cfg = server_conninfo (cfg\<lparr>cfg_database := (cfg_database cfg)
    \<lparr>dc_user := dc_user (cfg_database cfg) @ '' password='' @ a, dc_password := b\<rparr>\<rparr>)"
proof -
  have "database_env env (cfg_database c) = Inr (cfg_database cfg)"
    using assms(1) by (auto simp: apply_env_def and_then_eq_Inr_iff)
  then have "dc_password (cfg_database cfg) = a @ '' password='' @ b"
    using database_env_result assms(2) by (simp add: env_or_def)
  then show ?thesis
    by (simp add: server_conninfo_def build_conninfo_def Let_def)
qed

theorem conninfo_injected_witness:
  "\<exists>cfg. apply_env (\<lambda>_. 0) (\<lambda>k. if k = ''PM_DB_PASSWORD'' then Some ''x password=y'' else None) default_config = Inr cfg
     \<and> server_conninfo cfg = server_conninfo (cfg\<lparr>cfg_database := (cfg_database cfg)
         \<lparr>dc_user := dc_user (cfg_database cfg) @ '' password=x'', dc_password := ''y''\<rparr>\<rparr>)"
proof -
  obtain cfg where cfg: "apply_env (\<lambda>_. 0) (\<lambda>k. if k = ''PM_DB_PASSWORD'' then Some ''x password=y'' else None) default_config = Inr cfg"
    by (simp add: apply_env_def database_env_eq server_env_eq alert_env_def getenv_def env_int_def)
  show ?thesis
    using conninfo_injected [OF cfg, of "''x''" "''y''"] cfg by simp
qed

end
