(* ===== verification/Dem_Simulation.thy ===== *)
theory Dem_Simulation
  imports Data_Model Config
begin

section \<open>The particle simulation of a repair (algorithms/dem_simulation.cpp)\<close>

text \<open>
  Particles in a crack: generation, the time step (velocities, contacts, positions, boundary), the
  figures computed from the final state and the run that collects them, in rounded arithmetic. The
  random engine is a parameter: \<open>rnd n lo hi\<close> is the value of the \<open>n\<close>-th draw from the uniform
  distribution between \<open>lo\<close> and \<open>hi\<close>; the state counts the draws. The fields the constructor leaves
  indeterminate (the geometry and the material) are arguments of \<open>new_dem\<close>.
\<close>

type_synonym rnd = "nat \<Rightarrow> double \<Rightarrow> double \<Rightarrow> double"

record dem_particle =
  dp_position :: vec
  dp_velocity :: vec
  dp_force :: vec
  dp_radius :: double
  dp_mass :: double
  dp_material_id :: int
  dp_is_boundary :: bool
  dp_is_fixed :: bool
  dp_id :: int

record dem_contact =
  dc_particle_a :: int
  dc_particle_b :: int
  dc_normal :: vec
  dc_overlap :: double
  dc_normal_force :: double
  dc_tangent_force :: vec

record dem_params =
  dq_youngs_modulus :: double
  dq_poissons_ratio :: double
  dq_density :: double
  dq_restitution_coeff :: double
  dq_friction_coeff :: double
  dq_adhesion_coeff :: double
  dq_time_step :: double
  dq_gravity :: double
  dq_damping_coeff :: double
  dq_min_particle_radius :: double
  dq_max_particle_radius :: double
  dq_bond_strength :: double
  dq_surface_energy :: double

record dem_geometry =
  gm_crack_origin :: vec
  gm_crack_length :: double
  gm_crack_depth :: double
  gm_crack_width :: double
  gm_crack_angle :: double
  gm_boundary_points :: "vec list"

record dem =
  ds_params :: dem_params
  ds_geometry :: dem_geometry
  ds_particles :: "dem_particle list"
  ds_contacts :: "dem_contact list"
  ds_draws :: nat
  ds_material :: repair_material

definition default_dem_params :: dem_params where
  "default_dem_params = \<lparr>dq_youngs_modulus = D (70 * 10 ^ 9), dq_poissons_ratio = D (22/100),
     dq_density = D 3950, dq_restitution_coeff = D (3/10), dq_friction_coeff = D (5/10),
     dq_adhesion_coeff = D (1 / 10 ^ 9), dq_time_step = D (1 / 10 ^ 9), dq_gravity = D (981/100),
     dq_damping_coeff = D (5/100), dq_min_particle_radius = D (15 / 10 ^ 9),
     dq_max_particle_radius = D (35 / 10 ^ 9), dq_bond_strength = D (100 * 10 ^ 6),
     dq_surface_energy = D 1\<rparr>"

definition MAX_CONTACTS :: nat where
  "MAX_CONTACTS = 50000"

definition micro :: double where
  "micro = D (1 / 10 ^ 6)"

definition new_dem :: "dem_config \<Rightarrow> dem_geometry \<Rightarrow> repair_material \<Rightarrow> dem" where
  "new_dem cfg geometry material =
     \<lparr>ds_params = default_dem_params\<lparr>dq_youngs_modulus := dg_youngs_modulus cfg,
        dq_poissons_ratio := dg_poissons_ratio cfg, dq_density := dg_density cfg,
        dq_time_step := dg_time_step cfg,
        dq_min_particle_radius := dg_particle_radius_nm cfg * D (8/10),
        dq_max_particle_radius := dg_particle_radius_nm cfg * D (12/10)\<rparr>,
      ds_geometry = geometry\<lparr>gm_boundary_points := []\<rparr>, ds_particles = [], ds_contacts = [], ds_draws = 0,
      ds_material = material\<rparr>"

definition dem_set_parameters :: "dem_params \<Rightarrow> dem \<Rightarrow> dem" where
  "dem_set_parameters p s = s\<lparr>ds_params := p\<rparr>"

definition dem_reset :: "dem \<Rightarrow> dem" where
  "dem_reset s = s\<lparr>ds_particles := [], ds_contacts := [],
     ds_geometry := (ds_geometry s)\<lparr>gm_boundary_points := []\<rparr>\<rparr>"

subsection \<open>Vectors and forces\<close>

definition vector_norm :: "vec \<Rightarrow> double" where
  "vector_norm v = (case v of (x, y, z) \<Rightarrow> dsqrt (x * x + y * y + z * z))"

definition vector_normalize :: "vec \<Rightarrow> vec" where
  "vector_normalize v =
     (let n = vector_norm v in
      if n < D (1 / 10 ^ 15) then (0, 0, 0) else (case v of (x, y, z) \<Rightarrow> (x / n, y / n, z / n)))"

definition vector_sub :: "vec \<Rightarrow> vec \<Rightarrow> vec" where
  "vector_sub a b = (case (a, b) of ((x, y, z), (x', y', z')) \<Rightarrow> (x - x', y - y', z - z'))"

definition vector_add :: "vec \<Rightarrow> vec \<Rightarrow> vec" where
  "vector_add a b = (case (a, b) of ((x, y, z), (x', y', z')) \<Rightarrow> (x + x', y + y', z + z'))"

definition vector_mul :: "vec \<Rightarrow> double \<Rightarrow> vec" where
  "vector_mul v s = (case v of (x, y, z) \<Rightarrow> (x * s, y * s, z * s))"

definition vector_dot :: "vec \<Rightarrow> vec \<Rightarrow> double" where
  "vector_dot a b = (case (a, b) of ((x, y, z), (x', y', z')) \<Rightarrow> x * x' + y * y' + z * z')"

definition vector_cross :: "vec \<Rightarrow> vec \<Rightarrow> vec" where
  "vector_cross a b = (case (a, b) of ((x, y, z), (x', y', z')) \<Rightarrow>
     (y * z' - z * y', z * x' - x * z', x * y' - y * x'))"

definition random_double :: "rnd \<Rightarrow> double \<Rightarrow> double \<Rightarrow> dem \<Rightarrow> double \<times> dem" where
  "random_double rnd lo hi s = (rnd (ds_draws s) lo hi, s\<lparr>ds_draws := Suc (ds_draws s)\<rparr>)"

definition effective_radius :: "double \<Rightarrow> double \<Rightarrow> double" where
  "effective_radius r1 r2 = (r1 * r2) / (r1 + r2)"

definition effective_modulus :: "dem_params \<Rightarrow> double" where
  "effective_modulus p = dq_youngs_modulus p / (D 2 * (D 1 - dq_poissons_ratio p * dq_poissons_ratio p))"

definition hertz_contact_force :: "dem_params \<Rightarrow> double \<Rightarrow> double \<Rightarrow> double \<Rightarrow> double" where
  "hertz_contact_force p overlap radius_a radius_b =
     (if overlap \<le> 0 then 0
      else let r_eff = effective_radius radius_a radius_b;
               e_eff = effective_modulus p;
               k_h = (D 4 / D 3) * e_eff * dsqrt r_eff
           in k_h * dpow overlap (D (3/2)))"

definition damping_force :: "dem_params \<Rightarrow> double \<Rightarrow> double \<Rightarrow> double" where
  "damping_force p relative_velocity overlap =
     (if overlap \<le> 0 then 0
      else let gamma = D 2 * dq_damping_coeff p * dsqrt (dq_youngs_modulus p * dq_density p)
           in - gamma * relative_velocity * dsqrt overlap)"

definition van_der_waals_force :: "double \<Rightarrow> double \<Rightarrow> double" where
  "van_der_waals_force distance radius =
     (let hamaker = D (1 / 10 ^ 19);
          distance = (if distance < D (1 / 10 ^ 10) then D (1 / 10 ^ 10) else distance)
      in - hamaker * radius / (D 6 * distance * distance))"

subsection \<open>Geometry and particles\<close>

definition set_crack_geometry :: "crack_info \<Rightarrow> dem \<Rightarrow> dem" where
  "set_crack_geometry crack s =
     (let g = ds_geometry s;
          g = g\<lparr>gm_crack_length := ci_total_length crack, gm_crack_depth := ci_max_depth crack,
                gm_crack_width := ci_max_width crack\<rparr>;
          g = (case ci_points crack of [] \<Rightarrow> g
               | p # _ \<Rightarrow> g\<lparr>gm_crack_origin := (px p, py p, pz p)\<rparr>);
          g = g\<lparr>gm_boundary_points := gm_boundary_points g @ map (\<lambda>p. (px p, py p, pz p)) (ci_points crack)\<rparr>
      in s\<lparr>ds_geometry := g\<lparr>gm_crack_angle := datan2 (ci_max_depth crack) (ci_max_width crack)\<rparr>\<rparr>)"

definition set_material_properties :: "repair_material \<Rightarrow> dem \<Rightarrow> dem" where
  "set_material_properties material s =
     s\<lparr>ds_material := material,
       ds_params := (ds_params s)\<lparr>dq_youngs_modulus := D (70 * 10 ^ 9),
         dq_density := (case rm_type material of ZIRCONIA \<Rightarrow> D 5890 | SILICA \<Rightarrow> D 2200 | COMPOSITE \<Rightarrow> D 3950),
         dq_min_particle_radius := rm_particle_size_nm material * D (6/10) * D (1 / 10 ^ 9),
         dq_max_particle_radius := rm_particle_size_nm material * D (14/10) * D (1 / 10 ^ 9)\<rparr>\<rparr>"

definition half_sizes :: "dem_geometry \<Rightarrow> double \<times> double \<times> double" where
  "half_sizes g = (gm_crack_length g * D (1/2), gm_crack_width g * D (1/2) * micro, gm_crack_depth g * D (1/2) * micro)"

definition random_point_in_crack :: "rnd \<Rightarrow> dem \<Rightarrow> vec \<times> dem" where
  "random_point_in_crack rnd s =
     (case (gm_crack_origin (ds_geometry s), half_sizes (ds_geometry s)) of
        ((ox, oy, oz), (half_len, half_width, half_depth)) \<Rightarrow>
          (let (dx, s) = random_double rnd (- half_len) half_len s;
               (dy, s) = random_double rnd (- half_width) half_width s;
               (dz, s) = random_double rnd (- half_depth) half_depth s
           in ((ox + dx, oy + dy, oz + dz), s)))"

definition is_inside_crack :: "dem_geometry \<Rightarrow> vec \<Rightarrow> bool" where
  "is_inside_crack g point =
     (case (vector_sub point (gm_crack_origin g), half_sizes g) of
        ((x, y, z), (half_len, half_width, half_depth)) \<Rightarrow>
          \<bar>x\<bar> \<le> half_len \<and> \<bar>y\<bar> \<le> half_width \<and> \<bar>z\<bar> \<le> half_depth)"

definition sphere_volume :: "double \<Rightarrow> double" where
  "sphere_volume r = (D 4 / D 3) * M_PI * dpow r (D 3)"

definition generated_particle :: "dem \<Rightarrow> int \<Rightarrow> double \<Rightarrow> vec \<Rightarrow> dem_particle" where
  "generated_particle s i radius pos =
     \<lparr>dp_position = pos, dp_velocity = (0, 0, 0),
      dp_force = (0, 0, - D (981/100) * dq_density (ds_params s) * (D 4 / D 3) * M_PI * dpow radius (D 3)),
      dp_radius = radius,
      dp_mass = dq_density (ds_params s) * (D 4 / D 3) * M_PI * dpow radius (D 3),
      dp_material_id = rm_id (ds_material s), dp_is_boundary = False, dp_is_fixed = False, dp_id = i\<rparr>"

definition touches :: "vec \<Rightarrow> double \<Rightarrow> dem_particle \<Rightarrow> bool" where
  "touches pos radius p \<longleftrightarrow> vector_norm (vector_sub pos (dp_position p)) < radius + dp_radius p"

fun generate_loop :: "rnd \<Rightarrow> int list \<Rightarrow> dem \<Rightarrow> dem" where
  "generate_loop rnd [] s = s"
| "generate_loop rnd (i # is) s =
     (let (radius, s) = random_double rnd (dq_min_particle_radius (ds_params s)) (dq_max_particle_radius (ds_params s)) s;
          (pos, s) = random_point_in_crack rnd s
      in generate_loop rnd is
        (if list_ex (touches pos radius) (ds_particles s) then s
         else s\<lparr>ds_particles := ds_particles s @ [generated_particle s i radius pos]\<rparr>))"

definition generate_particles :: "rnd \<Rightarrow> int \<Rightarrow> dem \<Rightarrow> dem" where
  "generate_particles rnd count s = generate_loop rnd [0..count - 1] (s\<lparr>ds_particles := []\<rparr>)"

definition boundary_particle :: "nat \<Rightarrow> int \<Rightarrow> vec \<Rightarrow> dem_particle" where
  "boundary_particle n i pos =
     \<lparr>dp_position = pos, dp_velocity = (0, 0, 0), dp_force = (0, 0, 0), dp_radius = D (5 / 10 ^ 7),
      dp_mass = D (10 ^ 6), dp_material_id = 0, dp_is_boundary = True, dp_is_fixed = True,
      dp_id = int n + i\<rparr>"

fun boundary_loop :: "int \<Rightarrow> vec list \<Rightarrow> dem_particle list \<Rightarrow> dem_particle list" where
  "boundary_loop i [] ps = ps"
| "boundary_loop i (v # vs) ps = boundary_loop (i + 1) vs (ps @ [boundary_particle (length ps) i v])"

definition generate_boundary :: "dem \<Rightarrow> dem" where
  "generate_boundary s = s\<lparr>ds_particles := boundary_loop 0 (gm_boundary_points (ds_geometry s)) (ds_particles s)\<rparr>"

subsection \<open>The time step\<close>

definition compute_contact_forces :: "nat \<Rightarrow> nat \<Rightarrow> dem \<Rightarrow> dem" where
  "compute_contact_forces i j s =
     (let a = ds_particles s ! i; b = ds_particles s ! j; p = ds_params s;
          diff = vector_sub (dp_position b) (dp_position a);
          dist = vector_norm diff;
          min_dist = dp_radius a + dp_radius b
      in if dist < min_dist \<and> D (1 / 10 ^ 15) < dist then
           (let normal = vector_normalize diff;
                overlap = min_dist - dist;
                rel_vel = vector_dot (vector_sub (dp_velocity b) (dp_velocity a)) normal;
                f_normal = hertz_contact_force p overlap (dp_radius a) (dp_radius b)
                  + damping_force p rel_vel overlap
                  + van_der_waals_force dist ((dp_radius a + dp_radius b) / D 2);
                force_vec = vector_mul normal (- f_normal);
                contact = \<lparr>dc_particle_a = dp_id a, dc_particle_b = dp_id b, dc_normal = normal,
                  dc_overlap = overlap, dc_normal_force = f_normal, dc_tangent_force = (0, 0, 0)\<rparr>
            in s\<lparr>ds_particles := (ds_particles s)
                   [i := a\<lparr>dp_force := vector_add (dp_force a) force_vec\<rparr>,
                    j := b\<lparr>dp_force := vector_sub (dp_force b) force_vec\<rparr>],
                 ds_contacts := ds_contacts s @ [contact]\<rparr>)
         else s)"

fun collide_with :: "nat \<Rightarrow> nat list \<Rightarrow> dem \<Rightarrow> dem" where
  "collide_with i [] s = s"
| "collide_with i (j # js) s =
     (if MAX_CONTACTS \<le> length (ds_contacts s) then s
      else collide_with i js (compute_contact_forces i j s))"

fun collide_all :: "nat list \<Rightarrow> dem \<Rightarrow> dem" where
  "collide_all [] s = s"
| "collide_all (i # is) s =
     (let s = collide_with i [Suc i..<length (ds_particles s)] s in
      if MAX_CONTACTS \<le> length (ds_contacts s) then s else collide_all is s)"

definition detect_collisions :: "dem \<Rightarrow> dem" where
  "detect_collisions s = collide_all [0..<length (ds_particles s)] (s\<lparr>ds_contacts := []\<rparr>)"

definition strayed :: "dem_geometry \<Rightarrow> vec \<Rightarrow> bool" where
  "strayed g pos =
     (let max_dist = std_max (std_max (gm_crack_length g) (gm_crack_width g * micro)) (gm_crack_depth g * micro)
      in case vector_sub pos (gm_crack_origin g) of (x, y, z) \<Rightarrow>
           max_dist < \<bar>x\<bar> \<or> max_dist < \<bar>y\<bar> \<or> max_dist < \<bar>z\<bar>)"

fun boundary_conditions :: "rnd \<Rightarrow> dem_particle list \<Rightarrow> dem \<Rightarrow> dem_particle list \<times> dem" where
  "boundary_conditions rnd [] s = ([], s)"
| "boundary_conditions rnd (p # ps) s =
     (let (q, s) =
        (if dp_is_fixed p then (p\<lparr>dp_velocity := (0, 0, 0), dp_force := (0, 0, 0)\<rparr>, s)
         else if strayed (ds_geometry s) (dp_position p) then
           (let (pos, s) = random_point_in_crack rnd s
            in (p\<lparr>dp_velocity := (0, 0, 0), dp_position := pos\<rparr>, s))
         else (p, s));
        (qs, s) = boundary_conditions rnd ps s
      in (q # qs, s))"

definition apply_boundary_conditions :: "rnd \<Rightarrow> dem \<Rightarrow> dem" where
  "apply_boundary_conditions rnd s =
     (let (ps, s) = boundary_conditions rnd (ds_particles s) s in s\<lparr>ds_particles := ps\<rparr>)"

definition kick :: "double \<Rightarrow> dem_particle \<Rightarrow> dem_particle" where
  "kick time_step p =
     (if \<not> dp_is_fixed p \<and> 0 < dp_mass p then
        (let acc = vector_mul (dp_force p) (D 1 / dp_mass p)
         in p\<lparr>dp_velocity := vector_add (dp_velocity p) (vector_mul acc (time_step * D (1/2)))\<rparr>)
      else p)"

definition integrate_velocities :: "dem \<Rightarrow> dem" where
  "integrate_velocities s = s\<lparr>ds_particles := map (kick (dq_time_step (ds_params s))) (ds_particles s)\<rparr>"

definition drift :: "double \<Rightarrow> dem_particle \<Rightarrow> dem_particle" where
  "drift time_step p =
     (if \<not> dp_is_fixed p then
        p\<lparr>dp_position := vector_add (dp_position p) (vector_mul (dp_velocity p) time_step),
          dp_force := (0, 0, - D (981/100) * dp_mass p)\<rparr>
      else p)"

definition integrate_positions :: "dem \<Rightarrow> dem" where
  "integrate_positions s = s\<lparr>ds_particles := map (drift (dq_time_step (ds_params s))) (ds_particles s)\<rparr>"

definition dem_step :: "rnd \<Rightarrow> dem \<Rightarrow> dem" where
  "dem_step rnd s = apply_boundary_conditions rnd (integrate_positions (detect_collisions (integrate_velocities s)))"

subsection \<open>Figures of the final state\<close>

definition repair_inside :: "dem \<Rightarrow> dem_particle \<Rightarrow> bool" where
  "repair_inside s p \<longleftrightarrow> \<not> dp_is_boundary p \<and> is_inside_crack (ds_geometry s) (dp_position p)"

definition calculate_filling_rate :: "dem \<Rightarrow> double" where
  "calculate_filling_rate s =
     (let g = ds_geometry s in
      if gm_crack_length g \<le> 0 \<or> gm_crack_width g \<le> 0 \<or> gm_crack_depth g \<le> 0 then 0
      else
        (let crack_volume = gm_crack_length g * gm_crack_width g * micro * gm_crack_depth g * micro;
             particle_volume = foldl (\<lambda>v p. if repair_inside s p then v + sphere_volume (dp_radius p) else v) 0 (ds_particles s)
         in if 0 < crack_volume then std_min (D 1) (particle_volume / crack_volume) else 0))"

definition calculate_packing_density :: "dem \<Rightarrow> double" where
  "calculate_packing_density s =
     (let occupied_volume = foldl (\<lambda>v p. if \<not> dp_is_boundary p then v + sphere_volume (dp_radius p) else v) 0 (ds_particles s)
      in case half_sizes (ds_geometry s) of (half_len, half_width, half_depth) \<Rightarrow>
        (let total_volume = D 8 * half_len * half_width * half_depth
         in if 0 < total_volume then occupied_volume / total_volume else 0))"

definition calculate_surface_smoothness :: "dem \<Rightarrow> double" where
  "calculate_surface_smoothness s =
     (if length (ds_particles s) < 2 then D 1
      else
        (let inside = filter (repair_inside s) (ds_particles s);
             z = (\<lambda>p. snd (snd (dp_position p)));
             count = of_i (int (length inside));
             mean_z = foldl (\<lambda>m p. m + z p) 0 inside / count;
             variance = (if inside = [] then 0
               else foldl (\<lambda>v p. v + dpow (z p - mean_z) (D 2)) 0 inside / count);
             roughness = dsqrt variance;
             smoothness = D 1 - std_min (D 1) (roughness / (dq_max_particle_radius (ds_params s) * D 2))
         in std_max 0 smoothness))"

definition calculate_bonding_strength :: "dem \<Rightarrow> double" where
  "calculate_bonding_strength s =
     (let pulling = filter (\<lambda>c. 0 < dc_normal_force c) (ds_contacts s);
          total_bond = foldl (\<lambda>t c. t + dc_normal_force c / std_max (D (1 / 10 ^ 9)) (dc_overlap c)) 0 pulling
      in if pulling = [] then D (1/2)
         else
           (let avg_bond = total_bond / of_i (int (length pulling));
                normalized = avg_bond / (dq_bond_strength (ds_params s) * micro)
            in std_min (D 1) normalized))"

definition calculate_durability :: "dem \<Rightarrow> double" where
  "calculate_durability s =
     D (35/100) * calculate_filling_rate s + D (3/10) * calculate_bonding_strength s
       + D (2/10) * calculate_surface_smoothness s + D (15/100) * calculate_packing_density s"

definition calculate_porosity :: "dem \<Rightarrow> double" where
  "calculate_porosity s = D 1 - calculate_packing_density s"

subsection \<open>The run\<close>

record dem_result =
  dr_particles :: "dem_particle list"
  dr_total_steps :: int
  dr_simulation_time :: double
  dr_filling_rate :: double
  dr_average_packing_density :: double
  dr_bonding_strength :: double
  dr_surface_smoothness :: double
  dr_durability_score :: double
  dr_particle_count :: int
  dr_contact_count :: int
  dr_max_force :: double
  dr_avg_force :: double
  dr_porosity :: double
  dr_energy_history :: "double list"
  dr_force_history :: "double list"
  dr_parameters :: dem_params

text \<open>What a run accumulates: the largest force, the sum of forces, the two histories, and, as
  history of the model, the number of steps executed.\<close>

record dem_run =
  rn_max_force :: double
  rn_sum_force :: double
  rn_energy :: "double list"
  rn_force :: "double list"
  rn_executed :: nat

definition total_energy :: "dem_particle list \<Rightarrow> double" where
  "total_energy ps =
     (let moving = filter (\<lambda>p. \<not> dp_is_fixed p) ps;
          ke = foldl (\<lambda>e p. e + D (1/2) * dp_mass p * vector_dot (dp_velocity p) (dp_velocity p)) 0 moving;
          pe = foldl (\<lambda>e p. e + dp_mass p * D (981/100) * snd (snd (dp_position p))) 0 moving
      in ke + pe)"

definition step_max_force :: "dem_particle list \<Rightarrow> double" where
  "step_max_force ps = foldl (\<lambda>m p. std_max m (vector_norm (dp_force p))) 0 ps"

definition step_sum_force :: "dem_particle list \<Rightarrow> double" where
  "step_sum_force ps = foldl (\<lambda>m p. m + vector_norm (dp_force p)) 0 ps"

definition average_speed :: "dem_particle list \<Rightarrow> double" where
  "average_speed ps =
     (let moving = filter (\<lambda>p. \<not> dp_is_fixed p) ps;
          total = foldl (\<lambda>v p. v + vector_norm (dp_velocity p)) 0 moving
      in if moving = [] then total else total / of_i (int (length moving)))"

definition record_step :: "nat \<Rightarrow> dem_particle list \<Rightarrow> dem_run \<Rightarrow> dem_run" where
  "record_step k ps r =
     (let r = r\<lparr>rn_max_force := std_max (rn_max_force r) (step_max_force ps),
                rn_sum_force := rn_sum_force r + step_sum_force ps,
                rn_executed := Suc (rn_executed r)\<rparr>
      in if k mod 10 = 0 then
           r\<lparr>rn_energy := rn_energy r @ [total_energy ps], rn_force := rn_force r @ [step_max_force ps]\<rparr>
         else r)"

fun run_steps :: "rnd \<Rightarrow> nat list \<Rightarrow> dem \<Rightarrow> dem_run \<Rightarrow> dem \<times> dem_run" where
  "run_steps rnd [] s r = (s, r)"
| "run_steps rnd (k # ks) s r =
     (let s = dem_step rnd s;
          r = record_step k (ds_particles s) r
      in if k mod 100 = 0 \<and> 0 < k \<and> average_speed (ds_particles s) < D (1 / 10 ^ 12) then (s, r)
         else run_steps rnd ks s r)"

text \<open>\<open>reserve\<close> converts a negative count to a huge one and throws; integer division truncates.\<close>

definition dem_run_result :: "rnd \<Rightarrow> int \<Rightarrow> dem \<Rightarrow> (dem_result \<times> dem_run \<times> dem) result" where
  "dem_run_result rnd max_steps s0 =
     (if max_steps \<le> - 20 then Inl (Length_error ''vector::reserve'')
      else
        (let (s, r) = run_steps rnd [0..<nat max_steps] s0
               \<lparr>rn_max_force = 0, rn_sum_force = 0, rn_energy = [], rn_force = [], rn_executed = 0\<rparr>
         in Inr (\<lparr>dr_particles = filter (\<lambda>p. \<not> dp_is_boundary p) (ds_particles s),
              dr_total_steps = max_steps,
              dr_simulation_time = of_i max_steps * dq_time_step (ds_params s),
              dr_filling_rate = calculate_filling_rate s,
              dr_average_packing_density = calculate_packing_density s,
              dr_bonding_strength = calculate_bonding_strength s,
              dr_surface_smoothness = calculate_surface_smoothness s,
              dr_durability_score = calculate_durability s,
              dr_particle_count = int (length (filter (\<lambda>p. \<not> dp_is_boundary p) (ds_particles s0))),
              dr_contact_count = int (length (ds_contacts s)),
              dr_max_force = rn_max_force r,
              dr_avg_force = (if 0 < max_steps then rn_sum_force r / of_i max_steps else 0),
              dr_porosity = calculate_porosity s,
              dr_energy_history = rn_energy r, dr_force_history = rn_force r,
              dr_parameters = ds_params s0\<rparr>, r, s)))"

definition dem_result_to_json :: "dem_result \<Rightarrow> json" where
  "dem_result_to_json r = JObj
     [(''total_steps'', JInt (dr_total_steps r)), (''simulation_time'', JNum (dr_simulation_time r)),
      (''particle_count'', JInt (dr_particle_count r)), (''contact_count'', JInt (dr_contact_count r)),
      (''filling_rate'', JNum (dr_filling_rate r)), (''packing_density'', JNum (dr_average_packing_density r)),
      (''bonding_strength'', JNum (dr_bonding_strength r)), (''surface_smoothness'', JNum (dr_surface_smoothness r)),
      (''durability_score'', JNum (dr_durability_score r)), (''porosity'', JNum (dr_porosity r)),
      (''max_force'', JNum (dr_max_force r)), (''avg_force'', JNum (dr_avg_force r)),
      (''energy_history'', JArr (map JNum (dr_energy_history r))),
      (''force_history'', JArr (map JNum (dr_force_history r))),
      (''particles'', JArr (map (\<lambda>p. case dp_position p of (x, y, z) \<Rightarrow> JObj
         [(''id'', JInt (dp_id p)), (''position'', JArr [JNum x, JNum y, JNum z]), (''radius'', JNum (dp_radius p))])
         (filter (\<lambda>p. \<not> dp_is_boundary p) (dr_particles r)))),
      (''parameters'', JObj
         [(''youngs_modulus'', JNum (dq_youngs_modulus (dr_parameters r))),
          (''poissons_ratio'', JNum (dq_poissons_ratio (dr_parameters r))),
          (''density'', JNum (dq_density (dr_parameters r))),
          (''particle_radius_range'', JArr [JNum (dq_min_particle_radius (dr_parameters r)),
             JNum (dq_max_particle_radius (dr_parameters r))])])]"

subsection \<open>What a step keeps\<close>

text \<open>A particle without its force, and the part of it no step changes.\<close>

definition unforced :: "dem_particle \<Rightarrow> dem_particle" where
  "unforced p = p\<lparr>dp_force := (0, 0, 0)\<rparr>"

definition frame :: "dem_particle \<Rightarrow> double \<times> double \<times> int \<times> bool \<times> bool \<times> int \<times> vec option" where
  "frame p = (dp_radius p, dp_mass p, dp_material_id p, dp_is_boundary p, dp_is_fixed p, dp_id p,
     if dp_is_fixed p then Some (dp_position p) else None)"

lemma map_update_same: "f x = f (xs ! i) \<Longrightarrow> map f (xs[i := x]) = map f xs"
  by (cases "i < length xs") (simp_all add: map_update list_update_same_conv list_update_beyond)

lemma contact_forces_only:
  "map unforced (ds_particles (compute_contact_forces i j s)) = map unforced (ds_particles s)"
  "ds_geometry (compute_contact_forces i j s) = ds_geometry s"
  "ds_draws (compute_contact_forces i j s) = ds_draws s"
  "ds_params (compute_contact_forces i j s) = ds_params s"
  "ds_material (compute_contact_forces i j s) = ds_material s"
  "length (ds_contacts (compute_contact_forces i j s)) \<le> Suc (length (ds_contacts s))"
proof -
  show "map unforced (ds_particles (compute_contact_forces i j s)) = map unforced (ds_particles s)"
  proof (cases "i = j")
    case False
    then show ?thesis
      by (simp add: compute_contact_forces_def Let_def map_update_same unforced_def)
  qed (simp add: compute_contact_forces_def Let_def map_update_same unforced_def)
qed (simp_all add: compute_contact_forces_def Let_def)

lemma collide_with_only:
  "map unforced (ds_particles (collide_with i js s)) = map unforced (ds_particles s) \<and>
   ds_geometry (collide_with i js s) = ds_geometry s \<and> ds_draws (collide_with i js s) = ds_draws s \<and>
   ds_params (collide_with i js s) = ds_params s \<and> ds_material (collide_with i js s) = ds_material s \<and>
   (length (ds_contacts s) \<le> MAX_CONTACTS \<longrightarrow> length (ds_contacts (collide_with i js s)) \<le> MAX_CONTACTS)"
proof (induction js arbitrary: s)
  case (Cons j js)
  show ?case
    using Cons.IH [of "compute_contact_forces i j s"] contact_forces_only(6) [of i j s]
    by (auto simp: contact_forces_only(1-5))
qed simp

lemma collide_all_only:
  "map unforced (ds_particles (collide_all is s)) = map unforced (ds_particles s) \<and>
   ds_geometry (collide_all is s) = ds_geometry s \<and> ds_draws (collide_all is s) = ds_draws s \<and>
   ds_params (collide_all is s) = ds_params s \<and> ds_material (collide_all is s) = ds_material s \<and>
   (length (ds_contacts s) \<le> MAX_CONTACTS \<longrightarrow> length (ds_contacts (collide_all is s)) \<le> MAX_CONTACTS)"
proof (induction "is" arbitrary: s)
  case (Cons i "is")
  let ?s = "collide_with i [Suc i..<length (ds_particles s)] s"
  show ?case
    using Cons.IH [of ?s] collide_with_only [of i "[Suc i..<length (ds_particles s)]" s]
    by (simp add: Let_def)
qed simp

lemma detect_collisions_only:
  "map unforced (ds_particles (detect_collisions s)) = map unforced (ds_particles s)"
  "ds_geometry (detect_collisions s) = ds_geometry s" "ds_draws (detect_collisions s) = ds_draws s"
  "ds_params (detect_collisions s) = ds_params s" "ds_material (detect_collisions s) = ds_material s"
  "length (ds_contacts (detect_collisions s)) \<le> MAX_CONTACTS"
  using collide_all_only [of "[0..<length (ds_particles s)]" "s\<lparr>ds_contacts := []\<rparr>"]
  by (simp_all add: detect_collisions_def)

lemma frame_unforced: "unforced p = unforced q \<Longrightarrow> frame p = frame q"
proof -
  have "frame (unforced r) = frame r" for r
    by (simp add: frame_def unforced_def)
  then show "unforced p = unforced q \<Longrightarrow> frame p = frame q"
    by metis
qed

lemma map_frame_unforced: "map unforced ps = map unforced qs \<Longrightarrow> map frame ps = map frame qs"
proof (induction ps arbitrary: qs)
  case (Cons p ps)
  then obtain q rs where qs: "qs = q # rs" "unforced p = unforced q" "map unforced ps = map unforced rs"
    by (cases qs) simp_all
  then show ?case
    using Cons.IH [OF qs(3)] frame_unforced [OF qs(2)] by simp
qed simp

lemma frame_kick [simp]: "frame (kick t p) = frame p"
  by (simp add: frame_def kick_def Let_def)

lemma frame_drift [simp]: "frame (drift t p) = frame p"
  by (simp add: frame_def drift_def)

lemma random_point_kept [simp]:
  "random_point_in_crack rnd s = (pos, s') \<Longrightarrow>
    ds_geometry s' = ds_geometry s \<and> ds_params s' = ds_params s \<and> ds_particles s' = ds_particles s \<and>
    ds_contacts s' = ds_contacts s \<and> ds_material s' = ds_material s"
  by (cases "gm_crack_origin (ds_geometry s)")
    (auto simp: random_point_in_crack_def random_double_def Let_def half_sizes_def)

lemma boundary_conditions_kept:
  "boundary_conditions rnd ps s = (qs, s') \<Longrightarrow> map frame qs = map frame ps \<and>
    ds_geometry s' = ds_geometry s \<and> ds_params s' = ds_params s \<and> ds_contacts s' = ds_contacts s \<and>
    ds_material s' = ds_material s"
proof (induction ps arbitrary: s qs s')
  case (Cons p ps)
  obtain q s1 where q: "(if dp_is_fixed p then (p\<lparr>dp_velocity := (0, 0, 0), dp_force := (0, 0, 0)\<rparr>, s)
      else if strayed (ds_geometry s) (dp_position p) then
        (let (pos, s) = random_point_in_crack rnd s in (p\<lparr>dp_velocity := (0, 0, 0), dp_position := pos\<rparr>, s))
      else (p, s)) = (q, s1)"
    by (metis surj_pair)
  then have kept: "frame q = frame p \<and> ds_geometry s1 = ds_geometry s \<and> ds_params s1 = ds_params s \<and>
      ds_contacts s1 = ds_contacts s \<and> ds_material s1 = ds_material s"
    by (auto simp: frame_def split: if_splits prod.splits)
  obtain rs s2 where rs: "boundary_conditions rnd ps s1 = (rs, s2)"
    by (metis surj_pair)
  then have "qs = q # rs" "s' = s2"
    using Cons.prems q by (auto simp only: boundary_conditions.simps Let_def split_conv prod.inject)
  then show ?case
    using Cons.IH [OF rs] kept by simp
qed simp

lemma dem_step_kept:
  "map frame (ds_particles (dem_step rnd s)) = map frame (ds_particles s) \<and>
   ds_geometry (dem_step rnd s) = ds_geometry s \<and> ds_params (dem_step rnd s) = ds_params s \<and>
   ds_material (dem_step rnd s) = ds_material s \<and> length (ds_contacts (dem_step rnd s)) \<le> MAX_CONTACTS"
proof -
  let ?v = "integrate_velocities s"
  let ?c = "detect_collisions ?v"
  let ?x = "integrate_positions ?c"
  obtain qs s' where bc: "boundary_conditions rnd (ds_particles ?x) ?x = (qs, s')"
    by (metis surj_pair)
  have step: "dem_step rnd s = s'\<lparr>ds_particles := qs\<rparr>"
    by (simp add: dem_step_def apply_boundary_conditions_def bc)
  have "map frame (ds_particles ?c) = map frame (ds_particles ?v)"
    by (rule map_frame_unforced) (rule detect_collisions_only(1))
  moreover have "map frame (ds_particles ?v) = map frame (ds_particles s)"
    by (simp add: integrate_velocities_def)
  moreover have "map frame (ds_particles ?x) = map frame (ds_particles ?c)"
    by (simp add: integrate_positions_def)
  ultimately show ?thesis
    using boundary_conditions_kept [OF bc] detect_collisions_only [of ?v] unfolding step
    by (simp add: integrate_positions_def integrate_velocities_def)
qed

lemma dem_steps_kept:
  "map frame (ds_particles ((dem_step rnd ^^ n) s)) = map frame (ds_particles s) \<and>
   ds_geometry ((dem_step rnd ^^ n) s) = ds_geometry s \<and> ds_params ((dem_step rnd ^^ n) s) = ds_params s"
  by (induction n) (simp_all add: dem_step_kept)

subsection \<open>Contacts do not move particles\<close>

text \<open>Two states that move alike: they may differ in the elastic constants and in the contacts.\<close>

definition same_motion :: "dem \<Rightarrow> dem \<Rightarrow> bool" where
  "same_motion s s' \<longleftrightarrow> ds_particles s = ds_particles s' \<and> ds_geometry s = ds_geometry s' \<and>
     ds_draws s = ds_draws s' \<and> dq_time_step (ds_params s) = dq_time_step (ds_params s')"

definition contactless_step :: "rnd \<Rightarrow> dem \<Rightarrow> dem" where
  "contactless_step rnd s = apply_boundary_conditions rnd (integrate_positions (integrate_velocities s))"

lemma drift_unforced: "\<not> dp_is_fixed p \<Longrightarrow> drift t (unforced p) = drift t p"
  by (simp add: drift_def unforced_def)

lemma random_point_cong:
  assumes "ds_geometry s = ds_geometry s'" and "ds_draws s = ds_draws s'"
  shows "fst (random_point_in_crack rnd s) = fst (random_point_in_crack rnd s') \<and>
    ds_draws (snd (random_point_in_crack rnd s)) = ds_draws (snd (random_point_in_crack rnd s'))"
proof -
  obtain ox oy oz where origin: "gm_crack_origin (ds_geometry s') = (ox, oy, oz)"
    by (metis surj_pair)
  show ?thesis
    unfolding random_point_in_crack_def random_double_def half_sizes_def Let_def assms origin
    by (simp add: assms)
qed

lemma boundary_conditions_cong:
  assumes "map unforced ps = map unforced qs" and "ds_geometry s = ds_geometry s'" and "ds_draws s = ds_draws s'"
  shows "fst (boundary_conditions rnd (map (drift t) ps) s) = fst (boundary_conditions rnd (map (drift t) qs) s') \<and>
    ds_draws (snd (boundary_conditions rnd (map (drift t) ps) s)) = ds_draws (snd (boundary_conditions rnd (map (drift t) qs) s'))"
  using assms
proof (induction ps arbitrary: qs s s')
  case (Cons p ps)
  then obtain q rs where qs: "qs = q # rs" "unforced p = unforced q" "map unforced ps = map unforced rs"
    by (cases qs) simp_all
  have fx: "dp_is_fixed p = dp_is_fixed q"
    using arg_cong [OF qs(2), of dp_is_fixed] by (simp add: unforced_def)
  show ?case
  proof (cases "dp_is_fixed q")
    case True
    have still: "r\<lparr>dp_velocity := (0, 0, 0), dp_force := (0, 0, 0)\<rparr>
        = (unforced r)\<lparr>dp_velocity := (0, 0, 0), dp_force := (0, 0, 0)\<rparr>" for r
      by (simp add: unforced_def)
    from True have "(drift t p)\<lparr>dp_velocity := (0, 0, 0), dp_force := (0, 0, 0)\<rparr>
        = (drift t q)\<lparr>dp_velocity := (0, 0, 0), dp_force := (0, 0, 0)\<rparr>"
      using still [of p] still [of q] fx qs(2) by (simp add: drift_def)
    then show ?thesis
      using Cons.IH [OF qs(3) Cons.prems(2,3)] fx True
      by (simp add: qs(1) split_beta drift_def)
  next
    case False
    then have same: "drift t p = drift t q"
      using drift_unforced [of p t] drift_unforced [of q t] fx qs(2) by simp
    obtain v s1 where v: "random_point_in_crack rnd s = (v, s1)"
      by (metis surj_pair)
    obtain v' s1' where v': "random_point_in_crack rnd s' = (v', s1')"
      by (metis surj_pair)
    have "v = v'" "ds_draws s1 = ds_draws s1'"
      using random_point_cong [OF Cons.prems(2,3), of rnd] v v' by simp_all
    moreover have "ds_geometry s1 = ds_geometry s1'"
      using random_point_kept [OF v] random_point_kept [OF v'] Cons.prems(2) by simp
    ultimately show ?thesis
      using Cons.IH [OF qs(3), of s1 s1'] Cons.IH [OF qs(3) Cons.prems(2,3)] same Cons.prems(2)
      by (simp add: qs(1) split_beta v v')
  qed
qed simp

lemma apply_boundary_same:
  assumes "map unforced (ds_particles s) = map unforced (ds_particles s')" and "ds_geometry s = ds_geometry s'"
    and "ds_draws s = ds_draws s'" and "dq_time_step (ds_params s) = dq_time_step (ds_params s')"
  shows "same_motion (apply_boundary_conditions rnd (integrate_positions s))
    (apply_boundary_conditions rnd (integrate_positions s'))"
proof -
  let ?t = "dq_time_step (ds_params s)"
  obtain ps u where ps: "boundary_conditions rnd (map (drift ?t) (ds_particles s)) (integrate_positions s) = (ps, u)"
    by (metis surj_pair)
  obtain qs v where qs: "boundary_conditions rnd (map (drift ?t) (ds_particles s')) (integrate_positions s') = (qs, v)"
    by (metis surj_pair)
  have "ps = qs" "ds_draws u = ds_draws v"
    using boundary_conditions_cong [OF assms(1), of "integrate_positions s" "integrate_positions s'" rnd ?t] assms(2,3) ps qs
    by (simp_all add: integrate_positions_def)
  moreover have "ds_geometry u = ds_geometry v" "ds_params u = ds_params s" "ds_params v = ds_params s'"
    using boundary_conditions_kept [OF ps] boundary_conditions_kept [OF qs] assms(2)
    by (simp_all add: integrate_positions_def)
  ultimately show ?thesis
    using ps qs assms(4) by (simp add: apply_boundary_conditions_def same_motion_def integrate_positions_def)
qed

lemma step_same_motion:
  assumes "same_motion s s'"
  shows "same_motion (dem_step rnd s) (contactless_step rnd s')" "same_motion (dem_step rnd s) (dem_step rnd s')"
proof -
  have v: "map unforced (ds_particles (integrate_velocities s)) = map unforced (ds_particles (integrate_velocities s'))"
    using assms by (simp add: integrate_velocities_def same_motion_def)
  show "same_motion (dem_step rnd s) (contactless_step rnd s')"
    unfolding dem_step_def contactless_step_def
    using assms v detect_collisions_only [of "integrate_velocities s"]
    by (intro apply_boundary_same) (simp_all add: integrate_velocities_def same_motion_def)
  show "same_motion (dem_step rnd s) (dem_step rnd s')"
    unfolding dem_step_def
    using assms v detect_collisions_only [of "integrate_velocities s"] detect_collisions_only [of "integrate_velocities s'"]
    by (intro apply_boundary_same) (simp_all add: integrate_velocities_def same_motion_def)
qed

lemma run_steps_same:
  "same_motion s s' \<Longrightarrow> snd (run_steps rnd ks s r) = snd (run_steps rnd ks s' r)"
proof (induction ks arbitrary: s s' r)
  case (Cons k ks)
  have "same_motion (dem_step rnd s) (dem_step rnd s')"
    by (rule step_same_motion(2) [OF Cons.prems])
  moreover from this have "ds_particles (dem_step rnd s) = ds_particles (dem_step rnd s')"
    by (simp add: same_motion_def)
  ultimately show ?case
    using Cons.IH by (simp add: Let_def)
qed simp

text \<open>C15: Contact forces never move a particle. A step adds them to the forces after the velocities
  have been updated, and \<open>integrate_positions\<close> and the boundary conditions overwrite the forces
  before the next update. So from any state, \<open>n\<close> steps give the particles that steps without any
  collision detection give, and the energies and forces a run reports are the same for any two
  materials: only gravity, the time step and the re-insertion of strayed particles count.\<close>

theorem contact_forces_never_act:
  assumes "same_motion s s'"
  shows "same_motion ((dem_step rnd ^^ n) s) ((contactless_step rnd ^^ n) s') \<and>
    snd (run_steps rnd ks s r) = snd (run_steps rnd ks s' r)"
proof -
  have "same_motion ((dem_step rnd ^^ n) s) ((contactless_step rnd ^^ n) s')"
    using assms by (induction n) (simp_all add: step_same_motion)
  then show ?thesis
    using run_steps_same [OF assms] by blast
qed

subsection \<open>Generation\<close>

definition apart :: "dem_particle \<Rightarrow> dem_particle \<Rightarrow> bool" where
  "apart p q \<longleftrightarrow> \<not> touches (dp_position q) (dp_radius q) p"

lemma random_double_kept:
  "random_double rnd lo hi s = (x, s') \<Longrightarrow> ds_particles s' = ds_particles s \<and> ds_params s' = ds_params s \<and>
    ds_geometry s' = ds_geometry s \<and> ds_material s' = ds_material s"
  by (auto simp: random_double_def)

lemma generate_loop_inv:
  assumes "sorted_wrt apart (ds_particles s)" and "sorted_wrt (<) (map dp_id (ds_particles s) @ is)"
    and "\<forall>p\<in>set (ds_particles s). \<not> dp_is_fixed p \<and> \<not> dp_is_boundary p"
  shows "sorted_wrt apart (ds_particles (generate_loop rnd is s)) \<and>
    sorted_wrt (<) (map dp_id (ds_particles (generate_loop rnd is s))) \<and>
    set (map dp_id (ds_particles (generate_loop rnd is s))) \<subseteq> set (map dp_id (ds_particles s)) \<union> set is \<and>
    (\<forall>p\<in>set (ds_particles (generate_loop rnd is s)). \<not> dp_is_fixed p \<and> \<not> dp_is_boundary p)"
  using assms
proof (induction "is" arbitrary: s)
  case Nil
  then show ?case
    by simp
next
  case (Cons i "is")
  obtain radius s1 where r: "random_double rnd (dq_min_particle_radius (ds_params s)) (dq_max_particle_radius (ds_params s)) s = (radius, s1)"
    by (metis surj_pair)
  obtain pos s2 where v: "random_point_in_crack rnd s1 = (pos, s2)"
    by (metis surj_pair)
  have ps: "ds_particles s2 = ds_particles s"
    using random_double_kept [OF r] random_point_kept [OF v] by simp
  let ?g = "generated_particle s2 i radius pos"
  have g: "dp_id ?g = i" "\<not> dp_is_fixed ?g" "\<not> dp_is_boundary ?g"
    by (simp_all add: generated_particle_def)
  show ?case
  proof (cases "list_ex (touches pos radius) (ds_particles s)")
    case True
    have "sorted_wrt (<) (map dp_id (ds_particles s2) @ is)"
      using Cons.prems(2) ps by (simp add: sorted_wrt_append)
    then show ?thesis
      using Cons.IH [of s2] Cons.prems True by (auto simp: r v ps)
  next
    case False
    let ?s = "s2\<lparr>ds_particles := ds_particles s2 @ [?g]\<rparr>"
    have "apart p ?g \<longleftrightarrow> \<not> touches pos radius p" for p
      by (simp add: apart_def generated_particle_def)
    then have "sorted_wrt apart (ds_particles ?s)"
      using Cons.prems(1) False by (simp add: ps sorted_wrt_append list_ex_iff)
    moreover have "sorted_wrt (<) (map dp_id (ds_particles ?s) @ is)"
      using Cons.prems(2) by (simp add: ps g)
    ultimately show ?thesis
      using Cons.IH [of ?s] Cons.prems(3) False by (auto simp: r v ps g)
  qed
qed

lemma generated_particles_apart_lemma:
  "let ps = ds_particles (generate_particles rnd count s)
   in sorted_wrt apart ps \<and> length ps \<le> nat count \<and> sorted_wrt (<) (map dp_id ps) \<and>
      set (map dp_id ps) \<subseteq> {0..<count} \<and> filter dp_is_fixed ps = [] \<and> filter dp_is_boundary ps = []"
proof -
  define ps where "ps = ds_particles (generate_particles rnd count s)"
  have sorted: "sorted_wrt (<) [0..count - 1]"
    by (rule sorted_wrt_upto)
  have "sorted_wrt apart ps \<and> sorted_wrt (<) (map dp_id ps) \<and> set (map dp_id ps) \<subseteq> set [0..count - 1] \<and>
      (\<forall>p\<in>set ps. \<not> dp_is_fixed p \<and> \<not> dp_is_boundary p)"
    using generate_loop_inv [of "s\<lparr>ds_particles := []\<rparr>" "[0..count - 1]" rnd] sorted
    by (simp add: ps_def generate_particles_def)
  moreover from this have "length (map dp_id ps) \<le> card (set [0..count - 1])"
    by (metis List.finite_set card_mono distinct_card strict_sorted_iff)
  ultimately show ?thesis
    by (auto simp: ps_def [symmetric] Let_def filter_empty_conv)
qed

text \<open>\<open>generate_particles count\<close> places at most \<open>count\<close> particles, movable and with increasing ids
  below \<open>count\<close>, and no later particle touches an earlier one, whatever the random engine yields; what was
  there before is dropped.\<close>

theorem generated_particles_apart:
  "let ps = ds_particles (generate_particles rnd count s)
   in sorted_wrt apart ps \<and> length ps \<le> nat count \<and> sorted_wrt (<) (map dp_id ps) \<and>
      set (map dp_id ps) \<subseteq> {0..<count} \<and> filter dp_is_fixed ps = [] \<and> filter dp_is_boundary ps = []"
  by (rule generated_particles_apart_lemma)

subsection \<open>The run\<close>

lemma run_steps_kept:
  assumes "run_steps rnd ks s r = (s', r')"
  shows "map frame (ds_particles s') = map frame (ds_particles s) \<and> ds_params s' = ds_params s \<and>
    ds_geometry s' = ds_geometry s \<and> rn_executed r' \<le> rn_executed r + length ks \<and>
    (if ks = [] then s' = s else length (ds_contacts s') \<le> MAX_CONTACTS)"
  using assms
proof (induction ks arbitrary: s r)
  case (Cons k ks)
  have ex: "rn_executed (record_step k ps r) = Suc (rn_executed r)" for ps
    by (simp add: record_step_def Let_def)
  show ?case
  proof (cases "k mod 100 = 0 \<and> 0 < k \<and> average_speed (ds_particles (dem_step rnd s)) < D (1 / 10 ^ 12)")
    case True
    then show ?thesis
      using Cons.prems dem_step_kept [of rnd s] ex by (auto simp: Let_def)
  next
    case False
    then have "run_steps rnd ks (dem_step rnd s) (record_step k (ds_particles (dem_step rnd s)) r) = (s', r')"
      using Cons.prems by (simp only: run_steps.simps Let_def if_False)
    from Cons.IH [OF this] show ?thesis
      using dem_step_kept [of rnd s] ex [of "ds_particles (dem_step rnd s)"] by (auto split: if_splits)
  qed
qed simp

lemma fixed_kept:
  assumes "map frame ps = map frame qs"
  shows "list_all dp_is_fixed ps = list_all dp_is_fixed qs"
    and "length (filter (\<lambda>p. \<not> dp_is_boundary p) ps) = length (filter (\<lambda>p. \<not> dp_is_boundary p) qs)"
proof -
  have "map dp_is_fixed ps = map dp_is_fixed qs" "map dp_is_boundary ps = map dp_is_boundary qs"
    using arg_cong [OF assms, of "map (\<lambda>(_, _, _, _, f, _). f)"] arg_cong [OF assms, of "map (\<lambda>(_, _, _, b, _). b)"]
    by (simp_all add: frame_def comp_def)
  moreover have "list_all P rs = (False \<notin> set (map P rs))" for P :: "dem_particle \<Rightarrow> bool" and rs
    by (auto simp: list_all_iff image_iff)
  moreover have "length (filter (\<lambda>p. \<not> P p) rs) = length (filter Not (map P rs))" for P :: "dem_particle \<Rightarrow> bool" and rs
    by (simp add: filter_map comp_def)
  ultimately show "list_all dp_is_fixed ps = list_all dp_is_fixed qs"
      "length (filter (\<lambda>p. \<not> dp_is_boundary p) ps) = length (filter (\<lambda>p. \<not> dp_is_boundary p) qs)"
    by metis+
qed

lemma still_is_slow:
  assumes "list_all dp_is_fixed ps"
  shows "average_speed ps < D (1 / 10 ^ 12)"
proof -
  have "filter (\<lambda>p. \<not> dp_is_fixed p) ps = []"
    using assms by (simp add: filter_empty_conv list_all_iff)
  then have "average_speed ps = 0"
    by (simp add: average_speed_def)
  moreover have "0 < D (1 / 2 ^ 40)"
    using exact_dyadic [of 1 40] by simp
  moreover have "D (1 / 2 ^ 40) \<le> D (1 / 10 ^ 12)"
    by (rule D_mono) simp
  ultimately show ?thesis
    by (metis dless_le_trans)
qed

lemma run_steps_still:
  assumes "list_all dp_is_fixed (ds_particles s)" and "n \<le> 100"
  shows "rn_executed (snd (run_steps rnd [n..<m] s r)) = rn_executed r + (min m 101 - n)"
  using assms
proof (induction "m - n" arbitrary: n s r)
  case (Suc d)
  have upt: "[n..<m] = n # [Suc n..<m]" "n < m"
    using Suc.hyps(2) by (simp_all add: upt_conv_Cons)
  have fx: "list_all dp_is_fixed (ds_particles (dem_step rnd s))"
    using Suc.prems(1) fixed_kept(1) [of "ds_particles (dem_step rnd s)" "ds_particles s"] dem_step_kept [of rnd s] by simp
  have ex: "rn_executed (record_step k ps r) = Suc (rn_executed r)" for k ps
    by (simp add: record_step_def Let_def)
  show ?case
  proof (cases "n = 100")
    case True
    then show ?thesis
      using still_is_slow [OF fx] ex upt(2) by (simp add: upt(1) [unfolded True] True Let_def)
  next
    case False
    then have "n < 100"
      using Suc.prems(2) by simp
    then have "\<not> (n mod 100 = 0 \<and> 0 < n)"
      by auto
    then have "run_steps rnd [n..<m] s r = run_steps rnd [Suc n..<m] (dem_step rnd s) (record_step n (ds_particles (dem_step rnd s)) r)"
      by (auto simp: upt(1) Let_def)
    then show ?thesis
      using Suc.hyps(1) [of "Suc n" "dem_step rnd s"] Suc.hyps(2) fx \<open>n < 100\<close> upt(2) ex by simp
  qed
qed simp

text \<open>What a run reports. For every step count above -20 it returns (below, \<open>reserve\<close> throws);
  the particle count is the number of particles returned, at most 50000 contacts are counted, and
  no particle changes its radius, mass or identity and no fixed one its place. The reported number of
  steps is the requested one even if fewer were executed: with nothing to move, a run stops after
  101 steps and still reports the request.\<close>

theorem dem_run_reports:
  assumes "length (ds_contacts s0) \<le> MAX_CONTACTS"
  shows "if max_steps \<le> - 20 then dem_run_result rnd max_steps s0 = Inl (Length_error ''vector::reserve'')
    else \<exists>r log s. dem_run_result rnd max_steps s0 = Inr (r, log, s) \<and>
      dr_particle_count r = int (length (dr_particles r)) \<and> dr_contact_count r \<le> 50000 \<and>
      map frame (ds_particles s) = map frame (ds_particles s0) \<and>
      dr_total_steps r = max_steps \<and> rn_executed log \<le> nat max_steps \<and>
      (if list_all dp_is_fixed (ds_particles s0) then rn_executed log = min (nat max_steps) 101 else True)"
proof (cases "max_steps \<le> - 20")
  case False
  define r0 where "r0 = \<lparr>rn_max_force = 0, rn_sum_force = 0, rn_energy = [], rn_force = [], rn_executed = 0\<rparr>"
  obtain s log where run: "run_steps rnd [0..<nat max_steps] s0 r0 = (s, log)"
    by (metis surj_pair)
  have kept: "map frame (ds_particles s) = map frame (ds_particles s0)" "rn_executed log \<le> nat max_steps"
      "length (ds_contacts s) \<le> MAX_CONTACTS"
    using run_steps_kept [OF run] assms by (auto simp: r0_def split: if_splits)
  have still: "rn_executed log = min (nat max_steps) 101" if "list_all dp_is_fixed (ds_particles s0)"
    using run_steps_still [OF that, of 0 rnd "nat max_steps" r0] run by (simp add: r0_def)
  obtain r where "dem_run_result rnd max_steps s0 = Inr (r, log, s)" "dr_total_steps r = max_steps"
      "dr_particle_count r = int (length (filter (\<lambda>p. \<not> dp_is_boundary p) (ds_particles s0)))"
      "dr_particles r = filter (\<lambda>p. \<not> dp_is_boundary p) (ds_particles s)"
      "dr_contact_count r = int (length (ds_contacts s))"
    using False run by (simp add: dem_run_result_def r0_def [symmetric])
  then show ?thesis
    using False kept still fixed_kept(2) [OF kept(1)] by (auto simp: MAX_CONTACTS_def)
qed (simp add: dem_run_result_def)

subsection \<open>Bounds on the figures\<close>

text \<open>Values that are not negative, NaN included: closed under what the figures are made of.\<close>

definition nn :: "double \<Rightarrow> bool" where
  "nn x \<longleftrightarrow> x = NAN \<or> 0 \<le> x"

lemma nn_simps [simp]: "nn NAN" "nn PINF" "\<not> nn NINF" "nn 0" "nn 1" "exact r \<Longrightarrow> nn (D r) \<longleftrightarrow> 0 \<le> r"
  by (simp_all add: nn_def)

lemma nn_D: "0 \<le> r \<Longrightarrow> nn (D r)"
  by (simp add: nn_def D_nonneg)

lemma nn_plus: "nn x \<Longrightarrow> nn y \<Longrightarrow> nn (x + y)"
  by (cases x; cases y) (auto intro: nn_D)

lemma nn_times: "nn x \<Longrightarrow> nn y \<Longrightarrow> nn (x * y)"
proof -
  have inf: "nn (D r * PINF)" "nn (PINF * D r)" if "exact r" "0 \<le> r" for r
    using that by (cases "r = 0"; simp)+
  show "nn x \<Longrightarrow> nn y \<Longrightarrow> nn (x * y)"
    by (cases x; cases y) (auto intro: nn_D inf)
qed

lemma nn_divide: "nn x \<Longrightarrow> nn y \<Longrightarrow> nn (x / y)"
proof -
  have fin: "nn (D r / D s)" if "exact r" "exact s" "0 \<le> r" "0 \<le> s" for r s
  proof (cases "s = 0")
    case True
    then show ?thesis
      using that by (cases "r = 0") simp_all
  qed (use that in \<open>simp add: nn_D\<close>)
  show "nn x \<Longrightarrow> nn y \<Longrightarrow> nn (x / y)"
    by (cases x; cases y) (auto intro: fin)
qed

lemma nn_of_i: "0 \<le> k \<Longrightarrow> nn (of_i k)"
  by (simp add: of_i_def nn_D)

lemma nn_dsqrt: "nn x \<Longrightarrow> nn (dsqrt x)"
  by (cases x) (auto simp: dsqrt_def intro: nn_D)

lemma nn_pow_fin: "0 \<le> r \<or> s = 2 \<Longrightarrow> nn (pow_fin r s)"
  by (auto simp: pow_fin_def intro!: nn_D)

lemma unit_min: "nn x \<Longrightarrow> 0 \<le> std_min (D 1) x \<and> std_min (D 1) x \<le> D 1"
  by (cases x) (auto simp: std_min_def raw_zero_D simp del: D_zero D_one)

lemma nn_dpow: "nn x \<Longrightarrow> nn (dpow x y)"
  by (cases x; cases y) (simp_all add: dpow_def nn_pow_fin)

lemma nn_square: "nn (dpow x (D 2))"
  by (cases x) (simp_all add: dpow_def nn_pow_fin)

lemma nn_foldl: "nn v \<Longrightarrow> (\<And>v p. p \<in> set ps \<Longrightarrow> nn v \<Longrightarrow> nn (f v p)) \<Longrightarrow> nn (foldl f v ps)"
  by (induction ps arbitrary: v) simp_all

lemma nn_sphere: "nn r \<Longrightarrow> nn (sphere_volume r)"
  unfolding sphere_volume_def M_PI_def by (intro nn_times nn_divide nn_dpow nn_D) simp_all

lemma unit_complement:
  assumes "0 \<le> x" and "x \<le> D 1"
  shows "0 \<le> D 1 - x \<and> D 1 - x \<le> D 1"
  using assms by (cases x) (auto simp: raw_zero_D D_nonneg D_mono simp del: D_zero D_one)

lemma std_max_zero: "x \<le> D 1 \<or> x = NAN \<Longrightarrow> 0 \<le> std_max 0 x \<and> std_max 0 x \<le> D 1"
  by (cases x) (auto simp: std_max_def raw_zero_D simp del: D_zero D_one)

lemma filling_rate_unit:
  assumes "\<forall>p\<in>set (ds_particles s). nn (dp_radius p)"
  shows "0 \<le> calculate_filling_rate s \<and> calculate_filling_rate s \<le> D 1"
proof -
  have volume: "nn (foldl (\<lambda>v p. if repair_inside s p then v + sphere_volume (dp_radius p) else v) 0 (ds_particles s))"
    using assms by (intro nn_foldl) (auto intro: nn_plus nn_sphere)
  have zero: "(0::double) \<le> 0 \<and> 0 \<le> D 1"
    by (simp add: raw_zero_D del: D_zero D_one)
  have "nn v" if "0 < v" for v :: double
    using that dless_imp_le by (auto simp: nn_def)
  then show ?thesis
    using zero unit_min [OF nn_divide [OF volume]]
    unfolding calculate_filling_rate_def Let_def by auto
qed

lemma smoothness_unit:
  assumes "nn (dq_max_particle_radius (ds_params s))"
  shows "0 \<le> calculate_surface_smoothness s \<and> calculate_surface_smoothness s \<le> D 1"
proof -
  have one: "(0::double) \<le> D 1 \<and> D 1 \<le> D 1"
    by (simp add: raw_zero_D del: D_zero D_one)
  have "0 \<le> std_max 0 (D 1 - std_min (D 1) x) \<and> std_max 0 (D 1 - std_min (D 1) x) \<le> D 1" if "nn x" for x
    using unit_complement unit_min [OF that] by (intro std_max_zero) blast
  moreover have "nn (dsqrt variance / (dq_max_particle_radius (ds_params s) * D 2))" if "nn variance" for variance
    using that assms by (intro nn_divide nn_dsqrt nn_times nn_D) simp_all
  moreover have "nn (if inside = [] then 0
      else foldl (\<lambda>v p. v + dpow (z p - m) (D 2)) 0 inside / of_i (int (length inside)))" for inside :: "dem_particle list" and z m
    by (auto intro!: nn_divide nn_foldl nn_plus nn_square nn_of_i)
  ultimately show ?thesis
    using one unfolding calculate_surface_smoothness_def Let_def by auto
qed

lemma bonding_unit:
  assumes "nn (dq_bond_strength (ds_params s) * micro)"
  shows "0 \<le> calculate_bonding_strength s \<and> calculate_bonding_strength s \<le> D 1"
proof -
  have half: "0 \<le> D (1/2) \<and> D (1/2) \<le> D 1"
    by (simp add: raw_zero_D del: D_zero D_one)
  have pos: "nn v" if "0 < v" for v :: double
    using that dless_imp_le by (auto simp: nn_def)
  have floor: "nn (std_max (D (1 / 10 ^ 9)) x)" for x
  proof (cases "D (1 / 10 ^ 9) < x")
    case True
    then have "0 \<le> x"
      using dle_trans [OF D_nonneg dless_imp_le [OF True]] by simp
    then show ?thesis
      using True by (simp add: std_max_def nn_def)
  qed (simp add: std_max_def nn_D)
  have "nn (foldl (\<lambda>t c. t + dc_normal_force c / std_max (D (1 / 10 ^ 9)) (dc_overlap c)) 0
      (filter (\<lambda>c. 0 < dc_normal_force c) (ds_contacts s)))"
    by (intro nn_foldl nn_plus nn_divide floor) (auto intro: pos)
  from unit_min [OF nn_divide [OF nn_divide [OF this nn_of_i] assms]] show ?thesis
    using half unfolding calculate_bonding_strength_def Let_def by auto
qed

text \<open>For particles, a particle size and a bond strength that are not negative, the filling rate, the
  bonding strength and the surface smoothness of any state lie between 0 and 1, whatever else the
  arithmetic does (overflow to infinity and NaN included).\<close>

theorem figures_bounded:
  assumes "\<forall>p\<in>set (ds_particles s). nn (dp_radius p)" and "nn (dq_max_particle_radius (ds_params s))"
    and "nn (dq_bond_strength (ds_params s) * micro)"
  shows "0 \<le> calculate_filling_rate s \<and> calculate_filling_rate s \<le> D 1 \<and>
    0 \<le> calculate_surface_smoothness s \<and> calculate_surface_smoothness s \<le> D 1 \<and>
    0 \<le> calculate_bonding_strength s \<and> calculate_bonding_strength s \<le> D 1"
  using filling_rate_unit [OF assms(1)] smoothness_unit [OF assms(2)] bonding_unit [OF assms(3)] by blast

definition demo_geometry :: dem_geometry where
  "demo_geometry = \<lparr>gm_crack_origin = (0, 0, 0), gm_crack_length = D 1, gm_crack_depth = D 1,
     gm_crack_width = D 1, gm_crack_angle = 0, gm_boundary_points = [(0, 0, D 2)]\<rparr>"

definition demo_material :: repair_material where
  "demo_material = \<lparr>rm_id = 1, rm_type = ZIRCONIA, rm_name = ''Zirconia Nano'', rm_manufacturer = [],
     rm_particle_size_nm = D 25, rm_purity = 0, rm_viscosity = 0, rm_refractive_index = 0,
     rm_thermal_expansion_coeff = 0, rm_properties = JNull\<rparr>"

definition demo_dem :: dem where
  "demo_dem = generate_boundary ((new_dem default_dem demo_geometry demo_material)\<lparr>ds_geometry := demo_geometry\<rparr>)"

lemma demo_dem_simps:
  "ds_particles demo_dem = [boundary_particle 0 0 (0, 0, D 2)]" "ds_contacts demo_dem = []"
  "ds_params demo_dem = ds_params (new_dem default_dem demo_geometry demo_material)"
  by (simp_all add: demo_dem_def generate_boundary_def new_dem_def demo_geometry_def)

theorem figures_bounded_witness:
  "0 \<le> calculate_filling_rate demo_dem \<and> calculate_bonding_strength demo_dem \<le> D 1"
proof -
  have "nn (D 25 * D (12/10))" "nn (D (100 * 10 ^ 6) * micro)"
    unfolding micro_def by (intro nn_times nn_D; simp)+
  moreover have "nn (D (5 / 10 ^ 7))"
    by (intro nn_D) simp
  ultimately have "0 \<le> calculate_filling_rate demo_dem \<and> calculate_filling_rate demo_dem \<le> D 1 \<and>
      0 \<le> calculate_surface_smoothness demo_dem \<and> calculate_surface_smoothness demo_dem \<le> D 1 \<and>
      0 \<le> calculate_bonding_strength demo_dem \<and> calculate_bonding_strength demo_dem \<le> D 1"
    by (intro figures_bounded) (simp_all add: demo_dem_simps boundary_particle_def new_dem_def
        default_dem_params_def default_dem_def)
  then show ?thesis
    by blast
qed

theorem dem_run_reports_witness:
  "\<exists>r log s. dem_run_result (\<lambda>_ lo _. lo) 1000 demo_dem = Inr (r, log, s) \<and> dr_total_steps r = 1000 \<and>
     rn_executed log = 101 \<and> dr_particle_count r = 0"
proof -
  have "length (ds_contacts demo_dem) \<le> MAX_CONTACTS"
    by (simp add: demo_dem_simps)
  from dem_run_reports [OF this, of 1000 "\<lambda>_ lo _. lo"] obtain r log s where
    r: "dem_run_result (\<lambda>_ lo _. lo) 1000 demo_dem = Inr (r, log, s)" "dr_total_steps r = 1000"
      "rn_executed log = min (nat 1000) 101"
    by (auto simp: demo_dem_simps boundary_particle_def)
  then have "dr_particle_count r = int (length (filter (\<lambda>p. \<not> dp_is_boundary p) (ds_particles demo_dem)))"
    by (auto simp: dem_run_result_def split: prod.splits)
  then show ?thesis
    using r by (simp add: demo_dem_simps boundary_particle_def)
qed

theorem contact_forces_never_act_witness:
  "ds_particles ((dem_step (\<lambda>_ lo _. lo) ^^ 3) demo_dem) =
   ds_particles ((contactless_step (\<lambda>_ lo _. lo) ^^ 3)
     (demo_dem\<lparr>ds_params := (ds_params demo_dem)\<lparr>dq_youngs_modulus := 0\<rparr>\<rparr>))"
proof -
  have "same_motion demo_dem (demo_dem\<lparr>ds_params := (ds_params demo_dem)\<lparr>dq_youngs_modulus := 0\<rparr>\<rparr>)"
    by (simp add: same_motion_def)
  from contact_forces_never_act [OF this, where rnd = "\<lambda>_ lo _. lo" and n = 3] show ?thesis
    by (simp add: same_motion_def)
qed

end
