(* ===== verification/Http_Server.thy ===== *)
theory Http_Server
  imports Http_Routes Database_Extensions Crack_Propagation Dem_Simulation
begin

section \<open>Handlers of the HTTP server (src/http_server.cpp)\<close>

text \<open>
  The responses the server builds and the handlers of the endpoints over the database and the crack
  predictor, as steps over the database manager: \<open>None\<close> is a handler that waits for a connection
  for ever (holding the mutex of the route table), \<open>Inl\<close> an exception, after which the connection
  is dropped without an answer. The file system is a parameter, and the printer of the JSON library
  is the one of \<open>pg_env\<close>.
\<close>

subsection \<open>Responses\<close>

record response =
  rs_status :: nat
  rs_content_type :: string
  rs_allow_origin :: bool
  rs_body :: string

definition json_response :: "'db pg_env \<Rightarrow> json \<Rightarrow> nat \<Rightarrow> response result" where
  "json_response env j status =
     and_then (pg_dump env j) (\<lambda>body.
       Inr \<lparr>rs_status = status, rs_content_type = ''application/json'', rs_allow_origin = True,
            rs_body = body\<rparr>)"

definition error_response :: "'db pg_env \<Rightarrow> nat \<Rightarrow> string \<Rightarrow> response result" where
  "error_response env status message = json_response env (JObj [(''error'', JStr message)]) status"

definition not_found :: "string \<Rightarrow> response" where
  "not_found target = \<lparr>rs_status = 404, rs_content_type = ''text/plain'', rs_allow_origin = False,
     rs_body = ''The resource '' @ [char_of (39 :: nat)] @ target @ [char_of (39 :: nat)] @ '' was not found.''\<rparr>"

definition ends_with :: "string \<Rightarrow> string \<Rightarrow> bool" where
  "ends_with s suffix \<longleftrightarrow> length suffix \<le> length s \<and> drop (length s - length suffix) s = suffix"

definition content_type :: "string \<Rightarrow> string" where
  "content_type path =
     (if ends_with path ''.html'' then ''text/html''
      else if ends_with path ''.css'' then ''text/css''
      else if ends_with path ''.js'' then ''application/javascript''
      else ''application/octet-stream'')"

definition serve_file :: "(string \<Rightarrow> string option) \<Rightarrow> string \<Rightarrow> string \<Rightarrow> response" where
  "serve_file fs doc_root path =
     (case fs (doc_root @ path) of
        None \<Rightarrow> not_found path
      | Some content \<Rightarrow> \<lparr>rs_status = 200, rs_content_type = content_type path, rs_allow_origin = False,
          rs_body = content\<rparr>)"

text \<open>\<open>std::stoi\<close> and \<open>std::stoll\<close> on a capture, which is a run of digits.\<close>

definition digits_value :: "string \<Rightarrow> int" where
  "digits_value ds = foldl (\<lambda>n c. 10 * n + (int (of_char c) - 48)) 0 ds"

definition stoi :: "string \<Rightarrow> int result" where
  "stoi ds = (if digits_value ds < 2 ^ 31 then Inr (digits_value ds) else Inl (Out_of_range ''stoi''))"

definition stoll :: "string \<Rightarrow> int result" where
  "stoll ds = (if digits_value ds < 2 ^ 63 then Inr (digits_value ds) else Inl (Out_of_range ''stoll''))"

definition lift_result :: "'a result \<Rightarrow> ('s, 'a) step" where
  "lift_result r s = Some (r, s)"

definition respond :: "'db pg_env \<Rightarrow> json \<Rightarrow> ('s, response) step" where
  "respond env j = lift_result (json_response env j 200)"

subsection \<open>JSON views\<close>

definition porcelain_json :: "porcelain_info \<Rightarrow> json" where
  "porcelain_json p = JObj
     [(''id'', JInt (po_id p)), (''museum_id'', JStr (po_museum_id p)), (''name'', JStr (po_name p)),
      (''dynasty'', JStr (if po_dynasty p = SONG then ''SONG'' else ''YUAN'')),
      (''production_year'', JInt (po_production_year p)),
      (''description'', JStr (po_description p)),
      (''origin_location'', JStr (po_origin_location p)), (''dimensions'', po_dimensions p)]"

definition point_json :: "point3d \<Rightarrow> json" where
  "point_json p = JObj [(''x'', JNum (px p)), (''y'', JNum (py p)), (''z'', JNum (pz p)),
     (''depth'', JNum (pdepth p)), (''width'', JNum (pwidth p))]"

definition crack_json :: "crack_info \<Rightarrow> point3d list \<Rightarrow> json" where
  "crack_json c points = JObj
     [(''id'', JInt (ci_id c)), (''crack_code'', JStr (ci_crack_code c)),
      (''max_depth'', JNum (ci_max_depth c)), (''max_width'', JNum (ci_max_width c)),
      (''total_length'', JNum (ci_total_length c)), (''status'', JStr (ci_status c)),
      (''points'', JArr (map point_json points))]"

definition active_alert_json :: "alert \<Rightarrow> json" where
  "active_alert_json a = JObj
     [(''id'', JInt (al_id a)), (''type'', JStr (alert_type_to_string (al_type a))),
      (''porcelain_id'', JInt (al_porcelain_id a)), (''crack_id'', JInt (al_crack_id a)),
      (''sensor_id'', JInt (al_sensor_id a)), (''threshold'', JNum (al_threshold_value a)),
      (''actual'', JNum (al_actual_value a)), (''unit'', JStr (al_unit a)),
      (''message'', JStr (al_message a)), (''status'', JStr ''PENDING'')]"

definition material_json :: "repair_material \<Rightarrow> json" where
  "material_json m = JObj
     [(''id'', JInt (rm_id m)), (''type'', JStr (material_type_to_string (rm_type m))),
      (''name'', JStr (rm_name m)), (''manufacturer'', JStr (rm_manufacturer m)),
      (''particle_size_nm'', JNum (rm_particle_size_nm m)), (''purity'', JNum (rm_purity m)),
      (''viscosity'', JNum (rm_viscosity m)), (''refractive_index'', JNum (rm_refractive_index m)),
      (''thermal_expansion_coeff'', JNum (rm_thermal_expansion_coeff m)),
      (''properties'', rm_properties m)]"

definition latest_stress_json :: "stress_analysis_result \<Rightarrow> json" where
  "latest_stress_json r = JObj
     [(''grid_points'', JArr (map (\<lambda>gp. JObj
         [(''x'', JNum (gx gp)), (''y'', JNum (gy gp)), (''z'', JNum (gz gp)),
          (''stress'', tensor_to_json (gstress gp)), (''crack_density'', JNum (gcrack_density gp)),
          (''principal_direction'', JNum (gprincipal_direction gp))]) (sa_grid_points r))),
      (''max_von_mises'', JNum (sa_max_von_mises r)), (''avg_von_mises'', JNum (sa_avg_von_mises r)),
      (''high_stress_area_ratio'', JNum (sa_high_stress_area_ratio r))]"

subsection \<open>Handlers\<close>

definition list_porcelains :: "'db pg_env \<Rightarrow> ('db dbm, response) step" where
  "list_porcelains env =
     then_step (get_all_porcelains env) (\<lambda>ps. respond env (JArr (map porcelain_json ps)))"

definition show_porcelain :: "'db pg_env \<Rightarrow> string \<Rightarrow> ('db dbm, response) step" where
  "show_porcelain env id_text =
     then_step (lift_result (stoi id_text)) (\<lambda>i.
     then_step (get_porcelain env i) (\<lambda>p. respond env (porcelain_json p)))"

fun cracks_with_points ::
  "'db pg_env \<Rightarrow> crack_info list \<Rightarrow> ('db dbm, (crack_info \<times> point3d list) list) step" where
  "cracks_with_points env [] s = Some (Inr [], s)"
| "cracks_with_points env (c # cs) s =
     then_step (get_crack_points env (wrap32 (ci_id c))) (\<lambda>pts.
     then_step (cracks_with_points env cs) (\<lambda>rest. lift_result (Inr ((c, pts) # rest)))) s"

definition porcelain_cracks :: "'db pg_env \<Rightarrow> string \<Rightarrow> ('db dbm, response) step" where
  "porcelain_cracks env id_text =
     then_step (lift_result (stoi id_text)) (\<lambda>i.
     then_step (get_cracks_by_porcelain env i 100) (\<lambda>cracks.
     then_step (cracks_with_points env cracks) (\<lambda>cps.
     respond env (JArr (map (\<lambda>(c, pts). crack_json c pts) cps)))))"

definition crack_points :: "'db pg_env \<Rightarrow> string \<Rightarrow> ('db dbm, response) step" where
  "crack_points env id_text =
     then_step (lift_result (stoi id_text)) (\<lambda>i.
     then_step (get_crack_points env i) (\<lambda>pts. respond env (JArr (map point_json pts))))"

text \<open>The crack of a request with its points, the start of every analysis handler.\<close>

definition load_crack :: "'db pg_env \<Rightarrow> int \<Rightarrow> ('db dbm, crack_info) step" where
  "load_crack env i =
     then_step (get_crack env i) (\<lambda>crack.
     then_step (get_crack_points env i) (\<lambda>pts. lift_result (Inr (crack\<lparr>ci_points := pts\<rparr>))))"

text \<open>\<open>model.predict\<close>; a prediction that does not return would be \<open>None\<close>.\<close>

definition run_prediction :: "crack_info \<Rightarrow> ('s, paris_result) step" where
  "run_prediction crack s = map_option (\<lambda>(r, _). (r, s)) (predict crack 720 100 default_paris)"

definition prediction_row :: "int \<Rightarrow> paris_result \<Rightarrow> crack_prediction" where
  "prediction_row crack_id r =
     \<lparr>cp_id = indeterminate, cp_crack_id = crack_id, cp_model_type = ''PARIS_LAW'',
      cp_parameters = (case json_at (result_to_json r) ''parameters'' of Inr j \<Rightarrow> j | Inl _ \<Rightarrow> JNull),
      cp_time_horizon_hours = 720, cp_predicted_depth = pl_depth_720h r,
      cp_predicted_width = pl_width_720h r, cp_predicted_length = pl_length_720h r,
      cp_confidence = pl_confidence r, cp_risk_level = pl_risk_level r\<rparr>"

definition predict_crack :: "'db pg_env \<Rightarrow> string \<Rightarrow> ('db dbm, response) step" where
  "predict_crack env id_text =
     then_step (lift_result (stoi id_text)) (\<lambda>crack_id.
     then_step (load_crack env crack_id) (\<lambda>crack.
     then_step (run_prediction crack) (\<lambda>result.
     then_step (insert_prediction env (prediction_row crack_id result)) (\<lambda>_.
     respond env (result_to_json result)))))"

text \<open>The repair simulation of a stored crack with a stored material. The random engine, the geometry
  of a fresh simulation and the material that is left when none has the id are arguments.\<close>

definition chosen_material :: "int \<Rightarrow> repair_material \<Rightarrow> repair_material list \<Rightarrow> repair_material" where
  "chosen_material i junk ms = (case find (\<lambda>m. rm_id m = i) ms of None \<Rightarrow> junk | Some m \<Rightarrow> m)"

definition simulation_row :: "int \<Rightarrow> int \<Rightarrow> dem_result \<Rightarrow> repair_simulation" where
  "simulation_row crack_id material_id r =
     \<lparr>rs_id = indeterminate, rs_crack_id = crack_id, rs_material_id = material_id, rs_method = ''DEM'',
      rs_parameters = (case json_at (dem_result_to_json r) ''parameters'' of Inr j \<Rightarrow> j | Inl _ \<Rightarrow> JNull),
      rs_particle_count = dr_particle_count r, rs_filling_rate = dr_filling_rate r,
      rs_bonding_strength = dr_bonding_strength r, rs_surface_smoothness = dr_surface_smoothness r,
      rs_durability_score = dr_durability_score r, rs_result = dem_result_to_json r\<rparr>"

definition endpoint_simulation :: "rnd \<Rightarrow> dem_geometry \<Rightarrow> repair_material \<Rightarrow> dem_config \<Rightarrow> crack_info \<Rightarrow> repair_material \<Rightarrow> dem" where
  "endpoint_simulation rnd geometry junk cfg crack material =
     generate_boundary (generate_particles rnd 1000 (set_material_properties material
       (set_crack_geometry crack (new_dem cfg geometry junk))))"

definition simulate_repair :: "'db pg_env \<Rightarrow> rnd \<Rightarrow> dem_geometry \<Rightarrow> repair_material \<Rightarrow> dem_config \<Rightarrow> string \<Rightarrow> string \<Rightarrow>
    ('db dbm, response) step" where
  "simulate_repair env rnd geometry junk cfg crack_text material_text =
     then_step (lift_result (stoi crack_text)) (\<lambda>crack_id.
     then_step (lift_result (stoi material_text)) (\<lambda>material_id.
     then_step (load_crack env crack_id) (\<lambda>crack.
     then_step (get_repair_materials env) (\<lambda>materials.
     then_step (lift_result (dem_run_result rnd 1000
       (endpoint_simulation rnd geometry junk cfg crack (chosen_material material_id junk materials)))) (\<lambda>(r, _).
     then_step (insert_simulation env (simulation_row crack_id material_id r)) (\<lambda>_.
     respond env (dem_result_to_json r)))))))"

definition list_alerts :: "'db pg_env \<Rightarrow> ('db dbm, response) step" where
  "list_alerts env =
     then_step (get_active_alerts env) (\<lambda>as. respond env (JArr (map active_alert_json as)))"

definition acknowledge_alert :: "'db pg_env \<Rightarrow> string \<Rightarrow> ('db dbm, response) step" where
  "acknowledge_alert env id_text =
     then_step (lift_result (stoll id_text)) (\<lambda>i.
     then_step (update_alert_status env i ACKNOWLEDGED) (\<lambda>ok.
     respond env (JObj [(''success'', JBool ok)])))"

definition list_materials :: "'db pg_env \<Rightarrow> ('db dbm, response) step" where
  "list_materials env =
     then_step (get_repair_materials env) (\<lambda>ms. respond env (JArr (map material_json ms)))"

definition latest_stress :: "'db pg_env \<Rightarrow> string \<Rightarrow> ('db dbm, response) step" where
  "latest_stress env id_text =
     then_step (lift_result (stoi id_text)) (\<lambda>i.
     then_step (get_latest_stress_analysis env i) (\<lambda>r. respond env (latest_stress_json r)))"

subsection \<open>Properties\<close>

text \<open>A number that does not fit ends the request before the database is asked.\<close>

lemma oversized_id:
  assumes "2 ^ 31 \<le> digits_value ds"
  shows "show_porcelain env ds s = Some (Inl (Out_of_range ''stoi''), s)"
    and "porcelain_cracks env ds s = Some (Inl (Out_of_range ''stoi''), s)"
    and "predict_crack env ds s = Some (Inl (Out_of_range ''stoi''), s)"
  using assms
  by (simp_all add: show_porcelain_def porcelain_cracks_def predict_crack_def then_step_def
      lift_result_def stoi_def)

text \<open>A target is used as a path as it is, so it may leave the document root.\<close>

lemma serve_file_not_confined:
  "fs (doc_root @ ''/../'' @ name) = Some content \<Longrightarrow>
     rs_body (serve_file fs doc_root (''/../'' @ name)) = content"
  by (simp add: serve_file_def)

text \<open>The prediction endpoint stores and answers what the model says of the stored crack, and
  that is never growth: the length for 720 hours is the stored length, and the grade is CRITICAL
  for a crack shorter than the critical length and NEGLIGIBLE for any longer one, a crack that
  does not exist included (it reads as zero and is taken as a millimetre).\<close>

theorem predict_endpoint_verdict:
  assumes "stoi id_text = Inr i" and "load_crack env i s = Some (Inr crack, s1)"
  shows "\<exists>r. predict_crack env id_text s =
      then_step (insert_prediction env (prediction_row i r)) (\<lambda>_. respond env (result_to_json r)) s1
    \<and> cp_predicted_length (prediction_row i r) = start_length crack
    \<and> cp_risk_level (prediction_row i r) =
        (if start_length crack < critical_crack_length default_paris then ''CRITICAL'' else ''NEGLIGIBLE'')"
proof -
  have z: "default_paris\<lparr>par_initial_crack_length := 0\<rparr> = default_paris"
    by (simp add: default_paris_def)
  obtain r p' where r: "predict crack 720 100 default_paris = Some (Inr r, p')"
      "pl_length_720h r = start_length crack"
      "pl_risk_level r = (if start_length crack < critical_crack_length default_paris
         then ''CRITICAL'' else ''NEGLIGIBLE'')"
    using default_verdict_any_start [of 720 crack 0] unfolding z by (auto split: if_splits)
  have "predict_crack env id_text s =
      then_step (insert_prediction env (prediction_row i r)) (\<lambda>_. respond env (result_to_json r)) s1"
    using assms r(1) by (simp add: predict_crack_def then_step_def lift_result_def run_prediction_def)
  moreover have "cp_predicted_length (prediction_row i r) = pl_length_720h r"
      "cp_risk_level (prediction_row i r) = pl_risk_level r"
    by (simp_all add: prediction_row_def)
  ultimately show ?thesis
    using r(2,3) by metis
qed

subsection \<open>A concrete request\<close>

text \<open>An empty database: every query answers with no row.\<close>

definition empty_db_env :: "unit pg_env" where
  "empty_db_env = \<lparr>pg_exec = (\<lambda>c q db. (Tuples_ok [], db)), pg_connected = (\<lambda>c db. True),
     pg_parse = (\<lambda>_. Inl Json_error), pg_dump = (\<lambda>j. Inr ''{}''), pg_atoi = (\<lambda>_. 0), pg_atof = (\<lambda>_. 0)\<rparr>"

lemma empty_db_load:
  "load_crack empty_db_env 7 \<lparr>dm_available = [0], dm_server = ()\<rparr> =
     Some (Inr empty_crack, \<lparr>dm_available = [0], dm_server = ()\<rparr>)"
  by (simp add: load_crack_def then_step_def get_crack_def get_crack_points_def with_conn_def
      pool_acquire_def pool_release_def query_row_def query_rows_def empty_db_env_def
      lift_result_def empty_crack_def)

theorem predict_endpoint_verdict_witness:
  "\<exists>r. predict_crack empty_db_env ''7'' \<lparr>dm_available = [0], dm_server = ()\<rparr> =
      then_step (insert_prediction empty_db_env (prediction_row 7 r))
        (\<lambda>_. respond empty_db_env (result_to_json r)) \<lparr>dm_available = [0], dm_server = ()\<rparr>
    \<and> cp_predicted_length (prediction_row 7 r) = start_length empty_crack"
proof -
  have "stoi ''7'' = Inr 7"
    by (simp add: stoi_def digits_value_def)
  then show ?thesis
    using predict_endpoint_verdict [OF _ empty_db_load] by blast
qed

end
