(* ===== verification/Thread_Pool.thy ===== *)
theory Thread_Pool
  imports Prelude "HOL-Library.Multiset"
begin

section \<open>The thread pool (include/modules/common/thread_pool.h and .cpp)\<close>

text \<open>
  Worker threads over one queue, at the granularity of the pool's critical sections and of its
  unlocked atomic operations. A thread that has found its wait predicate false still holds the
  mutex (\<open>Deciding\<close>) and then goes to sleep and releases it in one step, as
  \<open>std::condition_variable::wait\<close> does; a notification wakes only threads that are asleep. The
  decrement of \<open>active_tasks_\<close>, the store to \<open>stop_\<close> and the notifications need no mutex.
  Tasks are named by numbers; a \<open>packaged_task\<close> never throws. Threads calling \<open>wait_all\<close> are
  the waiters. \<open>tp_submitted\<close>, \<open>tp_popped\<close> and \<open>tp_done\<close> record history.
\<close>

datatype worker =
    Ready
  | Deciding
  | Asleep
  | Running nat
  | Finishing
  | Notifying
  | Exited

datatype waiter = W_ready | W_deciding | W_asleep | W_returned

datatype shutdown = Sd_idle | Sd_stopped | Sd_joining | Sd_done

datatype owner = Held_by_worker nat | Held_by_waiter nat

record pool =
  tp_tasks :: "nat list"
  tp_stop :: bool
  tp_active :: nat
  tp_lock :: "owner option"
  tp_workers :: "worker list"
  tp_waiters :: "waiter list"
  tp_notify_one :: nat
  tp_shutdown :: shutdown
  tp_submitted :: "nat list"
  tp_popped :: "nat list"
  tp_done :: "nat list"

definition new_pool :: "nat \<Rightarrow> nat \<Rightarrow> pool" where
  "new_pool n m = \<lparr>tp_tasks = [], tp_stop = False, tp_active = 0, tp_lock = None,
     tp_workers = replicate n Ready, tp_waiters = replicate m W_ready, tp_notify_one = 0,
     tp_shutdown = Sd_idle, tp_submitted = [], tp_popped = [], tp_done = []\<rparr>"

text \<open>The number of threads of the constructor.\<close>

definition pool_threads :: "nat \<Rightarrow> nat \<Rightarrow> nat" where
  "pool_threads num_threads hardware = (if num_threads = 0 then max 1 hardware else num_threads)"

definition pending_tasks :: "pool \<Rightarrow> nat" where
  "pending_tasks s = length (tp_tasks s)"

subsection \<open>Steps\<close>

text \<open>\<open>submit\<close> throws on a stopped pool.\<close>

definition submit :: "nat \<Rightarrow> pool \<Rightarrow> pool result" where
  "submit t s =
     (if tp_stop s then Inl (Runtime_error ''ThreadPool is stopped'')
      else Inr (s\<lparr>tp_tasks := tp_tasks s @ [t], tp_active := tp_active s + 1,
        tp_notify_one := tp_notify_one s + 1, tp_submitted := tp_submitted s @ [t]\<rparr>))"

definition set_worker :: "nat \<Rightarrow> worker \<Rightarrow> pool \<Rightarrow> pool" where
  "set_worker i w s = s\<lparr>tp_workers := (tp_workers s)[i := w]\<rparr>"

text \<open>The critical section of a worker: lock, test, and either take a task, leave, or keep the
  mutex until asleep.\<close>

definition worker_lock :: "nat \<Rightarrow> pool \<Rightarrow> pool" where
  "worker_lock i s =
     (if tp_stop s \<or> tp_tasks s \<noteq> [] then
        (case tp_tasks s of
           [] \<Rightarrow> set_worker i Exited s
         | t # ts \<Rightarrow> set_worker i (Running t) (s\<lparr>tp_tasks := ts, tp_popped := tp_popped s @ [t]\<rparr>))
      else (set_worker i Deciding s)\<lparr>tp_lock := Some (Held_by_worker i)\<rparr>)"

definition worker_sleep :: "nat \<Rightarrow> pool \<Rightarrow> pool" where
  "worker_sleep i s = (set_worker i Asleep s)\<lparr>tp_lock := None\<rparr>"

definition worker_run :: "nat \<Rightarrow> nat \<Rightarrow> pool \<Rightarrow> pool" where
  "worker_run i t s = (set_worker i Finishing s)\<lparr>tp_done := tp_done s @ [t]\<rparr>"

definition worker_decrement :: "nat \<Rightarrow> pool \<Rightarrow> pool" where
  "worker_decrement i s =
     (let remaining = tp_active s - 1
      in (set_worker i (if remaining = 0 then Notifying else Ready) s)\<lparr>tp_active := remaining\<rparr>)"

definition wake_waiter :: "waiter \<Rightarrow> waiter" where
  "wake_waiter w = (if w = W_asleep then W_ready else w)"

definition wake_worker :: "worker \<Rightarrow> worker" where
  "wake_worker w = (if w = Asleep then Ready else w)"

definition worker_notify :: "nat \<Rightarrow> pool \<Rightarrow> pool" where
  "worker_notify i s = (set_worker i Ready s)\<lparr>tp_waiters := map wake_waiter (tp_waiters s)\<rparr>"

definition waiter_lock :: "nat \<Rightarrow> pool \<Rightarrow> pool" where
  "waiter_lock j s =
     (if tp_tasks s = [] \<and> tp_active s = 0 then s\<lparr>tp_waiters := (tp_waiters s)[j := W_returned]\<rparr>
      else s\<lparr>tp_waiters := (tp_waiters s)[j := W_deciding], tp_lock := Some (Held_by_waiter j)\<rparr>)"

definition waiter_sleep :: "nat \<Rightarrow> pool \<Rightarrow> pool" where
  "waiter_sleep j s = s\<lparr>tp_waiters := (tp_waiters s)[j := W_asleep], tp_lock := None\<rparr>"

definition shutdown_stop :: "pool \<Rightarrow> pool" where
  "shutdown_stop s = s\<lparr>tp_stop := True, tp_shutdown := Sd_stopped\<rparr>"

definition shutdown_notify :: "pool \<Rightarrow> pool" where
  "shutdown_notify s = s\<lparr>tp_workers := map wake_worker (tp_workers s), tp_shutdown := Sd_joining\<rparr>"

definition shutdown_join :: "pool \<Rightarrow> pool" where
  "shutdown_join s = s\<lparr>tp_shutdown := Sd_done\<rparr>"

datatype kind = By_pool | By_client | Spurious

inductive pool_step :: "kind \<Rightarrow> pool \<Rightarrow> pool \<Rightarrow> bool" where
  submit: "tp_lock s = None \<Longrightarrow> submit t s = Inr s' \<Longrightarrow> pool_step By_client s s'"
| notify_worker: "0 < tp_notify_one s \<Longrightarrow> i < length (tp_workers s) \<Longrightarrow> tp_workers s ! i = Asleep \<Longrightarrow>
    pool_step By_pool s (set_worker i Ready (s\<lparr>tp_notify_one := tp_notify_one s - 1\<rparr>))"
| notify_nobody: "0 < tp_notify_one s \<Longrightarrow> Asleep \<notin> set (tp_workers s) \<Longrightarrow>
    pool_step By_pool s (s\<lparr>tp_notify_one := tp_notify_one s - 1\<rparr>)"
| lock: "i < length (tp_workers s) \<Longrightarrow> tp_workers s ! i = Ready \<Longrightarrow> tp_lock s = None \<Longrightarrow>
    pool_step By_pool s (worker_lock i s)"
| sleep: "i < length (tp_workers s) \<Longrightarrow> tp_workers s ! i = Deciding \<Longrightarrow> pool_step By_pool s (worker_sleep i s)"
| run: "i < length (tp_workers s) \<Longrightarrow> tp_workers s ! i = Running t \<Longrightarrow> pool_step By_pool s (worker_run i t s)"
| decrement: "i < length (tp_workers s) \<Longrightarrow> tp_workers s ! i = Finishing \<Longrightarrow>
    pool_step By_pool s (worker_decrement i s)"
| notify: "i < length (tp_workers s) \<Longrightarrow> tp_workers s ! i = Notifying \<Longrightarrow>
    pool_step By_pool s (worker_notify i s)"
| wait_lock: "j < length (tp_waiters s) \<Longrightarrow> tp_waiters s ! j = W_ready \<Longrightarrow> tp_lock s = None \<Longrightarrow>
    pool_step By_pool s (waiter_lock j s)"
| wait_sleep: "j < length (tp_waiters s) \<Longrightarrow> tp_waiters s ! j = W_deciding \<Longrightarrow>
    pool_step By_pool s (waiter_sleep j s)"
| stop: "tp_shutdown s = Sd_idle \<Longrightarrow> pool_step By_client s (shutdown_stop s)"
| stop_notify: "tp_shutdown s = Sd_stopped \<Longrightarrow> pool_step By_pool s (shutdown_notify s)"
| join: "tp_shutdown s = Sd_joining \<Longrightarrow> set (tp_workers s) \<subseteq> {Exited} \<Longrightarrow> pool_step By_pool s (shutdown_join s)"
| spurious_worker: "i < length (tp_workers s) \<Longrightarrow> tp_workers s ! i = Asleep \<Longrightarrow>
    pool_step Spurious s (set_worker i Ready s)"
| spurious_waiter: "j < length (tp_waiters s) \<Longrightarrow> tp_waiters s ! j = W_asleep \<Longrightarrow>
    pool_step Spurious s (s\<lparr>tp_waiters := (tp_waiters s)[j := W_ready]\<rparr>)"

inductive pool_reachable :: "nat \<Rightarrow> nat \<Rightarrow> pool \<Rightarrow> bool" for n m where
  init: "pool_reachable n m (new_pool n m)"
| step: "pool_reachable n m s \<Longrightarrow> pool_step k s s' \<Longrightarrow> pool_reachable n m s'"

inductive_cases pool_stepE: "pool_step k s s'"

subsection \<open>What the counters count\<close>

lemma sum_list_map_update:
  fixes f :: "'a \<Rightarrow> 'b::comm_monoid_add"
  shows "i < length xs \<Longrightarrow> sum_list (map f (xs[i := x])) + f (xs ! i) = sum_list (map f xs) + f x"
proof (induction xs arbitrary: i)
  case (Cons y ys)
  then show ?case
    by (cases i) (simp_all add: ac_simps)
qed simp

definition held :: "worker \<Rightarrow> nat multiset" where
  "held w = (case w of Running t \<Rightarrow> {#t#} | _ \<Rightarrow> {#})"

definition busy :: "worker \<Rightarrow> nat" where
  "busy w = (case w of Running _ \<Rightarrow> 1 | Finishing \<Rightarrow> 1 | _ \<Rightarrow> 0)"

definition running_tasks :: "pool \<Rightarrow> nat multiset" where
  "running_tasks s = sum_list (map held (tp_workers s))"

definition busy_workers :: "pool \<Rightarrow> nat" where
  "busy_workers s = sum_list (map busy (tp_workers s))"

lemmas occupancy = held_def busy_def

lemma set_worker_simps [simp]:
  "tp_tasks (set_worker i w s) = tp_tasks s" "tp_stop (set_worker i w s) = tp_stop s"
  "tp_active (set_worker i w s) = tp_active s" "tp_lock (set_worker i w s) = tp_lock s"
  "tp_waiters (set_worker i w s) = tp_waiters s" "tp_submitted (set_worker i w s) = tp_submitted s"
  "tp_popped (set_worker i w s) = tp_popped s" "tp_done (set_worker i w s) = tp_done s"
  "tp_workers (set_worker i w s) = (tp_workers s)[i := w]"
  "tp_shutdown (set_worker i w s) = tp_shutdown s"
  "tp_notify_one (set_worker i w s) = tp_notify_one s"
  by (simp_all add: set_worker_def)

lemma running_update:
  assumes "i < length (tp_workers s)" and "tp_workers s' = (tp_workers s)[i := w]"
  shows "running_tasks s' + held (tp_workers s ! i) = running_tasks s + held w"
    and "busy_workers s' + busy (tp_workers s ! i) = busy_workers s + busy w"
  using assms sum_list_map_update [of i "tp_workers s" held w] sum_list_map_update [of i "tp_workers s" busy w]
  by (simp_all add: running_tasks_def busy_workers_def)

lemma running_same:
  "tp_workers s' = tp_workers s \<Longrightarrow> running_tasks s' = running_tasks s"
  "tp_workers s' = tp_workers s \<Longrightarrow> busy_workers s' = busy_workers s"
  by (simp_all add: running_tasks_def busy_workers_def)

lemma running_wake:
  "running_tasks (shutdown_notify s) = running_tasks s" "busy_workers (shutdown_notify s) = busy_workers s"
proof -
  have "held (wake_worker w) = held w" "busy (wake_worker w) = busy w" for w
    by (simp_all add: wake_worker_def occupancy)
  then show "running_tasks (shutdown_notify s) = running_tasks s"
      "busy_workers (shutdown_notify s) = busy_workers s"
    by (simp_all add: shutdown_notify_def running_tasks_def busy_workers_def o_def)
qed

definition pool_inv :: "nat \<Rightarrow> pool \<Rightarrow> bool" where
  "pool_inv n s \<longleftrightarrow>
     tp_popped s @ tp_tasks s = tp_submitted s \<and>
     mset (tp_popped s) = mset (tp_done s) + running_tasks s \<and>
     tp_active s = length (tp_tasks s) + busy_workers s \<and>
     length (tp_workers s) = n \<and>
     (Exited \<in> set (tp_workers s) \<longrightarrow> tp_stop s \<and> tp_tasks s = []) \<and>
     (tp_shutdown s \<noteq> Sd_idle \<longrightarrow> tp_stop s) \<and>
     (tp_shutdown s = Sd_done \<longrightarrow> set (tp_workers s) \<subseteq> {Exited})"

lemma Exited_update: "Exited \<in> set (xs[i := w]) \<Longrightarrow> Exited \<in> set xs \<or> w = Exited"
  using set_update_subset_insert [of xs i w] by auto

lemma all_Exited_update:
  assumes "set xs \<subseteq> {Exited}" and "i < length xs" and "xs ! i \<noteq> Exited"
  shows False
  using assms nth_mem [of i xs] by blast

lemma held_simps [simp]:
  "held (Running t) = {#t#}" "held Ready = {#}" "held Deciding = {#}" "held Asleep = {#}"
  "held Finishing = {#}" "held Notifying = {#}" "held Exited = {#}"
  "busy (Running t) = 1" "busy Ready = 0" "busy Deciding = 0" "busy Asleep = 0"
  "busy Finishing = 1" "busy Notifying = 0" "busy Exited = 0"
  by (simp_all add: occupancy)

lemmas worker_steps = worker_lock_def worker_sleep_def worker_run_def worker_decrement_def worker_notify_def
lemmas waiter_steps = waiter_lock_def waiter_sleep_def
lemmas shutdown_steps = shutdown_stop_def shutdown_notify_def shutdown_join_def

lemma inv_worker:
  assumes inv: "pool_inv n s" and i: "i < length (tp_workers s)" "tp_workers s ! i = w0" "w0 \<noteq> Exited"
    and ws: "tp_workers s' = (tp_workers s)[i := w]" "w = Exited \<longrightarrow> tp_stop s \<and> tp_tasks s = []"
    and hist: "tp_submitted s' = tp_submitted s" "tp_popped s' @ tp_tasks s' = tp_popped s @ tp_tasks s"
      "tp_tasks s = [] \<longrightarrow> tp_tasks s' = []" "tp_stop s' = tp_stop s" "tp_shutdown s' = tp_shutdown s"
    and tasks: "mset (tp_popped s') + held w0 + mset (tp_done s) = mset (tp_popped s) + held w + mset (tp_done s')"
    and active: "tp_active s' + length (tp_tasks s) + busy w0 = tp_active s + length (tp_tasks s') + busy w"
  shows "pool_inv n s'"
proof -
  note old = inv [unfolded pool_inv_def]
  note R = running_update [OF i(1) ws(1), unfolded i(2)]
  have "mset (tp_popped s') + held w0 + mset (tp_done s)
      = mset (tp_done s') + running_tasks s' + (held w0 + mset (tp_done s))"
    using old R(1) tasks by (simp add: ac_simps)
  then have "mset (tp_popped s') = mset (tp_done s') + running_tasks s'"
    by (simp add: ac_simps)
  moreover have "tp_active s' = length (tp_tasks s') + busy_workers s'"
    using old R(2) active by linarith
  moreover have "tp_shutdown s \<noteq> Sd_done"
    using old all_Exited_update [OF _ i(1)] i(2,3) by auto
  moreover have "Exited \<in> set (tp_workers s') \<longrightarrow> tp_stop s' \<and> tp_tasks s' = []"
    using old ws(2) hist(3,4) Exited_update [of "tp_workers s" i w] unfolding ws(1) by auto
  ultimately show ?thesis
    using old hist ws(1) unfolding pool_inv_def by simp
qed

lemma inv_other:
  assumes "pool_inv n s" and "tp_workers s' = tp_workers s" "tp_submitted s' = tp_submitted s"
    "tp_popped s' = tp_popped s" "tp_tasks s' = tp_tasks s" "tp_done s' = tp_done s"
    "tp_active s' = tp_active s" "tp_stop s' = tp_stop s" "tp_shutdown s' = tp_shutdown s"
  shows "pool_inv n s'"
  using assms running_same [OF assms(2)] unfolding pool_inv_def by simp

lemma inv_lock:
  assumes "pool_inv n s" and "i < length (tp_workers s)" and "tp_workers s ! i = Ready"
  shows "pool_inv n (worker_lock i s)"
proof (cases "tp_tasks s")
  case Nil
  show ?thesis
    by (rule inv_worker [OF assms, where w = "if tp_stop s then Exited else Deciding"])
      (simp_all add: worker_lock_def Nil)
next
  case (Cons t ts)
  show ?thesis
    by (rule inv_worker [OF assms, where w = "Running t"]) (simp_all add: worker_lock_def Cons)
qed

lemma inv_submit:
  assumes inv: "pool_inv n s" and sub: "submit t s = Inr s'"
  shows "pool_inv n s'"
proof -
  have "\<not> tp_stop s" "tp_workers s' = tp_workers s"
    using sub by (auto simp: submit_def split: if_splits)
  then show ?thesis
    using inv sub running_same [of s' s] by (auto simp: pool_inv_def submit_def split: if_splits)
qed

lemma inv_shutdown:
  "pool_inv n s \<Longrightarrow> tp_shutdown s = Sd_idle \<Longrightarrow> pool_inv n (shutdown_stop s)"
  "pool_inv n s \<Longrightarrow> tp_shutdown s = Sd_stopped \<Longrightarrow> pool_inv n (shutdown_notify s)"
  "pool_inv n s \<Longrightarrow> tp_shutdown s = Sd_joining \<Longrightarrow> set (tp_workers s) \<subseteq> {Exited} \<Longrightarrow>
    pool_inv n (shutdown_join s)"
proof -
  have wake: "Exited \<in> wake_worker ` set ws \<longleftrightarrow> Exited \<in> set ws" for ws
    by (auto simp: wake_worker_def image_iff split: if_splits)
  show "pool_inv n s \<Longrightarrow> tp_shutdown s = Sd_idle \<Longrightarrow> pool_inv n (shutdown_stop s)"
    using running_same [of "shutdown_stop s" s] by (auto simp: pool_inv_def shutdown_stop_def)
  show "pool_inv n s \<Longrightarrow> tp_shutdown s = Sd_stopped \<Longrightarrow> pool_inv n (shutdown_notify s)"
    using running_wake [of s] wake [of "tp_workers s"]
    unfolding pool_inv_def shutdown_notify_def by simp
  show "pool_inv n s \<Longrightarrow> tp_shutdown s = Sd_joining \<Longrightarrow> set (tp_workers s) \<subseteq> {Exited} \<Longrightarrow>
    pool_inv n (shutdown_join s)"
    using running_same [of "shutdown_join s" s] by (simp add: pool_inv_def shutdown_join_def)
qed

lemma inv_step: "pool_step k s s' \<Longrightarrow> pool_inv n s \<Longrightarrow> pool_inv n s'"
proof (induction rule: pool_step.induct)
  case (notify_worker s i)
  from notify_worker.prems notify_worker.hyps(2,3) show ?case
    by (rule inv_worker [where w = Ready]) simp_all
next
  case (sleep i s)
  from sleep.prems sleep.hyps show ?case
    by (rule inv_worker [where w = Asleep]) (simp_all add: worker_sleep_def)
next
  case (run i s t)
  from run.prems run.hyps show ?case
    by (rule inv_worker [where w = Finishing]) (simp_all add: worker_run_def)
next
  case (decrement i s)
  have "0 < tp_active s"
    using running_update(2) [of i s "set_worker i Ready s" Ready] decrement by (simp add: pool_inv_def)
  then show ?case
    by (intro inv_worker [OF decrement.prems decrement.hyps, where w = "if tp_active s - 1 = 0 then Notifying else Ready"])
      (simp_all add: worker_decrement_def Let_def)
next
  case (notify i s)
  from notify.prems notify.hyps show ?case
    by (rule inv_worker [where w = Ready]) (simp_all add: worker_notify_def)
next
  case (spurious_worker i s)
  from spurious_worker.prems spurious_worker.hyps show ?case
    by (rule inv_worker [where w = Ready]) simp_all
qed (auto intro: inv_other inv_lock inv_submit inv_shutdown simp: waiter_steps)

lemma pool_reachable_inv: "pool_reachable n m s \<Longrightarrow> pool_inv n s"
proof (induction rule: pool_reachable.induct)
  case init
  have "running_tasks (new_pool n m) = {#}" "busy_workers (new_pool n m) = 0"
    by (induction n) (simp_all add: new_pool_def running_tasks_def busy_workers_def)
  then show ?case
    by (auto simp: pool_inv_def new_pool_def)
qed (rule inv_step)

subsection \<open>Waiting and stopping\<close>

lemma quiescent_done:
  assumes "pool_inv n s" and "tp_tasks s = []" and "busy_workers s = 0"
  shows "mset (tp_done s) = mset (tp_submitted s)"
proof -
  have "sum_list (map busy ws) = 0 \<Longrightarrow> sum_list (map held ws) = {#}" for ws
    by (induction ws) (auto simp: occupancy split: worker.splits)
  then show ?thesis
    using assms by (auto simp: pool_inv_def running_tasks_def busy_workers_def)
qed

lemma drained_shutdown:
  assumes "pool_inv n s" and "0 < n" and "tp_shutdown s = Sd_done"
  shows "mset (tp_done s) = mset (tp_submitted s)"
proof (rule quiescent_done [OF assms(1)])
  have ws: "set (tp_workers s) \<subseteq> {Exited}" "tp_workers s \<noteq> []"
    using assms by (auto simp: pool_inv_def)
  then have "Exited \<in> set (tp_workers s)"
    by (cases "tp_workers s") auto
  then show "tp_tasks s = []"
    using assms(1) by (simp add: pool_inv_def)
  show "busy_workers s = 0"
    unfolding busy_workers_def using ws(1) by (auto simp: sum_list_nonneg_eq_0_iff)
qed

lemma return_step:
  assumes "pool_step k s s'" and "pool_inv n s"
    and "j < length (tp_waiters s)" "tp_waiters s ! j \<noteq> W_returned" "tp_waiters s' ! j = W_returned"
  shows "tp_tasks s' = [] \<and> tp_active s' = 0"
  using assms
  by (cases rule: pool_step.cases)
    (auto simp: waiter_steps worker_steps shutdown_steps submit_def nth_list_update wake_waiter_def
      set_worker_def Let_def split: if_splits list.splits)

text \<open>C16: \<open>wait_all\<close> returns only when every task submitted so far has been executed, and, on a
  pool with at least one thread, the destructor's \<open>shutdown\<close> finishes only then: no accepted task
  is dropped. In every interleaving.\<close>

theorem waiting_means_done:
  assumes "pool_reachable n m s"
  shows "(pool_step k s s' \<and> j < length (tp_waiters s) \<and> tp_waiters s ! j \<noteq> W_returned \<and>
      tp_waiters s' ! j = W_returned \<longrightarrow> mset (tp_done s') = mset (tp_submitted s')) \<and>
    (0 < n \<and> tp_shutdown s = Sd_done \<longrightarrow> mset (tp_done s) = mset (tp_submitted s))"
proof (intro conjI impI; elim conjE)
  note inv = pool_reachable_inv [OF assms]
  show "mset (tp_done s) = mset (tp_submitted s)" if "0 < n" "tp_shutdown s = Sd_done"
    using that by (rule drained_shutdown [OF inv])
  show "mset (tp_done s') = mset (tp_submitted s')"
    if step: "pool_step k s s'" and ret: "j < length (tp_waiters s)" "tp_waiters s ! j \<noteq> W_returned"
      "tp_waiters s' ! j = W_returned"
  proof -
    have "pool_inv n s'" "tp_tasks s' = []" "tp_active s' = 0"
      using inv_step [OF step inv] return_step [OF step inv ret] by simp_all
    then show ?thesis
      by (intro quiescent_done [of n]) (auto simp: pool_inv_def)
  qed
qed

subsection \<open>Lost wake-ups\<close>

text \<open>
  Two executions, each state as the list of the fields of \<open>pool\<close>. In the first the waiter tests its
  predicate, the last task finishes and notifies, and only then does the waiter go to sleep. In the
  second the same happens between a worker and the store to \<open>stop_\<close>.
\<close>

lemmas pool_eval = pool.make_def new_pool_def worker_steps waiter_steps shutdown_steps submit_def
  set_worker_def wake_waiter_def wake_worker_def

lemma one_task_executed:
  "pool_reachable 1 1 (pool.make [] False 1 None [Finishing] [W_ready] 0 Sd_idle [0] [0] [0])"
proof -
  let ?r = "pool_reachable 1 1"
  have "?r (pool.make [] False 0 None [Ready] [W_ready] 0 Sd_idle [] [] [])"
    using pool_reachable.init [of 1 1] by (simp add: pool_eval)
  from pool_reachable.step [OF this pool_step.submit [of _ 0]]
  have "?r (pool.make [0] False 1 None [Ready] [W_ready] 1 Sd_idle [0] [] [])"
    by (simp add: pool_eval)
  from pool_reachable.step [OF this pool_step.notify_nobody]
  have "?r (pool.make [0] False 1 None [Ready] [W_ready] 0 Sd_idle [0] [] [])"
    by (simp add: pool_eval)
  from pool_reachable.step [OF this pool_step.lock [of 0]]
  have "?r (pool.make [] False 1 None [Running 0] [W_ready] 0 Sd_idle [0] [0] [])"
    by (simp add: pool_eval)
  from pool_reachable.step [OF this pool_step.run [of 0 _ 0]]
  show ?thesis
    by (simp add: pool_eval)
qed

lemma waiter_left_asleep:
  "pool_reachable 1 1 (pool.make [] False 0 None [Asleep] [W_asleep] 0 Sd_idle [0] [0] [0])"
proof -
  let ?r = "pool_reachable 1 1"
  from pool_reachable.step [OF one_task_executed pool_step.wait_lock [of 0]]
  have "?r (pool.make [] False 1 (Some (Held_by_waiter 0)) [Finishing] [W_deciding] 0 Sd_idle [0] [0] [0])"
    by (simp add: pool_eval)
  from pool_reachable.step [OF this pool_step.decrement [of 0]]
  have "?r (pool.make [] False 0 (Some (Held_by_waiter 0)) [Notifying] [W_deciding] 0 Sd_idle [0] [0] [0])"
    by (simp add: pool_eval)
  from pool_reachable.step [OF this pool_step.notify [of 0]]
  have "?r (pool.make [] False 0 (Some (Held_by_waiter 0)) [Ready] [W_deciding] 0 Sd_idle [0] [0] [0])"
    by (simp add: pool_eval)
  from pool_reachable.step [OF this pool_step.wait_sleep [of 0]]
  have "?r (pool.make [] False 0 None [Ready] [W_asleep] 0 Sd_idle [0] [0] [0])"
    by (simp add: pool_eval)
  from pool_reachable.step [OF this pool_step.lock [of 0]]
  have "?r (pool.make [] False 0 (Some (Held_by_worker 0)) [Deciding] [W_asleep] 0 Sd_idle [0] [0] [0])"
    by (simp add: pool_eval)
  from pool_reachable.step [OF this pool_step.sleep [of 0]]
  show ?thesis
    by (simp add: pool_eval)
qed

lemma shutdown_left_joining:
  "pool_reachable 1 0 (pool.make [] True 0 None [Asleep] [] 0 Sd_joining [] [] [])"
proof -
  let ?r = "pool_reachable 1 0"
  have "?r (pool.make [] False 0 None [Ready] [] 0 Sd_idle [] [] [])"
    using pool_reachable.init [of 1 0] by (simp add: pool_eval)
  from pool_reachable.step [OF this pool_step.lock [of 0]]
  have "?r (pool.make [] False 0 (Some (Held_by_worker 0)) [Deciding] [] 0 Sd_idle [] [] [])"
    by (simp add: pool_eval)
  from pool_reachable.step [OF this pool_step.stop]
  have "?r (pool.make [] True 0 (Some (Held_by_worker 0)) [Deciding] [] 0 Sd_stopped [] [] [])"
    by (simp add: pool_eval)
  from pool_reachable.step [OF this pool_step.stop_notify]
  have "?r (pool.make [] True 0 (Some (Held_by_worker 0)) [Deciding] [] 0 Sd_joining [] [] [])"
    by (simp add: pool_eval)
  from pool_reachable.step [OF this pool_step.sleep [of 0]]
  show ?thesis
    by (simp add: pool_eval)
qed

text \<open>Wake-ups can be lost, because \<open>active_tasks_\<close> and \<open>stop_\<close> are changed and announced
  without the mutex. There is a reachable state in which every task is done and a thread still
  sleeps in \<open>wait_all\<close>, and one in which \<open>shutdown\<close> waits for a worker that sleeps; in both no
  thread of the pool can take a step, so only a spurious wake-up or a new task ends the wait.\<close>

theorem lost_wakeups:
  "(\<exists>s. pool_reachable 1 1 s \<and> tp_done s = tp_submitted s \<and> W_asleep \<in> set (tp_waiters s) \<and>
        \<not> (\<exists>s'. pool_step By_pool s s')) \<and>
   (\<exists>s. pool_reachable 1 0 s \<and> tp_shutdown s = Sd_joining \<and> Asleep \<in> set (tp_workers s) \<and>
        \<not> (\<exists>s'. pool_step By_pool s s'))"
proof (intro conjI exI)
  show "pool_reachable 1 1 (pool.make [] False 0 None [Asleep] [W_asleep] 0 Sd_idle [0] [0] [0])"
    by (rule waiter_left_asleep)
  show "pool_reachable 1 0 (pool.make [] True 0 None [Asleep] [] 0 Sd_joining [] [] [])"
    by (rule shutdown_left_joining)
qed (auto simp: pool.make_def elim: pool_stepE)

text \<open>One task is executed, the pool is stopped and joined, and then a waiter returns.\<close>

lemma shutdown_after_one_task:
  "pool_reachable 1 1 (pool.make [] True 0 None [Exited] [W_ready] 0 Sd_done [0] [0] [0])"
proof -
  let ?r = "pool_reachable 1 1"
  from pool_reachable.step [OF one_task_executed pool_step.decrement [of 0]]
  have "?r (pool.make [] False 0 None [Notifying] [W_ready] 0 Sd_idle [0] [0] [0])"
    by (simp add: pool_eval)
  from pool_reachable.step [OF this pool_step.notify [of 0]]
  have "?r (pool.make [] False 0 None [Ready] [W_ready] 0 Sd_idle [0] [0] [0])"
    by (simp add: pool_eval)
  from pool_reachable.step [OF this pool_step.stop]
  have "?r (pool.make [] True 0 None [Ready] [W_ready] 0 Sd_stopped [0] [0] [0])"
    by (simp add: pool_eval)
  from pool_reachable.step [OF this pool_step.stop_notify]
  have "?r (pool.make [] True 0 None [Ready] [W_ready] 0 Sd_joining [0] [0] [0])"
    by (simp add: pool_eval)
  from pool_reachable.step [OF this pool_step.lock [of 0]]
  have "?r (pool.make [] True 0 None [Exited] [W_ready] 0 Sd_joining [0] [0] [0])"
    by (simp add: pool_eval)
  from pool_reachable.step [OF this pool_step.join]
  show ?thesis
    by (simp add: pool_eval)
qed

theorem waiting_means_done_witness:
  "let s = pool.make [] True 0 None [Exited] [W_ready] 0 Sd_done [0] [0] [0];
       s' = pool.make [] True 0 None [Exited] [W_returned] 0 Sd_done [0] [0] [0]
   in pool_reachable 1 1 s \<and> pool_step By_pool s s' \<and> mset (tp_done s') = mset (tp_submitted s') \<and>
      mset (tp_done s) = mset (tp_submitted s)"
proof -
  let ?s = "pool.make [] True 0 None [Exited] [W_ready] 0 Sd_done [0] [0] [0]"
  let ?t = "pool.make [] True 0 None [Exited] [W_returned] 0 Sd_done [0] [0] [0]"
  have step: "pool_step By_pool ?s ?t"
    using pool_step.wait_lock [of 0 ?s] by (simp add: pool_eval)
  have "mset (tp_done ?t) = mset (tp_submitted ?t) \<and> mset (tp_done ?s) = mset (tp_submitted ?s)"
    using waiting_means_done [OF shutdown_after_one_task, of By_pool ?t 0] step by (simp add: pool.make_def)
  then show ?thesis
    using shutdown_after_one_task step by (simp add: Let_def)
qed

end
