(* ===== verification/Web_Socket.thy ===== *)
theory Web_Socket
  imports Prelude
begin

section \<open>The web-socket server (src/websocket_server.cpp)\<close>

text \<open>
  One session: its send queue, the \<open>do_send\<close> handlers posted to its strand, and the writes it
  starts; then the server: the acceptor, the list of sessions and the broadcast. A strand runs the
  handlers of a session one at a time, so each handler is one step. Whether Boost.Beast completes
  a read or a write with or without an error is the parameter \<open>net\<close>: the outcomes possible in each
  state of the handshake. Locking \<open>mutex_\<close> twice in one thread is undefined behaviour.
\<close>

datatype handshake = Not_started | Accepting | Opened | Refused

record session =
  ss_shake :: handshake
  ss_queue :: "string list"
  ss_mutex :: bool
  ss_posted :: "string list"
  ss_writing :: "string option"
  ss_reading :: bool
  ss_requested :: "string list"
  ss_sent :: "string list"
  ss_failed :: bool

definition new_session :: session where
  "new_session = \<lparr>ss_shake = Not_started, ss_queue = [], ss_mutex = False, ss_posted = [],
     ss_writing = None, ss_reading = False, ss_requested = [], ss_sent = [], ss_failed = False\<rparr>"

subsection \<open>Handlers of a session\<close>

definition ws_run :: "session \<Rightarrow> session" where
  "ws_run s = s\<lparr>ss_shake := Accepting\<rparr>"

definition do_read :: "session \<Rightarrow> session" where
  "do_read s = s\<lparr>ss_reading := True\<rparr>"

definition on_accept :: "bool \<Rightarrow> session \<Rightarrow> session" where
  "on_accept ok s = (if \<not> ok then s\<lparr>ss_shake := Refused\<rparr> else do_read (s\<lparr>ss_shake := Opened\<rparr>))"

definition ws_on_read :: "bool \<Rightarrow> session \<Rightarrow> session" where
  "ws_on_read ok s =
     (let s = s\<lparr>ss_reading := False\<rparr> in
      if \<not> ok then s else do_read s)"

definition lock_guard :: "session \<Rightarrow> session result" where
  "lock_guard s = (if ss_mutex s then Inl (UB ''mutex locked twice'') else Inr (s\<lparr>ss_mutex := True\<rparr>))"

definition unlock :: "session \<Rightarrow> session" where
  "unlock s = s\<lparr>ss_mutex := False\<rparr>"

definition ws_send :: "string \<Rightarrow> session \<Rightarrow> session" where
  "ws_send message s =
     s\<lparr>ss_posted := ss_posted s @ [message], ss_requested := ss_requested s @ [message]\<rparr>"

definition do_send :: "string \<Rightarrow> session \<Rightarrow> session result" where
  "do_send message s =
     and_then (lock_guard s) (\<lambda>s.
       let was_empty = ss_queue s = [];
           s = s\<lparr>ss_queue := ss_queue s @ [message]\<rparr>
       in Inr (unlock (if was_empty then s\<lparr>ss_writing := Some (hd (ss_queue s))\<rparr> else s)))"

text \<open>The body of \<open>on_write\<close> in the statement order of the source: the guard is held to the end.\<close>

definition ws_on_write :: "bool \<Rightarrow> session \<Rightarrow> session result" where
  "ws_on_write ok s =
     (if \<not> ok then Inr s
      else and_then (lock_guard s) (\<lambda>s.
        let s = s\<lparr>ss_queue := tl (ss_queue s)\<rparr> in
        if ss_queue s \<noteq> [] then and_then (do_send (hd (ss_queue s)) s) (\<lambda>s. Inr (unlock s))
        else Inr (unlock s)))"

text \<open>The completion of an outstanding write: the message counts as sent when there is no error.\<close>

definition write_done :: "bool \<Rightarrow> session \<Rightarrow> session result" where
  "write_done ok s =
     (case ss_writing s of
        None \<Rightarrow> Inr s
      | Some m \<Rightarrow> ws_on_write ok (s\<lparr>ss_writing := None, ss_sent := ss_sent s @ (if ok then [m] else []),
          ss_failed := (\<not> ok)\<rparr>))"

type_synonym net = "handshake \<Rightarrow> bool set"

inductive session_step :: "net \<Rightarrow> session \<Rightarrow> session result \<Rightarrow> bool" for net where
  send: "session_step net s (Inr (ws_send m s))"
| posted: "ss_posted s = m # ms \<Longrightarrow> session_step net s (do_send m (s\<lparr>ss_posted := ms\<rparr>))"
| written: "ss_writing s = Some m \<Longrightarrow> ok \<in> net (ss_shake s) \<Longrightarrow> session_step net s (write_done ok s)"
| read: "ss_reading s \<Longrightarrow> ok \<in> net (ss_shake s) \<Longrightarrow> session_step net s (Inr (ws_on_read ok s))"
| accept: "ss_shake s = Accepting \<Longrightarrow> session_step net s (Inr (on_accept ok s))"

inductive session_reachable :: "net \<Rightarrow> session \<Rightarrow> session \<Rightarrow> bool" for net s0 where
  init: "session_reachable net s0 s0"
| step: "session_reachable net s0 s \<Longrightarrow> session_step net s (Inr s') \<Longrightarrow> session_reachable net s0 s'"

inductive_cases session_stepE: "session_step net s r"

lemmas session_handlers = ws_run_def do_read_def on_accept_def ws_on_read_def lock_guard_def unlock_def
  ws_send_def do_send_def ws_on_write_def write_done_def

text \<open>Between steps the mutex is free; the queue holds what is requested and neither sent nor still
  posted; a write of its first message is outstanding unless one has failed.\<close>

definition session_inv :: "session \<Rightarrow> bool" where
  "session_inv s \<longleftrightarrow>
     \<not> ss_mutex s \<and> ss_requested s = ss_sent s @ ss_queue s @ ss_posted s \<and>
     (ss_failed s \<longrightarrow> ss_queue s \<noteq> []) \<and>
     ss_writing s = (if ss_queue s = [] \<or> ss_failed s then None else Some (hd (ss_queue s)))"

lemma ws_on_write_overlap:
  assumes "ss_queue s = m # m' # ms" and "\<not> ss_mutex s"
  shows "ws_on_write True s = Inl (UB ''mutex locked twice'')"
  using assms by (simp add: session_handlers)

lemma write_done_cases:
  assumes "session_inv s" and "ss_writing s = Some m"
  shows "write_done ok s =
    (if \<not> ok then Inr (s\<lparr>ss_writing := None, ss_failed := True\<rparr>)
     else if tl (ss_queue s) = [] then
       Inr (s\<lparr>ss_writing := None, ss_sent := ss_sent s @ [m], ss_failed := False, ss_queue := []\<rparr>)
     else Inl (UB ''mutex locked twice''))"
  using assms by (auto simp: session_inv_def session_handlers split: if_splits)

lemma session_inv_posted:
  assumes "session_inv s" and "ss_posted s = m # ms" and "do_send m (s\<lparr>ss_posted := ms\<rparr>) = Inr s'"
  shows "session_inv s'"
proof (cases "ss_queue s")
  case Nil
  then show ?thesis
    using assms by (auto simp: session_inv_def session_handlers Let_def)
next
  case (Cons x xs)
  then show ?thesis
    using assms by (auto simp: session_inv_def session_handlers Let_def)
qed

lemma session_inv_step: "session_step net s r \<Longrightarrow> r = Inr s' \<Longrightarrow> session_inv s \<Longrightarrow> session_inv s'"
proof (induction rule: session_step.induct)
  case (send s m)
  then show ?case
    by (auto simp: session_inv_def ws_send_def)
next
  case (posted s m ms)
  then show ?case
    by (auto intro: session_inv_posted)
next
  case (written s m ok)
  then show ?case
    by (cases "ss_queue s") (auto simp: write_done_cases session_inv_def split: if_splits)
next
  case (read s ok)
  then show ?case
    by (cases ok) (auto simp: session_inv_def ws_on_read_def do_read_def)
next
  case (accept s ok)
  then show ?case
    by (cases ok) (auto simp: session_inv_def on_accept_def do_read_def)
qed

lemma session_reachable_inv:
  "session_reachable net s0 s \<Longrightarrow> session_inv s0 \<Longrightarrow> session_inv s"
  by (induction rule: session_reachable.induct) (auto dest: session_inv_step)

lemma session_inv_new: "session_inv (new_session\<lparr>ss_shake := h, ss_reading := b\<rparr>)"
  by (simp add: session_inv_def new_session_def)

subsection \<open>The server\<close>

text \<open>\<open>sv_all\<close> holds every session created, also those only a pending handler keeps alive;
  \<open>sv_sessions\<close> is \<open>sessions_\<close>, as indices into it. \<open>sv_pending\<close> is an outstanding accept.\<close>

record ws_server =
  sv_open :: bool
  sv_pending :: bool
  sv_all :: "session list"
  sv_sessions :: "nat list"

definition new_ws_server :: ws_server where
  "new_ws_server = \<lparr>sv_open = True, sv_pending = False, sv_all = [], sv_sessions = []\<rparr>"

definition do_accept :: "ws_server \<Rightarrow> ws_server" where
  "do_accept v = v\<lparr>sv_pending := True\<rparr>"

definition ws_start :: "ws_server \<Rightarrow> ws_server" where
  "ws_start v = do_accept v"

definition ws_stop :: "ws_server \<Rightarrow> ws_server" where
  "ws_stop v = v\<lparr>sv_open := False, sv_sessions := []\<rparr>"

definition add_session :: "session \<Rightarrow> ws_server \<Rightarrow> ws_server" where
  "add_session s v = v\<lparr>sv_all := sv_all v @ [s], sv_sessions := sv_sessions v @ [length (sv_all v)]\<rparr>"

text \<open>The one \<open>async_read\<close> of an accepted session only discards what it read.\<close>

definition handle_accept :: "bool \<Rightarrow> ws_server \<Rightarrow> ws_server" where
  "handle_accept ok v = do_accept (if ok then add_session new_session v else v)"

definition handle_http_request :: "bool \<Rightarrow> ws_server \<Rightarrow> ws_server" where
  "handle_http_request is_upgrade v = (if is_upgrade then add_session (ws_run new_session) v else v)"

fun send_each :: "string \<Rightarrow> nat list \<Rightarrow> session list \<Rightarrow> session list" where
  "send_each m [] ss = ss"
| "send_each m (i # is) ss = send_each m is (ss[i := ws_send m (ss ! i)])"

definition broadcast :: "string \<Rightarrow> ws_server \<Rightarrow> ws_server" where
  "broadcast m v = v\<lparr>sv_all := send_each m (sv_sessions v) (sv_all v)\<rparr>"

text \<open>\<open>handle_http_request\<close> is private and nothing calls it, so it is no step of the server. An
  accept on a closed acceptor can only complete with an error.\<close>

inductive server_reachable :: "net \<Rightarrow> ws_server \<Rightarrow> bool" for net where
  start: "server_reachable net (ws_start new_ws_server)"
| accept: "server_reachable net v \<Longrightarrow> sv_pending v \<Longrightarrow> (ok \<longrightarrow> sv_open v) \<Longrightarrow>
    server_reachable net (handle_accept ok (v\<lparr>sv_pending := False\<rparr>))"
| broadcast: "server_reachable net v \<Longrightarrow> server_reachable net (broadcast m v)"
| stop: "server_reachable net v \<Longrightarrow> server_reachable net (ws_stop v)"
| session: "server_reachable net v \<Longrightarrow> i < length (sv_all v) \<Longrightarrow> session_step net (sv_all v ! i) (Inr s) \<Longrightarrow>
    server_reachable net (v\<lparr>sv_all := (sv_all v)[i := s]\<rparr>)"

definition undelivered :: "session \<Rightarrow> bool" where
  "undelivered s \<longleftrightarrow> session_inv s \<and> ss_shake s = Not_started \<and> ss_sent s = []"

lemma undelivered_new: "undelivered new_session"
  using session_inv_new [where h = Not_started and b = False]
  by (simp add: undelivered_def new_session_def)

lemma undelivered_send: "undelivered s \<Longrightarrow> undelivered (ws_send m s)"
  by (auto simp: undelivered_def session_inv_def ws_send_def)

lemma undelivered_send_each:
  "list_all undelivered ss \<Longrightarrow> \<forall>i\<in>set is. i < length ss \<Longrightarrow> list_all undelivered (send_each m is ss)"
proof (induction "is" arbitrary: ss)
  case (Cons i "is")
  then have "list_all undelivered (ss[i := ws_send m (ss ! i)])"
    by (auto simp: list_all_length nth_list_update intro: undelivered_send)
  then show ?case
    using Cons by simp
qed simp

lemma length_send_each [simp]: "length (send_each m is ss) = length ss"
  by (induction "is" arbitrary: ss) simp_all

lemma undelivered_step:
  assumes "session_step net s r" and "r = Inr s'" and "undelivered s" and "True \<notin> net Not_started"
  shows "undelivered s'"
proof -
  have "session_inv s'"
    using assms session_inv_step by (auto simp: undelivered_def)
  moreover from assms have "ss_shake s' = Not_started \<and> ss_sent s' = []"
  proof (induction rule: session_step.induct)
    case (written s m ok)
    then have "\<not> ok"
      by (cases ok) (simp_all add: undelivered_def)
    then show ?case
      using written by (auto simp: undelivered_def write_done_cases)
  qed (auto simp: undelivered_def session_handlers Let_def split: if_splits)
  ultimately show ?thesis
    by (simp add: undelivered_def)
qed

lemma server_undelivered:
  assumes "server_reachable net v" and "True \<notin> net Not_started"
  shows "list_all undelivered (sv_all v) \<and> (\<forall>i\<in>set (sv_sessions v). i < length (sv_all v))"
  using assms(1)
proof (induction rule: server_reachable.induct)
  case (session v i s)
  then have "undelivered s"
    using undelivered_step [OF session.hyps(3) refl _ assms(2)] by (simp add: list_all_length)
  then show ?case
    using session by (auto simp: list_all_length nth_list_update)
next
  case (accept v ok)
  then show ?case
    by (cases ok) (auto simp: handle_accept_def do_accept_def add_session_def undelivered_new less_Suc_eq)
qed (auto simp: ws_start_def new_ws_server_def do_accept_def broadcast_def ws_stop_def undelivered_send_each)

lemma sent_unchanged_after_failure:
  "session_step net s r \<Longrightarrow> r = Inr s' \<Longrightarrow> session_inv s \<Longrightarrow> ss_failed s \<Longrightarrow>
    ss_sent s' = ss_sent s \<and> ss_failed s'"
  by (induction rule: session_step.induct)
    (auto simp: session_inv_def session_handlers Let_def split: if_splits)

lemma failure_is_final:
  assumes "session_reachable net s s'" and "session_inv s" and "ss_failed s"
  shows "ss_sent s' = ss_sent s \<and> ss_failed s' \<and> session_inv s'"
  using assms
  by (induction rule: session_reachable.induct)
    (auto dest: sent_unchanged_after_failure session_inv_step)

subsection \<open>Properties\<close>

text \<open>A session whose handshake the server answers. Whatever the order of sends, reads and
  writes: the messages requested are those sent, then those queued, then those still posted, in
  that order; the outstanding write is of the first queued message; when it completes normally
  while a second message is queued, \<open>on_write\<close> calls \<open>do_send\<close> with the mutex held, which is
  undefined behaviour; and after one failed write nothing is ever sent again.\<close>

theorem session_protocol:
  assumes "session_reachable net (ws_run new_session) s"
  shows "ss_requested s = ss_sent s @ ss_queue s @ ss_posted s \<and>
    ss_writing s \<in> {None, Some (hd (ss_queue s))} \<and>
    is_ub (write_done True s) = (ss_writing s \<noteq> None \<and> 1 < length (ss_queue s)) \<and>
    (ss_failed s \<longrightarrow> {ss_sent s' | s'. session_reachable net s s'} = {ss_sent s})"
proof (intro conjI impI)
  have "ws_run new_session = new_session\<lparr>ss_shake := Accepting, ss_reading := False\<rparr>"
    by (simp add: ws_run_def new_session_def)
  then have inv: "session_inv s"
    using session_reachable_inv [OF assms] by (simp add: session_inv_new)
  then show "ss_requested s = ss_sent s @ ss_queue s @ ss_posted s"
    by (simp add: session_inv_def)
  show "ss_writing s \<in> {None, Some (hd (ss_queue s))}"
    using inv by (simp add: session_inv_def)
  show "is_ub (write_done True s) = (ss_writing s \<noteq> None \<and> 1 < length (ss_queue s))"
  proof (cases "ss_writing s")
    case None
    then show ?thesis
      by (simp add: write_done_def)
  next
    case (Some m)
    then have "ss_queue s \<noteq> []"
      using inv by (auto simp: session_inv_def split: if_splits)
    then show ?thesis
      using write_done_cases [OF inv Some, of True] Some by (cases "ss_queue s") simp_all
  qed
  show "{ss_sent s' | s'. session_reachable net s s'} = {ss_sent s}" if "ss_failed s"
  proof -
    have "ss_sent s' = ss_sent s" if "session_reachable net s s'" for s'
      using failure_is_final [OF that inv \<open>ss_failed s\<close>] by blast
    then show ?thesis
      using session_reachable.init [of net s] by blast
  qed
qed

text \<open>C17: No message is ever delivered. The only sessions of the running server are those of
  \<open>handle_accept\<close>, which never starts the handshake (\<open>run\<close> is called by \<open>handle_http_request\<close>
  alone, and nothing calls that). As a write on a stream without a handshake fails, every message
  broadcast to a session stays in its queue or among its posted handlers for ever, whatever the
  interleaving of accepts, broadcasts, completions and \<open>stop\<close>.\<close>

theorem broadcasts_never_delivered:
  assumes "True \<notin> net Not_started" and "server_reachable net v"
  shows "\<forall>s\<in>set (sv_all v). ss_sent s = [] \<and> ss_queue s @ ss_posted s = ss_requested s"
  using server_undelivered [OF assms(2,1)]
  by (auto simp: list_all_iff undelivered_def session_inv_def)

definition some_net :: net where
  "some_net h = (if h = Opened then {True, False} else {False})"

theorem session_protocol_witness:
  "let s = session.make Opened [''a'', ''b''] False [] (Some ''a'') True [''a'', ''b''] [] False
   in session_reachable some_net (ws_run new_session) s \<and> is_ub (write_done True s)"
proof -
  let ?r = "session_reachable some_net (ws_run new_session)"
  note eval = session_handlers new_session_def session.make_def Let_def
  from session_reachable.step [OF session_reachable.init [of some_net "ws_run new_session"] session_step.accept [where ok = True]]
  have "?r (session.make Opened [] False [] None True [] [] False)"
    by (simp add: eval)
  from session_reachable.step [OF this session_step.send [of _ _ "''a''"]]
  have "?r (session.make Opened [] False [''a''] None True [''a''] [] False)"
    by (simp add: eval)
  from session_reachable.step [OF this session_step.send [of _ _ "''b''"]]
  have "?r (session.make Opened [] False [''a'', ''b''] None True [''a'', ''b''] [] False)"
    by (simp add: eval)
  moreover have "session_step some_net (session.make Opened [] False [''a'', ''b''] None True [''a'', ''b''] [] False)
      (Inr (session.make Opened [''a''] False [''b''] (Some ''a'') True [''a'', ''b''] [] False))"
    using session_step.posted [of "session.make Opened [] False [''a'', ''b''] None True [''a'', ''b''] [] False"]
    by (simp add: eval)
  ultimately have "?r (session.make Opened [''a''] False [''b''] (Some ''a'') True [''a'', ''b''] [] False)"
    by (rule session_reachable.step)
  moreover have "session_step some_net (session.make Opened [''a''] False [''b''] (Some ''a'') True [''a'', ''b''] [] False)
      (Inr (session.make Opened [''a'', ''b''] False [] (Some ''a'') True [''a'', ''b''] [] False))"
    using session_step.posted [of "session.make Opened [''a''] False [''b''] (Some ''a'') True [''a'', ''b''] [] False"]
    by (simp add: eval)
  ultimately have r: "?r (session.make Opened [''a'', ''b''] False [] (Some ''a'') True [''a'', ''b''] [] False)"
    by (rule session_reachable.step)
  then have "is_ub (write_done True (session.make Opened [''a'', ''b''] False [] (Some ''a'') True [''a'', ''b''] [] False))"
    using session_protocol [OF r] by (simp add: session.make_def)
  then show ?thesis
    using r by (simp add: Let_def)
qed

theorem broadcasts_never_delivered_witness:
  "\<exists>v s. server_reachable some_net v \<and> sv_all v = [s] \<and> ss_requested s = [''alert''] \<and> ss_sent s = [] \<and>
     ss_queue s @ ss_posted s = [''alert'']"
proof -
  let ?v = "broadcast ''alert'' (handle_accept True ((ws_start new_ws_server)\<lparr>sv_pending := False\<rparr>))"
  have r: "server_reachable some_net ?v"
    by (intro server_reachable.broadcast server_reachable.accept server_reachable.start)
      (simp_all add: ws_start_def new_ws_server_def do_accept_def)
  have all: "sv_all ?v = [ws_send ''alert'' new_session]"
    by (simp add: broadcast_def handle_accept_def do_accept_def add_session_def ws_start_def new_ws_server_def)
  have "True \<notin> some_net Not_started"
    by (simp add: some_net_def)
  from broadcasts_never_delivered [OF this r]
  have "ss_sent (ws_send ''alert'' new_session) = [] \<and>
      ss_queue (ws_send ''alert'' new_session) @ ss_posted (ws_send ''alert'' new_session) =
      ss_requested (ws_send ''alert'' new_session)"
    unfolding all by simp
  then show ?thesis
    using r all by (intro exI [of _ ?v] exI [of _ "ws_send ''alert'' new_session"])
      (simp add: ws_send_def new_session_def)
qed

end
