(* ===== verification/Metrics.thy ===== *)
theory Metrics
  imports Binary64
begin

section \<open>The metrics registry (include/prometheus_metrics.h)\<close>

text \<open>
  Counters, gauges and histograms keyed by the metric's name followed by its labels, the helpers the
  modules call, and the text \<open>serialize\<close> produces. Three things of the standard library are
  parameters: \<open>num fixed x\<close> is the text of a double before and after \<open>std::fixed\<close> was set on the
  stream (it stays set), and the lists of keys are the orders in which the unordered maps are walked.
\<close>

record histogram_data =
  hd_count :: int
  hd_sum :: double
  hd_buckets :: "double list"

definition new_histogram :: histogram_data where
  "new_histogram = \<lparr>hd_count = 0, hd_sum = 0, hd_buckets = replicate 9 0\<rparr>"

type_synonym meta = "string \<times> string \<times> string"

record registry =
  mr_counters :: "string \<Rightarrow> double option"
  mr_counter_meta :: "string \<Rightarrow> meta option"
  mr_gauges :: "string \<Rightarrow> double option"
  mr_gauge_meta :: "string \<Rightarrow> meta option"
  mr_histograms :: "string \<Rightarrow> histogram_data option"
  mr_hist_meta :: "string \<Rightarrow> meta option"

definition new_registry :: registry where
  "new_registry = \<lparr>mr_counters = \<lambda>_. None, mr_counter_meta = \<lambda>_. None, mr_gauges = \<lambda>_. None,
     mr_gauge_meta = \<lambda>_. None, mr_histograms = \<lambda>_. None, mr_hist_meta = \<lambda>_. None\<rparr>"

text \<open>\<open>operator[]\<close> of a map: the stored value, or a value-initialised one.\<close>

definition entry :: "'a \<Rightarrow> (string \<Rightarrow> 'a option) \<Rightarrow> string \<Rightarrow> 'a" where
  "entry d m k = (case m k of None \<Rightarrow> d | Some v \<Rightarrow> v)"

subsection \<open>Recording\<close>

definition increment_counter :: "string \<Rightarrow> double \<Rightarrow> string \<Rightarrow> registry \<Rightarrow> registry" where
  "increment_counter name x labels m =
     (let key = name @ labels in
      m\<lparr>mr_counters := (mr_counters m)(key \<mapsto> entry 0 (mr_counters m) key + x),
        mr_counter_meta := (mr_counter_meta m)(key \<mapsto> (name, labels, ''counter''))\<rparr>)"

definition set_gauge :: "string \<Rightarrow> double \<Rightarrow> string \<Rightarrow> registry \<Rightarrow> registry" where
  "set_gauge name x labels m =
     (let key = name @ labels in
      m\<lparr>mr_gauges := (mr_gauges m)(key \<mapsto> x),
        mr_gauge_meta := (mr_gauge_meta m)(key \<mapsto> (name, labels, ''gauge''))\<rparr>)"

definition bucket_bounds :: "double list" where
  "bucket_bounds = [D (1/1000), D (5/1000), D (1/100), D (5/100), D (1/10), D (5/10), D 1, D 5]"

definition observe :: "double \<Rightarrow> histogram_data \<Rightarrow> histogram_data" where
  "observe x h =
     h\<lparr>hd_count := hd_count h + 1, hd_sum := hd_sum h + x,
       hd_buckets := map2 (\<lambda>hit b. if hit then b + 1 else b)
         (map (\<lambda>bound. x \<le> bound) bucket_bounds @ [True]) (hd_buckets h)\<rparr>"

definition observe_histogram :: "string \<Rightarrow> double \<Rightarrow> string \<Rightarrow> registry \<Rightarrow> registry" where
  "observe_histogram name x labels m =
     (let key = name @ labels in
      m\<lparr>mr_histograms := (mr_histograms m)(key \<mapsto> observe x (entry new_histogram (mr_histograms m) key)),
        mr_hist_meta := (mr_hist_meta m)(key \<mapsto> (name, labels, ''histogram''))\<rparr>)"

definition quote_char :: string where
  "quote_char = [CHR 0x22]"

definition newline :: string where
  "newline = [CHR 0x0A]"

definition record_laser_data :: "int \<Rightarrow> int \<Rightarrow> bool \<Rightarrow> registry \<Rightarrow> registry" where
  "record_laser_data sensor_id porcelain_id crack_detected m =
     (let m = increment_counter ''pm_laser_data_total'' 1 [] m;
          m = (if crack_detected then increment_counter ''pm_crack_detected_total'' 1 [] m else m)
      in set_gauge ''pm_last_laser_sensor_id'' (of_i sensor_id) [] m)"

definition record_vibration_data :: "int \<Rightarrow> double \<Rightarrow> registry \<Rightarrow> registry" where
  "record_vibration_data sensor_id rms m =
     observe_histogram ''pm_vibration_rms'' rms [] (increment_counter ''pm_vibration_data_total'' 1 [] m)"

definition record_alert :: "string \<Rightarrow> registry \<Rightarrow> registry" where
  "record_alert alert_type =
     increment_counter ''pm_alerts_total'' 1 (''{type='' @ quote_char @ alert_type @ quote_char @ ''}'')"

definition record_module_processed :: "string \<Rightarrow> registry \<Rightarrow> registry" where
  "record_module_processed module_name =
     increment_counter ''pm_module_processed_total'' 1 (''{module='' @ quote_char @ module_name @ quote_char @ ''}'')"

definition record_db_write :: "double \<Rightarrow> registry \<Rightarrow> registry" where
  "record_db_write duration_sec = observe_histogram ''pm_db_write_duration_seconds'' duration_sec []"

subsection \<open>Serialisation\<close>

definition header_lines :: "string \<Rightarrow> string \<Rightarrow> string" where
  "header_lines name kind =
     ''# HELP '' @ name @ '' '' @ name @ newline @ ''# TYPE '' @ name @ '' '' @ kind @ newline"

text \<open>The samples of one map of plain values; the flag says whether \<open>std::fixed\<close> is set.\<close>

fun plain_lines :: "(bool \<Rightarrow> double \<Rightarrow> string) \<Rightarrow> string \<Rightarrow> (string \<Rightarrow> meta option) \<Rightarrow> (string \<Rightarrow> double option) \<Rightarrow>
    string list \<Rightarrow> bool \<times> string \<Rightarrow> bool \<times> string" where
  "plain_lines num kind metas vals [] out = out"
| "plain_lines num kind metas vals (key # keys) (fixed, out) =
     (case metas key of
        None \<Rightarrow> plain_lines num kind metas vals keys (fixed, out)
      | Some (name, labels, _) \<Rightarrow> plain_lines num kind metas vals keys
          (True, out @ header_lines name kind @ name @ labels @ '' '' @ num True (entry 0 vals key) @ newline))"

text \<open>\<open>std::string::substr\<close> throws when the position is past the end.\<close>

definition substr :: "nat \<Rightarrow> string \<Rightarrow> string result" where
  "substr pos s = (if length s < pos then Inl (Out_of_range ''basic_string::substr'') else Inr (drop pos s))"

definition to_long_long :: "double \<Rightarrow> int result" where
  "to_long_long = trunc_to (- (2 ^ 63)) (2 ^ 63 - 1)"

definition bucket_line :: "string \<Rightarrow> string \<Rightarrow> string \<Rightarrow> int result \<Rightarrow> string result" where
  "bucket_line name labels bound n =
     and_then (substr 1 labels) (\<lambda>rest.
     and_then n (\<lambda>k.
     Inr (name @ ''_bucket{le='' @ quote_char @ bound @ quote_char @ rest @ ''} '' @ to_string_int k @ newline)))"

fun bucket_lines :: "(double \<Rightarrow> string) \<Rightarrow> string \<Rightarrow> string \<Rightarrow> double \<Rightarrow> (double \<times> double) list \<Rightarrow> string result" where
  "bucket_lines num name labels cum [] = Inr []"
| "bucket_lines num name labels cum ((bound, b) # rest) =
     (let cum = cum + b in
      and_then (bucket_line name labels (num bound) (to_long_long cum)) (\<lambda>line.
      and_then (bucket_lines num name labels cum rest) (\<lambda>lines. Inr (line @ lines))))"

definition histogram_lines :: "(bool \<Rightarrow> double \<Rightarrow> string) \<Rightarrow> bool \<Rightarrow> string \<Rightarrow> string \<Rightarrow> histogram_data \<Rightarrow> string result" where
  "histogram_lines num fixed name labels h =
     and_then (bucket_lines (num fixed) name labels 0 (zip bucket_bounds (hd_buckets h))) (\<lambda>buckets.
     and_then (bucket_line name labels ''+Inf'' (Inr (hd_count h))) (\<lambda>inf.
     Inr (header_lines name ''histogram'' @ buckets @ inf @
       name @ ''_sum'' @ labels @ '' '' @ num True (hd_sum h) @ newline @
       name @ ''_count'' @ labels @ '' '' @ to_string_int (hd_count h) @ newline)))"

fun all_histograms :: "(bool \<Rightarrow> double \<Rightarrow> string) \<Rightarrow> registry \<Rightarrow> string list \<Rightarrow> bool \<times> string \<Rightarrow> string result" where
  "all_histograms num m [] (fixed, out) = Inr out"
| "all_histograms num m (key # keys) (fixed, out) =
     (case mr_hist_meta m key of
        None \<Rightarrow> all_histograms num m keys (fixed, out)
      | Some (name, labels, _) \<Rightarrow>
          and_then (histogram_lines num fixed name labels (entry new_histogram (mr_histograms m) key)) (\<lambda>text.
          all_histograms num m keys (True, out @ text)))"

definition serialize :: "(bool \<Rightarrow> double \<Rightarrow> string) \<Rightarrow> string list \<Rightarrow> string list \<Rightarrow> string list \<Rightarrow> int \<Rightarrow> registry \<Rightarrow> string result" where
  "serialize num counter_keys gauge_keys hist_keys ts m =
     (let out = plain_lines num ''counter'' (mr_counter_meta m) (mr_counters m) counter_keys (False, []);
          out = plain_lines num ''gauge'' (mr_gauge_meta m) (mr_gauges m) gauge_keys out
      in and_then (all_histograms num m hist_keys out) (\<lambda>text.
         Inr (text @ ''# EOF ts='' @ to_string_int ts @ newline)))"

subsection \<open>What the modules record\<close>

datatype event =
    Laser int int bool
  | Vibration int double
  | Alert string
  | Processed string
  | Db_write double

primrec record_event :: "event \<Rightarrow> registry \<Rightarrow> registry" where
  "record_event (Laser s p c) = record_laser_data s p c"
| "record_event (Vibration s r) = record_vibration_data s r"
| "record_event (Alert t) = record_alert t"
| "record_event (Processed n) = record_module_processed n"
| "record_event (Db_write d) = record_db_write d"

definition record_events :: "event list \<Rightarrow> registry" where
  "record_events es = fold record_event es new_registry"

definition observes :: "event \<Rightarrow> bool" where
  "observes e = (case e of Vibration _ _ \<Rightarrow> True | Db_write _ \<Rightarrow> True | _ \<Rightarrow> False)"

lemmas recording = record_laser_data_def record_vibration_data_def record_alert_def
  record_module_processed_def record_db_write_def increment_counter_def set_gauge_def
  observe_histogram_def

lemma hist_meta_event:
  "\<forall>v\<in>ran (mr_hist_meta m). fst (snd v) = [] \<Longrightarrow> \<forall>v\<in>ran (mr_hist_meta (record_event e m)). fst (snd v) = []"
  "(mr_hist_meta (record_event e m) = Map.empty) = (mr_hist_meta m = Map.empty \<and> \<not> observes e)"
  by (cases e; auto simp: recording Let_def observes_def ran_def split: if_splits)+

lemma hist_meta_events:
  "(\<forall>v\<in>ran (mr_hist_meta (record_events es)). fst (snd v) = []) \<and>
   (mr_hist_meta (record_events es) = Map.empty \<longleftrightarrow> (\<forall>e\<in>set es. \<not> observes e))"
proof (induction es rule: rev_induct)
  case Nil
  then show ?case
    by (simp add: record_events_def new_registry_def)
next
  case (snoc e es)
  have step: "record_events (es @ [e]) = record_event e (record_events es)"
    by (simp add: record_events_def)
  show ?case
    unfolding step using snoc hist_meta_event [where m = "record_events es" and e = e] by auto
qed

lemma observe_length: "length (hd_buckets h) = 9 \<Longrightarrow> length (hd_buckets (observe x h)) = 9"
  by (simp add: observe_def bucket_bounds_def)

lemma buckets_event:
  "\<forall>h\<in>ran (mr_histograms m). length (hd_buckets h) = 9 \<Longrightarrow>
   \<forall>h\<in>ran (mr_histograms (record_event e m)). length (hd_buckets h) = 9"
  by (cases e)
    (auto simp: recording Let_def ran_def entry_def new_histogram_def intro!: observe_length
      split: if_splits option.splits)

lemma buckets_events: "\<forall>h\<in>ran (mr_histograms (record_events es)). length (hd_buckets h) = 9"
proof (induction es rule: rev_induct)
  case Nil
  then show ?case
    by (simp add: record_events_def new_registry_def)
next
  case (snoc e es)
  then show ?case
    using buckets_event [where m = "record_events es" and e = e] by (simp add: record_events_def)
qed

lemma entry_buckets: "hd_buckets (entry new_histogram (mr_histograms (record_events es)) k) \<noteq> []"
proof (cases "mr_histograms (record_events es) k")
  case (Some h)
  then have "length (hd_buckets h) = 9"
    using buckets_events [of es] by (auto simp: ran_def)
  then show ?thesis
    using Some by (auto simp: entry_def)
qed (simp add: entry_def new_histogram_def)

lemma unlabelled_throws:
  assumes "hd_buckets h \<noteq> []"
  shows "histogram_lines num fixed name [] h = Inl (Out_of_range ''basic_string::substr'')"
  using assms
  by (cases "hd_buckets h") (simp_all add: histogram_lines_def bucket_bounds_def bucket_line_def substr_def Let_def)

lemma all_histograms_throws:
  fixes es :: "event list"
  defines "m \<equiv> record_events es"
  shows "all_histograms num m ks out =
    (if \<exists>k\<in>set ks. mr_hist_meta m k \<noteq> None then Inl (Out_of_range ''basic_string::substr'') else Inr (snd out))"
proof (induction ks arbitrary: out)
  case Nil
  then show ?case
    by (cases out) simp
next
  case (Cons k ks)
  obtain fx tx where out: "out = (fx, tx)"
    by (cases out)
  show ?case
  proof (cases "mr_hist_meta m k")
    case None
    then show ?thesis
      using Cons.IH [of out] by (simp add: out)
  next
    case (Some v)
    then have "fst (snd v) = []"
      using hist_meta_events [of es] ranI [of "mr_hist_meta m" k v] unfolding m_def by blast
    then obtain name kind where "v = (name, [], kind)"
      by (cases v) auto
    then show ?thesis
      using Some unlabelled_throws [OF entry_buckets] by (simp add: out m_def)
  qed
qed

subsection \<open>What the buckets count\<close>

text \<open>A histogram after a list of observations, and the number of them up to each bound.\<close>

definition observed :: "double list \<Rightarrow> histogram_data" where
  "observed xs = fold observe xs new_histogram"

definition up_to :: "nat \<Rightarrow> double list \<Rightarrow> nat" where
  "up_to i xs = length (filter (\<lambda>x. i < 8 \<longrightarrow> x \<le> bucket_bounds ! i) xs)"

lemma up_to_le: "up_to i xs \<le> length xs"
  by (simp add: up_to_def)

lemma of_i_Suc: "n < 2 ^ 53 \<Longrightarrow> of_i (int n) + 1 = of_i (int n + 1)"
  using exact_of_int [of "int n"] by (simp add: of_i_def raw_zero_D(2) del: D_one)

lemma of_i_add: "m + n \<le> 2 ^ 53 \<Longrightarrow> of_i (int m) + of_i (int n) = of_i (int (m + n))"
  using exact_of_int [of "int m"] exact_of_int [of "int n"] by (simp add: of_i_def)

lemma of_i_nat_inj: "m \<le> 2 ^ 53 \<Longrightarrow> n \<le> 2 ^ 53 \<Longrightarrow> of_i (int m) = of_i (int n) \<longleftrightarrow> m = n"
  by (simp add: of_i_def D_inj)

lemma observe_nth:
  assumes "length (hd_buckets h) = 9" and "i < 9"
  shows "hd_buckets (observe x h) ! i =
    (if i < 8 \<longrightarrow> x \<le> bucket_bounds ! i then hd_buckets h ! i + 1 else hd_buckets h ! i)"
proof -
  have "length bucket_bounds = 8"
    by (simp add: bucket_bounds_def)
  then show ?thesis
    using assms by (auto simp: observe_def nth_append)
qed

lemma observed_buckets:
  assumes "length xs \<le> 2 ^ 53" and "i < 9"
  shows "length (hd_buckets (observed xs)) = 9 \<and> hd_count (observed xs) = int (length xs) \<and>
    hd_buckets (observed xs) ! i = of_i (int (up_to i xs))"
  using assms(1)
proof (induction xs rule: rev_induct)
  case Nil
  then show ?case
    using assms(2) by (simp add: observed_def new_histogram_def up_to_def of_i_def nth_Cons')
next
  case (snoc x xs)
  have step: "observed (xs @ [x]) = observe x (observed xs)"
    by (simp add: observed_def)
  have IH: "length (hd_buckets (observed xs)) = 9" "hd_count (observed xs) = int (length xs)"
      "hd_buckets (observed xs) ! i = of_i (int (up_to i xs))"
    using snoc by simp_all
  have "of_i (int (up_to i xs)) + 1 = of_i (int (up_to i xs) + 1)"
    using snoc.prems up_to_le [of i xs] by (intro of_i_Suc) simp
  then show ?case
    unfolding step using IH observe_length [OF IH(1)] observe_nth [OF IH(1) assms(2), of x]
    by (simp add: observe_def up_to_def add.commute)
qed

text \<open>The numbers \<open>serialize\<close> prints for the bounded buckets.\<close>

fun running :: "double \<Rightarrow> double list \<Rightarrow> double list" where
  "running cum [] = []"
| "running cum (b # bs) = (cum + b) # running (cum + b) bs"

lemma bucket_lines_running:
  assumes "length bounds = length bs"
  shows "bucket_lines num name labels cum (zip bounds bs) =
    and_then (map_result (\<lambda>(bound, c). bucket_line name labels (num bound) (to_long_long c))
      (zip bounds (running cum bs))) (\<lambda>lines. Inr (concat lines))"
  using assms
proof (induction bounds bs arbitrary: cum rule: list_induct2)
  case (Cons x xs y ys)
  then show ?case
    by (simp add: Let_def and_then_assoc cong: option.case_cong)
qed simp

lemma running_nth:
  assumes "\<And>j. j < length bs \<Longrightarrow> bs ! j = of_i (int (f j))" and "i < length bs"
    and "c + sum f {..<length bs} \<le> 2 ^ 53"
  shows "running (of_i (int c)) bs ! i = of_i (int (c + sum f {..i}))"
  using assms
proof (induction bs arbitrary: c f i)
  case (Cons b bs)
  have b: "b = of_i (int (f 0))"
    using Cons.prems(1) [of 0] by simp
  have total: "c + f 0 + sum (\<lambda>j. f (Suc j)) {..<length bs} \<le> 2 ^ 53"
    using Cons.prems(3) by (simp add: sum.lessThan_Suc_shift add.assoc del: sum.lessThan_Suc)
  have first: "of_i (int c) + b = of_i (int (c + f 0))"
    unfolding b by (rule of_i_add) (use total in linarith)
  show ?case
  proof (cases i)
    case 0
    then show ?thesis
      using first by simp
  next
    case (Suc k)
    have "running (of_i (int (c + f 0))) bs ! k = of_i (int (c + f 0 + sum (\<lambda>j. f (Suc j)) {..k}))"
      using Cons.prems(1) [of "Suc _"] Cons.prems(2) Suc total by (intro Cons.IH) auto
    moreover have "c + sum f {..Suc k} = c + f 0 + sum (\<lambda>j. f (Suc j)) {..k}"
      by (simp only: sum.atMost_Suc_shift add.assoc)
    ultimately show ?thesis
      using Suc first by (simp only: running.simps nth_Cons_Suc)
  qed
qed simp

text \<open>Each stored bucket counts the observations up to its bound, so the buckets are cumulative
  already; the numbers \<open>serialize\<close> prints for them add them up once more. The number printed for a
  bound is right only if nothing was observed up to any smaller bound.\<close>

theorem buckets_cumulated_twice:
  assumes "8 * length xs \<le> 2 ^ 53" and "i < 8"
  shows "hd_buckets (observed xs) ! i = of_i (int (up_to i xs)) \<and>
    running 0 (take 8 (hd_buckets (observed xs))) ! i = of_i (int (\<Sum>j\<le>i. up_to j xs)) \<and>
    (running 0 (take 8 (hd_buckets (observed xs))) ! i = of_i (int (up_to i xs)) \<longleftrightarrow>
      (\<Sum>j<i. up_to j xs) = 0)"
proof -
  note obs = observed_buckets [of xs]
  have le: "length xs \<le> 2 ^ 53"
    using assms(1) by simp
  have len: "length (take 8 (hd_buckets (observed xs))) = 8"
    using obs [OF le, of 0] by simp
  have nth: "hd_buckets (observed xs) ! j = of_i (int (up_to j xs))" if "j < 8" for j
    using obs [OF le, of j] that by simp
  have "sum (\<lambda>j. up_to j xs) A \<le> card A * length xs" for A
    using sum_bounded_above [of A "\<lambda>j. up_to j xs" "length xs"] up_to_le by simp
  from this [of "{..<8}"] have total: "(\<Sum>j<8. up_to j xs) \<le> 2 ^ 53"
    using assms(1) by simp
  have run: "running 0 (take 8 (hd_buckets (observed xs))) ! i = of_i (int (\<Sum>j\<le>i. up_to j xs))"
    using running_nth [of "take 8 (hd_buckets (observed xs))" "\<lambda>j. up_to j xs" i 0] nth len assms(2) total
    by (simp add: of_i_def)
  have sum: "(\<Sum>j\<le>i. up_to j xs) = (\<Sum>j<i. up_to j xs) + up_to i xs"
    by (simp add: lessThan_Suc_atMost [symmetric])
  have "(\<Sum>j\<le>i. up_to j xs) \<le> (\<Sum>j<8. up_to j xs)"
    using assms(2) by (intro sum_mono2) auto
  then have "(\<Sum>j\<le>i. up_to j xs) \<le> 2 ^ 53" "up_to i xs \<le> 2 ^ 53"
    using total sum by linarith+
  then have "of_i (int (\<Sum>j\<le>i. up_to j xs)) = of_i (int (up_to i xs)) \<longleftrightarrow>
      (\<Sum>j\<le>i. up_to j xs) = up_to i xs"
    by (rule of_i_nat_inj)
  then show ?thesis
    using nth [OF assms(2)] run sum by simp
qed

theorem buckets_cumulated_twice_witness:
  "running 0 (take 8 (hd_buckets (observed [D 0]))) ! 7 = of_i 8 \<and> hd_count (observed [D 0]) = 1"
proof -
  have "up_to j [D 0] = 1" for j
  proof -
    have "bucket_bounds ! j \<in> {D (1/1000), D (5/1000), D (1/100), D (5/100), D (1/10), D (5/10), D 1, D 5}" if "j < 8"
      using nth_mem [of j bucket_bounds] that by (simp add: bucket_bounds_def)
    then have "0 \<le> bucket_bounds ! j" if "j < 8"
      using that D_nonneg by auto
    then show ?thesis
      by (simp add: up_to_def)
  qed
  then have "(\<Sum>j\<le>7. up_to j [D 0]) = 8"
    by simp
  then show ?thesis
    using buckets_cumulated_twice [of "[D 0]" 7] by (simp add: observed_def observe_def new_histogram_def)
qed

text \<open>C40: Once a vibration reading or a database write has been recorded, every scrape of the metrics
  throws \<open>out_of_range\<close>, in whatever order the maps are walked and whatever else is recorded: all
  histograms of the program have empty labels, and \<open>serialize\<close> skips their first character. Without
  such an event a scrape produces its text. (At this commit no module calls the recording helpers;
  \<open>main.cpp\<close> only sets the gauge \<open>pm_uptime_seconds\<close>.)\<close>

theorem histograms_break_scrapes:
  assumes "set hist_keys = dom (mr_hist_meta (record_events es))"
  shows "if list_ex observes es
    then serialize num counter_keys gauge_keys hist_keys ts (record_events es) =
      Inl (Out_of_range ''basic_string::substr'')
    else \<exists>text. serialize num counter_keys gauge_keys hist_keys ts (record_events es) = Inr text"
proof -
  have "(\<exists>k\<in>set hist_keys. mr_hist_meta (record_events es) k \<noteq> None) = list_ex observes es"
    using hist_meta_events [of es] assms by (auto simp: list_ex_iff dom_def fun_eq_iff)
  then show ?thesis
    by (simp add: serialize_def Let_def all_histograms_throws)
qed

theorem histograms_break_scrapes_witness:
  "serialize (\<lambda>_ _. ''0'') [] [] [''pm_vibration_rms''] 0 (record_events [Laser 1 2 True, Vibration 3 0]) =
     Inl (Out_of_range ''basic_string::substr'')"
proof -
  have "set [''pm_vibration_rms''] = dom (mr_hist_meta (record_events [Laser 1 2 True, Vibration 3 0]))"
    by (simp add: record_events_def recording Let_def new_registry_def)
  from histograms_break_scrapes [OF this] show ?thesis
    by (simp add: observes_def)
qed

end
