(* ===== verification/Dem_Module.thy ===== *)
theory Dem_Module
  imports Dem_Simulation Fatigue_Predictor
begin

section \<open>The particle simulation in the pipeline (include/modules/dem_simulator_module.h)\<close>

text \<open>
  The stage that simulates the repair of every detected crack. Each simulation object has its own
  random engine, so the engine is indexed by the position of the crack in the message. The module
  overwrites the parameters the simulation took from the configuration by the defaults; only the
  particle and step counts of the configuration are used. The fields of the default material the
  constructor does not set, and the geometry of a fresh simulation, are arguments.
\<close>

definition module_material :: "repair_material \<Rightarrow> repair_material" where
  "module_material junk = junk\<lparr>rm_id := 1, rm_type := ZIRCONIA, rm_name := ''Zirconia Nano'',
     rm_particle_size_nm := D 25\<rparr>"

definition module_simulation :: "rnd \<Rightarrow> dem_geometry \<Rightarrow> repair_material \<Rightarrow> dem_config \<Rightarrow> crack_info \<Rightarrow>
    (dem_result \<times> dem_run \<times> dem) result" where
  "module_simulation rnd junk material cfg crack =
     (let sim = new_dem cfg junk material;
          sim = dem_set_parameters default_dem_params sim;
          sim = set_crack_geometry crack sim;
          sim = set_material_properties material sim;
          sim = generate_particles rnd (c_div (dg_max_particles cfg) 10) sim
      in dem_run_result rnd (dg_simulation_steps cfg) sim)"

definition simulation_of :: "crack_info \<Rightarrow> repair_material \<Rightarrow> dem_result \<Rightarrow> repair_simulation" where
  "simulation_of crack material r =
     \<lparr>rs_id = 0, rs_crack_id = wrap32 (ci_id crack), rs_material_id = rm_id material,
      rs_method = ''DEM-DiscreteElement'', rs_parameters = JNull, rs_particle_count = dr_particle_count r,
      rs_filling_rate = dr_filling_rate r, rs_bonding_strength = dr_bonding_strength r,
      rs_surface_smoothness = dr_surface_smoothness r, rs_durability_score = dr_durability_score r,
      rs_result = dem_result_to_json r\<rparr>"

fun dem_loop :: "(nat \<Rightarrow> rnd) \<Rightarrow> dem_geometry \<Rightarrow> repair_material \<Rightarrow> dem_config \<Rightarrow> int \<Rightarrow> nat \<Rightarrow> crack_info list \<Rightarrow>
    dem_message lfq option \<Rightarrow> dem_message lfq option \<times> cpp_error option" where
  "dem_loop rnds junk material cfg porcelain_id k [] out = (out, None)"
| "dem_loop rnds junk material cfg porcelain_id k (crack # cracks) out =
     (case module_simulation (rnds k) junk material cfg crack of
        Inl e \<Rightarrow> (out, Some e)
      | Inr (result, _) \<Rightarrow>
          dem_loop rnds junk material cfg porcelain_id (Suc k) cracks
            (map_option (push \<lparr>dmsg_crack = crack, dmsg_porcelain_id = porcelain_id,
               dmsg_material = material, dmsg_result = simulation_of crack material result\<rparr>) out))"

definition dem_process :: "(nat \<Rightarrow> rnd) \<Rightarrow> dem_geometry \<Rightarrow> repair_material \<Rightarrow> dem_config \<Rightarrow> crack_detection \<Rightarrow>
    dem_message lfq option \<Rightarrow> dem_message lfq option \<times> cpp_error option" where
  "dem_process rnds junk material cfg msg out =
     dem_loop rnds junk material cfg (cd_porcelain_id msg) 0 (cd_cracks msg) out"

subsection \<open>What the module emits\<close>

text \<open>The engine yields values in the interval it is asked for; of that only the sign matters here.\<close>

definition engine_ok :: "rnd \<Rightarrow> bool" where
  "engine_ok rnd \<longleftrightarrow> (\<forall>n lo hi. nn lo \<longrightarrow> nn (rnd n lo hi))"

lemma generate_loop_radii:
  assumes "engine_ok rnd" and "nn (dq_min_particle_radius (ds_params s))" and "\<forall>p\<in>set (ds_particles s). nn (dp_radius p)"
  shows "(\<forall>p\<in>set (ds_particles (generate_loop rnd is s)). nn (dp_radius p)) \<and>
    ds_params (generate_loop rnd is s) = ds_params s \<and> ds_contacts (generate_loop rnd is s) = ds_contacts s"
  using assms(2,3)
proof (induction "is" arbitrary: s)
  case (Cons i "is")
  obtain radius s1 where r: "random_double rnd (dq_min_particle_radius (ds_params s)) (dq_max_particle_radius (ds_params s)) s = (radius, s1)"
    by (metis surj_pair)
  obtain pos s2 where v: "random_point_in_crack rnd s1 = (pos, s2)"
    by (metis surj_pair)
  have kept: "ds_particles s2 = ds_particles s" "ds_params s2 = ds_params s" "ds_contacts s2 = ds_contacts s"
    using r random_point_kept [OF v] by (auto simp: random_double_def)
  have "nn radius"
    using r Cons.prems(1) assms(1) by (auto simp: random_double_def engine_ok_def)
  then have "nn (dp_radius (generated_particle s2 i radius pos))"
    by (simp add: generated_particle_def)
  then have IH: "(\<forall>p\<in>set (ds_particles (generate_loop rnd is u)). nn (dp_radius p)) \<and>
      ds_params (generate_loop rnd is u) = ds_params u \<and> ds_contacts (generate_loop rnd is u) = ds_contacts u"
    if "u = s2 \<or> u = s2\<lparr>ds_particles := ds_particles s2 @ [generated_particle s2 i radius pos]\<rparr>" for u
    using that Cons.prems by (intro Cons.IH) (auto simp: kept)
  show ?case
  proof (cases "list_ex (touches pos radius) (ds_particles s2)")
    case True
    then show ?thesis
      using IH [of s2] kept by (simp add: r v)
  next
    case False
    then show ?thesis
      using IH [of "s2\<lparr>ds_particles := ds_particles s2 @ [generated_particle s2 i radius pos]\<rparr>"] kept by (simp add: r v)
  qed
qed simp

lemma frame_radii: "map frame ps = map frame qs \<Longrightarrow> map dp_radius ps = map dp_radius qs"
  by (drule arg_cong [of _ _ "map fst"]) (simp add: frame_def comp_def)

definition good_simulation :: "int \<Rightarrow> repair_simulation \<Rightarrow> bool" where
  "good_simulation limit r \<longleftrightarrow> 0 \<le> rs_particle_count r \<and> rs_particle_count r \<le> limit \<and>
     0 \<le> rs_filling_rate r \<and> rs_filling_rate r \<le> D 1 \<and> 0 \<le> rs_bonding_strength r \<and> rs_bonding_strength r \<le> D 1 \<and>
     0 \<le> rs_surface_smoothness r \<and> rs_surface_smoothness r \<le> D 1"

lemma module_simulation_good:
  assumes "engine_ok rnd" and "- 20 < dg_simulation_steps cfg"
  shows "\<exists>r. module_simulation rnd junk (module_material m) cfg crack = Inr r \<and>
    good_simulation (max 0 (c_div (dg_max_particles cfg) 10)) (simulation_of crack (module_material m) (fst r))"
proof -
  let ?n = "c_div (dg_max_particles cfg) 10"
  define s0 where "s0 = set_material_properties (module_material m) (set_crack_geometry crack
      (dem_set_parameters default_dem_params (new_dem cfg junk (module_material m))))"
  define s where "s = generate_particles rnd ?n s0"
  have size: "dq_min_particle_radius (ds_params s0) = D 25 * D (6/10) * D (1 / 10 ^ 9)"
      "dq_max_particle_radius (ds_params s0) = D 25 * D (14/10) * D (1 / 10 ^ 9)"
      "dq_bond_strength (ds_params s0) = D (100 * 10 ^ 6)"
    by (simp_all add: s0_def set_material_properties_def set_crack_geometry_def Let_def dem_set_parameters_def
        module_material_def default_dem_params_def)
  have bounds: "nn (dq_min_particle_radius (ds_params s0))" "nn (dq_max_particle_radius (ds_params s0))"
      "nn (dq_bond_strength (ds_params s0) * micro)"
    unfolding size micro_def by (intro nn_times nn_D; simp)+
  have s: "\<forall>p\<in>set (ds_particles s). nn (dp_radius p)" "ds_params s = ds_params s0" "ds_contacts s = ds_contacts s0"
    using generate_loop_radii [OF assms(1), of "s0\<lparr>ds_particles := []\<rparr>" "[0..?n - 1]"] bounds(1)
    by (simp_all add: s_def generate_particles_def)
  define r0 where "r0 = \<lparr>rn_max_force = 0, rn_sum_force = 0, rn_energy = [], rn_force = [], rn_executed = 0\<rparr>"
  obtain s' log where run: "run_steps rnd [0..<nat (dg_simulation_steps cfg)] s r0 = (s', log)"
    by (metis surj_pair)
  have kept: "map frame (ds_particles s') = map frame (ds_particles s)" "ds_params s' = ds_params s"
    using run_steps_kept [OF run] by simp_all
  have "set (map dp_radius (ds_particles s')) = set (map dp_radius (ds_particles s))"
    using frame_radii [OF kept(1)] by simp
  then have "\<forall>x\<in>set (map dp_radius (ds_particles s')). nn x"
    using s(1) by simp
  then have radii: "\<forall>p\<in>set (ds_particles s'). nn (dp_radius p)"
    by simp
  have count: "length (filter (\<lambda>p. \<not> dp_is_boundary p) (ds_particles s)) \<le> nat ?n"
    using generated_particles_apart_lemma [of rnd ?n s0] length_filter_le le_trans
    unfolding s_def Let_def by blast
  obtain r where r: "dem_run_result rnd (dg_simulation_steps cfg) s = Inr (r, log, s')"
      "dr_particle_count r = int (length (filter (\<lambda>p. \<not> dp_is_boundary p) (ds_particles s)))"
      "dr_filling_rate r = calculate_filling_rate s'" "dr_bonding_strength r = calculate_bonding_strength s'"
      "dr_surface_smoothness r = calculate_surface_smoothness s'"
    using assms(2) run by (simp add: dem_run_result_def r0_def [symmetric])
  have "module_simulation rnd junk (module_material m) cfg crack = Inr (r, log, s')"
    using r(1) by (simp add: module_simulation_def s_def s0_def Let_def)
  moreover have "good_simulation (max 0 ?n) (simulation_of crack (module_material m) r)"
    using filling_rate_unit [OF radii] smoothness_unit [of s'] bonding_unit [of s'] bounds kept(2) s(2) r count
    by (simp add: good_simulation_def simulation_of_def)
  ultimately show ?thesis
    by auto
qed

lemma dem_loop_good:
  assumes "\<And>k. engine_ok (rnds k)" and "- 20 < dg_simulation_steps cfg"
  shows "queue_ok q \<Longrightarrow> \<exists>q' ms. dem_loop rnds junk (module_material m) cfg pid k cracks (Some q) = (Some q', None) \<and>
    queue_contents q' = queue_contents q @ ms \<and> map dmsg_crack ms = cracks \<and>
    list_all (\<lambda>msg. good_simulation (max 0 (c_div (dg_max_particles cfg) 10)) (dmsg_result msg)) ms"
proof (induction cracks arbitrary: q k)
  case Nil
  then show ?case by simp
next
  case (Cons c cs)
  obtain r log s' where r: "module_simulation (rnds k) junk (module_material m) cfg c = Inr (r, log, s')"
      "good_simulation (max 0 (c_div (dg_max_particles cfg) 10)) (simulation_of c (module_material m) r)"
    using module_simulation_good [OF assms(1) [of k] assms(2), of junk m c] by auto
  let ?m = "\<lparr>dmsg_crack = c, dmsg_porcelain_id = pid, dmsg_material = module_material m,
      dmsg_result = simulation_of c (module_material m) r\<rparr>"
  obtain q' ms where "dem_loop rnds junk (module_material m) cfg pid (Suc k) cs (Some (push ?m q)) = (Some q', None)"
      "queue_contents q' = queue_contents (push ?m q) @ ms" "map dmsg_crack ms = cs"
      "list_all (\<lambda>msg. good_simulation (max 0 (c_div (dg_max_particles cfg) 10)) (dmsg_result msg)) ms"
    using Cons.IH [OF push_ok [OF Cons.prems]] by blast
  then show ?case
    using r by (intro exI [of _ q'] exI [of _ "?m # ms"]) (simp add: push_contents [OF Cons.prems])
qed

text \<open>C37: The module emits one result per detected crack, in order, for every step count above -20:
  with at most a tenth of the configured particles, and with a filling rate, a bonding strength and a
  smoothness between 0 and 1, whatever the crack's size and the random draws are.\<close>

theorem dem_module_results:
  assumes "\<And>k. engine_ok (rnds k)" and "- 20 < dg_simulation_steps cfg" and "queue_ok q"
  shows "\<exists>q' ms. dem_process rnds junk (module_material m) cfg msg (Some q) = (Some q', None) \<and>
    queue_contents q' = queue_contents q @ ms \<and> map dmsg_crack ms = cd_cracks msg \<and>
    list_all (\<lambda>r. good_simulation (max 0 (c_div (dg_max_particles cfg) 10)) (dmsg_result r)) ms"
  unfolding dem_process_def by (rule dem_loop_good [OF assms])

theorem dem_module_results_witness:
  "\<exists>q' ms. dem_process (\<lambda>_ _ lo _. lo) demo_geometry (module_material demo_material) default_dem demo_detection (Some new_queue)
      = (Some q', None) \<and> queue_contents q' = queue_contents new_queue @ ms \<and>
    map dmsg_crack ms = [sample_crack (D 10)] \<and>
    list_all (\<lambda>r. good_simulation 1000 (dmsg_result r)) ms"
proof -
  have e: "engine_ok (\<lambda>_ lo _. lo)"
    by (simp add: engine_ok_def)
  have "- 20 < dg_simulation_steps default_dem"
    by (simp add: default_dem_def)
  from dem_module_results [of "\<lambda>_ _ lo _. lo", OF e this lfq.new_ok, of demo_geometry demo_material demo_detection]
  obtain q' ms where "dem_process (\<lambda>_ _ lo _. lo) demo_geometry (module_material demo_material) default_dem demo_detection (Some new_queue)
      = (Some q', None)" "queue_contents q' = queue_contents new_queue @ ms" "map dmsg_crack ms = cd_cracks demo_detection"
      "list_all (\<lambda>r. good_simulation (max 0 (c_div (dg_max_particles default_dem) 10)) (dmsg_result r)) ms"
    by blast
  moreover have "max 0 (c_div (dg_max_particles default_dem) 10) = 1000" "cd_cracks demo_detection = [sample_crack (D 10)]"
    by (simp_all add: default_dem_def c_div_def demo_detection_def)
  ultimately show ?thesis
    by metis
qed

end
