(* ===== verification/Module_Interface.thy ===== *)
theory Module_Interface
  imports Json
begin

section \<open>What every analysis module shares (modules/common/imodule.h)\<close>

text \<open>The status of a module, the result it hands to its caller, and the contract of \<open>execute\<close>,
  \<open>cancel\<close> and the end of a run, which the modules implement with the same two atomics.\<close>

datatype module_status = UNINITIALIZED | IDLE | RUNNING | COMPLETED | ERROR

record module_result =
  mo_success :: bool
  mo_error_message :: string
  mo_data :: json

definition failed_result :: "string \<Rightarrow> module_result" where
  "failed_result msg = \<lparr>mo_success = False, mo_error_message = msg, mo_data = JNull\<rparr>"

text \<open>\<open>start input m\<close> is whether \<open>execute\<close> accepts the request and the module after it; \<open>finish\<close> is what
  the end of a run does to the module.\<close>

locale analysis_module =
  fixes status :: "'m \<Rightarrow> module_status"
    and cancelled :: "'m \<Rightarrow> bool"
    and start :: "'i \<Rightarrow> 'm \<Rightarrow> bool \<times> 'm"
    and cancel :: "'m \<Rightarrow> 'm"
    and finish :: "'m \<Rightarrow> 'm"
  assumes busy: "status m = RUNNING \<Longrightarrow> start i m = (False, m)"
    and started: "fst (start i m) \<Longrightarrow> status (snd (start i m)) = RUNNING \<and> \<not> cancelled (snd (start i m))"
    and cancel_status: "status (cancel m) = IDLE \<and> cancelled (cancel m)"
    and finish_status: "status (finish m) = (if cancelled m then IDLE else COMPLETED)"
    and finish_flag: "cancelled (finish m) = cancelled m"
begin

lemma one_at_a_time: "fst (start i m) \<Longrightarrow> start j (snd (start i m)) = (False, snd (start i m))"
  using busy started by blast

lemma cancelled_run: "fst (start i m) \<Longrightarrow> status (finish (cancel (snd (start i m)))) = IDLE"
  using cancel_status finish_status by simp

text \<open>A request accepted between the cancellation and the end of the cancelled run takes the
  cancellation back.\<close>

lemma cancellation_lost:
  assumes "fst (start i m)" and "fst (start j (cancel (snd (start i m))))"
  shows "\<not> cancelled (snd (start j (cancel (snd (start i m)))))"
    and "status (finish (snd (start j (cancel (snd (start i m)))))) = COMPLETED"
  using started [OF assms(2)] finish_status by simp_all

end

end
