(* ===== verification/Ipc_Channel.thy ===== *)
theory Ipc_Channel
  imports Json
begin

section \<open>The IPC channels and the module factory (modules/common/ipc_channel.cpp, module_factory.cpp)\<close>

text \<open>
  Channels are objects in a store addressed by numbers, because each end keeps a raw pointer to the
  other: a destroyed channel has no entry, and using a pointer to it is undefined behaviour. A
  message carries the fields of \<open>IpcMessage\<close>; a callback is recorded by its name, and calling it
  appends to \<open>io_called\<close>. \<open>receive\<close> is \<open>None\<close> while it would wait.
\<close>

datatype ipc_type = LOCAL | PIPE | SOCKET | SHARED_MEM | MESSAGE_QUEUE

record ipc_message =
  im_module_name :: string
  im_command :: string
  im_payload :: json
  im_request_id :: int
  im_timestamp :: int

record channel =
  ch_endpoint :: string
  ch_inbox :: "ipc_message list"
  ch_peer :: "nat option"
  ch_callback :: "nat option"
  ch_connected :: bool

record ipc =
  io_store :: "nat \<Rightarrow> channel option"
  io_called :: "(nat \<times> ipc_message) list"

definition new_channel :: channel where
  "new_channel = \<lparr>ch_endpoint = [], ch_inbox = [], ch_peer = None, ch_callback = None, ch_connected = False\<rparr>"

definition no_channels :: ipc where
  "no_channels = \<lparr>io_store = \<lambda>_. None, io_called = []\<rparr>"

text \<open>A member function on the channel at an address.\<close>

definition at_channel :: "nat \<Rightarrow> (channel \<Rightarrow> 'a result) \<Rightarrow> ipc \<Rightarrow> 'a result" where
  "at_channel c f w = (case io_store w c of None \<Rightarrow> Inl (UB ''destroyed channel'') | Some ch \<Rightarrow> f ch)"

definition put_channel :: "nat \<Rightarrow> channel \<Rightarrow> ipc \<Rightarrow> ipc" where
  "put_channel c ch w = w\<lparr>io_store := (io_store w)(c \<mapsto> ch)\<rparr>"

definition ipc_initialize :: "nat \<Rightarrow> string \<Rightarrow> ipc \<Rightarrow> (bool \<times> ipc) result" where
  "ipc_initialize c e w =
     at_channel c (\<lambda>ch. Inr (True, put_channel c (ch\<lparr>ch_endpoint := e, ch_connected := True\<rparr>) w)) w"

definition ipc_connect :: "nat \<Rightarrow> string \<Rightarrow> ipc \<Rightarrow> (bool \<times> ipc) result" where
  "ipc_connect c e w =
     at_channel c (\<lambda>ch. Inr (True, put_channel c (ch\<lparr>ch_endpoint := e, ch_connected := True\<rparr>) w)) w"

definition set_peer :: "nat \<Rightarrow> nat option \<Rightarrow> ipc \<Rightarrow> ipc result" where
  "set_peer c p w = at_channel c (\<lambda>ch. Inr (put_channel c (ch\<lparr>ch_peer := p\<rparr>) w)) w"

definition set_message_callback :: "nat \<Rightarrow> nat option \<Rightarrow> ipc \<Rightarrow> ipc result" where
  "set_message_callback c cb w = at_channel c (\<lambda>ch. Inr (put_channel c (ch\<lparr>ch_callback := cb\<rparr>) w)) w"

definition is_connected :: "nat \<Rightarrow> ipc \<Rightarrow> bool result" where
  "is_connected c w = at_channel c (\<lambda>ch. Inr (ch_connected ch \<and> ch_peer ch \<noteq> None)) w"

definition ipc_send :: "nat \<Rightarrow> ipc_message \<Rightarrow> ipc \<Rightarrow> (bool \<times> ipc) result" where
  "ipc_send c msg w =
     at_channel c (\<lambda>ch.
       case ch_peer ch of
         None \<Rightarrow> Inr (False, w)
       | Some p \<Rightarrow>
           if \<not> ch_connected ch then Inr (False, w)
           else at_channel p (\<lambda>peer.
             let w = put_channel p (peer\<lparr>ch_inbox := ch_inbox peer @ [msg]\<rparr>) w in
             Inr (True, case ch_callback peer of
               None \<Rightarrow> w | Some f \<Rightarrow> w\<lparr>io_called := io_called w @ [(f, msg)]\<rparr>)) w) w"

text \<open>A negative timeout waits for a message; another one gives up when none is there.\<close>

definition ipc_receive :: "nat \<Rightarrow> int \<Rightarrow> ipc \<Rightarrow> (ipc_message option \<times> ipc) result option" where
  "ipc_receive c timeout_ms w =
     (case io_store w c of
        None \<Rightarrow> Some (Inl (UB ''destroyed channel''))
      | Some ch \<Rightarrow>
          (case ch_inbox ch of
             [] \<Rightarrow> if timeout_ms < 0 then None else Some (Inr (None, w))
           | m # ms \<Rightarrow> Some (Inr (Some m, put_channel c (ch\<lparr>ch_inbox := ms\<rparr>) w))))"

definition ipc_close :: "nat \<Rightarrow> ipc \<Rightarrow> ipc result" where
  "ipc_close c w =
     at_channel c (\<lambda>ch. Inr (put_channel c (ch\<lparr>ch_connected := False, ch_peer := None, ch_inbox := []\<rparr>) w)) w"

text \<open>The destructor closes the channel; the pointer of the other end stays.\<close>

definition ipc_destroy :: "nat \<Rightarrow> ipc \<Rightarrow> ipc result" where
  "ipc_destroy c w = and_then (ipc_close c w) (\<lambda>w. Inr (w\<lparr>io_store := (io_store w)(c := None)\<rparr>))"

text \<open>\<open>IpcChannelFactory\<close>: every kind gives a local channel, at a fresh address.\<close>

definition ipc_create :: "ipc_type \<Rightarrow> nat \<Rightarrow> ipc \<Rightarrow> ipc" where
  "ipc_create t c w = (case t of LOCAL \<Rightarrow> put_channel c new_channel w | _ \<Rightarrow> put_channel c new_channel w)"

definition create_local_pair :: "nat \<Rightarrow> nat \<Rightarrow> string \<Rightarrow> ipc \<Rightarrow> ipc result" where
  "create_local_pair server client e w =
     (let w = put_channel client new_channel (put_channel server new_channel w) in
      and_then (set_peer server (Some client) w) (\<lambda>w.
      and_then (set_peer client (Some server) w) (\<lambda>w.
      and_then (ipc_initialize server (e @ ''_server'') w) (\<lambda>(_, w).
      and_then (ipc_connect client (e @ ''_client'') w) (\<lambda>(_, w). Inr w)))))"

lemmas channel_ops = at_channel_def put_channel_def ipc_initialize_def ipc_connect_def set_peer_def
  set_message_callback_def is_connected_def ipc_send_def ipc_receive_def ipc_close_def
  ipc_destroy_def

fun send_all :: "nat \<Rightarrow> ipc_message list \<Rightarrow> ipc \<Rightarrow> (bool \<times> ipc) result" where
  "send_all c [] w = Inr (True, w)"
| "send_all c (m # ms) w =
     and_then (ipc_send c m w) (\<lambda>(ok, w). if ok then send_all c ms w else Inr (False, w))"

fun receive_all :: "nat \<Rightarrow> nat \<Rightarrow> ipc \<Rightarrow> (ipc_message list \<times> ipc) result option" where
  "receive_all c 0 w = Some (Inr ([], w))"
| "receive_all c (Suc n) w =
     (case ipc_receive c (-1) w of
        None \<Rightarrow> None
      | Some (Inl e) \<Rightarrow> Some (Inl e)
      | Some (Inr (None, w)) \<Rightarrow> Some (Inr ([], w))
      | Some (Inr (Some m, w)) \<Rightarrow>
          map_option (map_sum id (\<lambda>(ms, w). (m # ms, w))) (receive_all c n w))"

text \<open>An open pair without callbacks, with the inboxes of both ends.\<close>

definition open_pair :: "nat \<Rightarrow> nat \<Rightarrow> ipc_message list \<Rightarrow> ipc_message list \<Rightarrow> ipc \<Rightarrow> bool" where
  "open_pair a b xs ys w \<longleftrightarrow>
     (\<exists>e f. io_store w a = Some \<lparr>ch_endpoint = e, ch_inbox = xs, ch_peer = Some b, ch_callback = None, ch_connected = True\<rparr> \<and>
            io_store w b = Some \<lparr>ch_endpoint = f, ch_inbox = ys, ch_peer = Some a, ch_callback = None, ch_connected = True\<rparr>)"

lemma open_pair_sym: "open_pair a b xs ys w = open_pair b a ys xs w"
  by (auto simp: open_pair_def)

lemma create_open_pair:
  assumes "a \<noteq> b"
  shows "\<exists>w'. create_local_pair a b e w = Inr w' \<and> open_pair a b [] [] w'"
  using assms by (simp add: create_local_pair_def channel_ops new_channel_def open_pair_def)

lemma send_open_pair:
  assumes "open_pair a b xs ys w" and "a \<noteq> b"
  shows "\<exists>w'. ipc_send a m w = Inr (True, w') \<and> open_pair a b xs (ys @ [m]) w'"
  using assms by (auto simp: open_pair_def channel_ops)

lemma receive_open_pair:
  assumes "open_pair a b xs (m # ys) w" and "a \<noteq> b"
  shows "\<exists>w'. ipc_receive b t w = Some (Inr (Some m, w')) \<and> open_pair a b xs ys w'"
  using assms by (auto simp: open_pair_def channel_ops)

lemma send_all_open_pair:
  assumes "open_pair a b xs ys w" and "a \<noteq> b"
  shows "\<exists>w'. send_all a ms w = Inr (True, w') \<and> open_pair a b xs (ys @ ms) w'"
  using assms
proof (induction ms arbitrary: ys w)
  case (Cons m ms)
  from send_open_pair [OF Cons.prems] obtain w1
    where w1: "ipc_send a m w = Inr (True, w1)" "open_pair a b xs (ys @ [m]) w1"
    by blast
  from Cons.IH [OF w1(2) Cons.prems(2)] w1(1) show ?case
    by simp
qed simp

lemma receive_all_open_pair:
  assumes "open_pair a b xs (ms @ ys) w" and "a \<noteq> b"
  shows "\<exists>w'. receive_all b (length ms) w = Some (Inr (ms, w')) \<and> open_pair a b xs ys w'"
  using assms
proof (induction ms arbitrary: w)
  case (Cons m ms)
  from receive_open_pair [of a b xs m "ms @ ys" w "-1"] Cons.prems obtain w1
    where w1: "ipc_receive b (-1) w = Some (Inr (Some m, w1))" "open_pair a b xs (ms @ ys) w1"
    by auto
  from Cons.IH [OF w1(2) Cons.prems(2)] w1(1) show ?case
    by auto
qed simp

text \<open>The two ends of \<open>create_local_pair\<close>: whatever either end sends, all sends succeed, and the
  other end receives exactly that, in order; afterwards a \<open>receive\<close> with a timeout reports nothing.\<close>

theorem local_pair_roundtrip:
  assumes "a \<noteq> b"
  shows "\<exists>w0 w1 w2 w3 w4. create_local_pair a b e w = Inr w0 \<and>
    send_all a ms w0 = Inr (True, w1) \<and> send_all b ks w1 = Inr (True, w2) \<and>
    receive_all b (length ms) w2 = Some (Inr (ms, w3)) \<and>
    receive_all a (length ks) w3 = Some (Inr (ks, w4)) \<and>
    ipc_receive a 0 w4 = Some (Inr (None, w4)) \<and> ipc_receive b 0 w4 = Some (Inr (None, w4))"
proof -
  from create_open_pair [OF assms] obtain w0 where
    w0: "create_local_pair a b e w = Inr w0" "open_pair a b [] [] w0" by blast
  from send_all_open_pair [OF w0(2) assms] obtain w1 where
    w1: "send_all a ms w0 = Inr (True, w1)" "open_pair a b [] ms w1" by auto
  from send_all_open_pair [of b a ms "[]" w1 ks] w1(2) assms obtain w2 where
    w2: "send_all b ks w1 = Inr (True, w2)" "open_pair a b ks ms w2" by (auto simp: open_pair_sym [of b a])
  from receive_all_open_pair [of a b ks ms "[]" w2] w2(2) assms obtain w3 where
    w3: "receive_all b (length ms) w2 = Some (Inr (ms, w3))" "open_pair a b ks [] w3" by auto
  from receive_all_open_pair [of b a "[]" ks "[]" w3] w3(2) assms obtain w4 where
    w4: "receive_all a (length ks) w3 = Some (Inr (ks, w4))" "open_pair a b [] [] w4"
    by (auto simp: open_pair_sym [of b a])
  have "ipc_receive a 0 w4 = Some (Inr (None, w4))" "ipc_receive b 0 w4 = Some (Inr (None, w4))"
    using w4(2) by (auto simp: open_pair_def ipc_receive_def)
  then show ?thesis
    using w0(1) w1(1) w2(1) w3(1) w4(1) by blast
qed

theorem local_pair_roundtrip_witness:
  "let m = (\<lambda>i. \<lparr>im_module_name = ''fem'', im_command = ''run'', im_payload = JObj [], im_request_id = i, im_timestamp = 0\<rparr>)
   in \<exists>w0 w1 w2 w3 w4. create_local_pair 0 1 ''local'' no_channels = Inr w0 \<and>
    send_all 0 [m 1, m 2] w0 = Inr (True, w1) \<and> send_all 1 [m 3] w1 = Inr (True, w2) \<and>
    receive_all 1 2 w2 = Some (Inr ([m 1, m 2], w3)) \<and> receive_all 0 1 w3 = Some (Inr ([m 3], w4))"
proof -
  have "(0::nat) \<noteq> 1" by simp
  define m where "m = (\<lambda>i. \<lparr>im_module_name = ''fem'', im_command = ''run'', im_payload = JObj [], im_request_id = i, im_timestamp = 0\<rparr>)"
  from local_pair_roundtrip [OF \<open>(0::nat) \<noteq> 1\<close>, of "''local''" no_channels "[m 1, m 2]" "[m 3]"]
  show ?thesis
    unfolding Let_def m_def [symmetric] by (auto simp: numeral_2_eq_2)
qed

text \<open>The life of a channel ends badly. A channel from \<open>create\<close>, of any kind, never gets a peer:
  even initialised it is not connected, sends nothing, and a \<open>receive\<close> without a timeout never
  returns. In a pair, closing one end leaves the other end connected: its sends still report
  success and fill the closed inbox. After one end is destroyed, a send of the other end is
  undefined behaviour.\<close>

theorem channel_ends:
  "(\<exists>w. ipc_initialize c e (ipc_create t c w0) = Inr (True, w) \<and> is_connected c w = Inr False \<and>
      ipc_send c m w = Inr (False, w) \<and> ipc_receive c (-1) w = None) \<and>
   (if a = b then True
    else (\<exists>w w1 w2. and_then (create_local_pair a b e w0) (ipc_close b) = Inr w \<and>
        is_connected a w = Inr True \<and> ipc_send a m w = Inr (True, w1) \<and>
        map_option ch_inbox (io_store w1 b) = Some [m] \<and>
        and_then (create_local_pair a b e w0) (ipc_destroy b) = Inr w2 \<and> is_ub (ipc_send a m w2)))"
proof
  show "\<exists>w. ipc_initialize c e (ipc_create t c w0) = Inr (True, w) \<and> is_connected c w = Inr False \<and>
      ipc_send c m w = Inr (False, w) \<and> ipc_receive c (-1) w = None"
    by (cases t) (simp_all add: ipc_create_def channel_ops new_channel_def)
  show "if a = b then True
    else (\<exists>w w1 w2. and_then (create_local_pair a b e w0) (ipc_close b) = Inr w \<and>
        is_connected a w = Inr True \<and> ipc_send a m w = Inr (True, w1) \<and>
        map_option ch_inbox (io_store w1 b) = Some [m] \<and>
        and_then (create_local_pair a b e w0) (ipc_destroy b) = Inr w2 \<and> is_ub (ipc_send a m w2))"
  proof (cases "a = b")
    case False
    from create_open_pair [OF False] obtain w where
      w: "create_local_pair a b e w0 = Inr w" "open_pair a b [] [] w" by blast
    then show ?thesis
      using False by (auto simp: open_pair_def channel_ops)
  qed simp
qed

subsection \<open>The module factory\<close>

text \<open>Creators are named by values of any type; a null creator is \<open>None\<close>.\<close>

type_synonym 'c module_factory = "string \<Rightarrow> 'c option"

definition register_module :: "string \<Rightarrow> 'c option \<Rightarrow> 'c module_factory \<Rightarrow> bool \<times> 'c module_factory" where
  "register_module name creator f =
     (case creator of None \<Rightarrow> (False, f) | Some c \<Rightarrow> (True, f(name \<mapsto> c)))"

definition create_module :: "string \<Rightarrow> 'c module_factory \<Rightarrow> 'c option" where
  "create_module name f = (case f name of None \<Rightarrow> None | Some c \<Rightarrow> Some c)"

definition get_registered_modules :: "'c module_factory \<Rightarrow> string set" where
  "get_registered_modules f = dom f"

definition is_registered :: "string \<Rightarrow> 'c module_factory \<Rightarrow> bool" where
  "is_registered name f \<longleftrightarrow> f name \<noteq> None"

lemma register_then_create:
  "register_module n c f = (ok, f') \<Longrightarrow>
    ok = (c \<noteq> None) \<and> create_module k f' = (if ok \<and> k = n then c else create_module k f) \<and>
    get_registered_modules f' = (if ok then insert n (get_registered_modules f) else get_registered_modules f) \<and>
    is_registered k f' = (k \<in> get_registered_modules f')"
  by (auto simp: register_module_def create_module_def get_registered_modules_def is_registered_def
    split: option.splits if_splits)

end
