(* ===== verification/Vr_Preview.thy ===== *)
theory Vr_Preview
  imports Module_Interface Ipc_Channel
begin

section \<open>The virtual repair preview (modules/vr_preview/vr_module.cpp)\<close>

text \<open>
  The meshes of a porcelain and of its cracks, the preview built from them, and the module around
  it with its status. A \<open>float\<close> is a double that \<open>float_of\<close> leaves unchanged; one operation on
  floats is the rounded operation on doubles (rounding twice is harmless from 53 to 24 bits). The
  measured times are arguments. Whether the worker pool exists is a field of the module; the tasks
  of a preview run in the pool, and their scheduling is the subject of the last section.
\<close>

subsection \<open>Single precision\<close>

definition float_ulp :: "real \<Rightarrow> int" where
  "float_ulp x = max (\<lfloor>log 2 x\<rfloor> - 23) (- 149)"

definition float_round :: "real \<Rightarrow> real" where
  "float_round x =
     (if x = 0 then 0
      else if 0 < x then of_int (rne (x / 2 powi float_ulp x)) * 2 powi float_ulp x
      else - (of_int (rne (- x / 2 powi float_ulp (- x))) * 2 powi float_ulp (- x)))"

definition float_of :: "double \<Rightarrow> double" where
  "float_of d =
     (if isfinite d then
        (let r = float_round (val d) in
         if 2 ^ 128 \<le> r then PINF else if r \<le> - (2 ^ 128) then NINF else D r)
      else d)"

subsection \<open>Meshes\<close>

record vertex =
  vx :: double
  vy :: double
  vz :: double
  vnx :: double
  vny :: double
  vnz :: double
  vu :: double
  vv :: double
  vcolour :: "double \<times> double \<times> double \<times> double"

record model =
  md_vertices :: "vertex list"
  md_indices :: "nat list"
  md_has_texture :: bool
  md_texture_path :: string

definition new_model :: model where
  "new_model = \<lparr>md_vertices = [], md_indices = [], md_has_texture = False, md_texture_path = []\<rparr>"

definition angle_of :: "nat \<Rightarrow> nat \<Rightarrow> double" where
  "angle_of resolution i = D 2 * M_PI * of_i (int i) / of_i (int resolution)"

definition side_vertex :: "nat \<Rightarrow> double \<Rightarrow> double \<Rightarrow> nat \<Rightarrow> nat \<Rightarrow> vertex" where
  "side_vertex resolution R h ring i =
     (let a = angle_of resolution i; z = of_i (int ring) * h in
      \<lparr>vx = float_of (R * dcos a), vy = float_of (R * dsin a), vz = float_of z,
       vnx = float_of (dcos a), vny = float_of (dsin a), vnz = 0,
       vu = float_of (float_of (of_i (int i)) / float_of (of_i (int resolution))), vv = float_of (of_i (int ring)),
       vcolour = (float_of (D (92/100)), float_of (D (90/100)), float_of (D (85/100)), D 1)\<rparr>)"

definition cap_colour :: "double \<times> double \<times> double \<times> double" where
  "cap_colour = (float_of (D (95/100)), float_of (D (93/100)), float_of (D (88/100)), D 1)"

definition cap_centre :: "double \<Rightarrow> nat \<Rightarrow> vertex" where
  "cap_centre h ring =
     \<lparr>vx = 0, vy = 0, vz = float_of (of_i (int ring) * h), vnx = 0, vny = 0,
      vnz = (if ring = 0 then D (- 1) else D 1), vu = D (1/2), vv = D (1/2), vcolour = cap_colour\<rparr>"

definition cap_vertex :: "nat \<Rightarrow> double \<Rightarrow> double \<Rightarrow> nat \<Rightarrow> nat \<Rightarrow> vertex" where
  "cap_vertex resolution R h ring i =
     (let a = angle_of resolution i in
      \<lparr>vx = float_of (R * dcos a), vy = float_of (R * dsin a), vz = float_of (of_i (int ring) * h),
       vnx = 0, vny = 0, vnz = (if ring = 0 then D (- 1) else D 1),
       vu = float_of (D (1/2) + float_of (D (1/2) * float_of (dcos a))),
       vv = float_of (D (1/2) + float_of (D (1/2) * float_of (dsin a))), vcolour = cap_colour\<rparr>)"

definition side_triangles :: "nat \<Rightarrow> nat \<Rightarrow> nat list" where
  "side_triangles resolution i =
     (let a = i; b = i + 1; c = i + (resolution + 1); d = i + 1 + (resolution + 1) in [a, c, b, b, c, d])"

definition cap_triangle :: "nat \<Rightarrow> nat \<Rightarrow> nat \<Rightarrow> nat list" where
  "cap_triangle ring centre i =
     (let p1 = centre + 1 + i; p2 = centre + 1 + i + 1 in
      if ring = 0 then [centre, p2, p1] else [centre, p1, p2])"

definition add_side :: "nat \<Rightarrow> double \<Rightarrow> double \<Rightarrow> model \<Rightarrow> model" where
  "add_side resolution R h m =
     m\<lparr>md_vertices := md_vertices m @ concat (map (\<lambda>ring. map (side_vertex resolution R h ring) [0..<resolution + 1]) [0, 1]),
       md_indices := md_indices m @ concat (map (side_triangles resolution) [0..<resolution])\<rparr>"

definition add_cap :: "nat \<Rightarrow> double \<Rightarrow> double \<Rightarrow> nat \<Rightarrow> model \<Rightarrow> model" where
  "add_cap resolution R h ring m =
     (let m = m\<lparr>md_vertices := md_vertices m @ [cap_centre h ring]\<rparr>;
          centre = length (md_vertices m) - 1
      in m\<lparr>md_vertices := md_vertices m @ map (cap_vertex resolution R h ring) [0..<resolution + 1],
           md_indices := md_indices m @ concat (map (cap_triangle ring centre) [0..<resolution])\<rparr>)"

text \<open>The size computed for \<open>reserve\<close> overflows an \<open>int\<close> for huge resolutions.\<close>

definition generate_porcelain_mesh :: "double \<Rightarrow> double \<Rightarrow> int \<Rightarrow> model result" where
  "generate_porcelain_mesh thickness_mm diameter_mm resolution =
     (let R = diameter_mm / D 2; h = thickness_mm; resolution = max 8 resolution in
      if 2 ^ 31 \<le> 12 * resolution then Inl (UB ''signed overflow'')
      else Inr (add_cap (nat resolution) R h 1 (add_cap (nat resolution) R h 0 (add_side (nat resolution) R h new_model))))"

record crack_model =
  cm_crack_id :: int
  cm_geometry :: model
  cm_original_depth_um :: double
  cm_repaired_depth_um :: double
  cm_repair_quality :: double

definition crack_indices :: "nat list" where
  "crack_indices =
     [0, 1, 2,  1, 3, 2,  4, 6, 5,  5, 6, 7,  0, 4, 5,  0, 5, 1,
      2, 3, 7,  2, 7, 6,  1, 5, 7,  1, 7, 3,  0, 2, 6,  0, 6, 4]"

definition json_size :: "json \<Rightarrow> nat" where
  "json_size j = (case j of JNull \<Rightarrow> 0 | JArr xs \<Rightarrow> length xs | JObj kvs \<Rightarrow> length kvs | _ \<Rightarrow> 1)"

definition json_nth :: "json \<Rightarrow> nat \<Rightarrow> json result" where
  "json_nth j i = (case j of
      JArr xs \<Rightarrow> (if i < length xs then Inr (xs ! i) else Inl (UB ''json array index''))
    | _ \<Rightarrow> Inl Json_error)"

definition crack_vertices :: "bool \<Rightarrow> double \<Rightarrow> double \<Rightarrow> double \<Rightarrow> double \<Rightarrow> double \<Rightarrow> double \<Rightarrow> vertex list" where
  "crack_vertices is_repaired sx sy ex ey depth_mm width_mm =
     (let dx = ex - sx; dy = ey - sy;
          len = dsqrt (dx * dx + dy * dy);
          ux = (if 0 < len then - dy / len else 0);
          uy = (if 0 < len then dx / len else D 1);
          half = (\<lambda>u. u * width_mm * D (1/2));
          corners = [(sx + half ux, sy + half uy), (sx - half ux, sy - half uy),
                     (ex + half ux, ey + half uy), (ex - half ux, ey - half uy)];
          colour = (float_of (D (if is_repaired then 35/100 else 6/10)), float_of (D (if is_repaired then 75/100 else 15/100)),
                    float_of (D (if is_repaired then 95/100 else 1/10)), float_of (D (9/10)));
          vert = (\<lambda>z nz (x, y). \<lparr>vx = float_of x, vy = float_of y, vz = float_of z, vnx = 0, vny = 0, vnz = nz,
             vu = 0, vv = 0, vcolour = colour\<rparr>)
      in map (vert 0 (D 1)) corners @ map (vert depth_mm (D (- 1))) corners)"

definition generate_crack_mesh :: "bool \<Rightarrow> json \<Rightarrow> json \<Rightarrow> crack_model result" where
  "generate_crack_mesh enable_repair_visualization crack repair =
     and_then (json_value json_get_int crack ''id'' 0) (\<lambda>crack_id.
     and_then (json_value json_get_num crack ''max_depth'' 0) (\<lambda>depth_um.
     and_then (json_value json_get_num crack ''start_x'' 0) (\<lambda>sx.
     and_then (json_value json_get_num crack ''start_y'' 0) (\<lambda>sy.
     and_then (json_value json_get_num crack ''end_x'' 0) (\<lambda>ex.
     and_then (json_value json_get_num crack ''end_y'' 0) (\<lambda>ey.
     and_then (json_value json_get_num crack ''max_width'' (D 10)) (\<lambda>width_um.
     let depth_mm = std_max (D (1/1000)) (depth_um / D 1000);
         width_mm = std_max (D (5/10000)) (width_um / D 1000);
         is_repaired = enable_repair_visualization \<and> json_size repair \<noteq> 0
     in
     and_then (if is_repaired then json_value json_get_num repair ''final_depth_um'' 0 else Inr depth_um) (\<lambda>repaired.
     and_then (if is_repaired then json_value json_get_num repair ''repair_quality'' 0 else Inr 0) (\<lambda>quality.
     Inr \<lparr>cm_crack_id = crack_id,
          cm_geometry = new_model\<lparr>md_vertices := crack_vertices is_repaired sx sy ex ey depth_mm width_mm,
            md_indices := crack_indices\<rparr>,
          cm_original_depth_um = depth_um, cm_repaired_depth_um = repaired, cm_repair_quality = quality\<rparr>)))))))))"

subsection \<open>The preview\<close>

datatype platform = OPENVR | OPENXR | WEBXR

datatype render_mode = WIREFRAME | SOLID | TEXTURED

record preview_config =
  pv_platform :: platform
  pv_render_mode :: render_mode
  pv_ipd_mm :: double
  pv_fov_degrees :: double
  pv_pixel_density :: double
  pv_render_resolution_width :: int
  pv_render_resolution_height :: int
  pv_max_polycount_per_view :: int
  pv_enable_lod :: bool
  pv_enable_repair_visualization :: bool
  pv_export_glb :: bool
  pv_num_preview_angles :: int

definition default_preview :: preview_config where
  "default_preview = \<lparr>pv_platform = OPENXR, pv_render_mode = SOLID, pv_ipd_mm = D (127/2), pv_fov_degrees = D 110,
     pv_pixel_density = D (3/2), pv_render_resolution_width = 2160, pv_render_resolution_height = 2160,
     pv_max_polycount_per_view = 500000, pv_enable_lod = True, pv_enable_repair_visualization = True,
     pv_export_glb = True, pv_num_preview_angles = 8\<rparr>"

record preview_result =
  pr_success :: bool
  pr_porcelain_model :: model
  pr_cracks :: "crack_model list"
  pr_preview_image_paths :: "string list"
  pr_glb_export_path :: string
  pr_build_ms :: double
  pr_render_ms :: double
  pr_export_ms :: double
  pr_total_triangles :: int

definition channel_text :: "double \<Rightarrow> string result" where
  "channel_text x = and_then (to_int32 (float_of (x * D 255))) (\<lambda>n. Inr (to_string_int n))"

definition generate_stub_image :: "double \<Rightarrow> double \<Rightarrow> double \<Rightarrow> string \<Rightarrow> string result" where
  "generate_stub_image r g b label =
     and_then (channel_text r) (\<lambda>rs. and_then (channel_text g) (\<lambda>gs. and_then (channel_text b) (\<lambda>bs.
     Inr (''stub_'' @ rs @ ''_'' @ gs @ ''_'' @ bs @ ''_'' @ label @ ''.png''))))"

definition angle_image :: "int \<Rightarrow> int \<Rightarrow> int \<Rightarrow> string result" where
  "angle_image porcelain_id angles i =
     (let t = float_of (float_of (of_i i) / float_of (of_i (max 1 (angles - 1))));
          hue_g = float_of (D 1 - float_of (\<bar>float_of (D (1/2) - t)\<bar> * D 2));
          hue_b = float_of (D 1 - t)
      in generate_stub_image t hue_g hue_b (to_string_int porcelain_id @ ''_angle'' @ to_string_int i))"

text \<open>The task of crack \<open>i\<close>: the crack and its repair are looked up before it is submitted, and
  \<open>submit\<close> goes through the pointer to the pool.\<close>

definition crack_task :: "bool \<Rightarrow> json \<Rightarrow> json \<Rightarrow> nat \<Rightarrow> (json \<times> json) result" where
  "crack_task pool cracks repairs i =
     and_then (json_nth cracks i) (\<lambda>c.
     and_then (if i < json_size repairs then json_nth repairs i else Inr JNull) (\<lambda>r.
     if pool then Inr (c, r) else Inl (UB ''null worker pool'')))"

definition triangles :: "model \<Rightarrow> int" where
  "triangles m = int (length (md_indices m) div 3)"

definition build_preview_sync :: "bool \<Rightarrow> preview_config \<Rightarrow> double \<Rightarrow> double \<Rightarrow> int \<Rightarrow> json \<Rightarrow> json \<Rightarrow> json \<Rightarrow> preview_result result" where
  "build_preview_sync pool cfg build_ms render_ms porcelain_id geometry cracks repairs =
     and_then (json_value json_get_num geometry ''thickness_mm'' (D 3)) (\<lambda>thickness.
     and_then (json_value json_get_num geometry ''diameter_mm'' (D 100)) (\<lambda>diameter.
     and_then (json_value json_get_int geometry ''mesh_resolution'' 32) (\<lambda>resolution.
     and_then (generate_porcelain_mesh thickness diameter resolution) (\<lambda>porcelain.
     and_then (map_result (crack_task pool cracks repairs) [0..<json_size cracks]) (\<lambda>tasks.
     and_then (map_result (\<lambda>(c, r). generate_crack_mesh (pv_enable_repair_visualization cfg) c r) tasks) (\<lambda>crs.
     and_then (map_result (angle_image porcelain_id (pv_num_preview_angles cfg)) [0..pv_num_preview_angles cfg - 1]) (\<lambda>images.
     Inr \<lparr>pr_success = True, pr_porcelain_model = porcelain, pr_cracks = crs, pr_preview_image_paths = images,
          pr_glb_export_path = (if pv_export_glb cfg then ''vr_preview_'' @ to_string_int porcelain_id @ ''.glb'' else []),
          pr_build_ms = build_ms, pr_render_ms = render_ms, pr_export_ms = render_ms * D (2/10),
          pr_total_triangles = foldl (\<lambda>n c. n + triangles (cm_geometry c)) (triangles porcelain) crs\<rparr>)))))))"

definition preview_to_json :: "preview_result \<Rightarrow> json" where
  "preview_to_json r = JObj
     [(''success'', JBool (pr_success r)), (''build_ms'', JNum (pr_build_ms r)), (''render_ms'', JNum (pr_render_ms r)),
      (''export_ms'', JNum (pr_export_ms r)), (''total_triangles'', JInt (pr_total_triangles r)),
      (''glb_export_path'', JStr (pr_glb_export_path r)),
      (''preview_images'', JArr (map JStr (pr_preview_image_paths r))),
      (''porcelain_model'', JObj
         [(''vertex_count'', JInt (int (length (md_vertices (pr_porcelain_model r))))),
          (''index_count'', JInt (int (length (md_indices (pr_porcelain_model r))))),
          (''has_texture'', JBool (md_has_texture (pr_porcelain_model r)))]),
      (''cracks'', JArr (map (\<lambda>c. JObj
         [(''crack_id'', JInt (cm_crack_id c)), (''original_depth_um'', JNum (cm_original_depth_um c)),
          (''repaired_depth_um'', JNum (cm_repaired_depth_um c)), (''repair_quality'', JNum (cm_repair_quality c)),
          (''vertex_count'', JInt (int (length (md_vertices (cm_geometry c))))),
          (''triangle_count'', JInt (triangles (cm_geometry c)))]) (pr_cracks r)))]"

subsection \<open>The module\<close>

text \<open>A job is a parsed request: porcelain id, geometry, cracks, repairs.\<close>

type_synonym job = "int \<times> json \<times> json \<times> json"

record vr_module =
  vr_pool :: bool
  vr_status :: module_status
  vr_cancelled :: bool
  vr_config :: preview_config
  vr_jobs :: "job list"

definition new_vr_module :: vr_module where
  "new_vr_module = \<lparr>vr_pool = True, vr_status = UNINITIALIZED, vr_cancelled = False,
     vr_config = default_preview, vr_jobs = []\<rparr>"

definition render_mode_of :: "int \<Rightarrow> render_mode" where
  "render_mode_of v = (let v = max 0 (min v 2) in if v = 0 then WIREFRAME else if v = 1 then SOLID else TEXTURED)"

definition platform_of :: "int \<Rightarrow> platform" where
  "platform_of v = (let v = max 0 (min v 2) in if v = 0 then OPENVR else if v = 1 then OPENXR else WEBXR)"

text \<open>The settings are read one by one; one that throws leaves those before it changed.\<close>

definition setting :: "(json \<Rightarrow> 'a result) \<Rightarrow> string \<Rightarrow> ('a \<Rightarrow> preview_config \<Rightarrow> preview_config) \<Rightarrow>
    json \<Rightarrow> cpp_error option \<times> preview_config \<Rightarrow> cpp_error option \<times> preview_config" where
  "setting get k assign j st =
     (case st of (Some e, c) \<Rightarrow> (Some e, c)
      | (None, c) \<Rightarrow>
          if json_contains j k then
            (case and_then (json_at j k) get of Inl e \<Rightarrow> (Some e, c) | Inr v \<Rightarrow> (None, assign v c))
          else (None, c))"

definition vr_initialize :: "json \<Rightarrow> vr_module \<Rightarrow> (bool \<times> vr_module) result" where
  "vr_initialize config m =
     (let (e, c) =
        (if json_contains config ''preview_config'' then
           (case json_at config ''preview_config'' of
              Inl e \<Rightarrow> (Some e, vr_config m)
            | Inr pc \<Rightarrow>
                setting json_get_int ''num_preview_angles'' (\<lambda>v c. c\<lparr>pv_num_preview_angles := v\<rparr>) pc
                (setting json_get_bool ''export_glb'' (\<lambda>v c. c\<lparr>pv_export_glb := v\<rparr>) pc
                (setting json_get_bool ''enable_repair_visualization'' (\<lambda>v c. c\<lparr>pv_enable_repair_visualization := v\<rparr>) pc
                (setting json_get_int ''render_resolution_height'' (\<lambda>v c. c\<lparr>pv_render_resolution_height := v\<rparr>) pc
                (setting json_get_int ''render_resolution_width'' (\<lambda>v c. c\<lparr>pv_render_resolution_width := v\<rparr>) pc
                (setting json_get_int ''platform'' (\<lambda>v c. c\<lparr>pv_platform := platform_of v\<rparr>) pc
                (setting json_get_int ''render_mode'' (\<lambda>v c. c\<lparr>pv_render_mode := render_mode_of v\<rparr>) pc
                  (None, vr_config m))))))))
         else (None, vr_config m));
          m = m\<lparr>vr_config := c\<rparr>
      in case e of
           None \<Rightarrow> Inr (True, m\<lparr>vr_status := IDLE\<rparr>)
         | Some (UB u) \<Rightarrow> Inl (UB u)
         | Some _ \<Rightarrow> Inr (False, m\<lparr>vr_status := ERROR\<rparr>))"

definition supports_platform :: "platform \<Rightarrow> bool" where
  "supports_platform p = (case p of OPENVR \<Rightarrow> True | OPENXR \<Rightarrow> True | WEBXR \<Rightarrow> True)"

definition member_or :: "json \<Rightarrow> string \<Rightarrow> json \<Rightarrow> json result" where
  "member_or j k dflt = (if json_contains j k then json_at j k else Inr dflt)"

definition read_job :: "json \<Rightarrow> job result" where
  "read_job input =
     and_then (json_value json_get_int input ''porcelain_id'' 0) (\<lambda>porcelain_id.
     and_then (member_or input ''porcelain_geometry'' JNull) (\<lambda>geo.
     and_then (member_or input ''cracks'' (JArr [])) (\<lambda>cracks.
     and_then (member_or input ''repairs'' (JArr [])) (\<lambda>repairs.
     and_then (member_or input ''material_overrides'' JNull) (\<lambda>_.
     Inr (porcelain_id, geo, cracks, repairs))))))"

text \<open>\<open>execute\<close> returns whether it accepted the request; the state is returned with an exception too.\<close>

definition vr_execute :: "json \<Rightarrow> vr_module \<Rightarrow> bool result \<times> vr_module" where
  "vr_execute input m =
     (if vr_status m = RUNNING then (Inr False, m)
      else
        (let m = m\<lparr>vr_cancelled := False, vr_status := RUNNING\<rparr> in
         case read_job input of
           Inl e \<Rightarrow> (Inl e, m)
         | Inr job \<Rightarrow>
             if vr_pool m then (Inr True, m\<lparr>vr_jobs := vr_jobs m @ [job]\<rparr>)
             else (Inl (UB ''null worker pool''), m)))"

text \<open>What a thrown exception leaves in a result: its \<open>what()\<close> text is the argument \<open>what\<close>.\<close>

definition run_job :: "bool \<Rightarrow> preview_config \<Rightarrow> (cpp_error \<Rightarrow> string) \<Rightarrow> double \<Rightarrow> double \<Rightarrow> job \<Rightarrow> module_result result" where
  "run_job pool cfg what build_ms render_ms job =
     (case job of (porcelain_id, geo, cracks, repairs) \<Rightarrow>
        (case build_preview_sync pool cfg build_ms render_ms porcelain_id geo cracks repairs of
           Inl (UB u) \<Rightarrow> Inl (UB u)
         | Inl e \<Rightarrow> Inr \<lparr>mo_success = False, mo_error_message = what e, mo_data = JNull\<rparr>
         | Inr r \<Rightarrow> Inr \<lparr>mo_success = pr_success r, mo_error_message = [], mo_data = preview_to_json r\<rparr>))"

definition run_async_impl :: "(cpp_error \<Rightarrow> string) \<Rightarrow> double \<Rightarrow> double \<Rightarrow> job \<Rightarrow> vr_module \<Rightarrow> (module_result \<times> vr_module) result" where
  "run_async_impl what build_ms render_ms job m =
     and_then (run_job (vr_pool m) (vr_config m) what build_ms render_ms job) (\<lambda>r.
     Inr (r, m\<lparr>vr_status := (if vr_cancelled m then IDLE else COMPLETED)\<rparr>))"

definition vr_execute_sync :: "(cpp_error \<Rightarrow> string) \<Rightarrow> double \<Rightarrow> double \<Rightarrow> json \<Rightarrow> vr_module \<Rightarrow>
    (bool \<times> module_result option \<times> vr_module) result" where
  "vr_execute_sync what build_ms render_ms input m =
     (if vr_status m = RUNNING then Inr (False, None, m)
      else
        (let m = m\<lparr>vr_status := RUNNING, vr_cancelled := False\<rparr>;
             failed = (\<lambda>e. Inr (False, Some \<lparr>mo_success = False, mo_error_message = what e, mo_data = JNull\<rparr>, m\<lparr>vr_status := ERROR\<rparr>))
         in case and_then (read_job input) (\<lambda>(porcelain_id, geo, cracks, repairs).
                 build_preview_sync (vr_pool m) (vr_config m) build_ms render_ms porcelain_id geo cracks repairs) of
              Inl (UB u) \<Rightarrow> Inl (UB u)
            | Inl e \<Rightarrow> failed e
            | Inr r \<Rightarrow> Inr (True, Some \<lparr>mo_success = pr_success r, mo_error_message = [], mo_data = preview_to_json r\<rparr>,
                m\<lparr>vr_status := COMPLETED\<rparr>)))"

definition vr_cancel :: "vr_module \<Rightarrow> bool \<times> vr_module" where
  "vr_cancel m = (True, m\<lparr>vr_cancelled := True, vr_status := IDLE\<rparr>)"

definition vr_shutdown :: "vr_module \<Rightarrow> bool \<times> vr_module" where
  "vr_shutdown m = (True, (snd (vr_cancel m))\<lparr>vr_pool := False, vr_status := UNINITIALIZED\<rparr>)"

subsection \<open>The meshes are well formed\<close>

definition indices_ok :: "model \<Rightarrow> bool" where
  "indices_ok m \<longleftrightarrow> list_all (\<lambda>i. i < length (md_vertices m)) (md_indices m)"

lemma length_triples: "(\<And>i. length (f i) = k) \<Longrightarrow> length (concat (map f [0..<n])) = k * n"
  using length_concat_const [of "[0..<n]" f k] by simp

lemma add_side_ok:
  "indices_ok (add_side n R h new_model) \<and> length (md_vertices (add_side n R h new_model)) = 2 * (n + 1) \<and>
   length (md_indices (add_side n R h new_model)) = 6 * n"
proof -
  have "length (concat (map (side_triangles n) [0..<n])) = 6 * n"
    by (rule length_triples) (simp add: side_triangles_def Let_def)
  moreover have "list_all (\<lambda>j. j < Suc (Suc (n + n))) (side_triangles n i)" if "i < n" for i
    using that by (simp add: side_triangles_def Let_def)
  ultimately show ?thesis
    by (auto simp: add_side_def new_model_def indices_ok_def list_all_iff)
qed

lemma add_cap_ok:
  assumes "indices_ok m"
  shows "indices_ok (add_cap n R h ring m) \<and>
    length (md_vertices (add_cap n R h ring m)) = length (md_vertices m) + n + 2 \<and>
    length (md_indices (add_cap n R h ring m)) = length (md_indices m) + 3 * n"
proof -
  let ?c = "length (md_vertices m)"
  have "length (concat (map (cap_triangle ring ?c) [0..<n])) = 3 * n"
    by (rule length_triples) (simp add: cap_triangle_def Let_def)
  moreover have "list_all (\<lambda>j. j < ?c + n + 2) (cap_triangle ring ?c i)" if "i < n" for i
    using that by (simp add: cap_triangle_def Let_def)
  ultimately show ?thesis
    using assms by (fastforce simp: add_cap_def indices_ok_def list_all_iff Let_def)
qed

lemma porcelain_mesh_ok:
  assumes "generate_porcelain_mesh t d res = Inr m"
  shows "indices_ok m \<and> length (md_vertices m) = 4 * nat (max 8 res) + 6 \<and> length (md_indices m) = 12 * nat (max 8 res)"
proof -
  let ?n = "nat (max 8 res)" and ?R = "d / D 2"
  have m: "m = add_cap ?n ?R t 1 (add_cap ?n ?R t 0 (add_side ?n ?R t new_model))"
    using assms by (auto simp: generate_porcelain_mesh_def Let_def split: if_splits)
  note side = add_side_ok [of ?n ?R t]
  note cap0 = add_cap_ok [OF conjunct1 [OF side], of ?n ?R t 0]
  note cap1 = add_cap_ok [OF conjunct1 [OF cap0], of ?n ?R t 1]
  show ?thesis
    unfolding m using side cap0 cap1 by auto
qed

text \<open>A closed, consistently oriented surface: every directed edge of a triangle occurs once, and so
  does its opposite.\<close>

fun directed_edges :: "nat list \<Rightarrow> (nat \<times> nat) list" where
  "directed_edges (a # b # c # rest) = [(a, b), (b, c), (c, a)] @ directed_edges rest"
| "directed_edges _ = []"

definition closed_surface :: "nat list \<Rightarrow> bool" where
  "closed_surface is \<longleftrightarrow> (let es = directed_edges is in
     length is mod 3 = 0 \<and> distinct es \<and> list_all (\<lambda>(a, b). a \<noteq> b \<and> List.member es (b, a)) es)"

lemma crack_surface_closed: "closed_surface crack_indices"
  by (simp add: closed_surface_def crack_indices_def Let_def)

lemma crack_mesh_ok:
  assumes "generate_crack_mesh vis c r = Inr cm"
  shows "indices_ok (cm_geometry cm) \<and> md_indices (cm_geometry cm) = crack_indices"
proof -
  obtain is_repaired sx sy ex ey depth width where
    "cm_geometry cm = new_model\<lparr>md_vertices := crack_vertices is_repaired sx sy ex ey depth width, md_indices := crack_indices\<rparr>"
    using assms unfolding generate_crack_mesh_def and_then_eq_Inr_iff Let_def by (elim exE conjE) (auto split: if_splits)
  moreover have "length (crack_vertices is_repaired sx sy ex ey depth width) = 8" for is_repaired sx sy ex ey depth width
    by (simp add: crack_vertices_def Let_def)
  ultimately show ?thesis
    by (simp add: indices_ok_def crack_indices_def)
qed

lemma map_result_all:
  "map_result f xs = Inr ys \<Longrightarrow> (\<And>x y. f x = Inr y \<Longrightarrow> P y) \<Longrightarrow> list_all P ys"
  by (induction xs arbitrary: ys) (auto simp: and_then_eq_Inr_iff)

text \<open>A preview that is built has one model per crack, in order, and one image per configured angle;
  all indices of all meshes are in range; the mesh of a crack is a closed, consistently oriented
  surface; and the reported number of triangles is 4 per segment of the porcelain (at least 8
  segments) and 12 per crack.\<close>

theorem preview_well_formed:
  assumes "build_preview_sync pool cfg build_ms render_ms porcelain_id geometry cracks repairs = Inr r"
    and "json_value json_get_int geometry ''mesh_resolution'' 32 = Inr res"
  shows "length (pr_cracks r) = json_size cracks \<and>
    length (pr_preview_image_paths r) = nat (pv_num_preview_angles cfg) \<and>
    indices_ok (pr_porcelain_model r) \<and>
    list_all (\<lambda>c. indices_ok (cm_geometry c) \<and> closed_surface (md_indices (cm_geometry c))) (pr_cracks r) \<and>
    pr_total_triangles r = 4 * max 8 res + 12 * int (json_size cracks)"
proof -
  obtain t d porcelain tasks crs images where
    mesh: "generate_porcelain_mesh t d res = Inr porcelain" and
    tasks: "map_result (crack_task pool cracks repairs) [0..<json_size cracks] = Inr tasks" and
    crs: "map_result (\<lambda>(c, r). generate_crack_mesh (pv_enable_repair_visualization cfg) c r) tasks = Inr crs" and
    images: "map_result (angle_image porcelain_id (pv_num_preview_angles cfg)) [0..pv_num_preview_angles cfg - 1] = Inr images" and
    r: "pr_porcelain_model r = porcelain" "pr_cracks r = crs" "pr_preview_image_paths r = images"
      "pr_total_triangles r = foldl (\<lambda>n c. n + triangles (cm_geometry c)) (triangles porcelain) crs"
    using assms unfolding build_preview_sync_def and_then_eq_Inr_iff by (elim exE conjE) auto
  have all: "list_all (\<lambda>c. indices_ok (cm_geometry c) \<and> md_indices (cm_geometry c) = crack_indices) crs"
    by (rule map_result_all [OF crs]) (auto dest: crack_mesh_ok split: prod.splits)
  have "foldl (\<lambda>n c. n + triangles (cm_geometry c)) k cs = k + 12 * int (length cs)"
    if "list_all (\<lambda>c. md_indices (cm_geometry c) = crack_indices) cs" for k cs
    using that by (induction cs arbitrary: k) (simp_all add: triangles_def crack_indices_def)
  from this [of crs "triangles porcelain"]
  have "foldl (\<lambda>n c. n + triangles (cm_geometry c)) (triangles porcelain) crs = triangles porcelain + 12 * int (length crs)"
    using all by (auto simp: list_all_iff)
  moreover have "length crs = json_size cracks"
    using map_result_length [OF tasks] map_result_length [OF crs] by simp
  moreover have "triangles porcelain = 4 * max 8 res"
    using porcelain_mesh_ok [OF mesh] by (simp add: triangles_def)
  ultimately show ?thesis
    using porcelain_mesh_ok [OF mesh] all map_result_length [OF images] crack_surface_closed
    by (auto simp: r list_all_iff)
qed

text \<open>The error paths of the module. A request that is not an object makes \<open>execute\<close> throw after it
  has set the status, so the module stays RUNNING and refuses every later request. A request
  without \<open>porcelain_geometry\<close> always fails (\<open>value\<close> is called on a null): \<open>execute_sync\<close> returns false
  with status ERROR, while the asynchronous path ends as COMPLETED with a failed result. After
  \<open>shutdown\<close>, accepting a request goes through the null pool.\<close>

theorem vr_error_paths:
  assumes "vr_status m \<noteq> RUNNING"
  shows "(case input of JObj kvs \<Rightarrow>
      (map_of kvs ''porcelain_id'' = None \<and> map_of kvs ''porcelain_geometry'' = None \<longrightarrow>
        (\<exists>r m'. vr_execute_sync what b t input m = Inr (False, Some r, m') \<and> \<not> mo_success r \<and> vr_status m' = ERROR) \<and>
        (if vr_pool m then
           (\<exists>job r m' m''. vr_execute input m = (Inr True, m') \<and> vr_jobs m' = vr_jobs m @ [job] \<and>
              run_async_impl what b t job m' = Inr (r, m'') \<and> \<not> mo_success r \<and> vr_status m'' = COMPLETED)
         else is_ub (fst (vr_execute input m))))
    | _ \<Rightarrow>
      (let m' = snd (vr_execute input m)
       in fst (vr_execute input m) = Inl Json_error \<and> vr_execute next_input m' = (Inr False, m')))"
proof (cases input)
  case (JObj kvs)
  have geo: "build_preview_sync pool cfg b t i JNull cracks repairs = Inl Json_error" for pool cfg i cracks repairs
    by (simp add: build_preview_sync_def json_value_def)
  show ?thesis
  proof (simp only: JObj json.case, intro impI)
    assume none: "map_of kvs ''porcelain_id'' = None \<and> map_of kvs ''porcelain_geometry'' = None"
    obtain cracks repairs where job: "read_job (JObj kvs) = Inr (0, JNull, cracks, repairs)"
      using none
      by (cases "map_of kvs ''cracks''"; cases "map_of kvs ''repairs''"; cases "map_of kvs ''material_overrides''")
        (auto simp: read_job_def json_value_def member_or_def json_contains_def json_at_def)
    show "(\<exists>r m'. vr_execute_sync what b t (JObj kvs) m = Inr (False, Some r, m') \<and> \<not> mo_success r \<and> vr_status m' = ERROR) \<and>
        (if vr_pool m then
           (\<exists>job r m' m''. vr_execute (JObj kvs) m = (Inr True, m') \<and> vr_jobs m' = vr_jobs m @ [job] \<and>
              run_async_impl what b t job m' = Inr (r, m'') \<and> \<not> mo_success r \<and> vr_status m'' = COMPLETED)
         else is_ub (fst (vr_execute (JObj kvs) m)))"
      using assms
      by (simp add: vr_execute_sync_def vr_execute_def job geo run_async_impl_def run_job_def Let_def)
  qed
qed (use assms in \<open>simp_all add: vr_execute_def read_job_def json_value_def Let_def\<close>)

subsection \<open>Previews in the pool\<close>

text \<open>
  A preview that runs as a task of the pool (\<open>run_async_impl\<close>, \<open>build_preview_async\<close>,
  \<open>build_batch_preview\<close>) submits one task per crack to the same pool and waits for them. The queue
  is first-in first-out; a worker is free, meshes a crack of some preview, or builds a preview
  (with the crack tasks it has still to submit and their number).
\<close>

datatype pool_job = Preview nat nat | Crack_mesh nat

datatype pool_worker = Free | Meshing nat | Building nat nat nat

record preview_pool =
  pp_queue :: "pool_job list"
  pp_workers :: "pool_worker list"
  pp_meshed :: "nat list"
  pp_finished :: "nat list"

definition start_batch :: "nat \<Rightarrow> (nat \<times> nat) list \<Rightarrow> preview_pool" where
  "start_batch n batch = \<lparr>pp_queue = map (\<lambda>(i, cracks). Preview i cracks) batch, pp_workers = replicate n Free,
     pp_meshed = [], pp_finished = []\<rparr>"

definition take_job :: "nat \<Rightarrow> preview_pool \<Rightarrow> preview_pool" where
  "take_job w s =
     (case pp_queue s of
        [] \<Rightarrow> s
      | job # rest \<Rightarrow> s\<lparr>pp_queue := rest, pp_workers := (pp_workers s)
          [w := (case job of Preview i cracks \<Rightarrow> Building i cracks cracks | Crack_mesh i \<Rightarrow> Meshing i)]\<rparr>)"

definition submit_crack :: "nat \<Rightarrow> nat \<Rightarrow> nat \<Rightarrow> nat \<Rightarrow> preview_pool \<Rightarrow> preview_pool" where
  "submit_crack w i k n s = s\<lparr>pp_queue := pp_queue s @ [Crack_mesh i], pp_workers := (pp_workers s)[w := Building i k n]\<rparr>"

inductive preview_step :: "preview_pool \<Rightarrow> preview_pool \<Rightarrow> bool" where
  take_job: "w < length (pp_workers s) \<Longrightarrow> pp_workers s ! w = Free \<Longrightarrow> pp_queue s \<noteq> [] \<Longrightarrow> preview_step s (take_job w s)"
| submit: "w < length (pp_workers s) \<Longrightarrow> pp_workers s ! w = Building i (Suc k) n \<Longrightarrow> preview_step s (submit_crack w i k n s)"
| meshed: "w < length (pp_workers s) \<Longrightarrow> pp_workers s ! w = Meshing i \<Longrightarrow>
    preview_step s (s\<lparr>pp_workers := (pp_workers s)[w := Free], pp_meshed := i # pp_meshed s\<rparr>)"
| got_all: "w < length (pp_workers s) \<Longrightarrow> pp_workers s ! w = Building i 0 n \<Longrightarrow> count_list (pp_meshed s) i = n \<Longrightarrow>
    preview_step s (s\<lparr>pp_workers := (pp_workers s)[w := Free], pp_finished := i # pp_finished s\<rparr>)"

inductive preview_reachable :: "preview_pool \<Rightarrow> preview_pool \<Rightarrow> bool" for s0 where
  init: "preview_reachable s0 s0"
| step: "preview_reachable s0 s \<Longrightarrow> preview_step s s' \<Longrightarrow> preview_reachable s0 s'"

definition is_preview :: "pool_job \<Rightarrow> bool" where
  "is_preview job = (case job of Preview _ n \<Rightarrow> 0 < n | Crack_mesh _ \<Rightarrow> False)"

definition worker_waits :: "pool_worker \<Rightarrow> bool" where
  "worker_waits w = (case w of Free \<Rightarrow> True | Meshing _ \<Rightarrow> False | Building _ _ n \<Rightarrow> 0 < n)"

text \<open>As many previews at the head of the queue as there are free workers; nobody meshes.\<close>

definition starved :: "preview_pool \<Rightarrow> bool" where
  "starved s \<longleftrightarrow> pp_meshed s = [] \<and> pp_finished s = [] \<and> list_all worker_waits (pp_workers s) \<and>
     count_list (pp_workers s) Free \<le> length (takeWhile is_preview (pp_queue s))"

lemma count_update:
  "i < length xs \<Longrightarrow> count_list (xs[i := x]) y + (if xs ! i = y then 1 else 0) = count_list xs y + (if x = y then 1 else 0)"
proof (induction xs arbitrary: i)
  case (Cons z zs)
  show ?case
  proof (cases i)
    case (Suc k)
    then show ?thesis
      using Cons.IH [of k] Cons.prems by (cases "x = y"; cases "zs ! k = y"; simp)
  qed simp
qed simp

lemma starved_step: "preview_step s s' \<Longrightarrow> starved s \<Longrightarrow> starved s'"
proof (induction rule: preview_step.induct)
  case (take_job w s)
  then have "0 < count_list (pp_workers s) Free"
    by (metis count_list_0_iff gr0I nth_mem)
  then have "takeWhile is_preview (pp_queue s) \<noteq> []"
    using take_job.prems unfolding starved_def by (intro notI) simp
  then obtain i n rest where q: "pp_queue s = Preview i n # rest" "0 < n"
    by (cases "pp_queue s") (auto simp: is_preview_def split: if_splits pool_job.splits)
  have "list_all worker_waits ((pp_workers s)[w := Building i n n])"
    using take_job.prems q(2) by (auto simp: starved_def list_all_iff worker_waits_def dest: set_update_subset_insert [THEN subsetD])
  then show ?case
    using take_job count_update [of w "pp_workers s" "Building i n n" Free] q
    by (auto simp: starved_def take_job_def is_preview_def)
next
  case (submit w s i k n)
  have wait: "worker_waits (Building i (Suc k) n)"
    using submit nth_mem [of w "pp_workers s"] by (auto simp: starved_def list_all_iff)
  then have "list_all worker_waits ((pp_workers s)[w := Building i k n])"
    using submit.prems by (auto simp: starved_def list_all_iff worker_waits_def dest: set_update_subset_insert [THEN subsetD])
  then show ?case
    using submit count_update [of w "pp_workers s" "Building i k n" Free]
    by (simp add: starved_def submit_crack_def takeWhile_tail is_preview_def)
next
  case (meshed w s i)
  then show ?case
    using nth_mem [of w "pp_workers s"] by (auto simp: starved_def list_all_iff worker_waits_def split: pool_worker.splits)
next
  case (got_all w s i n)
  then show ?case
    using nth_mem [of w "pp_workers s"] by (auto simp: starved_def list_all_iff worker_waits_def split: pool_worker.splits)
qed

lemma starved_reachable: "preview_reachable s0 s \<Longrightarrow> starved s0 \<Longrightarrow> starved s"
  by (induction rule: preview_reachable.induct) (auto intro: starved_step)



theorem vr_error_paths_witness:
  "fst (vr_execute (JInt 3) new_vr_module) = Inl Json_error \<and>
   fst (vr_execute (JObj []) (snd (vr_execute (JInt 3) new_vr_module))) = Inr False"
proof -
  have "vr_status new_vr_module \<noteq> RUNNING"
    by (simp add: new_vr_module_def)
  from vr_error_paths [OF this, where input = "JInt 3" and next_input = "JObj []"] show ?thesis
    by (simp add: Let_def)
qed

definition demo_cracks :: json where
  "demo_cracks = JArr [JObj [(''id'', JInt 5), (''max_depth'', JInt 300)]]"

theorem preview_well_formed_witness:
  "\<exists>r. build_preview_sync True (default_preview\<lparr>pv_num_preview_angles := 0\<rparr>) 0 0 4 (JObj [(''mesh_resolution'', JInt 3)])
      demo_cracks (JArr []) = Inr r \<and> pr_total_triangles r = 44 \<and> length (pr_cracks r) = 1"
proof -
  let ?geo = "JObj [(''mesh_resolution'', JInt 3)]"
  have res: "json_value json_get_int ?geo ''mesh_resolution'' 32 = Inr 3"
    by (simp add: json_value_def json_get_int_def wrap32_def)
  obtain r where r: "build_preview_sync True (default_preview\<lparr>pv_num_preview_angles := 0\<rparr>) 0 0 4 ?geo demo_cracks (JArr []) = Inr r"
    by (simp add: build_preview_sync_def json_value_def json_get_int_def wrap32_def generate_porcelain_mesh_def
        Let_def json_size_def demo_cracks_def crack_task_def json_nth_def generate_crack_mesh_def default_preview_def
        json_get_num_def)
  from preview_well_formed [OF r res] show ?thesis
    using r by (simp add: demo_cracks_def json_size_def)
qed

subsection \<open>The contract of the module\<close>

definition vr_start :: "json \<Rightarrow> vr_module \<Rightarrow> bool \<times> vr_module" where
  "vr_start input m = (case vr_execute input m of (Inr ok, m') \<Rightarrow> (ok, m') | (Inl _, m') \<Rightarrow> (False, m'))"

definition vr_finish :: "vr_module \<Rightarrow> vr_module" where
  "vr_finish m = m\<lparr>vr_status := (if vr_cancelled m then IDLE else COMPLETED)\<rparr>"

interpretation vr: analysis_module vr_status vr_cancelled vr_start "\<lambda>m. snd (vr_cancel m)" vr_finish
proof unfold_locales
  show "vr_status m = RUNNING \<Longrightarrow> vr_start i m = (False, m)" for i m
    by (simp add: vr_start_def vr_execute_def)
  show "vr_status (snd (vr_start i m)) = RUNNING \<and> \<not> vr_cancelled (snd (vr_start i m))"
    if "fst (vr_start i m)" for i m
    using that by (auto simp: vr_start_def vr_execute_def Let_def split: sum.splits if_splits)
qed (simp_all add: vr_cancel_def vr_finish_def)

end
