(* ===== verification/Relative_Errors.thy ===== *)
theory Relative_Errors
  imports Enclosures
begin

section \<open>Relative errors of double expressions\<close>

text \<open>
  A second calculus for expressions whose operands are correlated, where intervals are too wide:
  \<open>near n x r\<close> says that the double \<open>x\<close> is within \<open>n\<close> roundings of the positive real \<open>r\<close>. Products
  and quotients only add up the numbers of roundings, as long as no result leaves the range of
  the normal numbers.
\<close>

definition slack :: real where
  "slack = 1 + 1 / 2 ^ 50"

definition near :: "nat \<Rightarrow> double \<Rightarrow> real \<Rightarrow> bool" where
  "near n x r \<longleftrightarrow> isfinite x \<and> 0 < r \<and> r / slack ^ n \<le> val x \<and> val x \<le> r * slack ^ n"

lemma slack_bounds [simp]: "1 < slack" "0 < slack" "1 \<le> slack ^ n" "0 < slack ^ n" "0 \<le> slack ^ n"
  by (simp_all add: slack_def)

lemma nearE:
  assumes "near n x r"
  obtains a where "x = D a" and "exact a" and "0 < r" and "0 < a" and "r / slack ^ n \<le> a" and "a \<le> r * slack ^ n"
proof -
  obtain a where a: "x = D a" "exact a" "0 < r" "r / slack ^ n \<le> a" "a \<le> r * slack ^ n"
    using assms by (cases x) (auto simp: near_def)
  moreover have "0 < r / slack ^ n"
    using a(3) by simp
  ultimately have "0 < a"
    by linarith
  then show ?thesis
    using a by (intro that)
qed

lemma near_mono:
  assumes "near n x r" and "n \<le> m"
  shows "near m x r"
proof -
  have le: "slack ^ n \<le> slack ^ m"
    using assms(2) by (intro power_increasing) (simp_all add: less_imp_le)
  have r: "0 < r"
    using assms(1) by (simp add: near_def)
  have "r / slack ^ m \<le> r / slack ^ n"
    using le r by (intro divide_left_mono) simp_all
  moreover have "r * slack ^ n \<le> r * slack ^ m"
    using le r by (intro mult_left_mono) simp_all
  ultimately show ?thesis
    using assms(1) unfolding near_def by linarith
qed

lemma rne_near: "\<bar>of_int (rne y) - y\<bar> \<le> 1 / 2"
proof (cases "of_int \<lfloor>y + 1/2\<rfloor> = y + 1/2 \<and> odd \<lfloor>y + 1/2\<rfloor>")
  case True
  then have "rne y = \<lfloor>y + 1/2\<rfloor> - 1"
    by (simp add: rne_def)
  moreover have "of_int \<lfloor>y + 1/2\<rfloor> - y = 1 / 2"
    using conjunct1 [OF True] by linarith
  ultimately show ?thesis
    by simp
next
  case False
  then have "rne y = \<lfloor>y + 1/2\<rfloor>"
    by (auto simp: rne_def Let_def)
  moreover have "of_int \<lfloor>y + 1/2\<rfloor> - y \<le> 1 / 2 \<and> y - of_int \<lfloor>y + 1/2\<rfloor> \<le> 1 / 2"
    by linarith
  ultimately show ?thesis
    by (simp only: abs_le_iff minus_diff_eq)
qed

lemma normal_ulp: "- 1022 < k + 1 \<Longrightarrow> max (k - 52) (- 1074) = k - (52 :: int)"
  by simp

lemma round_pos_error:
  assumes "2 powi (- 1022) \<le> x"
  shows "\<bar>round_pos x - x\<bar> \<le> x / 2 ^ 53"
proof -
  have x: "0 < x"
    using assms powi_pos [of "- 1022"] by linarith
  note b = floor_log2_bounds [OF x]
  have "2 powi (- 1022) < (2 :: real) powi (\<lfloor>log 2 x\<rfloor> + 1)"
    using assms b(2) by linarith
  then have "- 1022 < \<lfloor>log 2 x\<rfloor> + 1"
    by (rule powi_less_iff [THEN iffD1])
  then have e: "ulp_exp x = \<lfloor>log 2 x\<rfloor> - 52"
    using normal_ulp unfolding ulp_exp_def by blast
  have "\<bar>round_pos x - x\<bar> = \<bar>of_int (rne (x / 2 powi ulp_exp x)) - x / 2 powi ulp_exp x\<bar> * 2 powi ulp_exp x"
  proof -
    have "round_pos x - x = (of_int (rne (x / 2 powi ulp_exp x)) - x / 2 powi ulp_exp x) * 2 powi ulp_exp x"
      by (simp add: round_pos_def left_diff_distrib)
    then show ?thesis
      by (simp add: abs_mult abs_of_pos [OF powi_pos])
  qed
  also have "\<dots> \<le> 1 / 2 * 2 powi ulp_exp x"
    by (rule mult_right_mono [OF rne_near]) (simp add: less_imp_le)
  also have "\<dots> = 2 powi \<lfloor>log 2 x\<rfloor> / 2 ^ 53"
    by (simp add: e power_int_diff)
  also have "\<dots> \<le> x / 2 ^ 53"
    using b(1) by (simp add: divide_right_mono)
  finally show ?thesis .
qed

text \<open>The range in which the lemmas work leaves room for the errors.\<close>

definition normal :: "real \<Rightarrow> bool" where
  "normal r \<longleftrightarrow> 1 / 2 ^ 400 \<le> r \<and> r \<le> 2 ^ 400"

lemma slack_power: "n \<le> 100 \<Longrightarrow> slack ^ n \<le> 2"
proof -
  assume "n \<le> 100"
  then have "slack ^ n \<le> slack ^ 100"
    by (intro power_increasing) (simp_all add: less_imp_le)
  also have "\<dots> \<le> exp (1 / 2 ^ 50) ^ 100"
    using exp_ge_add_one_self [of "1 / 2 ^ 50"] by (intro power_mono) (simp_all only: slack_def, simp)
  also have "\<dots> = exp (100 / 2 ^ 50)"
    by (simp flip: exp_of_nat_mult)
  also have "\<dots> \<le> 2"
    using exp_bound [of "100 / 2 ^ 50"] by (simp add: power2_eq_square)
  finally show ?thesis .
qed

lemma near_round:
  assumes s: "s / slack ^ n \<le> a" "a \<le> s * slack ^ n" and "normal s" and "n \<le> 99"
  shows "near (Suc n) (D a) s"
proof -
  have two: "slack ^ n \<le> 2" "slack ^ Suc n \<le> 2"
    using assms(4) by (simp_all add: slack_power del: power_Suc)
  have pos: "0 < s"
    using assms(3) less_le_trans [of 0 "1 / 2 ^ 400" s] by (simp add: normal_def)
  have "s / 2 \<le> s / slack ^ n" "s * slack ^ n \<le> s * 2"
    using two(1) pos divide_left_mono [of "slack ^ n" 2 s] mult_left_mono [of "slack ^ n" 2 s]
    by (simp_all add: mult.commute)
  then have "s / 2 \<le> a" "a \<le> s * 2"
    using s by linarith+
  then have a: "1 / 2 ^ 401 \<le> a" "a \<le> 2 ^ 401"
    using assms(3) by (simp_all add: normal_def)
  have a0: "0 < a"
    by (rule less_le_trans [OF _ a(1)]) simp
  have "2 powi (- 1022) \<le> (1 :: real) / 2 ^ 401"
    by (simp add: power_int_minus divide_simps)
  then have err: "\<bar>round64 a - a\<bar> \<le> a / 2 ^ 53"
    using round_pos_error [of a] a a0 by (simp add: round64_def)
  have q: "a / slack \<le> a - a / 2 ^ 53" "a + a / 2 ^ 53 \<le> a * slack"
    using a0 by (simp_all add: slack_def field_simps)
  have lo: "s / slack ^ Suc n \<le> round64 a"
  proof -
    have "s / slack ^ Suc n = s / slack ^ n / slack"
      by simp
    also have "\<dots> \<le> a / slack"
      using s(1) by (intro divide_right_mono) (simp_all add: less_imp_le)
    finally show ?thesis
      using err q by linarith
  qed
  have hi: "round64 a \<le> s * slack ^ Suc n"
  proof -
    have "a * slack \<le> s * slack ^ n * slack"
      using s(2) by (intro mult_right_mono) (simp_all add: less_imp_le)
    then have "a * slack \<le> s * slack ^ Suc n"
      by (simp add: mult_ac)
    then show ?thesis
      using err q by linarith
  qed
  have "round64 a \<le> a + a / 2 ^ 53" "0 \<le> round64 a"
    using err round64_nonneg [of a] a0 by linarith+
  moreover have "a + a / 2 ^ 53 < 2 ^ 1024"
    using a(2) by simp
  ultimately have "\<bar>round64 a\<bar> < 2 ^ 1024"
    by linarith
  then have e: "exact (round64 a)" and D: "D a = D (round64 a)"
    using D_cases [of a] by (auto simp: exact_def)
  show ?thesis
    unfolding near_def D using e lo hi pos by simp
qed

lemma near_exact: "exact r \<Longrightarrow> 0 < r \<Longrightarrow> near 0 (D r) r"
  by (simp add: near_def)

lemma near_D: "normal r \<Longrightarrow> near 1 (D r) r"
  using near_round [of r 0 r] by simp

lemma near_times:
  assumes x: "near n x r" and y: "near m y s" and "normal (r * s)" and "n + m \<le> 99"
  shows "near (Suc (n + m)) (x * y) (r * s)"
proof -
  obtain a where a: "x = D a" "exact a" "0 < r" "0 < a" "r / slack ^ n \<le> a" "a \<le> r * slack ^ n"
    using x by (rule nearE)
  obtain b where b: "y = D b" "exact b" "0 < s" "0 < b" "s / slack ^ m \<le> b" "b \<le> s * slack ^ m"
    using y by (rule nearE)
  have "r / slack ^ n * (s / slack ^ m) \<le> a * b"
    using a b by (intro mult_mono) simp_all
  moreover have "a * b \<le> r * slack ^ n * (s * slack ^ m)"
    using a b by (intro mult_mono) simp_all
  ultimately show ?thesis
    unfolding a(1) b(1) D_times [OF a(2) b(2)]
    using assms(3,4) by (intro near_round) (simp_all add: power_add mult.assoc mult.left_commute)
qed

lemma near_divide:
  assumes x: "near n x r" and y: "near m y s" and "normal (r / s)" and "n + m \<le> 99"
  shows "near (Suc (n + m)) (x / y) (r / s)"
proof -
  obtain a where a: "x = D a" "exact a" "0 < r" "0 < a" "r / slack ^ n \<le> a" "a \<le> r * slack ^ n"
    using x by (rule nearE)
  obtain b where b: "y = D b" "exact b" "0 < s" "0 < b" "s / slack ^ m \<le> b" "b \<le> s * slack ^ m"
    using y by (rule nearE)
  have "r / slack ^ n / (s * slack ^ m) \<le> a / b"
    using a b by (intro frac_le) simp_all
  moreover have "a / b \<le> r * slack ^ n / (s / slack ^ m)"
    using a b by (intro frac_le) simp_all
  ultimately show ?thesis
    unfolding a(1) b(1) D_divide [OF a(2) b(2) less_imp_neq [OF b(4), symmetric]]
    using assms(3,4) by (intro near_round) (simp_all add: power_add mult.assoc mult.left_commute)
qed

lemma slack_power_sharp: "n \<le> 100 \<Longrightarrow> slack ^ n < 1 + 1 / 10 ^ 9"
proof -
  assume "n \<le> 100"
  then have "slack ^ n \<le> slack ^ 100"
    by (intro power_increasing) (simp_all add: less_imp_le)
  also have "\<dots> \<le> exp (1 / 2 ^ 50) ^ 100"
    using exp_ge_add_one_self [of "1 / 2 ^ 50"] by (intro power_mono) (simp_all only: slack_def, simp)
  also have "\<dots> = exp (100 / 2 ^ 50)"
    by (simp flip: exp_of_nat_mult)
  also have "\<dots> < 1 + 1 / 10 ^ 9"
    using exp_bound [of "100 / 2 ^ 50"] by (simp add: power2_eq_square)
  finally show ?thesis .
qed

lemma near_less:
  assumes x: "near n x r" and y: "near m y s" and "r * (1 + 1 / 10 ^ 9) \<le> s" and "n + m \<le> 100"
  shows "x < y"
proof -
  obtain a where a: "x = D a" "exact a" "0 < r" "0 < a" "r / slack ^ n \<le> a" "a \<le> r * slack ^ n"
    using x by (rule nearE)
  obtain b where b: "y = D b" "exact b" "0 < s" "0 < b" "s / slack ^ m \<le> b" "b \<le> s * slack ^ m"
    using y by (rule nearE)
  have "r * slack ^ (n + m) < r * (1 + 1 / 10 ^ 9)"
    using slack_power_sharp [OF assms(4)] a(3) by (rule mult_strict_left_mono)
  then have "r * slack ^ n * slack ^ m < s"
    using assms(3) by (simp add: power_add mult.assoc)
  then have "r * slack ^ n < s / slack ^ m"
    by (simp add: pos_less_divide_eq)
  then show ?thesis
    using a b by simp
qed

subsection \<open>Numbers of roundings and magnitudes together\<close>

text \<open>\<open>approx n k x r\<close> adds that \<open>r\<close> lies between \<open>10 ^ -k\<close> and \<open>10 ^ k\<close>, which is all a product or a
  quotient needs to stay in range.\<close>

definition approx :: "nat \<Rightarrow> nat \<Rightarrow> double \<Rightarrow> real \<Rightarrow> bool" where
  "approx n k x r \<longleftrightarrow> near n x r \<and> 1 / 10 ^ k \<le> r \<and> r \<le> 10 ^ k"

lemma approx_normal: "1 / 10 ^ k \<le> r \<Longrightarrow> r \<le> 10 ^ k \<Longrightarrow> k \<le> 120 \<Longrightarrow> normal r"
proof -
  assume r: "1 / 10 ^ k \<le> r" "r \<le> 10 ^ k" and "k \<le> 120"
  then have "(10 :: real) ^ k \<le> 10 ^ 120"
    by (intro power_increasing) simp_all
  also have "\<dots> \<le> 2 ^ 400"
    by simp
  finally have k: "(10 :: real) ^ k \<le> 2 ^ 400" .
  then have "1 / 2 ^ 400 \<le> 1 / (10 :: real) ^ k"
    by (intro divide_left_mono) simp_all
  then show ?thesis
    using r k unfolding normal_def by linarith
qed

lemma approx_D: "1 / 10 ^ k \<le> r \<Longrightarrow> r \<le> 10 ^ k \<Longrightarrow> k \<le> 120 \<Longrightarrow> approx 1 k (D r) r"
  unfolding approx_def using near_D approx_normal by blast

lemma approx_val: "isfinite x \<Longrightarrow> 1 / 10 ^ k \<le> val x \<Longrightarrow> val x \<le> 10 ^ k \<Longrightarrow> approx 0 k x (val x)"
  using less_le_trans [of 0 "1 / 10 ^ k" "val x"] by (simp add: approx_def near_def)

lemma approx_times:
  assumes x: "approx n k x r" and y: "approx m l y s" and "n + m \<le> 99" and "k + l \<le> 120"
  shows "approx (Suc (n + m)) (k + l) (x * y) (r * s)"
proof -
  have pos: "0 < r" "0 < s"
    using x y by (auto simp: approx_def near_def)
  have lo: "1 / 10 ^ (k + l) \<le> r * s"
    using mult_mono [of "1 / 10 ^ k" r "1 / 10 ^ l" s] x y pos by (simp add: approx_def power_add)
  have hi: "r * s \<le> 10 ^ (k + l)"
    using mult_mono [of r "10 ^ k" s "10 ^ l"] x y pos by (simp add: approx_def power_add)
  show ?thesis
    using x y near_times approx_normal [OF lo hi assms(4)] assms(3) lo hi by (simp add: approx_def)
qed

lemma approx_divide:
  assumes x: "approx n k x r" and y: "approx m l y s" and "n + m \<le> 99" and "k + l \<le> 120"
  shows "approx (Suc (n + m)) (k + l) (x / y) (r / s)"
proof -
  have pos: "0 < r" "0 < s"
    using x y by (auto simp: approx_def near_def)
  have lo: "1 / 10 ^ (k + l) \<le> r / s"
    using frac_le [of r "1 / 10 ^ k" s "10 ^ l"] x y pos by (simp add: approx_def power_add)
  have hi: "r / s \<le> 10 ^ (k + l)"
    using frac_le [of "10 ^ k" r "1 / 10 ^ l" s] x y pos by (simp add: approx_def power_add)
  show ?thesis
    using x y near_divide approx_normal [OF lo hi assms(4)] assms(3) lo hi by (simp add: approx_def)
qed

lemma approx_less:
  "approx n k x r \<Longrightarrow> approx m l y s \<Longrightarrow> r * (1 + 1 / 10 ^ 9) \<le> s \<Longrightarrow> n + m \<le> 100 \<Longrightarrow> x < y"
  unfolding approx_def by (blast intro: near_less)

lemma approx_pos: "approx n k x r \<Longrightarrow> 0 < x" "approx n k x r \<Longrightarrow> isfinite x" "approx n k x r \<Longrightarrow> 0 < r"
  by (auto simp: approx_def elim!: nearE)

lemma approx_weaken: "approx n k x r \<Longrightarrow> n \<le> n' \<Longrightarrow> k \<le> k' \<Longrightarrow> approx n' k' x r"
proof -
  assume a: "approx n k x r" and le: "n \<le> n'" "k \<le> k'"
  have "(10 :: real) ^ k \<le> 10 ^ k'"
    using le(2) by (intro power_increasing) simp_all
  then have "1 / (10 :: real) ^ k' \<le> 1 / 10 ^ k"
    by (intro divide_left_mono) simp_all
  then show ?thesis
    using a near_mono [OF _ le(1)] \<open>10 ^ k \<le> 10 ^ k'\<close> unfolding approx_def
    by (auto intro: order_trans)
qed

end
