(* ===== verification/Washburn_Model.thy ===== *)
theory Washburn_Model
  imports Data_Model Relative_Errors
begin

section \<open>Penetration of a crack by a repair material (algorithms/washburn_model.cpp)\<close>

text \<open>
  The Lucas-Washburn model: depth after a time, time to a depth and rate at a depth, with the
  corrections for rough walls, shear thinning and gravity, and the prediction built from them. The
  two integration loops are partial functions; the second half shows that they always end. The
  three functions share their first lines, which are \<open>effective_params\<close>, and the lines that
  correct a speed for shear thinning, which are \<open>thinned_speed\<close>.
\<close>

subsection \<open>Configuration\<close>

record penetration_config =
  wb_surface_tension_n_m :: double
  wb_contact_angle_deg :: double
  wb_viscosity_pa_s :: double
  wb_gravity_m_s2 :: double
  wb_tortuosity_factor :: double
  wb_surface_roughness_factor :: double
  wb_time_series_points :: int
  wb_wall_roughness_ra_um :: double
  wb_wenzel_correction :: bool
  wb_roughness_tortuosity_coeff :: double
  wb_roughness_radius_coeff :: double
  wb_min_roughness_factor :: double
  wb_max_roughness_factor :: double

definition default_penetration_config :: penetration_config where
  "default_penetration_config =
     \<lparr>wb_surface_tension_n_m = D (72/1000), wb_contact_angle_deg = D 30, wb_viscosity_pa_s = D 1,
      wb_gravity_m_s2 = D (981/100), wb_tortuosity_factor = D (15/10),
      wb_surface_roughness_factor = D (12/10), wb_time_series_points = 100,
      wb_wall_roughness_ra_um = 0, wb_wenzel_correction = False,
      wb_roughness_tortuosity_coeff = D (3/10), wb_roughness_radius_coeff = D (15/100),
      wb_min_roughness_factor = D (1/10), wb_max_roughness_factor = D 3\<rparr>"

definition set_wall_roughness :: "double \<Rightarrow> penetration_config \<Rightarrow> penetration_config" where
  "set_wall_roughness ra_um cfg = (if 0 < ra_um then cfg\<lparr>wb_wall_roughness_ra_um := ra_um\<rparr> else cfg)"

subsection \<open>Corrections\<close>

definition get_roughness_factor :: "penetration_config \<Rightarrow> double \<Rightarrow> double" where
  "get_roughness_factor cfg ra_um =
     (if ra_um \<le> 0 then D 1
      else let lambda = D 5 in
        if lambda < D (1 / 10 ^ 12) then D 1
        else std_max (wb_min_roughness_factor cfg)
          (std_min (wb_max_roughness_factor cfg)
            (D 1 + (D 2 * M_PI * ra_um * ra_um) / (lambda * lambda))))"

definition wenzel_contact_angle :: "double \<Rightarrow> double \<Rightarrow> double" where
  "wenzel_contact_angle theta_0_deg r_s =
     (if r_s \<le> 0 then theta_0_deg
      else if deq r_s (D 1) then theta_0_deg
      else let cos_theta_0 = dcos (theta_0_deg * M_PI / D 180); cos_theta_w = r_s * cos_theta_0;
          degrees = (\<lambda>c. dacos c * D 180 / M_PI) in
        if D 1 < \<bar>cos_theta_w\<bar> then
          (if 0 < cos_theta_0 then degrees (D (999/1000))
           else if cos_theta_0 < 0 then degrees (D (- 999/1000))
           else theta_0_deg)
        else degrees cos_theta_w)"

definition roughness_tortuosity :: "penetration_config \<Rightarrow> double \<Rightarrow> double" where
  "roughness_tortuosity cfg ra_um =
     (if ra_um \<le> 0 then wb_tortuosity_factor cfg
      else wb_tortuosity_factor cfg * (D 1 + wb_roughness_tortuosity_coeff cfg * ra_um))"

definition roughness_effective_radius :: "penetration_config \<Rightarrow> double \<Rightarrow> double \<Rightarrow> double" where
  "roughness_effective_radius cfg base_r ra_um =
     (if base_r \<le> 0 then 0
      else if ra_um \<le> 0 then base_r
      else base_r * dexp (- wb_roughness_radius_coeff cfg * ra_um))"

definition dynamic_viscosity_correction :: "double \<Rightarrow> double \<Rightarrow> double" where
  "dynamic_viscosity_correction viscosity shear_rate =
     (if viscosity \<le> 0 then 0
      else if shear_rate \<le> 0 then viscosity
      else let ratio = shear_rate / D 1; factor = dpow (D 1 + dpow ratio (D (1/2))) (- D (3/10))
        in viscosity * factor)"

definition crack_radius :: "penetration_config \<Rightarrow> double \<Rightarrow> double" where
  "crack_radius cfg crack_width_um =
     crack_width_um * D (1 / 10 ^ 6) / D 4 / wb_surface_roughness_factor cfg"

definition capillary_pressure :: "penetration_config \<Rightarrow> double \<Rightarrow> double \<Rightarrow> double \<Rightarrow> double" where
  "capillary_pressure cfg crack_width_um surface_tension_n_m contact_angle_deg =
     (let r = crack_radius cfg crack_width_um; theta_rad = contact_angle_deg * M_PI / D 180 in
      if r < D (1 / 10 ^ 12) then 0 else (D 2 * surface_tension_n_m * dcos theta_rad) / r)"

definition effective_params :: "penetration_config \<Rightarrow> double \<Rightarrow> double \<Rightarrow> double \<times> double \<times> double" where
  "effective_params cfg crack_width_um contact_angle_deg =
     (let r_base = crack_radius cfg crack_width_um; ra_um = wb_wall_roughness_ra_um cfg in
      if wb_wenzel_correction cfg \<and> 0 < ra_um then
        (wenzel_contact_angle contact_angle_deg (get_roughness_factor cfg ra_um),
         roughness_tortuosity cfg ra_um, roughness_effective_radius cfg r_base ra_um)
      else (contact_angle_deg, wb_tortuosity_factor cfg, r_base))"

definition thinned_speed :: "double \<Rightarrow> double \<Rightarrow> double \<Rightarrow> double" where
  "thinned_speed viscosity_pa_s r_eff dh_dt_ideal =
     (let shear_rate = dh_dt_ideal / r_eff;
          eta_eff = dynamic_viscosity_correction viscosity_pa_s shear_rate;
          eta_ratio = eta_eff / viscosity_pa_s
      in dh_dt_ideal / eta_ratio)"

definition rho :: double where
  "rho = D 1000"

subsection \<open>Depth after a time\<close>

partial_function (option) depth_loop ::
  "double \<Rightarrow> double \<Rightarrow> double \<Rightarrow> double \<Rightarrow> double \<Rightarrow> double \<Rightarrow> double \<Rightarrow> double \<Rightarrow> double \<Rightarrow> double \<Rightarrow> double option"
  where
  "depth_loop capillary_term viscosity_pa_s tau_eff r_eff g h_eq time_s dt h t =
     (if t < time_s \<and> h < h_eq * D (999/1000) then
        let dh_dt_numerator = capillary_term - rho * g * r_eff * r_eff * h;
            dh_dt_denominator = D 4 * viscosity_pa_s * tau_eff * h in
        if dh_dt_denominator < D (1 / 10 ^ 20) then Some h
        else if dh_dt_numerator \<le> 0 then Some h
        else
          let dh = thinned_speed viscosity_pa_s r_eff (dh_dt_numerator / dh_dt_denominator) * dt in
          if dh < D (1 / 10 ^ 15) then Some (h + dh)
          else depth_loop capillary_term viscosity_pa_s tau_eff r_eff g h_eq time_s dt (h + dh) (t + dt)
      else Some h)"

definition penetration_depth_at_time ::
  "penetration_config \<Rightarrow> double \<Rightarrow> double \<Rightarrow> double \<Rightarrow> double \<Rightarrow> double \<Rightarrow> double option" where
  "penetration_depth_at_time cfg time_s crack_width_um viscosity_pa_s surface_tension_n_m contact_angle_deg =
     (if time_s \<le> 0 then Some 0
      else if crack_width_um \<le> 0 then Some 0
      else if viscosity_pa_s \<le> 0 then Some 0
      else if surface_tension_n_m \<le> 0 then Some 0
      else let (theta_eff_deg, tau_eff, r_eff) = effective_params cfg crack_width_um contact_angle_deg in
      if r_eff < D (1 / 10 ^ 12) then Some 0
      else let cos_theta = dcos (theta_eff_deg * M_PI / D 180);
          capillary_term = surface_tension_n_m * cos_theta * r_eff;
          viscous_term = D 2 * viscosity_pa_s * tau_eff in
      if viscous_term < D (1 / 10 ^ 20) then Some 0
      else let h_ideal_sq = (capillary_term * time_s) / viscous_term in
      if h_ideal_sq \<le> 0 then Some 0
      else let h_ideal_m = dsqrt h_ideal_sq in
      if h_ideal_m < D (1 / 10 ^ 4) then Some (h_ideal_m * D (10 ^ 6))
      else let g = wb_gravity_m_s2 cfg;
          h_eq = (D 2 * surface_tension_n_m * cos_theta) / (rho * g * r_eff) in
      if h_eq < D (1 / 10 ^ 6) then Some (h_ideal_m * D (10 ^ 6))
      else map_option (\<lambda>h. h * D (10 ^ 6))
        (depth_loop capillary_term viscosity_pa_s tau_eff r_eff g h_eq time_s (time_s / D 200) h_ideal_m 0))"

subsection \<open>Time to reach a depth\<close>

partial_function (option) time_loop ::
  "double \<Rightarrow> double \<Rightarrow> double \<Rightarrow> double \<Rightarrow> double \<Rightarrow> double \<Rightarrow> double \<Rightarrow> double \<Rightarrow> double \<Rightarrow> double option"
  where
  "time_loop capillary viscosity_pa_s tau_eff r_eff g target_depth_m dt h t =
     (if h < target_depth_m \<and> t < D (10 ^ 8) then
        let dh_dt_numerator = capillary - rho * g * r_eff * r_eff * h;
            dh_dt_denominator = D 4 * viscosity_pa_s * tau_eff * std_max h (D (1 / 10 ^ 9)) in
        if dh_dt_denominator < D (1 / 10 ^ 20) then Some t
        else if dh_dt_numerator \<le> 0 then Some t
        else
          let dh_dt = thinned_speed viscosity_pa_s r_eff (dh_dt_numerator / dh_dt_denominator);
              dh = dh_dt * dt in
          if target_depth_m < h + dh then Some (t + (target_depth_m - h) / dh_dt)
          else if dh < D (1 / 10 ^ 15) then Some (t + dt)
          else time_loop capillary viscosity_pa_s tau_eff r_eff g target_depth_m dt (h + dh) (t + dt)
      else Some t)"

definition unreachable_time :: double where
  "unreachable_time = D (10 ^ 20)"

definition time_to_reach_depth ::
  "penetration_config \<Rightarrow> double \<Rightarrow> double \<Rightarrow> double \<Rightarrow> double \<Rightarrow> double \<Rightarrow> double option" where
  "time_to_reach_depth cfg target_depth_um crack_width_um viscosity_pa_s surface_tension_n_m contact_angle_deg =
     (if target_depth_um \<le> 0 then Some 0
      else if crack_width_um \<le> 0 then Some unreachable_time
      else if viscosity_pa_s \<le> 0 then Some unreachable_time
      else if surface_tension_n_m \<le> 0 then Some unreachable_time
      else let (theta_eff_deg, tau_eff, r_eff) = effective_params cfg crack_width_um contact_angle_deg in
      if r_eff < D (1 / 10 ^ 12) then Some unreachable_time
      else let target_depth_m = target_depth_um * D (1 / 10 ^ 6);
          cos_theta = dcos (theta_eff_deg * M_PI / D 180);
          numerator = D 2 * viscosity_pa_s * tau_eff * target_depth_m * target_depth_m;
          denominator = surface_tension_n_m * cos_theta * r_eff in
      if denominator < D (1 / 10 ^ 20) then Some unreachable_time
      else let t_ideal = numerator / denominator in
      if target_depth_m < D (1 / 10 ^ 4) then Some t_ideal
      else let g = wb_gravity_m_s2 cfg;
          h_eq = (D 2 * surface_tension_n_m * cos_theta) / (rho * g * r_eff) in
      if h_eq * D (99/100) \<le> target_depth_m then Some unreachable_time
      else let dt = t_ideal / D 500; dt = (if dt < D (1 / 10 ^ 6) then D (1 / 10 ^ 6) else dt) in
        time_loop (surface_tension_n_m * cos_theta * r_eff) viscosity_pa_s tau_eff r_eff g target_depth_m dt 0 0)"

subsection \<open>Rate at a depth\<close>

definition penetration_rate ::
  "penetration_config \<Rightarrow> double \<Rightarrow> double \<Rightarrow> double \<Rightarrow> double \<Rightarrow> double \<Rightarrow> double" where
  "penetration_rate cfg depth_um crack_width_um viscosity_pa_s surface_tension_n_m contact_angle_deg =
     (if depth_um \<le> 0 then 0
      else if crack_width_um \<le> 0 then 0
      else if viscosity_pa_s \<le> 0 then 0
      else if surface_tension_n_m \<le> 0 then 0
      else let (theta_eff_deg, tau_eff, r_eff) = effective_params cfg crack_width_um contact_angle_deg in
      if r_eff < D (1 / 10 ^ 12) then 0
      else let depth_m = depth_um * D (1 / 10 ^ 6);
          cos_theta = dcos (theta_eff_deg * M_PI / D 180);
          numerator = surface_tension_n_m * cos_theta * r_eff;
          denominator = D 4 * viscosity_pa_s * tau_eff * depth_m in
      if denominator < D (1 / 10 ^ 20) then 0
      else let dh_dt_ideal = thinned_speed viscosity_pa_s r_eff (numerator / denominator) in
      if depth_m < D (1 / 10 ^ 4) then dh_dt_ideal * D (10 ^ 6)
      else let g = wb_gravity_m_s2 cfg;
          gravity_term = (rho * g * r_eff * r_eff) / (D 4 * viscosity_pa_s * tau_eff)
        in std_max 0 (dh_dt_ideal - gravity_term) * D (10 ^ 6))"

subsection \<open>The prediction\<close>

definition wb_result_to_json :: "penetration_config \<Rightarrow> penetration_prediction \<Rightarrow> json" where
  "wb_result_to_json cfg p =
     (let (effective_r_um, capillary_p) =
        (case and_then (json_at (pn_parameters p) ''effective_radius_um'') json_get_num of
           Inl _ \<Rightarrow> (0, 0)
         | Inr r \<Rightarrow> (case and_then (json_at (pn_parameters p) ''capillary_pressure_pa'') json_get_num of
             Inl _ \<Rightarrow> (r, 0) | Inr c \<Rightarrow> (r, c)));
        cos_theta = dcos (pn_contact_angle_deg p * M_PI / D 180);
        r_m = effective_r_um * D (1 / 10 ^ 6);
        equilibrium_h_um =
          (if D (1 / 10 ^ 15) < r_m \<and> 0 < wb_gravity_m_s2 cfg then
             (D 2 * pn_surface_tension_n_m p * cos_theta) / (rho * wb_gravity_m_s2 cfg * r_m) * D (10 ^ 6)
           else 0)
      in JObj
        [(''crack_id'', JInt (pn_crack_id p)), (''material_id'', JInt (pn_material_id p)),
         (''method'', JStr (pn_method p)), (''target_depth_um'', JNum (pn_target_depth_um p)),
         (''crack_width_um'', JNum (pn_crack_width_um p)), (''viscosity_pa_s'', JNum (pn_viscosity_pa_s p)),
         (''surface_tension_n_m'', JNum (pn_surface_tension_n_m p)),
         (''contact_angle_deg'', JNum (pn_contact_angle_deg p)),
         (''predicted_time_s'', JNum (pn_predicted_time_s p)),
         (''penetration_rate_um_s'', JNum (pn_penetration_rate_um_s p)),
         (''time_series'', num_array (pn_time_series p)), (''depth_series'', num_array (pn_depth_series p)),
         (''parameters'', pn_parameters p),
         (''derived_quantities'', JObj
           [(''effective_radius_um'', JNum effective_r_um), (''capillary_pressure_pa'', JNum capillary_p),
            (''tortuosity_factor'', JNum (wb_tortuosity_factor cfg)),
            (''surface_roughness_factor'', JNum (wb_surface_roughness_factor cfg)),
            (''equilibrium_penetration_depth_um'', JNum equilibrium_h_um),
            (''gravity_correction_applied'', JBool (D 100 < pn_target_depth_um p))]),
         (''roughness_correction'', JObj
           [(''roughness_correction_applied'', JBool (pn_roughness_correction_applied p)),
            (''wall_roughness_ra_um'', JNum (pn_wall_roughness_ra_um p)),
            (''roughness_factor'', JNum (pn_roughness_factor p)),
            (''wenzel_contact_angle_deg'', JNum (pn_wenzel_contact_angle p)),
            (''effective_radius_um'', JNum (pn_effective_radius_um p)),
            (''effective_tortuosity'', JNum (pn_effective_tortuosity p))])])"

definition material_number :: "repair_material \<Rightarrow> string \<Rightarrow> double \<Rightarrow> double result" where
  "material_number m k dflt =
     (if json_contains (rm_properties m) k then and_then (json_at (rm_properties m) k) json_get_num else Inr dflt)"

definition chosen_width :: "penetration_config \<Rightarrow> crack_info \<Rightarrow> double" where
  "chosen_width cfg crack =
     (let w = (if 0 < ci_max_width crack then ci_max_width crack * D (10 ^ 6) else wb_surface_tension_n_m cfg)
      in if ci_max_width crack \<le> 0 then D 50 else w)"

definition chosen_viscosity :: "penetration_config \<Rightarrow> repair_material \<Rightarrow> double" where
  "chosen_viscosity cfg m = (if 0 < rm_viscosity m then rm_viscosity m else wb_viscosity_pa_s cfg)"

definition series_times :: "int \<Rightarrow> double \<Rightarrow> double list" where
  "series_times n_points t_max = map (\<lambda>i. t_max * of_i (int i) / of_i n_points) [0..<nat (n_points + 1)]"

definition series_end :: "double \<Rightarrow> double" where
  "series_end predicted_time_s =
     (let t_max = std_min (predicted_time_s * D (12/10)) (predicted_time_s + D 10)
      in if \<not> isfinite t_max \<or> t_max \<le> 0 then D 10 else t_max)"

definition prediction_parameters ::
  "penetration_config \<Rightarrow> double \<Rightarrow> double \<Rightarrow> double \<Rightarrow> penetration_prediction \<Rightarrow> json" where
  "prediction_parameters cfg crack_width_um surface_tension_n_m contact_angle_deg p = JObj
     [(''tortuosity_factor'', JNum (wb_tortuosity_factor cfg)),
      (''surface_roughness_factor'', JNum (wb_surface_roughness_factor cfg)),
      (''gravity_m_s2'', JNum (wb_gravity_m_s2 cfg)),
      (''time_series_points'', JInt (wb_time_series_points cfg)),
      (''effective_radius_um'', JNum (crack_radius cfg crack_width_um * D (10 ^ 6))),
      (''capillary_pressure_pa'', JNum (capillary_pressure cfg crack_width_um surface_tension_n_m contact_angle_deg)),
      (''wall_roughness_ra_um'', JNum (pn_wall_roughness_ra_um p)),
      (''wenzel_roughness_correction'', JBool (pn_roughness_correction_applied p)),
      (''roughness_factor'', JNum (pn_roughness_factor p)),
      (''wenzel_contact_angle_deg'', JNum (pn_wenzel_contact_angle p)),
      (''corrected_effective_radius_um'', JNum (pn_effective_radius_um p)),
      (''corrected_tortuosity_factor'', JNum (pn_effective_tortuosity p)),
      (''roughness_tortuosity_coeff'', JNum (wb_roughness_tortuosity_coeff cfg)),
      (''roughness_radius_coeff'', JNum (wb_roughness_radius_coeff cfg))]"

text \<open>The fields of the prediction that need no loop.\<close>

definition describe_penetration ::
  "penetration_config \<Rightarrow> time_point \<Rightarrow> int \<Rightarrow> int \<Rightarrow> double \<Rightarrow> double \<Rightarrow> double \<Rightarrow> double \<Rightarrow> double \<Rightarrow>
     penetration_prediction"
  where
  "describe_penetration cfg now crack_id material_id target width viscosity tension angle =
     (let ra_um = wb_wall_roughness_ra_um cfg;
          applied = (wb_wenzel_correction cfg \<and> 0 < ra_um);
          r_s = (if applied then get_roughness_factor cfg ra_um else D 1);
          (theta_w, tau_eff, r_eff) = effective_params cfg width angle
      in new_penetration_prediction\<lparr>pn_crack_id := crack_id, pn_material_id := material_id,
        pn_method := ''Washburn'', pn_target_depth_um := target, pn_created_at := now,
        pn_crack_width_um := width, pn_viscosity_pa_s := viscosity, pn_surface_tension_n_m := tension,
        pn_contact_angle_deg := angle, pn_wall_roughness_ra_um := ra_um, pn_roughness_factor := r_s,
        pn_wenzel_contact_angle := theta_w, pn_effective_radius_um := r_eff * D (10 ^ 6),
        pn_effective_tortuosity := tau_eff, pn_roughness_correction_applied := applied,
        pn_penetration_rate_um_s := penetration_rate cfg target width viscosity tension angle\<rparr>)"

text \<open>\<open>reserve\<close> refuses a negative number of points, whose conversion to \<open>size_t\<close> is huge.\<close>

definition predict_penetration ::
  "penetration_config \<Rightarrow> time_point \<Rightarrow> int \<Rightarrow> int \<Rightarrow> crack_info \<Rightarrow> repair_material \<Rightarrow> double \<Rightarrow>
     penetration_prediction result option"
  where
  "predict_penetration cfg now crack_id material_id crack m target =
     (let width = chosen_width cfg crack; viscosity = chosen_viscosity cfg m; n_points = wb_time_series_points cfg in
      case material_number m ''surface_tension_n_m'' (wb_surface_tension_n_m cfg) of
        Inl e \<Rightarrow> Some (Inl e)
      | Inr tension \<Rightarrow> (case material_number m ''contact_angle_deg'' (wb_contact_angle_deg cfg) of
        Inl e \<Rightarrow> Some (Inl e)
      | Inr angle \<Rightarrow> (case time_to_reach_depth cfg target width viscosity tension angle of
        None \<Rightarrow> None
      | Some predicted_time_s \<Rightarrow>
          if n_points = 2 ^ 31 - 1 then Some (Inl (UB ''signed overflow''))
          else if n_points < - 1 then Some (Inl (Length_error ''vector::reserve''))
          else let times = series_times n_points (series_end predicted_time_s) in
          (case those (map (\<lambda>t. penetration_depth_at_time cfg t width viscosity tension angle) times) of
             None \<Rightarrow> None
           | Some depths \<Rightarrow>
             (let p = (describe_penetration cfg now crack_id material_id target width viscosity tension angle)
                \<lparr>pn_predicted_time_s := predicted_time_s, pn_time_series := times, pn_depth_series := depths\<rparr>;
                  p = p\<lparr>pn_parameters := prediction_parameters cfg width tension angle p\<rparr>
              in Some (Inr (p\<lparr>pn_result := wb_result_to_json cfg p\<rparr>)))))))"

subsection \<open>Both integration loops end\<close>

text \<open>A clock that advances by at least \<open>2 powi k\<close> passes its limit within \<open>N\<close> steps: it stays above
  the multiples of \<open>2 powi k\<close>, which rounding does not disturb.\<close>

definition clock_ends :: "int \<Rightarrow> nat \<Rightarrow> double \<Rightarrow> double \<Rightarrow> bool" where
  "clock_ends k N dt limit \<longleftrightarrow> - 1074 \<le> k \<and> N \<le> 2 ^ 53 \<and> D (2 powi k) \<le> dt \<and> limit \<le> D (real N * 2 powi k)"

lemma D_le_val: "representable r \<Longrightarrow> D r \<le> t \<Longrightarrow> isfinite t \<Longrightarrow> r \<le> val t"
proof -
  assume r: "representable r" and le: "D r \<le> t" and t: "isfinite t"
  have "round64 r = r"
    using r by (rule round64_representable)
  then show "r \<le> val t"
    using D_cases [of r] le t by (cases t) (auto simp: exact_def)
qed

lemma representable_grid: "- 1074 \<le> k \<Longrightarrow> n \<le> 2 ^ 53 \<Longrightarrow> representable (real n * 2 powi k)"
  unfolding representable_def by (rule exI [of _ "int n"]) auto

lemma clock_step:
  assumes c: "clock_ends k N dt limit" and n: "n < N" and t: "D (real n * 2 powi k) \<le> t" "t < limit"
  shows "D (real (Suc n) * 2 powi k) \<le> t + dt"
proof -
  have "0 \<le> t"
    using D_nonneg [of "real n * 2 powi k"] dle_trans [OF _ t(1)] by simp
  then have fin: "isfinite t"
    using t(2) by (cases t) auto
  have k: "- 1074 \<le> k" "N \<le> 2 ^ 53" and dt: "D (2 powi k) \<le> dt"
    using c by (simp_all add: clock_ends_def)
  have t': "real n * 2 powi k \<le> val t"
    using k n by (intro D_le_val [OF representable_grid t(1) fin]) simp_all
  have tD: "t = D (val t)"
    by (rule D_val [OF fin, symmetric])
  show ?thesis
  proof (cases "isfinite dt")
    case True
    have "2 powi k \<le> val dt"
      using k by (intro D_le_val [OF _ dt True]) (use representable_grid [of k 1] in simp)
    then have "D (real (Suc n) * 2 powi k) \<le> D (val t + val dt)"
      using t' by (intro D_mono) (simp add: algebra_simps)
    also have "D (val t + val dt) = t + dt"
      by (metis D_plus D_val True exact_val fin)
    finally show ?thesis .
  next
    case False
    moreover have "0 \<le> dt"
      using D_nonneg [of "2 powi k"] dle_trans [OF _ dt] by (simp add: less_imp_le)
    ultimately have "dt = PINF"
      by (cases dt) auto
    then show ?thesis
      by (subst tD) simp
  qed
qed

lemma depth_loop_clock:
  assumes c: "clock_ends k N dt time_s" and "n \<le> N" and "D (real n * 2 powi k) \<le> t"
  shows "\<exists>y. depth_loop cap v tau r g h_eq time_s dt h t = Some y"
  using assms(2,3)
proof (induction "N - n" arbitrary: n h t)
  case 0
  then have "n = N" by simp
  then have "\<not> t < time_s"
    using 0 c dle_trans dless_not_sym unfolding clock_ends_def by blast
  then show ?case
    by (subst depth_loop.simps) simp
next
  case (Suc j)
  show ?case
  proof (cases "t < time_s \<and> h < h_eq * D (999/1000)")
    case True
    have "D (real (Suc n) * 2 powi k) \<le> t + dt"
      using Suc.hyps(2) Suc.prems True by (intro clock_step [OF c]) simp_all
    then have "\<exists>y. depth_loop cap v tau r g h_eq time_s dt h' (t + dt) = Some y" for h'
      using Suc.hyps by (intro Suc.hyps(1) [of "Suc n"]) simp_all
    then show ?thesis
      using True by (subst depth_loop.simps) (simp add: Let_def)
  qed (subst depth_loop.simps, auto)
qed

lemma time_loop_clock:
  assumes c: "clock_ends k N dt (D (10 ^ 8))" and "n \<le> N" and "D (real n * 2 powi k) \<le> t"
  shows "\<exists>y. time_loop cap v tau r g target dt h t = Some y"
  using assms(2,3)
proof (induction "N - n" arbitrary: n h t)
  case 0
  then have "n = N" by simp
  then have "\<not> t < D (10 ^ 8)"
    using 0 c dle_trans dless_not_sym unfolding clock_ends_def by blast
  then show ?case
    by (subst time_loop.simps) simp
next
  case (Suc j)
  show ?case
  proof (cases "h < target \<and> t < D (10 ^ 8)")
    case True
    have "D (real (Suc n) * 2 powi k) \<le> t + dt"
      using Suc.hyps(2) Suc.prems True by (intro clock_step [OF c]) simp_all
    then have "\<exists>y. time_loop cap v tau r g target dt h' (t + dt) = Some y" for h'
      using Suc.hyps by (intro Suc.hyps(1) [of "Suc n"]) simp_all
    then show ?thesis
      using True by (subst time_loop.simps) (simp add: Let_def)
  qed (subst time_loop.simps, auto)
qed

lemma no_progress: "s * 0 < D (1 / 10 ^ 15) \<or> s * (0 :: double) = NAN"
proof -
  have "(0 :: double) < D (1 / 10 ^ 15)"
    by (rule encl_pos [OF encl_D [of "1 / 2 ^ 50" 1]]) (use exact_dyadic [of 1 50] in simp_all)
  then show ?thesis
    by (cases s) auto
qed

text \<open>The clock of the depth: two hundred steps of \<open>time_s / 200\<close>, of which rounding takes away less
  than half.\<close>

lemma depth_clock:
  assumes "0 < time_s" and "isfinite time_s" and "time_s / D 200 \<noteq> 0"
  shows "\<exists>k. clock_ends k 400 (time_s / D 200) time_s"
proof -
  obtain T where T: "time_s = D T" "exact T" "0 < T"
    using assms(1,2) by (cases time_s) auto
  define d where "d = val (time_s / D 200)"
  have dt: "time_s / D 200 = D (T / 200)"
    using T by simp
  have "0 \<le> D (T / 200)" "D (T / 200) \<le> D T"
    using T(3) by (simp_all add: D_nonneg D_mono)
  then have fin: "isfinite (time_s / D 200)"
    using finite_between [of "D (T / 200)" "D T"] assms(2) T(1) dt by simp
  have d: "0 < d" "exact d"
    using positive_val [OF _ assms(3) fin] \<open>0 \<le> D (T / 200)\<close> dt by (simp_all add: d_def)
  define k where "k = \<lfloor>log 2 d\<rfloor>"
  note b = floor_log2_bounds [OF d(1), folded k_def]
  obtain m e where me: "d = of_int m * 2 powi e" "- 1074 \<le> e"
    using d(2) by (auto simp: exact_def representable_def)
  have "0 < m"
    using d(1) zero_less_mult_pos2 [of "real_of_int m" "2 powi e"] by (simp add: me(1))
  then have "2 powi e \<le> d"
    by (simp add: me(1))
  then have "(2 :: real) powi e < 2 powi (k + 1)"
    using b(2) by linarith
  then have k: "- 1074 \<le> k"
    using me(2) by simp
  have "T \<le> 400 * 2 powi k"
  proof (rule ccontr)
    assume "\<not> T \<le> 400 * 2 powi k"
    then have "D (2 powi (k + 1)) \<le> time_s / D 200"
      unfolding dt by (intro D_mono) (simp add: power_int_add)
    then have "2 powi (k + 1) \<le> d"
      unfolding d_def using k by (intro D_le_val [OF _ _ fin]) (use representable_grid [of "k + 1" 1] in simp_all)
    then show False
      using b(2) by simp
  qed
  moreover have "D (2 powi k) \<le> time_s / D 200"
    using D_mono [OF b(1)] D_val [OF fin] by (simp add: d_def)
  ultimately show ?thesis
    using k D_mono [of T "400 * 2 powi k"] by (auto simp: clock_ends_def T(1))
qed

lemma depth_loop_returns: "\<exists>y. depth_loop cap v tau r g h_eq time_s (time_s / D 200) h 0 = Some y"
proof -
  consider "\<not> 0 < time_s" | "time_s = PINF" | "0 < time_s" "isfinite time_s"
    by (cases time_s) auto
  then show ?thesis
  proof cases
    case 1
    then show ?thesis
      by (subst depth_loop.simps) simp
  next
    case 2
    then have "\<exists>y. depth_loop cap v tau r g h_eq time_s (time_s / D 200) h' (0 + time_s / D 200) = Some y" for h'
      by (subst depth_loop.simps) simp
    then show ?thesis
      by (subst depth_loop.simps) (simp add: Let_def)
  next
    case 3
    show ?thesis
    proof (cases "time_s / D 200 = 0")
      case True
      have stop: "depth_loop cap v tau r g h_eq time_s 0 NAN t = Some NAN" for t
        by (subst depth_loop.simps) simp
      have nan: "\<not> s * 0 < D (1 / 10 ^ 15) \<Longrightarrow> s * (0 :: double) = NAN" for s
        using no_progress by blast
      show ?thesis
        unfolding True by (subst depth_loop.simps) (auto simp: Let_def stop nan [simplified])
    next
      case False
      then obtain k where "clock_ends k 400 (time_s / D 200) time_s"
        using depth_clock 3 by blast
      from depth_loop_clock [OF this, of 0] show ?thesis
        by simp
    qed
  qed
qed

text \<open>The clock of the time: at least a microsecond per step and at most \<open>10 ^ 8\<close> seconds. A step that
  is not a number stops the loop by itself.\<close>

lemma time_loop_returns:
  assumes "dt = NAN \<or> D (1 / 10 ^ 6) \<le> dt"
  shows "\<exists>y. time_loop cap v tau r g target dt h 0 = Some y"
  using assms
proof
  assume "dt = NAN"
  moreover have "time_loop cap v tau r g target NAN NAN t = Some t" for t
    by (subst time_loop.simps) simp
  ultimately show ?thesis
    by (subst time_loop.simps) (simp add: Let_def)
next
  assume dt: "D (1 / 10 ^ 6) \<le> dt"
  have "D (2 powi - 20) \<le> D (1 / 10 ^ 6)"
    by (rule D_mono) (simp add: power_int_minus)
  then have step: "D (2 powi - 20) \<le> dt"
    using dt dle_trans by blast
  have "clock_ends (- 20) (10 ^ 8 * 2 ^ 20) dt (D (10 ^ 8))"
    using step by (auto simp: clock_ends_def power_int_minus intro!: D_mono)
  from time_loop_clock [OF this, of 0] show ?thesis
    by simp
qed

lemma depth_returns:
  "\<exists>h. penetration_depth_at_time cfg time_s width viscosity tension angle = Some h"
  using depth_loop_returns by (auto simp: penetration_depth_at_time_def Let_def split: prod.split)

lemma time_returns:
  "\<exists>t. time_to_reach_depth cfg target width viscosity tension angle = Some t"
proof -
  have "\<exists>y. time_loop cap v tau r g d (if x < D (1 / 10 ^ 6) then D (1 / 10 ^ 6) else x) 0 0 = Some y"
    for cap v tau r g d x
  proof (rule time_loop_returns)
    show "(if x < D (1 / 10 ^ 6) then D (1 / 10 ^ 6) else x) = NAN \<or>
        D (1 / 10 ^ 6) \<le> (if x < D (1 / 10 ^ 6) then D (1 / 10 ^ 6) else x)"
      using dnot_less [of x "D (1 / 10 ^ 6)"] dle_refl [of "D (1 / 10 ^ 6)"] by auto
  qed
  then show ?thesis
    by (auto simp: time_to_reach_depth_def Let_def split: prod.split)
qed

subsection \<open>Depths beyond a tenth of a millimetre\<close>

text \<open>Shear thinning can only raise a positive speed.\<close>

lemma dpow_root: "0 < x \<Longrightarrow> 0 \<le> dpow x (D (1/2))"
  by (cases x) (auto simp: dpow_def pow_fin_def D_nonneg D_inj)

lemma dpow_negative:
  assumes "exact q" and "q < 0" and "D 1 \<le> b"
  shows "0 \<le> dpow b (D q) \<and> dpow b (D q) \<le> D 1"
proof (cases b)
  case (fin s)
  then have "1 \<le> s"
    using assms(3) by (simp del: D_one)
  moreover from this have "s powr q \<le> 1"
    using powr_mono [of q 0 s] assms(2) by simp
  ultimately show ?thesis
    using fin assms(1,2) D_mono [of "s powr q" 1] D_mono [of 0 1] by (auto simp: dpow_def pow_fin_def D_nonneg)
next
  case pinf
  then show ?thesis
    using assms(1,2) D_mono [of 0 1] D_inj [of q 0] by (auto simp: dpow_def)
qed (use assms in \<open>auto simp del: D_one\<close>)

lemma shear_thins:
  assumes v: "0 < v" and s: "0 \<le> s"
  obtains f where "0 \<le> f" and "f \<le> D 1" and "dynamic_viscosity_correction v s = v * f"
proof (cases "s \<le> 0")
  case True
  then have "dynamic_viscosity_correction v s = v * D 1"
    using dless_not_sym [OF v] by (simp add: dynamic_viscosity_correction_def)
  then show ?thesis
    using D_mono [of 0 1] by (intro that [of "D 1"]) simp_all
next
  case False
  then have "0 < s"
    using s by (cases s) auto
  then have "0 \<le> dpow s (D (1/2))"
    by (rule dpow_root)
  then have one: "D 1 \<le> D 1 + dpow s (D (1/2))"
    using dplus_mono [of 0 "dpow s (D (1/2))" "D 1"] by (simp add: dplus_commute)
  have "encl (D (3/10)) (1/4) (1/2)"
    by (rule encl_D) (use exact_dyadic [of 1 2] in simp_all)
  then obtain r where r: "D (3/10) = D r" "exact r" "1/4 \<le> r"
    by (rule enclE)
  have "dynamic_viscosity_correction v s = v * dpow (D 1 + dpow s (D (1/2))) (D (- r))"
    using False dless_not_sym [OF v] r by (simp add: dynamic_viscosity_correction_def Let_def)
  then show ?thesis
    using dpow_negative [OF _ _ one, of "- r"] r by (intro that) simp_all
qed

lemma thinned_faster:
  assumes v: "0 < v" "isfinite v" and r: "0 < r" "isfinite r" and x: "0 < x"
  shows "x \<le> thinned_speed v r x"
proof -
  obtain a where a: "v = D a" "exact a" "0 < a"
    using v by (cases v) auto
  have "0 \<le> x / r"
    using x r by (cases x; cases r) (auto intro: D_nonneg)
  from shear_thins [OF v(1) this]
  obtain f where "0 \<le> f" "f \<le> D 1" and eta: "dynamic_viscosity_correction v (x / r) = v * f" .
  then obtain b where b: "f = D b" "exact b" "0 \<le> b" "b \<le> 1"
    by (cases f) (auto simp del: D_one)
  have "0 \<le> D (a * b)" "D (a * b) \<le> D a"
    using a b mult_left_mono [of b 1 a] by (auto intro!: D_nonneg D_mono)
  then obtain c where c: "v * f = D c" "exact c" "0 \<le> c" "c \<le> a"
    using a b by (cases "D (a * b)") auto
  have "0 \<le> D (c / a)" "D (c / a) \<le> D 1"
    using a c by (auto intro!: D_nonneg D_mono simp del: D_one)
  then obtain e where e: "v * f / v = D e" "exact e" "0 \<le> e" "e \<le> 1"
    using a c by (cases "D (c / a)") (auto simp del: D_one)
  have "x \<le> x / D e"
  proof (cases x)
    case (fin y)
    then show ?thesis
      using x e by (cases "e = 0") (auto intro!: D_mono simp: field_simps)
  qed (use x e in auto)
  then show ?thesis
    by (simp add: thinned_speed_def Let_def eta e)
qed

text \<open>The conditions of the laboratory: cracks from 1 to 500 micrometres wide, viscosities from a
  thousandth to a thousand times that of the default, wetting liquids.\<close>

definition wetting_liquid :: "double \<Rightarrow> double \<Rightarrow> double \<Rightarrow> double \<Rightarrow> bool" where
  "wetting_liquid width viscosity tension angle \<longleftrightarrow>
     D 1 \<le> width \<and> width \<le> D 500 \<and> D (1 / 2 ^ 10) \<le> viscosity \<and> viscosity \<le> D (2 ^ 10) \<and>
     D (1 / 2 ^ 5) \<le> tension \<and> tension \<le> D 1 \<and> D (1/4) \<le> dcos (angle * M_PI / D 180)"

lemma dcos_le_one: "dcos x \<le> D 1 \<or> dcos x = NAN"
  by (cases x) (auto simp: dcos_def D_mono simp del: D_one)

lemma wetting_approx:
  assumes "wetting_liquid w v g angle"
  shows "approx 0 3 w (val w)" "approx 0 4 v (val v)" "approx 0 2 g (val g)"
    "approx 0 1 (dcos (angle * M_PI / D 180)) (val (dcos (angle * M_PI / D 180)))"
    "1 \<le> val w" "val w \<le> 500" "1 / 2 ^ 5 \<le> val g" "1/4 \<le> val (dcos (angle * M_PI / D 180))"
    "\<not> w \<le> 0" "\<not> v \<le> 0" "\<not> g \<le> 0"
proof -
  let ?c = "dcos (angle * M_PI / D 180)"
  note a = assms [unfolded wetting_liquid_def]
  have "exact (1 / 2 ^ 10)" "exact (2 ^ 10)" "exact (1 / 2 ^ 5)" "exact (1/4)"
    using exact_dyadic [of 1 10] exact_dyadic [of 1 5] exact_dyadic [of 1 2] by simp_all
  note e = this
  have w: "isfinite w" "1 \<le> val w" "val w \<le> 500"
    using a D_range [of 1 w 500] by simp_all
  have v: "isfinite v" "1 / 2 ^ 10 \<le> val v" "val v \<le> 2 ^ 10"
    using a D_range [of "1 / 2 ^ 10" v "2 ^ 10"] e by blast+
  have g: "isfinite g" "1 / 2 ^ 5 \<le> val g" "val g \<le> 1"
    using a D_range [of "1 / 2 ^ 5" g 1] e by simp_all
  have "?c \<noteq> NAN"
    using a by auto
  then have "?c \<le> D 1"
    using dcos_le_one by blast
  then have c: "isfinite ?c" "1/4 \<le> val ?c" "val ?c \<le> 1"
    using a D_range [of "1/4" ?c 1] e by simp_all
  show "approx 0 3 w (val w)" "approx 0 4 v (val v)" "approx 0 2 g (val g)" "approx 0 1 ?c (val ?c)"
    using w v g c by (simp_all add: approx_val)
  show "1 \<le> val w" "val w \<le> 500" "1 / 2 ^ 5 \<le> val g" "1/4 \<le> val ?c"
    by fact+
  have "0 < w" "0 < v" "0 < g"
    using \<open>approx 0 3 w (val w)\<close> \<open>approx 0 4 v (val v)\<close> \<open>approx 0 2 g (val g)\<close> by (auto dest: approx_pos)
  then show "\<not> w \<le> 0" "\<not> v \<le> 0" "\<not> g \<le> 0"
    using dless_not_sym by blast+
qed

lemma default_effective:
  "effective_params default_penetration_config w angle = (angle, D (15/10), crack_radius default_penetration_config w)"
  by (simp add: effective_params_def default_penetration_config_def)

definition real_radius :: "double \<Rightarrow> real" where
  "real_radius w = val w * (1 / 10 ^ 6) / 4 / (12/10)"

definition real_capillary :: "double \<Rightarrow> double \<Rightarrow> double \<Rightarrow> real" where
  "real_capillary w g angle = val g * val (dcos (angle * M_PI / D 180)) * real_radius w"

lemma radius_approx:
  assumes "wetting_liquid w v g angle"
  shows "approx 6 11 (crack_radius default_penetration_config w) (real_radius w)"
proof -
  have "approx 1 6 (D (1 / 10 ^ 6)) (1 / 10 ^ 6)" "approx 1 1 (D 4) 4" "approx 1 1 (D (12/10)) (12/10)"
    by (rule approx_D; simp)+
  note lit = this
  have "approx 6 11 (w * D (1 / 10 ^ 6) / D 4 / D (12/10)) (real_radius w)"
    unfolding real_radius_def
    by (rule approx_weaken [OF approx_divide [OF approx_divide [OF approx_times
          [OF wetting_approx(1) [OF assms] lit(1)] lit(2)] lit(3)]]) simp_all
  then show ?thesis
    by (simp add: crack_radius_def default_penetration_config_def)
qed

lemma capillary_approx:
  assumes "wetting_liquid w v g angle"
  shows "approx 8 14 (g * dcos (angle * M_PI / D 180) * crack_radius default_penetration_config w) (real_capillary w g angle)"
  unfolding real_capillary_def
  by (rule approx_weaken [OF approx_times [OF approx_times [OF wetting_approx(3,4) [OF assms]] radius_approx [OF assms]]])
    simp_all

lemma ideal_time_approx:
  assumes "wetting_liquid w v g angle" and d: "approx 0 3 d (val d)"
  shows "approx 19 38 ((D 2 * v * D (15/10) * (d * D (1 / 10 ^ 6)) * (d * D (1 / 10 ^ 6))) /
      (g * dcos (angle * M_PI / D 180) * crack_radius default_penetration_config w))
    (2 * val v * (15/10) * (val d * (1 / 10 ^ 6)) * (val d * (1 / 10 ^ 6)) / real_capillary w g angle)"
proof -
  have "approx 1 1 (D 2) 2" "approx 1 1 (D (15/10)) (15/10)" "approx 1 6 (D (1 / 10 ^ 6)) (1 / 10 ^ 6)"
    by (rule approx_D; simp)+
  note lit = this
  have m: "approx 2 9 (d * D (1 / 10 ^ 6)) (val d * (1 / 10 ^ 6))"
    by (rule approx_weaken [OF approx_times [OF d lit(3)]]) simp_all
  show ?thesis
    by (rule approx_weaken [OF approx_divide [OF approx_times [OF approx_times [OF approx_times [OF approx_times
          [OF lit(1) wetting_approx(2) [OF assms(1)]] lit(2)] m] m] capillary_approx [OF assms(1)]]]) simp_all
qed

text \<open>A depth below a tenth of a millimetre takes the time of the plain law.\<close>

lemma shallow_time:
  assumes lab: "wetting_liquid w v g angle" and d: "D 10 \<le> d" "d \<le> D 99"
  shows "time_to_reach_depth default_penetration_config d w v g angle =
    Some ((D 2 * v * D (15/10) * (d * D (1 / 10 ^ 6)) * (d * D (1 / 10 ^ 6))) /
      (g * dcos (angle * M_PI / D 180) * crack_radius default_penetration_config w))"
proof -
  have dv: "isfinite d" "10 \<le> val d" "val d \<le> 99"
    using D_range [OF d] by simp_all
  have lit: "approx 1 6 (D (1 / 10 ^ 6)) (1 / 10 ^ 6)" "approx 1 4 (D (1 / 10 ^ 4)) (1 / 10 ^ 4)"
      "approx 1 12 (D (1 / 10 ^ 12)) (1 / 10 ^ 12)" "approx 1 20 (D (1 / 10 ^ 20)) (1 / 10 ^ 20)"
    by (rule approx_D; simp)+
  have a: "approx 0 2 d (val d)"
    using dv by (intro approx_val) simp_all
  have m: "approx 2 8 (d * D (1 / 10 ^ 6)) (val d * (1 / 10 ^ 6))"
    by (rule approx_weaken [OF approx_times [OF a lit(1)]]) simp_all
  note wet = wetting_approx [OF lab] and rad = radius_approx [OF lab] and cap = capillary_approx [OF lab]
  have "d * D (1 / 10 ^ 6) < D (1 / 10 ^ 4)"
    by (rule approx_less [OF m lit(2)]) (use dv in simp_all)
  moreover have "D (1 / 10 ^ 12) < crack_radius default_penetration_config w"
    by (rule approx_less [OF lit(3) rad]) (use wet(5) in \<open>simp_all add: real_radius_def\<close>)
  moreover have "D (1 / 10 ^ 20) < g * dcos (angle * M_PI / D 180) * crack_radius default_penetration_config w"
  proof (rule approx_less [OF lit(4) cap])
    have "1 / 2 ^ 5 * (1/4) * (1 / (48 * 10 ^ 5)) \<le> real_capillary w g angle"
      unfolding real_capillary_def using wet(5-8) by (intro mult_mono) (simp_all add: real_radius_def)
    then show "1 / 10 ^ 20 * (1 + 1 / 10 ^ 9) \<le> real_capillary w g angle"
      by (rule order_trans [rotated]) simp
  qed simp
  moreover have "\<not> d \<le> 0"
    using approx_pos(1) [OF a] dless_not_sym by blast
  ultimately show ?thesis
    using wet(9-11) by (simp add: time_to_reach_depth_def default_effective Let_def dless_asym)
qed

text \<open>A depth beyond it: the first step starts from a front of a nanometre and passes the target.\<close>

lemma first_step_ends:
  assumes v: "0 < v" "isfinite v" and r: "0 < r" "isfinite r" and h: "0 < target" "isfinite target"
    and cap: "approx i j cap c" and fin: "isfinite (rho * g * r * r)"
    and den: "approx k l (D 4 * v * tau * D (1 / 10 ^ 9)) d" "1 / 10 ^ 19 \<le> d" "k \<le> 90"
    and speed: "approx m n (cap / (D 4 * v * tau * D (1 / 10 ^ 9))) s"
    and dt: "approx p q x y" "x \<le> dt" "isfinite dt"
    and over: "target < cap / (D 4 * v * tau * D (1 / 10 ^ 9)) * x"
  shows "\<exists>t. time_loop cap v tau r g target dt 0 0 = Some t \<and>
    t \<le> target / (cap / (D 4 * v * tau * D (1 / 10 ^ 9)))"
proof -
  let ?s = "cap / (D 4 * v * tau * D (1 / 10 ^ 9))"
  let ?f = "thinned_speed v r ?s"
  have s: "0 < ?s" "isfinite ?s"
    using approx_pos [OF speed] by blast+
  have f: "?s \<le> ?f"
    by (rule thinned_faster [OF v r s(1)])
  have x: "0 < x" "isfinite x"
    using approx_pos [OF dt(1)] by blast+
  have "?s * x \<le> ?f * dt"
    by (rule dtimes_mono [OF s f x dt(2,3)])
  then have passed: "target < ?f * dt"
    using over dless_le_trans by blast
  have slower: "target / ?f \<le> target / ?s"
    by (rule ddivide_antimono [OF h s f])
  have "approx 1 20 (D (1 / 10 ^ 20)) (1 / 10 ^ 20)"
    by (rule approx_D) simp_all
  then have "D (1 / 10 ^ 20) < D 4 * v * tau * D (1 / 10 ^ 9)"
    by (rule approx_less [OF _ den(1)]) (use den(2,3) in simp_all)
  moreover have "0 < D (1 / 10 ^ 9)"
    by (rule encl_pos [OF encl_D [of "1 / 2 ^ 30" 1]]) (use exact_dyadic [of 1 30] in simp_all)
  moreover have "\<not> cap \<le> 0"
    using approx_pos(1) [OF cap] dless_not_sym by blast
  moreover have "0 < D (10 ^ 8)"
    by simp
  ultimately show ?thesis
    using passed slower h(1) fin
    by (subst time_loop.simps) (simp add: Let_def std_max_def dless_asym)
qed

lemma default_gravity: "wb_gravity_m_s2 default_penetration_config = D (981/100)"
  by (simp add: default_penetration_config_def)

lemma nanometre_speed:
  assumes lab: "wetting_liquid w v g angle"
  shows "approx 6 15 (D 4 * v * D (15/10) * D (1 / 10 ^ 9)) (4 * val v * (15/10) * (1 / 10 ^ 9))"
    and "approx 15 29 ((g * dcos (angle * M_PI / D 180) * crack_radius default_penetration_config w) /
        (D 4 * v * D (15/10) * D (1 / 10 ^ 9)))
      (real_capillary w g angle / (4 * val v * (15/10) * (1 / 10 ^ 9)))"
proof -
  have lit: "approx 1 9 (D (1 / 10 ^ 9)) (1 / 10 ^ 9)" "approx 1 1 (D 4) 4" "approx 1 1 (D (15/10)) (15/10)"
    by (rule approx_D; simp)+
  show den: "approx 6 15 (D 4 * v * D (15/10) * D (1 / 10 ^ 9)) (4 * val v * (15/10) * (1 / 10 ^ 9))"
    by (rule approx_weaken [OF approx_times [OF approx_times [OF approx_times
          [OF lit(2) wetting_approx(2) [OF lab]] lit(3)] lit(1)]]) simp_all
  show "approx 15 29 ((g * dcos (angle * M_PI / D 180) * crack_radius default_penetration_config w) /
        (D 4 * v * D (15/10) * D (1 / 10 ^ 9)))
      (real_capillary w g angle / (4 * val v * (15/10) * (1 / 10 ^ 9)))"
    by (rule approx_weaken [OF approx_divide [OF capillary_approx [OF lab] den]]) simp_all
qed

lemma deep_time:
  assumes lab: "wetting_liquid w v g angle" and d: "D 101 \<le> d" "d \<le> D 1000"
  shows "\<exists>t. time_to_reach_depth default_penetration_config d w v g angle = Some t \<and>
    t \<le> d * D (1 / 10 ^ 6) / ((g * dcos (angle * M_PI / D 180) * crack_radius default_penetration_config w) /
      (D 4 * v * D (15/10) * D (1 / 10 ^ 9)))"
proof -
  let ?r = "crack_radius default_penetration_config w" and ?c = "dcos (angle * M_PI / D 180)"
  let ?cap = "g * ?c * ?r" and ?m = "d * D (1 / 10 ^ 6)" and ?den = "D 4 * v * D (15/10) * D (1 / 10 ^ 9)"
  let ?ideal = "(D 2 * v * D (15/10) * ?m * ?m) / ?cap"
  have dv: "isfinite d" "101 \<le> val d" "val d \<le> 1000"
    using D_range [OF d] by simp_all
  have lit: "approx 1 6 (D (1 / 10 ^ 6)) (1 / 10 ^ 6)" "approx 1 4 (D (1 / 10 ^ 4)) (1 / 10 ^ 4)"
      "approx 1 12 (D (1 / 10 ^ 12)) (1 / 10 ^ 12)" "approx 1 20 (D (1 / 10 ^ 20)) (1 / 10 ^ 20)"
      "approx 1 9 (D (1 / 10 ^ 9)) (1 / 10 ^ 9)" "approx 1 1 (D 2) 2" "approx 1 1 (D 4) 4"
      "approx 1 1 (D (15/10)) (15/10)" "approx 1 3 (D 500) 500" "approx 1 3 (D 1000) 1000"
      "approx 1 1 (D (981/100)) (981/100)" "approx 1 1 (D (99/100)) (99/100)"
    by (rule approx_D; simp)+
  note wet = wetting_approx [OF lab] and rad = radius_approx [OF lab] and cap = capillary_approx [OF lab]
  have a: "approx 0 3 d (val d)"
    using dv by (intro approx_val) simp_all
  have m: "approx 2 9 ?m (val d * (1 / 10 ^ 6))"
    by (rule approx_weaken [OF approx_times [OF a lit(1)]]) simp_all
  note ideal = ideal_time_approx [OF lab a]
  note den = nanometre_speed(1) [OF lab] and speed = nanometre_speed(2) [OF lab]
  have step: "approx 21 41 (?ideal / D 500)
      (2 * val v * (15/10) * (val d * (1 / 10 ^ 6)) * (val d * (1 / 10 ^ 6)) / real_capillary w g angle / 500)"
    by (rule approx_weaken [OF approx_divide [OF ideal lit(9)]]) simp_all
  have weight: "approx 10 15 (D 1000 * D (981/100) * ?r) (1000 * (981/100) * real_radius w)"
    by (rule approx_weaken [OF approx_times [OF approx_times [OF lit(10,11)] rad]]) simp_all
  have weight2: "approx 17 26 (D 1000 * D (981/100) * ?r * ?r) (1000 * (981/100) * real_radius w * real_radius w)"
    by (rule approx_weaken [OF approx_times [OF weight rad]]) simp_all
  have eq: "approx 16 20 ((D 2 * g * ?c) / (D 1000 * D (981/100) * ?r) * D (99/100))
      ((2 * val g * val ?c) / (1000 * (981/100) * real_radius w) * (99/100))"
    by (rule approx_weaken [OF approx_times [OF approx_divide [OF approx_times [OF approx_times [OF lit(6) wet(3)] wet(4)]
          weight] lit(12)]]) simp_all
  have V: "0 < val v" and C: "0 < real_capillary w g angle"
    using approx_pos(3) [OF wet(2)] approx_pos(3) [OF cap] .
  have R: "1 / (48 * 10 ^ 5) \<le> real_radius w" "real_radius w \<le> 1 / 9600"
    using wet(5,6) by (simp_all add: real_radius_def)
  have "\<not> ?m < D (1 / 10 ^ 4)"
    by (rule dless_asym, rule approx_less [OF lit(2) m]) (use dv in simp_all)
  moreover have "?m < (D 2 * g * ?c) / (D 1000 * D (981/100) * ?r) * D (99/100)"
  proof (rule approx_less [OF m eq])
    have "1 / 2 ^ 5 * (1/4) \<le> val g * val ?c"
      using wet(7,8) by (intro mult_mono) simp_all
    then have "2 * (1 / 2 ^ 5 * (1/4)) / (1000 * (981/100) * (1 / 9600)) \<le>
        2 * val g * val ?c / (1000 * (981/100) * real_radius w)"
      using R less_le_trans [of 0 "1 / (48 * 10 ^ 5)" "real_radius w"] by (intro frac_le) simp_all
    then show "val d * (1 / 10 ^ 6) * (1 + 1 / 10 ^ 9) \<le>
        2 * val g * val ?c / (1000 * (981/100) * real_radius w) * (99/100)"
      using dv(3) by simp
  qed simp
  moreover have "\<not> ?cap < D (1 / 10 ^ 20)" "\<not> ?r < D (1 / 10 ^ 12)"
  proof -
    have "1 / 2 ^ 5 * (1/4) * (1 / (48 * 10 ^ 5)) \<le> real_capillary w g angle"
      unfolding real_capillary_def using wet(5-8) by (intro mult_mono) (simp_all add: real_radius_def)
    then have "1 / 10 ^ 20 * (1 + 1 / 10 ^ 9) \<le> real_capillary w g angle"
      by (rule order_trans [rotated]) simp
    then show "\<not> ?cap < D (1 / 10 ^ 20)"
      by (intro dless_asym approx_less [OF lit(4) cap]) simp_all
    show "\<not> ?r < D (1 / 10 ^ 12)"
      by (rule dless_asym, rule approx_less [OF lit(3) rad]) (use R in simp_all)
  qed
  moreover have over: "?m < ?cap / ?den * (?ideal / D 500)"
  proof (rule approx_less [OF m approx_times [OF speed step]])
    have "real_capillary w g angle / (4 * val v * (15/10) * (1 / 10 ^ 9)) *
        (2 * val v * (15/10) * (val d * (1 / 10 ^ 6)) * (val d * (1 / 10 ^ 6)) / real_capillary w g angle / 500) =
        val d * (1 / 10 ^ 6) * val d"
      using V C by (simp add: field_simps)
    moreover have "val d * (1 / 10 ^ 6) * (1 + 1 / 10 ^ 9) \<le> val d * (1 / 10 ^ 6) * val d"
      using dv(2) by (intro mult_left_mono) simp_all
    ultimately show "val d * (1 / 10 ^ 6) * (1 + 1 / 10 ^ 9) \<le>
        real_capillary w g angle / (4 * val v * (15/10) * (1 / 10 ^ 9)) *
        (2 * val v * (15/10) * (val d * (1 / 10 ^ 6)) * (val d * (1 / 10 ^ 6)) / real_capillary w g angle / 500)"
      by (simp only:)
  qed simp_all
  moreover have "\<exists>t. time_loop ?cap v (D (15/10)) ?r (D (981/100)) ?m dt 0 0 = Some t \<and> t \<le> ?m / (?cap / ?den)"
    if dt: "dt = (if ?ideal / D 500 < D (1 / 10 ^ 6) then D (1 / 10 ^ 6) else ?ideal / D 500)" for dt
  proof (rule first_step_ends [OF _ _ _ _ _ _ cap _ den _ _ speed step _ _ over])
    show "isfinite (rho * D (981/100) * ?r * ?r)"
      using approx_pos(2) [OF weight2] by (simp add: rho_def)
    show "?ideal / D 500 \<le> dt" "isfinite dt"
      using approx_pos(2) [OF step] approx_pos(2) [OF lit(1)] dle_refl [of "?ideal / D 500"]
      by (auto simp: dt dless_imp_le isfinite_iff)
    show "1 / 10 ^ 19 \<le> 4 * val v * (15/10) * (1 / 10 ^ 9)"
      using wet(2) by (simp add: approx_def)
  qed (use approx_pos(1,2) [OF wet(2)] approx_pos(1,2) [OF rad] approx_pos(1,2) [OF m] in simp_all)
  moreover have "\<not> d \<le> 0"
    using approx_pos(1) [OF a] dless_not_sym by blast
  ultimately show ?thesis
    using wet(9-11) dless_not_sym
    by (simp add: time_to_reach_depth_def default_effective default_gravity rho_def Let_def cong: if_cong)
qed

text \<open>C13: A deep crack is predicted to fill sooner than a shallow one: under laboratory conditions every
  depth from 101 micrometres to a millimetre is predicted to be reached before any depth from 10 to
  99 micrometres. The integration beyond a tenth of a millimetre starts from a front of a
  nanometre, at which the speed is so high that the first step passes the target, and the time it
  reports is the depth divided by that speed.\<close>

theorem deep_targets_sooner:
  assumes "wetting_liquid width viscosity tension angle"
    and "D 10 \<le> shallow" and "shallow \<le> D 99" and "D 101 \<le> deep" and "deep \<le> D 1000"
  shows "\<exists>t_deep t_shallow.
    time_to_reach_depth default_penetration_config deep width viscosity tension angle = Some t_deep \<and>
    time_to_reach_depth default_penetration_config shallow width viscosity tension angle = Some t_shallow \<and>
    t_deep < t_shallow"
proof -
  let ?C = "real_capillary width tension angle" and ?V = "val viscosity"
  note wet = wetting_approx [OF assms(1)]
  have d: "isfinite deep" "101 \<le> val deep" "val deep \<le> 1000"
    and s: "isfinite shallow" "10 \<le> val shallow" "val shallow \<le> 99"
    using D_range [OF assms(4,5)] D_range [OF assms(2,3)] by simp_all
  have a: "approx 0 3 deep (val deep)" "approx 0 3 shallow (val shallow)"
    using d s by (auto intro: approx_val)
  have micro: "approx 1 6 (D (1 / 10 ^ 6)) (1 / 10 ^ 6)"
    by (rule approx_D) simp_all
  note deep = approx_divide [OF approx_times [OF a(1) micro] nanometre_speed(2) [OF assms(1)]]
  have "0 < ?V / ?C"
    using approx_pos(3) [OF wet(2)] approx_pos(3) [OF capillary_approx [OF assms(1)]] by simp
  moreover have "val deep * (6 / 10 ^ 15) * (1 + 1 / 10 ^ 9) \<le> 3 / 10 ^ 12 * (10 * 10)"
    using d(3) by simp
  moreover have "3 / 10 ^ 12 * (10 * 10) \<le> 3 / 10 ^ 12 * (val shallow * val shallow)"
    using s(2) mult_mono [of 10 "val shallow" 10 "val shallow"] by simp
  ultimately have "val deep * (6 / 10 ^ 15) * (1 + 1 / 10 ^ 9) * (?V / ?C) \<le>
      3 / 10 ^ 12 * (val shallow * val shallow) * (?V / ?C)"
    by (intro mult_right_mono) simp_all
  then have "deep * D (1 / 10 ^ 6) / ((tension * dcos (angle * M_PI / D 180) *
        crack_radius default_penetration_config width) / (D 4 * viscosity * D (15/10) * D (1 / 10 ^ 9))) <
      (D 2 * viscosity * D (15/10) * (shallow * D (1 / 10 ^ 6)) * (shallow * D (1 / 10 ^ 6))) /
      (tension * dcos (angle * M_PI / D 180) * crack_radius default_penetration_config width)"
    by (intro approx_less [OF deep ideal_time_approx [OF assms(1) a(2)]]) (simp_all add: mult_ac)
  then show ?thesis
    using deep_time [OF assms(1,4,5)] shallow_time [OF assms(1-3)] dle_less_trans by blast
qed

lemma wetting_water: "wetting_liquid (D 50) (D 1) (D (72/1000)) (D 30)"
proof -
  have pi: "encl M_PI 3 (13/4)"
    unfolding M_PI_def by (rule encl_D) (use exact_dyadic [of 13 2] in simp_all)
  have "encl (D 30 * M_PI) 90 98"
    by (rule encl_times [OF encl_exact pi]) simp_all
  then have "encl (D 30 * M_PI / D 180) (1/2) (5/8)"
    by (rule encl_divide [OF _ encl_exact]) (use exact_dyadic [of 5 3] in simp_all)
  then obtain x where x: "D 30 * M_PI / D 180 = D x" "exact x" "1/2 \<le> x" "x \<le> 5/8"
    by (rule enclE)
  have "cos (pi / 3) \<le> cos x"
    using x pi_ge_two by (intro cos_monotone_0_pi_le) simp_all
  then have "1/4 \<le> cos x"
    by (simp add: cos_60)
  then have c: "D (1/4) \<le> dcos (D 30 * M_PI / D 180)"
    using x by (simp add: dcos_def D_mono)
  have "D (1 / 2 ^ 5) \<le> D (72/1000)" "D (72/1000) \<le> D 1" "D (1 / 2 ^ 10) \<le> D 1" "D 1 \<le> D (2 ^ 10)"
    by (rule D_mono; simp)+
  then show ?thesis
    using c by (simp add: wetting_liquid_def del: D_one)
qed

theorem deep_targets_sooner_witness:
  "\<exists>t_deep t_shallow.
    time_to_reach_depth default_penetration_config (D 500) (D 50) (D 1) (D (72/1000)) (D 30) = Some t_deep \<and>
    time_to_reach_depth default_penetration_config (D 50) (D 50) (D 1) (D (72/1000)) (D 30) = Some t_shallow \<and>
    t_deep < t_shallow"
  by (rule deep_targets_sooner [OF wetting_water]) simp_all

subsection \<open>Predictions return\<close>

lemma those_Some: "(\<And>x. x \<in> set xs \<Longrightarrow> f x = Some (g x)) \<Longrightarrow> those (map f xs) = Some (map g xs)"
  by (induction xs) auto

lemma material_number_error: "material_number m k d = Inl e \<Longrightarrow> e = Json_error"
  by (auto simp: material_number_def and_then_eq_Inl_iff dest: json_at_error json_get_num_error split: if_splits)

lemma predict_penetration_form:
  assumes "material_number m ''surface_tension_n_m'' (wb_surface_tension_n_m cfg) = Inr tension"
    and "material_number m ''contact_angle_deg'' (wb_contact_angle_deg cfg) = Inr angle"
  shows "\<exists>p. predict_penetration cfg now crack_id material_id crack m target =
      Some (if wb_time_series_points cfg = 2 ^ 31 - 1 then Inl (UB ''signed overflow'')
        else if wb_time_series_points cfg < - 1 then Inl (Length_error ''vector::reserve'') else Inr p) \<and>
    time_to_reach_depth cfg target (pn_crack_width_um p) (pn_viscosity_pa_s p)
      (pn_surface_tension_n_m p) (pn_contact_angle_deg p) = Some (pn_predicted_time_s p) \<and>
    length (pn_time_series p) = nat (wb_time_series_points cfg + 1) \<and>
    map (\<lambda>t. penetration_depth_at_time cfg t (pn_crack_width_um p) (pn_viscosity_pa_s p)
      (pn_surface_tension_n_m p) (pn_contact_angle_deg p)) (pn_time_series p) = map Some (pn_depth_series p)"
proof -
  let ?w = "chosen_width cfg crack" and ?v = "chosen_viscosity cfg m"
  obtain t where t: "time_to_reach_depth cfg target ?w ?v tension angle = Some t"
    using time_returns by blast
  define h where "h = (\<lambda>s. the (penetration_depth_at_time cfg s ?w ?v tension angle))"
  have h: "penetration_depth_at_time cfg s ?w ?v tension angle = Some (h s)" for s
    using depth_returns [of cfg s ?w ?v tension angle] by (auto simp: h_def)
  obtain theta tau r where eff: "effective_params cfg ?w angle = (theta, tau, r)"
    by (cases "effective_params cfg ?w angle") auto
  define times where "times = series_times (wb_time_series_points cfg) (series_end t)"
  have "those (map (\<lambda>s. penetration_depth_at_time cfg s ?w ?v tension angle) times) = Some (map h times)"
    by (rule those_Some [OF h])
  moreover have "length times = nat (wb_time_series_points cfg + 1)"
    by (simp add: times_def series_times_def)
  ultimately show ?thesis
    unfolding predict_penetration_def Let_def assms sum.case t option.case times_def [symmetric]
    by (intro exI [where x = "let p = (describe_penetration cfg now crack_id material_id target ?w ?v tension angle)
          \<lparr>pn_predicted_time_s := t, pn_time_series := times, pn_depth_series := map h times\<rparr>;
        p = p\<lparr>pn_parameters := prediction_parameters cfg ?w tension angle p\<rparr>
      in p\<lparr>pn_result := wb_result_to_json cfg p\<rparr>"])
      (simp add: Let_def describe_penetration_def eff t h)
qed

lemma predict_penetration_plain:
  assumes "rm_properties m = JNull" and "wb_time_series_points cfg = 100"
  shows "\<exists>p. predict_penetration cfg now crack_id material_id crack m target = Some (Inr p)"
proof -
  have "material_number m k d = Inr d" for k d
    by (simp add: material_number_def assms(1) json_contains_def)
  from predict_penetration_form [where cfg = cfg and m = m, OF this this, of now crack_id material_id crack target] show ?thesis
    using assms(2) by auto
qed

text \<open>C33: A prediction always returns, for every configuration, crack, material and target, NaN and
  infinities included: both integration loops end. It fails only on a property of the material
  that is no number or on a series with a negative or the greatest number of points. Otherwise
  the time it reports and the depths of its series are those of the two functions, and the series
  has one point more than configured.\<close>

theorem penetration_returns:
  "\<exists>r. predict_penetration cfg now crack_id material_id crack m target = Some r \<and>
    (case r of
       Inl e \<Rightarrow> e \<in> {Json_error, UB ''signed overflow'', Length_error ''vector::reserve''}
     | Inr p \<Rightarrow>
         time_to_reach_depth cfg target (pn_crack_width_um p) (pn_viscosity_pa_s p)
           (pn_surface_tension_n_m p) (pn_contact_angle_deg p) = Some (pn_predicted_time_s p) \<and>
         length (pn_time_series p) = nat (wb_time_series_points cfg + 1) \<and>
         map (\<lambda>t. penetration_depth_at_time cfg t (pn_crack_width_um p) (pn_viscosity_pa_s p)
           (pn_surface_tension_n_m p) (pn_contact_angle_deg p)) (pn_time_series p) = map Some (pn_depth_series p))"
proof (cases "material_number m ''surface_tension_n_m'' (wb_surface_tension_n_m cfg)")
  case (Inl e)
  then show ?thesis
    using material_number_error [OF Inl] by (simp add: predict_penetration_def Let_def)
next
  case (Inr tension)
  note tension = this
  show ?thesis
  proof (cases "material_number m ''contact_angle_deg'' (wb_contact_angle_deg cfg)")
    case (Inl e)
    then show ?thesis
      using material_number_error [OF Inl] tension by (simp add: predict_penetration_def Let_def)
  next
    case (Inr angle)
    from predict_penetration_form [OF tension Inr, of now crack_id material_id crack target] show ?thesis
      by auto
  qed
qed

end
