(* ===== verification/Washburn_Module.thy ===== *)
theory Washburn_Module
  imports Washburn_Model Module_Interface
begin

section \<open>The penetration module (modules/washburn_penetration/washburn_module.cpp)\<close>

text \<open>
  The module keeps one model per thread of its pool, behind a mutex, and splits a batch of cracks
  into chunks that the pool's threads work off. Which model a thread takes depends on a
  thread-local counter; here \<open>tls i\<close> is the value it has when crack \<open>i\<close> is started, and \<open>stop i\<close> is
  whether the cancellation flag is set at that moment, so every schedule of the threads is covered.
  An absent pool is \<open>None\<close>. Sizes are natural numbers, far below the range of \<open>size_t\<close>.
\<close>

record batch_options =
  bo_min_batch_per_thread :: nat
  bo_max_parallel :: nat
  bo_enable_cancellation :: bool

definition default_options :: batch_options where
  "default_options = \<lparr>bo_min_batch_per_thread = 8, bo_max_parallel = 0, bo_enable_cancellation = True\<rparr>"

record washburn_module =
  wm_pool :: "nat option"
  wm_models :: "penetration_config list"
  wm_status :: module_status
  wm_cancelled :: bool
  wm_config :: penetration_config

definition new_washburn_module :: "nat \<Rightarrow> nat \<Rightarrow> washburn_module" where
  "new_washburn_module hardware_concurrency num_threads =
     \<lparr>wm_pool = Some (if num_threads = 0 then max 1 hardware_concurrency else num_threads),
      wm_models = [], wm_status = UNINITIALIZED, wm_cancelled = False, wm_config = default_penetration_config\<rparr>"

definition load_washburn :: "penetration_config loader" where
  "load_washburn = in_order
     [field json_get_num ''default_surface_tension_n_m'' (\<lambda>v c. c\<lparr>wb_surface_tension_n_m := v\<rparr>),
      field json_get_num ''default_contact_angle_deg'' (\<lambda>v c. c\<lparr>wb_contact_angle_deg := v\<rparr>),
      field json_get_num ''default_viscosity_pa_s'' (\<lambda>v c. c\<lparr>wb_viscosity_pa_s := v\<rparr>),
      field json_get_num ''tortuosity_factor'' (\<lambda>v c. c\<lparr>wb_tortuosity_factor := v\<rparr>),
      field json_get_num ''wall_roughness_ra_um'' (\<lambda>v c. c\<lparr>wb_wall_roughness_ra_um := v\<rparr>),
      field json_get_bool ''wenzel_roughness_correction'' (\<lambda>v c. c\<lparr>wb_wenzel_correction := v\<rparr>)]"

definition washburn_initialize :: "json \<Rightarrow> washburn_module \<Rightarrow> bool \<times> washburn_module" where
  "washburn_initialize cfg m =
     (case section_of ''washburn_config'' id (\<lambda>d _. d) load_washburn cfg (wm_config m) of
        (Some e, c) \<Rightarrow> (False, m\<lparr>wm_config := c, wm_status := ERROR\<rparr>)
      | (None, c) \<Rightarrow>
          (True, m\<lparr>wm_config := c,
             wm_models := replicate (case wm_pool m of Some n \<Rightarrow> n | None \<Rightarrow> 1) c, wm_status := IDLE\<rparr>))"

subsection \<open>Batches\<close>

text \<open>The remainder by the number of models is undefined before \<open>initialize\<close>.\<close>

definition safe_predict_single ::
  "washburn_module \<Rightarrow> nat \<Rightarrow> time_point \<Rightarrow> crack_info \<Rightarrow> repair_material \<Rightarrow> double \<Rightarrow>
     penetration_prediction result option"
  where
  "safe_predict_single m tls now crack material target =
     (let n = length (wm_models m); idx = tls mod max 1 n in
      if n = 0 then Some (Inl (UB ''remainder by zero''))
      else predict_penetration (wm_models m ! idx) now (wrap32 (ci_id crack)) (rm_id material) crack material target)"

definition next_tls :: "washburn_module \<Rightarrow> nat \<Rightarrow> nat" where
  "next_tls m tls = (tls + 1) mod length (wm_models m)"

fun run_chunk ::
  "(nat \<Rightarrow> bool) \<Rightarrow> (nat \<Rightarrow> penetration_prediction result option) \<Rightarrow> nat list \<Rightarrow>
     penetration_prediction list result option"
  where
  "run_chunk stop f [] = Some (Inr [])"
| "run_chunk stop f (i # is) =
     (if stop i then Some (Inr (replicate (Suc (length is)) new_penetration_prediction))
      else case f i of
        None \<Rightarrow> None
      | Some (Inl e) \<Rightarrow> Some (Inl e)
      | Some (Inr p) \<Rightarrow> map_option (\<lambda>r. and_then r (\<lambda>ps. Inr (p # ps))) (run_chunk stop f is))"

text \<open>The futures are awaited in the order of the chunks.\<close>

fun await_chunks ::
  "penetration_prediction list result option list \<Rightarrow> penetration_prediction list result option" where
  "await_chunks [] = Some (Inr [])"
| "await_chunks (None # cs) = None"
| "await_chunks (Some (Inl e) # cs) = Some (Inl e)"
| "await_chunks (Some (Inr ps) # cs) = map_option (\<lambda>r. and_then r (\<lambda>qs. Inr (ps @ qs))) (await_chunks cs)"

definition chunks :: "nat \<Rightarrow> nat \<Rightarrow> batch_options \<Rightarrow> nat list list" where
  "chunks workers batch opts =
     (let num_workers = (if 0 < bo_max_parallel opts then min workers (bo_max_parallel opts) else workers);
          chunk_size = max (bo_min_batch_per_thread opts) ((batch + num_workers - 1) div num_workers);
          num_chunks = (batch + chunk_size - 1) div chunk_size
      in map (\<lambda>c. [c * chunk_size..<min (c * chunk_size + chunk_size) batch]) [0..<num_chunks])"

definition predict_chunked ::
  "washburn_module \<Rightarrow> (nat \<Rightarrow> nat) \<Rightarrow> (nat \<Rightarrow> bool) \<Rightarrow> (nat \<Rightarrow> time_point) \<Rightarrow> crack_info list \<Rightarrow> repair_material \<Rightarrow>
     double \<Rightarrow> batch_options \<Rightarrow> penetration_prediction list result option"
  where
  "predict_chunked m tls stop now cracks material target opts =
     (if cracks = [] then Some (Inr [])
      else case wm_pool m of
        None \<Rightarrow> Some (Inl (UB ''null thread pool''))
      | Some n \<Rightarrow>
          await_chunks (map (run_chunk (\<lambda>i. bo_enable_cancellation opts \<and> stop i)
            (\<lambda>i. safe_predict_single m (tls i) (now i) (cracks ! i) material target))
            (chunks n (length cracks) opts)))"

text \<open>\<open>predict_batch\<close> submits one task per crack; a cancelled task answers with an empty prediction
  of its crack.\<close>

definition predict_batch ::
  "washburn_module \<Rightarrow> (nat \<Rightarrow> nat) \<Rightarrow> (nat \<Rightarrow> bool) \<Rightarrow> (nat \<Rightarrow> time_point) \<Rightarrow> crack_info list \<Rightarrow> repair_material \<Rightarrow>
     double \<Rightarrow> penetration_prediction list result option"
  where
  "predict_batch m tls stop now cracks material target =
     (if cracks = [] then Some (Inr [])
      else if wm_pool m = None then Some (Inl (UB ''null thread pool''))
      else await_chunks (map (\<lambda>i.
        map_option (\<lambda>r. and_then r (\<lambda>p. Inr [p]))
          (if stop i then Some (Inr (new_penetration_prediction\<lparr>pn_crack_id := wrap32 (ci_id (cracks ! i)),
             pn_material_id := rm_id material\<rparr>))
           else safe_predict_single m (tls i) (now i) (cracks ! i) material target)) [0..<length cracks]))"

subsection \<open>Requests\<close>

definition blank_crack :: crack_info where
  "blank_crack = \<lparr>ci_id = 0, ci_porcelain_id = 0, ci_crack_code = [], ci_max_depth = 0, ci_max_width = 0,
     ci_total_length = 0, ci_status = [], ci_points = [], ci_detected_at = 0\<rparr>"

definition unset_material :: repair_material where
  "unset_material = \<lparr>rm_id = indeterminate, rm_type = indeterminate, rm_name = [], rm_manufacturer = [],
     rm_particle_size_nm = indeterminate, rm_purity = indeterminate, rm_viscosity = indeterminate,
     rm_refractive_index = indeterminate, rm_thermal_expansion_coeff = indeterminate, rm_properties = JNull\<rparr>"

definition request_crack :: "json \<Rightarrow> crack_info result" where
  "request_crack c =
     and_then (json_value json_get_int c ''id'' 0) (\<lambda>i.
     and_then (json_value json_get_num c ''max_width'' (D 10)) (\<lambda>w.
     and_then (json_value json_get_num c ''max_depth'' (D 50)) (\<lambda>d.
     and_then (json_value json_get_num c ''total_length'' (D 1)) (\<lambda>l.
     Inr (blank_crack\<lparr>ci_id := i, ci_max_width := w, ci_max_depth := d, ci_total_length := l\<rparr>)))))"

definition request_material :: "json \<Rightarrow> repair_material result" where
  "request_material m =
     and_then (json_value json_get_int m ''id'' 0) (\<lambda>i.
     and_then (json_value json_get_str m ''name'' ''default'') (\<lambda>n.
     and_then (json_value json_get_num m ''viscosity'' (D 1)) (\<lambda>v.
     Inr (unset_material\<lparr>rm_id := i, rm_name := n, rm_viscosity := v\<rparr>))))"

type_synonym washburn_job = "crack_info list \<times> repair_material \<times> double"

definition read_penetration_job :: "json \<Rightarrow> washburn_job result" where
  "read_penetration_job input =
     and_then (if json_contains input ''cracks'' then
         and_then (json_at input ''cracks'') (\<lambda>cs. map_result request_crack (json_elements cs)) else Inr []) (\<lambda>cracks.
     and_then (if json_contains input ''material'' then
         and_then (json_at input ''material'') request_material else Inr unset_material) (\<lambda>material.
     and_then (if json_contains input ''target_depth_um'' then
         and_then (json_at input ''target_depth_um'') json_get_num else Inr (D 50)) (\<lambda>target.
     Inr (cracks, material, target))))"

text \<open>\<open>execute\<close> hands the job to a detached thread; it alone sets the type of the material.\<close>

definition washburn_execute :: "json \<Rightarrow> washburn_module \<Rightarrow> (bool \<times> washburn_job option \<times> washburn_module) result" where
  "washburn_execute input m =
     (if wm_status m = RUNNING then Inr (False, None, m)
      else let m = m\<lparr>wm_cancelled := False, wm_status := RUNNING\<rparr> in
        case read_penetration_job input of
          Inl (UB u) \<Rightarrow> Inl (UB u)
        | Inl _ \<Rightarrow> Inr (False, None, m\<lparr>wm_status := ERROR\<rparr>)
        | Inr (cracks, material, target) \<Rightarrow>
            Inr (True, Some (cracks, if json_contains input ''material'' then material\<lparr>rm_type := SILICA\<rparr> else material, target), m))"

definition penetration_to_json :: "penetration_prediction \<Rightarrow> json" where
  "penetration_to_json p = JObj
     [(''crack_id'', JInt (pn_crack_id p)), (''material_id'', JInt (pn_material_id p)),
      (''target_depth_um'', JNum (pn_target_depth_um p)), (''predicted_time_s'', JNum (pn_predicted_time_s p)),
      (''penetration_rate_um_s'', JNum (pn_penetration_rate_um_s p)),
      (''crack_width_um'', JNum (pn_crack_width_um p)), (''viscosity_pa_s'', JNum (pn_viscosity_pa_s p)),
      (''wall_roughness_ra_um'', JNum (pn_wall_roughness_ra_um p)),
      (''roughness_factor'', JNum (pn_roughness_factor p)),
      (''wenzel_contact_angle'', JNum (pn_wenzel_contact_angle p)),
      (''effective_radius_um'', JNum (pn_effective_radius_um p)),
      (''effective_tortuosity'', JNum (pn_effective_tortuosity p)),
      (''roughness_correction_applied'', JBool (pn_roughness_correction_applied p))]"

definition penetrations_to_json :: "penetration_prediction list \<Rightarrow> json" where
  "penetrations_to_json ps = JObj
     [(''count'', JInt (wrap32 (int (length ps)))), (''predictions'', JArr (map penetration_to_json ps))]"

text \<open>The end of a run. \<open>what\<close> is the text of an exception.\<close>

definition washburn_finish :: "washburn_module \<Rightarrow> washburn_module" where
  "washburn_finish m = m\<lparr>wm_status := (if wm_cancelled m then IDLE else COMPLETED)\<rparr>"

definition run_async_batch ::
  "(cpp_error \<Rightarrow> string) \<Rightarrow> penetration_prediction list result \<Rightarrow> washburn_module \<Rightarrow> (module_result \<times> washburn_module) result"
  where
  "run_async_batch what outcome m =
     (case outcome of
        Inl (UB u) \<Rightarrow> Inl (UB u)
      | Inl e \<Rightarrow> Inr (failed_result (what e), washburn_finish m)
      | Inr ps \<Rightarrow> Inr (\<lparr>mo_success = True, mo_error_message = [], mo_data = penetrations_to_json ps\<rparr>, washburn_finish m))"

definition washburn_execute_sync ::
  "(cpp_error \<Rightarrow> string) \<Rightarrow> (nat \<Rightarrow> nat) \<Rightarrow> (nat \<Rightarrow> bool) \<Rightarrow> (nat \<Rightarrow> time_point) \<Rightarrow> json \<Rightarrow> washburn_module \<Rightarrow>
     (bool \<times> module_result option \<times> washburn_module) result option"
  where
  "washburn_execute_sync what tls stop now input m =
     (if wm_status m = RUNNING then Some (Inr (False, None, m))
      else let m = m\<lparr>wm_status := RUNNING, wm_cancelled := False\<rparr>;
          failed = (\<lambda>e. case e of UB u \<Rightarrow> Inl (UB u)
            | _ \<Rightarrow> Inr (False, Some (failed_result (what e)), m\<lparr>wm_status := ERROR\<rparr>)) in
        case read_penetration_job input of
          Inl e \<Rightarrow> Some (failed e)
        | Inr (cracks, material, target) \<Rightarrow>
            (case predict_chunked m tls stop now cracks material target default_options of
               None \<Rightarrow> None
             | Some (Inl e) \<Rightarrow> Some (failed e)
             | Some (Inr ps) \<Rightarrow> Some (Inr (True,
                 Some \<lparr>mo_success = True, mo_error_message = [], mo_data = penetrations_to_json ps\<rparr>,
                 m\<lparr>wm_status := COMPLETED\<rparr>))))"

definition washburn_cancel :: "washburn_module \<Rightarrow> washburn_module" where
  "washburn_cancel m = m\<lparr>wm_cancelled := True, wm_status := IDLE\<rparr>"

definition washburn_shutdown :: "washburn_module \<Rightarrow> washburn_module" where
  "washburn_shutdown m = (washburn_cancel m)\<lparr>wm_pool := None, wm_models := [], wm_status := UNINITIALIZED\<rparr>"

subsection \<open>Chunks cover the batch\<close>

lemma concat_intervals:
  "0 < k \<Longrightarrow> concat (map (\<lambda>c. [c * k..<min (c * k + k) n]) [0..<m]) = [0..<min (m * k) n]"
proof (induction m)
  case (Suc m)
  have "[0..<min (m * k) n] @ [m * k..<min (m * k + k) n] = [0..<min (m * k + k) n]"
  proof (cases "m * k \<le> n")
    case True
    then show ?thesis
      using upt_add_eq_append [of 0 "m * k" "min (m * k + k) n - m * k"] by (simp add: min_def)
  next
    case False
    then show ?thesis
      by (simp add: min_def)
  qed
  then show ?case
    using Suc by (simp add: add.commute)
qed simp

lemma chunks_cover:
  assumes "0 < workers" and "0 < batch"
  shows "concat (chunks workers batch opts) = [0..<batch]"
proof -
  define w where "w = (if 0 < bo_max_parallel opts then min workers (bo_max_parallel opts) else workers)"
  define k where "k = max (bo_min_batch_per_thread opts) ((batch + w - 1) div w)"
  have w: "0 < w"
    using assms(1) by (simp add: w_def)
  then have "1 \<le> (batch + w - 1) div w"
    using assms(2) div_le_mono [of w "batch + w - 1" w] by simp
  then have k: "0 < k"
    by (simp add: k_def)
  have "batch \<le> (batch + k - 1) div k * k"
    using k div_mult_mod_eq [of "batch + k - 1" k] mod_less_divisor [OF k, of "batch + k - 1"] by linarith
  then show ?thesis
    using concat_intervals [OF k, of batch "(batch + k - 1) div k"]
    unfolding chunks_def Let_def w_def [symmetric] k_def [symmetric] by (simp add: min_absorb2)
qed

text \<open>The answer of a chunk whose predictions succeed.\<close>

lemma run_chunk_answers:
  assumes "\<And>i. i \<in> set is \<Longrightarrow> f i = Some (Inr (g i))" and "sorted is"
  shows "\<exists>ps. run_chunk stop f is = Some (Inr ps) \<and>
    list_all2 (\<lambda>i p. p = g i \<or> p = new_penetration_prediction \<and> (\<exists>j\<le>i. stop j)) is ps"
  using assms
proof (induction "is")
  case (Cons i "is")
  show ?case
  proof (cases "stop i")
    case True
    then show ?thesis
      using Cons.prems(2) by (auto simp: list_all2_conv_all_nth nth_Cons' intro!: exI [of _ i])
  next
    case False
    then show ?thesis
      using Cons by auto
  qed
qed simp

lemma await_answers:
  assumes "\<forall>is \<in> set chs. \<exists>ps. run is = Some (Inr ps) \<and> list_all2 P is ps"
  shows "\<exists>ps. await_chunks (map run chs) = Some (Inr ps) \<and> list_all2 P (concat chs) ps"
  using assms
proof (induction chs)
  case (Cons c chs)
  obtain ps where ps: "run c = Some (Inr ps)" "list_all2 P c ps"
    using Cons.prems by auto
  obtain qs where qs: "await_chunks (map run chs) = Some (Inr qs)" "list_all2 P (concat chs) qs"
    using Cons.IH Cons.prems by auto
  have "await_chunks (map run (c # chs)) = Some (Inr (ps @ qs))"
    using ps(1) qs(1) by simp
  moreover have "list_all2 P (concat (c # chs)) (ps @ qs)"
    using list_all2_appendI [OF ps(2) qs(2)] by simp
  ultimately show ?case
    by blast
qed simp

lemma safe_prediction:
  assumes "wm_models m = replicate k cfg" and "0 < k" and "rm_properties material = JNull"
    and "wb_time_series_points cfg = 100"
  shows "\<exists>p. safe_predict_single m tls now crack material target = Some (Inr p) \<and>
    predict_penetration cfg now (wrap32 (ci_id crack)) (rm_id material) crack material target = Some (Inr p)"
  using predict_penetration_plain [OF assms(3)] assms
  by (auto simp: safe_predict_single_def Let_def)

lemma await_first_error:
  "concat chs = i # is \<Longrightarrow> \<not> stop i \<Longrightarrow> f i = Some (Inl e) \<Longrightarrow> await_chunks (map (run_chunk stop f) chs) = Some (Inl e)"
proof (induction chs)
  case (Cons c chs)
  show ?case
  proof (cases c)
    case Nil
    then show ?thesis
      using Cons by simp
  next
    case (Cons j js)
    then show ?thesis
      using Cons.prems by simp
  qed
qed simp

lemma chunk_sorted: "ch \<in> set (chunks workers batch opts) \<Longrightarrow> sorted ch"
  unfolding chunks_def Let_def set_map by (elim imageE, hypsubst, rule sorted_upt)

text \<open>C31: A batch of predictions answers for every crack, in the order of the cracks, however the
  batch is cut into chunks, whichever threads and models take them, and whenever it is cancelled:
  the answer for a crack is the prediction of the model, and only from a cancellation on it may be
  an empty one, which looks successful and names crack 0.\<close>

theorem chunked_is_sequential:
  assumes "wm_pool m = Some n" and "0 < n" and "wm_models m = replicate k cfg" and "0 < k"
    and "rm_properties material = JNull" and "wb_time_series_points cfg = 100"
  shows "\<exists>ps. predict_chunked m tls stop now cracks material target opts = Some (Inr ps) \<and> length ps = length cracks \<and>
    (\<forall>i < length cracks.
      predict_penetration cfg (now i) (wrap32 (ci_id (cracks ! i))) (rm_id material) (cracks ! i) material target
        = Some (Inr (ps ! i)) \<or>
      ps ! i = new_penetration_prediction \<and> bo_enable_cancellation opts \<and> (\<exists>j\<le>i. stop j))"
proof (cases "cracks = []")
  case True
  then show ?thesis
    by (simp add: predict_chunked_def)
next
  case False
  let ?f = "\<lambda>i. safe_predict_single m (tls i) (now i) (cracks ! i) material target"
  let ?stop = "\<lambda>i. bo_enable_cancellation opts \<and> stop i"
  have "\<exists>p. ?f i = Some (Inr p) \<and> predict_penetration cfg (now i) (wrap32 (ci_id (cracks ! i))) (rm_id material)
      (cracks ! i) material target = Some (Inr p)" for i
    by (rule safe_prediction [OF assms(3-6)])
  then obtain g where f: "\<And>i. ?f i = Some (Inr (g i))" and g: "\<And>i. predict_penetration cfg (now i)
      (wrap32 (ci_id (cracks ! i))) (rm_id material) (cracks ! i) material target = Some (Inr (g i))"
    by metis
  let ?P = "\<lambda>i p. p = g i \<or> p = new_penetration_prediction \<and> (\<exists>j\<le>i. ?stop j)"
  have "\<forall>is \<in> set (chunks n (length cracks) opts). \<exists>ps. run_chunk ?stop ?f is = Some (Inr ps) \<and> list_all2 ?P is ps"
    using run_chunk_answers [where f = ?f and g = g and stop = ?stop, OF f] chunk_sorted by blast
  from await_answers [OF this]
  obtain ps where "await_chunks (map (run_chunk ?stop ?f) (chunks n (length cracks) opts)) = Some (Inr ps)"
    and "list_all2 ?P [0..<length cracks] ps"
    using chunks_cover [OF assms(2), of "length cracks" opts] False by auto
  then show ?thesis
    using False assms(1) g by (auto simp: predict_chunked_def list_all2_conv_all_nth)
qed

subsection \<open>The life of the module\<close>

lemma washburn_accepted:
  "washburn_execute input m = Inr (True, job, m') \<longleftrightarrow> wm_status m \<noteq> RUNNING \<and>
     (\<exists>cracks material target. read_penetration_job input = Inr (cracks, material, target) \<and>
        job = Some (cracks, if json_contains input ''material'' then material\<lparr>rm_type := SILICA\<rparr> else material, target)) \<and>
     m' = m\<lparr>wm_cancelled := False, wm_status := RUNNING\<rparr>"
proof (cases "read_penetration_job input")
  case (Inl e)
  then show ?thesis
    by (cases e) (auto simp: washburn_execute_def Let_def)
qed (auto simp: washburn_execute_def Let_def split: prod.splits)

definition washburn_start :: "json \<Rightarrow> washburn_module \<Rightarrow> bool \<times> washburn_module" where
  "washburn_start input m = (case washburn_execute input m of Inr (ok, _, m') \<Rightarrow> (ok, m') | Inl _ \<Rightarrow> (False, m))"

lemma washburn_startE:
  assumes "fst (washburn_start input m)"
  obtains job where "washburn_execute input m = Inr (True, job, snd (washburn_start input m))"
  using assms by (auto simp: washburn_start_def split: sum.splits prod.splits)

interpretation washburn: analysis_module wm_status wm_cancelled washburn_start washburn_cancel washburn_finish
proof unfold_locales
  show "wm_status m = RUNNING \<Longrightarrow> washburn_start i m = (False, m)" for i m
    by (simp add: washburn_start_def washburn_execute_def)
  show "wm_status (snd (washburn_start i m)) = RUNNING \<and> \<not> wm_cancelled (snd (washburn_start i m))"
    if "fst (washburn_start i m)" for i m
    using that by (elim washburn_startE) (simp add: washburn_accepted)
qed (simp_all add: washburn_cancel_def washburn_finish_def)

text \<open>A run that was cancelled goes on when the next request is accepted before it notices, because
  \<open>execute\<close> takes the flag back: it finishes as completed. After \<open>shutdown\<close> the module still accepts
  requests and then dereferences its missing pool, and a module that was never initialised divides
  by its number of models, zero.\<close>

theorem penetration_module_life:
  assumes "cracks \<noteq> []" and "washburn_execute first m = Inr (True, job1, m1)"
    and "washburn_execute second (washburn_cancel m1) = Inr (True, job2, m2)"
  shows "\<not> wm_cancelled m2 \<and> wm_status (washburn_finish m2) = COMPLETED
    \<and> (\<exists>m3. washburn_execute first (washburn_shutdown m) = Inr (True, job1, m3) \<and>
        predict_chunked m3 tls stop now cracks material target opts = Some (Inl (UB ''null thread pool'')))
    \<and> (\<not> stop 0 \<longrightarrow> predict_chunked (new_washburn_module hw threads) tls stop now cracks material target opts =
        Some (Inl (UB ''remainder by zero'')))"
proof (intro conjI impI)
  have "fst (washburn_start first m)" "snd (washburn_start first m) = m1"
    "fst (washburn_start second (washburn_cancel m1))" "snd (washburn_start second (washburn_cancel m1)) = m2"
    using assms(2,3) by (simp_all add: washburn_start_def)
  then show "\<not> wm_cancelled m2" "wm_status (washburn_finish m2) = COMPLETED"
    using washburn.cancellation_lost by metis+
  show "\<exists>m3. washburn_execute first (washburn_shutdown m) = Inr (True, job1, m3) \<and>
      predict_chunked m3 tls stop now cracks material target opts = Some (Inl (UB ''null thread pool''))"
    using assms(1,2) unfolding washburn_accepted
    by (auto simp: washburn_shutdown_def washburn_cancel_def predict_chunked_def)
  show "predict_chunked (new_washburn_module hw threads) tls stop now cracks material target opts =
      Some (Inl (UB ''remainder by zero''))" if "\<not> stop 0"
  proof -
    define n where "n = (if threads = 0 then max 1 hw else threads)"
    have n: "0 < n" "wm_pool (new_washburn_module hw threads) = Some n"
      by (auto simp: n_def new_washburn_module_def max_def)
    have "concat (chunks n (length cracks) opts) = 0 # [1..<length cracks]"
      using chunks_cover [OF n(1), of "length cracks" opts] assms(1) upt_conv_Cons [of 0 "length cracks"] by simp
    moreover have "safe_predict_single (new_washburn_module hw threads) t w c material target =
        Some (Inl (UB ''remainder by zero''))" for t w c
      by (simp add: safe_predict_single_def new_washburn_module_def)
    ultimately show ?thesis
      using assms(1) n(2) that by (simp add: predict_chunked_def await_first_error)
  qed
qed

definition sample_material :: repair_material where
  "sample_material = unset_material\<lparr>rm_id := 3, rm_viscosity := D 1\<rparr>"

definition ready_module :: washburn_module where
  "ready_module = snd (washburn_initialize (JObj []) (new_washburn_module 2 0))"

lemma ready_module_parts:
  "wm_pool ready_module = Some 2" "wm_models ready_module = replicate 2 default_penetration_config"
  by (simp_all add: ready_module_def washburn_initialize_def section_of_def json_contains_def new_washburn_module_def
      numeral_2_eq_2)

theorem chunked_is_sequential_witness:
  "\<exists>ps. predict_chunked ready_module (\<lambda>_. 0) (\<lambda>i. i = 2) (\<lambda>_. 0) [blank_crack, blank_crack, blank_crack] sample_material (D 50)
      (default_options\<lparr>bo_min_batch_per_thread := 1\<rparr>) = Some (Inr ps) \<and> length ps = 3 \<and>
    predict_penetration default_penetration_config 0 0 3 blank_crack sample_material (D 50) = Some (Inr (ps ! 0))"
proof -
  note m = ready_module_parts
  have "wb_time_series_points default_penetration_config = 100"
    by (simp add: default_penetration_config_def)
  from chunked_is_sequential [OF m(1) _ m(2) _ _ this, where material = sample_material and stop = "\<lambda>i. i = 2"
      and tls = "\<lambda>_. 0" and now = "\<lambda>_. 0" and cracks = "[blank_crack, blank_crack, blank_crack]" and target = "D 50"
      and opts = "default_options\<lparr>bo_min_batch_per_thread := 1\<rparr>"]
  obtain ps where ps: "predict_chunked ready_module (\<lambda>_. 0) (\<lambda>i. i = 2) (\<lambda>_. 0) [blank_crack, blank_crack, blank_crack]
      sample_material (D 50) (default_options\<lparr>bo_min_batch_per_thread := 1\<rparr>) = Some (Inr ps)" "length ps = 3"
    and "\<forall>i < 3. predict_penetration default_penetration_config 0 (wrap32 (ci_id ([blank_crack, blank_crack, blank_crack] ! i)))
      (rm_id sample_material) ([blank_crack, blank_crack, blank_crack] ! i) sample_material (D 50) = Some (Inr (ps ! i)) \<or>
      ps ! i = new_penetration_prediction \<and> (\<exists>j\<le>i. j = 2)"
    by (auto simp: sample_material_def unset_material_def default_options_def numeral_3_eq_3)
  from this(3) have "predict_penetration default_penetration_config 0 (wrap32 (ci_id blank_crack)) (rm_id sample_material)
      blank_crack sample_material (D 50) = Some (Inr (ps ! 0))"
    by (auto dest: spec [of _ 0])
  then show ?thesis
    using ps by (simp add: blank_crack_def sample_material_def wrap32_def)
qed

theorem penetration_module_life_witness:
  "let m1 = ready_module\<lparr>wm_cancelled := False, wm_status := RUNNING\<rparr>
   in \<exists>m2. washburn_execute (JObj []) (washburn_cancel m1) = Inr (True, Some ([], unset_material, D 50), m2) \<and>
     \<not> wm_cancelled m2 \<and> wm_status (washburn_finish m2) = COMPLETED"
proof -
  let ?m1 = "ready_module\<lparr>wm_cancelled := False, wm_status := RUNNING\<rparr>"
  have idle: "wm_status ready_module = IDLE"
    by (simp add: ready_module_def washburn_initialize_def section_of_def json_contains_def)
  have job: "read_penetration_job (JObj []) = Inr ([], unset_material, D 50)"
    by (simp add: read_penetration_job_def json_contains_def)
  have 1: "washburn_execute (JObj []) ready_module = Inr (True, Some ([], unset_material, D 50), ?m1)"
    unfolding washburn_accepted by (simp add: idle job json_contains_def)
  have 2: "washburn_execute (JObj []) (washburn_cancel ?m1) = Inr (True, Some ([], unset_material, D 50),
      (washburn_cancel ?m1)\<lparr>wm_cancelled := False, wm_status := RUNNING\<rparr>)"
    unfolding washburn_accepted by (simp add: washburn_cancel_def job json_contains_def)
  show ?thesis
    using penetration_module_life [of "[blank_crack]", OF _ 1 2] 2 by (auto simp: Let_def)
qed


subsection \<open>Batches without waiting\<close>

definition predict_single ::
  "washburn_module \<Rightarrow> nat \<Rightarrow> time_point \<Rightarrow> crack_info \<Rightarrow> repair_material \<Rightarrow> double \<Rightarrow> penetration_prediction result option" where
  "predict_single m tls now crack material target = safe_predict_single m tls now crack material target"

text \<open>The tasks keep references to the caller's list and material: \<open>alive i\<close> tells whether both still
  exist when task \<open>i\<close> runs. The answers are what the futures hold.\<close>

definition predict_batch_async ::
  "washburn_module \<Rightarrow> (nat \<Rightarrow> nat) \<Rightarrow> (nat \<Rightarrow> bool) \<Rightarrow> (nat \<Rightarrow> time_point) \<Rightarrow> crack_info list \<Rightarrow> repair_material \<Rightarrow>
     double \<Rightarrow> penetration_prediction result option list result"
  where
  "predict_batch_async m tls alive now cracks material target =
     (if cracks = [] then Inr []
      else if wm_pool m = None then Inl (UB ''null thread pool'')
      else Inr (map (\<lambda>i. if alive i then safe_predict_single m (tls i) (now i) (cracks ! i) material target
          else Some (Inl (UB ''dangling reference''))) [0..<length cracks]))"

text \<open>A caller that keeps its arguments until every future is ready and then collects the futures in
  order gets what \<open>predict_batch\<close> answers when nothing is cancelled. A caller that returns earlier has
  handed its tasks dangling references.\<close>

theorem async_batch_collected:
  assumes "predict_batch_async m tls alive now cracks material target = Inr futures"
  shows "((\<forall>i. alive i) \<longrightarrow> await_chunks (map (map_option (map_sum id (\<lambda>p. [p]))) futures)
      = predict_batch m tls (\<lambda>_. False) now cracks material target)
    \<and> (\<forall>i < length cracks. \<not> alive i \<longrightarrow> futures ! i = Some (Inl (UB ''dangling reference'')))"
proof (cases "cracks = []")
  case False
  then have f: "futures = map (\<lambda>i. if alive i then safe_predict_single m (tls i) (now i) (cracks ! i) material target
      else Some (Inl (UB ''dangling reference''))) [0..<length cracks]" "wm_pool m \<noteq> None"
    using assms by (auto simp: predict_batch_async_def split: if_splits)
  have "map_option (map_sum id (\<lambda>p. [p])) x = map_option (\<lambda>r. and_then r (\<lambda>p. Inr [p])) x"
    for x :: "penetration_prediction result option"
    by (cases x) (auto simp: and_then_def split: sum.split)
  then show ?thesis
    using False f by (auto simp: predict_batch_def comp_def)
qed (use assms in \<open>simp add: predict_batch_async_def predict_batch_def\<close>)

theorem async_batch_collected_witness:
  "\<exists>futures. predict_batch_async ready_module (\<lambda>_. 0) (\<lambda>i. i \<noteq> 1) (\<lambda>_. 0) [blank_crack, blank_crack] sample_material (D 50)
      = Inr futures \<and> futures ! 1 = Some (Inl (UB ''dangling reference''))"
proof -
  obtain futures where f: "predict_batch_async ready_module (\<lambda>_. 0) (\<lambda>i. i \<noteq> 1) (\<lambda>_. 0) [blank_crack, blank_crack]
      sample_material (D 50) = Inr futures"
    by (simp add: predict_batch_async_def ready_module_parts)
  show ?thesis
    using async_batch_collected [OF f] f by simp
qed

end
