(* ===== verification/Stress_Analysis.thy ===== *)
theory Stress_Analysis
  imports Data_Model Relative_Errors
begin

section \<open>Stress analysis of a cracked porcelain (algorithms/stress_analysis.cpp)\<close>

text \<open>
  The structured grid around the cracks, the crack density, the relaxation of the displacements,
  stresses, smoothing, and the adaptive refinement. Every access to the vector of nodes is a read
  or write through \<open>node_at\<close>, which is undefined behaviour past the end. The stress of a new node
  is not initialised: \<open>junk n\<close> is what the memory of the \<open>n\<close>-th node of the grid holds.
  \<open>rand k\<close> is the \<open>k\<close>-th result of \<open>rand()\<close>. Numbers of nodes are taken to fit an \<open>int\<close>.
\<close>

subsection \<open>Configuration and state\<close>

record fem_config =
  fem_grid_resolution :: int
  fem_youngs_modulus_gpa :: double
  fem_poissons_ratio :: double
  fem_stress_relaxation_time_h :: double
  fem_crack_density_sensitivity :: double
  fem_directional_coupling :: double
  fem_max_stress_mpa :: double
  fem_use_adaptive_mesh :: bool
  fem_max_refinement_level :: int
  fem_refinement_stress_gradient_threshold :: double
  fem_refinement_crack_density_threshold :: double
  fem_coarsening_stress_gradient_threshold :: double
  fem_min_grid_resolution :: int
  fem_max_total_nodes :: int

definition default_fem_config :: fem_config where
  "default_fem_config =
     \<lparr>fem_grid_resolution = 50, fem_youngs_modulus_gpa = D 70, fem_poissons_ratio = D (22/100),
      fem_stress_relaxation_time_h = D 1000, fem_crack_density_sensitivity = D 50,
      fem_directional_coupling = D (7/10), fem_max_stress_mpa = D 300, fem_use_adaptive_mesh = True,
      fem_max_refinement_level = 3, fem_refinement_stress_gradient_threshold = D 20,
      fem_refinement_crack_density_threshold = D (3/10), fem_coarsening_stress_gradient_threshold = D 5,
      fem_min_grid_resolution = 20, fem_max_total_nodes = 500000\<rparr>"

fun coord :: "nat \<Rightarrow> vec \<Rightarrow> double" where
  "coord d (x, y, z) = (if d = 0 then x else if d = 1 then y else z)"

record fem_node =
  fn_x :: double
  fn_y :: double
  fn_z :: double
  fn_displacement :: vec
  fn_strain :: "double list"
  fn_stress :: stress_tensor
  fn_crack_density :: double
  fn_crack_direction :: vec
  fn_is_boundary :: bool
  fn_refinement_level :: int
  fn_needs_refinement :: bool
  fn_gradient :: double
  fn_parent :: int

record fea_mesh =
  ms_nodes :: "fem_node list"
  ms_nx :: int
  ms_ny :: int
  ms_nz :: int
  ms_dx :: double
  ms_dy :: double
  ms_dz :: double
  ms_bbox_min :: vec
  ms_bbox_max :: vec
  ms_refinement_levels :: "int list"
  ms_max_level_used :: int

record fem_solver =
  fs_config :: fem_config
  fs_lambda :: double
  fs_mu :: double

definition new_fem_solver :: fem_solver where
  "new_fem_solver = \<lparr>fs_config = default_fem_config, fs_lambda = 0, fs_mu = 0\<rparr>"

definition fem_set_config :: "fem_config \<Rightarrow> fem_solver \<Rightarrow> fem_solver" where
  "fem_set_config config s =
     (let c = config\<lparr>fem_max_refinement_level := max 0 (fem_max_refinement_level config),
            fem_max_total_nodes := max 1 (fem_max_total_nodes config),
            fem_grid_resolution := max 1 (fem_grid_resolution config)\<rparr>;
          E = fem_youngs_modulus_gpa c * D (10 ^ 9);
          nu = fem_poissons_ratio c
      in s\<lparr>fs_config := c,
           fs_lambda := E * nu / ((D 1 + nu) * (D 1 - D 2 * nu)),
           fs_mu := E / (D 2 * (D 1 + nu))\<rparr>)"

subsection \<open>The grid\<close>

definition DBL_MAX :: double where
  "DBL_MAX = D (2 ^ 1024 - 2 ^ 971)"

definition fem_points :: "crack_info list \<Rightarrow> point3d list" where
  "fem_points cracks = concat (map ci_points cracks)"

definition extent :: "(point3d \<Rightarrow> double) \<Rightarrow> crack_info list \<Rightarrow> double \<times> double" where
  "extent f cracks =
     (fold (\<lambda>p m. std_min m (f p)) (fem_points cracks) DBL_MAX,
      fold (\<lambda>p m. std_max m (f p)) (fem_points cracks) (- DBL_MAX))"

definition empty_mesh :: "int \<Rightarrow> fea_mesh" where
  "empty_mesh r =
     \<lparr>ms_nodes = [], ms_nx = r, ms_ny = r, ms_nz = r, ms_dx = D 1, ms_dy = D 1, ms_dz = D 1,
      ms_bbox_min = (0, 0, 0), ms_bbox_max = (D 1, D 1, D 1), ms_refinement_levels = [], ms_max_level_used = 0\<rparr>"

definition grid_node :: "(nat \<Rightarrow> stress_tensor) \<Rightarrow> fea_mesh \<Rightarrow> nat \<Rightarrow> int \<times> int \<times> int \<Rightarrow> fem_node" where
  "grid_node junk m n = (\<lambda>(i, j, k).
     (case ms_bbox_min m of (x0, y0, z0) \<Rightarrow>
       \<lparr>fn_x = x0 + of_i i * ms_dx m, fn_y = y0 + of_i j * ms_dy m, fn_z = z0 + of_i k * ms_dz m,
        fn_displacement = (0, 0, 0), fn_strain = replicate 6 0, fn_stress = junk n, fn_crack_density = 0,
        fn_crack_direction = (D 1, 0, 0),
        fn_is_boundary = (i = 0 \<or> i = ms_nx m - 1 \<or> j = 0 \<or> j = ms_ny m - 1 \<or> k = 0 \<or> k = ms_nz m - 1),
        fn_refinement_level = 0, fn_needs_refinement = False, fn_gradient = 0, fn_parent = - 1\<rparr>))"

text \<open>The positions a triple loop over \<open>k\<close>, \<open>j\<close>, \<open>i\<close> visits, in its order.\<close>

definition positions :: "int list \<Rightarrow> int list \<Rightarrow> int list \<Rightarrow> (int \<times> int \<times> int) list" where
  "positions is js ks = concat (map (\<lambda>k. concat (map (\<lambda>j. map (\<lambda>i. (i, j, k)) is) js)) ks)"

definition grid_positions :: "fea_mesh \<Rightarrow> (int \<times> int \<times> int) list" where
  "grid_positions m = positions [0..ms_nx m - 1] [0..ms_ny m - 1] [0..ms_nz m - 1]"

definition build_grid :: "(nat \<Rightarrow> stress_tensor) \<Rightarrow> fem_config \<Rightarrow> crack_info list \<Rightarrow> fea_mesh result" where
  "build_grid junk cfg cracks =
     (if cracks = [] then Inr (empty_mesh (fem_grid_resolution cfg))
      else
        let (min_x, max_x) = extent px cracks; (min_y, max_y) = extent py cracks; (min_z, max_z) = extent pz cracks;
            padding = D (1/10) * std_max (std_max (max_x - min_x) (max_y - min_y)) (max_z - min_z);
            padding = (if padding < D (1 / 10 ^ 6) then D (1 / 10 ^ 3) else padding);
            r = fem_grid_resolution cfg;
            x0 = min_x - padding; y0 = min_y - padding; z0 = min_z - padding;
            x1 = max_x + padding; y1 = max_y + padding; z1 = max_z + padding;
            m = (empty_mesh r)\<lparr>ms_bbox_min := (x0, y0, z0), ms_bbox_max := (x1, y1, z1),
              ms_dx := (x1 - x0) / of_i (r - 1), ms_dy := (y1 - y0) / of_i (r - 1),
              ms_dz := (z1 - z0) / of_i (r - 1)\<rparr>
        in if 2 ^ 31 \<le> r * r * r then Inl (UB ''signed overflow'')
           else Inr (m\<lparr>ms_nodes := map (\<lambda>(n, p). grid_node junk m n p) (List.enumerate 0 (grid_positions m)),
             ms_refinement_levels := map (\<lambda>_. 0) (grid_positions m)\<rparr>))"

subsection \<open>Crack density\<close>

definition gaussian_weight :: "double \<Rightarrow> double \<Rightarrow> double" where
  "gaussian_weight distance sigma =
     (if sigma < D (1 / 10 ^ 12) then 0 else dexp (- distance * distance / (D 2 * sigma * sigma)))"

definition avg_spacing :: "fea_mesh \<Rightarrow> double" where
  "avg_spacing m = dcbrt (ms_dx m * ms_dy m * ms_dz m)"

definition distance_to :: "fem_node \<Rightarrow> double \<Rightarrow> double \<Rightarrow> double \<Rightarrow> double" where
  "distance_to node x y z =
     (let dx = fn_x node - x; dy = fn_y node - y; dz = fn_z node - z in dsqrt (dx * dx + dy * dy + dz * dz))"

definition weigh_point ::
  "double \<Rightarrow> fem_node \<Rightarrow> double \<Rightarrow> point3d \<Rightarrow> double \<times> double \<times> vec \<Rightarrow> double \<times> double \<times> vec" where
  "weigh_point sigma node crack_contribution p = (\<lambda>(total_weight, weighted_sum, dir_x, dir_y, dir_z).
     (let dx = fn_x node - px p; dy = fn_y node - py p; dz = fn_z node - pz p;
          distance = distance_to node (px p) (py p) (pz p);
          w = gaussian_weight distance sigma;
          (ux, uy, uz) = (case pnormal p of
             Some (a, b, c) \<Rightarrow> (w * a, w * b, w * c)
           | None \<Rightarrow> (let l = distance + D (1 / 10 ^ 12) in (w * dx / l, w * dy / l, w * dz / l)))
      in (total_weight + w, weighted_sum + w * crack_contribution, dir_x + ux, dir_y + uy, dir_z + uz)))"

definition weigh_cracks :: "double \<Rightarrow> fem_node \<Rightarrow> crack_info list \<Rightarrow> double \<times> double \<times> vec" where
  "weigh_cracks sigma node cracks =
     fold (\<lambda>crack. fold (weigh_point sigma node (ci_max_depth crack * ci_max_width crack)) (ci_points crack))
       cracks (0, 0, 0, 0, 0)"

definition node_density :: "double \<Rightarrow> crack_info list \<Rightarrow> fem_node \<Rightarrow> fem_node" where
  "node_density sigma cracks node =
     (case weigh_cracks sigma node cracks of (total_weight, weighted_sum, dir_x, dir_y, dir_z) \<Rightarrow>
       if D (1 / 10 ^ 12) < total_weight then
         (let node = node\<lparr>fn_crack_density := weighted_sum / total_weight\<rparr>;
              norm = dsqrt (dir_x * dir_x + dir_y * dir_y + dir_z * dir_z)
          in if D (1 / 10 ^ 12) < norm then
               node\<lparr>fn_crack_direction := (dir_x / norm, dir_y / norm, dir_z / norm)\<rparr>
             else node)
       else node\<lparr>fn_crack_density := 0\<rparr>)"

definition compute_crack_density_field :: "fem_config \<Rightarrow> crack_info list \<Rightarrow> fea_mesh \<Rightarrow> fea_mesh" where
  "compute_crack_density_field cfg cracks m =
     (if cracks = [] \<or> ms_nodes m = [] then m
      else
        let sigma = fem_crack_density_sensitivity cfg * avg_spacing m;
            nodes = map (node_density sigma cracks) (ms_nodes m);
            max_density = foldl (\<lambda>v node. std_max v (fn_crack_density node)) 0 nodes
        in m\<lparr>ms_nodes :=
          (if D (1 / 10 ^ 12) < max_density
           then map (\<lambda>node. node\<lparr>fn_crack_density := fn_crack_density node / max_density\<rparr>) nodes
           else nodes)\<rparr>)"

definition principal_stress_direction :: "fem_node \<Rightarrow> fem_node" where
  "principal_stress_direction node =
     (case fn_crack_direction node of (nx, ny, nz) \<Rightarrow>
       let len = dsqrt (nx * nx + ny * ny + nz * nz) in
       if len < D (1 / 10 ^ 12) then node\<lparr>fn_crack_direction := (D 1, 0, 0)\<rparr>
       else node\<lparr>fn_crack_direction := (nx / len, ny / len, nz / len)\<rparr>)"

definition direct_nodes :: "fea_mesh \<Rightarrow> fea_mesh" where
  "direct_nodes m = m\<lparr>ms_nodes := map principal_stress_direction (ms_nodes m)\<rparr>"

subsection \<open>Relaxation of the displacements\<close>

definition idx :: "fea_mesh \<Rightarrow> int \<times> int \<times> int \<Rightarrow> int" where
  "idx m = (\<lambda>(i, j, k). k * ms_nx m * ms_ny m + j * ms_nx m + i)"

definition node_at :: "fea_mesh \<Rightarrow> int \<Rightarrow> fem_node result" where
  "node_at m n = (if 0 \<le> n \<and> n < int (length (ms_nodes m)) then Inr (ms_nodes m ! nat n) else Inl (UB ''vector index''))"

definition put_node :: "int \<Rightarrow> fem_node \<Rightarrow> fea_mesh \<Rightarrow> fea_mesh" where
  "put_node n node m = m\<lparr>ms_nodes := (ms_nodes m)[nat n := node]\<rparr>"

definition interior :: "fea_mesh \<Rightarrow> (int \<times> int \<times> int) list" where
  "interior m = positions [1..ms_nx m - 2] [1..ms_ny m - 2] [1..ms_nz m - 2]"

text \<open>The six neighbours, in the order \<open>n_ip\<close>, \<open>n_im\<close>, \<open>n_jp\<close>, \<open>n_jm\<close>, \<open>n_kp\<close>, \<open>n_km\<close>.\<close>

definition stencil :: "int \<times> int \<times> int \<Rightarrow> (int \<times> int \<times> int) list" where
  "stencil = (\<lambda>(i, j, k). [(i + 1, j, k), (i - 1, j, k), (i, j + 1, k), (i, j - 1, k), (i, j, k + 1), (i, j, k - 1)])"

definition neighbours :: "fea_mesh \<Rightarrow> int \<times> int \<times> int \<Rightarrow> fem_node list result" where
  "neighbours m p = map_result (\<lambda>q. node_at m (idx m q)) (stencil p)"

definition relaxed :: "fem_solver \<Rightarrow> fea_mesh \<Rightarrow> fem_node \<Rightarrow> fem_node list \<Rightarrow> nat \<Rightarrow> double" where
  "relaxed s m node ns d =
     (let inv_dx2 = D 1 / (ms_dx m * ms_dx m); inv_dy2 = D 1 / (ms_dy m * ms_dy m);
          inv_dz2 = D 1 / (ms_dz m * ms_dz m);
          diag = D 2 * (inv_dx2 + inv_dy2 + inv_dz2);
          rho = fn_crack_density node * fem_max_stress_mpa (fs_config s) * D (10 ^ 6);
          coupling = fem_directional_coupling (fs_config s);
          u = (\<lambda>n. coord d (fn_displacement (ns ! n)));
          laplacian = (u 0 + u 1) * inv_dx2 + (u 2 + u 3) * inv_dy2 + (u 4 + u 5) * inv_dz2;
          source = rho * coord d (fn_crack_direction node) * coupling / (fs_lambda s + D 2 * fs_mu s + D (1 / 10 ^ 12));
          new_u = (laplacian + source) / diag;
          relaxation = D (1/2)
      in (D 1 - relaxation) * coord d (fn_displacement node) + relaxation * new_u)"

definition relax_node :: "fem_solver \<Rightarrow> int \<times> int \<times> int \<Rightarrow> fea_mesh \<Rightarrow> fea_mesh result" where
  "relax_node s p m =
     and_then (node_at m (idx m p)) (\<lambda>node.
       if fn_is_boundary node then Inr m
       else and_then (neighbours m p) (\<lambda>ns.
         Inr (put_node (idx m p)
           (node\<lparr>fn_displacement := (relaxed s m node ns 0, relaxed s m node ns 1, relaxed s m node ns 2)\<rparr>) m)))"

definition strain_of :: "fea_mesh \<Rightarrow> fem_node list \<Rightarrow> double list" where
  "strain_of m ns =
     (let along = (\<lambda>a h d. (coord d (fn_displacement (ns ! (2 * a))) - coord d (fn_displacement (ns ! (2 * a + 1)))) / (D 2 * h));
          u_x = along 0 (ms_dx m) 0; v_y = along 1 (ms_dy m) 1; w_z = along 2 (ms_dz m) 2;
          u_y = along 1 (ms_dy m) 0; v_x = along 0 (ms_dx m) 1;
          v_z = along 2 (ms_dz m) 1; w_y = along 1 (ms_dy m) 2;
          w_x = along 0 (ms_dx m) 2; u_z = along 2 (ms_dz m) 0
      in [u_x, v_y, w_z, D (1/2) * (u_y + v_x), D (1/2) * (v_z + w_y), D (1/2) * (w_x + u_z)])"

definition strain_node :: "int \<times> int \<times> int \<Rightarrow> fea_mesh \<Rightarrow> fea_mesh result" where
  "strain_node p m =
     and_then (node_at m (idx m p)) (\<lambda>node.
       if fn_is_boundary node then Inr m
       else and_then (neighbours m p) (\<lambda>ns. Inr (put_node (idx m p) (node\<lparr>fn_strain := strain_of m ns\<rparr>) m)))"

definition solve_elasticity :: "fem_solver \<Rightarrow> fea_mesh \<Rightarrow> fea_mesh result" where
  "solve_elasticity s m =
     (if ms_nodes m = [] then Inr m
      else and_then (fold_result (\<lambda>_ m. fold_result (relax_node s) (interior m) m) [0..<50] m)
        (\<lambda>m. fold_result strain_node (interior m) m))"

subsection \<open>Stresses\<close>

definition hookes_law_3d :: "fem_solver \<Rightarrow> double list \<Rightarrow> nat \<Rightarrow> double" where
  "hookes_law_3d s strain component =
     (let trace = strain ! 0 + strain ! 1 + strain ! 2; two_mu = D 2 * fs_mu s in
      if component < 3 then fs_lambda s * trace + two_mu * (strain ! component)
      else if component < 6 then two_mu * (strain ! component)
      else 0)"

definition coupled_stress :: "fem_solver \<Rightarrow> fem_node \<Rightarrow> stress_tensor" where
  "coupled_stress s node =
     (let hooke = hookes_law_3d s (fn_strain node);
          alpha = fn_crack_density node * fem_directional_coupling (fs_config s);
          (nx, ny, nz) = fn_crack_direction node;
          stress_release = alpha * fem_max_stress_mpa (fs_config s) * D (10 ^ 6)
      in (fn_stress node)
        \<lparr>sigma_xx := hooke 0 - stress_release * nx * nx,
         sigma_yy := hooke 1 - stress_release * ny * ny,
         sigma_zz := hooke 2 - stress_release * nz * nz,
         tau_xy := hooke 3 - stress_release * nx * ny,
         tau_yz := hooke 4 - stress_release * ny * nz,
         tau_zx := hooke 5 - stress_release * nz * nx\<rparr>)"

definition apply_crack_stress_coupling :: "fem_solver \<Rightarrow> fea_mesh \<Rightarrow> fea_mesh" where
  "apply_crack_stress_coupling s m =
     m\<lparr>ms_nodes := map (\<lambda>node. if fn_is_boundary node then node
       else node\<lparr>fn_stress := coupled_stress s node\<rparr>) (ms_nodes m)\<rparr>"

definition von_mises_of :: "stress_tensor \<Rightarrow> double" where
  "von_mises_of t =
     (let sxx = sigma_xx t; syy = sigma_yy t; szz = sigma_zz t; txy = tau_xy t; tyz = tau_yz t; tzx = tau_zx t;
          vm_sq = D (1/2) * ((sxx - syy) * (sxx - syy) + (syy - szz) * (syy - szz) + (szz - sxx) * (szz - sxx)
            + D 6 * (txy * txy + tyz * tyz + tzx * tzx))
      in dsqrt (std_max 0 vm_sq))"

definition compute_von_mises :: "fea_mesh \<Rightarrow> fea_mesh" where
  "compute_von_mises m =
     m\<lparr>ms_nodes := map (\<lambda>node. node\<lparr>fn_stress := (fn_stress node)\<lparr>von_mises := von_mises_of (fn_stress node)\<rparr>\<rparr>)
       (ms_nodes m)\<rparr>"

text \<open>The seven components of a tensor, combined one by one.\<close>

definition tensor_map :: "(double \<Rightarrow> double) \<Rightarrow> stress_tensor \<Rightarrow> stress_tensor" where
  "tensor_map f t =
     \<lparr>sigma_xx = f (sigma_xx t), sigma_yy = f (sigma_yy t), sigma_zz = f (sigma_zz t),
      tau_xy = f (tau_xy t), tau_yz = f (tau_yz t), tau_zx = f (tau_zx t), von_mises = f (von_mises t)\<rparr>"

definition tensor_add :: "stress_tensor \<Rightarrow> stress_tensor \<Rightarrow> stress_tensor" where
  "tensor_add s t =
     \<lparr>sigma_xx = sigma_xx s + sigma_xx t, sigma_yy = sigma_yy s + sigma_yy t, sigma_zz = sigma_zz s + sigma_zz t,
      tau_xy = tau_xy s + tau_xy t, tau_yz = tau_yz s + tau_yz t, tau_zx = tau_zx s + tau_zx t,
      von_mises = von_mises s + von_mises t\<rparr>"

definition smoothing_sigma :: double where
  "smoothing_sigma = D (3/2)"

definition offsets :: "(int \<times> int \<times> int) list" where
  "offsets = filter (\<lambda>p. p \<noteq> (0, 0, 0)) (positions [- 1..1] [- 1..1] [- 1..1])"

definition offset_weight :: "int \<times> int \<times> int \<Rightarrow> double" where
  "offset_weight = (\<lambda>(di, dj, dk). gaussian_weight (dsqrt (of_i (di * di + dj * dj + dk * dk))) smoothing_sigma)"

definition add_neighbour ::
  "fea_mesh \<Rightarrow> int \<times> int \<times> int \<Rightarrow> int \<times> int \<times> int \<Rightarrow> stress_tensor \<times> double \<Rightarrow> (stress_tensor \<times> double) result" where
  "add_neighbour temp = (\<lambda>(i, j, k) (di, dj, dk) (sum_stress, total_w).
     and_then (node_at temp (idx temp (i + di, j + dj, k + dk))) (\<lambda>neighbour.
       let w = offset_weight (di, dj, dk) in
       Inr (tensor_add sum_stress (tensor_map (\<lambda>v. w * v) (fn_stress neighbour)), total_w + w)))"

definition smooth_node :: "fea_mesh \<Rightarrow> int \<times> int \<times> int \<Rightarrow> fea_mesh \<Rightarrow> fea_mesh result" where
  "smooth_node temp p m =
     and_then (node_at m (idx m p)) (\<lambda>node.
       if fn_is_boundary node then Inr m
       else and_then (node_at temp (idx m p)) (\<lambda>old.
         let total_w = gaussian_weight 0 smoothing_sigma in
         and_then (fold_result (add_neighbour temp p) offsets (tensor_map (\<lambda>v. v * total_w) (fn_stress old), total_w))
           (\<lambda>(sum_stress, total_w).
             Inr (if D (1 / 10 ^ 12) < total_w
                  then put_node (idx m p) (node\<lparr>fn_stress := tensor_map (\<lambda>v. v / total_w) sum_stress\<rparr>) m
                  else m))))"

definition smooth_stress_field :: "fea_mesh \<Rightarrow> fea_mesh result" where
  "smooth_stress_field m = (if ms_nodes m = [] then Inr m else fold_result (smooth_node m) (interior m) m)"

subsection \<open>Adaptive refinement\<close>

definition vm_at :: "fea_mesh \<Rightarrow> int \<times> int \<times> int \<Rightarrow> double" where
  "vm_at m p = von_mises (fn_stress (ms_nodes m ! nat (idx m p)))"

definition gradient_node :: "int \<times> int \<times> int \<Rightarrow> fea_mesh \<Rightarrow> fea_mesh" where
  "gradient_node p m =
     (let inside = (\<lambda>q. 0 \<le> idx m q \<and> idx m q < int (length (ms_nodes m)));
          along = (\<lambda>a h. (vm_at m (stencil p ! (2 * a)) - vm_at m (stencil p ! (2 * a + 1))) / (D 2 * h));
          gx = along 0 (ms_dx m); gy = along 1 (ms_dy m); gz = along 2 (ms_dz m);
          tiny = D (1 / 10 ^ 12)
      in if \<not> inside p then m
         else if \<not> list_all inside (stencil p) then m
         else if ms_dx m < tiny \<or> ms_dy m < tiny \<or> ms_dz m < tiny then m
         else put_node (idx m p)
           ((ms_nodes m ! nat (idx m p))\<lparr>fn_gradient := dsqrt (gx * gx + gy * gy + gz * gz) / D (10 ^ 9)\<rparr>) m)"

definition compute_stress_gradients :: "fea_mesh \<Rightarrow> fea_mesh" where
  "compute_stress_gradients m = (if ms_nodes m = [] then m else fold gradient_node (interior m) m)"

definition tip_distance :: "fem_node list \<Rightarrow> fem_node \<Rightarrow> double" where
  "tip_distance nodes node =
     foldl (\<lambda>d neighbor. if D (8/10) < fn_crack_density neighbor
         then std_min d (distance_to node (fn_x neighbor) (fn_y neighbor) (fn_z neighbor)) else d)
       DBL_MAX nodes"

definition marked :: "fem_config \<Rightarrow> fea_mesh \<Rightarrow> fem_node \<Rightarrow> bool" where
  "marked cfg m node =
     (let should_refine = fem_refinement_stress_gradient_threshold cfg < fn_gradient node
            \<or> fem_refinement_crack_density_threshold cfg < fn_crack_density node
            \<or> tip_distance (ms_nodes m) node < D 3 * avg_spacing m;
          should_coarsen = fn_gradient node < fem_coarsening_stress_gradient_threshold cfg
            \<and> fn_crack_density node < D (1/10) * fem_refinement_crack_density_threshold cfg
            \<and> 0 < fn_refinement_level node;
          should_refine = (should_refine \<and> \<not> fem_max_refinement_level cfg \<le> fn_refinement_level node)
      in should_refine \<and> \<not> should_coarsen)"

definition mark_nodes_for_refinement :: "fem_config \<Rightarrow> fea_mesh \<Rightarrow> fea_mesh" where
  "mark_nodes_for_refinement cfg m =
     m\<lparr>ms_nodes := map (\<lambda>node. node\<lparr>fn_needs_refinement := marked cfg m node\<rparr>) (ms_nodes m)\<rparr>"

definition get_octant_sign :: "int \<Rightarrow> nat \<Rightarrow> int" where
  "get_octant_sign octant axis =
     (if octant < 0 \<or> 7 < octant then 1 else if bit octant axis then 1 else - 1)"

definition RAND_MAX :: int where
  "RAND_MAX = 2147483647"

definition child_node :: "fea_mesh \<Rightarrow> nat \<Rightarrow> fem_node \<Rightarrow> int \<Rightarrow> int \<Rightarrow> fem_node" where
  "child_node m i node draw octant =
     node\<lparr>fn_x := fn_x node + of_i (get_octant_sign octant 0) * ms_dx m / D 4,
          fn_y := fn_y node + of_i (get_octant_sign octant 1) * ms_dy m / D 4,
          fn_z := fn_z node + of_i (get_octant_sign octant 2) * ms_dz m / D 4,
          fn_refinement_level := fn_refinement_level node + 1, fn_parent := int i,
          fn_needs_refinement := False, fn_gradient := 0,
          fn_crack_density := fn_crack_density node * (D (9/10) + D (2/10) * (of_i draw / of_i RAND_MAX))\<rparr>"

text \<open>The children, then the nodes that stay, and the number of draws used.\<close>

fun split_nodes :: "(nat \<Rightarrow> int) \<Rightarrow> fem_config \<Rightarrow> fea_mesh \<Rightarrow> (nat \<times> fem_node) list \<Rightarrow>
    fem_node list \<Rightarrow> fem_node list \<Rightarrow> nat \<Rightarrow> fem_node list \<times> nat" where
  "split_nodes rand cfg m [] children stay used = (children @ stay, used)"
| "split_nodes rand cfg m ((i, node) # rest) children stay used =
     (if fn_needs_refinement node \<and> fn_refinement_level node < fem_max_refinement_level cfg
         \<and> int (length children) + 8 < fem_max_total_nodes cfg
      then split_nodes rand cfg m rest
        (children @ map (\<lambda>o'. child_node m i node (rand (used + o')) (int o')) [0..<8]) stay (used + 8)
      else split_nodes rand cfg m rest children (stay @ [node]) used)"

definition refine_marked_nodes ::
  "(nat \<Rightarrow> int) \<Rightarrow> fem_config \<Rightarrow> fea_mesh \<times> nat \<Rightarrow> fea_mesh \<times> nat" where
  "refine_marked_nodes rand cfg = (\<lambda>(m, used).
     (if ms_nodes m = [] then (m, used)
      else if fem_max_total_nodes cfg \<le> int (length (ms_nodes m)) then (m, used)
      else case split_nodes rand cfg m (List.enumerate 0 (ms_nodes m)) [] [] used of (nodes, used) \<Rightarrow>
        let levels = map fn_refinement_level nodes in
        (m\<lparr>ms_nodes := nodes, ms_refinement_levels := levels,
           ms_max_level_used := foldl max (ms_max_level_used m) levels\<rparr>, used)))"

function grow_dims :: "int \<Rightarrow> int \<times> int \<times> int \<Rightarrow> (int \<times> int \<times> int) result" where
  "grow_dims num_nodes (nx, ny, nz) =
     (if 2 ^ 31 \<le> nx * ny * nz then Inl (UB ''signed overflow'')
      else if nx * ny * nz < num_nodes then
        (if nx \<le> ny \<and> nx \<le> nz then grow_dims num_nodes (nx + 1, ny, nz)
         else if ny \<le> nx \<and> ny \<le> nz then grow_dims num_nodes (nx, ny + 1, nz)
         else grow_dims num_nodes (nx, ny, nz + 1))
      else Inr (nx, ny, nz))"
  by pat_completeness auto

lemma product_below:
  fixes x y z n :: int
  assumes "x * y * z < n" and "x \<le> y" and "x \<le> z"
  shows "x < max 1 n"
proof (rule ccontr)
  assume "\<not> x < max 1 n"
  then have x: "1 \<le> x" "n \<le> x"
    by auto
  have "x * 1 * 1 \<le> x * y * z"
    using x assms(2,3) by (intro mult_mono) auto
  with x assms(1) show False
    by simp
qed

termination grow_dims
proof (relation "measure (\<lambda>(n, x, y, z). nat (max 1 n - x) + nat (max 1 n - y) + nat (max 1 n - z))", goal_cases)
  case (2 n x y z)
  then show ?case
    using product_below [of x y z n] by simp
next
  case (3 n x y z)
  then show ?case
    using product_below [of y x z n] by (simp add: mult.commute mult.left_commute)
next
  case (4 n x y z)
  then have "z < max 1 n"
    using product_below [of z x y n] by (simp add: mult.commute mult.left_commute) linarith
  then show ?case
    by simp
qed simp

declare grow_dims.simps [simp del]

definition rebuild_node_connectivity :: "fea_mesh \<Rightarrow> fea_mesh result" where
  "rebuild_node_connectivity m =
     (if ms_nodes m = [] then Inr m
      else let num_nodes = int (length (ms_nodes m)) in
      and_then (to_int32 (dround (dcbrt (of_i num_nodes)))) (\<lambda>r.
      and_then (grow_dims num_nodes (r, r, r)) (\<lambda>(nx, ny, nz).
        let nx = max nx 2; ny = max ny 2; nz = max nz 2;
            (x0, y0, z0) = ms_bbox_min m; (x1, y1, z1) = ms_bbox_max m;
            dx = (x1 - x0) / of_i (nx - 1); dy = (y1 - y0) / of_i (ny - 1); dz = (z1 - z0) / of_i (nz - 1);
            tiny = D (1 / 10 ^ 9)
        in Inr (m\<lparr>ms_nx := nx, ms_ny := ny, ms_nz := nz,
          ms_dx := std_max dx tiny, ms_dy := std_max dy tiny, ms_dz := std_max dz tiny\<rparr>))))"

definition measure_stress :: "fem_solver \<Rightarrow> fea_mesh \<Rightarrow> fea_mesh result" where
  "measure_stress s m =
     and_then (solve_elasticity s m) (\<lambda>m.
       Inr (mark_nodes_for_refinement (fs_config s)
         (compute_stress_gradients (compute_von_mises (apply_crack_stress_coupling s m)))))"

fun refine_loop :: "(nat \<Rightarrow> int) \<Rightarrow> fem_solver \<Rightarrow> nat \<Rightarrow> fea_mesh \<times> nat \<Rightarrow> (fea_mesh \<times> nat) result" where
  "refine_loop rand s 0 (m, used) = Inr (m, used)"
| "refine_loop rand s (Suc iterations) (m, used) =
     and_then (measure_stress s m) (\<lambda>m.
       if \<not> list_ex fn_needs_refinement (ms_nodes m) then Inr (m, used)
       else if fem_max_total_nodes (fs_config s) \<le> int (length (ms_nodes m)) then Inr (m, used)
       else case refine_marked_nodes rand (fs_config s) (m, used) of (m, used) \<Rightarrow>
         and_then (rebuild_node_connectivity m) (\<lambda>m. refine_loop rand s iterations (m, used)))"

definition adaptive_mesh_refinement :: "(nat \<Rightarrow> int) \<Rightarrow> fem_solver \<Rightarrow> fea_mesh \<Rightarrow> fea_mesh result" where
  "adaptive_mesh_refinement rand s m =
     (if ms_nodes m = [] then Inr m
      else and_then (refine_loop rand s (nat (fem_max_refinement_level (fs_config s))) (m, 0)) (\<lambda>(m, _). Inr m))"

subsection \<open>The analysis\<close>

definition grid_point_of :: "fem_node \<Rightarrow> stress_grid_point" where
  "grid_point_of node =
     (case fn_crack_direction node of (nx, ny, nz) \<Rightarrow>
       \<lparr>gx = fn_x node, gy = fn_y node, gz = fn_z node, gstress = fn_stress node,
        gcrack_density = fn_crack_density node, gprincipal_direction = datan2 ny nx,
        grefinement_level = fn_refinement_level node\<rparr>)"

definition analysis_parameters :: "fem_solver \<Rightarrow> json" where
  "analysis_parameters s = (let c = fs_config s in JObj
     [(''grid_resolution'', JInt (fem_grid_resolution c)), (''youngs_modulus_gpa'', JNum (fem_youngs_modulus_gpa c)),
      (''poissons_ratio'', JNum (fem_poissons_ratio c)), (''lambda_pa'', JNum (fs_lambda s)),
      (''mu_pa'', JNum (fs_mu s)), (''crack_density_sensitivity'', JNum (fem_crack_density_sensitivity c)),
      (''directional_coupling'', JNum (fem_directional_coupling c)), (''max_stress_mpa'', JNum (fem_max_stress_mpa c))])"

definition assemble_result :: "fem_solver \<Rightarrow> time_point \<Rightarrow> int \<Rightarrow> fea_mesh \<Rightarrow> stress_analysis_result" where
  "assemble_result s now porcelain_id m =
     (let vms = map (\<lambda>node. von_mises (fn_stress node)) (ms_nodes m);
          threshold = fem_max_stress_mpa (fs_config s) * D (10 ^ 6) * D (7/10);
          max_vm = foldl std_max 0 vms;
          sum_vm = foldl (+) 0 vms;
          n = int (length vms);
          high_stress_count = int (length (filter (\<lambda>v. threshold < v) vms));
          grid_points = map grid_point_of (ms_nodes m);
          max_von_mises = max_vm / D (10 ^ 6);
          avg_von_mises = (if 0 < n then (sum_vm / of_i n) / D (10 ^ 6) else 0);
          ratio = (if 0 < n then of_i high_stress_count / of_i n else 0)
      in \<lparr>sa_id = 0, sa_porcelain_id = porcelain_id, sa_method = ''FEM_FINITE_DIFFERENCE'',
          sa_parameters = analysis_parameters s, sa_grid_points = grid_points,
          sa_max_von_mises = max_von_mises, sa_avg_von_mises = avg_von_mises,
          sa_high_stress_area_ratio = ratio,
          sa_result = JObj
            [(''max_von_mises_mpa'', JNum max_von_mises), (''avg_von_mises_mpa'', JNum avg_von_mises),
             (''high_stress_area_ratio'', JNum ratio), (''grid_point_count'', JInt (int (length grid_points)))],
          sa_created_at = now\<rparr>)"

definition fem_analyze ::
  "(nat \<Rightarrow> stress_tensor) \<Rightarrow> (nat \<Rightarrow> int) \<Rightarrow> time_point \<Rightarrow> fem_solver \<Rightarrow> int \<Rightarrow> crack_info list \<Rightarrow>
    stress_analysis_result result" where
  "fem_analyze junk rand now s porcelain_id cracks =
     (let field = compute_crack_density_field (fs_config s) cracks in
      and_then (build_grid junk (fs_config s) cracks) (\<lambda>m.
        if ms_nodes m = [] then Inr (assemble_result s now porcelain_id m)
        else and_then (solve_elasticity s (direct_nodes (field m))) (\<lambda>m.
          and_then (if fem_use_adaptive_mesh (fs_config s)
                    then and_then (adaptive_mesh_refinement rand s m) (\<lambda>m. solve_elasticity s (direct_nodes (field m)))
                    else Inr m) (\<lambda>m.
          and_then (smooth_stress_field (compute_von_mises (apply_crack_stress_coupling s m))) (\<lambda>m.
            Inr (assemble_result s now porcelain_id m))))))"

definition fem_result_to_json :: "stress_analysis_result \<Rightarrow> json" where
  "fem_result_to_json r = JObj
     [(''id'', JInt (sa_id r)), (''porcelain_id'', JInt (sa_porcelain_id r)), (''method'', JStr (sa_method r)),
      (''parameters'', sa_parameters r), (''max_von_mises'', JNum (sa_max_von_mises r)),
      (''avg_von_mises'', JNum (sa_avg_von_mises r)),
      (''high_stress_area_ratio'', JNum (sa_high_stress_area_ratio r)), (''result'', sa_result r),
      (''grid_points'', JArr (map (\<lambda>gp. JObj
        [(''x'', JNum (gx gp)), (''y'', JNum (gy gp)), (''z'', JNum (gz gp)), (''stress'', tensor_to_json (gstress gp)),
         (''crack_density'', JNum (gcrack_density gp)),
         (''principal_direction'', JNum (gprincipal_direction gp))]) (sa_grid_points r)))]"

subsection \<open>Loops over the grid\<close>

lemma set_positions: "(i, j, k) \<in> set (positions is js ks) \<longleftrightarrow> i \<in> set is \<and> j \<in> set js \<and> k \<in> set ks"
  by (auto simp: positions_def)

lemma length_positions: "length (positions is js ks) = length is * length js * length ks"
  unfolding positions_def
  by (subst length_concat_const, subst length_concat_const, simp_all) (simp add: length_concat_const mult.commute)

lemma set_interior: "(i, j, k) \<in> set (interior m) \<longleftrightarrow>
    1 \<le> i \<and> i \<le> ms_nx m - 2 \<and> 1 \<le> j \<and> j \<le> ms_ny m - 2 \<and> 1 \<le> k \<and> k \<le> ms_nz m - 2"
  by (auto simp: interior_def set_positions)

lemma idx_bounds:
  assumes "0 \<le> i" "i < ms_nx m" "0 \<le> j" "j < ms_ny m" "0 \<le> k" "k < ms_nz m"
  shows "0 \<le> idx m (i, j, k)" and "idx m (i, j, k) < ms_nx m * ms_ny m * ms_nz m"
proof -
  show "0 \<le> idx m (i, j, k)"
    using assms by (simp add: idx_def)
  have "j * ms_nx m + i < (j + 1) * ms_nx m"
    using assms by (simp add: distrib_right)
  also have "\<dots> \<le> ms_ny m * ms_nx m"
    using assms by (intro mult_right_mono) simp_all
  finally have "j * ms_nx m + i < ms_nx m * ms_ny m"
    by (simp add: mult.commute)
  then have "idx m (i, j, k) < (k + 1) * (ms_nx m * ms_ny m)"
    by (simp add: idx_def distrib_right mult.assoc)
  also have "\<dots> \<le> ms_nz m * (ms_nx m * ms_ny m)"
    using assms by (intro mult_right_mono) simp_all
  finally show "idx m (i, j, k) < ms_nx m * ms_ny m * ms_nz m"
    by (simp add: mult.commute)
qed

text \<open>A mesh has all the nodes its dimensions claim.\<close>

definition fits :: "fea_mesh \<Rightarrow> bool" where
  "fits m \<longleftrightarrow> ms_nx m * ms_ny m * ms_nz m \<le> int (length (ms_nodes m))"

lemma node_at_fits:
  assumes "fits m" and "0 \<le> i" "i < ms_nx m" "0 \<le> j" "j < ms_ny m" "0 \<le> k" "k < ms_nz m"
  shows "\<exists>node. node_at m (idx m (i, j, k)) = Inr node \<and> node \<in> set (ms_nodes m)"
  using idx_bounds [OF assms(2-7)] assms(1) by (auto simp: node_at_def fits_def nat_less_iff)

lemma neighbours_fit:
  assumes "fits m" and "p \<in> set (interior m)"
  shows "\<exists>ns. neighbours m p = Inr ns"
proof -
  obtain i j k where p: "p = (i, j, k)"
    by (cases p)
  have r: "1 \<le> i" "i \<le> ms_nx m - 2" "1 \<le> j" "j \<le> ms_ny m - 2" "1 \<le> k" "k \<le> ms_nz m - 2"
    using assms(2) by (simp_all add: p set_interior)
  have "\<exists>node. node_at m (idx m q) = Inr node" if "q \<in> set (stencil p)" for q
  proof -
    obtain a b c where q: "q = (a, b, c)"
      by (cases q)
    have "0 \<le> a \<and> a < ms_nx m \<and> 0 \<le> b \<and> b < ms_ny m \<and> 0 \<le> c \<and> c < ms_nz m"
      using that r by (auto simp: p q stencil_def)
    then show ?thesis
      unfolding q using node_at_fits [OF assms(1)] by blast
  qed
  then have "\<exists>f. \<forall>q \<in> set (stencil p). node_at m (idx m q) = Inr (f q)"
    by metis
  then show ?thesis
    unfolding neighbours_def by (metis map_result_total)
qed

lemma node_at_error: "node_at m n = Inl e \<Longrightarrow> e = UB ''vector index''"
  by (auto simp: node_at_def split: if_splits)

lemma map_result_error: "map_result f xs = Inl e \<Longrightarrow> \<exists>x \<in> set xs. f x = Inl e"
  by (induction xs) (auto simp: and_then_eq_Inl_iff)

lemma neighbours_error: "neighbours m p = Inl e \<Longrightarrow> e = UB ''vector index''"
  unfolding neighbours_def by (auto dest: map_result_error node_at_error)

text \<open>What a stage leaves alone: everything but the given projection of the nodes.\<close>

definition only :: "(fem_node \<Rightarrow> 'a) \<Rightarrow> fea_mesh \<Rightarrow> 'a list \<times> fea_mesh" where
  "only f m = (map f (ms_nodes m), m\<lparr>ms_nodes := []\<rparr>)"

lemma only_put:
  assumes "node_at m n = Inr node" and "f node' = f node"
  shows "only f (put_node n node' m) = only f m"
  using assms by (auto simp: only_def put_node_def node_at_def split: if_splits intro!: nth_equalityI simp: nth_list_update)

lemma only_same:
  assumes "only f m = only f m'"
  shows "length (ms_nodes m) = length (ms_nodes m')" "idx m = idx m'" "interior m = interior m'" "fits m = fits m'"
proof -
  have e: "map f (ms_nodes m) = map f (ms_nodes m')" "m\<lparr>ms_nodes := []\<rparr> = m'\<lparr>ms_nodes := []\<rparr>"
    using assms by (simp_all add: only_def)
  show l: "length (ms_nodes m) = length (ms_nodes m')"
    using e(1) map_eq_imp_length_eq by blast
  have d: "ms_nx m = ms_nx m'" "ms_ny m = ms_ny m'" "ms_nz m = ms_nz m'"
    using arg_cong [OF e(2), of ms_nx] arg_cong [OF e(2), of ms_ny] arg_cong [OF e(2), of ms_nz] by simp_all
  show "idx m = idx m'" "interior m = interior m'" "fits m = fits m'"
    using d l by (auto simp: idx_def interior_def fits_def fun_eq_iff)
qed

subsection \<open>The relaxation stays within the grid\<close>

definition unmoved :: "fem_node \<Rightarrow> fem_node" where
  "unmoved node = node\<lparr>fn_displacement := (0, 0, 0), fn_strain := []\<rparr>"

lemma relax_kept: "relax_node s p m = Inr m' \<Longrightarrow> only unmoved m' = only unmoved m"
  by (auto simp: relax_node_def and_then_eq_Inr_iff unmoved_def intro!: only_put split: if_splits)

lemma strain_kept: "strain_node p m = Inr m' \<Longrightarrow> only unmoved m' = only unmoved m"
  by (auto simp: strain_node_def and_then_eq_Inr_iff unmoved_def intro!: only_put split: if_splits)

lemma relax_error: "relax_node s p m = Inl e \<Longrightarrow> e = UB ''vector index''"
  by (auto simp: relax_node_def and_then_eq_Inl_iff dest: node_at_error neighbours_error split: if_splits)

lemma strain_error: "strain_node p m = Inl e \<Longrightarrow> e = UB ''vector index''"
  by (auto simp: strain_node_def and_then_eq_Inl_iff dest: node_at_error neighbours_error split: if_splits)

lemma interior_node: "fits m \<Longrightarrow> p \<in> set (interior m) \<Longrightarrow> \<exists>node. node_at m (idx m p) = Inr node"
proof -
  assume m: "fits m" and p: "p \<in> set (interior m)"
  obtain i j k where e: "p = (i, j, k)"
    by (cases p)
  show ?thesis
    using node_at_fits [OF m, of i j k] p by (auto simp: e set_interior)
qed

lemma relax_fits: "fits m \<Longrightarrow> p \<in> set (interior m) \<Longrightarrow> \<exists>m'. relax_node s p m = Inr m'"
  using interior_node [of m p] neighbours_fit [of m p] by (auto simp: relax_node_def)

lemma strain_fits: "fits m \<Longrightarrow> p \<in> set (interior m) \<Longrightarrow> \<exists>m'. strain_node p m = Inr m'"
  using interior_node [of m p] neighbours_fit [of m p] by (auto simp: strain_node_def)

lemma grid_sweep:
  assumes kept: "\<And>p m m'. body p m = Inr m' \<Longrightarrow> only f m' = only f m"
    and ret: "\<And>p m. fits m \<Longrightarrow> p \<in> set (interior m) \<Longrightarrow> \<exists>m'. body p m = Inr m'"
    and "fits m0"
  shows "\<exists>m. fold_result body (interior m0) m0 = Inr m \<and> only f m = only f m0"
proof (rule fold_result_total)
  fix p m
  assume p: "p \<in> set (interior m0)" and m: "only f m = only f m0"
  obtain m' where "body p m = Inr m'"
    using ret [of m p] p assms(3) only_same(3,4) [OF m] by auto
  then show "\<exists>m'. body p m = Inr m' \<and> only f m' = only f m0"
    using kept [of p m m'] m by simp
qed simp

lemma sweep_kept:
  assumes "\<And>p m m'. body p m = Inr m' \<Longrightarrow> only f m' = only f m" and "fold_result body ps m0 = Inr m"
  shows "only f m = only f m0"
  using assms(2) by (rule fold_result_keeps [where P = "\<lambda>m. only f m = only f m0", rotated 2]) (auto dest: assms(1))

lemma sweep_error:
  assumes "fold_result body ps m0 = Inl e" and "\<And>p m e. body p m = Inl e \<Longrightarrow> e = UB ''vector index''"
  shows "e = UB ''vector index''"
  using assms(1) by (rule fold_result_error [where P = "\<lambda>_. True"]) (auto dest: assms(2))

lemma relax_sweep: "fits m0 \<Longrightarrow> \<exists>m. fold_result (relax_node s) (interior m0) m0 = Inr m \<and> only unmoved m = only unmoved m0"
  by (rule grid_sweep) (blast intro: relax_kept relax_fits)+

lemma strain_sweep: "fits m0 \<Longrightarrow> \<exists>m. fold_result strain_node (interior m0) m0 = Inr m \<and> only unmoved m = only unmoved m0"
  by (rule grid_sweep) (blast intro: strain_kept strain_fits)+

lemma relax_sweep_kept: "fold_result (relax_node s) ps m0 = Inr m \<Longrightarrow> only unmoved m = only unmoved m0"
  by (erule sweep_kept [rotated]) (rule relax_kept)

lemma strain_sweep_kept: "fold_result strain_node ps m0 = Inr m \<Longrightarrow> only unmoved m = only unmoved m0"
  by (erule sweep_kept [rotated]) (rule strain_kept)

lemma relax_sweep_error: "fold_result (relax_node s) ps m0 = Inl e \<Longrightarrow> e = UB ''vector index''"
  by (erule sweep_error) (rule relax_error)

lemma strain_sweep_error: "fold_result strain_node ps m0 = Inl e \<Longrightarrow> e = UB ''vector index''"
  by (erule sweep_error) (rule strain_error)

lemma solve_returns:
  assumes "fits m0"
  shows "\<exists>m. solve_elasticity s m0 = Inr m \<and> only unmoved m = only unmoved m0"
proof -
  let ?sweep = "\<lambda>_ m. fold_result (relax_node s) (interior m) m"
  have "\<exists>m. fold_result ?sweep [0..<50] m0 = Inr m \<and> only unmoved m = only unmoved m0"
  proof (rule fold_result_total)
    fix n :: nat and m
    assume "only unmoved m = only unmoved m0"
    moreover from this have "fits m"
      using only_same(4) assms by blast
    ultimately show "\<exists>m'. ?sweep n m = Inr m' \<and> only unmoved m' = only unmoved m0"
      using relax_sweep by metis
  qed simp
  then obtain m where m: "fold_result ?sweep [0..<50] m0 = Inr m" "only unmoved m = only unmoved m0"
    by blast
  obtain m' where "fold_result strain_node (interior m) m = Inr m'" "only unmoved m' = only unmoved m"
    using strain_sweep [of m] only_same(4) [OF m(2)] assms by blast
  then show ?thesis
    using m by (simp add: solve_elasticity_def)
qed

lemma solve_kept: "solve_elasticity s m0 = Inr m \<Longrightarrow> only unmoved m = only unmoved m0"
proof -
  assume "solve_elasticity s m0 = Inr m"
  then consider "m = m0" | m1 where "fold_result (\<lambda>_ m. fold_result (relax_node s) (interior m) m) [0..<50] m0 = Inr m1"
      "fold_result strain_node (interior m1) m1 = Inr m"
    by (auto simp: solve_elasticity_def and_then_eq_Inr_iff split: if_splits)
  then show ?thesis
  proof cases
    case 2
    have "only unmoved m1 = only unmoved m0"
    proof (rule fold_result_keeps [where P = "\<lambda>m. only unmoved m = only unmoved m0", OF _ _ 2(1)])
      fix n :: nat and m m'
      assume "only unmoved m = only unmoved m0" "fold_result (relax_node s) (interior m) m = Inr m'"
      then show "only unmoved m' = only unmoved m0"
        using relax_sweep_kept by metis
    qed simp
    moreover have "only unmoved m = only unmoved m1"
      by (rule strain_sweep_kept [OF 2(2)])
    ultimately show ?thesis
      by simp
  qed simp
qed

lemma solve_error: "solve_elasticity s m0 = Inl e \<Longrightarrow> e = UB ''vector index''"
proof -
  assume "solve_elasticity s m0 = Inl e"
  then consider "fold_result (\<lambda>_ m. fold_result (relax_node s) (interior m) m) [0..<50] m0 = Inl e"
    | m1 where "fold_result strain_node (interior m1) m1 = Inl e"
    by (auto simp: solve_elasticity_def and_then_eq_Inl_iff split: if_splits)
  then show ?thesis
  proof cases
    case 1
    then show ?thesis
      by (rule fold_result_error [where P = "\<lambda>_. True"]) (auto dest: relax_sweep_error)
  qed (rule strain_sweep_error)
qed

text \<open>The other way round: a grid that claims more nodes than there are is read past its end.\<close>

lemma solve_overruns:
  assumes "ms_nodes m0 \<noteq> []" and "p \<in> set (interior m0)" and "int (length (ms_nodes m0)) \<le> idx m0 p"
  shows "solve_elasticity s m0 = Inl (UB ''vector index'')"
proof -
  have sweep: "\<exists>e. fold_result (relax_node s) (interior m0) m0 = Inl e"
  proof (rule fold_result_fails [where P = "\<lambda>m. only unmoved m = only unmoved m0", OF assms(2)])
    fix m
    assume "only unmoved m = only unmoved m0"
    then have "node_at m (idx m p) = Inl (UB ''vector index'')"
      using assms(3) only_same(1,2) by (fastforce simp: node_at_def)
    then show "\<exists>e. relax_node s p m = Inl e"
      by (simp add: relax_node_def)
  qed (auto dest: relax_kept)
  have "[0..<50] = 0 # [1..<50::nat]"
    by (simp add: upt_rec)
  with sweep have "\<exists>e. solve_elasticity s m0 = Inl e"
    using assms(1) by (elim exE) (simp add: solve_elasticity_def del: upt_Suc upt_rec_numeral)
  then show ?thesis
    using solve_error by blast
qed

subsection \<open>Stresses are not negative\<close>

lemma gaussian_near: "encl d 0 2 \<Longrightarrow> encl (gaussian_weight d smoothing_sigma) (1/4) 1"
proof -
  assume d: "encl d 0 2"
  have e: "exact (3/2)" "exact (9/2)" "exact (1/4)"
    using exact_dyadic [of 3 1] exact_dyadic [of 9 1] exact_dyadic [of 1 2] by simp_all
  have den: "D 2 * smoothing_sigma * smoothing_sigma = D (9/2)"
    using e by (simp add: smoothing_sigma_def)
  have "encl (- d) (- 2) 0"
    using encl_uminus [OF d] by simp
  then have "encl (- d * d) (- 4) 0"
    by (rule encl_times [OF _ d]) simp_all
  then have "encl (- d * d / D (9/2)) (- 1) 0"
    by (rule encl_divide [OF _ encl_exact [OF e(2)]]) simp_all
  then obtain r where r: "- d * d / D (9/2) = D r" "exact r" "- 1 \<le> r" "r \<le> 0"
    by (rule enclE)
  have "1 / 3 \<le> inverse (exp (1 :: real))"
    using exp_le by (simp add: field_simps)
  then have "1 / 4 \<le> exp (- 1 :: real)"
    by (simp add: exp_minus)
  also have "exp (- 1) \<le> exp r"
    using r(3) by (simp only: exp_le_cancel_iff)
  finally have "1 / 4 \<le> exp r" .
  moreover have "exp r \<le> 1"
    using r(4) by simp
  ultimately have "1 / 4 \<le> exp r" "exp r \<le> 1" .
  then have "encl (dexp (- d * d / D (9/2))) (1/4) 1"
    unfolding r(1) using e(3) r(2) by (auto simp: dexp_def intro!: encl_D)
  moreover have "\<not> smoothing_sigma < D (1 / 10 ^ 12)"
    using D_mono [of "1 / 10 ^ 12" "3/2"] dless_not_sym unfolding smoothing_sigma_def by fastforce
  ultimately show ?thesis
    by (simp add: gaussian_weight_def den)
qed

lemma offset_weight_near: "p \<in> set offsets \<Longrightarrow> encl (offset_weight p) (1/4) 1"
proof -
  assume p: "p \<in> set offsets"
  obtain di dj dk where e: "p = (di, dj, dk)"
    by (cases p)
  have "di \<in> {- 1, 0, 1}" "dj \<in> {- 1, 0, 1}" "dk \<in> {- 1, 0, 1}"
    using p by (auto simp: e offsets_def set_positions)
  then have "0 \<le> di * di + dj * dj + dk * dk" "di * di + dj * dj + dk * dk \<le> 4"
    by auto
  then obtain k :: int where k: "di * di + dj * dj + dk * dk = k" "0 \<le> k" "k \<le> 4"
    by blast
  have "sqrt (real_of_int k) \<le> sqrt 4"
    using k(3) by (intro real_sqrt_le_mono) simp
  then have "encl (dsqrt (of_i k)) 0 2"
    using k exact_of_int [of k] by (auto simp: of_i_def dsqrt_def intro!: encl_D)
  then show ?thesis
    by (simp add: e offset_weight_def k(1) gaussian_near)
qed

lemma von_mises_nonneg: "0 \<le> von_mises_of t"
  unfolding von_mises_of_def Let_def by (intro dsqrt_nonneg) (simp add: std_max_def dless_imp_le)

lemma dtimes_weight: "encl w (1/4) u \<Longrightarrow> 0 \<le> v \<Longrightarrow> 0 \<le> w * v" "encl w (1/4) u \<Longrightarrow> 0 \<le> v \<Longrightarrow> 0 \<le> v * w"
  by (cases v; auto elim!: enclE intro!: D_nonneg mult_nonneg_nonneg)+

lemma ddivide_total: "0 \<le> v \<Longrightarrow> encl w 1 u \<Longrightarrow> 0 \<le> v / w"
  by (cases v) (auto elim!: enclE intro!: D_nonneg divide_nonneg_nonneg)

lemma weighted_sum_ok:
  assumes "\<And>q. q \<in> set qs \<Longrightarrow> q \<in> set offsets \<and> (\<exists>node. node_at temp (idx temp (fst p + fst q, fst (snd p) + fst (snd q), snd (snd p) + snd (snd q))) = Inr node)"
    and "\<And>node. node \<in> set (ms_nodes temp) \<Longrightarrow> 0 \<le> von_mises (fn_stress node)"
    and "0 \<le> von_mises t" and "encl w 1 (real n)" and "n + length qs \<le> 100" and "1 \<le> n"
  shows "\<exists>t' w'. fold_result (add_neighbour temp p) qs (t, w) = Inr (t', w') \<and> 0 \<le> von_mises t' \<and> encl w' 1 100"
  using assms
proof (induction qs arbitrary: t w n)
  case Nil
  then show ?case
    by (auto intro: encl_weaken)
next
  case (Cons q qs)
  obtain i j k a b c where p: "p = (i, j, k)" and q: "q = (a, b, c)"
    by (cases p; cases q)
  obtain node where node: "node_at temp (idx temp (i + a, j + b, k + c)) = Inr node"
    using Cons.prems(1) [of q] by (auto simp: p q)
  then have "node \<in> set (ms_nodes temp)"
    by (auto simp: node_at_def nat_less_iff split: if_splits)
  then have v: "0 \<le> von_mises (fn_stress node)"
    by (rule Cons.prems(2))
  let ?w = "offset_weight (a, b, c)"
  have ow: "encl ?w (1/4) 1"
    using Cons.prems(1) [of q] offset_weight_near by (simp add: q)
  let ?t = "tensor_add t (tensor_map (\<lambda>v. ?w * v) (fn_stress node))"
  have "0 \<le> von_mises ?t"
    using Cons.prems(3) dtimes_weight(1) [OF ow v] by (simp add: tensor_add_def tensor_map_def dplus_nonneg)
  moreover have "encl (w + ?w) 1 (real (n + 1))"
    by (rule encl_plus [OF Cons.prems(4) ow]) (use Cons.prems(5) exact_of_nat [of "n + 1"] in simp_all)
  ultimately have "\<exists>t' w'. fold_result (add_neighbour temp p) qs (?t, w + ?w) = Inr (t', w')
      \<and> 0 \<le> von_mises t' \<and> encl w' 1 100"
    using Cons.prems by (intro Cons.IH [of _ _ "n + 1"]) simp_all
  then show ?case
    using node by (simp add: p q add_neighbour_def Let_def)
qed

subsection \<open>Analyses on a uniform grid\<close>

text \<open>What the stages after the construction of the grid leave alone: its dimensions, which nodes lie
  on the boundary, and the stress of those.\<close>

definition face :: "fem_node \<Rightarrow> stress_tensor option" where
  "face node = (if fn_is_boundary node then Some (fn_stress node) else None)"

definition frame_of :: "fea_mesh \<Rightarrow> stress_tensor option list \<times> int \<times> int \<times> int" where
  "frame_of m = (map face (ms_nodes m), ms_nx m, ms_ny m, ms_nz m)"

lemma frame_fits: "frame_of m = frame_of m' \<Longrightarrow> fits m = fits m'"
  using map_eq_imp_length_eq [of face "ms_nodes m" face "ms_nodes m'"] by (auto simp: frame_of_def fits_def)

lemma frame_solve: "solve_elasticity s m = Inr m' \<Longrightarrow> frame_of m' = frame_of m"
proof -
  assume "solve_elasticity s m = Inr m'"
  then have e: "map unmoved (ms_nodes m') = map unmoved (ms_nodes m)" "m'\<lparr>ms_nodes := []\<rparr> = m\<lparr>ms_nodes := []\<rparr>"
    using solve_kept by (auto simp: only_def)
  have "map face (map unmoved (ms_nodes m')) = map face (map unmoved (ms_nodes m))"
    by (simp only: e(1))
  moreover have "face (unmoved node) = face node" for node
    by (simp add: face_def unmoved_def)
  ultimately show ?thesis
    using arg_cong [OF e(2), of ms_nx] arg_cong [OF e(2), of ms_ny] arg_cong [OF e(2), of ms_nz]
    by (simp add: frame_of_def comp_def)
qed

lemma frame_field: "frame_of (compute_crack_density_field cfg cracks m) = frame_of m"
  by (auto simp: frame_of_def compute_crack_density_field_def face_def node_density_def Let_def split: prod.splits)

lemma frame_direct: "frame_of (direct_nodes m) = frame_of m"
  by (auto simp: frame_of_def direct_nodes_def face_def principal_stress_direction_def Let_def split: prod.splits)

lemma frame_coupling: "frame_of (apply_crack_stress_coupling s m) = frame_of m"
  by (auto simp: frame_of_def apply_crack_stress_coupling_def face_def)

definition with_von_mises :: "stress_tensor \<Rightarrow> stress_tensor" where
  "with_von_mises t = t\<lparr>von_mises := von_mises_of t\<rparr>"

lemma frame_von_mises:
  "frame_of (compute_von_mises m) = (map (map_option with_von_mises \<circ> face) (ms_nodes m), ms_nx m, ms_ny m, ms_nz m)"
  by (auto simp: frame_of_def compute_von_mises_def face_def with_von_mises_def)

lemma fits_von_mises: "fits (compute_von_mises m) = fits m"
  by (simp add: fits_def compute_von_mises_def)

definition no_negative_stress :: "fea_mesh \<Rightarrow> bool" where
  "no_negative_stress m \<longleftrightarrow> (\<forall>node \<in> set (ms_nodes m). 0 \<le> von_mises (fn_stress node))"

lemma stress_von_mises: "no_negative_stress (compute_von_mises m)"
  by (auto simp: no_negative_stress_def compute_von_mises_def von_mises_nonneg)

lemma around_fits:
  assumes "fits m" and "(i, j, k) \<in> set (interior m)" and "(a, b, c) \<in> set offsets"
  shows "\<exists>node. node_at m (idx m (i + a, j + b, k + c)) = Inr node"
  using node_at_fits [OF assms(1), of "i + a" "j + b" "k + c"] assms(2,3)
  by (auto simp: set_interior offsets_def set_positions)

lemma put_dims: "idx (put_node n node m) = idx m" "ms_nx (put_node n node m) = ms_nx m"
  "ms_ny (put_node n node m) = ms_ny m" "ms_nz (put_node n node m) = ms_nz m"
  by (simp_all add: put_node_def idx_def fun_eq_iff)

lemma put_frame:
  assumes "node_at m n = Inr node" and "face node' = face node"
  shows "frame_of (put_node n node' m) = frame_of m"
  using only_put [of m n node face node'] assms by (simp add: only_def frame_of_def put_dims)

lemma put_stress:
  "no_negative_stress m \<Longrightarrow> 0 \<le> von_mises (fn_stress node) \<Longrightarrow> no_negative_stress (put_node n node m)"
  unfolding no_negative_stress_def put_node_def using set_update_subset_insert [of "ms_nodes m" "nat n" node] by auto

lemma smooth_node_ok:
  assumes "fits temp" and "no_negative_stress temp" and p: "p \<in> set (interior temp)"
    and frame: "frame_of m = frame_of temp" and "no_negative_stress m"
  shows "\<exists>m'. smooth_node temp p m = Inr m' \<and> frame_of m' = frame_of temp \<and> no_negative_stress m'"
proof -
  obtain i j k where e: "p = (i, j, k)"
    by (cases p)
  have same: "idx m = idx temp" "interior m = interior temp"
    using frame by (auto simp: frame_of_def idx_def interior_def fun_eq_iff)
  obtain node where node: "node_at m (idx m p) = Inr node"
    using interior_node [of m p] assms same frame_fits [OF frame] by auto
  obtain old where old: "node_at temp (idx temp p) = Inr old" "0 \<le> von_mises (fn_stress old)"
    using interior_node [OF assms(1) p] assms(2)
    by (auto simp: no_negative_stress_def node_at_def nat_less_iff split: if_splits)
  show ?thesis
  proof (cases "fn_is_boundary node")
    case True
    then show ?thesis
      using assms node by (simp add: smooth_node_def)
  next
    case False
    let ?w = "gaussian_weight 0 smoothing_sigma"
    have one: "?w = D 1"
      using dless_not_sym D_mono [of "1 / 10 ^ 12" "3/2"] exact_dyadic [of 3 1] exact_dyadic [of 9 1]
      by (auto simp: gaussian_weight_def smoothing_sigma_def dexp_def simp flip: D_zero)
    have "\<exists>t w. fold_result (add_neighbour temp p) offsets (tensor_map (\<lambda>v. v * ?w) (fn_stress old), ?w) = Inr (t, w)
        \<and> 0 \<le> von_mises t \<and> encl w 1 100"
    proof (rule weighted_sum_ok [where n = 1])
      show "0 \<le> von_mises (tensor_map (\<lambda>v. v * ?w) (fn_stress old))"
        using old(2) by (simp add: tensor_map_def one)
      show "q \<in> set offsets \<and> (\<exists>node. node_at temp (idx temp (fst p + fst q, fst (snd p) + fst (snd q), snd (snd p) + snd (snd q))) = Inr node)"
        if "q \<in> set offsets" for q
        using around_fits [OF assms(1), of i j k "fst q" "fst (snd q)" "snd (snd q)"] p that by (simp add: e)
      have "length offsets \<le> length (positions [- 1..1] [- 1..1] [- 1..1])"
        unfolding offsets_def by (rule length_filter_le)
      then show "1 + length offsets \<le> 100"
        by (simp add: length_positions)
      show "encl ?w 1 (real 1)"
        unfolding one using encl_exact [OF exact_one] by simp
    qed (use assms(2) in \<open>simp_all add: no_negative_stress_def\<close>)
    then obtain t w where tw: "fold_result (add_neighbour temp p) offsets
          (tensor_map (\<lambda>v. v * ?w) (fn_stress old), ?w) = Inr (t, w)"
        "0 \<le> von_mises t" "encl w 1 100"
      by blast
    have "0 \<le> von_mises (tensor_map (\<lambda>v. v / w) t)"
      using ddivide_total [OF tw(2,3)] by (simp add: tensor_map_def)
    then show ?thesis
      using False assms node old(1) tw(1) frame put_stress put_frame [OF node, of "node\<lparr>fn_stress := tensor_map (\<lambda>v. v / w) t\<rparr>"]
      by (simp add: smooth_node_def same face_def Let_def)
  qed
qed

lemma smooth_returns:
  assumes "fits m" and "no_negative_stress m"
  shows "\<exists>m'. smooth_stress_field m = Inr m' \<and> frame_of m' = frame_of m \<and> no_negative_stress m'"
proof -
  have "\<exists>m'. fold_result (smooth_node m) (interior m) m = Inr m' \<and> frame_of m' = frame_of m \<and> no_negative_stress m'"
    by (rule fold_result_total) (use assms smooth_node_ok in auto)
  then show ?thesis
    using assms(2) by (simp add: smooth_stress_field_def)
qed

lemma nth_concat_const:
  assumes "\<And>x. x \<in> set xs \<Longrightarrow> length (f x) = n" and "j < n" and "k < length xs"
  shows "concat (map f xs) ! (k * n + j) = f (xs ! k) ! j" and "k * n + j < n * length xs"
proof -
  show "concat (map f xs) ! (k * n + j) = f (xs ! k) ! j"
    using assms
  proof (induction xs arbitrary: k)
    case (Cons x xs)
    then show ?case
      by (cases k) (simp_all add: nth_append add.assoc)
  qed simp
  have "k * n + j < (k + 1) * n"
    using assms(2) by simp
  also have "\<dots> \<le> length xs * n"
    using assms(3) by (intro mult_right_mono) simp_all
  finally show "k * n + j < n * length xs"
    by (simp add: mult.commute)
qed

lemma nth_positions:
  assumes "i < length is" and "j < length js" and "k < length ks"
  shows "positions is js ks ! ((k * length js + j) * length is + i) = (is ! i, js ! j, ks ! k)"
proof -
  let ?row = "\<lambda>k j. map (\<lambda>i. (i, j, k)) is"
  let ?plane = "\<lambda>k. concat (map (?row k) js)"
  have plane: "?plane k ! (j * length is + i) = (is ! i, js ! j, k)" "j * length is + i < length is * length js" for k
    using nth_concat_const [of js "?row k" "length is" i j] assms by simp_all
  have "length (?plane k) = length is * length js" for k
    by (rule length_concat_const) simp
  then have "positions is js ks ! (k * (length is * length js) + (j * length is + i)) = ?plane (ks ! k) ! (j * length is + i)"
    unfolding positions_def using assms(3) plane(2) by (intro nth_concat_const(1))
  then show ?thesis
    using plane(1) by (simp add: algebra_simps)
qed

definition uniform :: "fem_config \<Rightarrow> fea_mesh \<Rightarrow> bool" where
  "uniform cfg m \<longleftrightarrow> (let r = fem_grid_resolution cfg in
     ms_nx m = r \<and> ms_ny m = r \<and> ms_nz m = r \<and> length (ms_nodes m) = nat (r * r * r))"

lemma uniform_fits: "uniform cfg m \<Longrightarrow> 1 \<le> fem_grid_resolution cfg \<Longrightarrow> fits m \<and> ms_nodes m \<noteq> []"
proof -
  assume u: "uniform cfg m" and r: "1 \<le> fem_grid_resolution cfg"
  have "0 < fem_grid_resolution cfg * fem_grid_resolution cfg * fem_grid_resolution cfg"
    using r by simp
  then have "0 < length (ms_nodes m)"
    using u unfolding uniform_def Let_def by linarith
  then show ?thesis
    using u r by (auto simp: uniform_def fits_def Let_def)
qed

lemma build_grid_uniform:
  assumes "cracks \<noteq> []" and "1 \<le> fem_grid_resolution cfg" and "fem_grid_resolution cfg \<le> 1290"
  shows "\<exists>m. build_grid junk cfg cracks = Inr m \<and> uniform cfg m \<and>
    ms_nodes m = map (\<lambda>(n, p). grid_node junk m n p) (List.enumerate 0 (grid_positions m))"
proof -
  let ?r = "fem_grid_resolution cfg"
  have "?r * ?r * ?r \<le> 1290 * 1290 * 1290"
    using assms(2,3) by (intro mult_mono) simp_all
  then have r: "\<not> 2 ^ 31 \<le> ?r * ?r * ?r"
    by simp
  have same: "grid_node junk (m\<lparr>ms_nodes := ns, ms_refinement_levels := ls\<rparr>) = grid_node junk m"
    "grid_positions (m\<lparr>ms_nodes := ns, ms_refinement_levels := ls\<rparr>) = grid_positions m" for m ns ls
    by (simp_all add: grid_node_def grid_positions_def fun_eq_iff)
  show ?thesis
    using assms r by (simp add: build_grid_def Let_def split_def same uniform_def)
      (simp add: grid_positions_def length_positions empty_mesh_def nat_mult_distrib)
qed

definition on_face :: "int \<Rightarrow> int \<times> int \<times> int \<Rightarrow> bool" where
  "on_face r = (\<lambda>(i, j, k). 0 \<le> i \<and> i < r \<and> 0 \<le> j \<and> j < r \<and> 0 \<le> k \<and> k < r \<and>
     (i = 0 \<or> i = r - 1 \<or> j = 0 \<or> j = r - 1 \<or> k = 0 \<or> k = r - 1))"

lemma grid_face:
  assumes "uniform cfg m" and "ms_nodes m = map (\<lambda>(n, p). grid_node junk m n p) (List.enumerate 0 (grid_positions m))"
    and "on_face (fem_grid_resolution cfg) (i, j, k)"
  shows "nat (idx m (i, j, k)) < length (ms_nodes m) \<and>
    face (ms_nodes m ! nat (idx m (i, j, k))) = Some (junk (nat (idx m (i, j, k))))"
proof -
  let ?r = "fem_grid_resolution cfg" and ?n = "nat (idx m (i, j, k))"
  have r: "ms_nx m = ?r" "ms_ny m = ?r" "ms_nz m = ?r"
    and l: "length (ms_nodes m) = nat (?r * ?r * ?r)"
    using assms(1) by (simp_all add: uniform_def Let_def)
  have b: "0 \<le> i" "i < ?r" "0 \<le> j" "j < ?r" "0 \<le> k" "k < ?r"
    using assms(3) by (simp_all add: on_face_def)
  have n: "?n < length (ms_nodes m)"
    using idx_bounds [of i m j k] b r l by (simp add: nat_less_iff)
  have "int ((nat k * nat ?r + nat j) * nat ?r + nat i) = idx m (i, j, k)"
    using b by (simp add: idx_def r distrib_right mult.assoc)
  then have "?n = (nat k * nat ?r + nat j) * nat ?r + nat i"
    by linarith
  moreover have "grid_positions m ! ((nat k * length [0..?r - 1] + nat j) * length [0..?r - 1] + nat i) = (i, j, k)"
    unfolding grid_positions_def r using b by (subst nth_positions) simp_all
  ultimately have p: "grid_positions m ! ?n = (i, j, k)"
    by simp
  have "?n < length (grid_positions m)"
    using n assms(2) by (metis length_enumerate length_map)
  then have "ms_nodes m ! ?n = grid_node junk m ?n (i, j, k)"
    using p by (subst assms(2)) (simp add: nth_enumerate_eq)
  then show ?thesis
    using n assms(3) by (simp add: face_def grid_node_def on_face_def r split: prod.splits)
qed

lemma foldl_nonneg: "0 \<le> v \<Longrightarrow> (\<And>x. x \<in> set xs \<Longrightarrow> 0 \<le> x) \<Longrightarrow> 0 \<le> foldl (+) v xs" for v :: double
  by (induction xs arbitrary: v) (simp_all add: dplus_nonneg)

lemma foldl_max_nonneg: "0 \<le> v \<Longrightarrow> 0 \<le> foldl std_max v xs"
proof (induction xs arbitrary: v)
  case (Cons x xs)
  have "0 \<le> std_max v x"
    using Cons.prems dle_trans dless_imp_le by (auto simp: std_max_def)
  then show ?case
    using Cons.IH by simp
qed simp

lemma dquotient_nonneg: "0 \<le> x \<Longrightarrow> 0 < y \<Longrightarrow> isfinite y \<Longrightarrow> 0 \<le> x / (y :: double)"
  by (cases x; cases y) (auto intro: D_nonneg)

lemma assemble_bounds:
  assumes "no_negative_stress m" and "length (ms_nodes m) < 2 ^ 53"
  shows "0 \<le> sa_max_von_mises (assemble_result s now pid m)"
    and "0 \<le> sa_avg_von_mises (assemble_result s now pid m)"
    and "0 \<le> sa_high_stress_area_ratio (assemble_result s now pid m)"
    and "sa_high_stress_area_ratio (assemble_result s now pid m) \<le> D 1"
proof -
  have million: "0 < D (10 ^ 6)" "isfinite (D (10 ^ 6))"
    by simp_all
  have v: "0 \<le> x" if "x \<in> set (map (\<lambda>node. von_mises (fn_stress node)) (ms_nodes m))" for x
    using that assms(1) by (auto simp: no_negative_stress_def)
  have n: "0 < of_i (int k)" "isfinite (of_i (int k))" if "0 < k" "k < 2 ^ 53" for k
    using that exact_of_nat [of k] by (simp_all add: of_i_def)
  show "0 \<le> sa_max_von_mises (assemble_result s now pid m)"
    using dquotient_nonneg [OF foldl_max_nonneg million] by (simp add: assemble_result_def Let_def)
  show "0 \<le> sa_avg_von_mises (assemble_result s now pid m)"
  proof (cases "ms_nodes m = []")
    case False
    have "0 \<le> foldl (+) 0 (map (\<lambda>node. von_mises (fn_stress node)) (ms_nodes m))"
      by (rule foldl_nonneg) (use v in auto)
    then show ?thesis
      using dquotient_nonneg [OF dquotient_nonneg [OF _ n [of "length (ms_nodes m)"]] million] False assms(2)
      by (simp add: assemble_result_def Let_def)
  qed (simp add: assemble_result_def Let_def)
  have ratio: "0 \<le> of_i (int c) / of_i (int k) \<and> of_i (int c) / of_i (int k) \<le> D 1"
    if "c \<le> k" "0 < k" "k < 2 ^ 53" for c k
    using that exact_of_nat [of k] exact_of_nat [of c] D_mono [of "real c / real k" 1]
    by (simp add: of_i_def D_nonneg divide_le_eq)
  show "0 \<le> sa_high_stress_area_ratio (assemble_result s now pid m)"
    "sa_high_stress_area_ratio (assemble_result s now pid m) \<le> D 1"
    using ratio [OF length_filter_le [of _ "ms_nodes m"]] assms(2) by (auto simp: assemble_result_def Let_def filter_map)
qed

text \<open>C3: Without refinement an analysis always returns: it reports every node of the grid, with figures
  that are no NaN and not negative. But the points on the six faces carry the stress that the
  memory of their nodes held before the analysis, which nothing initialises, completed by the
  von Mises stress computed from it; it enters the maximum, the average and the ratio.\<close>

theorem uniform_analysis:
  fixes s :: fem_solver
  defines "r \<equiv> fem_grid_resolution (fs_config s)"
  assumes "\<not> fem_use_adaptive_mesh (fs_config s) \<or> fem_max_refinement_level (fs_config s) \<le> 0"
    and "1 \<le> r" and "r \<le> 1290" and "cracks \<noteq> []"
  shows "\<exists>result. fem_analyze junk rand now s pid cracks = Inr result
    \<and> length (sa_grid_points result) = nat (r * r * r)
    \<and> 0 \<le> sa_max_von_mises result \<and> 0 \<le> sa_avg_von_mises result
    \<and> 0 \<le> sa_high_stress_area_ratio result \<and> sa_high_stress_area_ratio result \<le> D 1
    \<and> (\<forall>i j k. on_face r (i, j, k) \<longrightarrow>
        (let n = nat (k * r * r + j * r + i) in gstress (sa_grid_points result ! n) = with_von_mises (junk n)))"
proof -
  let ?c = "fs_config s" and ?field = "compute_crack_density_field (fs_config s) cracks"
  obtain m0 where m0: "build_grid junk ?c cracks = Inr m0" "uniform ?c m0"
      "ms_nodes m0 = map (\<lambda>(n, p). grid_node junk m0 n p) (List.enumerate 0 (grid_positions m0))"
    using build_grid_uniform assms by blast
  have f0: "fits m0" "ms_nodes m0 \<noteq> []"
    using uniform_fits [OF m0(2)] assms(3) by (simp_all add: r_def)
  have step: "\<exists>m'. solve_elasticity s (direct_nodes (?field m)) = Inr m' \<and> frame_of m' = frame_of m0"
    if "frame_of m = frame_of m0" for m
  proof -
    have fr: "frame_of (direct_nodes (?field m)) = frame_of m0"
      using that by (simp add: frame_direct frame_field)
    then show ?thesis
      using solve_returns [of "direct_nodes (?field m)" s] frame_fits [OF fr] f0(1) frame_solve by metis
  qed
  obtain m1 where m1: "solve_elasticity s (direct_nodes (?field m0)) = Inr m1" "frame_of m1 = frame_of m0"
    using step [of m0] by blast
  have "adaptive_mesh_refinement rand s m1 = Inr m1" if "fem_max_refinement_level ?c \<le> 0"
    using that by (simp add: adaptive_mesh_refinement_def)
  then obtain m2 where m2: "(if fem_use_adaptive_mesh ?c
        then and_then (adaptive_mesh_refinement rand s m1) (\<lambda>m. solve_elasticity s (direct_nodes (?field m)))
        else Inr m1) = Inr m2" "frame_of m2 = frame_of m0"
    using step [OF m1(2)] m1(2) assms(2) by (cases "fem_use_adaptive_mesh ?c") auto
  let ?m3 = "compute_von_mises (apply_crack_stress_coupling s m2)"
  have f3: "fits ?m3"
    using frame_fits [OF m2(2)] frame_fits [OF frame_coupling] f0(1) by (simp add: fits_von_mises)
  obtain m4 where m4: "smooth_stress_field ?m3 = Inr m4" "frame_of m4 = frame_of ?m3" "no_negative_stress m4"
    using smooth_returns [OF f3 stress_von_mises] by blast
  have faces: "map face (ms_nodes m4) = map (map_option with_von_mises \<circ> face) (ms_nodes m0)"
    using m4(2) m2(2) frame_coupling [of s m2]
    by (simp add: frame_von_mises) (simp add: frame_of_def flip: map_map)
  have l: "length (ms_nodes m4) = nat (r * r * r)"
    using map_eq_imp_length_eq [OF faces] m0(2) by (simp add: uniform_def r_def Let_def)
  have big: "r * r * r \<le> 1290 * 1290 * 1290"
    using assms(3,4) by (intro mult_mono) simp_all
  have face: "gstress (sa_grid_points (assemble_result s now pid m4) ! nat (k * r * r + j * r + i)) =
      with_von_mises (junk (nat (k * r * r + j * r + i)))"
    if "on_face r (i, j, k)" for i j k
  proof -
    let ?n = "nat (k * r * r + j * r + i)"
    have "?n = nat (idx m0 (i, j, k))"
      using m0(2) by (simp add: idx_def uniform_def r_def Let_def)
    then have n: "?n < length (ms_nodes m0)" "face (ms_nodes m0 ! ?n) = Some (junk ?n)"
      using grid_face [OF m0(2,3)] that unfolding r_def by metis+
    have "face (ms_nodes m4 ! ?n) = Some (with_von_mises (junk ?n))"
      using arg_cong [OF faces, of "\<lambda>xs. xs ! ?n"] n map_eq_imp_length_eq [OF faces] by simp
    then show ?thesis
      using n map_eq_imp_length_eq [OF faces]
      by (auto simp: face_def assemble_result_def grid_point_of_def Let_def split: if_splits prod.splits)
  qed
  have "fem_analyze junk rand now s pid cracks = Inr (assemble_result s now pid m4)"
    using m0(1) f0(2) m1(1) m2(1) m4(1) by (simp add: fem_analyze_def Let_def)
  then show ?thesis
    using face assemble_bounds [OF m4(3)] l big by (auto simp: assemble_result_def Let_def)
qed

definition fem_demo_crack :: crack_info where
  "fem_demo_crack =
     \<lparr>ci_id = 1, ci_porcelain_id = 1, ci_crack_code = ''C1'', ci_max_depth = D 1, ci_max_width = D 1,
      ci_total_length = D 1, ci_status = ''ACTIVE'',
      ci_points = [\<lparr>px = 0, py = 0, pz = 0, pdepth = D 1, pwidth = D 1, pnormal = None, pcurvature = None\<rparr>],
      ci_detected_at = 0\<rparr>"

definition fem_demo_solver :: fem_solver where
  "fem_demo_solver = new_fem_solver
     \<lparr>fs_config := default_fem_config\<lparr>fem_grid_resolution := 2, fem_use_adaptive_mesh := False\<rparr>\<rparr>"

theorem uniform_analysis_witness:
  "\<forall>junk rand now. \<exists>result. fem_analyze junk rand now fem_demo_solver 1 [fem_demo_crack] = Inr result
    \<and> length (sa_grid_points result) = 8 \<and> gstress (sa_grid_points result ! 7) = with_von_mises (junk 7)"
proof (intro allI)
  fix junk :: "nat \<Rightarrow> stress_tensor" and rand :: "nat \<Rightarrow> int" and now :: time_point
  have "on_face 2 (1, 1, 1)"
    by (simp add: on_face_def)
  then show "\<exists>result. fem_analyze junk rand now fem_demo_solver 1 [fem_demo_crack] = Inr result
    \<and> length (sa_grid_points result) = 8 \<and> gstress (sa_grid_points result ! 7) = with_von_mises (junk 7)"
    using uniform_analysis [of fem_demo_solver "[fem_demo_crack]" junk rand now 1]
    by (fastforce simp: fem_demo_solver_def default_fem_config_def Let_def)
qed

subsection \<open>Refinement with the default configuration\<close>

definition node_grade :: "fem_node \<Rightarrow> double \<times> int" where
  "node_grade node = (fn_crack_density node, fn_refinement_level node)"

definition graded :: "fea_mesh \<Rightarrow> (double \<times> int) list \<times> int \<times> int \<times> int" where
  "graded m = (map node_grade (ms_nodes m), ms_nx m, ms_ny m, ms_nz m)"

lemma graded_solve: "solve_elasticity s m = Inr m' \<Longrightarrow> graded m' = graded m"
proof -
  assume "solve_elasticity s m = Inr m'"
  then have e: "map unmoved (ms_nodes m') = map unmoved (ms_nodes m)" "m'\<lparr>ms_nodes := []\<rparr> = m\<lparr>ms_nodes := []\<rparr>"
    using solve_kept by (auto simp: only_def)
  have "map node_grade (map unmoved (ms_nodes m')) = map node_grade (map unmoved (ms_nodes m))"
    by (simp only: e(1))
  moreover have "node_grade (unmoved node) = node_grade node" for node
    by (simp add: node_grade_def unmoved_def)
  ultimately show ?thesis
    using arg_cong [OF e(2), of ms_nx] arg_cong [OF e(2), of ms_ny] arg_cong [OF e(2), of ms_nz]
    by (simp add: graded_def comp_def)
qed

lemma graded_put: "node_at m n = Inr node \<Longrightarrow> node_grade node' = node_grade node \<Longrightarrow> graded (put_node n node' m) = graded m"
  using only_put [of m n node node_grade node'] by (simp add: only_def graded_def put_dims)

lemma graded_gradient: "graded (gradient_node p m) = graded m"
  unfolding gradient_node_def Let_def
  by (auto simp: node_at_def node_grade_def intro!: graded_put)

lemma graded_gradients: "graded (compute_stress_gradients m) = graded m"
proof -
  have "graded (fold gradient_node ps m) = graded m" for ps
    by (induction ps arbitrary: m) (simp_all add: graded_gradient)
  then show ?thesis
    by (simp add: compute_stress_gradients_def)
qed

lemma graded_stress: "graded (compute_von_mises (apply_crack_stress_coupling s m)) = graded m"
  by (auto simp: graded_def compute_von_mises_def apply_crack_stress_coupling_def node_grade_def)

lemma graded_mark: "graded (mark_nodes_for_refinement cfg m) = graded m"
  by (auto simp: graded_def mark_nodes_for_refinement_def node_grade_def)

definition all_dense :: "fem_config \<Rightarrow> fea_mesh \<Rightarrow> bool" where
  "all_dense cfg m \<longleftrightarrow> (\<forall>g \<in> set (fst (graded m)).
     fem_refinement_crack_density_threshold cfg < fst g \<and> snd g = 0)"

lemma marked_dense:
  assumes "fem_refinement_crack_density_threshold cfg < fn_crack_density node" and "fn_refinement_level node = 0"
    and "0 < fem_max_refinement_level cfg"
  shows "marked cfg m node"
  using assms by (simp add: marked_def Let_def)

lemma measure_marks_all:
  assumes "measure_stress s m = Inr m'" and "all_dense (fs_config s) m" and "0 < fem_max_refinement_level (fs_config s)"
  shows "graded m' = graded m" and "\<forall>node \<in> set (ms_nodes m'). fn_needs_refinement node \<and> fn_refinement_level node = 0"
proof -
  obtain m1 where m1: "solve_elasticity s m = Inr m1"
    and m': "m' = mark_nodes_for_refinement (fs_config s)
      (compute_stress_gradients (compute_von_mises (apply_crack_stress_coupling s m1)))"
    using assms(1) by (auto simp: measure_stress_def and_then_eq_Inr_iff)
  show "graded m' = graded m"
    using graded_solve [OF m1] by (simp add: m' graded_mark graded_gradients graded_stress)
  let ?m2 = "compute_stress_gradients (compute_von_mises (apply_crack_stress_coupling s m1))"
  have "graded ?m2 = graded m"
    using graded_solve [OF m1] by (simp add: graded_gradients graded_stress)
  then have "all_dense (fs_config s) ?m2"
    using assms(2) by (simp add: all_dense_def)
  then show "\<forall>node \<in> set (ms_nodes m'). fn_needs_refinement node \<and> fn_refinement_level node = 0"
    using assms(3) by (auto simp: m' mark_nodes_for_refinement_def all_dense_def graded_def node_grade_def intro!: marked_dense)
qed

text \<open>How many nodes a refinement leaves when every node is marked.\<close>

lemma split_all_marked:
  assumes "\<forall>(i, node) \<in> set rest. fn_needs_refinement node \<and> fn_refinement_level node < fem_max_refinement_level cfg"
  shows "length (fst (split_nodes rand cfg m rest children stay used)) =
    length children + length stay + length rest
      + 7 * min (length rest) (nat ((fem_max_total_nodes cfg - 1 - int (length children)) div 8))"
  using assms
proof (induction rest arbitrary: children stay used)
  case (Cons x rest)
  obtain i node where x: "x = (i, node)"
    by (cases x)
  let ?room = "\<lambda>n. nat ((fem_max_total_nodes cfg - 1 - int n) div 8)"
  show ?case
  proof (cases "int (length children) + 8 < fem_max_total_nodes cfg")
    case True
    have "(fem_max_total_nodes cfg - 1 - int (length children + 8)) div 8 =
        (fem_max_total_nodes cfg - 1 - int (length children)) div 8 - 1"
      using div_add_self1 [of 8 "fem_max_total_nodes cfg - 1 - int (length children + 8)"] by (simp add: algebra_simps)
    moreover have "1 \<le> (fem_max_total_nodes cfg - 1 - int (length children)) div 8"
      using True by (simp add: pos_le_divide_eq zdiv_mono1 [of 8 _ 8, simplified])
    ultimately have "?room (length children) = Suc (?room (length children + 8))"
      by simp
    then show ?thesis
      using Cons True by (simp add: x)
  next
    case False
    then have "?room (length children) = 0"
      by simp
    moreover have "length (fst (split_nodes rand cfg m rest children (stay @ [node]) used)) =
        length children + length (stay @ [node]) + length rest + 7 * min (length rest) (?room (length children))"
      by (rule Cons.IH) (use Cons.prems in auto)
    ultimately show ?thesis
      using False by (simp add: x)
  qed
qed simp

lemma round_cbrt: "to_int32 (dround (dcbrt (of_i 562493))) = Inr 83"
proof -
  have r: "of_i 562493 = D 562493"
    by (simp add: of_i_def)
  have "root 3 ((165/2) ^ 3) \<le> root 3 562493" "root 3 562493 \<le> root 3 ((333/4) ^ 3)"
    by (intro real_root_le_mono; simp add: power3_eq_cube)+
  then have b: "165/2 \<le> root 3 562493" "root 3 562493 \<le> 333/4"
    by (simp_all only: real_root_power_cancel [of 3])
  have "encl (D (root 3 562493)) (165/2) (333/4)"
    using exact_dyadic [of 165 1] exact_dyadic [of 333 2] b by (intro encl_D) simp_all
  then obtain x where x: "D (root 3 562493) = D x" "exact x" "165/2 \<le> x" "x \<le> 333/4"
    by (rule enclE)
  have "\<lfloor>x + 1/2\<rfloor> = 83"
    using x(3,4) by linarith
  then have "dround (D x) = D 83"
    using x by (simp add: dround_def)
  moreover have "dcbrt (of_i 562493) = D x"
    unfolding r dcbrt_def x(1) [symmetric] by (subst lift_fun_simps) simp_all
  ultimately show ?thesis
    by (simp add: to_int32_def trunc_to_def)
qed

lemma rebuild_dims:
  assumes "length (ms_nodes m) = 562493"
  shows "\<exists>m'. rebuild_node_connectivity m = Inr m' \<and> ms_nodes m' = ms_nodes m \<and>
    ms_nx m' = 83 \<and> ms_ny m' = 83 \<and> ms_nz m' = 83"
proof -
  have "grow_dims 562493 (83, 83, 83) = Inr (83, 83, 83)"
    by (subst grow_dims.simps) simp
  moreover have "ms_nodes m \<noteq> []"
    using assms by auto
  ultimately show ?thesis
    using assms round_cbrt by (simp add: rebuild_node_connectivity_def Let_def split: prod.splits)
qed

lemma refinement_overruns:
  assumes cfg: "fs_config s = default_fem_config" and dense: "all_dense default_fem_config m"
    and l: "length (ms_nodes m) = 125000" and fits: "fits m"
  shows "adaptive_mesh_refinement rand s m = Inl (UB ''vector index'')"
proof -
  have level: "fem_max_refinement_level default_fem_config = 3" "fem_max_total_nodes default_fem_config = 500000"
    by (simp_all add: default_fem_config_def)
  obtain m1 where m1: "measure_stress s m = Inr m1"
    using solve_returns [OF fits, of s] by (auto simp: measure_stress_def)
  have g: "graded m1 = graded m"
    and marked: "\<forall>node \<in> set (ms_nodes m1). fn_needs_refinement node \<and> fn_refinement_level node = 0"
    using measure_marks_all [OF m1] dense by (simp_all add: cfg level)
  have l1: "length (ms_nodes m1) = 125000"
    using g l map_eq_imp_length_eq [of node_grade "ms_nodes m1" node_grade "ms_nodes m"] by (simp add: graded_def)
  then have some: "list_ex fn_needs_refinement (ms_nodes m1)"
    using marked by (cases "ms_nodes m1") auto
  obtain nodes used where split: "split_nodes rand default_fem_config m1 (List.enumerate 0 (ms_nodes m1)) [] [] 0 = (nodes, used)"
    by (cases "split_nodes rand default_fem_config m1 (List.enumerate 0 (ms_nodes m1)) [] [] 0") auto
  have "\<forall>(i, node) \<in> set (List.enumerate 0 (ms_nodes m1)). fn_needs_refinement node \<and>
      fn_refinement_level node < fem_max_refinement_level default_fem_config"
    using marked by (auto simp: in_set_enumerate_eq level)
  from split_all_marked [OF this, of rand m1 "[]" "[]" 0]
  have nodes: "length nodes = 562493"
    by (simp add: split level l1)
  have "ms_nodes m1 \<noteq> []"
    using l1 by auto
  then have "\<exists>m2. refine_marked_nodes rand default_fem_config (m1, 0) = (m2, used) \<and> ms_nodes m2 = nodes"
    using l1 by (simp add: refine_marked_nodes_def split level Let_def)
  then obtain m2 where m2: "refine_marked_nodes rand default_fem_config (m1, 0) = (m2, used)" "ms_nodes m2 = nodes"
    by blast
  obtain m3 where m3: "rebuild_node_connectivity m2 = Inr m3" "ms_nodes m3 = nodes" "ms_nx m3 = 83" "ms_ny m3 = 83" "ms_nz m3 = 83"
    using rebuild_dims [of m2] m2(2) nodes by auto
  have "solve_elasticity s m3 = Inl (UB ''vector index'')"
  proof (rule solve_overruns)
    show "ms_nodes m3 \<noteq> []"
      using m3(2) nodes by auto
    show "(81, 81, 81) \<in> set (interior m3)"
      by (simp add: set_interior m3)
    show "int (length (ms_nodes m3)) \<le> idx m3 (81, 81, 81)"
      by (simp add: idx_def m3 nodes)
  qed
  then have "refine_loop rand s (Suc (Suc (Suc 0))) (m, 0) = Inl (UB ''vector index'')"
    using m1 some l1 m2(1) m3(1) by (simp add: cfg level measure_stress_def [of s m3])
  moreover have n: "nat (fem_max_refinement_level (fs_config s)) = Suc (Suc (Suc 0))"
    by (simp add: cfg level)
  moreover have "ms_nodes m \<noteq> []"
    using l by auto
  ultimately show ?thesis
    unfolding adaptive_mesh_refinement_def n by (simp del: refine_loop.simps)
qed

subsection \<open>A single crack with one point\<close>

lemma round_absolute:
  assumes "\<bar>r\<bar> \<le> 2 ^ 10"
  shows "\<exists>a. D r = D a \<and> exact a \<and> a - r \<le> 1 / 2 ^ 40 \<and> r - a \<le> 1 / 2 ^ 40"
proof -
  have small: "exact (1 / 2 ^ 41)" "exact (- (1 / 2 ^ 41))" "exact (2 ^ 11)" "exact (- (2 ^ 11))"
    using exact_dyadic [of 1 41] exact_dyadic [of "- 1" 41] by simp_all
  have b: "\<bar>round64 r\<bar> \<le> 2 ^ 11"
    using assms round64_mono [of "- (2 ^ 11)" r] round64_mono [of r "2 ^ 11"] small
    by (simp add: exact_def round64_representable abs_le_iff)
  then have "\<bar>round64 r\<bar> < 2 ^ 1024"
    by (rule le_less_trans) simp
  then have e: "D r = D (round64 r)" "exact (round64 r)"
    using D_cases [of r] by (auto simp: exact_def)
  have pos: "\<bar>round_pos x - x\<bar> \<le> 1 / 2 ^ 40" if "1 / 2 ^ 41 \<le> x" "x \<le> 2 ^ 10" for x
  proof -
    have "2 powi (- 1022) \<le> (1 :: real) / 2 ^ 41"
      by (simp add: power_int_minus divide_simps)
    then have "\<bar>round_pos x - x\<bar> \<le> x / 2 ^ 53"
      using round_pos_error that(1) by fastforce
    also have "\<dots> \<le> 1 / 2 ^ 40"
      using that(2) by simp
    finally show ?thesis .
  qed
  have "\<bar>round64 r - r\<bar> \<le> 1 / 2 ^ 40"
  proof (cases "\<bar>r\<bar> < 1 / 2 ^ 41")
    case True
    then have "- (1 / 2 ^ 41) \<le> r" "r \<le> 1 / 2 ^ 41"
      by linarith+
    then have "round64 (- (1 / 2 ^ 41)) \<le> round64 r" "round64 r \<le> round64 (1 / 2 ^ 41)"
      by - (rule round64_mono, assumption)+
    moreover have "round64 (1 / 2 ^ 41) = 1 / 2 ^ 41"
      using small(1) by (intro round64_representable) (simp add: exact_def)
    ultimately have "- (1 / 2 ^ 41) \<le> round64 r" "round64 r \<le> 1 / 2 ^ 41"
      unfolding round64_minus by simp_all
    then have "\<bar>round64 r\<bar> \<le> 1 / 2 ^ 41"
      by linarith
    then have "\<bar>round64 r - r\<bar> \<le> 1 / 2 ^ 41 + 1 / 2 ^ 41"
      using True abs_triangle_ineq4 [of "round64 r" r] by linarith
    then show ?thesis
      by simp
  next
    case False
    then consider "1 / 2 ^ 41 \<le> r" | "1 / 2 ^ 41 \<le> - r"
      by (cases "0 \<le> r") auto
    then show ?thesis
    proof cases
      case 1
      moreover from 1 have "0 < r"
        by (rule less_le_trans [rotated]) simp
      ultimately show ?thesis
        using pos [of r] assms by (simp add: round64_def)
    next
      case 2
      moreover have "0 < - r"
        using 2 by (rule less_le_trans [rotated]) simp
      ultimately show ?thesis
        using pos [of "- r"] assms by (simp add: round64_def abs_minus_commute add.commute)
    qed
  qed
  then have "round64 r - r \<le> 1 / 2 ^ 40" "r - round64 r \<le> 1 / 2 ^ 40"
    unfolding abs_le_iff by linarith+
  then show ?thesis
    using e by blast
qed

text \<open>One axis of the grid around a point: the spacing, and the offsets of its nodes from the point.\<close>

lemma axis_encl:
  assumes "exact X" and "\<bar>X\<bar> \<le> 1000" and "0 \<le> i" and "i \<le> 49"
  defines "pad \<equiv> D (1 / 10 ^ 3)"
  defines "h \<equiv> ((D X + pad) - (D X - pad)) / of_i (50 - 1)"
  shows "encl h (1 / 2 ^ 15) (3 / 2 ^ 16)" and "encl ((D X - pad) + of_i i * h - D X) (- (1 / 2 ^ 9)) (1 / 2 ^ 9)"
proof -
  have ex: "exact (131 / 2 ^ 17)" "exact (132 / 2 ^ 17)" "exact (261 / 2 ^ 17)" "exact (265 / 2 ^ 17)"
    "exact (1 / 2 ^ 15)" "exact (3 / 2 ^ 16)" "exact (147 / 2 ^ 16)" "exact (1 / 2 ^ 9)" "exact (- (1 / 2 ^ 9))"
    using exact_dyadic [of 131 17] exact_dyadic [of 132 17] exact_dyadic [of 261 17] exact_dyadic [of 265 17]
      exact_dyadic [of 1 15] exact_dyadic [of 3 16] exact_dyadic [of 147 16] exact_dyadic [of 1 9] exact_dyadic [of "- 1" 9]
    by simp_all
  have "encl pad (131 / 2 ^ 17) (132 / 2 ^ 17)"
    unfolding pad_def by (rule encl_D [OF ex(1,2)]) simp_all
  then obtain P where P: "pad = D P" "exact P" "131 / 2 ^ 17 \<le> P" "P \<le> 132 / 2 ^ 17"
    by (rule enclE)
  obtain a where a: "D (X - P) = D a" "exact a" "a - (X - P) \<le> 1 / 2 ^ 40" "(X - P) - a \<le> 1 / 2 ^ 40"
    using round_absolute [of "X - P"] assms(2) P(3,4) by (auto simp: abs_le_iff)
  obtain b where b: "D (X + P) = D b" "exact b" "b - (X + P) \<le> 1 / 2 ^ 40" "(X + P) - b \<le> 1 / 2 ^ 40"
    using round_absolute [of "X + P"] assms(2) P(3,4) by (auto simp: abs_le_iff)
  have "encl (D (b - a)) (261 / 2 ^ 17) (265 / 2 ^ 17)"
    by (rule encl_D [OF ex(3,4)]) (use a(3,4) b(3,4) P(3,4) in simp_all)
  then have span: "encl ((D X + pad) - (D X - pad)) (261 / 2 ^ 17) (265 / 2 ^ 17)"
    using assms(1) P(1,2) a b by simp
  have n: "of_i (50 - 1) = D 49"
    by (simp add: of_i_def)
  show h: "encl h (1 / 2 ^ 15) (3 / 2 ^ 16)"
    unfolding h_def n by (rule encl_divide [OF span encl_exact _ ex(5,6)]) simp_all
  have i: "encl (of_i i) 0 49"
    unfolding of_i_def using assms(3,4) by (intro encl_D) simp_all
  have "encl (of_i i * h) 0 (147 / 2 ^ 16)"
    by (rule encl_times [OF i h _ ex(7)]) simp_all
  then obtain t where t: "of_i i * h = D t" "exact t" "0 \<le> t" "t \<le> 147 / 2 ^ 16"
    by (rule enclE)
  obtain c where c: "D (a + t) = D c" "exact c" "c - (a + t) \<le> 1 / 2 ^ 40" "(a + t) - c \<le> 1 / 2 ^ 40"
    using round_absolute [of "a + t"] assms(2) P(3,4) a(3,4) t(3,4) by (auto simp: abs_le_iff)
  have "encl (D (c - X)) (- (1 / 2 ^ 9)) (1 / 2 ^ 9)"
    by (rule encl_D [OF ex(9,8)]) (use a(3,4) c(3,4) t(3,4) P(3,4) in simp_all)
  then show "encl ((D X - pad) + of_i i * h - D X) (- (1 / 2 ^ 9)) (1 / 2 ^ 9)"
    using assms(1) P(1,2) a(1,2) t(1,2) c by simp
qed

lemma weight_encl:
  assumes "encl dx (1 / 2 ^ 15) (3 / 2 ^ 16)" "encl dy (1 / 2 ^ 15) (3 / 2 ^ 16)" "encl dz (1 / 2 ^ 15) (3 / 2 ^ 16)"
    and "encl x (- (1 / 2 ^ 9)) (1 / 2 ^ 9)" "encl y (- (1 / 2 ^ 9)) (1 / 2 ^ 9)" "encl z (- (1 / 2 ^ 9)) (1 / 2 ^ 9)"
  shows "encl (gaussian_weight (dsqrt (x * x + y * y + z * z)) (D 50 * dcbrt (dx * dy * dz))) (1 / 2 ^ 13) 1"
proof -
  let ?d = "dsqrt (x * x + y * y + z * z)" and ?s = "D 50 * dcbrt (dx * dy * dz)"
  have ex: "exact (1 / 2 ^ k)" if "k \<le> 60" for k :: nat
    using that exact_dyadic [of 1 k] by simp
  have ex3: "exact (9 / 2 ^ 32)" "exact (27 / 2 ^ 48)" "exact (3 / 2 ^ 18)" "exact (- (1 / 2 ^ 18))" "exact (- (1 / 2 ^ 16))" "exact (- (1 / 2 ^ 8))"
    using exact_dyadic [of 9 32] exact_dyadic [of 27 48] exact_dyadic [of 3 18] exact_dyadic [of "- 1" 18]
      exact_dyadic [of "- 1" 16] exact_dyadic [of "- 1" 8] by simp_all
  have square: "encl (v * v) 0 (1 / 2 ^ 18)" if v: "encl v (- (1 / 2 ^ 9)) (1 / 2 ^ 9)" for v
  proof -
    obtain a where a: "v = D a" "exact a" "- (1 / 2 ^ 9) \<le> a" "a \<le> 1 / 2 ^ 9"
      using v by (rule enclE)
    then have "\<bar>a\<bar> * \<bar>a\<bar> \<le> 1 / 2 ^ 9 * (1 / 2 ^ 9)"
      by (intro mult_mono) (simp_all add: abs_le_iff)
    then have "a * a \<le> 1 / 2 ^ 18"
      by simp
    then show ?thesis
      unfolding a(1) D_times [OF a(2) a(2)] using ex [of 18] by (intro encl_D) simp_all
  qed
  have "encl (x * x + y * y) 0 (1 / 2 ^ 17)"
    by (rule encl_plus [OF square square _ ex]) (use assms(4-6) in simp_all)
  then have "encl (x * x + y * y + z * z) 0 (3 / 2 ^ 18)"
    by (rule encl_plus [OF _ square _ ex3(3)]) (use assms(4-6) in simp_all)
  then obtain q where q: "x * x + y * y + z * z = D q" "exact q" "0 \<le> q" "q \<le> 3 / 2 ^ 18"
    by (rule enclE)
  have "sqrt q \<le> sqrt ((1 / 2 ^ 8) ^ 2)"
    using q(4) by (intro real_sqrt_le_mono) (simp add: power2_eq_square)
  then have d: "encl ?d 0 (1 / 2 ^ 8)"
    unfolding q(1) dsqrt_def using q(2,3) ex [of 8] by (simp add: encl_D)
  from encl_uminus [OF d] have "encl (- ?d) (- (1 / 2 ^ 8)) 0"
    by simp
  then have num: "encl (- ?d * ?d) (- (1 / 2 ^ 16)) 0"
    by (rule encl_times [OF _ d ex3(5)]) simp_all
  have "encl (dx * dy) (1 / 2 ^ 30) (9 / 2 ^ 32)"
    by (rule encl_times [OF assms(1,2) ex ex3(1)]) simp_all
  then have "encl (dx * dy * dz) (1 / 2 ^ 45) (27 / 2 ^ 48)"
    by (rule encl_times [OF _ assms(3) ex ex3(2)]) simp_all
  then obtain v where v: "dx * dy * dz = D v" "exact v" "1 / 2 ^ 45 \<le> v" "v \<le> 27 / 2 ^ 48"
    by (rule enclE)
  have "root 3 ((1 / 2 ^ 15) ^ 3) \<le> root 3 v" "root 3 v \<le> root 3 ((1 / 2 ^ 14) ^ 3)"
    using v(3,4) by (intro real_root_le_mono; simp add: power3_eq_cube)+
  moreover have "root 3 ((1 / 2 ^ k) ^ 3) = 1 / 2 ^ k" for k
    by (rule real_root_power_cancel) simp_all
  ultimately have "1 / 2 ^ 15 \<le> root 3 v" "root 3 v \<le> 1 / 2 ^ 14"
    by (simp_all only:)
  then have cbrt: "encl (dcbrt (dx * dy * dz)) (1 / 2 ^ 15) (1 / 2 ^ 14)"
    unfolding v(1) dcbrt_def using v(2) ex [of 15] ex [of 14] by (simp add: encl_D)
  have s: "encl ?s (1 / 2 ^ 10) (1 / 2 ^ 8)"
    by (rule encl_times [OF encl_exact cbrt ex ex]) simp_all
  have "encl (D 2 * ?s) (1 / 2 ^ 9) (1 / 2 ^ 7)"
    by (rule encl_times [OF encl_exact s ex ex]) simp_all
  then have den: "encl (D 2 * ?s * ?s) (1 / 2 ^ 19) (1 / 2 ^ 15)"
    by (rule encl_times [OF _ s ex ex]) simp_all
  have "encl (- ?d * ?d / (D 2 * ?s * ?s)) (- 8) 0"
    by (rule encl_divide [OF num den]) simp_all
  then obtain r where r: "- ?d * ?d / (D 2 * ?s * ?s) = D r" "exact r" "- 8 \<le> r" "r \<le> 0"
    by (rule enclE)
  have "exp (8 :: real) = exp 1 ^ 8"
    by (simp flip: exp_of_nat_mult)
  also have "\<dots> \<le> 3 ^ 8"
    using exp_le by (intro power_mono) simp_all
  finally have "inverse (3 ^ 8) \<le> inverse (exp (8 :: real))"
    by (intro le_imp_inverse_le) simp_all
  then have "1 / 2 ^ 13 \<le> exp (- 8 :: real)"
    by (simp add: exp_minus)
  also have "exp (- 8) \<le> exp r"
    using r(3) by (simp only: exp_le_cancel_iff)
  finally have "1 / 2 ^ 13 \<le> exp r" .
  moreover have "exp r \<le> 1"
    using r(4) by simp
  ultimately have "encl (dexp (- ?d * ?d / (D 2 * ?s * ?s))) (1 / 2 ^ 13) 1"
    unfolding r(1) using ex [of 13] r(2) by (simp add: dexp_def encl_D)
  moreover have "\<not> ?s < D (1 / 10 ^ 12)"
  proof -
    have "D (1 / 10 ^ 12) \<le> D (1 / 2 ^ 10)"
      by (rule D_mono) simp
    moreover have "D (1 / 2 ^ 10) \<le> ?s"
      using s ex [of 10] by (elim enclE) simp
    ultimately show ?thesis
      using dle_trans dless_not_sym by blast
  qed
  ultimately show ?thesis
    by (simp add: gaussian_weight_def)
qed

lemma exact_abs: "exact \<bar>r\<bar> \<longleftrightarrow> exact r"
  by (simp add: abs_if)

lemma DBL_MAX_bounds: "exact (2 ^ 1024 - 2 ^ 971)" "2000 \<le> (2 :: real) ^ 1024 - 2 ^ 971"
proof -
  have "(2 :: real) ^ 1024 = 2 ^ 53 * 2 ^ 971"
    by (subst power_add [symmetric]) simp
  then have e: "(2 :: real) ^ 1024 - 2 ^ 971 = of_int (2 ^ 53 - 1) * 2 powi 971"
    by (simp only: left_diff_distrib of_int_diff of_int_power of_int_numeral of_int_1 mult_1 power_int_numeral)
  have "representable (2 ^ 1024 - 2 ^ 971)"
    unfolding representable_def by (rule exI [of _ "2 ^ 53 - 1"], rule exI [of _ 971], intro conjI, rule e) simp_all
  moreover have "\<bar>(2 :: real) ^ 1024 - 2 ^ 971\<bar> < 2 ^ 1024"
    by simp
  ultimately show "exact (2 ^ 1024 - 2 ^ 971)"
    by (simp only: exact_def)
qed simp

definition near_crack :: "crack_info \<Rightarrow> bool" where
  "near_crack c \<longleftrightarrow> (\<exists>p. ci_points c = [p]
     \<and> \<bar>px p\<bar> \<le> D 1000 \<and> \<bar>py p\<bar> \<le> D 1000 \<and> \<bar>pz p\<bar> \<le> D 1000)
   \<and> D (1 / 10 ^ 6) \<le> ci_max_depth c * ci_max_width c \<and> ci_max_depth c * ci_max_width c \<le> D (10 ^ 6)"

lemma single_extent:
  assumes "ci_points c = [p]" and "f p = D X" and "exact X" and "\<bar>X\<bar> \<le> 1000"
  shows "extent f [c] = (D X, D X)"
proof -
  have "\<not> DBL_MAX < D X" "D X < DBL_MAX" "- DBL_MAX < D X"
    using assms(3,4) DBL_MAX_bounds by (simp_all add: DBL_MAX_def abs_le_iff)
  then show ?thesis
    using assms by (simp add: extent_def fem_points_def std_min_def std_max_def)
qed

lemma foldl_max_mem: "foldl std_max v xs \<in> insert v (set xs)"
proof (induction xs arbitrary: v)
  case (Cons x xs)
  show ?case
    using Cons.IH [of "std_max v x"] by (auto simp: std_max_def)
qed simp

lemma foldl_max_pos: "xs \<noteq> [] \<Longrightarrow> (\<And>x. x \<in> set xs \<Longrightarrow> 0 < x) \<Longrightarrow> foldl std_max 0 xs \<in> set xs"
  using foldl_max_mem [of "hd xs" "tl xs"] by (cases xs) (auto simp: std_max_def)

text \<open>When every node weighs the only point by at least \<open>2 ^ -13\<close>, all densities are the crack's own
  contribution up to rounding, and the normalised ones are near one.\<close>

lemma uniform_density:
  assumes "ci_points c = [p]" and C: "approx 0 7 (ci_max_depth c * ci_max_width c) r"
    and "ms_nodes m \<noteq> []"
    and w: "\<And>node. node \<in> set (ms_nodes m) \<Longrightarrow>
      encl (gaussian_weight (distance_to node (px p) (py p) (pz p)) (fem_crack_density_sensitivity cfg * avg_spacing m)) (1 / 2 ^ 13) 1"
    and node: "node \<in> set (ms_nodes (compute_crack_density_field cfg [c] m))"
  shows "D (3/10) < fn_crack_density node"
    and "fn_refinement_level node \<in> fn_refinement_level ` set (ms_nodes m)"
proof -
  let ?C = "ci_max_depth c * ci_max_width c" and ?s = "fem_crack_density_sensitivity cfg * avg_spacing m"
  let ?nodes = "map (node_density ?s [c]) (ms_nodes m)"
  have dens: "approx 2 15 (fn_crack_density (node_density ?s [c] n)) r \<and>
      fn_refinement_level (node_density ?s [c] n) = fn_refinement_level n"
    if n: "n \<in> set (ms_nodes m)" for n
  proof -
    let ?w = "gaussian_weight (distance_to n (px p) (py p) (pz p)) ?s"
    have ew: "isfinite ?w" "1 / 2 ^ 13 \<le> val ?w" "val ?w \<le> 1"
      using w [OF n] by (simp_all add: encl_def)
    then have aw: "approx 0 4 ?w (val ?w)"
      by (intro approx_val) simp_all
    have "approx 2 15 (?w * ?C / ?w) (val ?w * r / val ?w)"
      by (rule approx_weaken [OF approx_divide [OF approx_times [OF aw C] aw]]) simp_all
    then have d: "approx 2 15 (?w * ?C / ?w) r"
      using ew(2) by simp
    have "D (1 / 10 ^ 12) < ?w"
      by (rule approx_less [OF approx_D [of 12] aw]) (use ew(2) in simp_all)
    moreover obtain u where "weigh_cracks ?s n [c] = (?w, ?w * ?C, u)"
      by (auto simp: weigh_cracks_def weigh_point_def assms(1) Let_def split: option.splits prod.splits)
    ultimately show ?thesis
      using d by (auto simp: node_density_def Let_def split: prod.splits)
  qed
  let ?ds = "map fn_crack_density ?nodes"
  have "foldl std_max 0 ?ds \<in> set ?ds"
  proof (rule foldl_max_pos)
    show "?ds \<noteq> []"
      using assms(3) by simp
    show "0 < x" if "x \<in> set ?ds" for x
    proof -
      have "x \<in> (\<lambda>n. fn_crack_density (node_density ?s [c] n)) ` set (ms_nodes m)"
        using that by (simp only: set_map image_image)
      then obtain n where "n \<in> set (ms_nodes m)" "x = fn_crack_density (node_density ?s [c] n)"
        by (rule imageE)
      then show ?thesis
        using approx_pos(1) [OF conjunct1 [OF dens]] by blast
    qed
  qed
  then have mx: "approx 2 15 (foldl std_max 0 ?ds) r"
    using dens by auto
  have fold: "foldl (\<lambda>v node. std_max v (fn_crack_density node)) 0 ?nodes = foldl std_max 0 ?ds"
    by (simp add: foldl_map)
  have "r = val ?C \<or> 1 / 10 ^ 7 \<le> r"
    using C by (simp add: approx_def)
  then have "D (1 / 10 ^ 12) < foldl std_max 0 ?ds"
    using C by (intro approx_less [OF approx_D [of 12] mx]) (simp_all add: approx_def)
  then have nodes: "ms_nodes (compute_crack_density_field cfg [c] m) =
      map (\<lambda>node. node\<lparr>fn_crack_density := fn_crack_density node / foldl std_max 0 ?ds\<rparr>) ?nodes"
    using assms(3) fold by (simp add: compute_crack_density_field_def Let_def)
  then obtain n where n: "n \<in> set (ms_nodes m)"
      "node = (node_density ?s [c] n)\<lparr>fn_crack_density := fn_crack_density (node_density ?s [c] n) / foldl std_max 0 ?ds\<rparr>"
    using node by auto
  have pos: "0 < r"
    using approx_pos(3) [OF mx] .
  have "approx 5 30 (fn_crack_density node) (r / r)"
    unfolding n(2) using approx_weaken [OF approx_divide [OF conjunct1 [OF dens [OF n(1)]] mx]] by simp
  then have one: "approx 5 30 (fn_crack_density node) 1"
    using pos by simp
  show "D (3/10) < fn_crack_density node"
    by (rule approx_less [OF approx_D [of 1 "3/10"] one]) simp_all
  show "fn_refinement_level node \<in> fn_refinement_level ` set (ms_nodes m)"
    using dens [OF n(1)] n by simp
qed

lemma single_point_grid:
  assumes "near_crack c"
  shows "\<exists>m. build_grid junk default_fem_config [c] = Inr m \<and> uniform default_fem_config m \<and>
    all_dense default_fem_config (compute_crack_density_field default_fem_config [c] m)"
proof -
  obtain p where p: "ci_points c = [p]" "\<bar>px p\<bar> \<le> D 1000" "\<bar>py p\<bar> \<le> D 1000" "\<bar>pz p\<bar> \<le> D 1000"
    and C: "D (1 / 10 ^ 6) \<le> ci_max_depth c * ci_max_width c" "ci_max_depth c * ci_max_width c \<le> D (10 ^ 6)"
    using assms by (auto simp: near_crack_def)
  have coordinate: "\<exists>X. v = D X \<and> exact X \<and> \<bar>X\<bar> \<le> 1000" if "\<bar>v\<bar> \<le> D 1000" for v
    using that by (cases v) (auto simp: exact_abs)
  obtain X Y Z where X: "px p = D X" "exact X" "\<bar>X\<bar> \<le> 1000" and Y: "py p = D Y" "exact Y" "\<bar>Y\<bar> \<le> 1000"
    and Z: "pz p = D Z" "exact Z" "\<bar>Z\<bar> \<le> 1000"
    using coordinate [OF p(2)] coordinate [OF p(3)] coordinate [OF p(4)] by blast
  obtain m where m: "build_grid junk default_fem_config [c] = Inr m" "uniform default_fem_config m"
      "ms_nodes m = map (\<lambda>(n, p). grid_node junk m n p) (List.enumerate 0 (grid_positions m))"
    using build_grid_uniform [of "[c]" default_fem_config junk] by (auto simp: default_fem_config_def)
  let ?pad = "D (1 / 10 ^ 3)"
  let ?h = "\<lambda>X. ((D X + ?pad) - (D X - ?pad)) / of_i (50 - 1)"
  have "D (1/10) * std_max (std_max (D X - D X) (D Y - D Y)) (D Z - D Z) = 0"
    using X(2) Y(2) Z(2) by (simp add: std_max_def)
  moreover have "0 < D (1 / 10 ^ 6)"
    by (rule approx_pos(1) [OF approx_D [of 6]]) simp_all
  ultimately have box: "ms_bbox_min m = (D X - ?pad, D Y - ?pad, D Z - ?pad)" "ms_dx m = ?h X" "ms_dy m = ?h Y" "ms_dz m = ?h Z"
    using m(1) single_extent [of c p px, OF p(1) X] single_extent [of c p py, OF p(1) Y] single_extent [of c p pz, OF p(1) Z]
    by (auto simp: build_grid_def Let_def default_fem_config_def split: if_splits)
  have dims: "ms_nx m = 50" "ms_ny m = 50" "ms_nz m = 50"
    using m(2) by (simp_all add: uniform_def default_fem_config_def)
  have "\<exists>r. approx 0 7 (ci_max_depth c * ci_max_width c) r"
  proof -
    have "D (1 / 2 ^ 20) \<le> D (1 / 10 ^ 6)"
      by (rule D_mono) simp
    then have "D (1 / 2 ^ 20) \<le> ci_max_depth c * ci_max_width c"
      using C(1) dle_trans by blast
    then have "isfinite (ci_max_depth c * ci_max_width c)" "1 / 2 ^ 20 \<le> val (ci_max_depth c * ci_max_width c)"
        "val (ci_max_depth c * ci_max_width c) \<le> 10 ^ 6"
      using C(2) exact_dyadic [of 1 20] by (cases "ci_max_depth c * ci_max_width c"; simp)+
    then have "approx 0 7 (ci_max_depth c * ci_max_width c) (val (ci_max_depth c * ci_max_width c))"
      by (intro approx_val) simp_all
    then show ?thesis ..
  qed
  then obtain r where r: "approx 0 7 (ci_max_depth c * ci_max_width c) r"
    by blast
  have level: "fn_refinement_level node = 0" if "node \<in> set (ms_nodes m)" for node
    using that by (subst (asm) m(3)) (auto simp: grid_node_def split: prod.splits)
  have weight: "encl (gaussian_weight (distance_to node (px p) (py p) (pz p))
      (fem_crack_density_sensitivity default_fem_config * avg_spacing m)) (1 / 2 ^ 13) 1"
    if node: "node \<in> set (ms_nodes m)" for node
  proof -
    have "node \<in> (\<lambda>e. grid_node junk m (fst e) (snd e)) ` set (List.enumerate 0 (grid_positions m))"
      using node by (subst (asm) m(3)) (simp only: set_map split_def)
    then obtain e where e: "e \<in> set (List.enumerate 0 (grid_positions m))" "node = grid_node junk m (fst e) (snd e)"
      by (rule imageE)
    obtain i j k where q: "snd e = (i, j, k)"
      by (rule prod_cases3)
    have "snd e \<in> set (grid_positions m)"
      using imageI [OF e(1), of snd] by (simp only: set_map [symmetric] map_snd_enumerate)
    then have n: "node = grid_node junk m (fst e) (i, j, k)" "(i, j, k) \<in> set (grid_positions m)"
      using e(2) by (simp_all only: q)
    have b: "0 \<le> i" "i \<le> 49" "0 \<le> j" "j \<le> 49" "0 \<le> k" "k \<le> 49"
      using n(2) by (simp_all add: grid_positions_def set_positions dims)
    show ?thesis
      using weight_encl [OF axis_encl(1) [OF X(2,3) b(1,2)] axis_encl(1) [OF Y(2,3) b(3,4)] axis_encl(1) [OF Z(2,3) b(5,6)]
          axis_encl(2) [OF X(2,3) b(1,2)] axis_encl(2) [OF Y(2,3) b(3,4)] axis_encl(2) [OF Z(2,3) b(5,6)]]
      by (simp add: n(1) grid_node_def distance_to_def avg_spacing_def box X(1) Y(1) Z(1) Let_def default_fem_config_def
          del: D_minus D_plus D_divide)
  qed
  have ne: "ms_nodes m \<noteq> []"
    using uniform_fits [OF m(2)] by (simp add: default_fem_config_def)
  have "all_dense default_fem_config (compute_crack_density_field default_fem_config [c] m)"
    using uniform_density [OF p(1) r ne weight] level
    by (auto simp: all_dense_def graded_def node_grade_def default_fem_config_def)
  then show ?thesis
    using m(1,2) by blast
qed

lemma graded_direct: "graded (direct_nodes m) = graded m"
  by (auto simp: graded_def direct_nodes_def principal_stress_direction_def node_grade_def Let_def split: prod.splits)

lemma single_point_overruns:
  assumes "fs_config s = default_fem_config" and "near_crack c"
  shows "fem_analyze junk rand now s pid [c] = Inl (UB ''vector index'')"
proof -
  obtain m where m: "build_grid junk default_fem_config [c] = Inr m" "uniform default_fem_config m"
      "all_dense default_fem_config (compute_crack_density_field default_fem_config [c] m)"
    using single_point_grid [OF assms(2)] by blast
  let ?m = "direct_nodes (compute_crack_density_field default_fem_config [c] m)"
  have m0: "fits m" "ms_nodes m \<noteq> []" "length (ms_nodes m) = 125000"
    using uniform_fits [OF m(2)] m(2) by (simp_all add: default_fem_config_def uniform_def)
  have fr: "frame_of ?m = frame_of m"
    by (simp add: frame_direct frame_field)
  obtain m1 where m1: "solve_elasticity s ?m = Inr m1"
    using solve_returns [of ?m s] frame_fits [OF fr] m0(1) by blast
  have "frame_of m1 = frame_of m"
    using frame_solve [OF m1] fr by simp
  then have "fits m1" "length (ms_nodes m1) = 125000"
    using frame_fits [of m1 m] m0 map_eq_imp_length_eq [of face "ms_nodes m1" face "ms_nodes m"] by (simp_all add: frame_of_def)
  moreover have "all_dense default_fem_config m1"
    using m(3) graded_solve [OF m1] by (simp add: all_dense_def graded_direct)
  ultimately have "adaptive_mesh_refinement rand s m1 = Inl (UB ''vector index'')"
    using refinement_overruns assms(1) by blast
  moreover have "fem_use_adaptive_mesh default_fem_config"
    by (simp add: default_fem_config_def)
  ultimately show ?thesis
    using m(1) m0(2) m1 by (simp add: fem_analyze_def assms(1) Let_def)
qed

text \<open>C2: With the default configuration the analysis of a crack of one point, anywhere within a metre of the
  origin, reads past the end of its nodes: the normalised crack density is near one everywhere, so
  the whole grid of 125000 nodes is marked and split until 562493 are left (the limit is half a
  million), which do not fill the 83 by 83 by 83 grid the next relaxation walks over.\<close>

theorem default_analysis_overruns:
  assumes "fs_config s = default_fem_config" and "near_crack c"
  shows "fem_analyze junk rand now s pid [c] = Inl (UB ''vector index'')"
  using assms by (rule single_point_overruns)

theorem default_analysis_overruns_witness:
  "\<forall>junk rand now. fem_analyze junk rand now new_fem_solver 1 [fem_demo_crack] = Inl (UB ''vector index'')"
proof (intro allI default_analysis_overruns)
  have "D (1 / 10 ^ 6) \<le> D 1" "D 1 \<le> D (10 ^ 6)"
    by (rule D_mono; simp)+
  then show "near_crack fem_demo_crack"
    by (simp add: near_crack_def fem_demo_crack_def)
qed (simp add: new_fem_solver_def)

end
