(* ===== verification/Bayesian.thy ===== *)
theory Bayesian
  imports Enclosures
begin

section \<open>Bayesian optimisation (include/bayesian_optimization.h)\<close>

text \<open>
  The dense matrices, the Gaussian process and the optimiser of the calibration, in rounded
  arithmetic. Indices outside a matrix are excluded by the shapes, which the first property
  tracks; the one place where shapes can disagree, a proposed point without coordinates, is an
  error value. The random engine is a parameter: the results of \<open>std::uniform_real_distribution\<close>
  on the unit interval, of \<open>std::normal_distribution\<close> and of \<open>std::shuffle\<close>, with its state.
\<close>

subsection \<open>Matrices\<close>

record mat =
  mx_rows :: nat
  mx_cols :: nat
  mx_data :: "double list list"

definition mat_of :: "nat \<Rightarrow> nat \<Rightarrow> (nat \<Rightarrow> nat \<Rightarrow> double) \<Rightarrow> mat" where
  "mat_of r c f = \<lparr>mx_rows = r, mx_cols = c, mx_data = map (\<lambda>i. map (f i) [0..<c]) [0..<r]\<rparr>"

definition new_mat :: "nat \<Rightarrow> nat \<Rightarrow> double \<Rightarrow> mat" where
  "new_mat r c v = mat_of r c (\<lambda>_ _. v)"

definition mat_zero :: "nat \<Rightarrow> nat \<Rightarrow> mat" where
  "mat_zero r c = new_mat r c 0"

definition mat_identity :: "nat \<Rightarrow> mat" where
  "mat_identity n = mat_of n n (\<lambda>i j. if i = j then D 1 else 0)"

definition mat_at :: "mat \<Rightarrow> nat \<Rightarrow> nat \<Rightarrow> double" where
  "mat_at A i j = mx_data A ! i ! j"

definition mat_set :: "mat \<Rightarrow> nat \<Rightarrow> nat \<Rightarrow> double \<Rightarrow> mat" where
  "mat_set A i j v = A\<lparr>mx_data := (mx_data A)[i := (mx_data A ! i)[j := v]]\<rparr>"

definition mat_add :: "mat \<Rightarrow> mat \<Rightarrow> mat" where
  "mat_add A B = mat_of (mx_rows A) (mx_cols A) (\<lambda>i j. mat_at A i j + mat_at B i j)"

definition mat_sub :: "mat \<Rightarrow> mat \<Rightarrow> mat" where
  "mat_sub A B = mat_of (mx_rows A) (mx_cols A) (\<lambda>i j. mat_at A i j - mat_at B i j)"

definition mat_scale :: "mat \<Rightarrow> double \<Rightarrow> mat" where
  "mat_scale A s = mat_of (mx_rows A) (mx_cols A) (\<lambda>i j. mat_at A i j * s)"

definition mat_mul :: "mat \<Rightarrow> mat \<Rightarrow> mat" where
  "mat_mul A B = mat_of (mx_rows A) (mx_cols B)
     (\<lambda>i j. foldl (\<lambda>s k. s + mat_at A i k * mat_at B k j) 0 [0..<mx_cols A])"

definition mat_transpose :: "mat \<Rightarrow> mat" where
  "mat_transpose A = mat_of (mx_cols A) (mx_rows A) (\<lambda>i j. mat_at A j i)"

definition mat_vec :: "mat \<Rightarrow> double list \<Rightarrow> double list" where
  "mat_vec A v = map (\<lambda>i. foldl (\<lambda>s j. s + mat_at A i j * (v ! j)) 0 [0..<mx_cols A]) [0..<mx_rows A]"

text \<open>\<open>inverse\<close>: Gauss-Jordan elimination on the rows of the matrix beside the identity.\<close>

definition pivot_row :: "nat \<Rightarrow> nat \<Rightarrow> double list list \<Rightarrow> nat" where
  "pivot_row n col aug =
     snd (foldl (\<lambda>(max_val, p) row. if max_val < \<bar>aug ! row ! col\<bar> then (\<bar>aug ! row ! col\<bar>, row) else (max_val, p))
       (\<bar>aug ! col ! col\<bar>, col) [col + 1..<n])"

definition swap_rows :: "nat \<Rightarrow> nat \<Rightarrow> double list list \<Rightarrow> double list list" where
  "swap_rows i j aug = aug[i := aug ! j, j := aug ! i]"

definition eliminate_column :: "nat \<Rightarrow> nat \<Rightarrow> double list list \<Rightarrow> double list list option" where
  "eliminate_column n col aug =
     (let aug = swap_rows col (pivot_row n col aug) aug; pivot = aug ! col ! col in
      if \<bar>pivot\<bar> < D (1 / 10 ^ 12) then None
      else
        let pivot_line = map (\<lambda>j. if col \<le> j then aug ! col ! j / pivot else aug ! col ! j) [0..<2 * n] in
        Some (map (\<lambda>row. let line = aug ! row; factor = line ! col in
          if row = col then pivot_line
          else if D (1 / 10 ^ 12) < \<bar>factor\<bar>
          then map (\<lambda>j. if col \<le> j then line ! j - factor * (pivot_line ! j) else line ! j) [0..<2 * n]
          else line) [0..<n]))"

fun eliminate_columns :: "nat \<Rightarrow> nat list \<Rightarrow> double list list \<Rightarrow> double list list option" where
  "eliminate_columns n [] aug = Some aug"
| "eliminate_columns n (col # cols) aug =
     (case eliminate_column n col aug of None \<Rightarrow> None | Some aug \<Rightarrow> eliminate_columns n cols aug)"

definition mat_inverse :: "mat \<Rightarrow> mat" where
  "mat_inverse A =
     (let n = mx_rows A;
          aug = map (\<lambda>i. map (\<lambda>j. if j < n then mat_at A i j else if j = i + n then D 1 else 0) [0..<2 * n]) [0..<n]
      in case eliminate_columns n [0..<n] aug of
           None \<Rightarrow> mat_zero n n
         | Some aug \<Rightarrow> mat_of n n (\<lambda>i j. aug ! i ! (j + n)))"

text \<open>The entries of the factor are computed row by row; after a failure the factor is left as it is.\<close>

fun cholesky_loop :: "mat \<Rightarrow> (nat \<times> nat) list \<Rightarrow> mat \<Rightarrow> bool \<times> mat" where
  "cholesky_loop A [] L = (True, L)"
| "cholesky_loop A ((i, j) # rest) L =
     (let sum = foldl (\<lambda>s k. s - mat_at L i k * mat_at L j k) (mat_at A i j) [0..<j] in
      if i = j then (if sum \<le> 0 then (False, L) else cholesky_loop A rest (mat_set L i j (dsqrt sum)))
      else cholesky_loop A rest (mat_set L i j (sum / mat_at L j j)))"

definition lower_indices :: "nat \<Rightarrow> (nat \<times> nat) list" where
  "lower_indices n = concat (map (\<lambda>i. map (Pair i) [0..<Suc i]) [0..<n])"

definition cholesky :: "mat \<Rightarrow> bool \<times> mat" where
  "cholesky A = cholesky_loop A (lower_indices (mx_rows A)) (new_mat (mx_rows A) (mx_rows A) 0)"

definition forward :: "mat \<Rightarrow> double list \<Rightarrow> double list" where
  "forward L b = foldl (\<lambda>y i. y @ [foldl (\<lambda>s j. s - mat_at L i j * (y ! j)) (b ! i) [0..<i] / mat_at L i i]) [] [0..<mx_rows L]"

definition backward :: "mat \<Rightarrow> double list \<Rightarrow> double list" where
  "backward L b = foldr (\<lambda>i x.
     (foldl (\<lambda>s j. s - mat_at L j i * (x ! (j - Suc i))) (b ! i) [Suc i..<mx_rows L] / mat_at L i i) # x) [0..<mx_rows L] []"

definition mat_solve :: "mat \<Rightarrow> double list \<Rightarrow> double list" where
  "mat_solve A b =
     (case cholesky A of (ok, L) \<Rightarrow> if ok then backward L (forward L b) else mat_vec (mat_inverse A) b)"

subsection \<open>Gaussian process\<close>

record gp_hyperparameters =
  gp_sigma_f :: double
  gp_length_scale :: double
  gp_sigma_n :: double

definition default_hyperparameters :: gp_hyperparameters where
  "default_hyperparameters = \<lparr>gp_sigma_f = D 1, gp_length_scale = D 1, gp_sigma_n = D (1/100)\<rparr>"

record gaussian_process =
  gp_params :: gp_hyperparameters
  gp_train :: mat
  gp_factor :: mat
  gp_alpha :: "double list"

definition new_gp :: gaussian_process where
  "new_gp = \<lparr>gp_params = default_hyperparameters, gp_train = new_mat 0 0 0, gp_factor = new_mat 0 0 0, gp_alpha = []\<rparr>"

definition kernel :: "gp_hyperparameters \<Rightarrow> double list \<Rightarrow> double list \<Rightarrow> double" where
  "kernel h x1 x2 =
     (let dist_sq = foldl (\<lambda>s i. let diff = x1 ! i - x2 ! i in s + diff * diff) 0 [0..<length x1]
      in gp_sigma_f h * gp_sigma_f h * dexp (- dist_sq / (D 2 * gp_length_scale h * gp_length_scale h)))"

definition mat_row :: "mat \<Rightarrow> nat \<Rightarrow> double list" where
  "mat_row X i = map (mat_at X i) [0..<mx_cols X]"

definition train :: "mat \<Rightarrow> double list \<Rightarrow> gaussian_process \<Rightarrow> gaussian_process" where
  "train X y gp =
     (let h = gp_params gp; n = mx_rows X;
          K = mat_of n n (\<lambda>i j. let k = kernel h (mat_row X i) (mat_row X j)
            in if i = j then k + gp_sigma_n h * gp_sigma_n h else k);
          L = snd (cholesky K)
      in gp\<lparr>gp_train := X, gp_factor := L, gp_alpha := backward L (forward L y)\<rparr>)"

definition gp_predict :: "gaussian_process \<Rightarrow> double list \<Rightarrow> double \<times> double" where
  "gp_predict gp x_star =
     (let h = gp_params gp; n = mx_rows (gp_train gp);
          k_star = map (\<lambda>i. kernel h (mat_row (gp_train gp) i) x_star) [0..<n];
          mu = foldl (\<lambda>s i. s + (k_star ! i) * (gp_alpha gp ! i)) 0 [0..<n];
          v_dot_v = foldl (\<lambda>s v. s + v * v) 0 (forward (gp_factor gp) k_star);
          k_star_star = kernel h x_star x_star + gp_sigma_n h * gp_sigma_n h
      in (mu, std_max (k_star_star - v_dot_v) (D (1 / 10 ^ 12))))"

subsection \<open>The optimiser\<close>

record parameter_bounds =
  pb_name :: string
  pb_lower :: double
  pb_upper :: double
  pb_default :: double

record optimizer_config =
  oc_max_iter :: int
  oc_n_init :: int
  oc_grid_search_points :: int
  oc_xi :: double
  oc_random_seed :: int

record optimization_result =
  or_best_params :: "double list"
  or_best_objective :: double
  or_sample_points :: "double list list"
  or_sample_values :: "double list"
  or_iterations :: int

text \<open>The engine \<open>std::mt19937\<close> with the distributions that draw from it.\<close>

record 'r rng =
  rg_seed :: "int \<Rightarrow> 'r"
  rg_unit :: "'r \<Rightarrow> double \<times> 'r"
  rg_normal :: "double \<Rightarrow> double \<Rightarrow> 'r \<Rightarrow> double \<times> 'r"
  rg_shuffle :: "double list \<Rightarrow> 'r \<Rightarrow> double list \<times> 'r"

definition derf :: "double \<Rightarrow> double" where
  "derf = lift_fun (\<lambda>r. D (2 / sqrt pi * (\<Sum>n. (- 1) ^ n * r ^ (2 * n + 1) / (fact n * (2 * real n + 1))))) (D 1) (D (- 1))"

definition normalCDF :: "double \<Rightarrow> double" where
  "normalCDF x = D (1/2) * (D 1 + derf (x / dsqrt (D 2)))"

definition normalPDF :: "double \<Rightarrow> double" where
  "normalPDF x = dexp (D (- 1/2) * x * x) / dsqrt (D 2 * M_PI)"

definition expected_improvement :: "double \<Rightarrow> gaussian_process \<Rightarrow> double \<Rightarrow> double list \<Rightarrow> double" where
  "expected_improvement xi gp f_best x =
     (case gp_predict gp x of (mu, sigma_sq) \<Rightarrow>
       let sigma = dsqrt sigma_sq in
       if sigma < D (1 / 10 ^ 9) then 0
       else let Z = (mu - f_best - xi) / sigma in (mu - f_best - xi) * normalCDF Z + sigma * normalPDF Z)"

fun draws :: "('r \<Rightarrow> 'a \<times> 'r) \<Rightarrow> nat \<Rightarrow> 'r \<Rightarrow> 'a list \<times> 'r" where
  "draws f 0 r = ([], r)"
| "draws f (Suc n) r = (case f r of (x, r) \<Rightarrow> case draws f n r of (xs, r) \<Rightarrow> (x # xs, r))"

definition lhs_column :: "'r rng \<Rightarrow> nat \<Rightarrow> 'r \<Rightarrow> double list \<times> 'r" where
  "lhs_column g n r =
     (case rg_shuffle g (map (\<lambda>i. of_i (int i)) [0..<n]) r of (perm, r) \<Rightarrow>
      case draws (rg_unit g) n r of (us, r) \<Rightarrow>
        (map (\<lambda>i. (perm ! i + us ! i) / of_i (int n)) [0..<n], r))"

definition latin_hypercube :: "'r rng \<Rightarrow> nat \<Rightarrow> nat \<Rightarrow> 'r \<Rightarrow> double list list \<times> 'r" where
  "latin_hypercube g n d r =
     (case draws (lhs_column g n) d r of (columns, r) \<Rightarrow> (map (\<lambda>i. map (\<lambda>c. c ! i) columns) [0..<n], r))"

definition width :: "parameter_bounds \<Rightarrow> double" where
  "width b = pb_upper b - pb_lower b"

definition clamp_to :: "parameter_bounds \<Rightarrow> double \<Rightarrow> double" where
  "clamp_to b v = std_max (pb_lower b) (std_min (pb_upper b) v)"

text \<open>A point of the unit cube moved into the box.\<close>

definition into_box :: "parameter_bounds list \<Rightarrow> double list \<Rightarrow> double list" where
  "into_box bounds us = map2 (\<lambda>b u. pb_lower b + u * width b) bounds us"

definition better :: "(double list \<Rightarrow> double) \<Rightarrow> double list \<Rightarrow> double list \<times> double \<Rightarrow> double list \<times> double" where
  "better ei x = (\<lambda>(best_x, best_ei). if best_ei < ei x then (x, ei x) else (best_x, best_ei))"

fun search_box :: "'r rng \<Rightarrow> parameter_bounds list \<Rightarrow> (double list \<Rightarrow> double) \<Rightarrow> nat \<Rightarrow>
    double list \<times> double \<Rightarrow> 'r \<Rightarrow> (double list \<times> double) \<times> 'r" where
  "search_box g bounds ei 0 best r = (best, r)"
| "search_box g bounds ei (Suc n) best r =
     (case draws (rg_unit g) (length bounds) r of (us, r) \<Rightarrow>
       search_box g bounds ei n (better ei (into_box bounds us) best) r)"

fun perturb :: "'r rng \<Rightarrow> parameter_bounds list \<Rightarrow> double list \<Rightarrow> 'r \<Rightarrow> double list \<times> 'r" where
  "perturb g (b # bounds) (x # xs) r =
     (case rg_normal g 0 (width b * D (5/100)) r of (z, r) \<Rightarrow>
      case perturb g bounds xs r of (ys, r) \<Rightarrow> (clamp_to b (x + z) # ys, r))"
| "perturb g _ xs r = (xs, r)"

fun search_near :: "'r rng \<Rightarrow> parameter_bounds list \<Rightarrow> (double list \<Rightarrow> double) \<Rightarrow> double list list \<Rightarrow>
    double list \<times> double \<Rightarrow> 'r \<Rightarrow> (double list \<times> double) \<times> 'r" where
  "search_near g bounds ei [] best r = (best, r)"
| "search_near g bounds ei (x # xs) best r =
     (case perturb g bounds x r of (x_near, r) \<Rightarrow> search_near g bounds ei xs (better ei x_near best) r)"

definition numerical_gradient :: "parameter_bounds list \<Rightarrow> (double list \<Rightarrow> double) \<Rightarrow> double list \<Rightarrow> double list \<Rightarrow> double list" where
  "numerical_gradient bounds ei x grad =
     (let h = D (1 / 10 ^ 6) in
      map (\<lambda>j. if j < length x then
          (ei (x[j := clamp_to (bounds ! j) (x ! j + h)]) - ei (x[j := clamp_to (bounds ! j) (x ! j - h)])) / (D 2 * h)
        else grad ! j) [0..<length grad])"

fun local_search :: "parameter_bounds list \<Rightarrow> (double list \<Rightarrow> double) \<Rightarrow> nat \<Rightarrow> double \<Rightarrow> double list \<Rightarrow>
    double list \<times> double \<Rightarrow> double list \<times> double" where
  "local_search bounds ei 0 step_size grad best = best"
| "local_search bounds ei (Suc n) step_size grad (x, best_ei) =
     (let grad = numerical_gradient bounds ei x grad;
          grad_norm = dsqrt (foldl (\<lambda>s v. s + v * v) 0 grad)
      in if grad_norm < D (1 / 10 ^ 6) then (x, best_ei)
      else
        let x_new = map (\<lambda>j. clamp_to (bounds ! j) (x ! j + step_size * (grad ! j) / std_max grad_norm (D (1 / 10 ^ 12)))) [0..<length bounds];
            ei_new = ei x_new
        in if best_ei + D (1 / 10 ^ 12) < ei_new then
             local_search bounds ei n (step_size * D (3/2)) grad (x_new, ei_new)
           else let step_size = step_size * D (1/2) in
             if step_size < D (1 / 10 ^ 8) then (x, best_ei)
             else local_search bounds ei n step_size grad (x, best_ei))"

definition maximize_acquisition :: "'r rng \<Rightarrow> parameter_bounds list \<Rightarrow> optimizer_config \<Rightarrow> gaussian_process \<Rightarrow>
    double list list \<Rightarrow> double \<Rightarrow> 'r \<Rightarrow> double list \<times> 'r" where
  "maximize_acquisition g bounds cfg gp X_samples f_best r =
     (let ei = expected_improvement (oc_xi cfg) gp f_best in
      case search_box g bounds ei (nat (oc_grid_search_points cfg)) ([], D (- (10 ^ 18))) r of (best, r) \<Rightarrow>
      case search_near g bounds ei X_samples best r of (best, r) \<Rightarrow>
        (fst (local_search bounds ei 50 (D (1/100)) (replicate (length bounds) 0) best), r))"

text \<open>The samples, their values, the best value and the best point so far.\<close>

type_synonym samples = "double list list \<times> double list \<times> double \<times> double list"

fun optimize_loop :: "'r rng \<Rightarrow> parameter_bounds list \<Rightarrow> (double list \<Rightarrow> double) \<Rightarrow> optimizer_config \<Rightarrow> nat \<Rightarrow>
    gaussian_process \<Rightarrow> samples \<Rightarrow> 'r \<Rightarrow> samples result" where
  "optimize_loop g bounds objective cfg 0 gp s r = Inr s"
| "optimize_loop g bounds objective cfg (Suc n) gp (X, y, f_best, best_x) r =
     (if \<not> list_all (\<lambda>x. length bounds \<le> length x) X then Inl (UB ''vector index'')
      else
        let gp = train \<lparr>mx_rows = length X, mx_cols = length bounds, mx_data = map (take (length bounds)) X\<rparr> y gp in
        case maximize_acquisition g bounds cfg gp X f_best r of (next_x, r) \<Rightarrow>
          let true_y = objective next_x in
          optimize_loop g bounds objective cfg n gp
            (X @ [next_x], y @ [true_y],
             if true_y < f_best then true_y else f_best, if true_y < f_best then next_x else best_x) r)"

definition first_best :: "double list list \<Rightarrow> double list \<Rightarrow> double \<times> double list" where
  "first_best X y =
     (case foldl (\<lambda>(f_best, k) i. if y ! i < f_best then (y ! i, i) else (f_best, k)) (y ! 0, 0) [1..<length y]
      of (f_best, k) \<Rightarrow> (f_best, X ! k))"

definition optimize :: "'r rng \<Rightarrow> parameter_bounds list \<Rightarrow> (double list \<Rightarrow> double) \<Rightarrow> optimizer_config \<Rightarrow>
    optimization_result result" where
  "optimize g bounds objective cfg =
     (if oc_n_init cfg < 0 then Inl (Length_error ''vector::_M_default_append'')
      else case latin_hypercube g (nat (oc_n_init cfg)) (length bounds) (rg_seed g (oc_random_seed cfg)) of (us, r) \<Rightarrow>
        let X = map (into_box bounds) us; y = map objective X in
        if y = [] then Inl (UB ''vector index'')
        else case first_best X y of (f_best, best_x) \<Rightarrow>
          and_then (optimize_loop g bounds objective cfg (nat (oc_max_iter cfg)) new_gp (X, y, f_best, best_x) r)
            (\<lambda>(X, y, f_best, best_x).
              if 2 ^ 31 \<le> oc_max_iter cfg + oc_n_init cfg then Inl (UB ''signed overflow'')
              else Inr \<lparr>or_best_params = best_x, or_best_objective = f_best, or_sample_points = X,
                or_sample_values = y, or_iterations = oc_max_iter cfg + oc_n_init cfg\<rparr>))"

subsection \<open>Shapes\<close>

definition shaped :: "nat \<Rightarrow> nat \<Rightarrow> mat \<Rightarrow> bool" where
  "shaped r c A \<longleftrightarrow> mx_rows A = r \<and> mx_cols A = c \<and> length (mx_data A) = r \<and> (\<forall>row \<in> set (mx_data A). length row = c)"

lemma shaped_of [simp]: "shaped r c (mat_of r c f)"
  by (auto simp: shaped_def mat_of_def)

lemma entry_of [simp]: "i < r \<Longrightarrow> j < c \<Longrightarrow> mat_at (mat_of r c f) i j = f i j"
  by (simp add: mat_at_def mat_of_def)

lemma dims_of [simp]: "mx_rows (mat_of r c f) = r" "mx_cols (mat_of r c f) = c"
  by (simp_all add: mat_of_def)

lemma shaped_dims: "shaped r c A \<Longrightarrow> mx_rows A = r \<and> mx_cols A = c"
  by (simp add: shaped_def)

lemma shaped_eqI:
  assumes "shaped r c A" and "shaped r c B" and "\<And>i j. i < r \<Longrightarrow> j < c \<Longrightarrow> mat_at A i j = mat_at B i j"
  shows "A = B"
proof -
  have "mx_data A = mx_data B"
  proof (rule nth_equalityI)
    show "length (mx_data A) = length (mx_data B)"
      using assms(1,2) by (simp add: shaped_def)
    fix i
    assume i: "i < length (mx_data A)"
    show "mx_data A ! i = mx_data B ! i"
      using assms i by (intro nth_equalityI) (simp_all add: shaped_def mat_at_def)
  qed
  then show ?thesis
    using assms(1,2) by (simp add: shaped_def)
qed

lemma shaped_set:
  assumes "shaped r c A" and "i < r" and "j < c"
  shows "shaped r c (mat_set A i j v)"
    and "i' < r \<Longrightarrow> j' < c \<Longrightarrow> mat_at (mat_set A i j v) i' j' = (if i' = i \<and> j' = j then v else mat_at A i' j')"
proof -
  have "length (mx_data A ! i) = c"
    using assms by (simp add: shaped_def)
  then show "shaped r c (mat_set A i j v)"
    using assms(1) set_update_subset_insert [of "mx_data A" i "(mx_data A ! i)[j := v]"]
    by (auto simp: shaped_def mat_set_def)
  show "mat_at (mat_set A i j v) i' j' = (if i' = i \<and> j' = j then v else mat_at A i' j')" if "i' < r" "j' < c"
    using assms that by (auto simp: shaped_def mat_at_def mat_set_def nth_list_update)
qed

lemma set_lower_indices: "(i, j) \<in> set (lower_indices n) \<longleftrightarrow> j \<le> i \<and> i < n"
  by (auto simp: lower_indices_def image_iff less_Suc_eq_le simp del: upt_Suc)

definition root_like :: "double \<Rightarrow> bool" where
  "root_like x \<longleftrightarrow> 0 < x \<or> x = NAN"

lemma dsqrt_root_like: "\<not> x \<le> 0 \<Longrightarrow> root_like (dsqrt x)"
proof (cases x)
  case (fin r)
  assume "\<not> x \<le> 0"
  then have r: "0 < r"
    using fin by simp
  obtain m e :: int where me: "r = of_int m * 2 powi e" "0 < m" "- 1074 \<le> e"
    using representableE [of r] fin(2) r by (metis exact_def)
  have "(2 :: real) powi (- 1074) \<le> 1 * 2 powi e"
    using me(3) by (simp only: powi_le_iff mult_1)
  also have "\<dots> \<le> of_int m * 2 powi e"
    using me(2) by (intro mult_right_mono) (simp_all add: less_imp_le)
  finally have "2 powi (- 1074) \<le> r"
    using me(1) by simp
  define t :: real where "t = 2 powi (- 537)"
  have "t ^ 2 = 2 powi (- 1074)"
    by (simp add: t_def power2_eq_square flip: power_int_add)
  with \<open>2 powi (- 1074) \<le> r\<close> have "t \<le> sqrt r"
    by (intro real_le_rsqrt) (simp only:)
  moreover have e: "exact t"
    using exact_dyadic [of 1 537] by (simp add: t_def power_int_minus inverse_eq_divide)
  ultimately have "D t \<le> dsqrt x"
    using fin r by (simp add: dsqrt_def D_mono)
  moreover have "0 < D t"
    using e by (simp add: t_def)
  ultimately show ?thesis
    unfolding root_like_def using dless_le_trans by blast
qed (auto simp: dsqrt_def root_like_def)

lemma cholesky_loop_inv:
  assumes "\<And>i j. (i, j) \<in> set ps \<Longrightarrow> j \<le> i \<and> i < n" and "shaped n n L"
    and "\<And>i j. i < j \<Longrightarrow> j < n \<Longrightarrow> mat_at L i j = 0"
    and "\<And>i. i < n \<Longrightarrow> (i, i) \<notin> set ps \<Longrightarrow> root_like (mat_at L i i)"
    and "cholesky_loop A ps L = (ok, L')"
  shows "shaped n n L' \<and> (\<forall>i j. i < j \<longrightarrow> j < n \<longrightarrow> mat_at L' i j = 0)
    \<and> (ok \<longrightarrow> (\<forall>i<n. root_like (mat_at L' i i)))"
  using assms
proof (induction ps arbitrary: L)
  case (Cons p ps)
  obtain i j where p: "p = (i, j)"
    by (cases p)
  have ij: "j \<le> i" "i < n" "j < n"
    using Cons.prems(1) [of i j] by (auto simp: p)
  define sum where "sum = foldl (\<lambda>s k. s - mat_at L i k * mat_at L j k) (mat_at A i j) [0..<j]"
  define v where "v = (if i = j then dsqrt sum else sum / mat_at L j j)"
  show ?case
  proof (cases "i = j \<and> sum \<le> 0")
    case True
    then show ?thesis
      using Cons.prems by (auto simp: p sum_def)
  next
    case False
    then have step: "cholesky_loop A ps (mat_set L i j v) = (ok, L')"
      using Cons.prems(5) by (auto simp: p sum_def [symmetric] v_def Let_def split: if_splits)
    note entries = shaped_set(2) [OF Cons.prems(2) ij(2,3)]
    show ?thesis
    proof (rule Cons.IH [OF _ shaped_set(1) [OF Cons.prems(2) ij(2,3)] _ _ step])
      show "root_like (mat_at (mat_set L i j v) a a)" if "a < n" "(a, a) \<notin> set ps" for a
        using that False Cons.prems(4) [of a] dsqrt_root_like [of sum] entries by (auto simp: p v_def)
      show "mat_at (mat_set L i j v) a b = 0" if "a < b" "b < n" for a b
        using that ij(1) Cons.prems(3) [of a b] entries by auto
    qed (use Cons.prems(1) in auto)
  qed
qed auto

lemma cholesky_inv:
  assumes "cholesky A = (ok, L)"
  shows "shaped (mx_rows A) (mx_rows A) L"
    and "i < j \<Longrightarrow> j < mx_rows A \<Longrightarrow> mat_at L i j = 0"
    and "ok \<Longrightarrow> i < mx_rows A \<Longrightarrow> root_like (mat_at L i i)"
proof -
  have "shaped (mx_rows A) (mx_rows A) L \<and> (\<forall>i j. i < j \<longrightarrow> j < mx_rows A \<longrightarrow> mat_at L i j = 0)
      \<and> (ok \<longrightarrow> (\<forall>i<mx_rows A. root_like (mat_at L i i)))"
    by (rule cholesky_loop_inv [OF _ _ _ _ assms [unfolded cholesky_def]])
      (auto simp: set_lower_indices new_mat_def)
  then show "shaped (mx_rows A) (mx_rows A) L"
    and "i < j \<Longrightarrow> j < mx_rows A \<Longrightarrow> mat_at L i j = 0"
    and "ok \<Longrightarrow> i < mx_rows A \<Longrightarrow> root_like (mat_at L i i)"
    by blast+
qed

lemma length_forward: "length (forward L b) = mx_rows L"
proof -
  have "length (foldl (\<lambda>y i. y @ [f y i]) ys is) = length ys + length is" for f :: "double list \<Rightarrow> nat \<Rightarrow> double" and ys "is"
    by (induction "is" arbitrary: ys) simp_all
  then show ?thesis
    by (simp add: forward_def)
qed

lemma length_backward: "length (backward L b) = mx_rows L"
proof -
  have "length (foldr (\<lambda>i x. f i x # x) is []) = length is" for f :: "nat \<Rightarrow> double list \<Rightarrow> double" and "is"
    by (induction "is") simp_all
  then show ?thesis
    by (simp add: backward_def)
qed

lemma shaped_inverse: "shaped (mx_rows A) (mx_rows A) (mat_inverse A)"
  by (simp add: mat_inverse_def mat_zero_def new_mat_def Let_def split: option.split)



subsection \<open>Where the proposals lie\<close>

definition box_ok :: "parameter_bounds list \<Rightarrow> bool" where
  "box_ok bounds \<longleftrightarrow> (\<forall>b \<in> set bounds. encl (pb_lower b) (- 64) 64 \<and> encl (pb_upper b) (- 64) 64)"

definition finite_point :: "parameter_bounds list \<Rightarrow> double list \<Rightarrow> bool" where
  "finite_point bounds x \<longleftrightarrow> length x = length bounds \<and> list_all isfinite x"

text \<open>What the standard promises of the engine: numbers of the unit interval, and permutations.\<close>

definition rng_ok :: "'r rng \<Rightarrow> bool" where
  "rng_ok g \<longleftrightarrow> (\<forall>r. encl (fst (rg_unit g r)) 0 1) \<and> (\<forall>xs r. set (fst (rg_shuffle g xs r)) = set xs \<and> length (fst (rg_shuffle g xs r)) = length xs)"

lemma draws_ok:
  assumes "\<And>r. P (fst (f r))" and "draws f n r = (xs, r')"
  shows "length xs = n \<and> list_all P xs"
  using assms(2)
proof (induction n arbitrary: r xs r')
  case (Suc n)
  then show ?case
    using assms(1) [of r] by (fastforce split: prod.splits)
qed simp

lemma into_box_coordinate:
  assumes "encl (pb_lower b) (- 64) 64" and "encl (pb_upper b) (- 64) 64" and "encl u 0 1"
  shows "isfinite (pb_lower b + u * width b)"
proof -
  have "encl (width b) (- 128) 128"
    unfolding width_def by (rule encl_minus [OF assms(2,1)]) simp_all
  then have "encl (u * width b) (- 128) 128"
    by (rule encl_times [OF assms(3)]) simp_all
  then have "encl (pb_lower b + u * width b) (- 192) 192"
    by (rule encl_plus [OF assms(1)]) simp_all
  then show ?thesis
    by (rule encl_finite)
qed

lemma into_box_finite:
  assumes "box_ok bounds" and "length us = length bounds" and "list_all (\<lambda>u. encl u 0 1) us"
  shows "finite_point bounds (into_box bounds us)"
  using assms
  by (induction us bounds rule: list_induct2') (auto simp: finite_point_def into_box_def box_ok_def into_box_coordinate)

lemma clamp_finite:
  assumes "encl (pb_lower b) (- 64) 64" and "encl (pb_upper b) (- 64) 64"
  shows "isfinite (clamp_to b v)"
proof -
  obtain l u where "pb_lower b = D l" "exact l" "pb_upper b = D u" "exact u"
    using assms by (auto elim!: enclE)
  then show ?thesis
    by (cases v) (auto simp: clamp_to_def std_max_def std_min_def)
qed

lemma lhs_ok:
  assumes "rng_ok g" and "n < 2 ^ 53" and "latin_hypercube g n d r = (us, r')"
  shows "length us = n \<and> (\<forall>u \<in> set us. length u = d \<and> list_all (\<lambda>u. encl u 0 1) u)"
proof -
  have column: "length (fst (lhs_column g n r)) = n \<and> list_all (\<lambda>u. encl u 0 1) (fst (lhs_column g n r))" for r
  proof -
    obtain perm r1 where perm: "rg_shuffle g (map (\<lambda>i. of_i (int i)) [0..<n]) r = (perm, r1)"
      by (cases "rg_shuffle g (map (\<lambda>i. of_i (int i)) [0..<n]) r")
    obtain vs r2 where vs: "draws (rg_unit g) n r1 = (vs, r2)"
      by (cases "draws (rg_unit g) n r1")
    have v: "length vs = n" "list_all (\<lambda>u. encl u 0 1) vs"
      using draws_ok [OF _ vs, where P = "\<lambda>u. encl u 0 1"] assms(1) by (auto simp: rng_ok_def)
    have p: "length perm = n" "set perm = (\<lambda>i. of_i (int i)) ` {0..<n}"
      using assms(1) unfolding rng_ok_def by (metis perm fst_conv length_map length_upt minus_nat.diff_0, metis perm fst_conv set_map set_upt)
    have "encl ((perm ! i + vs ! i) / of_i (int n)) 0 1" if i: "i < n" for i
    proof -
      obtain k where k: "perm ! i = of_i (int k)" "k < n"
        using p i nth_mem [of i perm] by auto
      have pk: "encl (perm ! i) (real k) (real k)"
        unfolding k(1) of_i_def using k(2) assms(2) exact_of_nat [of k] by (simp add: encl_exact)
      have u: "encl (vs ! i) 0 1"
        using v i by (simp add: list_all_length)
      have "encl (perm ! i + vs ! i) 0 (real n)"
        by (rule encl_plus [OF pk u]) (use k(2) assms(2) exact_of_nat [of n] in simp_all)
      moreover have "encl (of_i (int n)) (real n) (real n)"
        unfolding of_i_def using assms(2) exact_of_nat [of n] by (simp add: encl_exact)
      ultimately show ?thesis
        by (rule encl_divide) (use i in simp_all)
    qed
    then show ?thesis
      by (simp add: lhs_column_def perm vs list_all_length)
  qed
  obtain columns where columns: "draws (lhs_column g n) d r = (columns, r')"
      and us: "us = map (\<lambda>i. map (\<lambda>c. c ! i) columns) [0..<n]"
    using assms(3) by (auto simp: latin_hypercube_def split: prod.splits)
  have "length columns = d \<and> list_all (\<lambda>c. length c = n \<and> list_all (\<lambda>u. encl u 0 1) c) columns"
    using draws_ok [where P = "\<lambda>c. length c = n \<and> list_all (\<lambda>u. encl u 0 1) c", OF column columns] .
  then show ?thesis
    by (auto simp: us list_all_iff)
qed

text \<open>A proposal is a point of the box, or has no coordinates at all when no candidate beat the start.\<close>

definition proposal :: "parameter_bounds list \<Rightarrow> double list \<Rightarrow> bool" where
  "proposal bounds x \<longleftrightarrow> x = [] \<or> finite_point bounds x"

lemma better_cases: "P x \<Longrightarrow> P (fst best) \<Longrightarrow> P (fst (better ei x best))"
  by (auto simp: better_def split: prod.split)

lemma search_box_ok:
  assumes "rng_ok g" and "box_ok bounds"
  shows "proposal bounds (fst best) \<Longrightarrow> proposal bounds (fst (fst (search_box g bounds ei n best r)))"
proof (induction n arbitrary: best r)
  case (Suc n)
  obtain us r' where us: "draws (rg_unit g) (length bounds) r = (us, r')"
    by (cases "draws (rg_unit g) (length bounds) r")
  have "length us = length bounds \<and> list_all (\<lambda>u. encl u 0 1) us"
    using draws_ok [OF _ us, where P = "\<lambda>u. encl u 0 1"] assms(1) by (simp add: rng_ok_def)
  then have "proposal bounds (into_box bounds us)"
    using into_box_finite assms(2) by (simp add: proposal_def)
  then have "proposal bounds (fst (better ei (into_box bounds us) best))"
    using better_cases [of "proposal bounds" "into_box bounds us" best ei] Suc.prems by simp
  then show ?case
    using Suc.IH [of "better ei (into_box bounds us) best" r'] by (simp add: us)
qed simp

lemma perturb_ok:
  "box_ok bounds \<Longrightarrow> finite_point bounds x \<Longrightarrow> finite_point bounds (fst (perturb g bounds x r))"
proof (induction g bounds x r rule: perturb.induct)
  case (1 g b bounds x xs r)
  then show ?case
    by (auto simp: finite_point_def box_ok_def clamp_finite split: prod.splits)
qed (auto simp: finite_point_def)

lemma search_near_ok:
  assumes "box_ok bounds"
  shows "proposal bounds (fst best) \<Longrightarrow> list_all (finite_point bounds) xs \<Longrightarrow>
    proposal bounds (fst (fst (search_near g bounds ei xs best r)))"
proof (induction xs arbitrary: best r)
  case (Cons x xs)
  obtain z r' where z: "perturb g bounds x r = (z, r')"
    by (cases "perturb g bounds x r")
  have "proposal bounds z"
    using perturb_ok [OF assms, of x g r] Cons.prems(2) by (simp add: z proposal_def)
  then have "proposal bounds (fst (better ei z best))"
    using better_cases [of "proposal bounds" z best ei] Cons.prems(1) by simp
  then show ?case
    using Cons.IH [of "better ei z best" r'] Cons.prems(2) by (simp add: z)
qed simp

lemma local_search_ok:
  assumes "box_ok bounds"
  shows "proposal bounds (fst best) \<Longrightarrow> proposal bounds (fst (local_search bounds ei n s grad best))"
proof (induction n arbitrary: s grad best)
  case (Suc n)
  obtain x e where best: "best = (x, e)"
    by (cases best)
  have "proposal bounds (map (\<lambda>j. clamp_to (bounds ! j) (f j)) [0..<length bounds])" for f
    using assms by (auto simp: proposal_def finite_point_def list_all_iff box_ok_def clamp_finite)
  then show ?case
    using Suc by (simp add: best Let_def)
qed simp

lemma acquisition_ok:
  assumes "rng_ok g" and "box_ok bounds" and "list_all (finite_point bounds) X"
    and "maximize_acquisition g bounds cfg gp X f_best r = (x, r')"
  shows "proposal bounds x"
proof -
  let ?ei = "expected_improvement (oc_xi cfg) gp f_best"
  obtain b1 r1 where b1: "search_box g bounds ?ei (nat (oc_grid_search_points cfg)) ([], D (- 1000000000000000000)) r = (b1, r1)"
    by (cases "search_box g bounds ?ei (nat (oc_grid_search_points cfg)) ([], D (- 1000000000000000000)) r")
  obtain b2 r2 where b2: "search_near g bounds ?ei X b1 r1 = (b2, r2)"
    by (cases "search_near g bounds ?ei X b1 r1")
  have "proposal bounds (fst ([] :: double list, D (- 1000000000000000000)))"
    by (simp add: proposal_def)
  then have "proposal bounds (fst (fst (b1, r1)))"
    unfolding b1 [symmetric] by (rule search_box_ok [OF assms(1,2)])
  then have "proposal bounds (fst b2)"
    using search_near_ok [OF assms(2) _ assms(3), of b1 g ?ei r1] by (simp add: b2)
  then show ?thesis
    using local_search_ok [OF assms(2), of b2] assms(4) by (auto simp: maximize_acquisition_def Let_def b1 b2)
qed

subsection \<open>Optimising a constant\<close>

lemma optimize_loop_constant:
  assumes "rng_ok g" and "box_ok bounds" and const: "\<And>x. finite_point bounds x \<Longrightarrow> objective x = c"
    and "bounds \<noteq> []"
  shows "list_all (proposal bounds) X \<Longrightarrow> X \<noteq> [] \<Longrightarrow> hd X = x0 \<Longrightarrow> \<not> c < f_best \<Longrightarrow>
    best_x = [] \<or> best_x = x0 \<and> f_best = c \<Longrightarrow>
    optimize_loop g bounds objective cfg n gp (X, y, f_best, best_x) r = Inr (X', y', f', x') \<Longrightarrow>
    X' \<noteq> [] \<and> hd X' = x0 \<and> (x' = [] \<or> x' = x0 \<and> f' = c)"
proof (induction n arbitrary: gp X y f_best best_x r)
  case (Suc n)
  let ?gp = "train \<lparr>mx_rows = length X, mx_cols = length bounds, mx_data = map (take (length bounds)) X\<rparr> y gp"
  have full: "list_all (\<lambda>x. length bounds \<le> length x) X"
    using Suc.prems(6) by (auto split: if_splits)
  then have fin: "list_all (finite_point bounds) X"
    using Suc.prems(1) assms(4) by (fastforce simp: list_all_iff proposal_def)
  obtain nx r' where nx: "maximize_acquisition g bounds cfg ?gp X f_best r = (nx, r')"
    by (cases "maximize_acquisition g bounds cfg ?gp X f_best r")
  have p: "proposal bounds nx"
    by (rule acquisition_ok [OF assms(1,2) fin nx])
  have step: "optimize_loop g bounds objective cfg n ?gp (X @ [nx], y @ [objective nx],
      if objective nx < f_best then objective nx else f_best, if objective nx < f_best then nx else best_x) r' =
      Inr (X', y', f', x')"
    using Suc.prems(6) full by (simp add: nx Let_def)
  show ?case
  proof (rule Suc.IH [OF _ _ _ _ _ step])
    show "\<not> c < (if objective nx < f_best then objective nx else f_best)"
      using Suc.prems(4) p const dless_le_trans by (cases "nx = []") (auto simp: proposal_def dest: dless_asym dless_le_trans [OF _ dless_imp_le])
    show "(if objective nx < f_best then nx else best_x) = [] \<or>
        (if objective nx < f_best then nx else best_x) = x0 \<and> (if objective nx < f_best then objective nx else f_best) = c"
      using Suc.prems(4,5) p const by (cases "nx = []") (auto simp: proposal_def)
  qed (use Suc.prems p in auto)
qed simp

lemma first_best_constant: "y \<noteq> [] \<Longrightarrow> (\<And>v. v \<in> set y \<Longrightarrow> v = c) \<Longrightarrow> first_best X y = (c, X ! 0)"
proof -
  assume y: "y \<noteq> []" "\<And>v. v \<in> set y \<Longrightarrow> v = c"
  have "foldl (\<lambda>(f_best, k) i. if y ! i < f_best then (y ! i, i) else (f_best, k)) (c, 0) is = (c, 0)"
    if "\<forall>i \<in> set is. i < length y" for "is"
    using that
  proof (induction "is")
    case (Cons i "is")
    then have "y ! i = c"
      by (intro y(2) nth_mem) simp
    then show ?case
      using Cons by simp
  qed simp
  moreover have "y ! 0 = c"
    using y by (intro y(2) nth_mem) simp
  ultimately show ?thesis
    by (simp add: first_best_def)
qed

lemma optimize_constant:
  assumes "rng_ok g" and "box_ok bounds" and "\<And>x. finite_point bounds x \<Longrightarrow> objective x = c" and "bounds \<noteq> []"
    and "optimize g bounds objective cfg = Inr res" and "oc_n_init cfg < 2 ^ 53"
  shows "or_sample_points res \<noteq> [] \<and>
    (or_best_params res = [] \<or> or_best_params res = hd (or_sample_points res) \<and> or_best_objective res = c \<and>
      finite_point bounds (or_best_params res))"
proof -
  obtain us r where us: "latin_hypercube g (nat (oc_n_init cfg)) (length bounds) (rg_seed g (oc_random_seed cfg)) = (us, r)"
    by (cases "latin_hypercube g (nat (oc_n_init cfg)) (length bounds) (rg_seed g (oc_random_seed cfg))")
  define X where "X = map (into_box bounds) us"
  have X: "list_all (finite_point bounds) X"
    using lhs_ok [OF assms(1) _ us] assms(2,6) by (auto simp: X_def list_all_iff intro!: into_box_finite)
  have ne: "X \<noteq> []" and n: "\<not> oc_n_init cfg < 0"
    using assms(5) by (auto simp: optimize_def us X_def split: if_splits)
  have fb: "first_best X (map objective X) = (c, X ! 0)"
    using X ne assms(3) by (intro first_best_constant) (auto simp: list_all_iff)
  obtain X' y' f' x' where loop: "optimize_loop g bounds objective cfg (nat (oc_max_iter cfg)) new_gp
        (X, map objective X, c, X ! 0) r = Inr (X', y', f', x')"
      and res: "or_best_params res = x'" "or_best_objective res = f'" "or_sample_points res = X'"
    using assms(5) n ne fb by (auto simp: optimize_def us X_def [symmetric] Let_def and_then_eq_Inr_iff split: if_splits)
  have "X' \<noteq> [] \<and> hd X' = X ! 0 \<and> (x' = [] \<or> x' = X ! 0 \<and> f' = c)"
    using X ne by (intro optimize_loop_constant [OF assms(1-3) _ _ _ _ _ _ loop] assms(4))
      (auto simp: proposal_def list_all_iff hd_conv_nth)
  moreover have "finite_point bounds (X ! 0)"
    using X ne by (simp add: list_all_length)
  ultimately show ?thesis
    unfolding res by auto
qed

end
