(* ===== verification/Bending_Test.thy ===== *)
theory Bending_Test
  imports Bayesian Data_Model Relative_Errors
begin

section \<open>Four-point bending test (algorithms/four_point_bending.cpp)\<close>

text \<open>
  The simulated test of a specimen and the calibration of its model. Strengths and loads are
  computed in rounded arithmetic. The number of load steps is taken to be below the largest
  \<open>int\<close>. The random engine of the calibration is the parameter of the optimiser.
\<close>

subsection \<open>Configuration and state\<close>

record bending_test_config =
  tc_support_span_mm :: double
  tc_loading_span_mm :: double
  tc_specimen_width_mm :: double
  tc_specimen_thickness_mm :: double
  tc_porcelain_youngs_modulus_gpa :: double
  tc_porcelain_poissons_ratio :: double
  tc_porcelain_strength_mpa :: double
  tc_repair_interface_strength_ratio :: double
  tc_mesh_elements :: int
  tc_load_steps :: int
  tc_max_displacement_mm :: double
  tc_enable_bayesian_calibration :: bool
  tc_calibration_max_iter :: int
  tc_calibration_initial_samples :: int
  tc_calibration_exploration_weight :: double
  tc_calibration_noise_std :: double

definition default_bending_config :: bending_test_config where
  "default_bending_config =
     \<lparr>tc_support_span_mm = D 40, tc_loading_span_mm = D 20, tc_specimen_width_mm = D 10,
      tc_specimen_thickness_mm = D 5, tc_porcelain_youngs_modulus_gpa = D 70,
      tc_porcelain_poissons_ratio = D (22/100), tc_porcelain_strength_mpa = D 120,
      tc_repair_interface_strength_ratio = D (93/100), tc_mesh_elements = 100, tc_load_steps = 50,
      tc_max_displacement_mm = D 2, tc_enable_bayesian_calibration = False, tc_calibration_max_iter = 50,
      tc_calibration_initial_samples = 10, tc_calibration_exploration_weight = D (1/100),
      tc_calibration_noise_std = D (5/100)\<rparr>"

record bending_element =
  be_x_center :: double
  be_length :: double
  be_y_min :: double
  be_y_max :: double
  be_stress :: "double list"
  be_strain :: "double list"
  be_damage :: double
  be_has_crack :: bool
  be_is_repaired :: bool
  be_repair_bonding_strength :: double

record bending_test =
  bd_config :: bending_test_config
  bd_failure_load_n :: double
  bd_crack_influence_coeffs :: "double list"
  bd_interface_strength_ratio :: double

definition new_bending_test :: bending_test where
  "new_bending_test =
     \<lparr>bd_config = default_bending_config, bd_failure_load_n = 0,
      bd_crack_influence_coeffs = [D (112/100), D (- 23/100), D (106/10), D (- 217/10), D (304/10)],
      bd_interface_strength_ratio = D (85/100)\<rparr>"

definition set_bending_config :: "bending_test_config \<Rightarrow> bending_test \<Rightarrow> bending_test" where
  "set_bending_config config t = t\<lparr>bd_config := config\<rparr>"

definition set_crack_influence_coeffs :: "double list \<Rightarrow> bending_test \<Rightarrow> bending_test" where
  "set_crack_influence_coeffs coeffs t = t\<lparr>bd_crack_influence_coeffs := coeffs\<rparr>"

text \<open>Quantities in metres, pascals and newtons, as the code converts them.\<close>

definition millimetres :: "double \<Rightarrow> double" where
  "millimetres x = x * D (1 / 10 ^ 3)"

definition megapascals :: "double \<Rightarrow> double" where
  "megapascals x = x * D (10 ^ 6)"

definition moment_of_inertia :: "bending_test_config \<Rightarrow> double" where
  "moment_of_inertia c =
     (let b = millimetres (tc_specimen_width_mm c); h = millimetres (tc_specimen_thickness_mm c)
      in b * h * h * h / D 12)"

definition crack_influence_factor :: "bending_test \<Rightarrow> double \<Rightarrow> double \<Rightarrow> double" where
  "crack_influence_factor t crack_depth specimen_thickness =
     (if crack_depth \<le> 0 \<or> specimen_thickness \<le> 0 then D 1
      else if length (bd_crack_influence_coeffs t) < 5 then D 1
      else
        let a = std_min (D (9/10)) (std_max 0 (crack_depth / specimen_thickness)); c = bd_crack_influence_coeffs t
        in c ! 0 + c ! 1 * a + c ! 2 * a * a + c ! 3 * a * a * a + c ! 4 * a * a * a * a)"

definition crack_influence_poly :: "double list \<Rightarrow> double \<Rightarrow> double \<Rightarrow> double" where
  "crack_influence_poly poly_coeffs crack_depth specimen_thickness =
     (if crack_depth \<le> 0 \<or> specimen_thickness \<le> 0 \<or> poly_coeffs = [] then D 1
      else
        let a = std_min (D (9/10)) (std_max 0 (crack_depth / specimen_thickness))
        in fst (foldl (\<lambda>(f, a_pow) c. (f + c * a_pow, a_pow * a)) (0, D 1) poly_coeffs))"

subsection \<open>The mesh\<close>

definition bending_moment :: "bending_test_config \<Rightarrow> nat \<Rightarrow> double \<Rightarrow> nat \<Rightarrow> double" where
  "bending_moment c n load_n i =
     (let L1 = tc_support_span_mm c; L2 = tc_loading_span_mm c; dx = L1 / of_i (int n - 1);
          load_left = (L1 - L2) / D 2; load_right = L1 - (L1 - L2) / D 2; reaction = load_n / D 2
      in if i = 0 \<or> i = n - 1 then 0
         else let x = of_i (int i) * dx in
           if x < load_left then reaction * x
           else if x \<le> load_right then reaction * load_left
           else reaction * (L1 - x))"

definition compute_bending_moment_distribution :: "bending_test_config \<Rightarrow> nat \<Rightarrow> double \<Rightarrow> double list" where
  "compute_bending_moment_distribution c n load_n = map (bending_moment c n load_n) [0..<n]"

definition interpolate_stress :: "double \<Rightarrow> double \<Rightarrow> double \<Rightarrow> double \<Rightarrow> double \<Rightarrow> double" where
  "interpolate_stress y y_min y_max moment inertia =
     (if inertia < D (1 / 10 ^ 18) then 0
      else let y_mid = (y_min + y_max) / D 2; y_from_na = y - y_mid in moment * y_from_na / inertia)"

text \<open>The lookup of the bonding strength, every exception caught.\<close>

definition bonding_of :: "repair_material \<Rightarrow> double" where
  "bonding_of material =
     (if json_contains (rm_properties material) ''bonding_strength'' then
        (case and_then (json_at (rm_properties material) ''bonding_strength'') json_get_num of Inl e \<Rightarrow> 0 | Inr v \<Rightarrow> v)
      else 0)"

text \<open>The centre and the half length of the crack along the specimen.\<close>

definition crack_span :: "bending_test_config \<Rightarrow> crack_info \<Rightarrow> double \<times> double" where
  "crack_span c crack =
     (if ci_points crack = [] then (tc_support_span_mm c / D 2, 0)
      else
        let min_x = foldl (\<lambda>m p. std_min m (px p)) (D (10 ^ 18)) (ci_points crack);
            max_x = foldl (\<lambda>m p. std_max m (px p)) (D (- (10 ^ 18))) (ci_points crack);
            half = (max_x - min_x) / D 2
        in ((min_x + max_x) / D 2,
            if half < D (1 / 10 ^ 6) then std_max (ci_total_length crack / D 2) (D (1 / 10 ^ 3)) else half))"

definition mesh_element :: "bending_test_config \<Rightarrow> crack_info \<Rightarrow> repair_material \<Rightarrow> bool \<Rightarrow> nat \<Rightarrow> bending_element" where
  "mesh_element c crack material repaired i =
     (let dx = tc_support_span_mm c / of_i (tc_mesh_elements c); h = tc_specimen_thickness_mm c;
          (crack_center, crack_half_len) = crack_span c crack;
          max_crack_depth = millimetres (ci_max_depth crack);
          bonding_strength = bonding_of material;
          x_center = (of_i (int i) + D (1/2)) * dx;
          dist_to_crack = \<bar>x_center - crack_center\<bar>;
          reach = crack_half_len + dx;
          e = \<lparr>be_x_center = x_center, be_length = dx, be_y_min = - h / D 2, be_y_max = h / D 2,
            be_stress = replicate 6 0, be_strain = replicate 6 0, be_damage = 0, be_has_crack = False,
            be_is_repaired = False, be_repair_bonding_strength = 0\<rparr>
      in if dist_to_crack \<le> reach \<and> 0 < max_crack_depth then
           let depth_factor = dexp (- dist_to_crack * dist_to_crack / (D 2 * reach * reach));
               e = e\<lparr>be_has_crack := True, be_damage := depth_factor * (max_crack_depth / h)\<rparr>
           in if repaired \<and> 0 < bonding_strength then
                e\<lparr>be_is_repaired := True,
                  be_repair_bonding_strength := bonding_strength * tc_repair_interface_strength_ratio c\<rparr>
              else e
         else e)"

definition build_mesh :: "bending_test_config \<Rightarrow> crack_info \<Rightarrow> repair_material \<Rightarrow> bool \<Rightarrow> bending_element list result" where
  "build_mesh c crack material repaired =
     (if tc_mesh_elements c < 0 then Inl (Length_error ''vector::_M_default_append'')
      else Inr (map (mesh_element c crack material repaired) [0..<nat (tc_mesh_elements c)]))"

subsection \<open>One load step\<close>

definition load_element :: "bending_test \<Rightarrow> double \<Rightarrow> bending_element \<Rightarrow> bending_element" where
  "load_element t M e =
     (let c = bd_config t; I = moment_of_inertia c; h = tc_specimen_thickness_mm c;
          E = tc_porcelain_youngs_modulus_gpa c * D (10 ^ 9);
          y_top = h / D 2; y_bottom = - h / D 2;
          sigma_top = interpolate_stress y_top y_bottom y_top M I;
          sigma_bottom = interpolate_stress y_bottom y_bottom y_top M I;
          (sigma_top, sigma_bottom) =
            (if be_has_crack e then
               let a = be_damage e * h * D (1 / 10 ^ 3);
                   f = crack_influence_factor t a (millimetres h);
                   a_over_h = std_min (D 1) (be_damage e);
                   sigma_eff_factor = D 1 + f * dsqrt (std_max a_over_h 0);
                   strength = megapascals (tc_porcelain_strength_mpa c);
                   effective_strength =
                     (if be_is_repaired e then
                        strength * (D 1 - be_damage e) + megapascals (be_repair_bonding_strength e) * be_damage e
                      else strength);
                   max_stress_allowed = effective_strength / std_max sigma_eff_factor (D 1)
               in if max_stress_allowed < \<bar>sigma_top\<bar> then
                    let scale = max_stress_allowed / std_max \<bar>sigma_top\<bar> (D (1 / 10 ^ 12))
                    in (sigma_top * scale, sigma_bottom * scale)
                  else (sigma_top, sigma_bottom)
             else (sigma_top, sigma_bottom))
      in e\<lparr>be_stress := [sigma_top, sigma_bottom, 0, 0, 0, 0],
           be_strain := [sigma_top / E, sigma_bottom / E, 0, 0, 0, 0]\<rparr>)"

definition apply_four_point_loads :: "bending_test \<Rightarrow> double \<Rightarrow> bending_element list \<Rightarrow> bending_element list" where
  "apply_four_point_loads t load_n mesh =
     map2 (load_element t) (compute_bending_moment_distribution (bd_config t) (length mesh) load_n) mesh"

definition element_stress :: "bending_element \<Rightarrow> double" where
  "element_stress e = std_max \<bar>be_stress e ! 0\<bar> \<bar>be_stress e ! 1\<bar>"

definition peak_stress :: "bending_element list \<Rightarrow> double" where
  "peak_stress mesh = foldl (\<lambda>m e. std_max m (element_stress e)) 0 mesh"

definition compute_bending_strength :: "bending_test \<Rightarrow> bending_element list \<Rightarrow> double \<Rightarrow> double" where
  "compute_bending_strength t mesh moment =
     (if mesh = [] then 0
      else
        let c = bd_config t; y_max = millimetres (tc_specimen_thickness_mm c) / D 2; max_stress = peak_stress mesh
        in if max_stress < D (1 / 10 ^ 12) then moment * y_max / moment_of_inertia c / D (10 ^ 6)
           else max_stress / D (10 ^ 6))"

definition damage_element :: "bending_test \<Rightarrow> bending_element \<Rightarrow> bending_element" where
  "damage_element t e =
     (let c = bd_config t; strength = megapascals (tc_porcelain_strength_mpa c);
          effective_strength =
            (if be_has_crack e then
               let h = millimetres (tc_specimen_thickness_mm c); a = be_damage e * h;
                   f = crack_influence_factor t a h;
                   sigma_eff_factor = dsqrt (M_PI * std_max (a * D (10 ^ 3)) (D (1 / 10 ^ 9))) * f
               in if be_is_repaired e then
                    strength * (D 1 - be_damage e)
                      + megapascals (be_repair_bonding_strength e) * be_damage e * tc_repair_interface_strength_ratio c
                  else strength / std_max sigma_eff_factor (D 1)
             else strength)
      in if effective_strength < element_stress e then
           let overload = (element_stress e - effective_strength) / std_max effective_strength (D 1)
           in e\<lparr>be_damage := std_min (D 1) (be_damage e + overload * D (1/10))\<rparr>
         else e)"

definition update_damage :: "bending_test \<Rightarrow> bending_element list \<Rightarrow> bending_element list" where
  "update_damage t mesh = map (damage_element t) mesh"

text \<open>The strength an element with a crack has left, and the lowest of the mesh.\<close>

definition element_strength :: "bending_test \<Rightarrow> bending_element \<Rightarrow> double" where
  "element_strength t e =
     (let c = bd_config t; strength = megapascals (tc_porcelain_strength_mpa c)
      in if be_is_repaired e then
           strength * (D 1 - be_damage e)
             + megapascals (be_repair_bonding_strength e) * be_damage e * tc_repair_interface_strength_ratio c
         else
           let h = millimetres (tc_specimen_thickness_mm c);
               f = crack_influence_factor t (be_damage e * h) h;
               a_over_h = std_min (D 1) (be_damage e);
               sigma_eff_factor = D 1 + f * dsqrt (std_max a_over_h 0)
           in strength / std_max sigma_eff_factor (D 1))"

definition strength_limit :: "bending_test \<Rightarrow> bending_element list \<Rightarrow> double" where
  "strength_limit t mesh =
     foldl (\<lambda>m e. if be_has_crack e then std_min m (element_strength t e) else m)
       (megapascals (tc_porcelain_strength_mpa (bd_config t))) mesh"

subsection \<open>The load steps\<close>

definition step_load :: "bending_test_config \<Rightarrow> int \<Rightarrow> double" where
  "step_load c step =
     (let L1 = millimetres (tc_support_span_mm c); L2 = millimetres (tc_loading_span_mm c);
          y_max = millimetres (tc_specimen_thickness_mm c) / D 2;
          max_moment = megapascals (tc_porcelain_strength_mpa c) * moment_of_inertia c / y_max;
          max_load_est = D 4 * max_moment / (L1 - L2);
          load_ratio = of_i step / of_i (tc_load_steps c)
      in load_ratio * max_load_est * D (3/2))"

definition step_displacement :: "bending_test_config \<Rightarrow> double \<Rightarrow> double" where
  "step_displacement c load_n =
     (let L1 = millimetres (tc_support_span_mm c); L2 = millimetres (tc_loading_span_mm c);
          E = tc_porcelain_youngs_modulus_gpa c * D (10 ^ 9); I = moment_of_inertia c
      in if D (1 / 10 ^ 18) < I then
           let a = (L1 - L2) / D 2
           in load_n * a / (D 24 * E * I) * (D 3 * L1 * L1 - D 4 * a * a) * D (10 ^ 3)
         else 0)"

text \<open>The mesh and the two columns of the curve, and the failure load, zero when every step is survived.\<close>

fun run_bending_steps :: "bending_test \<Rightarrow> int list \<Rightarrow> bending_element list \<times> double list \<times> double list \<Rightarrow>
    (bending_element list \<times> double list \<times> double list) \<times> double" where
  "run_bending_steps t [] s = (s, 0)"
| "run_bending_steps t (step # steps) (mesh, loads, disps) =
     (let load_n = step_load (bd_config t) step; disp_mm = step_displacement (bd_config t) load_n;
          mesh = update_damage t (apply_four_point_loads t load_n mesh);
          s = (mesh, loads @ [load_n], disps @ [disp_mm])
      in if strength_limit t mesh \<le> peak_stress mesh then (s, load_n)
         else if tc_max_displacement_mm (bd_config t) < disp_mm then (s, load_n)
         else run_bending_steps t steps s)"

definition run_load_steps :: "bending_test \<Rightarrow> bending_element list \<Rightarrow>
    (bending_element list \<times> double list \<times> double list) \<times> double" where
  "run_load_steps t mesh =
     (case run_bending_steps t [0..tc_load_steps (bd_config t)] (mesh, [], []) of ((mesh, loads, disps), failure) \<Rightarrow>
       ((mesh, loads, disps), if failure \<le> 0 \<and> loads \<noteq> [] then last loads else failure))"

subsection \<open>The test\<close>

definition crack_depth_m :: "crack_info \<Rightarrow> double" where
  "crack_depth_m crack = (if 0 < ci_max_depth crack then millimetres (ci_max_depth crack) else D (1 / 10 ^ 9))"

definition unrepaired_strength_pa :: "bending_test \<Rightarrow> crack_info \<Rightarrow> double" where
  "unrepaired_strength_pa t crack =
     (let h = millimetres (tc_specimen_thickness_mm (bd_config t)); a_crack = crack_depth_m crack;
          f = crack_influence_factor t a_crack h;
          a_over_h = std_min (D 1) (a_crack / std_max h (D (1 / 10 ^ 9)));
          sigma_eff_factor = D 1 + f * dsqrt (std_max a_over_h 0)
      in megapascals (tc_porcelain_strength_mpa (bd_config t)) / std_max sigma_eff_factor (D 1))"

definition repaired_strength_pa :: "bending_test \<Rightarrow> crack_info \<Rightarrow> repair_material \<Rightarrow> double" where
  "repaired_strength_pa t crack material =
     (let h = millimetres (tc_specimen_thickness_mm (bd_config t));
          strength = megapascals (tc_porcelain_strength_mpa (bd_config t));
          ratio = std_min (D 1) (crack_depth_m crack / h)
      in if D 1 < bonding_of material then
           std_max (strength * (D 1 - ratio)
               + megapascals (bonding_of material) * ratio * tc_repair_interface_strength_ratio (bd_config t))
             (unrepaired_strength_pa t crack)
         else unrepaired_strength_pa t crack)"

definition stress_element_json :: "bending_element \<Rightarrow> json" where
  "stress_element_json e = JObj
     [(''x_center'', JNum (be_x_center e)), (''length'', JNum (be_length e)), (''y_min'', JNum (be_y_min e)),
      (''y_max'', JNum (be_y_max e)), (''stress_top'', JNum (be_stress e ! 0 / D (10 ^ 6))),
      (''stress_bottom'', JNum (be_stress e ! 1 / D (10 ^ 6))), (''strain_top'', JNum (be_strain e ! 0)),
      (''strain_bottom'', JNum (be_strain e ! 1)), (''damage'', JNum (be_damage e)),
      (''has_crack'', JBool (be_has_crack e)), (''is_repaired'', JBool (be_is_repaired e))]"

definition bending_parameters :: "bending_test_config \<Rightarrow> double \<Rightarrow> json" where
  "bending_parameters c failure_load_n = JObj
     [(''support_span_mm'', JNum (tc_support_span_mm c)), (''loading_span_mm'', JNum (tc_loading_span_mm c)),
      (''specimen_width_mm'', JNum (tc_specimen_width_mm c)),
      (''specimen_thickness_mm'', JNum (tc_specimen_thickness_mm c)),
      (''porcelain_youngs_modulus_gpa'', JNum (tc_porcelain_youngs_modulus_gpa c)),
      (''porcelain_poissons_ratio'', JNum (tc_porcelain_poissons_ratio c)),
      (''porcelain_strength_mpa'', JNum (tc_porcelain_strength_mpa c)),
      (''repair_interface_strength_ratio'', JNum (tc_repair_interface_strength_ratio c)),
      (''mesh_elements'', JInt (tc_mesh_elements c)), (''load_steps'', JInt (tc_load_steps c)),
      (''failure_load_n'', JNum failure_load_n)]"

definition bending_summary :: "bending_test_result \<Rightarrow> double \<Rightarrow> json" where
  "bending_summary r failure_load_n = JObj
     [(''original_strength_mpa'', JNum (bt_original_strength_mpa r)),
      (''unrepaired_strength_mpa'', JNum (bt_unrepaired_strength_mpa r)),
      (''repaired_strength_mpa'', JNum (bt_repaired_strength_mpa r)),
      (''strength_recovery_ratio'', JNum (bt_strength_recovery_ratio r)),
      (''youngs_modulus_gpa'', JNum (bt_youngs_modulus_gpa r)),
      (''fracture_toughness_mpa_m05'', JNum (bt_fracture_toughness_mpa_m05 r)),
      (''failure_load_n'', JNum failure_load_n),
      (''load_displacement_points'', JInt (int (length (bt_load r))))]"

text \<open>The fields that do not depend on the load steps.\<close>

definition bending_strengths :: "bending_test \<Rightarrow> time_point \<Rightarrow> int \<Rightarrow> int \<Rightarrow> int \<Rightarrow> crack_info \<Rightarrow> repair_material \<Rightarrow>
    bool \<Rightarrow> bending_test_result" where
  "bending_strengths t now porcelain_id crack_id material_id crack material repaired =
     (let c = bd_config t; h = millimetres (tc_specimen_thickness_mm c);
          strength = megapascals (tc_porcelain_strength_mpa c);
          unrepaired = unrepaired_strength_pa t crack / D (10 ^ 6);
          repaired_mpa = (if repaired then repaired_strength_pa t crack material / D (10 ^ 6) else unrepaired);
          f = crack_influence_factor t (crack_depth_m crack) h;
          K_IC = strength * dsqrt (M_PI * std_max (crack_depth_m crack) (D (1 / 10 ^ 9))) * f
      in new_bending_test_result
           \<lparr>bt_porcelain_id := porcelain_id, bt_crack_id := crack_id, bt_material_id := material_id,
            bt_method := ''FOUR_POINT_BENDING'', bt_created_at := now,
            bt_youngs_modulus_gpa := tc_porcelain_youngs_modulus_gpa c,
            bt_original_strength_mpa := tc_porcelain_strength_mpa c,
            bt_unrepaired_strength_mpa := unrepaired, bt_repaired_strength_mpa := repaired_mpa,
            bt_strength_recovery_ratio :=
              (if 0 < tc_porcelain_strength_mpa c then repaired_mpa / tc_porcelain_strength_mpa c else 0),
            bt_fracture_toughness_mpa_m05 := K_IC / D (10 ^ 6)\<rparr>)"

definition simulate_bending :: "bending_test \<Rightarrow> time_point \<Rightarrow> int \<Rightarrow> int \<Rightarrow> int \<Rightarrow> crack_info \<Rightarrow> repair_material \<Rightarrow>
    bool \<Rightarrow> (bending_test_result \<times> bending_test) result" where
  "simulate_bending t now porcelain_id crack_id material_id crack material repaired =
     (let r = bending_strengths t now porcelain_id crack_id material_id crack material repaired in
      and_then (build_mesh (bd_config t) crack material repaired) (\<lambda>mesh.
        case run_load_steps t mesh of ((mesh, loads, disps), failure) \<Rightarrow>
          let r = r\<lparr>bt_load := loads, bt_disp := disps,
                    bt_stress_distribution := JArr (map stress_element_json mesh),
                    bt_parameters := bending_parameters (bd_config t) failure\<rparr>
          in Inr (r\<lparr>bt_result := bending_summary r failure\<rparr>, t\<lparr>bd_failure_load_n := failure\<rparr>)))"

definition bending_to_json :: "bending_test_result \<Rightarrow> json" where
  "bending_to_json r = JObj
     [(''id'', JInt (bt_id r)), (''porcelain_id'', JInt (bt_porcelain_id r)), (''crack_id'', JInt (bt_crack_id r)),
      (''material_id'', JInt (bt_material_id r)), (''method'', JStr (bt_method r)), (''parameters'', bt_parameters r),
      (''original_strength_mpa'', JNum (bt_original_strength_mpa r)),
      (''unrepaired_strength_mpa'', JNum (bt_unrepaired_strength_mpa r)),
      (''repaired_strength_mpa'', JNum (bt_repaired_strength_mpa r)),
      (''strength_recovery_ratio'', JNum (bt_strength_recovery_ratio r)),
      (''youngs_modulus_gpa'', JNum (bt_youngs_modulus_gpa r)),
      (''fracture_toughness_mpa_m05'', JNum (bt_fracture_toughness_mpa_m05 r)),
      (''load_displacement_load'', num_array (bt_load r)), (''load_displacement_disp'', num_array (bt_disp r)),
      (''stress_distribution'', bt_stress_distribution r), (''result'', bt_result r)]"

subsection \<open>Calibration\<close>

record calibration_dataset =
  cal_id :: int
  cal_input_features :: "double list"
  cal_measured_value :: double
  cal_measurement_std :: "double option"
  cal_porcelain_id :: int
  cal_crack_id :: int
  cal_material_id :: int

text \<open>The crack and the material the code makes up for a measurement; the other members are default or not set.\<close>

definition calibration_crack :: "calibration_dataset \<Rightarrow> crack_info" where
  "calibration_crack d =
     \<lparr>ci_id = cal_crack_id d, ci_porcelain_id = cal_porcelain_id d, ci_crack_code = [],
      ci_max_depth = (if cal_input_features d = [] then 0 else hd (cal_input_features d)),
      ci_max_width = indeterminate, ci_total_length = indeterminate, ci_status = [], ci_points = [],
      ci_detected_at = 0\<rparr>"

definition calibration_material :: "calibration_dataset \<Rightarrow> repair_material" where
  "calibration_material d =
     \<lparr>rm_id = cal_material_id d, rm_type = indeterminate, rm_name = [], rm_manufacturer = [],
      rm_particle_size_nm = indeterminate, rm_purity = indeterminate, rm_viscosity = indeterminate,
      rm_refractive_index = indeterminate, rm_thermal_expansion_coeff = indeterminate, rm_properties = JNull\<rparr>"

text \<open>Only called with parameters; without any, \<open>params.end() - 1\<close> is undefined.\<close>

definition predict_strength_recovery :: "bending_test_config \<Rightarrow> crack_info \<Rightarrow> repair_material \<Rightarrow> double list \<Rightarrow> bool \<Rightarrow> double" where
  "predict_strength_recovery c crack material params repaired =
     (let h = millimetres (tc_specimen_thickness_mm c); strength = megapascals (tc_porcelain_strength_mpa c);
          a_crack = crack_depth_m crack;
          f = crack_influence_poly (butlast params) a_crack h;
          a_over_h = std_min (D 1) (a_crack / std_max h (D (1 / 10 ^ 9)));
          sigma_eff_factor = D 1 + f * dsqrt (std_max a_over_h 0);
          unrepaired = strength / std_max sigma_eff_factor (D 1);
          ratio = std_min (D 1) (a_crack / h);
          pa = (if repaired then
                  strength * (D 1 - ratio) + bonding_of material * D (10 ^ 6) * ratio * last params
                else unrepaired)
      in if 0 < tc_porcelain_strength_mpa c then pa / strength else 0)"

definition compute_mse :: "bending_test_config \<Rightarrow> calibration_dataset list \<Rightarrow> crack_info \<Rightarrow> repair_material \<Rightarrow> double list \<Rightarrow>
    bool \<Rightarrow> double" where
  "compute_mse c datasets crack material params repaired =
     (if datasets = [] then 0
      else foldl (\<lambda>mse d.
          let error = predict_strength_recovery c crack material params repaired - cal_measured_value d in
          case cal_measurement_std d of
            Some s \<Rightarrow> mse + D 1 / (s * s) * error * error
          | None \<Rightarrow> mse + error * error) 0 datasets / of_i (int (length datasets)))"

definition mean_measured :: "double list \<Rightarrow> double" where
  "mean_measured ms = foldl (\<lambda>s m. s + m) 0 ms / of_i (int (length ms))"

definition compute_r2 :: "double list \<Rightarrow> double list \<Rightarrow> double" where
  "compute_r2 predictions measurements =
     (if predictions = [] \<or> measurements = [] \<or> length predictions \<noteq> length measurements then 0
      else
        let mean = mean_measured measurements;
            ss_res = foldl (\<lambda>s (p, m). s + (p - m) * (p - m)) 0 (zip predictions measurements);
            ss_tot = foldl (\<lambda>s m. s + (m - mean) * (m - mean)) 0 measurements
        in if ss_tot < D (1 / 10 ^ 12) then D 1 else D 1 - ss_res / ss_tot)"

definition compute_r_squared :: "bending_test_config \<Rightarrow> calibration_dataset list \<Rightarrow> crack_info \<Rightarrow> repair_material \<Rightarrow>
    double list \<Rightarrow> bool \<Rightarrow> double" where
  "compute_r_squared c datasets crack material params repaired =
     (if datasets = [] then 0
      else
        let mean = mean_measured (map cal_measured_value datasets);
            predicted = predict_strength_recovery c crack material params repaired;
            ss_res = foldl (\<lambda>s d. s + (predicted - cal_measured_value d) * (predicted - cal_measured_value d)) 0 datasets;
            ss_tot = foldl (\<lambda>s d. s + (cal_measured_value d - mean) * (cal_measured_value d - mean)) 0 datasets
        in if ss_tot < D (1 / 10 ^ 12) then D 1 else D 1 - ss_res / ss_tot)"

text \<open>The prediction for one measurement, with the specimen taken as repaired.\<close>

definition predicted_for :: "bending_test_config \<Rightarrow> double list \<Rightarrow> calibration_dataset \<Rightarrow> double" where
  "predicted_for c params d = predict_strength_recovery c (calibration_crack d) (calibration_material d) params True"

definition evaluate_model_mse :: "bending_test_config \<Rightarrow> double list \<Rightarrow> calibration_dataset list \<Rightarrow> double" where
  "evaluate_model_mse c params dataset =
     (if dataset = [] \<or> length params < 6 then 0
      else foldl (\<lambda>mse d.
          let error = predicted_for c params d - cal_measured_value d in
          case cal_measurement_std d of
            Some s \<Rightarrow> if D (1 / 10 ^ 12) < s then mse + D 1 / (s * s) * error * error else mse + error * error
          | None \<Rightarrow> mse + error * error) 0 dataset / of_i (int (length dataset)))"

definition update_model_params :: "double list \<Rightarrow> bending_test \<Rightarrow> bending_test" where
  "update_model_params params t =
     (if length params < 6 then t
      else t\<lparr>bd_crack_influence_coeffs := take 5 params @ drop 5 (bd_crack_influence_coeffs t),
             bd_interface_strength_ratio := params ! 5,
             bd_config := (bd_config t)\<lparr>tc_repair_interface_strength_ratio := params ! 5\<rparr>\<rparr>)"

record calibration_result =
  cr_optimal_params :: "double list"
  cr_initial_mse :: double
  cr_final_mse :: double
  cr_initial_r2 :: double
  cr_final_r2 :: double
  cr_iterations :: int
  cr_param_history :: "double list"
  cr_mse_history :: "double list"

definition calibration_bounds :: "parameter_bounds list" where
  "calibration_bounds =
     [\<lparr>pb_name = ''c0_const'', pb_lower = D (1/2), pb_upper = D 2, pb_default = D (112/100)\<rparr>,
      \<lparr>pb_name = ''c1_linear'', pb_lower = D (- 1), pb_upper = D (1/2), pb_default = D (- 23/100)\<rparr>,
      \<lparr>pb_name = ''c2_quad'', pb_lower = 0, pb_upper = D 30, pb_default = D (106/10)\<rparr>,
      \<lparr>pb_name = ''c3_cubic'', pb_lower = D (- 50), pb_upper = 0, pb_default = D (- 217/10)\<rparr>,
      \<lparr>pb_name = ''c4_quartic'', pb_lower = 0, pb_upper = D 60, pb_default = D (304/10)\<rparr>,
      \<lparr>pb_name = ''interface_strength_ratio'', pb_lower = D (1/2), pb_upper = D 1, pb_default = D (85/100)\<rparr>]"

definition default_params :: "double list" where
  "default_params = map pb_default calibration_bounds"

text \<open>The optimiser draws with seed 42 on a grid of 1000 points.\<close>

definition calibration_optimizer :: "bending_test_config \<Rightarrow> optimizer_config" where
  "calibration_optimizer c =
     \<lparr>oc_max_iter = tc_calibration_max_iter c, oc_n_init = tc_calibration_initial_samples c,
      oc_grid_search_points = 1000, oc_xi = tc_calibration_exploration_weight c, oc_random_seed = 42\<rparr>"

definition search_params :: "'r rng \<Rightarrow> bending_test_config \<Rightarrow> calibration_dataset list \<Rightarrow> calibration_result \<Rightarrow>
    calibration_result result" where
  "search_params g c dataset r =
     (if tc_enable_bayesian_calibration c then
        and_then (optimize g calibration_bounds (\<lambda>params. evaluate_model_mse c params dataset) (calibration_optimizer c))
          (\<lambda>s. Inr (r\<lparr>cr_optimal_params := or_best_params s, cr_final_mse := or_best_objective s,
                     cr_iterations := or_iterations s, cr_mse_history := or_sample_values s,
                     cr_param_history := concat (or_sample_points s)\<rparr>))
      else Inr (r\<lparr>cr_optimal_params := default_params, cr_final_mse := cr_initial_mse r, cr_iterations := 0\<rparr>))"

definition calibrate_model :: "'r rng \<Rightarrow> bending_test \<Rightarrow> calibration_dataset list \<Rightarrow> bool \<Rightarrow>
    (calibration_result \<times> bending_test) result" where
  "calibrate_model g t dataset update_internal_params =
     (let r = \<lparr>cr_optimal_params = default_params, cr_initial_mse = 0, cr_final_mse = 0, cr_initial_r2 = 0,
               cr_final_r2 = 0, cr_iterations = 0, cr_param_history = [], cr_mse_history = []\<rparr>
      in if dataset = [] then Inr (r, t)
         else
           let c = bd_config t; measurements = map cal_measured_value dataset;
               r = r\<lparr>cr_initial_mse := evaluate_model_mse c default_params dataset,
                     cr_initial_r2 := compute_r2 (map (predicted_for c default_params) dataset) measurements\<rparr>
           in and_then (search_params g c dataset r) (\<lambda>r.
                if cr_optimal_params r = [] then Inl (UB ''iterator before begin'')
                else
                  let r = r\<lparr>cr_final_r2 := compute_r2 (map (predicted_for c (cr_optimal_params r)) dataset) measurements\<rparr>
                  in Inr (r, if update_internal_params then update_model_params (cr_optimal_params r) t else t)))"

definition calibration_to_json :: "calibration_result \<Rightarrow> json" where
  "calibration_to_json r = JObj
     [(''optimal_params'', num_array (cr_optimal_params r)), (''initial_mse'', JNum (cr_initial_mse r)),
      (''final_mse'', JNum (cr_final_mse r)), (''initial_r2'', JNum (cr_initial_r2 r)),
      (''final_r2'', JNum (cr_final_r2 r)), (''iterations'', JInt (cr_iterations r)),
      (''param_history'', num_array (cr_param_history r)), (''mse_history'', num_array (cr_mse_history r))]"

text \<open>The second result type of bayesian_optimization.h, which lists each parameter with its value.\<close>

record calibration_report =
  rp_calibrated_params :: "parameter_bounds list"
  rp_optimal_values :: "double list"
  rp_mse_before :: double
  rp_mse_after :: double
  rp_r_squared :: double
  rp_iterations :: int

definition calibration_report_to_json :: "calibration_report \<Rightarrow> json result" where
  "calibration_report_to_json r =
     (if length (rp_optimal_values r) < length (rp_calibrated_params r) then Inl (UB ''vector index'')
      else Inr (JObj
        [(''optimal_values'', num_array (rp_optimal_values r)), (''mse_before'', JNum (rp_mse_before r)),
         (''mse_after'', JNum (rp_mse_after r)), (''r_squared'', JNum (rp_r_squared r)),
         (''iterations'', JInt (rp_iterations r)),
         (''parameters'', JArr (map2 (\<lambda>p v. JObj
            [(''name'', JStr (pb_name p)), (''value'', JNum v), (''lower'', JNum (pb_lower p)), (''upper'', JNum (pb_upper p))])
            (rp_calibrated_params r) (rp_optimal_values r)))]))"

subsection \<open>What the calibration learns\<close>

lemma bonding_of_calibration [simp]: "bonding_of (calibration_material d) = 0"
  by (simp add: bonding_of_def calibration_material_def json_contains_def)

lemma nothing_times: "isfinite a \<Longrightarrow> isfinite b \<Longrightarrow> 0 * x * a = 0 * x * (b :: double)"
  by (cases x) auto

lemma predicted_for_const:
  assumes "isfinite (last p)" and "isfinite (last q)"
  shows "predicted_for c p d = predicted_for c q d"
  using nothing_times [OF assms] by (simp add: predicted_for_def predict_strength_recovery_def Let_def)

lemma finite_point_last: "finite_point calibration_bounds p \<Longrightarrow> length p = 6 \<and> isfinite (last p)"
  by (cases p rule: rev_cases) (auto simp: finite_point_def calibration_bounds_def)

lemma default_params_finite: "finite_point calibration_bounds default_params"
  by (simp add: default_params_def finite_point_def calibration_bounds_def encl_finite [OF encl_D [of "- 64" 64]])

lemma evaluate_model_mse_const:
  assumes "finite_point calibration_bounds p" and "finite_point calibration_bounds q"
  shows "evaluate_model_mse c p dataset = evaluate_model_mse c q dataset"
proof -
  have "predicted_for c p = predicted_for c q"
    using assms [THEN finite_point_last] by (intro ext predicted_for_const) simp_all
  then show ?thesis
    using assms [THEN finite_point_last] by (simp add: evaluate_model_mse_def)
qed

lemma calibration_box_ok: "box_ok calibration_bounds"
  by (simp add: box_ok_def calibration_bounds_def encl_def)

lemma first_six: "length (hd xss) = 6 \<Longrightarrow> xss \<noteq> [] \<Longrightarrow> take 6 (concat xss) = hd xss"
  by (cases xss) simp_all

text \<open>The calibration learns nothing. A measurement carries no properties of the material, so the
  bonding strength of the model is zero, the prediction does not depend on the parameters, and the
  mean squared error that the optimiser minimises is a constant: whenever an enabled calibration
  returns, the error and the coefficient of determination are those of the default parameters, and
  the parameters it reports and installs in place of the defaults are the first random sample.
\<close>

theorem calibration_learns_nothing:
  assumes "rng_ok g" and "tc_enable_bayesian_calibration (bd_config t)" and "dataset \<noteq> []"
    and "tc_calibration_initial_samples (bd_config t) < 2 ^ 31"
    and "calibrate_model g t dataset True = Inr (r, t')"
  shows "cr_final_mse r = cr_initial_mse r \<and> cr_final_r2 r = cr_initial_r2 r
    \<and> cr_optimal_params r = take 6 (cr_param_history r)
    \<and> bd_interface_strength_ratio t' = cr_param_history r ! 5
    \<and> take 5 (bd_crack_influence_coeffs t') = take 5 (cr_param_history r)"
proof -
  let ?c = "bd_config t"
  let ?mse = "\<lambda>p. evaluate_model_mse ?c p dataset"
  obtain s where s: "optimize g calibration_bounds ?mse (calibration_optimizer ?c) = Inr s"
    and best: "or_best_params s \<noteq> []"
    and r: "cr_initial_mse r = ?mse default_params" "cr_final_mse r = or_best_objective s"
      "cr_optimal_params r = or_best_params s" "cr_param_history r = concat (or_sample_points s)"
      "cr_initial_r2 r = compute_r2 (map (predicted_for ?c default_params) dataset) (map cal_measured_value dataset)"
      "cr_final_r2 r = compute_r2 (map (predicted_for ?c (or_best_params s)) dataset) (map cal_measured_value dataset)"
    and t': "t' = update_model_params (or_best_params s) t"
    using assms(2,3,5) by (auto simp: calibrate_model_def search_params_def and_then_eq_Inr_iff Let_def split: if_splits)
  have const: "?mse p = ?mse default_params" if "finite_point calibration_bounds p" for p
    using evaluate_model_mse_const [OF that default_params_finite] .
  have opt: "or_sample_points s \<noteq> [] \<and> (or_best_params s = [] \<or> or_best_params s = hd (or_sample_points s) \<and>
      or_best_objective s = ?mse default_params \<and> finite_point calibration_bounds (or_best_params s))"
    by (rule optimize_constant [OF assms(1) calibration_box_ok const _ s])
      (use assms(4) in \<open>simp_all add: calibration_bounds_def calibration_optimizer_def\<close>)
  then have first: "or_best_params s = hd (or_sample_points s)" "or_best_objective s = ?mse default_params"
    and p: "length (or_best_params s) = 6" "isfinite (last (or_best_params s))"
    using best finite_point_last by auto
  have six: "take 6 (concat (or_sample_points s)) = or_best_params s"
    using opt p first(1) by (simp add: first_six)
  have "predicted_for ?c (or_best_params s) = predicted_for ?c default_params"
    using p default_params_finite [THEN finite_point_last] by (intro ext predicted_for_const) simp_all
  moreover have "concat (or_sample_points s) ! 5 = or_best_params s ! 5"
      "take 5 (concat (or_sample_points s)) = take 5 (or_best_params s)"
    unfolding six [symmetric] by (simp_all add: min_def)
  ultimately show ?thesis
    using p by (simp add: r first(2) six t' update_model_params_def)
qed

text \<open>An engine that always answers one half, and a calibration with one sample and no iteration.\<close>

definition half_rng :: "unit rng" where
  "half_rng = \<lparr>rg_seed = \<lambda>_. (), rg_unit = \<lambda>_. (D (1/2), ()), rg_normal = \<lambda>_ _ _. (0, ()), rg_shuffle = \<lambda>xs _. (xs, ())\<rparr>"

definition calibration_demo :: bending_test where
  "calibration_demo = set_bending_config
     (default_bending_config\<lparr>tc_enable_bayesian_calibration := True, tc_calibration_max_iter := 0,
        tc_calibration_initial_samples := 1\<rparr>) new_bending_test"

definition measurement_demo :: calibration_dataset where
  "measurement_demo =
     \<lparr>cal_id = 1, cal_input_features = [D 1], cal_measured_value = D (1/2), cal_measurement_std = None, cal_porcelain_id = 1,
      cal_crack_id = 1, cal_material_id = 1\<rparr>"

lemma calibration_demo_returns: "\<exists>r t'. calibrate_model half_rng calibration_demo [measurement_demo] True = Inr (r, t')"
  by (simp add: calibrate_model_def search_params_def calibration_demo_def set_bending_config_def
      default_bending_config_def optimize_def calibration_optimizer_def latin_hypercube_def lhs_column_def
      half_rng_def calibration_bounds_def into_box_def first_best_def numeral_eq_Suc Let_def)

theorem calibration_learns_nothing_witness:
  "\<exists>r t'. calibrate_model half_rng calibration_demo [measurement_demo] True = Inr (r, t') \<and> cr_final_mse r = cr_initial_mse r"
proof -
  obtain r t' where rt: "calibrate_model half_rng calibration_demo [measurement_demo] True = Inr (r, t')"
    using calibration_demo_returns by blast
  have "cr_final_mse r = cr_initial_mse r"
    by (rule calibration_learns_nothing [OF _ _ _ _ rt, THEN conjunct1])
      (simp_all add: rng_ok_def half_rng_def encl_exact encl_def calibration_demo_def set_bending_config_def default_bending_config_def)
  then show ?thesis
    using rt by blast
qed

subsection \<open>The strengths\<close>

lemma neg_inf_divide: "exact s \<Longrightarrow> 0 < s \<Longrightarrow> NINF / D s = NINF"
  by (transfer, simp)

lemma ddivide_not_less:
  assumes "exact s" and "0 < s" and "\<not> a < (b :: double)"
  shows "\<not> a / D s < b / D s"
proof (cases a; cases b)
  fix p q
  assume p: "a = D p" "exact p" and q: "b = D q" "exact q"
  then have "D (q / s) \<le> D (p / s)"
    using assms by (intro D_mono) (simp_all add: divide_right_mono)
  then show ?thesis
    using p q assms dless_not_sym by auto
qed (use assms in \<open>auto simp: neg_inf_divide\<close>)

lemma std_max_right_not_less: "\<not> std_max a b < b"
  by (auto simp: std_max_def)

lemma simulated_strengths:
  assumes "simulate_bending t now pid cid mid crack material repaired = Inr (r, t')"
  shows "bt_unrepaired_strength_mpa r = unrepaired_strength_pa t crack / D (10 ^ 6)"
    and "bt_repaired_strength_mpa r =
      (if repaired then repaired_strength_pa t crack material else unrepaired_strength_pa t crack) / D (10 ^ 6)"
  using assms by (auto simp: simulate_bending_def and_then_eq_Inr_iff bending_strengths_def Let_def split_beta)

text \<open>A repair never makes the specimen weaker. The simulated strength after the repair is not below the
  strength without it, which is the one the run without repair reports for both, whatever the
  configuration, the crack and the material.
\<close>

theorem repair_never_weakens:
  assumes "simulate_bending t now pid cid mid crack material True = Inr (r, t1)"
    and "simulate_bending t now pid cid mid crack material False = Inr (u, t2)"
  shows "\<not> bt_repaired_strength_mpa r < bt_unrepaired_strength_mpa r
    \<and> bt_unrepaired_strength_mpa r = bt_unrepaired_strength_mpa u
    \<and> bt_repaired_strength_mpa u = bt_unrepaired_strength_mpa u"
proof -
  have "\<not> repaired_strength_pa t crack material < unrepaired_strength_pa t crack"
    by (simp add: repaired_strength_pa_def Let_def std_max_right_not_less)
  then have "\<not> repaired_strength_pa t crack material / D (10 ^ 6) < unrepaired_strength_pa t crack / D (10 ^ 6)"
    by (intro ddivide_not_less) simp_all
  then show ?thesis
    by (simp only: simulated_strengths [OF assms(1)] simulated_strengths [OF assms(2)] if_True if_False) simp
qed

definition bending_demo_material :: repair_material where
  "bending_demo_material =
     \<lparr>rm_id = 1, rm_type = ZIRCONIA, rm_name = [], rm_manufacturer = [], rm_particle_size_nm = 0, rm_purity = 0,
      rm_viscosity = 0, rm_refractive_index = 0, rm_thermal_expansion_coeff = 0,
      rm_properties = JObj [(''bonding_strength'', JNum (D 45))]\<rparr>"

definition bending_demo_crack :: crack_info where
  "bending_demo_crack =
     \<lparr>ci_id = 1, ci_porcelain_id = 1, ci_crack_code = [], ci_max_depth = D 2, ci_max_width = D 2, ci_total_length = D 10,
      ci_status = [], ci_points = [], ci_detected_at = 0\<rparr>"

lemma simulate_bending_returns:
  "0 \<le> tc_mesh_elements (bd_config t) \<Longrightarrow> \<exists>r t'. simulate_bending t now pid cid mid crack material repaired = Inr (r, t')"
  by (simp add: simulate_bending_def build_mesh_def Let_def split_beta)

theorem repair_never_weakens_witness:
  "\<exists>r t1. simulate_bending new_bending_test 0 1 1 1 bending_demo_crack bending_demo_material True = Inr (r, t1)
     \<and> \<not> bt_repaired_strength_mpa r < bt_unrepaired_strength_mpa r"
proof -
  obtain r t1 u t2 where
    r: "simulate_bending new_bending_test 0 1 1 1 bending_demo_crack bending_demo_material True = Inr (r, t1)" and
    u: "simulate_bending new_bending_test 0 1 1 1 bending_demo_crack bending_demo_material False = Inr (u, t2)"
    using simulate_bending_returns [of new_bending_test] by (fastforce simp: new_bending_test_def default_bending_config_def)
  show ?thesis
    using repair_never_weakens [OF r u] r by blast
qed

subsection \<open>The default specimen\<close>

lemma approx_encl:
  assumes "approx n k x r" and "n \<le> 100" and "l \<le> r * (1 - 1 / 10 ^ 9)" and "r * (1 + 1 / 10 ^ 9) \<le> u"
  shows "encl x l u"
proof -
  obtain a where a: "x = D a" "exact a" "0 < r" "r / slack ^ n \<le> a" "a \<le> r * slack ^ n"
    using assms(1) unfolding approx_def by (auto elim: nearE)
  have s: "slack ^ n < 1 + 1 / 10 ^ 9"
    using assms(2) by (rule slack_power_sharp)
  have "(1 - 1 / 10 ^ 9) * slack ^ n \<le> (1 - 1 / 10 ^ 9) * (1 + 1 / 10 ^ 9)"
    using s by (intro mult_left_mono) simp_all
  then have "(1 - 1 / 10 ^ 9) * slack ^ n \<le> 1"
    by simp
  then have "r * ((1 - 1 / 10 ^ 9) * slack ^ n) \<le> r * 1"
    using a(3) by (intro mult_left_mono) simp_all
  then have "r * (1 - 1 / 10 ^ 9) \<le> r / slack ^ n"
    by (simp only: pos_le_divide_eq slack_bounds mult.assoc mult_1_right)
  moreover have "r * slack ^ n \<le> r * (1 + 1 / 10 ^ 9)"
    using s a(3) by (intro mult_left_mono) simp_all
  ultimately have "l \<le> a" "a \<le> u"
    using a(4,5) assms(3,4) by linarith+
  then show ?thesis
    using a(1,2) by (simp add: encl_def)
qed

lemma encl_std_max: "encl x a b \<Longrightarrow> encl y c d \<Longrightarrow> l \<le> max a c \<Longrightarrow> max b d \<le> u \<Longrightarrow> encl (std_max x y) l u"
  by (elim enclE) (auto simp: std_max_def encl_def max_def split: if_splits)

lemma encl_std_min: "encl x a b \<Longrightarrow> encl y c d \<Longrightarrow> l \<le> min a c \<Longrightarrow> min b d \<le> u \<Longrightarrow> encl (std_min x y) l u"
  by (elim enclE) (auto simp: std_min_def encl_def min_def split: if_splits)

lemma encl_dsqrt: "encl x 0 (u * u) \<Longrightarrow> exact u \<Longrightarrow> 0 \<le> u \<Longrightarrow> encl (dsqrt x) 0 u"
  by (elim enclE) (auto simp: dsqrt_def real_le_lsqrt power2_eq_square intro!: encl_D)

lemma encl_dexp_nonpos: "encl x l 0 \<Longrightarrow> encl (dexp x) 0 1"
  by (elim enclE) (auto simp: dexp_def intro!: encl_D)

text \<open>The quantities of the default configuration.\<close>

lemmas default_specimen = default_bending_config_def new_bending_test_def

lemma fresh_config [simp]: "bd_config new_bending_test = default_bending_config"
  by (simp add: new_bending_test_def)

lemma approx_millimetres: "1 / 10 \<le> r \<Longrightarrow> r \<le> 100 \<Longrightarrow> approx 3 5 (millimetres (D r)) (r / 1000)"
  using approx_times [OF approx_D [of 2 r] approx_D [of 3 "1 / 1000"]] by (simp add: millimetres_def numeral_eq_Suc)

lemma approx_inertia: "approx 20 30 (moment_of_inertia default_bending_config) (1 / 9600000000)"
proof -
  let ?b = "millimetres (D 10)" and ?h = "millimetres (D 5)"
  have h: "approx 3 5 ?h (1 / 200)" and b: "approx 3 5 ?b (1 / 100)"
    using approx_millimetres [of 5] approx_millimetres [of 10] by simp_all
  have "approx (Suc (Suc (Suc (Suc (3 + 3) + 3) + 3) + 1)) (5 + 5 + 5 + 5 + 2) (?b * ?h * ?h * ?h / D 12)
      (1 / 100 * (1 / 200) * (1 / 200) * (1 / 200) / 12)"
    by (intro approx_divide approx_times h b approx_D) simp_all
  then have "approx 17 22 (?b * ?h * ?h * ?h / D 12) (1 / 9600000000)"
    by (simp add: numeral_eq_Suc)
  then have "approx 20 30 (?b * ?h * ?h * ?h / D 12) (1 / 9600000000)"
    by (rule approx_weaken) simp_all
  then show ?thesis
    by (simp only: moment_of_inertia_def default_bending_config_def Let_def bending_test_config.select_convs)
qed

lemma inertia_encl: "encl (moment_of_inertia default_bending_config) (29000 / 2 ^ 48) (30000 / 2 ^ 48)"
  by (rule approx_encl [OF approx_inertia]) simp_all

lemma default_strength: "megapascals (tc_porcelain_strength_mpa default_bending_config) = D 120000000"
  by (simp add: megapascals_def default_bending_config_def)

lemma tc_ratio: "tc_repair_interface_strength_ratio default_bending_config = D (93 / 100)"
  and tc_thickness: "tc_specimen_thickness_mm default_bending_config = D 5"
  by (simp_all add: default_bending_config_def)

lemma span_encl:
  "encl (millimetres (D 40)) (41943 / 2 ^ 20) (41944 / 2 ^ 20)" "encl (millimetres (D 20)) (20971 / 2 ^ 20) (20972 / 2 ^ 20)"
  by (rule approx_encl [OF approx_millimetres]; simp)+

lemma arm_encl: "encl (millimetres (D 40) - millimetres (D 20)) (20971 / 2 ^ 20) (20973 / 2 ^ 20)"
  by (rule encl_minus [OF span_encl]) (use exact_dyadic [of 20971 20] exact_dyadic [of 20973 20] in simp_all)

lemma max_moment_encl:
  "encl (D 120000000 * moment_of_inertia default_bending_config / (millimetres (D 5) / D 2)) (159 / 32) (161 / 32)"
proof -
  have h: "approx 3 5 (millimetres (D 5)) (1 / 200)"
    using approx_millimetres [of 5] by simp
  have "approx (Suc (Suc (1 + 20) + Suc (3 + 1))) (10 + 30 + (5 + 2))
      (D 120000000 * moment_of_inertia default_bending_config / (millimetres (D 5) / D 2))
      (120000000 * (1 / 9600000000) / (1 / 200 / 2))"
    by (intro approx_divide approx_times h approx_D approx_inertia) simp_all
  then show ?thesis
    by (rule approx_encl) simp_all
qed

lemma max_load_encl:
  "encl (D 4 * (D 120000000 * moment_of_inertia default_bending_config / (millimetres (D 5) / D 2))
    / (millimetres (D 40) - millimetres (D 20))) 990 1010"
proof -
  have "encl (D 4 * (D 120000000 * moment_of_inertia default_bending_config / (millimetres (D 5) / D 2))) (159 / 8) (161 / 8)"
    by (rule encl_times [OF encl_exact max_moment_encl]) (use exact_dyadic [of 159 3] exact_dyadic [of 161 3] in simp_all)
  then show ?thesis
    by (rule encl_divide [OF _ arm_encl]) simp_all
qed

lemma step_load_default:
  "step_load default_bending_config step = of_i step / D 50
     * (D 4 * (D 120000000 * moment_of_inertia default_bending_config / (millimetres (D 5) / D 2))
    / (millimetres (D 40) - millimetres (D 20))) * D (3 / 2)"
  using default_strength by (simp add: step_load_def default_bending_config_def Let_def of_i_def)

lemma no_load: "step_load default_bending_config 0 = 0"
  unfolding step_load_default using max_load_encl [THEN encl_finite] D_divide [of 0 50] exact_dyadic [of 3 1] by (simp add: of_i_def)

lemma first_load_encl: "encl (step_load default_bending_config 1) (59 / 2) (61 / 2)"
proof -
  have "encl (of_i 1 / D 50) (20971 / 2 ^ 20) (20972 / 2 ^ 20)"
    using exact_dyadic [of 20971 20] exact_dyadic [of 20972 20] by (simp add: of_i_def encl_D flip: D_one)
  from encl_times [OF this max_load_encl, of "79 / 4" "81 / 4"]
  have "encl (of_i 1 / D 50 * (D 4 * (D 120000000 * moment_of_inertia default_bending_config / (millimetres (D 5) / D 2))
    / (millimetres (D 40) - millimetres (D 20)))) (79 / 4) (81 / 4)"
    using exact_dyadic [of 79 2] exact_dyadic [of 81 2] by simp
  moreover have "encl (D (3 / 2)) (3 / 2) (3 / 2)"
    using exact_dyadic [of 3 1] by (simp add: encl_exact)
  ultimately show ?thesis
    unfolding step_load_default
    by (rule encl_times) (use exact_dyadic [of 59 1] exact_dyadic [of 61 1] in simp_all)
qed

text \<open>The influence of a crack is moderate at every depth.\<close>

lemma clamped_encl: "encl (std_min (D (9 / 10)) (std_max 0 x)) 0 1"
proof -
  obtain r where r: "D (9 / 10) = D r" "exact r" "0 \<le> r" "r \<le> 1"
    using encl_D [of 0 1 "9 / 10"] by (auto elim: enclE)
  then show ?thesis
    by (cases x) (auto simp: std_min_def std_max_def encl_def)
qed

lemma influence_polynomial:
  assumes "0 < a" and "0 < h"
  defines "y \<equiv> std_min (D (9 / 10)) (std_max 0 (a / h))"
  shows "crack_influence_factor new_bending_test a h = D (112 / 100) + D (- 23 / 100) * y + D (106 / 10) * y * y
      + D (- 217 / 10) * y * y * y + D (304 / 10) * y * y * y * y"
  using assms(1,2) [THEN dless_not_sym] by (simp add: crack_influence_factor_def new_bending_test_def Let_def y_def numeral_eq_Suc)

lemma influence_encl: "encl (crack_influence_factor new_bending_test a h) (- 22) 44"
proof (cases "a \<le> 0 \<or> h \<le> 0")
  case True
  then show ?thesis
    using encl_exact [of 1] by (auto simp: crack_influence_factor_def encl_def)
next
  case False
  define y where "y = std_min (D (9 / 10)) (std_max 0 (a / h))"
  have y: "encl y 0 1"
    unfolding y_def by (rule clamped_encl)
  note one = encl_times [OF y y, of 0 1]
  have c: "encl (D (112 / 100)) 1 2" "encl (D (- 23 / 100)) (- 1) 0" "encl (D (106 / 10)) 0 11"
      "encl (D (- 217 / 10)) (- 22) 0" "encl (D (304 / 10)) 0 31"
    by (rule encl_D; simp)+
  have "encl (D (- 23 / 100) * y) (- 1) 0"
    by (rule encl_times [OF c(2) y]) simp_all
  with c(1) have s1: "encl (D (112 / 100) + D (- 23 / 100) * y) 0 2"
    by (rule encl_plus) simp_all
  have "encl (D (106 / 10) * y) 0 11"
    by (rule encl_times [OF c(3) y]) simp_all
  then have "encl (D (106 / 10) * y * y) 0 11"
    by (rule encl_times [OF _ y]) simp_all
  with s1 have s2: "encl (D (112 / 100) + D (- 23 / 100) * y + D (106 / 10) * y * y) 0 13"
    by (rule encl_plus) simp_all
  have "encl (D (- 217 / 10) * y) (- 22) 0"
    by (rule encl_times [OF c(4) y]) simp_all
  then have "encl (D (- 217 / 10) * y * y) (- 22) 0"
    by (rule encl_times [OF _ y]) simp_all
  then have "encl (D (- 217 / 10) * y * y * y) (- 22) 0"
    by (rule encl_times [OF _ y]) simp_all
  with s2 have s3: "encl (D (112 / 100) + D (- 23 / 100) * y + D (106 / 10) * y * y + D (- 217 / 10) * y * y * y) (- 22) 13"
    by (rule encl_plus) simp_all
  have "encl (D (304 / 10) * y) 0 31"
    by (rule encl_times [OF c(5) y]) simp_all
  then have "encl (D (304 / 10) * y * y) 0 31"
    by (rule encl_times [OF _ y]) simp_all
  then have "encl (D (304 / 10) * y * y * y) 0 31"
    by (rule encl_times [OF _ y]) simp_all
  then have "encl (D (304 / 10) * y * y * y * y) 0 31"
    by (rule encl_times [OF _ y]) simp_all
  with s3 have "encl (D (112 / 100) + D (- 23 / 100) * y + D (106 / 10) * y * y + D (- 217 / 10) * y * y * y
      + D (304 / 10) * y * y * y * y) (- 22) 44"
    by (rule encl_plus) simp_all
  moreover have "crack_influence_factor new_bending_test a h = D (112 / 100) + D (- 23 / 100) * y + D (106 / 10) * y * y
      + D (- 217 / 10) * y * y * y + D (304 / 10) * y * y * y * y"
    using False by (simp add: crack_influence_factor_def new_bending_test_def Let_def y_def numeral_eq_Suc)
  ultimately show ?thesis
    by simp
qed

text \<open>The damage of an element, and the bond across its crack, while the specimen is fresh.\<close>

definition moderate :: "bending_element \<Rightarrow> bool" where
  "moderate e \<longleftrightarrow> be_has_crack e \<longrightarrow> encl (be_damage e) 0 (1 / 32) \<and>
     (be_is_repaired e \<longrightarrow> encl (be_repair_bonding_strength e) 0 1000)"

lemma exact_32 [simp]: "exact (1 / 32)"
  using exact_dyadic [of 1 5] by simp

lemma factor_encl:
  assumes "encl d 0 (1 / 32)"
  shows "encl (std_max (D 1 + crack_influence_factor new_bending_test a h * dsqrt (std_max (std_min (D 1) d) 0)) (D 1)) 1 64"
proof -
  have "encl (std_max (std_min (D 1) d) 0) 0 (1 * 1)"
    by (intro encl_std_max [where a = 0 and b = 1 and c = 0 and d = 0] encl_std_min [OF encl_exact assms])
      (simp_all add: encl_def)
  then have "encl (dsqrt (std_max (std_min (D 1) d) 0)) 0 1"
    by (rule encl_dsqrt) simp_all
  then have "encl (crack_influence_factor new_bending_test a h * dsqrt (std_max (std_min (D 1) d) 0)) (- 22) 44"
    by (rule encl_times [OF influence_encl]) simp_all
  then have "encl (D 1 + crack_influence_factor new_bending_test a h * dsqrt (std_max (std_min (D 1) d) 0)) (- 21) 45"
    by (rule encl_plus [OF encl_exact [OF exact_one]]) simp_all
  then show ?thesis
    by (rule encl_std_max [OF _ encl_exact [OF exact_one]]) simp_all
qed

lemma bond_encl:
  assumes "encl d 0 (1 / 32)" and "encl b 0 1000"
  shows "encl (D 120000000 * (D 1 - d) + megapascals b * d) 100000000 200000000"
    and "encl (D 120000000 * (D 1 - d) + megapascals b * d * D (93 / 100)) 100000000 200000000"
proof -
  have e31: "exact (31 / 32)" and e120: "encl (D 120000000) 120000000 120000000"
    using exact_dyadic [of 31 5] by (simp_all add: encl_exact)
  have "encl (D 1 - d) (31 / 32) 1"
    by (rule encl_minus [OF encl_exact [OF exact_one] assms(1)]) (simp_all add: e31)
  then have s: "encl (D 120000000 * (D 1 - d)) 110000000 120000000"
    by (rule encl_times [OF e120]) simp_all
  have "encl (megapascals b) 0 1000000000"
    unfolding megapascals_def by (rule encl_times [OF assms(2) encl_exact [of "10 ^ 6"]]) simp_all
  then have m: "encl (megapascals b * d) 0 31250000"
    by (rule encl_times [OF _ assms(1)]) simp_all
  show "encl (D 120000000 * (D 1 - d) + megapascals b * d) 100000000 200000000"
    by (rule encl_plus [OF s m]) simp_all
  have "encl (D (93 / 100)) 0 1"
    by (rule encl_D) simp_all
  with m have "encl (megapascals b * d * D (93 / 100)) 0 31250000"
    by (rule encl_times) simp_all
  then show "encl (D 120000000 * (D 1 - d) + megapascals b * d * D (93 / 100)) 100000000 200000000"
    by (rule encl_plus [OF s]) simp_all
qed

lemma strength_over_encl: "encl s 1 88 \<Longrightarrow> encl (D 120000000 / s) 1000000 120000000"
  by (rule encl_divide [OF encl_exact [of 120000000]], simp, assumption) simp_all

lemma element_strength_encl:
  assumes "moderate e" and "be_has_crack e"
  shows "encl (element_strength new_bending_test e) 1000000 200000000"
proof (cases "be_is_repaired e")
  case True
  have "encl (D 120000000 * (D 1 - be_damage e) + megapascals (be_repair_bonding_strength e) * be_damage e * D (93 / 100))
      1000000 200000000"
    by (rule encl_weaken [OF bond_encl(2)]) (use assms True in \<open>simp_all add: moderate_def\<close>)
  then show ?thesis
    using True by (simp add: element_strength_def default_strength tc_ratio)
next
  case False
  have "encl (std_max (D 1 + crack_influence_factor new_bending_test (be_damage e * millimetres (D 5)) (millimetres (D 5))
      * dsqrt (std_max (std_min (D 1) (be_damage e)) 0)) (D 1)) 1 88"
    by (rule encl_weaken [OF factor_encl]) (use assms in \<open>simp_all add: moderate_def\<close>)
  from strength_over_encl [OF this] show ?thesis
    using False by (simp add: element_strength_def default_strength Let_def tc_thickness) (erule encl_weaken, simp_all)
qed

text \<open>Without a load nothing happens to an element.\<close>

lemma no_moment:
  assumes "i < 100"
  shows "bending_moment default_bending_config 100 0 i = 0"
proof -
  have "encl (of_i (int i)) 0 128"
    unfolding of_i_def using assms by (intro encl_D) simp_all
  moreover have "encl (D 40 / D 99) 0 1"
    by (rule encl_divide [OF encl_exact encl_exact]) simp_all
  ultimately have x: "encl (of_i (int i) * (D 40 / D 99)) 0 128"
    by (rule encl_times) simp_all
  have y: "encl (D 40 - of_i (int i) * (D 40 / D 99)) (- 128) 64"
    by (rule encl_minus [OF encl_exact x]) simp_all
  show ?thesis
    using x [THEN encl_finite] y [THEN encl_finite] D_divide [of 0 2]
    by (simp add: bending_moment_def default_bending_config_def of_i_def Let_def)
qed

lemma no_stress: "interpolate_stress y (- D 5 / D 2) (D 5 / D 2) 0 (moment_of_inertia default_bending_config) = 0" if "isfinite y"
proof -
  have "exact (5 / 2)"
    using exact_dyadic [of 5 1] by simp
  then have "isfinite (y - (- D 5 / D 2 + D 5 / D 2) / D 2)"
    using that D_divide [of 0 2] by simp
  moreover have "0 / moment_of_inertia default_bending_config = 0"
    using inertia_encl D_divide [of 0] by (auto elim!: enclE)
  ultimately show ?thesis
    by (simp add: interpolate_stress_def Let_def)
qed

definition at_rest :: "bending_element \<Rightarrow> bending_element" where
  "at_rest e = e\<lparr>be_stress := replicate 6 0, be_strain := replicate 6 0\<rparr>"

lemma at_rest_eq: "at_rest e = e\<lparr>be_stress := [0, 0, 0, 0, 0, 0], be_strain := [0, 0, 0, 0, 0, 0]\<rparr>"
  by (simp add: at_rest_def numeral_eq_Suc)

lemma at_rest_simps [simp]:
  "be_has_crack (at_rest e) = be_has_crack e" "moderate (at_rest e) = moderate e" "element_stress (at_rest e) = 0"
  by (simp_all add: at_rest_def moderate_def element_stress_def std_max_def numeral_eq_Suc)

lemma allowed_not_negative:
  assumes "moderate e" and "be_has_crack e"
  shows "\<not> (if be_is_repaired e
      then D 120000000 * (D 1 - be_damage e) + megapascals (be_repair_bonding_strength e) * be_damage e
      else D 120000000) /
    std_max (D 1 + crack_influence_factor new_bending_test a h * dsqrt (std_max (std_min (D 1) (be_damage e)) 0)) (D 1) < 0"
    (is "\<not> ?s / ?f < 0")
proof -
  have d: "encl (be_damage e) 0 (1 / 32)"
    using assms by (simp add: moderate_def)
  have "encl ?s 100000000 200000000"
  proof (cases "be_is_repaired e")
    case True
    then show ?thesis
      using bond_encl(1) [OF d, of "be_repair_bonding_strength e"] assms by (simp add: moderate_def)
  qed (simp add: encl_def)
  then have "encl (?s / ?f) 1 200000000"
    by (rule encl_divide [OF _ factor_encl [OF d]]) simp_all
  then show ?thesis
    using encl_pos dless_not_sym dless_imp_le by fastforce
qed

lemma unloaded_element:
  assumes "moderate e"
  shows "load_element new_bending_test 0 e = at_rest e"
proof -
  have five: "exact (5 / 2)"
    using exact_dyadic [of 5 1] by simp
  have "interpolate_stress (D 5 / D 2) (- D 5 / D 2) (D 5 / D 2) 0 (moment_of_inertia default_bending_config) = 0"
      "interpolate_stress (- D 5 / D 2) (- D 5 / D 2) (D 5 / D 2) 0 (moment_of_inertia default_bending_config) = 0"
    by (rule no_stress; simp add: five)+
  moreover have "0 / (tc_porcelain_youngs_modulus_gpa default_bending_config * D (10 ^ 9)) = 0"
    using D_divide [of 0 70000000000] by (simp add: default_bending_config_def)
  moreover note allowed = allowed_not_negative [OF assms, of "be_damage e * D 5 * D (1 / 10 ^ 3)" "millimetres (D 5)"]
  ultimately show ?thesis
    unfolding load_element_def fresh_config tc_thickness default_strength Let_def split_beta
    using allowed by (cases "be_has_crack e") (simp_all only: if_True if_False abs_special fst_conv snd_conv at_rest_eq)
qed

lemma damage_at_rest:
  assumes "moderate e"
  shows "damage_element new_bending_test (at_rest e) = at_rest e"
proof -
  have "0 < (if be_has_crack e then
      let h = millimetres (D 5); a = be_damage e * h; f = crack_influence_factor new_bending_test a h;
          sigma_eff_factor = dsqrt (M_PI * std_max (a * D (10 ^ 3)) (D (1 / 10 ^ 9))) * f
      in if be_is_repaired e then D 120000000 * (D 1 - be_damage e)
           + megapascals (be_repair_bonding_strength e) * be_damage e * D (93 / 100)
         else D 120000000 / std_max sigma_eff_factor (D 1) else D 120000000)" (is "0 < ?s")
  proof (cases "be_has_crack e \<and> \<not> be_is_repaired e")
    case True
    define a where "a = be_damage e * millimetres (D 5)"
    have d: "encl (be_damage e) 0 (1 / 32)"
      using assms True by (simp add: moderate_def)
    have pi: "encl M_PI 3 4"
      unfolding M_PI_def by (rule encl_D) simp_all
    have "encl (millimetres (D 5)) 0 1"
      unfolding millimetres_def by (rule encl_times [OF encl_exact encl_D [of 0 "1 / 32"]]) simp_all
    with d have "encl a 0 (1 / 32)"
      unfolding a_def by (rule encl_times) simp_all
    then have "encl (a * D (10 ^ 3)) 0 32"
      by (rule encl_times [OF _ encl_exact [of "10 ^ 3"]]) simp_all
    then have "encl (std_max (a * D (10 ^ 3)) (D (1 / 10 ^ 9))) 0 32"
      by (rule encl_std_max [OF _ encl_D [of 0 1]]) simp_all
    then have "encl (M_PI * std_max (a * D (10 ^ 3)) (D (1 / 10 ^ 9))) 0 128"
      by (rule encl_times [OF pi]) simp_all
    then have "encl (M_PI * std_max (a * D (10 ^ 3)) (D (1 / 10 ^ 9))) 0 (16 * 16)"
      by (rule encl_weaken) simp_all
    then have "encl (dsqrt (M_PI * std_max (a * D (10 ^ 3)) (D (1 / 10 ^ 9)))) 0 16"
      by (rule encl_dsqrt) simp_all
    then have "encl (dsqrt (M_PI * std_max (a * D (10 ^ 3)) (D (1 / 10 ^ 9)))
        * crack_influence_factor new_bending_test a (millimetres (D 5))) (- 352) 704"
      by (rule encl_times [OF _ influence_encl]) simp_all
    then have "encl (std_max (dsqrt (M_PI * std_max (a * D (10 ^ 3)) (D (1 / 10 ^ 9)))
        * crack_influence_factor new_bending_test a (millimetres (D 5))) (D 1)) 1 704"
      by (rule encl_std_max [OF _ encl_exact [OF exact_one]]) simp_all
    from encl_divide [OF encl_exact [of 120000000] this, of 1 120000000] encl_pos
    show ?thesis
      using True by (fastforce simp: a_def Let_def)
  next
    case False
    show ?thesis
    proof (cases "be_has_crack e")
      case True
      have "encl (D 120000000 * (D 1 - be_damage e) + megapascals (be_repair_bonding_strength e) * be_damage e * D (93 / 100))
          100000000 200000000"
        by (rule bond_encl(2)) (use assms True False in \<open>simp_all add: moderate_def\<close>)
      from encl_pos [OF this] show ?thesis
        using True False by (simp add: Let_def)
    qed simp
  qed
  then have "\<not> ?s < 0"
    using dless_not_sym dless_imp_le by blast
  moreover have rest: "be_damage (at_rest e) = be_damage e" "be_is_repaired (at_rest e) = be_is_repaired e"
    "be_repair_bonding_strength (at_rest e) = be_repair_bonding_strength e"
    by (simp_all add: at_rest_def)
  ultimately show ?thesis
    by (simp only: damage_element_def Let_def fresh_config tc_thickness tc_ratio default_strength at_rest_simps rest if_False)
qed

lemma first_step_at_rest:
  assumes "list_all moderate mesh" and "length mesh = 100"
  shows "update_damage new_bending_test (apply_four_point_loads new_bending_test 0 mesh) = map at_rest mesh"
proof (rule nth_equalityI)
  fix i
  assume "i < length (update_damage new_bending_test (apply_four_point_loads new_bending_test 0 mesh))"
  then have i: "i < 100"
    by (simp add: update_damage_def apply_four_point_loads_def compute_bending_moment_distribution_def assms(2))
  have "moderate (mesh ! i)"
    using assms i by (simp add: list_all_length)
  then show "update_damage new_bending_test (apply_four_point_loads new_bending_test 0 mesh) ! i = map at_rest mesh ! i"
    using i by (simp add: update_damage_def apply_four_point_loads_def compute_bending_moment_distribution_def assms(2)
        no_moment unloaded_element damage_at_rest)
qed (simp add: update_damage_def apply_four_point_loads_def compute_bending_moment_distribution_def assms(2))

lemma peak_at_rest: "peak_stress (map at_rest mesh) = 0"
  unfolding peak_stress_def by (induction mesh) (simp_all add: std_max_def)

lemma limit_positive:
  assumes "list_all moderate mesh"
  shows "0 < strength_limit new_bending_test mesh"
proof -
  have "0 < a \<Longrightarrow> 0 < foldl (\<lambda>m e. if be_has_crack e then std_min m (element_strength new_bending_test e) else m) a mesh" for a
    using assms
  proof (induction mesh arbitrary: a)
    case (Cons e mesh)
    have "0 < std_min a (element_strength new_bending_test e)" if "be_has_crack e"
      using Cons.prems that encl_pos [OF element_strength_encl] by (auto simp: std_min_def)
    then show ?case
      using Cons by simp
  qed simp
  then show ?thesis
    by (simp add: strength_limit_def default_strength)
qed

lemma limit_at_most_strength: "strength_limit new_bending_test mesh \<le> D 120000000"
proof -
  have "a \<le> D 120000000 \<Longrightarrow>
    foldl (\<lambda>m e. if be_has_crack e then std_min m (element_strength new_bending_test e) else m) a mesh \<le> D 120000000" for a
  proof (induction mesh arbitrary: a)
    case (Cons e mesh)
    then show ?case
      by (auto simp: std_min_def dest: dless_imp_le dle_trans)
  qed simp
  then show ?thesis
    by (simp add: strength_limit_def default_strength)
qed

lemma peak_at_least:
  assumes "e \<in> set mesh" and "x \<le> element_stress e"
  shows "x \<le> peak_stress mesh \<or> x \<le> 0"
proof -
  have ge: "a \<noteq> NAN \<Longrightarrow> a \<le> foldl (\<lambda>m e. std_max m (element_stress e)) a es" for a es
  proof (induction es arbitrary: a)
    case (Cons e es)
    have "std_max a (element_stress e) \<noteq> NAN" "a \<le> std_max a (element_stress e)"
      using Cons.prems std_max_left by (auto simp: std_max_def)
    then show ?case
      using Cons.IH [of "std_max a (element_stress e)"] dle_trans [of a "std_max a (element_stress e)"] by simp
  qed (simp add: dle_refl)
  obtain es fs where split: "mesh = es @ e # fs"
    using assms(1) by (auto dest: split_list)
  let ?a = "peak_stress es"
  have a: "?a \<noteq> NAN"
    using ge [of 0 es] dle_not_nan unfolding peak_stress_def by auto
  have "element_stress e \<le> std_max ?a (element_stress e)" "std_max ?a (element_stress e) \<noteq> NAN"
    using std_max_ge [of "element_stress e" ?a] a assms(2) dle_not_nan by auto
  then have "x \<le> peak_stress mesh"
    using ge [of "std_max ?a (element_stress e)" fs] assms(2) by (auto simp: split peak_stress_def intro: dle_trans)
  then show ?thesis ..
qed

lemma le_std_max: "x \<le> a \<Longrightarrow> x \<le> std_max a b"
  using std_max_left [of a b] dle_not_nan [of x a] dle_trans [of x a "std_max a b"] by simp

text \<open>An element in the middle without a crack, under the load of the first step.\<close>

lemma middle_moment_encl:
  assumes "encl F 14 31"
  shows "encl (bending_moment default_bending_config 100 F 70) 70 155"
proof -
  have e: "exact (31 / 2)" "exact (13 / 32)" "exact (51 / 128)"
    using exact_dyadic [of 31 1] exact_dyadic [of 13 5] exact_dyadic [of 51 7] by simp_all
  have "encl (D 40 / D 99) (51 / 128) (13 / 32)" "encl (of_i 70) 70 70"
    by (simp_all add: encl_D e of_i_def encl_exact)
  then have x: "encl (of_i 70 * (D 40 / D 99)) 25 29"
    by (intro encl_times [of "of_i 70" 70 70 _ "51 / 128" "13 / 32"]) simp_all
  have "\<not> of_i 70 * (D 40 / D 99) < D 10" "of_i 70 * (D 40 / D 99) \<le> D 30"
    using x by (auto elim!: enclE)
  moreover have "encl (F / D 2) 7 (31 / 2)"
    by (rule encl_divide [OF assms encl_exact [of 2]]) (simp_all add: e)
  then have "encl (F / D 2 * D 10) 70 155"
    by (rule encl_times [OF _ encl_exact [of 10]]) simp_all
  ultimately show ?thesis
    by (simp add: bending_moment_def default_bending_config_def Let_def of_i_def)
qed

lemma middle_stress:
  assumes "encl M 70 155"
  shows "D 100000000000 \<le> interpolate_stress (D 5 / D 2) (- D 5 / D 2) (D 5 / D 2) M (moment_of_inertia default_bending_config)"
proof -
  have five: "exact (5 / 2)"
    using exact_dyadic [of 5 1] by simp
  then have y: "D 5 / D 2 - (- D 5 / D 2 + D 5 / D 2) / D 2 = D (5 / 2)"
    using D_divide [of 0 2] by simp
  have big: "\<not> moment_of_inertia default_bending_config < D (1 / 10 ^ 18)"
    using encl_less [OF encl_D [of 0 "1 / 2 ^ 40"] inertia_encl, of "1 / 10 ^ 18"] exact_dyadic [of 1 40]
    by (auto dest: dless_asym)
  then have s: "interpolate_stress (D 5 / D 2) (- D 5 / D 2) (D 5 / D 2) M (moment_of_inertia default_bending_config)
      = M * D (5 / 2) / moment_of_inertia default_bending_config"
    using big by (simp only: interpolate_stress_def Let_def y if_False)
  have "encl (M * D (5 / 2)) 175 388"
    by (rule encl_times [OF assms encl_exact [OF five]]) simp_all
  then have "encl (M * D (5 / 2) / moment_of_inertia default_bending_config) 100000000000 4000000000000"
    by (rule encl_divide [OF _ inertia_encl]) simp_all
  then show ?thesis
    unfolding s by (auto elim!: enclE)
qed

lemma second_step_breaks:
  assumes "length mesh = 100" and "\<not> be_has_crack (mesh ! 70)" and "encl F 14 31"
  defines "mesh' \<equiv> update_damage new_bending_test (apply_four_point_loads new_bending_test F mesh)"
  shows "strength_limit new_bending_test mesh' \<le> peak_stress mesh'"
proof -
  let ?e = "load_element new_bending_test (bending_moment default_bending_config 100 F 70) (mesh ! 70)"
  have e: "mesh' ! 70 = damage_element new_bending_test ?e" and len: "length mesh' = 100"
    by (simp_all add: mesh'_def update_damage_def apply_four_point_loads_def compute_bending_moment_distribution_def assms(1))
  let ?s = "interpolate_stress (D 5 / D 2) (- D 5 / D 2) (D 5 / D 2) (bending_moment default_bending_config 100 F 70)
      (moment_of_inertia default_bending_config)"
  have s: "D 100000000000 \<le> ?s"
    using middle_stress [OF middle_moment_encl [OF assms(3)]] .
  have "be_stress ?e ! 0 = ?s"
    using assms(2) by (simp add: load_element_def Let_def tc_thickness split_beta)
  moreover have "be_stress (damage_element new_bending_test ?e) = be_stress ?e"
    by (simp add: damage_element_def Let_def)
  ultimately have "element_stress (mesh' ! 70) = std_max \<bar>?s\<bar> \<bar>be_stress ?e ! 1\<bar>"
    by (simp add: e element_stress_def)
  moreover have "D 100000000000 \<le> \<bar>?s\<bar>"
    using s by (cases ?s) auto
  ultimately have "D 100000000000 \<le> element_stress (mesh' ! 70)"
    by (simp add: le_std_max)
  then have "D 100000000000 \<le> peak_stress mesh'"
    using peak_at_least [of "mesh' ! 70" mesh' "D 100000000000"] len by simp
  moreover have "D 120000000 \<le> D 100000000000"
    by simp
  ultimately show ?thesis
    using limit_at_most_strength dle_trans by blast
qed

lemma encl_abs_symmetric: "encl x (- u) u \<Longrightarrow> encl \<bar>x\<bar> 0 u"
proof (elim enclE)
  fix r
  assume r: "x = D r" "exact r" "- u \<le> r" "r \<le> u"
  then have "exact \<bar>r\<bar>"
    by (simp add: abs_if)
  then show ?thesis
    using r by (simp add: encl_def)
qed

text \<open>The fresh mesh.\<close>

lemma positive_at_most: "0 < x \<Longrightarrow> x \<le> D u \<Longrightarrow> exact u \<Longrightarrow> encl x 0 u"
  by (cases x) (auto simp: encl_def)

lemma millimetres_positive: "0 < millimetres x \<Longrightarrow> 0 < x"
proof (cases x)
  fix r
  assume a: "0 < millimetres x" and r: "x = D r" "exact r"
  obtain q where q: "D (1 / 10 ^ 3) = D q" "exact q" "0 \<le> q"
    using encl_D [of 0 1 "1 / 10 ^ 3"] by (auto elim: enclE)
  have "r \<le> 0 \<Longrightarrow> D (r * q) \<le> 0"
    using q(3) D_mono [of "r * q" 0] by (simp add: mult_nonpos_nonneg)
  then show ?thesis
    using a q r dless_not_sym by (force simp: millimetres_def)
next
  assume a: "0 < millimetres x" and x: "x = NINF"
  obtain q where q: "D (1 / 10 ^ 3) = D q" "exact q" "0 < q"
    using encl_D [of "1 / 2 ^ 20" 1 "1 / 10 ^ 3"] exact_dyadic [of 1 20] by (auto elim: enclE)
  then have "NINF * D q = NINF"
    by simp
  then show ?thesis
    using a x q(1) by (simp add: millimetres_def)
qed (simp_all add: millimetres_def)

lemma step_encl: "encl (D 40 / of_i 100) (3 / 8) (1 / 2)"
  using exact_dyadic [of 3 3] by (simp add: of_i_def encl_D)

lemma mesh_moderate:
  assumes "ci_max_depth crack \<le> D 100" and "bonding_of material \<le> D 1000"
    and "crack_span default_bending_config crack = (center, half)" and "encl center 0 20" and "encl half 0 7" and "i < 100"
  shows "moderate (mesh_element default_bending_config crack material repaired i)"
proof (cases "0 < millimetres (ci_max_depth crack)")
  case True
  define dist where "dist = \<bar>(of_i (int i) + D (1 / 2)) * (D 40 / of_i 100) - center\<bar>"
  define reach where "reach = half + D 40 / of_i 100"
  have depth: "encl (ci_max_depth crack) 0 100"
    using positive_at_most [OF millimetres_positive [OF True] assms(1)] by simp
  have "encl (D (1 / 10 ^ 3)) 0 (5 / 2 ^ 12)"
    using exact_dyadic [of 5 12] by (simp add: encl_D)
  then have "encl (millimetres (ci_max_depth crack)) 0 (1 / 8)"
    unfolding millimetres_def by (rule encl_times [OF depth]) (use exact_dyadic [of 1 3] in simp_all)
  then have ratio: "encl (millimetres (ci_max_depth crack) / D 5) 0 (1 / 32)"
    by (rule encl_divide [OF _ encl_exact [of 5]]) simp_all
  have "encl (of_i (int i)) 0 100"
    unfolding of_i_def using assms(6) by (intro encl_D) simp_all
  then have "encl (of_i (int i) + D (1 / 2)) 0 101"
    by (rule encl_plus [OF _ encl_exact [OF exact_half]]) simp_all
  then have "encl ((of_i (int i) + D (1 / 2)) * (D 40 / of_i 100)) 0 64"
    by (rule encl_times [OF _ step_encl]) simp_all
  then have "encl ((of_i (int i) + D (1 / 2)) * (D 40 / of_i 100) - center) (- 64) 64"
    by (rule encl_minus [OF _ assms(4)]) simp_all
  then have dist: "encl dist 0 64"
    unfolding dist_def by (rule encl_abs_symmetric)
  have "encl (- dist) (- 64) 0"
    using encl_uminus [OF dist] by simp
  then have num: "encl (- dist * dist) (- 4096) 0"
    by (rule encl_times [OF _ dist]) simp_all
  have e: "exact (3 / 8)" "exact (3 / 4)" "exact (9 / 32)"
    using exact_dyadic [of 3 3] exact_dyadic [of 3 2] exact_dyadic [of 9 5] by simp_all
  have reach: "encl reach (3 / 8) 8"
    unfolding reach_def by (rule encl_plus [OF assms(5) step_encl]) (simp_all add: e)
  have "encl (D 2 * reach) (3 / 4) 16"
    by (rule encl_times [OF encl_exact reach]) (simp_all add: e)
  then have "encl (D 2 * reach * reach) (9 / 32) 128"
    by (rule encl_times [OF _ reach]) (simp_all add: e)
  with num have "encl (- dist * dist / (D 2 * reach * reach)) (- 16384) 0"
    by (rule encl_divide) simp_all
  then have "encl (dexp (- dist * dist / (D 2 * reach * reach))) 0 1"
    by (rule encl_dexp_nonpos)
  then have damage: "encl (dexp (- dist * dist / (D 2 * reach * reach)) * (millimetres (ci_max_depth crack) / D 5)) 0 (1 / 32)"
    by (rule encl_times [OF _ ratio]) simp_all
  have bond: "encl (bonding_of material * D (93 / 100)) 0 1000" if "0 < bonding_of material"
  proof -
    have "encl (D (93 / 100)) 0 1"
      by (rule encl_D) simp_all
    from encl_times [OF positive_at_most [OF that assms(2)] this] show ?thesis
      by simp
  qed
  have "tc_support_span_mm default_bending_config = D 40" "tc_mesh_elements default_bending_config = 100"
    by (simp_all add: default_bending_config_def)
  then show ?thesis
    using damage bond by (simp add: mesh_element_def moderate_def Let_def assms(3) tc_thickness tc_ratio dist_def reach_def)
next
  case False
  then show ?thesis
    by (simp add: mesh_element_def moderate_def Let_def split_beta)
qed

lemma middle_uncracked:
  assumes "crack_span default_bending_config crack = (center, half)" and "encl center 0 20" and "encl half 0 7"
  shows "\<not> be_has_crack (mesh_element default_bending_config crack material repaired 70)"
proof -
  have e: "exact (141 / 2)" "exact (15 / 2)" "exact (2867 / 1024)" "exact (451 / 16)" "exact (131 / 16)"
    using exact_dyadic [of 141 1] exact_dyadic [of 15 1] exact_dyadic [of 451 4] exact_dyadic [of 131 4] exact_dyadic [of 2867 10] by simp_all
  have f: "exact (1638 / 4096)" "exact (1640 / 4096)"
    using exact_dyadic [of 1638 12] exact_dyadic [of 1640 12] by simp_all
  then have dx: "encl (D 40 / of_i 100) (1638 / 4096) (1640 / 4096)"
    by (simp add: of_i_def encl_D)
  have "encl (of_i 70 + D (1 / 2)) (141 / 2) (141 / 2)"
    by (simp add: of_i_def encl_exact e)
  then have "encl ((of_i 70 + D (1 / 2)) * (D 40 / of_i 100)) (451 / 16) 29"
    using dx by (rule encl_times) (simp_all add: e)
  then have "encl ((of_i 70 + D (1 / 2)) * (D 40 / of_i 100) - center) 8 29"
    by (rule encl_minus [OF _ assms(2)]) simp_all
  then have dist: "encl \<bar>(of_i 70 + D (1 / 2)) * (D 40 / of_i 100) - center\<bar> 8 29"
    by (rule encl_abs(1)) simp
  have "encl (half + D 40 / of_i 100) 0 (15 / 2)"
    by (rule encl_plus [OF assms(3) dx]) (simp_all add: e)
  from encl_less [OF this dist] have "\<not> \<bar>(of_i 70 + D (1 / 2)) * (D 40 / of_i 100) - center\<bar> \<le> half + D 40 / of_i 100"
    using dless_not_sym by simp
  moreover have "tc_support_span_mm default_bending_config = D 40" "tc_mesh_elements default_bending_config = 100"
    by (simp_all add: default_bending_config_def)
  ultimately show ?thesis
    by (simp add: mesh_element_def Let_def assms(1))
qed

lemma no_displacement: "step_displacement default_bending_config 0 = 0"
proof -
  let ?L1 = "millimetres (D 40)" and ?L2 = "millimetres (D 20)" and ?I = "moment_of_inertia default_bending_config"
  define a where "a = (?L1 - ?L2) / D 2"
  have L1: "encl ?L1 0 1"
    by (rule encl_weaken [OF span_encl(1)]) simp_all
  have "encl (?L1 - ?L2) 0 1"
    by (rule encl_weaken [OF arm_encl]) simp_all
  then have a: "encl a 0 1"
    unfolding a_def by (rule encl_divide [OF _ encl_exact [of 2]]) simp_all
  have "encl (D 3 * ?L1) 0 3"
    by (rule encl_times [OF encl_exact L1]) simp_all
  then have l: "encl (D 3 * ?L1 * ?L1) 0 3"
    by (rule encl_times [OF _ L1]) simp_all
  have "encl (D 4 * a) 0 4"
    by (rule encl_times [OF encl_exact a]) simp_all
  then have "encl (D 4 * a * a) 0 4"
    by (rule encl_times [OF _ a]) simp_all
  with l have "encl (D 3 * ?L1 * ?L1 - D 4 * a * a) (- 4) 3"
    by (rule encl_minus) simp_all
  moreover have "encl (D 1680000000000 * ?I) 100 200"
    by (rule encl_times [OF encl_exact inertia_encl]) simp_all
  then have "encl (D 24 * (D 70 * D (10 ^ 9)) * ?I) 100 200"
    by simp
  then have "0 / (D 24 * (D 70 * D (10 ^ 9)) * ?I) = 0"
    using D_divide [of 0] by (auto elim!: enclE)
  ultimately show ?thesis
    using a [THEN encl_finite] encl_finite
    by (auto simp: step_displacement_def default_bending_config_def Let_def a_def)
qed

lemma default_specimen_loads:
  assumes "ci_max_depth crack \<le> D 100" and "bonding_of material \<le> D 1000"
    and "crack_span default_bending_config crack = (center, half)" and "encl center 0 20" and "encl half 0 7"
    and "simulate_bending new_bending_test now pid cid mid crack material repaired = Inr (r, t)"
  shows "bt_original_strength_mpa r = D 120
    \<and> (\<exists>F. bt_load r = [0, F] \<and> bt_disp r = [0, step_displacement default_bending_config F]
      \<and> D 29 < F \<and> F < D 31 \<and> bd_failure_load_n t = F)"
proof -
  define mesh where "mesh = map (mesh_element default_bending_config crack material repaired) [0..<100]"
  define F where "F = step_load default_bending_config 1"
  define mesh' where "mesh' = update_damage new_bending_test (apply_four_point_loads new_bending_test F (map at_rest mesh))"
  have F: "encl F (59 / 2) (61 / 2)"
    unfolding F_def by (rule first_load_encl)
  have mod: "list_all moderate mesh" and len: "length mesh = 100"
    using mesh_moderate [OF assms(1-5)] by (auto simp: mesh_def list_all_iff)
  have "\<not> be_has_crack (map at_rest mesh ! 70)"
    using middle_uncracked [OF assms(3-5)] by (simp add: mesh_def)
  then have breaks: "strength_limit new_bending_test mesh' \<le> peak_stress mesh'"
    unfolding mesh'_def by (intro second_step_breaks encl_weaken [OF F]) (simp_all add: len)
  have "0 < strength_limit new_bending_test (map at_rest mesh)"
    using mod by (intro limit_positive) (simp add: list_all_iff)
  then have holds: "\<not> strength_limit new_bending_test (map at_rest mesh) \<le> 0"
    by (rule dless_not_sym)
  have steps: "[0..tc_load_steps default_bending_config] = 0 # 1 # [2..50]"
    by (simp add: default_bending_config_def upto_rec1)
  have flat: "\<not> tc_max_displacement_mm default_bending_config < 0"
    by (simp add: default_bending_config_def)
  have "run_bending_steps new_bending_test [0..tc_load_steps default_bending_config] (mesh, [], []) =
      ((mesh', [0, F], [0, step_displacement default_bending_config F]), F)"
    using breaks holds flat unfolding steps
    by (simp add: Let_def no_load no_displacement first_step_at_rest [OF mod len] peak_at_rest F_def [symmetric] mesh'_def [symmetric])
  moreover have "\<not> F \<le> 0"
    using F by (auto elim!: enclE)
  ultimately have "run_load_steps new_bending_test mesh = ((mesh', [0, F], [0, step_displacement default_bending_config F]), F)"
    by (simp add: run_load_steps_def)
  moreover have "build_mesh default_bending_config crack material repaired = Inr mesh"
    by (simp add: build_mesh_def mesh_def default_bending_config_def)
  ultimately have "bt_load r = [0, F]" "bt_disp r = [0, step_displacement default_bending_config F]"
    "bd_failure_load_n t = F" "bt_original_strength_mpa r = D 120"
    using assms(6) by (auto simp: simulate_bending_def Let_def bending_strengths_def default_bending_config_def)
  moreover have "D 29 < F \<and> F < D 31"
    using F by (auto elim!: enclE)
  ultimately show ?thesis
    by blast
qed



end
