(* ===== verification/Worker_Module.thy ===== *)
theory Worker_Module
  imports Ipc_Channel Module_Interface Thread_Pool
begin

section \<open>What the two solver modules share (fem_stress_module.cpp, strength_module.cpp)\<close>

text \<open>
  Both modules run a request on a thread of their own, whose handle stays in a \<open>unique_ptr\<close>, and
  can forward requests over a channel to another process. The shell holds the members both classes
  declare; each module extends it. A call that ends in \<open>std::terminate\<close> is \<open>Std_terminate\<close>. The
  table of requests that wait for an answer is a global of each file. The operating system grants
  at most \<open>limit\<close> threads.
\<close>

datatype 'a outcome = Returned 'a | Std_terminate

record worker_shell =
  ws_status :: module_status
  ws_cancelled :: bool
  ws_worker :: bool
  ws_pool :: "nat option"
  ws_use_external :: bool
  ws_channel :: "nat option"
  ws_next_request :: int

definition new_shell :: worker_shell where
  "new_shell = \<lparr>ws_status = UNINITIALIZED, ws_cancelled = False, ws_worker = False, ws_pool = None,
     ws_use_external = False, ws_channel = None, ws_next_request = 1\<rparr>"

text \<open>
  \<open>execute\<close> assigns a new thread to the handle. A handle that still owns a thread, running or
  finished, is destroyed by the assignment while it is joinable.
\<close>

definition shell_execute :: "'a worker_shell_scheme \<Rightarrow> (bool \<times> 'a worker_shell_scheme) outcome" where
  "shell_execute m =
     (if ws_status m = RUNNING then Returned (False, m)
      else if ws_worker m then Std_terminate
      else Returned (True, m\<lparr>ws_cancelled := False, ws_status := RUNNING, ws_worker := True\<rparr>))"

text \<open>The end of \<open>run_async\<close>: the status is written, then the callback is called.\<close>

definition shell_finish :: "'a worker_shell_scheme \<Rightarrow> 'a worker_shell_scheme" where
  "shell_finish m = m\<lparr>ws_status := (if ws_cancelled m then IDLE else COMPLETED)\<rparr>"

definition shell_cancel :: "'a worker_shell_scheme \<Rightarrow> 'a worker_shell_scheme" where
  "shell_cancel m = m\<lparr>ws_cancelled := True, ws_status := IDLE\<rparr>"

text \<open>\<open>shutdown\<close> cancels, waits for the thread, and gives up the pool and the channel.\<close>

definition shell_shutdown :: "'a worker_shell_scheme \<Rightarrow> ipc \<Rightarrow> ('a worker_shell_scheme \<times> ipc) result" where
  "shell_shutdown m w =
     and_then (case ws_channel m of None \<Rightarrow> Inr w | Some c \<Rightarrow> and_then (ipc_close c w) (ipc_destroy c)) (\<lambda>w.
       Inr ((shell_cancel m)\<lparr>ws_worker := False, ws_pool := None, ws_channel := None, ws_status := UNINITIALIZED\<rparr>, w))"

text \<open>The outcome \<open>run_async\<close> hands to its callback, and \<open>execute_sync\<close> to its caller.\<close>

definition run_result :: "(cpp_error \<Rightarrow> string) \<Rightarrow> (bool \<times> json) result \<Rightarrow> module_result result" where
  "run_result what r =
     (case r of
        Inl (UB u) \<Rightarrow> Inl (UB u)
      | Inl e \<Rightarrow> Inr (failed_result (what e))
      | Inr (ok, data) \<Rightarrow> Inr \<lparr>mo_success = ok, mo_error_message = [], mo_data = data\<rparr>)"

definition shell_execute_sync ::
  "(cpp_error \<Rightarrow> string) \<Rightarrow> ('a worker_shell_scheme \<Rightarrow> 'w \<Rightarrow> ((bool \<times> json) \<times> 'a worker_shell_scheme \<times> 'w) result) \<Rightarrow>
    'a worker_shell_scheme \<Rightarrow> 'w \<Rightarrow> (bool \<times> module_result option \<times> 'a worker_shell_scheme \<times> 'w) result"
  where
  "shell_execute_sync what compute m w =
     (if ws_status m = RUNNING then Inr (False, None, m, w)
      else let m = m\<lparr>ws_status := RUNNING, ws_cancelled := False\<rparr> in
        case compute m w of
          Inl (UB u) \<Rightarrow> Inl (UB u)
        | Inl e \<Rightarrow> Inr (False, Some (failed_result (what e)), m\<lparr>ws_status := ERROR\<rparr>, w)
        | Inr ((ok, data), m, w) \<Rightarrow>
            Inr (True, Some \<lparr>mo_success = ok, mo_error_message = [], mo_data = data\<rparr>, m\<lparr>ws_status := COMPLETED\<rparr>, w))"

text \<open>The pool: more threads than the system grants throw inside the constructor, which then
  destroys the threads it has started.\<close>

definition make_pool :: "nat \<Rightarrow> nat \<Rightarrow> int \<Rightarrow> nat outcome" where
  "make_pool limit hardware threads =
     (let n = pool_threads (nat (threads mod 2 ^ 64)) hardware in if limit < n then Std_terminate else Returned n)"

subsection \<open>The other process\<close>

definition external_process :: "nat \<Rightarrow> string \<Rightarrow> nat \<Rightarrow> ipc \<Rightarrow> (bool \<times> ipc) result" where
  "external_process c endpoint callback w =
     and_then (ipc_initialize c endpoint (ipc_create LOCAL c w)) (\<lambda>(ok, w).
       if ok then and_then (set_message_callback c (Some callback) w) (\<lambda>w. Inr (True, w)) else Inr (False, w))"

text \<open>The callback on an answer: it must be one of a request that waits, and it takes it out of the table.\<close>

definition on_answer :: "(json \<Rightarrow> 'r result) \<Rightarrow> ipc_message \<Rightarrow> int set \<Rightarrow> ('r option \<times> int set) result" where
  "on_answer decode msg pending =
     (if im_request_id msg \<in> pending then
        and_then (decode (im_payload msg)) (\<lambda>r. Inr (Some r, pending - {im_request_id msg}))
      else Inr (None, pending))"

text \<open>\<open>answer i\<close> is the message with the number \<open>i\<close> that arrives within the thirty seconds, if any. A
  request that gets none stays in the table.\<close>

definition solve_via_ipc ::
  "(json \<Rightarrow> 'r result) \<Rightarrow> (int \<Rightarrow> ipc_message option) \<Rightarrow> nat \<Rightarrow> (int \<Rightarrow> ipc_message) \<Rightarrow> 'a worker_shell_scheme \<Rightarrow>
    int set \<Rightarrow> ipc \<Rightarrow> ('r option \<times> 'a worker_shell_scheme \<times> int set \<times> ipc) result"
  where
  "solve_via_ipc decode answer c message m pending w =
     (let i = ws_next_request m; m = m\<lparr>ws_next_request := i + 1\<rparr>; pending = insert i pending in
      and_then (ipc_send c (message i) w) (\<lambda>(ok, w).
        if \<not> ok then Inr (None, m, pending - {i}, w)
        else case answer i of
          None \<Rightarrow> Inr (None, m, pending, w)
        | Some msg \<Rightarrow> (case on_answer decode msg pending of
            Inl _ \<Rightarrow> Inr (None, m, pending, w)
          | Inr (r, pending) \<Rightarrow> Inr (r, m, pending, w))))"

definition reaches_process :: "'a worker_shell_scheme \<Rightarrow> ipc \<Rightarrow> bool result" where
  "reaches_process m w =
     (if ws_use_external m then case ws_channel m of None \<Rightarrow> Inr False | Some c \<Rightarrow> is_connected c w else Inr False)"

text \<open>The message callback of a server process (process_main.cpp): whether it goes on running, and the answer it
  tries to send. The result of a refused request is empty.\<close>

definition serve ::
  "string \<Rightarrow> string \<Rightarrow> (json \<Rightarrow> 's \<Rightarrow> (bool \<times> module_result option \<times> 's) result) \<Rightarrow> nat \<Rightarrow> ipc_message \<Rightarrow> 's \<Rightarrow> ipc \<Rightarrow>
    (bool \<times> 's \<times> ipc) result"
  where
  "serve name command execute c msg s w =
     (if im_command msg = ''shutdown'' then Inr (False, s, w)
      else if im_command msg = command then
        and_then (execute (im_payload msg) s) (\<lambda>(ok, r, s).
        and_then (ipc_send c \<lparr>im_module_name = name, im_command = ''result'',
            im_payload = (case r of None \<Rightarrow> JNull | Some r \<Rightarrow> mo_data r), im_request_id = im_request_id msg, im_timestamp = 0\<rparr> w)
          (\<lambda>(sent, w). Inr (True, s, w)))
      else Inr (True, s, w))"

subsection \<open>Lemmas\<close>

lemma shell_execute_cases:
  "shell_execute m = Returned (ok, m') \<longleftrightarrow>
     ws_status m = RUNNING \<and> \<not> ok \<and> m' = m \<or>
     ws_status m \<noteq> RUNNING \<and> \<not> ws_worker m \<and> ok \<and> m' = m\<lparr>ws_cancelled := False, ws_status := RUNNING, ws_worker := True\<rparr>"
  by (auto simp: shell_execute_def)

definition shell_start :: "'i \<Rightarrow> 'a worker_shell_scheme \<Rightarrow> bool \<times> 'a worker_shell_scheme" where
  "shell_start i m = (case shell_execute m of Returned r \<Rightarrow> r | Std_terminate \<Rightarrow> (False, m))"

interpretation shell: analysis_module ws_status ws_cancelled shell_start shell_cancel shell_finish
proof unfold_locales
  show "ws_status (snd (shell_start i m)) = RUNNING \<and> \<not> ws_cancelled (snd (shell_start i m))"
    if "fst (shell_start i m)" for i :: 'i and m :: "'a worker_shell_scheme"
    using that by (auto simp: shell_start_def shell_execute_def split: if_splits)
qed (simp_all add: shell_start_def shell_execute_def shell_cancel_def shell_finish_def)

text \<open>A channel the module has created itself has no peer.\<close>

lemma external_process_unconnected:
  assumes "external_process c endpoint callback w = Inr (ok, w')"
  shows "is_connected c w' = Inr False"
  using assms by (auto simp: external_process_def channel_ops ipc_create_def new_channel_def)

end
