(* ===== verification/Strength_Module.thy ===== *)
theory Strength_Module
  imports Bending_Test Worker_Module Washburn_Module
begin

section \<open>The strength module (modules/strength_fem)\<close>

text \<open>
  The module over the simulated bending test. The solver on deal.II is compiled in only when the
  library is present: \<open>dealii\<close> is \<open>None\<close> in a build without it, and otherwise the external solver.
  Times are a parameter \<open>now\<close>.
\<close>

subsection \<open>The adapter (dealii_adapter.cpp)\<close>

datatype strength_backend = Strength_builtin | Strength_dealii

type_synonym dealii_strength =
  "(bending_test_config \<Rightarrow> crack_info \<Rightarrow> repair_material \<Rightarrow> bool \<Rightarrow> bending_test_result result) option"

record strength_adapter =
  sd_config :: bending_test_config
  sd_backend :: strength_backend
  sd_external :: bool
  sd_solver :: "bending_test option"

definition new_strength_adapter :: strength_adapter where
  "new_strength_adapter =
     \<lparr>sd_config = default_bending_config, sd_backend = Strength_builtin, sd_external = False, sd_solver = None\<rparr>"

definition strength_available :: "dealii_strength \<Rightarrow> bool" where
  "strength_available dealii \<longleftrightarrow> dealii \<noteq> None"

definition strength_adapter_initialize :: "dealii_strength \<Rightarrow> bending_test_config \<Rightarrow> strength_adapter \<Rightarrow> strength_adapter" where
  "strength_adapter_initialize dealii config a =
     a\<lparr>sd_config := config, sd_solver := Some (set_bending_config config new_bending_test),
       sd_backend := (if strength_available dealii then Strength_dealii else Strength_builtin)\<rparr>"

definition strength_solver_info :: "dealii_strength \<Rightarrow> strength_adapter \<Rightarrow> json" where
  "strength_solver_info dealii a = JObj
     [(''dealii_available'', JBool (strength_available dealii)),
      (''active_backend'', JStr (if sd_backend a = Strength_builtin then ''builtin'' else ''dealii'')),
      (''external_process'', JBool (sd_external a)), (''support_span_mm'', JNum (tc_support_span_mm (sd_config a))),
      (''specimen_thickness_mm'', JNum (tc_specimen_thickness_mm (sd_config a))),
      (''porcelain_strength_mpa'', JNum (tc_porcelain_strength_mpa (sd_config a)))]"

definition effective_elastic_modulus :: "double \<Rightarrow> double \<Rightarrow> double \<Rightarrow> double \<Rightarrow> bool \<Rightarrow> double \<Rightarrow> double" where
  "effective_elastic_modulus depth_ratio base_E crack_depth thickness repaired repair_ratio =
     (let normalized_depth = crack_depth / thickness;
          depth_factor = D 1 - dpow normalized_depth (D (3/2));
          E = base_E * std_max (D (1/5)) depth_factor
      in if repaired \<and> depth_ratio < normalized_depth + D (5/100) then
           E * (repair_ratio + (D 1 - repair_ratio) * dexp (- dpow ((depth_ratio - normalized_depth) / D (1/10)) (D 2)))
         else E)"

text \<open>The built-in solver keeps the failure load of its last test; before \<open>initialize\<close> there is none.\<close>

definition strength_builtin ::
  "time_point \<Rightarrow> crack_info \<Rightarrow> repair_material \<Rightarrow> bool \<Rightarrow> strength_adapter \<Rightarrow> (bending_test_result \<times> strength_adapter) result"
  where
  "strength_builtin now crack material repaired a =
     (case sd_solver a of
        None \<Rightarrow> Inl (UB ''null solver'')
      | Some t \<Rightarrow> and_then (simulate_bending t now 0 (wrap32 (ci_id crack)) (rm_id material) crack material repaired)
          (\<lambda>(r, t). Inr (r, a\<lparr>sd_solver := Some t\<rparr>)))"

definition strength_solve ::
  "dealii_strength \<Rightarrow> time_point \<Rightarrow> crack_info \<Rightarrow> repair_material \<Rightarrow> bool \<Rightarrow> strength_adapter \<Rightarrow>
    (bending_test_result \<times> strength_adapter) result"
  where
  "strength_solve dealii now crack material repaired a =
     (case dealii of
        Some solve \<Rightarrow>
          if sd_backend a = Strength_dealii then and_then (solve (sd_config a) crack material repaired) (\<lambda>r. Inr (r, a))
          else strength_builtin now crack material repaired a
      | None \<Rightarrow> strength_builtin now crack material repaired a)"

subsection \<open>The module (strength_module.cpp)\<close>

record strength_module = worker_shell +
  sm_adapter :: "strength_adapter option"
  sm_config :: bending_test_config

definition new_strength_module :: strength_module where
  "new_strength_module = worker_shell.extend new_shell \<lparr>sm_adapter = None, sm_config = default_bending_config\<rparr>"

definition load_bending_settings :: "bending_test_config loader" where
  "load_bending_settings = in_order
     [field json_get_num ''support_span_mm'' (\<lambda>v c. c\<lparr>tc_support_span_mm := v\<rparr>),
      field json_get_num ''specimen_thickness_mm'' (\<lambda>v c. c\<lparr>tc_specimen_thickness_mm := v\<rparr>),
      field json_get_num ''porcelain_strength_mpa'' (\<lambda>v c. c\<lparr>tc_porcelain_strength_mpa := v\<rparr>),
      field json_get_num ''repair_interface_strength_ratio'' (\<lambda>v c. c\<lparr>tc_repair_interface_strength_ratio := v\<rparr>),
      field json_get_bool ''enable_bayesian_calibration'' (\<lambda>v c. c\<lparr>tc_enable_bayesian_calibration := v\<rparr>),
      field json_get_int ''calibration_max_iter'' (\<lambda>v c. c\<lparr>tc_calibration_max_iter := v\<rparr>)]"

definition load_strength :: "strength_module loader" where
  "load_strength = in_order
     [field json_get_bool ''external_process'' (\<lambda>v m. m\<lparr>ws_use_external := v\<rparr>),
      section_of ''bending_config'' sm_config (\<lambda>c m. m\<lparr>sm_config := c\<rparr>) load_bending_settings]"

text \<open>\<open>c\<close> is the address of the channel, \<open>f\<close> names the callback; the old channel, if any, is destroyed.\<close>

definition strength_external :: "nat \<Rightarrow> nat \<Rightarrow> strength_module \<Rightarrow> ipc \<Rightarrow> (strength_module \<times> ipc) result" where
  "strength_external c f m w =
     and_then (case ws_channel m of None \<Rightarrow> Inr w | Some old \<Rightarrow> ipc_destroy old w) (\<lambda>w.
     and_then (external_process c ''strength_fem_client'' f w) (\<lambda>(ok, w). Inr (m\<lparr>ws_channel := Some c\<rparr>, w)))"

definition strength_initialize ::
  "dealii_strength \<Rightarrow> nat \<Rightarrow> nat \<Rightarrow> nat \<Rightarrow> nat \<Rightarrow> json \<Rightarrow> strength_module \<Rightarrow> ipc \<Rightarrow>
    (bool \<times> strength_module \<times> ipc) result outcome"
  where
  "strength_initialize dealii limit hardware c f cfg m w =
     (case load_strength cfg m of
        (Some e, m) \<Rightarrow> Returned (Inr (False, m\<lparr>ws_status := ERROR\<rparr>, w))
      | (None, m) \<Rightarrow>
          (case make_pool limit hardware (max 1 (int hardware div 2)) of
             Std_terminate \<Rightarrow> Std_terminate
           | Returned n \<Rightarrow>
               let a = (strength_adapter_initialize dealii (sm_config m) new_strength_adapter)\<lparr>sd_external := ws_use_external m\<rparr>;
                   m = m\<lparr>ws_pool := Some n, sm_adapter := Some a\<rparr>
               in Returned (and_then (if ws_use_external m then strength_external c f m w else Inr (m, w))
                    (\<lambda>(m, w). Inr (True, m\<lparr>ws_status := IDLE\<rparr>, w)))))"

definition strength_answer :: "json \<Rightarrow> bending_test_result result" where
  "strength_answer p =
     and_then (json_value json_get_int p ''porcelain_id'' 0) (\<lambda>a.
     and_then (json_value json_get_int p ''crack_id'' 0) (\<lambda>b.
     and_then (json_value json_get_int p ''material_id'' 0) (\<lambda>c.
     and_then (json_value json_get_num p ''original_strength_mpa'' 0) (\<lambda>d.
     and_then (json_value json_get_num p ''unrepaired_strength_mpa'' 0) (\<lambda>e.
     and_then (json_value json_get_num p ''repaired_strength_mpa'' 0) (\<lambda>f.
     and_then (json_value json_get_num p ''strength_recovery_ratio'' 0) (\<lambda>g.
     and_then (json_value json_get_num p ''youngs_modulus_gpa'' 0) (\<lambda>h.
     and_then (json_value json_get_num p ''fracture_toughness_mpa_m05'' 0) (\<lambda>i.
     Inr (new_bending_test_result
       \<lparr>bt_success := True, bt_porcelain_id := a, bt_crack_id := b, bt_material_id := c, bt_original_strength_mpa := d,
        bt_unrepaired_strength_mpa := e, bt_repaired_strength_mpa := f, bt_strength_recovery_ratio := g,
        bt_youngs_modulus_gpa := h, bt_fracture_toughness_mpa_m05 := i\<rparr>))))))))))"

definition strength_payload :: "crack_info \<Rightarrow> repair_material \<Rightarrow> bool \<Rightarrow> json" where
  "strength_payload crack material repaired = JObj
     [(''porcelain_id'', JInt (ci_porcelain_id crack)),
      (''crack'', JObj [(''id'', JInt (ci_id crack)), (''max_depth'', JNum (ci_max_depth crack)),
         (''max_width'', JNum (ci_max_width crack))]),
      (''material'', JObj [(''id'', JInt (rm_id material)), (''name'', JStr (rm_name material)),
         (''viscosity'', JNum (rm_viscosity material))]),
      (''repaired'', JBool repaired)]"

definition strength_message :: "time_point \<Rightarrow> json \<Rightarrow> int \<Rightarrow> ipc_message" where
  "strength_message now payload i =
     \<lparr>im_module_name = ''strength_fem'', im_command = ''simulate'', im_payload = payload, im_request_id = i,
      im_timestamp = now\<rparr>"

text \<open>What surrounds the module: the build, the clock, the answers of the other process, the table of
  requests and the channels.\<close>

record strength_world =
  sw_dealii :: dealii_strength
  sw_now :: time_point
  sw_answer :: "int \<Rightarrow> ipc_message option"
  sw_pending :: "int set"
  sw_ipc :: ipc

definition strength_dispatch ::
  "crack_info \<Rightarrow> repair_material \<Rightarrow> bool \<Rightarrow> strength_module \<Rightarrow> strength_world \<Rightarrow>
    (bending_test_result \<times> strength_module \<times> strength_world) result"
  where
  "strength_dispatch crack material repaired m w =
     (let builtin = (\<lambda>m w. case sm_adapter m of
            None \<Rightarrow> Inl (UB ''null adapter'')
          | Some a \<Rightarrow> and_then (strength_solve (sw_dealii w) (sw_now w) crack material repaired a)
              (\<lambda>(r, a). Inr (r, m\<lparr>sm_adapter := Some a\<rparr>, w)))
      in and_then (reaches_process m (sw_ipc w)) (\<lambda>reached.
        if reached then
          and_then (solve_via_ipc strength_answer (sw_answer w) (the (ws_channel m))
              (strength_message (sw_now w) (strength_payload crack material repaired)) m (sw_pending w) (sw_ipc w))
            (\<lambda>(r, m, pending, ipc). let w = w\<lparr>sw_pending := pending, sw_ipc := ipc\<rparr> in
              case r of Some r \<Rightarrow> if bt_success r then Inr (r, m, w) else builtin m w | None \<Rightarrow> builtin m w)
        else builtin m w))"

text \<open>The request: unlike the batches of the penetration module, no length of the crack, and the
  material starts with every member zero.\<close>

definition blank_material :: repair_material where
  "blank_material = \<lparr>rm_id = 0, rm_type = ZIRCONIA, rm_name = [], rm_manufacturer = [], rm_particle_size_nm = 0, rm_purity = 0,
     rm_viscosity = 0, rm_refractive_index = 0, rm_thermal_expansion_coeff = 0, rm_properties = JNull\<rparr>"

definition read_strength_job :: "json \<Rightarrow> (crack_info \<times> repair_material \<times> bool) result" where
  "read_strength_job input =
     and_then (if json_contains input ''porcelain_id''
         then and_then (json_at input ''porcelain_id'') json_get_int else Inr 0) (\<lambda>pid.
     and_then (if json_contains input ''crack'' then
         and_then (json_at input ''crack'') (\<lambda>c.
         and_then (json_value json_get_int c ''id'' 0) (\<lambda>i.
         and_then (json_value json_get_num c ''max_depth'' (D 50)) (\<lambda>d.
         and_then (json_value json_get_num c ''max_width'' (D 10)) (\<lambda>w.
         Inr (blank_crack\<lparr>ci_porcelain_id := pid, ci_id := i, ci_max_depth := d, ci_max_width := w\<rparr>)))))
       else Inr (blank_crack\<lparr>ci_porcelain_id := pid\<rparr>)) (\<lambda>crack.
     and_then (if json_contains input ''material'' then
         and_then (json_at input ''material'') (\<lambda>m.
         and_then (json_value json_get_int m ''id'' 0) (\<lambda>i.
         and_then (json_value json_get_str m ''name'' ''default'') (\<lambda>n.
         and_then (json_value json_get_num m ''viscosity'' (D 1)) (\<lambda>v.
         Inr (blank_material\<lparr>rm_id := i, rm_name := n, rm_viscosity := v\<rparr>)))))
       else Inr blank_material) (\<lambda>material.
     and_then (if json_contains input ''repaired''
         then and_then (json_at input ''repaired'') json_get_bool else Inr True) (\<lambda>repaired.
     Inr (crack, material, repaired)))))"

definition strength_compute :: "json \<Rightarrow> strength_module \<Rightarrow> strength_world \<Rightarrow>
    (bending_test_result \<times> strength_module \<times> strength_world) result" where
  "strength_compute input m w =
     and_then (read_strength_job input) (\<lambda>(crack, material, repaired). strength_dispatch crack material repaired m w)"

definition strength_to_json :: "bending_test_result \<Rightarrow> json" where
  "strength_to_json r = JObj
     [(''porcelain_id'', JInt (bt_porcelain_id r)), (''crack_id'', JInt (bt_crack_id r)),
      (''material_id'', JInt (bt_material_id r)), (''original_strength_mpa'', JNum (bt_original_strength_mpa r)),
      (''unrepaired_strength_mpa'', JNum (bt_unrepaired_strength_mpa r)),
      (''repaired_strength_mpa'', JNum (bt_repaired_strength_mpa r)),
      (''strength_recovery_ratio'', JNum (bt_strength_recovery_ratio r)),
      (''youngs_modulus_gpa'', JNum (bt_youngs_modulus_gpa r)),
      (''fracture_toughness_mpa_m05'', JNum (bt_fracture_toughness_mpa_m05 r))]"

text \<open>The body of \<open>run_async\<close>, on the module's thread; \<open>what\<close> is the text of an exception.\<close>

definition strength_run :: "json \<Rightarrow> strength_module \<Rightarrow> strength_world \<Rightarrow> ((bool \<times> json) \<times> strength_module \<times> strength_world) result" where
  "strength_run input m w =
     and_then (strength_compute input m w) (\<lambda>(r, m, w). Inr ((bt_success r, strength_to_json r), m, w))"

definition strength_run_async :: "(cpp_error \<Rightarrow> string) \<Rightarrow> json \<Rightarrow> strength_module \<Rightarrow> strength_world \<Rightarrow>
    (module_result \<times> strength_module \<times> strength_world) result" where
  "strength_run_async what input m w =
     (case strength_run input m w of
        Inr (out, m, w) \<Rightarrow> and_then (run_result what (Inr out)) (\<lambda>r. Inr (r, shell_finish m, w))
      | Inl e \<Rightarrow> and_then (run_result what (Inl e)) (\<lambda>r. Inr (r, shell_finish m, w)))"

definition strength_execute :: "json \<Rightarrow> strength_module \<Rightarrow> (bool \<times> json option \<times> strength_module) outcome" where
  "strength_execute input m =
     (case shell_execute m of
        Std_terminate \<Rightarrow> Std_terminate
      | Returned (ok, m) \<Rightarrow> Returned (ok, if ok then Some input else None, m))"

definition strength_execute_sync :: "(cpp_error \<Rightarrow> string) \<Rightarrow> json \<Rightarrow> strength_module \<Rightarrow> strength_world \<Rightarrow>
    (bool \<times> module_result option \<times> strength_module \<times> strength_world) result" where
  "strength_execute_sync what input m w = shell_execute_sync what (strength_run input) m w"

definition simulate_bending_sync :: "crack_info \<Rightarrow> repair_material \<Rightarrow> bool \<Rightarrow> strength_module \<Rightarrow> strength_world \<Rightarrow>
    (bending_test_result \<times> strength_module) result" where
  "simulate_bending_sync crack material repaired m w =
     (case sm_adapter m of
        None \<Rightarrow> Inr (new_bending_test_result, m)
      | Some a \<Rightarrow> and_then (strength_solve (sw_dealii w) (sw_now w) crack material repaired a)
          (\<lambda>(r, a). Inr (r, m\<lparr>sm_adapter := Some a\<rparr>)))"

text \<open>\<open>calibrate\<close> works on a solver of its own, so the calibrated parameters are lost with it.\<close>

definition strength_calibrate :: "'r rng \<Rightarrow> calibration_dataset list \<Rightarrow> bool \<Rightarrow> strength_module \<Rightarrow>
    (calibration_result \<times> strength_module) result" where
  "strength_calibrate g dataset update_params m =
     and_then (calibrate_model g (set_bending_config (sm_config m) new_bending_test) dataset update_params)
       (\<lambda>(r, _). Inr (r, m))"

text \<open>
  The tasks of a batch share the adapter's solver and refer to the caller's vector: \<open>alive i\<close> is
  whether the vector still exists when task \<open>i\<close> runs, \<open>alone i\<close> whether no other task is inside the
  solver then. \<open>None\<close> stands for the undefined behaviour of the task.
\<close>

definition simulate_batch_parallel ::
  "(nat \<Rightarrow> bool) \<Rightarrow> (nat \<Rightarrow> bool) \<Rightarrow> (crack_info \<times> repair_material \<times> bool) list \<Rightarrow> strength_module \<Rightarrow> strength_world \<Rightarrow>
    bending_test_result result list result"
  where
  "simulate_batch_parallel alive alone batch m w =
     (case sm_adapter m of
        None \<Rightarrow> Inr []
      | Some a \<Rightarrow>
          if ws_pool m = None \<and> batch \<noteq> [] then Inl (UB ''null thread pool'')
          else Inr (map (\<lambda>(i, crack, material, repaired).
            if \<not> alive i then Inl (UB ''dangling batch'')
            else if \<not> alone i then Inl (UB ''data race'')
            else and_then (strength_solve (sw_dealii w) (sw_now w) crack material repaired a) (\<lambda>(r, _). Inr r))
            (List.enumerate 0 batch)))"

definition strength_cancel :: "strength_module \<Rightarrow> bool \<times> strength_module" where
  "strength_cancel m = (True, shell_cancel m)"

definition strength_shutdown :: "strength_module \<Rightarrow> strength_world \<Rightarrow> (strength_module \<times> strength_world) result" where
  "strength_shutdown m w =
     and_then (shell_shutdown m (sw_ipc w)) (\<lambda>(m, ipc). Inr (m\<lparr>sm_adapter := None\<rparr>, w\<lparr>sw_ipc := ipc\<rparr>))"

subsection \<open>What the module makes of a repair\<close>

lemma read_strength_job_plain:
  "read_strength_job input = Inr (crack, material, repaired) \<Longrightarrow> rm_properties material = JNull"
  by (auto simp: read_strength_job_def and_then_eq_Inr_iff blank_material_def split: if_splits)

lemma no_properties_no_bond: "rm_properties material = JNull \<Longrightarrow> bonding_of material = 0"
  by (simp add: bonding_of_def json_contains_def)

lemma plain_repair:
  assumes "simulate_bending t now pid cid mid crack material repaired = Inr (r, t')" and "rm_properties material = JNull"
  shows "bt_repaired_strength_mpa r = bt_unrepaired_strength_mpa r"
proof -
  have "\<not> D 1 < 0"
    by simp
  then show ?thesis
    using simulated_strengths [OF assms(1)] no_properties_no_bond [OF assms(2)]
    by (simp add: repaired_strength_pa_def Let_def)
qed

text \<open>The strength module knows no repair. A request carries the identity, the name and the viscosity of the
  material but not its properties, so the bonding strength is always zero: what the module computes
  with its built-in solver has the same strength with and without the repair, for every request.
\<close>

theorem strength_module_knows_no_repair:
  assumes "strength_compute input m w = Inr (r, m', w')" and "sw_dealii w = None" and "reaches_process m (sw_ipc w) = Inr False"
  shows "bt_repaired_strength_mpa r = bt_unrepaired_strength_mpa r"
proof -
  obtain crack material repaired a a' where "read_strength_job input = Inr (crack, material, repaired)"
    and "strength_builtin (sw_now w) crack material repaired a = Inr (r, a')"
    using assms by (auto simp: strength_compute_def strength_dispatch_def strength_solve_def and_then_eq_Inr_iff Let_def
        split: option.splits)
  then show ?thesis
    using plain_repair read_strength_job_plain
    by (fastforce simp: strength_builtin_def and_then_eq_Inr_iff split: option.splits)
qed

definition strength_demo :: strength_module where
  "strength_demo = new_strength_module\<lparr>sm_adapter :=
     Some (strength_adapter_initialize None default_bending_config new_strength_adapter), ws_status := IDLE\<rparr>"

definition strength_demo_world :: strength_world where
  "strength_demo_world = \<lparr>sw_dealii = None, sw_now = 0, sw_answer = \<lambda>_. None, sw_pending = {}, sw_ipc = no_channels\<rparr>"

lemma strength_demo_computes: "\<exists>r m' w'. strength_compute (JObj []) strength_demo strength_demo_world = Inr (r, m', w')"
proof -
  have "\<exists>r t'. simulate_bending (set_bending_config default_bending_config new_bending_test) 0 0 0 0 blank_crack blank_material True
      = Inr (r, t')"
    by (rule simulate_bending_returns) (simp add: set_bending_config_def default_bending_config_def)
  then show ?thesis
    by (auto simp: strength_compute_def read_strength_job_def json_contains_def strength_dispatch_def reaches_process_def
        strength_demo_def new_strength_module_def new_shell_def worker_shell.defs strength_demo_world_def strength_solve_def
        strength_builtin_def strength_adapter_initialize_def blank_crack_def blank_material_def wrap32_def and_then_eq_Inr_iff)
qed

theorem strength_module_knows_no_repair_witness:
  "\<exists>r m' w'. strength_compute (JObj []) strength_demo strength_demo_world = Inr (r, m', w')
     \<and> bt_repaired_strength_mpa r = bt_unrepaired_strength_mpa r"
proof -
  obtain r m' w' where r: "strength_compute (JObj []) strength_demo strength_demo_world = Inr (r, m', w')"
    using strength_demo_computes by blast
  have "bt_repaired_strength_mpa r = bt_unrepaired_strength_mpa r"
    by (rule strength_module_knows_no_repair [OF r])
      (simp_all add: strength_demo_world_def reaches_process_def strength_demo_def new_strength_module_def new_shell_def worker_shell.defs)
  then show ?thesis
    using r by blast
qed

subsection \<open>The life of the module\<close>

text \<open>The module can run one request asynchronously in its life. A second \<open>execute\<close> is refused while the first runs;
  once that has finished, or was cancelled, the next one assigns to a handle that still owns a thread and ends the
  process with \<open>std::terminate\<close>. Only \<open>shutdown\<close> gives up the thread, and then a request is accepted and
  dereferences the missing adapter.
\<close>

theorem second_execute_terminates:
  assumes "strength_execute input m = Returned (True, job, m1)" and "strength_shutdown (shell_finish m1) w = Inr (m2, w2)"
  shows "strength_execute again m1 = Returned (False, None, m1)
    \<and> strength_execute again (shell_finish m1) = Std_terminate
    \<and> strength_execute again (snd (strength_cancel m1)) = Std_terminate
    \<and> (\<exists>m3. strength_execute again m2 = Returned (True, Some again, m3) \<and>
        strength_dispatch crack material repaired m3 w2 = Inl (UB ''null adapter''))"
proof -
  have m1: "ws_status m1 = RUNNING" "ws_worker m1"
    using assms(1) by (auto simp: strength_execute_def shell_execute_def split: if_splits)
  have "ws_status m2 = UNINITIALIZED" "\<not> ws_worker m2" "sm_adapter m2 = None" "ws_channel m2 = None"
    using assms(2) by (auto simp: strength_shutdown_def shell_shutdown_def and_then_eq_Inr_iff)
  then show ?thesis
    using m1 by (auto simp: strength_execute_def shell_execute_def shell_finish_def strength_cancel_def shell_cancel_def
        strength_dispatch_def reaches_process_def)
qed

theorem second_execute_terminates_witness:
  "\<exists>m1. strength_execute (JObj []) strength_demo = Returned (True, Some (JObj []), m1) \<and>
     strength_execute (JObj []) (shell_finish m1) = Std_terminate"
proof -
  obtain m1 where m1: "strength_execute (JObj []) strength_demo = Returned (True, Some (JObj []), m1)"
    "ws_channel m1 = None"
    by (simp add: strength_execute_def shell_execute_def strength_demo_def new_strength_module_def new_shell_def worker_shell.defs)
  obtain m2 w2 where "strength_shutdown (shell_finish m1) strength_demo_world = Inr (m2, w2)"
    using m1(2) by (simp add: strength_shutdown_def shell_shutdown_def shell_finish_def)
  from second_execute_terminates [OF m1(1) this] show ?thesis
    using m1(1) by blast
qed

lemma strength_external_channel:
  "strength_external c f m w = Inr (m', w') \<Longrightarrow> ws_channel m' = Some c \<and> is_connected c w' = Inr False"
  using external_process_unconnected by (fastforce simp: strength_external_def and_then_eq_Inr_iff)

lemma strength_initialize_unconnected:
  assumes "strength_initialize dealii limit hardware c f cfg m w = Returned (Inr (True, m', w'))"
  shows "reaches_process m' w' = Inr False"
  using assms
  by (auto simp: strength_initialize_def Let_def and_then_eq_Inr_iff reaches_process_def
      split: prod.splits option.splits outcome.splits if_splits dest!: strength_external_channel)

text \<open>The external process is never used. The channel that \<open>initialize\<close> opens has no peer, so whatever another process
  would answer, every request is computed with the adapter of the module, and no request is entered in the table of
  those that wait, even when the configuration asks for the external process.
\<close>

theorem external_process_never_used:
  assumes "strength_initialize dealii limit hardware c f cfg m w = Returned (Inr (True, m', w'))" and "sw_ipc v = w'"
  shows "map_sum id fst (strength_compute input m' v) = map_sum id fst (strength_compute input m' (v\<lparr>sw_answer := answer\<rparr>))
    \<and> (case strength_compute input m' v of Inl e \<Rightarrow> True | Inr (r, m2, v2) \<Rightarrow> v2 = v \<and> ws_next_request m2 = ws_next_request m')"
proof -
  have no: "reaches_process m' (sw_ipc v) = Inr False"
    using strength_initialize_unconnected [OF assms(1)] by (simp add: assms(2))
  show ?thesis
    by (cases "read_strength_job input"; cases "sm_adapter m'")
      (auto simp: strength_compute_def strength_dispatch_def no Let_def and_then_def split: sum.splits)
qed

definition external_request :: json where
  "external_request = JObj [(''external_process'', JBool True)]"

lemma external_demo_initialises:
  "\<exists>m' w'. strength_initialize None 100 8 0 0 external_request new_strength_module no_channels = Returned (Inr (True, m', w'))
     \<and> ws_use_external m'"
  by (simp add: strength_initialize_def external_request_def load_strength_def field_def section_of_def json_contains_def
      json_at_def json_get_bool_def make_pool_def pool_threads_def new_strength_module_def new_shell_def worker_shell.defs
      strength_external_def external_process_def channel_ops ipc_create_def no_channels_def new_channel_def)

theorem external_process_never_used_witness:
  "\<forall>answer. \<exists>m' w'. strength_initialize None 100 8 0 0 external_request new_strength_module no_channels = Returned (Inr (True, m', w'))
     \<and> ws_use_external m'
     \<and> (let v = strength_demo_world\<lparr>sw_ipc := w'\<rparr> in
         map_sum id fst (strength_compute (JObj []) m' v) = map_sum id fst (strength_compute (JObj []) m' (v\<lparr>sw_answer := answer\<rparr>)))"
proof -
  obtain m' w' where m: "strength_initialize None 100 8 0 0 external_request new_strength_module no_channels = Returned (Inr (True, m', w'))"
    "ws_use_external m'"
    using external_demo_initialises by blast
  from external_process_never_used [OF m(1), of "strength_demo_world\<lparr>sw_ipc := w'\<rparr>"] show ?thesis
    unfolding Let_def using m by (intro allI exI [of _ m'] exI [of _ w'] conjI) auto
qed

subsection \<open>The server process (process_main.cpp)\<close>

definition strength_process_config :: json where
  "strength_process_config = JObj [(''bending_config'', JObj
     [(''support_span_mm'', JNum (D 40)), (''loading_span_mm'', JNum (D 20)), (''specimen_thickness_mm'', JNum (D 3)),
      (''specimen_width_mm'', JNum (D 10)), (''porcelain_strength_mpa'', JNum (D 120)),
      (''repair_interface_strength_ratio'', JNum (D (85/100)))])]"

definition strength_serve :: "(cpp_error \<Rightarrow> string) \<Rightarrow> nat \<Rightarrow> ipc_message \<Rightarrow> strength_module \<times> strength_world \<Rightarrow> ipc \<Rightarrow>
    (bool \<times> (strength_module \<times> strength_world) \<times> ipc) result" where
  "strength_serve what = serve ''strength_fem'' ''simulate''
     (\<lambda>input (m, w). and_then (strength_execute_sync what input m w) (\<lambda>(ok, r, m, w). Inr (ok, r, m, w)))"

end
