(* ===== verification/Strength_Dealii.thy ===== *)
theory Strength_Dealii
  imports Strength_Module
begin

section \<open>The bending test on deal.II (modules/strength_fem/dealii_adapter.cpp)\<close>

text \<open>
  \<open>solve_dealii\<close>, which is compiled in only with the library deal.II. What the code takes from the
  library for a mesh is the record \<open>dealii_mesh\<close>: the quadrature points of the active cells with the
  gradients of the shape functions, the assembly of the local matrices and vectors under the
  boundary constraints, the solution of the system from a start vector (with what is left in it when
  the solver throws), and the gradients of a solution at the points of the second quadrature.
\<close>

subsection \<open>The library\<close>

record quadrature_point =
  qp_y :: double
  qp_JxW :: double
  qp_shape_grads :: "(double \<times> double) list"

record ('m, 'v) dealii_mesh =
  dl_dofs_per_cell :: nat
  dl_cells :: "quadrature_point list list"
  dl_assemble :: "(double list list \<times> double list) list \<Rightarrow> 'm \<times> 'v"
  dl_zero :: 'v
  dl_solve :: "'m \<Rightarrow> 'v \<Rightarrow> 'v \<Rightarrow> 'v"
  dl_gradients :: "'v \<Rightarrow> (double \<times> double) list list"

text \<open>A mesh of \<open>nx\<close> by \<open>ny\<close> cells on a specimen of the given length and height, refined once.\<close>

type_synonym ('m, 'v) dealii_library = "int \<Rightarrow> int \<Rightarrow> double \<Rightarrow> double \<Rightarrow> ('m, 'v) dealii_mesh"

subsection \<open>The local systems\<close>

definition lame_lambda :: "double \<Rightarrow> double \<Rightarrow> double" where
  "lame_lambda E nu = E * nu / ((D 1 + nu) * (D 1 - D 2 * nu))"

definition lame_mu :: "double \<Rightarrow> double \<Rightarrow> double" where
  "lame_mu E nu = E / (D 2 * (D 1 + nu))"

definition base_modulus :: "bending_test_config \<Rightarrow> double" where
  "base_modulus c = tc_porcelain_youngs_modulus_gpa c * D (10 ^ 3)"

definition point_modulus :: "bending_test_config \<Rightarrow> double \<Rightarrow> bool \<Rightarrow> quadrature_point \<Rightarrow> double" where
  "point_modulus c crack_depth_mm repaired q =
     (let h = tc_specimen_thickness_mm c
      in effective_elastic_modulus (qp_y q / h) (base_modulus c) crack_depth_mm h repaired
           (if repaired then tc_repair_interface_strength_ratio c else 0))"

definition stiffness_entry :: "bending_test_config \<Rightarrow> double \<Rightarrow> bool \<Rightarrow> quadrature_point list \<Rightarrow> nat \<Rightarrow> nat \<Rightarrow> double" where
  "stiffness_entry c crack_depth_mm repaired qs i j =
     foldl (\<lambda>k q.
       let E = point_modulus c crack_depth_mm repaired q; nu = tc_porcelain_poissons_ratio c;
           lam = lame_lambda E nu; mu = lame_mu E nu;
           (gi0, gi1) = qp_shape_grads q ! i; (gj0, gj1) = qp_shape_grads q ! j;
           v = lam * gi0 * gj0 + mu * (D 2 * gi0 * gj0 + gi1 * gj1 + gi0 * gj1 + gi1 * gj0)
       in k + v * qp_JxW q) 0 qs"

text \<open>The local vector is never written: no load enters the system.\<close>

definition local_system :: "bending_test_config \<Rightarrow> double \<Rightarrow> bool \<Rightarrow> nat \<Rightarrow> quadrature_point list \<Rightarrow> double list list \<times> double list" where
  "local_system c crack_depth_mm repaired n qs =
     (map (\<lambda>i. map (stiffness_entry c crack_depth_mm repaired qs i) [0..<n]) [0..<n], replicate n 0)"

definition global_system :: "bending_test_config \<Rightarrow> double \<Rightarrow> bool \<Rightarrow> ('m, 'v) dealii_mesh \<Rightarrow> 'm \<times> 'v" where
  "global_system c crack_depth_mm repaired m =
     dl_assemble m (map (local_system c crack_depth_mm repaired (dl_dofs_per_cell m)) (dl_cells m))"

subsection \<open>The load steps\<close>

definition gradient_stress :: "bending_test_config \<Rightarrow> double \<times> double \<Rightarrow> double" where
  "gradient_stress c = (\<lambda>(g0, g1).
     let nu = tc_porcelain_poissons_ratio c; lam = lame_lambda (base_modulus c) nu; mu = lame_mu (base_modulus c) nu;
         s_xx = D 2 * mu * g0 + lam * (g0 + g1); s_yy = D 2 * mu * g1 + lam * (g0 + g1); s_xy = mu * (g0 + g1)
     in dsqrt (D (1/2) * ((s_xx - s_yy) * (s_xx - s_yy) + D 6 * s_xy * s_xy)) / D (10 ^ 3))"

definition step_peak :: "bending_test_config \<Rightarrow> (double \<times> double) list list \<Rightarrow> double \<Rightarrow> double" where
  "step_peak c gradients max_stress = foldl (\<lambda>s g. std_max s (gradient_stress c g)) max_stress (concat gradients)"

definition load_increment :: "bending_test_config \<Rightarrow> double" where
  "load_increment c =
     (let L = tc_support_span_mm c; a = tc_loading_span_mm c / D 2; W = tc_specimen_width_mm c; h = tc_specimen_thickness_mm c
      in tc_porcelain_strength_mpa c * W * h * h / (D 3 * (L - D 2 * a)))"

text \<open>The load at which a step reaches the strength, if one does. Every step solves the same system from the
  same start.\<close>

fun failing_load :: "bending_test_config \<Rightarrow> (double \<times> double) list list \<Rightarrow> int list \<Rightarrow> double \<Rightarrow> double option" where
  "failing_load c gradients [] max_stress = None"
| "failing_load c gradients (step # steps) max_stress =
     (let P = of_i (step + 1) * load_increment c / of_i (tc_load_steps c); max_stress = step_peak c gradients max_stress
      in if tc_porcelain_strength_mpa c \<le> max_stress then Some P else failing_load c gradients steps max_stress)"

definition total_load :: "bending_test_config \<Rightarrow> double \<Rightarrow> bool \<Rightarrow> ('m, 'v) dealii_mesh \<Rightarrow> double" where
  "total_load c crack_depth_mm repaired m =
     (let (K, F) = global_system c crack_depth_mm repaired m; gradients = dl_gradients m (dl_solve m K (dl_zero m) F)
      in case failing_load c gradients [0..tc_load_steps c - 1] 0 of Some P \<Rightarrow> P | None \<Rightarrow> load_increment c)"

subsection \<open>The result\<close>

definition nominal_strength :: "bending_test_config \<Rightarrow> double \<Rightarrow> double" where
  "nominal_strength c P_total =
     (let L = tc_support_span_mm c; a = tc_loading_span_mm c / D 2; W = tc_specimen_width_mm c; h = tc_specimen_thickness_mm c
      in D 3 * P_total * (L - D 2 * a) / (D 2 * W * h * h))"

definition dealii_result :: "bending_test_config \<Rightarrow> crack_info \<Rightarrow> repair_material \<Rightarrow> bool \<Rightarrow> double \<Rightarrow> bending_test_result" where
  "dealii_result c crack material repaired nominal =
     (let repaired_mpa = (if repaired then nominal else nominal * D (3/4)) in
      new_bending_test_result
        \<lparr>bt_success := True, bt_method := ''dealii_4pb'', bt_crack_id := wrap32 (ci_id crack), bt_material_id := rm_id material,
         bt_original_strength_mpa := tc_porcelain_strength_mpa c,
         bt_unrepaired_strength_mpa := (if repaired then nominal * D (3/4) else nominal),
         bt_repaired_strength_mpa := repaired_mpa,
         bt_strength_recovery_ratio := (if 0 < nominal then repaired_mpa / tc_porcelain_strength_mpa c else 0),
         bt_youngs_modulus_gpa := tc_porcelain_youngs_modulus_gpa c,
         bt_fracture_toughness_mpa_m05 :=
           D (112/100) * nominal * dsqrt (D (314159 / 10 ^ 5) * std_max (D (1 / 10 ^ 3)) (ci_max_depth crack)),
         bt_porcelain_id := 0\<rparr>)"

definition strength_dealii ::
  "('m, 'v) dealii_library \<Rightarrow> bending_test_config \<Rightarrow> crack_info \<Rightarrow> repair_material \<Rightarrow> bool \<Rightarrow> bending_test_result result"
  where
  "strength_dealii lib c crack material repaired =
     (let h = tc_specimen_thickness_mm c; len = tc_support_span_mm c + D 10;
          nx = max 20 (tc_mesh_elements c)
      in and_then (to_int32 (of_i (tc_mesh_elements c) * h / len)) (\<lambda>k.
           let m = lib nx (max 8 k) len h
           in Inr (dealii_result c crack material repaired
                (nominal_strength c (total_load c (ci_max_depth crack) repaired m)))))"

subsection \<open>The load never acts\<close>

text \<open>Documented behaviour of the library: local vectors of zeros assemble to the zero vector under
  homogeneous constraints, the conjugate-gradient solver stops at once when the start vector solves the
  system, and the gradients of the zero function are zero.\<close>

definition unloaded_at_rest :: "('m, 'v) dealii_mesh \<Rightarrow> bool" where
  "unloaded_at_rest m \<longleftrightarrow>
     (\<forall>Ks. snd (dl_assemble m (map (\<lambda>K. (K, replicate (dl_dofs_per_cell m) 0)) Ks)) = dl_zero m)
     \<and> (\<forall>K. dl_solve m K (dl_zero m) (dl_zero m) = dl_zero m)
     \<and> set (concat (dl_gradients m (dl_zero m))) \<subseteq> {(0, 0)}"

definition zero_or_nan :: "double \<Rightarrow> bool" where
  "zero_or_nan x \<longleftrightarrow> x = 0 \<or> x = NAN"

lemma zero_or_nan_times_0 [simp]: "zero_or_nan (x * 0)"
  by (cases x) (auto simp: zero_or_nan_def)

lemma zero_over_thousand: "0 / D 1000 = 0"
  using D_divide [of 0 1000] by simp

lemma zero_or_nan_binary:
  assumes "zero_or_nan x" and "zero_or_nan y"
  shows "zero_or_nan (x + y)" and "zero_or_nan (x - y)" and "zero_or_nan (x * y)"
  using assms by (auto simp: zero_or_nan_def)

lemma zero_or_nan_unary:
  assumes "zero_or_nan x"
  shows "zero_or_nan (dsqrt x)" and "zero_or_nan (D 6 * x)" and "zero_or_nan (D (1/2) * x)" and "zero_or_nan (x / D 1000)"
  using assms by (auto simp: zero_or_nan_def dsqrt_def zero_over_thousand)

lemma gradient_stress_rest: "zero_or_nan (gradient_stress c (0, 0))"
proof -
  have shear: "zero_or_nan (D 6 * (x * 0) * (x * 0))" for x
    by (rule zero_or_nan_binary zero_or_nan_unary zero_or_nan_times_0)+
  have normal: "zero_or_nan (x * 0 + y * 0)" for x y
    by (rule zero_or_nan_binary zero_or_nan_times_0)+
  show ?thesis
    unfolding gradient_stress_def Let_def
    by (simp add: zero_or_nan_binary zero_or_nan_unary shear normal)
qed

lemma step_peak_rest: "set (concat gradients) \<subseteq> {(0, 0)} \<Longrightarrow> step_peak c gradients 0 = 0"
proof -
  have "foldl (\<lambda>s g. std_max s (gradient_stress c g)) 0 gs = 0" if "set gs \<subseteq> {(0, 0)}" for gs
    using that gradient_stress_rest [of c] by (induction gs) (auto simp: zero_or_nan_def std_max_def)
  then show "set (concat gradients) \<subseteq> {(0, 0)} \<Longrightarrow> step_peak c gradients 0 = 0"
    unfolding step_peak_def by blast
qed

lemma failing_load_rest:
  "set (concat gradients) \<subseteq> {(0, 0)} \<Longrightarrow> \<not> tc_porcelain_strength_mpa c \<le> 0 \<Longrightarrow> failing_load c gradients steps 0 = None"
  by (induction steps) (simp_all add: step_peak_rest Let_def)

lemma total_load_rest:
  assumes "unloaded_at_rest m" and "\<not> tc_porcelain_strength_mpa c \<le> 0"
  shows "total_load c crack_depth_mm repaired m = load_increment c"
proof -
  have "map (local_system c crack_depth_mm repaired (dl_dofs_per_cell m)) (dl_cells m)
      = map (\<lambda>K. (K, replicate (dl_dofs_per_cell m) 0))
          (map (fst \<circ> local_system c crack_depth_mm repaired (dl_dofs_per_cell m)) (dl_cells m))"
    by (simp add: local_system_def)
  then have "snd (global_system c crack_depth_mm repaired m) = dl_zero m"
    using assms(1) unfolding unloaded_at_rest_def global_system_def by metis
  then show ?thesis
    using assms by (simp add: total_load_def split_beta unloaded_at_rest_def failing_load_rest)
qed

text \<open>C34: The strength computed on deal.II depends neither on the crack nor on the material. The load of a step is
  never put into the system, so its solution is zero, no step fails, and the strength is the nominal one
  of the whole load; a run without repair even reports the lower figure as the repaired one.
\<close>

theorem dealii_strength_constant:
  assumes "\<And>nx ny len h. unloaded_at_rest (lib nx ny len h)" and "\<not> tc_porcelain_strength_mpa c \<le> 0"
    and "strength_dealii lib c crack material True = Inr r" and "strength_dealii lib c crack' material' False = Inr u"
  shows "bt_repaired_strength_mpa r = nominal_strength c (load_increment c)
    \<and> bt_unrepaired_strength_mpa r = nominal_strength c (load_increment c) * D (3/4)
    \<and> bt_unrepaired_strength_mpa u = bt_repaired_strength_mpa r
    \<and> bt_repaired_strength_mpa u = bt_unrepaired_strength_mpa r"
  using assms(3,4)
  by (auto simp: strength_dealii_def and_then_eq_Inr_iff Let_def dealii_result_def total_load_rest [OF assms(1,2)])

text \<open>A library whose meshes have no cells, and the default specimen: half of its strength is left, whatever the crack.\<close>

definition empty_mesh_library :: "(unit, unit) dealii_library" where
  "empty_mesh_library nx ny len h =
     \<lparr>dl_dofs_per_cell = 9, dl_cells = [], dl_assemble = (\<lambda>_. ((), ())), dl_zero = (), dl_solve = (\<lambda>_ _ _. ()), dl_gradients = (\<lambda>_. [])\<rparr>"

lemma default_nominal: "nominal_strength default_bending_config (load_increment default_bending_config) = D 60"
  by (simp add: nominal_strength_def load_increment_def default_bending_config_def Let_def)

lemma default_dealii_returns: "\<exists>r. strength_dealii empty_mesh_library default_bending_config crack material repaired = Inr r"
  by (simp add: strength_dealii_def default_bending_config_def of_i_def to_int32_def trunc_to_def Let_def)

theorem dealii_strength_constant_witness:
  "\<exists>r u. strength_dealii empty_mesh_library default_bending_config bending_demo_crack bending_demo_material True = Inr r
     \<and> strength_dealii empty_mesh_library default_bending_config (bending_demo_crack\<lparr>ci_max_depth := D 5\<rparr>) bending_demo_material False = Inr u
     \<and> bt_repaired_strength_mpa r = D 60 \<and> bt_repaired_strength_mpa u = D 45"
proof -
  obtain r u where
    r: "strength_dealii empty_mesh_library default_bending_config bending_demo_crack bending_demo_material True = Inr r" and
    u: "strength_dealii empty_mesh_library default_bending_config (bending_demo_crack\<lparr>ci_max_depth := D 5\<rparr>) bending_demo_material False = Inr u"
    using default_dealii_returns by blast
  have "exact (3/4)"
    using exact_dyadic [of 3 2] by simp
  then have "D 60 * D (3/4) = D 45"
    by simp
  moreover have "\<not> tc_porcelain_strength_mpa default_bending_config \<le> 0"
    by (simp add: default_bending_config_def)
  ultimately show ?thesis
    using r u dealii_strength_constant [of empty_mesh_library, OF _ _ r u] by (simp add: unloaded_at_rest_def empty_mesh_library_def default_nominal)
qed

end
