(* ===== verification/Fem_Module.thy ===== *)
theory Fem_Module
  imports Stress_Analysis Worker_Module Config
begin

section \<open>The stress module (modules/fem_stress)\<close>

text \<open>
  The adapter that turns the cracks of a request into the input of the stress analysis, and the module
  around it. As in the strength module, \<open>None\<close> for \<open>deal.II\<close> is a build without the library, and the
  built-in analysis has its parameters for uninitialised memory and \<open>rand()\<close>.
\<close>

subsection \<open>The adapter (dealii_adapter.cpp)\<close>

record crack_data =
  fk_id :: int
  fk_start_x :: double
  fk_start_y :: double
  fk_end_x :: double
  fk_end_y :: double
  fk_depth_um :: double
  fk_width_um :: double
  fk_length_mm :: double

record glaze_dimensions =
  gd_thickness_mm :: double
  gd_diameter_mm :: double

definition default_dimensions :: glaze_dimensions where
  "default_dimensions = \<lparr>gd_thickness_mm = D 3, gd_diameter_mm = D 100\<rparr>"

record grid_point_data =
  sg_x_mm :: double
  sg_y_mm :: double
  sg_z_mm :: double
  sg_von_mises_mpa :: double
  sg_refinement_level :: int

record stress_data =
  sr_success :: bool
  sr_total_nodes :: nat
  sr_total_elements :: nat
  sr_max_von_mises_mpa :: double
  sr_min_von_mises_mpa :: double
  sr_average_stress_mpa :: double
  sr_stress_concentration_factor :: double
  sr_solve_time_ms :: double
  sr_solver_backend :: string
  sr_stress_grid :: "grid_point_data list"

definition new_stress_data :: stress_data where
  "new_stress_data =
     \<lparr>sr_success = False, sr_total_nodes = 0, sr_total_elements = 0, sr_max_von_mises_mpa = 0, sr_min_von_mises_mpa = 0,
      sr_average_stress_mpa = 0, sr_stress_concentration_factor = 0, sr_solve_time_ms = 0, sr_solver_backend = ''builtin'',
      sr_stress_grid = []\<rparr>"

datatype fem_backend = Fem_builtin | Fem_dealii

type_synonym dealii_fem = "(stress_fem_config \<Rightarrow> crack_data list \<Rightarrow> glaze_dimensions \<Rightarrow> stress_data result) option"

record fem_adapter =
  fd_config :: stress_fem_config
  fd_backend :: fem_backend
  fd_external :: bool
  fd_solver :: "fem_solver option"

definition new_fem_adapter :: fem_adapter where
  "new_fem_adapter = \<lparr>fd_config = default_stress_fem, fd_backend = Fem_builtin, fd_external = False, fd_solver = None\<rparr>"

definition fem_available :: "dealii_fem \<Rightarrow> bool" where
  "fem_available dealii \<longleftrightarrow> dealii \<noteq> None"

definition algo_config :: "stress_fem_config \<Rightarrow> fem_config" where
  "algo_config c = default_fem_config
     \<lparr>fem_grid_resolution := sf_grid_resolution c, fem_youngs_modulus_gpa := sf_youngs_modulus_gpa c,
      fem_poissons_ratio := sf_poissons_ratio c, fem_use_adaptive_mesh := sf_use_adaptive_mesh c,
      fem_max_refinement_level := sf_max_refinement_level c,
      fem_crack_density_sensitivity := sf_crack_density_sensitivity c, fem_max_stress_mpa := sf_max_stress_mpa c,
      fem_refinement_stress_gradient_threshold := sf_refinement_stress_gradient_threshold c,
      fem_refinement_crack_density_threshold := sf_refinement_crack_density_threshold c,
      fem_coarsening_stress_gradient_threshold := sf_coarsening_stress_gradient_threshold c,
      fem_min_grid_resolution := sf_min_grid_resolution c, fem_max_total_nodes := sf_max_total_nodes c\<rparr>"

definition fem_adapter_initialize :: "dealii_fem \<Rightarrow> stress_fem_config \<Rightarrow> fem_adapter \<Rightarrow> fem_adapter" where
  "fem_adapter_initialize dealii config a =
     a\<lparr>fd_config := config, fd_solver := Some (fem_set_config (algo_config config) new_fem_solver),
       fd_backend := (if fem_available dealii then Fem_dealii else Fem_builtin)\<rparr>"

definition fem_solver_info :: "dealii_fem \<Rightarrow> fem_adapter \<Rightarrow> json" where
  "fem_solver_info dealii a = JObj
     [(''dealii_available'', JBool (fem_available dealii)),
      (''active_backend'', JStr (if fd_backend a = Fem_builtin then ''builtin'' else ''dealii'')),
      (''external_process'', JBool (fd_external a)), (''grid_resolution'', JInt (sf_grid_resolution (fd_config a))),
      (''adaptive_mesh'', JBool (sf_use_adaptive_mesh (fd_config a))),
      (''youngs_modulus_gpa'', JNum (sf_youngs_modulus_gpa (fd_config a))),
      (''poissons_ratio'', JNum (sf_poissons_ratio (fd_config a)))]"

definition compute_crack_influence :: "fem_adapter \<Rightarrow> double \<Rightarrow> double \<Rightarrow> double \<Rightarrow> crack_data list \<Rightarrow> double" where
  "compute_crack_influence a x y z cracks =
     (let sigma = sf_crack_density_sensitivity (fd_config a) in
      foldl (\<lambda>influence c.
        let cx = D (1/2) * (fk_start_x c + fk_end_x c); cy = D (1/2) * (fk_start_y c + fk_end_y c);
            dx = x - cx; dy = y - cy; dz = z - 0;
            dist_sq = dx * dx + dy * dy + dz * dz;
            width_eff = fk_width_um c / D 1000 + D (1/100);
            gaussian = dexp (- dist_sq / (D 2 * sigma * sigma));
            depth_factor = dtanh (fk_depth_um c / D 50)
        in influence + gaussian * depth_factor * width_eff) 0 cracks)"

definition crack_end :: "crack_data \<Rightarrow> double \<Rightarrow> double \<Rightarrow> point3d" where
  "crack_end c x y = \<lparr>px = x, py = y, pz = 0, pdepth = fk_depth_um c, pwidth = fk_width_um c, pnormal = None, pcurvature = None\<rparr>"

definition crack_of_data :: "crack_data \<Rightarrow> crack_info" where
  "crack_of_data c =
     \<lparr>ci_id = fk_id c, ci_porcelain_id = 0, ci_crack_code = [], ci_max_depth = fk_depth_um c, ci_max_width = fk_width_um c,
      ci_total_length = fk_length_mm c, ci_status = [],
      ci_points = [crack_end c (fk_start_x c) (fk_start_y c), crack_end c (fk_end_x c) (fk_end_y c)], ci_detected_at = 0\<rparr>"

text \<open>What surrounds the module: the build, the memory, the clocks, the answers of the other process.\<close>

record fem_world =
  fw_dealii :: dealii_fem
  fw_junk :: "nat \<Rightarrow> stress_tensor"
  fw_rand :: "nat \<Rightarrow> int"
  fw_now :: time_point
  fw_solve_ms :: double
  fw_answer :: "int \<Rightarrow> ipc_message option"
  fw_pending :: "int set"
  fw_ipc :: ipc

definition stress_data_of :: "double \<Rightarrow> stress_analysis_result \<Rightarrow> stress_data" where
  "stress_data_of solve_ms r =
     (let gps = sa_grid_points r; n = length gps; vm = (\<lambda>g. von_mises (gstress g)) in
      new_stress_data
        \<lparr>sr_success := True, sr_solve_time_ms := solve_ms, sr_total_nodes := n, sr_total_elements := n,
         sr_max_von_mises_mpa := sa_max_von_mises r, sr_average_stress_mpa := sa_avg_von_mises r,
         sr_min_von_mises_mpa := (case gps of [] \<Rightarrow> 0 | g # _ \<Rightarrow> foldl (\<lambda>m g. std_min m (vm g)) (vm g) gps),
         sr_stress_grid := map (\<lambda>g. \<lparr>sg_x_mm = gx g, sg_y_mm = gy g, sg_z_mm = gz g, sg_von_mises_mpa = vm g,
            sg_refinement_level = grefinement_level g\<rparr>) gps,
         sr_stress_concentration_factor :=
           (if 0 < sa_avg_von_mises r then sa_max_von_mises r / sa_avg_von_mises r else 0)\<rparr>)"

definition fem_builtin :: "fem_world \<Rightarrow> crack_data list \<Rightarrow> fem_adapter \<Rightarrow> stress_data result" where
  "fem_builtin w cracks a =
     (case fd_solver a of
        None \<Rightarrow> Inl (UB ''null solver'')
      | Some s \<Rightarrow> and_then (fem_analyze (fw_junk w) (fw_rand w) (fw_now w) s 0 (map crack_of_data cracks))
          (\<lambda>r. Inr (stress_data_of (fw_solve_ms w) r)))"

definition fem_solve :: "fem_world \<Rightarrow> crack_data list \<Rightarrow> glaze_dimensions \<Rightarrow> fem_adapter \<Rightarrow> stress_data result" where
  "fem_solve w cracks dims a =
     (case fw_dealii w of
        Some solve \<Rightarrow> if fd_backend a = Fem_dealii then solve (fd_config a) cracks dims else fem_builtin w cracks a
      | None \<Rightarrow> fem_builtin w cracks a)"

subsection \<open>The module (fem_stress_module.cpp)\<close>

record fem_module = worker_shell +
  fm_adapter :: "fem_adapter option"
  fm_config :: stress_fem_config

definition new_fem_module :: fem_module where
  "new_fem_module = worker_shell.extend new_shell \<lparr>fm_adapter = None, fm_config = default_stress_fem\<rparr>"

definition load_fem_settings :: "stress_fem_config loader" where
  "load_fem_settings = in_order
     [field json_get_int ''grid_resolution'' (\<lambda>v c. c\<lparr>sf_grid_resolution := v\<rparr>),
      field json_get_num ''youngs_modulus_gpa'' (\<lambda>v c. c\<lparr>sf_youngs_modulus_gpa := v\<rparr>),
      field json_get_num ''poissons_ratio'' (\<lambda>v c. c\<lparr>sf_poissons_ratio := v\<rparr>),
      field json_get_bool ''use_adaptive_mesh'' (\<lambda>v c. c\<lparr>sf_use_adaptive_mesh := v\<rparr>),
      field json_get_int ''max_refinement_level'' (\<lambda>v c. c\<lparr>sf_max_refinement_level := v\<rparr>)]"

text \<open>The settings, and the number of threads the pool is to have.\<close>

definition load_fem :: "(fem_module \<times> int) loader" where
  "load_fem = in_order
     [field json_get_bool ''external_process'' (\<lambda>v (m, n). (m\<lparr>ws_use_external := v\<rparr>, n)),
      section_of ''fem_config'' (\<lambda>(m, n). fm_config m) (\<lambda>c (m, n). (m\<lparr>fm_config := c\<rparr>, n)) load_fem_settings,
      field json_get_int ''compute_threads'' (\<lambda>v (m, n). (m, v))]"

definition fem_external :: "nat \<Rightarrow> nat \<Rightarrow> fem_module \<Rightarrow> ipc \<Rightarrow> (fem_module \<times> ipc) result" where
  "fem_external c f m w =
     and_then (case ws_channel m of None \<Rightarrow> Inr w | Some old \<Rightarrow> ipc_destroy old w) (\<lambda>w.
     and_then (external_process c ''fem_stress_client'' f w) (\<lambda>(ok, w). Inr (m\<lparr>ws_channel := Some c\<rparr>, w)))"

definition fem_initialize ::
  "dealii_fem \<Rightarrow> nat \<Rightarrow> nat \<Rightarrow> nat \<Rightarrow> nat \<Rightarrow> json \<Rightarrow> fem_module \<Rightarrow> ipc \<Rightarrow> (bool \<times> fem_module \<times> ipc) result outcome"
  where
  "fem_initialize dealii limit hardware c f cfg m w =
     (case load_fem cfg (m, max 1 (int hardware div 2)) of
        (Some e, (m, _)) \<Rightarrow> Returned (Inr (False, m\<lparr>ws_status := ERROR\<rparr>, w))
      | (None, (m, threads)) \<Rightarrow>
          (case make_pool limit hardware threads of
             Std_terminate \<Rightarrow> Std_terminate
           | Returned n \<Rightarrow>
               let a = (fem_adapter_initialize dealii (fm_config m) new_fem_adapter)\<lparr>fd_external := ws_use_external m\<rparr>;
                   m = m\<lparr>ws_pool := Some n, fm_adapter := Some a\<rparr>
               in Returned (and_then (if ws_use_external m then fem_external c f m w else Inr (m, w))
                    (\<lambda>(m, w). Inr (True, m\<lparr>ws_status := IDLE\<rparr>, w)))))"

definition json_get_u32 :: "json \<Rightarrow> nat result" where
  "json_get_u32 j =
     (case j of
        JInt i \<Rightarrow> Inr (nat (i mod 2 ^ 32))
      | JNum d \<Rightarrow> and_then (trunc_to 0 (2 ^ 32 - 1) d) (\<lambda>i. Inr (nat i))
      | JBool b \<Rightarrow> Inr (if b then 1 else 0)
      | _ \<Rightarrow> Inl Json_error)"

definition fem_answer :: "json \<Rightarrow> stress_data result" where
  "fem_answer p =
     and_then (json_value json_get_bool p ''success'' False) (\<lambda>a.
     and_then (json_value json_get_u32 p ''total_nodes'' 0) (\<lambda>b.
     and_then (json_value json_get_u32 p ''total_elements'' 0) (\<lambda>c.
     and_then (json_value json_get_num p ''max_von_mises_mpa'' 0) (\<lambda>d.
     and_then (json_value json_get_num p ''min_von_mises_mpa'' 0) (\<lambda>e.
     and_then (json_value json_get_num p ''average_stress_mpa'' 0) (\<lambda>f.
     and_then (json_value json_get_num p ''stress_concentration_factor'' 0) (\<lambda>g.
     and_then (json_value json_get_num p ''solve_time_ms'' 0) (\<lambda>h.
     and_then (json_value json_get_str p ''solver_backend'' ''external'') (\<lambda>i.
     Inr (new_stress_data
       \<lparr>sr_success := a, sr_total_nodes := b, sr_total_elements := c, sr_max_von_mises_mpa := d, sr_min_von_mises_mpa := e,
        sr_average_stress_mpa := f, sr_stress_concentration_factor := g, sr_solve_time_ms := h,
        sr_solver_backend := i\<rparr>))))))))))"

definition fem_payload :: "crack_data list \<Rightarrow> glaze_dimensions \<Rightarrow> json" where
  "fem_payload cracks dims = JObj
     [(''cracks'', JArr (map (\<lambda>c. JObj
         [(''id'', JInt (fk_id c)), (''start_x'', JNum (fk_start_x c)), (''start_y'', JNum (fk_start_y c)),
          (''end_x'', JNum (fk_end_x c)), (''end_y'', JNum (fk_end_y c)), (''depth_um'', JNum (fk_depth_um c)),
          (''width_um'', JNum (fk_width_um c))]) cracks)),
      (''dimensions'', JObj [(''thickness_mm'', JNum (gd_thickness_mm dims)), (''diameter_mm'', JNum (gd_diameter_mm dims))])]"

definition fem_message :: "time_point \<Rightarrow> json \<Rightarrow> int \<Rightarrow> ipc_message" where
  "fem_message now payload i =
     \<lparr>im_module_name = ''fem_stress'', im_command = ''analyze'', im_payload = payload, im_request_id = i, im_timestamp = now\<rparr>"

definition fem_with_adapter :: "crack_data list \<Rightarrow> glaze_dimensions \<Rightarrow> fem_module \<Rightarrow> fem_world \<Rightarrow>
    (stress_data \<times> fem_module \<times> fem_world) result" where
  "fem_with_adapter cracks dims m w =
     (case fm_adapter m of
        None \<Rightarrow> Inl (UB ''null adapter'')
      | Some a \<Rightarrow> and_then (fem_solve w cracks dims a) (\<lambda>r.
          Inr (r\<lparr>sr_solver_backend := (if fd_backend a = Fem_dealii then ''dealii'' else ''builtin'')\<rparr>, m, w)))"

definition fem_dispatch :: "crack_data list \<Rightarrow> glaze_dimensions \<Rightarrow> fem_module \<Rightarrow> fem_world \<Rightarrow>
    (stress_data \<times> fem_module \<times> fem_world) result" where
  "fem_dispatch cracks dims m w =
     and_then (reaches_process m (fw_ipc w)) (\<lambda>reached.
       if reached then
         and_then (solve_via_ipc fem_answer (fw_answer w) (the (ws_channel m)) (fem_message (fw_now w) (fem_payload cracks dims))
             m (fw_pending w) (fw_ipc w))
           (\<lambda>(r, m, pending, ipc). let w = w\<lparr>fw_pending := pending, fw_ipc := ipc\<rparr> in
             case r of Some r \<Rightarrow> if sr_success r then Inr (r, m, w) else fem_with_adapter cracks dims m w
             | None \<Rightarrow> fem_with_adapter cracks dims m w)
       else fem_with_adapter cracks dims m w)"

definition read_crack_data :: "json \<Rightarrow> crack_data result" where
  "read_crack_data c =
     and_then (json_value json_get_int c ''id'' 0) (\<lambda>i.
     and_then (json_value json_get_num c ''start_x'' 0) (\<lambda>x0.
     and_then (json_value json_get_num c ''start_y'' 0) (\<lambda>y0.
     and_then (json_value json_get_num c ''end_x'' 0) (\<lambda>x1.
     and_then (json_value json_get_num c ''end_y'' 0) (\<lambda>y1.
     and_then (json_value json_get_num c ''depth_um'' (D 10)) (\<lambda>d.
     and_then (json_value json_get_num c ''width_um'' (D 1)) (\<lambda>w.
     Inr \<lparr>fk_id = i, fk_start_x = x0, fk_start_y = y0, fk_end_x = x1, fk_end_y = y1, fk_depth_um = d, fk_width_um = w,
       fk_length_mm = dsqrt (dpow (x1 - x0) (D 2) + dpow (y1 - y0) (D 2))\<rparr>)))))))"

definition read_fem_job :: "json \<Rightarrow> (crack_data list \<times> glaze_dimensions) result" where
  "read_fem_job input =
     and_then (if json_contains input ''cracks'' then
         and_then (json_at input ''cracks'') (\<lambda>cs. map_result read_crack_data (json_elements cs)) else Inr []) (\<lambda>cracks.
     and_then (if json_contains input ''dimensions'' then
         and_then (json_at input ''dimensions'') (\<lambda>d.
         and_then (json_value json_get_num d ''thickness_mm'' (D 3)) (\<lambda>t.
         and_then (json_value json_get_num d ''diameter_mm'' (D 100)) (\<lambda>w.
         Inr \<lparr>gd_thickness_mm = t, gd_diameter_mm = w\<rparr>)))
       else Inr default_dimensions) (\<lambda>dims. Inr (cracks, dims)))"

definition fem_compute :: "json \<Rightarrow> fem_module \<Rightarrow> fem_world \<Rightarrow> (stress_data \<times> fem_module \<times> fem_world) result" where
  "fem_compute input m w = and_then (read_fem_job input) (\<lambda>(cracks, dims). fem_dispatch cracks dims m w)"

text \<open>Every \<open>stride\<close>-th point of the grid.\<close>

definition stride :: "nat \<Rightarrow> nat" where
  "stride n = max 1 (n div 1000)"

definition grid_sample :: "'p list \<Rightarrow> 'p list" where
  "grid_sample ps =
     map (\<lambda>i. ps ! (i * stride (length ps))) [0..<(length ps + stride (length ps) - 1) div stride (length ps)]"

definition stress_data_to_json :: "stress_data \<Rightarrow> json" where
  "stress_data_to_json r = JObj
     [(''success'', JBool (sr_success r)), (''total_nodes'', JInt (int (sr_total_nodes r))),
      (''total_elements'', JInt (int (sr_total_elements r))), (''max_von_mises_mpa'', JNum (sr_max_von_mises_mpa r)),
      (''min_von_mises_mpa'', JNum (sr_min_von_mises_mpa r)), (''average_stress_mpa'', JNum (sr_average_stress_mpa r)),
      (''stress_concentration_factor'', JNum (sr_stress_concentration_factor r)),
      (''solve_time_ms'', JNum (sr_solve_time_ms r)), (''solver_backend'', JStr (sr_solver_backend r)),
      (''stress_grid_sample'', JArr (map (\<lambda>p. JObj
         [(''x_mm'', JNum (sg_x_mm p)), (''y_mm'', JNum (sg_y_mm p)), (''z_mm'', JNum (sg_z_mm p)),
          (''von_mises_mpa'', JNum (sg_von_mises_mpa p)), (''refinement_level'', JInt (sg_refinement_level p))])
         (grid_sample (sr_stress_grid r))))]"

definition fem_run :: "json \<Rightarrow> fem_module \<Rightarrow> fem_world \<Rightarrow> ((bool \<times> json) \<times> fem_module \<times> fem_world) result" where
  "fem_run input m w =
     and_then (fem_compute input m w) (\<lambda>(r, m, w). Inr ((sr_success r, stress_data_to_json r), m, w))"

definition fem_run_async :: "(cpp_error \<Rightarrow> string) \<Rightarrow> json \<Rightarrow> fem_module \<Rightarrow> fem_world \<Rightarrow>
    (module_result \<times> fem_module \<times> fem_world) result" where
  "fem_run_async what input m w =
     (case fem_run input m w of
        Inr (out, m, w) \<Rightarrow> and_then (run_result what (Inr out)) (\<lambda>r. Inr (r, shell_finish m, w))
      | Inl e \<Rightarrow> and_then (run_result what (Inl e)) (\<lambda>r. Inr (r, shell_finish m, w)))"

definition fem_execute :: "json \<Rightarrow> fem_module \<Rightarrow> (bool \<times> json option \<times> fem_module) outcome" where
  "fem_execute input m =
     (case shell_execute m of
        Std_terminate \<Rightarrow> Std_terminate
      | Returned (ok, m) \<Rightarrow> Returned (ok, if ok then Some input else None, m))"

definition fem_execute_sync :: "(cpp_error \<Rightarrow> string) \<Rightarrow> json \<Rightarrow> fem_module \<Rightarrow> fem_world \<Rightarrow>
    (bool \<times> module_result option \<times> fem_module \<times> fem_world) result" where
  "fem_execute_sync what input m w = shell_execute_sync what (fem_run input) m w"

text \<open>A caller's configuration replaces the module's one only when one of two of its members differs.\<close>

definition analyze_stress_sync :: "stress_fem_config \<Rightarrow> crack_data list \<Rightarrow> glaze_dimensions \<Rightarrow> fem_module \<Rightarrow> fem_world \<Rightarrow>
    (stress_data \<times> fem_module \<times> fem_world) result" where
  "analyze_stress_sync config cracks dims m w =
     (case fm_adapter m of
        None \<Rightarrow> Inr (new_stress_data, m, w)
      | Some a \<Rightarrow>
          let m = (if sf_grid_resolution (fm_config m) \<noteq> sf_grid_resolution config \<or>
                      \<not> deq (sf_youngs_modulus_gpa (fm_config m)) (sf_youngs_modulus_gpa config)
                   then m\<lparr>fm_config := config, fm_adapter := Some (fem_adapter_initialize (fw_dealii w) config a)\<rparr> else m)
          in fem_dispatch cracks dims m w)"

text \<open>The batch is captured by reference: \<open>alive i\<close> is whether it still exists when task \<open>i\<close> runs.\<close>

definition analyze_batch_parallel ::
  "(nat \<Rightarrow> bool) \<Rightarrow> (crack_data list \<times> glaze_dimensions) list \<Rightarrow> stress_fem_config \<Rightarrow> fem_module \<Rightarrow> fem_world \<Rightarrow>
    (stress_data result list \<times> fem_module) result"
  where
  "analyze_batch_parallel alive batch config m w =
     (case fm_adapter m of
        None \<Rightarrow> Inr ([], m)
      | Some a \<Rightarrow>
          let (a, m) = (if sf_grid_resolution (fm_config m) \<noteq> sf_grid_resolution config then
                let a = fem_adapter_initialize (fw_dealii w) config a in (a, m\<lparr>fm_config := config, fm_adapter := Some a\<rparr>)
              else (a, m))
          in if ws_pool m = None \<and> batch \<noteq> [] then Inl (UB ''null thread pool'')
             else Inr (map (\<lambda>(i, cracks, dims).
               if alive i then fem_solve w cracks dims a else Inl (UB ''dangling batch'')) (List.enumerate 0 batch), m))"

definition fem_cancel :: "fem_module \<Rightarrow> bool \<times> fem_module" where
  "fem_cancel m = (True, shell_cancel m)"

definition fem_shutdown :: "fem_module \<Rightarrow> fem_world \<Rightarrow> (fem_module \<times> fem_world) result" where
  "fem_shutdown m w =
     and_then (shell_shutdown m (fw_ipc w)) (\<lambda>(m, ipc). Inr (m\<lparr>fm_adapter := None\<rparr>, w\<lparr>fw_ipc := ipc\<rparr>))"

subsection \<open>The server process (process_main.cpp)\<close>

definition fem_process_config :: json where
  "fem_process_config = JObj [(''fem_config'', JObj
     [(''grid_resolution'', JInt 50), (''youngs_modulus_gpa'', JNum (D 70)), (''poissons_ratio'', JNum (D (22/100))),
      (''use_adaptive_mesh'', JBool True), (''max_refinement_level'', JInt 3)])]"

definition fem_serve :: "(cpp_error \<Rightarrow> string) \<Rightarrow> nat \<Rightarrow> ipc_message \<Rightarrow> fem_module \<times> fem_world \<Rightarrow> ipc \<Rightarrow>
    (bool \<times> (fem_module \<times> fem_world) \<times> ipc) result" where
  "fem_serve what = serve ''fem_stress'' ''analyze''
     (\<lambda>input (m, w). and_then (fem_execute_sync what input m w) (\<lambda>(ok, r, m, w). Inr (ok, r, m, w)))"

subsection \<open>Lemmas\<close>

lemma sample_range:
  fixes n :: nat
  assumes "i < (n + k - 1) div k" and "0 < k"
  shows "i * k < n"
proof -
  have "Suc i * k \<le> (n + k - 1) div k * k"
    using assms(1) by (intro mult_le_mono1) simp
  also have "\<dots> \<le> n + k - 1"
    by (rule div_times_less_eq_dividend)
  finally show ?thesis
    using assms(2) by (cases k) simp_all
qed

lemma sample_count: "(n + stride n - 1) div stride n \<le> 1999"
proof (cases "n < 2000")
  case True
  then have "stride n = 1"
    using div_le_mono [of n 1999 1000] by (simp add: stride_def)
  then show ?thesis
    using True by simp
next
  case False
  then have k: "stride n = n div 1000" "2 \<le> n div 1000"
    using div_le_mono [of 2000 n 1000] by (simp_all add: stride_def)
  have "n < (n div 1000 + 1) * 1000"
    using dividend_less_div_times [of 1000 n] by (simp add: algebra_simps)
  then have "n + stride n - 1 < 1999 * stride n + 1"
    using k by simp
  then show ?thesis
    using k div_le_mono [of "n + stride n - 1" "1999 * stride n" "stride n"] by simp
qed

text \<open>The sample of the grid in an answer has at most 1999 points, starts with the first point of the grid, and
  holds points of the grid only.
\<close>

theorem grid_sample_bounded:
  "length (grid_sample ps) \<le> 1999 \<and> set (grid_sample ps) \<subseteq> set ps \<and> take 1 (grid_sample ps) = take 1 ps"
proof (intro conjI)
  have pos: "0 < stride (length ps)"
    by (simp add: stride_def)
  show "length (grid_sample ps) \<le> 1999"
    using sample_count [of "length ps"] by (simp add: grid_sample_def)
  show "set (grid_sample ps) \<subseteq> set ps"
    using sample_range [OF _ pos] by (auto simp: grid_sample_def)
  show "take 1 (grid_sample ps) = take 1 ps"
  proof (cases ps)
    case (Cons p qs)
    then have "0 < (length ps + stride (length ps) - 1) div stride (length ps)"
      using pos by (simp add: div_greater_zero_iff)
    then show ?thesis
      by (simp add: grid_sample_def upt_conv_Cons Cons)
  qed (simp add: grid_sample_def stride_def)
qed

lemma no_cracks_analysis:
  "\<exists>r. fem_analyze junk rand now s pid [] = Inr r \<and> sa_grid_points r = [] \<and> sa_max_von_mises r = 0"
  using D_divide [of 0 1000000] by (simp add: fem_analyze_def build_grid_def empty_mesh_def assemble_result_def Let_def)

text \<open>A request without cracks is answered at once and reported as a success: no node was computed, and the
  stresses are zero, whatever the configuration and the dimensions.
\<close>

theorem request_without_cracks_succeeds:
  assumes "fm_adapter m = Some a" and "fd_solver a = Some s" and "fw_dealii w = None"
    and "reaches_process m (fw_ipc w) = Inr False" and "read_fem_job input = Inr ([], dims)"
  shows "\<exists>r. fem_compute input m w = Inr (r, m, w) \<and> sr_success r \<and> sr_total_nodes r = 0 \<and> sr_max_von_mises_mpa r = 0"
proof -
  obtain r where "fem_analyze (fw_junk w) (fw_rand w) (fw_now w) s 0 [] = Inr r" "sa_grid_points r = []" "sa_max_von_mises r = 0"
    using no_cracks_analysis by blast
  then show ?thesis
    using assms by (simp add: fem_compute_def fem_dispatch_def fem_with_adapter_def fem_solve_def fem_builtin_def stress_data_of_def Let_def)
qed

definition fem_demo :: fem_module where
  "fem_demo = new_fem_module\<lparr>fm_adapter := Some (fem_adapter_initialize None default_stress_fem new_fem_adapter), ws_status := IDLE\<rparr>"

definition fem_demo_world :: fem_world where
  "fem_demo_world =
     \<lparr>fw_dealii = None, fw_junk = \<lambda>_. \<lparr>sigma_xx = 0, sigma_yy = 0, sigma_zz = 0, tau_xy = 0, tau_yz = 0, tau_zx = 0, von_mises = 0\<rparr>,
      fw_rand = \<lambda>_. 0, fw_now = 0, fw_solve_ms = 0, fw_answer = \<lambda>_. None, fw_pending = {}, fw_ipc = no_channels\<rparr>"

theorem request_without_cracks_succeeds_witness:
  "\<exists>r. fem_compute (JObj []) fem_demo fem_demo_world = Inr (r, fem_demo, fem_demo_world) \<and> sr_success r \<and> sr_total_nodes r = 0"
  using request_without_cracks_succeeds [of fem_demo "fem_adapter_initialize None default_stress_fem new_fem_adapter"
      "fem_set_config (algo_config default_stress_fem) new_fem_solver" fem_demo_world "JObj []" default_dimensions]
  by (auto simp: fem_demo_def fem_demo_world_def fem_adapter_initialize_def reaches_process_def new_fem_module_def new_shell_def
      worker_shell.defs read_fem_job_def json_contains_def)

lemma deq_not_nan: "deq x y \<Longrightarrow> deq x x"
  by (cases x; cases y) auto

text \<open>A changed configuration is ignored. \<open>analyze_stress_sync\<close> gives the module the caller's configuration only
  when the grid resolution or Young's modulus differs; with those two equal, every other setting of the
  caller is without effect and the analysis runs with the module's old ones.
\<close>

theorem changed_configuration_ignored:
  assumes "sf_grid_resolution config = sf_grid_resolution (fm_config m)"
    and "deq (sf_youngs_modulus_gpa (fm_config m)) (sf_youngs_modulus_gpa config)"
  shows "analyze_stress_sync config cracks dims m w = analyze_stress_sync (fm_config m) cracks dims m w"
  using assms deq_not_nan [OF assms(2)] by (cases "fm_adapter m") (simp_all add: analyze_stress_sync_def)

theorem changed_configuration_ignored_witness:
  "analyze_stress_sync (default_stress_fem\<lparr>sf_poissons_ratio := 0, sf_max_stress_mpa := D 1, sf_use_adaptive_mesh := False\<rparr>)
      [] default_dimensions fem_demo fem_demo_world
    = analyze_stress_sync default_stress_fem [] default_dimensions fem_demo fem_demo_world"
  using changed_configuration_ignored
      [of "default_stress_fem\<lparr>sf_poissons_ratio := 0, sf_max_stress_mpa := D 1, sf_use_adaptive_mesh := False\<rparr>" fem_demo
        "[]" default_dimensions fem_demo_world]
  by (simp add: fem_demo_def new_fem_module_def worker_shell.defs default_stress_fem_def)

end
