(* ===== verification/Analysis_Routes.thy ===== *)
theory Analysis_Routes
  imports Http_Server Stress_Analysis Washburn_Model Bending_Test Module_Pipeline
begin

section \<open>The analysis endpoints (src/http_server.cpp) and the stress stage (include/modules/stress_analysis_module.h)\<close>

text \<open>
  The handlers that run an analysis of stored cracks and store its result, as steps like the other
  handlers: \<open>None\<close> waits for ever, \<open>Inl\<close> is an exception or undefined behaviour. The body of a
  request is its text; the material that is left when none has the id is \<open>junk_material\<close>. The
  query behind the history of laser data is declared without a body, so it is a parameter.
\<close>

subsection \<open>Laser data\<close>

definition laser_row_json :: "laser_data \<Rightarrow> json" where
  "laser_row_json d = JObj
     [(''id'', JInt (ld_id d)), (''sensor_id'', JInt (ld_sensor_id d)), (''crack_detected'', JBool (ld_crack_detected d)),
      (''crack_count'', JInt (ld_crack_count d)), (''resolution'', JNum (ld_resolution d))]"

definition laser_history :: "(int \<Rightarrow> int \<Rightarrow> ('s, laser_data list) step) \<Rightarrow> 'db pg_env \<Rightarrow> string \<Rightarrow> ('s, response) step" where
  "laser_history get_laser_data env id_text =
     then_step (lift_result (stoi id_text)) (\<lambda>i.
     then_step (get_laser_data i 24) (\<lambda>ds. respond env (JArr (map laser_row_json ds))))"

subsection \<open>Stress analysis\<close>

definition with_points :: "(crack_info \<times> point3d list) list \<Rightarrow> crack_info list" where
  "with_points cps = map (\<lambda>(c, pts). c\<lparr>ci_points := pts\<rparr>) cps"

definition run_stress ::
  "'db pg_env \<Rightarrow> (nat \<Rightarrow> stress_tensor) \<Rightarrow> (nat \<Rightarrow> int) \<Rightarrow> time_point \<Rightarrow> string \<Rightarrow> ('db dbm, response) step" where
  "run_stress env junk rand now id_text =
     then_step (lift_result (stoi id_text)) (\<lambda>pid.
     then_step (get_cracks_by_porcelain env pid 100) (\<lambda>cracks.
     then_step (cracks_with_points env cracks) (\<lambda>cps.
     then_step (lift_result (fem_analyze junk rand now new_fem_solver pid (with_points cps))) (\<lambda>r.
     then_step (insert_stress_analysis env r) (\<lambda>analysis_id.
     then_step (insert_stress_grid_points env analysis_id (sa_grid_points r)) (\<lambda>_.
     respond env (fem_result_to_json r)))))))"

subsection \<open>Penetration\<close>

text \<open>A setting of the request body; whatever is wrong with the body, the default stays.\<close>

definition body_setting :: "'db pg_env \<Rightarrow> (json \<Rightarrow> 'a result) \<Rightarrow> string \<Rightarrow> 'a \<Rightarrow> string \<Rightarrow> 'a" where
  "body_setting env get key dflt body =
     (if body = [] then dflt
      else case and_then (pg_parse env body) (\<lambda>j.
          if json_contains j key then and_then (json_at j key) get else Inr dflt) of Inr v \<Rightarrow> v | Inl _ \<Rightarrow> dflt)"

fun put_all :: "(string \<times> json) list \<Rightarrow> json \<Rightarrow> json result" where
  "put_all [] j = Inr j"
| "put_all ((k, v) # kvs) j = and_then (json_put k v j) (put_all kvs)"

definition penetration_test ::
  "'db pg_env \<Rightarrow> time_point \<Rightarrow> repair_material \<Rightarrow> string \<Rightarrow> string \<Rightarrow> string \<Rightarrow> ('db dbm, response) step" where
  "penetration_test env now junk_material body crack_text material_text =
     then_step (lift_result (stoi crack_text)) (\<lambda>crack_id.
     then_step (lift_result (stoi material_text)) (\<lambda>material_id.
     then_step (load_crack env crack_id) (\<lambda>crack.
     then_step (get_repair_materials env) (\<lambda>materials.
     let material = chosen_material material_id junk_material materials;
         target = body_setting env json_get_num ''target_depth_um'' (ci_max_depth crack) body in
     then_step (\<lambda>s. map_option (\<lambda>r. (r, s))
       (predict_penetration default_penetration_config now crack_id material_id crack material target)) (\<lambda>p.
     then_step (insert_penetration_prediction env p) (\<lambda>_.
     then_step (lift_result (put_all
         [(''predicted_time_s'', JNum (pn_predicted_time_s p)), (''penetration_rate_um_s'', JNum (pn_penetration_rate_um_s p)),
          (''time_series'', num_array (pn_time_series p)), (''depth_series'', num_array (pn_depth_series p))]
         (wb_result_to_json default_penetration_config p))) (respond env)))))))"

subsection \<open>Bending test\<close>

text \<open>The stored result is assembled from two runs; what it does not take over keeps its default.\<close>

definition final_bending_result :: "int \<Rightarrow> int \<Rightarrow> int \<Rightarrow> bending_test_result \<Rightarrow> bending_test_result \<Rightarrow> bending_test_result" where
  "final_bending_result porcelain_id crack_id material_id rep unrep =
     new_bending_test_result
       \<lparr>bt_porcelain_id := porcelain_id, bt_crack_id := crack_id, bt_material_id := material_id,
        bt_original_strength_mpa := bt_original_strength_mpa rep,
        bt_unrepaired_strength_mpa := bt_repaired_strength_mpa unrep,
        bt_repaired_strength_mpa := bt_repaired_strength_mpa rep,
        bt_strength_recovery_ratio :=
          (if 0 < bt_original_strength_mpa rep then bt_repaired_strength_mpa rep / bt_original_strength_mpa rep else 0),
        bt_load := bt_load rep, bt_disp := bt_disp rep\<rparr>"

definition bending_answer :: "bending_test_result \<Rightarrow> json result" where
  "bending_answer r = put_all
     [(''original_strength_mpa'', JNum (bt_original_strength_mpa r)),
      (''unrepaired_strength_mpa'', JNum (bt_unrepaired_strength_mpa r)),
      (''repaired_strength_mpa'', JNum (bt_repaired_strength_mpa r)),
      (''strength_recovery_ratio'', JNum (bt_strength_recovery_ratio r)),
      (''load_displacement_curve'', JArr (map (\<lambda>(d, l). JObj [(''displacement_mm'', JNum d), (''load_n'', JNum l)])
         (zip (bt_disp r) (bt_load r))))]
     (bending_to_json r)"

definition two_bending_runs ::
  "time_point \<Rightarrow> int \<Rightarrow> int \<Rightarrow> int \<Rightarrow> crack_info \<Rightarrow> repair_material \<Rightarrow> bending_test_result result" where
  "two_bending_runs now porcelain_id crack_id material_id crack material =
     and_then (simulate_bending new_bending_test now porcelain_id crack_id material_id crack material True) (\<lambda>(rep, t).
     and_then (simulate_bending t now porcelain_id crack_id material_id crack material False) (\<lambda>(unrep, t).
     Inr (final_bending_result porcelain_id crack_id material_id rep unrep)))"

definition bending_endpoint ::
  "'db pg_env \<Rightarrow> time_point \<Rightarrow> repair_material \<Rightarrow> string \<Rightarrow> string \<Rightarrow> string \<Rightarrow> ('db dbm, response) step" where
  "bending_endpoint env now junk_material body crack_text material_text =
     then_step (lift_result (stoi crack_text)) (\<lambda>crack_id.
     then_step (lift_result (stoi material_text)) (\<lambda>material_id.
     then_step (load_crack env crack_id) (\<lambda>crack.
     then_step (get_repair_materials env) (\<lambda>materials.
     let material = chosen_material material_id junk_material materials;
         porcelain_id = body_setting env json_get_int ''porcelain_id'' (ci_porcelain_id crack) body in
     then_step (lift_result (two_bending_runs now porcelain_id crack_id material_id crack material)) (\<lambda>r.
     then_step (insert_bending_test_result env r) (\<lambda>_.
     then_step (lift_result (bending_answer r)) (respond env)))))))"

subsection \<open>The stress stage\<close>

text \<open>The stage that would analyse every detection of cracks; \<open>main\<close> does not start it. The counter
  only times the log line.\<close>

record stress_message =
  sm_porcelain_id :: int
  sm_cracks :: "crack_info list"
  sm_result :: stress_analysis_result

record stress_stage =
  sg_config :: fem_config
  sg_fem :: fem_solver
  sg_counter :: u64

definition new_stress_stage :: stress_stage where
  "new_stress_stage =
     (let c = default_fem_config\<lparr>fem_grid_resolution := 50, fem_youngs_modulus_gpa := D 70, fem_poissons_ratio := D (22/100),
        fem_crack_density_sensitivity := D 50, fem_max_stress_mpa := D 300\<rparr>
      in \<lparr>sg_config = c, sg_fem = fem_set_config c new_fem_solver, sg_counter = 0\<rparr>)"

definition set_stage_config :: "fem_config \<Rightarrow> stress_stage \<Rightarrow> stress_stage" where
  "set_stage_config config m = m\<lparr>sg_config := config, sg_fem := fem_set_config config (sg_fem m)\<rparr>"

text \<open>A failed insert is logged and the result is passed on; a failed analysis is logged; undefined behaviour is \<open>Inl\<close>.\<close>

definition store_stress :: "'db pg_env \<Rightarrow> stress_analysis_result \<Rightarrow> ('db dbm, unit) step" where
  "store_stress env r s =
     (case then_step (insert_stress_analysis env r) (\<lambda>analysis_id.
        if 0 < analysis_id
        then then_step (insert_stress_grid_points env analysis_id (sa_grid_points r)) (\<lambda>_. lift_result (Inr ()))
        else lift_result (Inr ())) s of
        None \<Rightarrow> None
      | Some (Inl (UB u), s) \<Rightarrow> Some (Inl (UB u), s)
      | Some (_, s) \<Rightarrow> Some (Inr (), s))"

definition stress_stage_process ::
  "'db pg_env \<Rightarrow> (nat \<Rightarrow> stress_tensor) \<Rightarrow> (nat \<Rightarrow> int) \<Rightarrow> time_point \<Rightarrow> crack_detection \<Rightarrow>
    stress_stage \<times> stress_message lfq option \<Rightarrow> ('db dbm, stress_stage \<times> stress_message lfq option) step"
  where
  "stress_stage_process env junk rand now msg = (\<lambda>(m, out).
     if cd_cracks msg = [] then lift_result (Inr (m, out))
     else case fem_analyze junk rand now (sg_fem m) (cd_porcelain_id msg) (cd_cracks msg) of
       Inl (UB u) \<Rightarrow> lift_result (Inl (UB u))
     | Inl _ \<Rightarrow> lift_result (Inr (m, out))
     | Inr r \<Rightarrow> then_step (store_stress env r) (\<lambda>_. lift_result (Inr
         (m\<lparr>sg_counter := sg_counter m + 1\<rparr>,
          map_option (push \<lparr>sm_porcelain_id = cd_porcelain_id msg, sm_cracks = cd_cracks msg, sm_result = r\<rparr>) out))))"

subsection \<open>What the endpoints answer\<close>

text \<open>The stress endpoint runs into undefined behaviour for a porcelain with a single crack of one point: it
  analyses with the default configuration, so once the crack has been read from the database, the analysis
  reads past the end of its nodes; nothing is stored and nothing is answered.
\<close>

theorem stress_endpoint_overruns:
  assumes "stoi id_text = Inr pid" and "get_cracks_by_porcelain env pid 100 s = Some (Inr cracks, s1)"
    and "cracks_with_points env cracks s1 = Some (Inr [(c, pts)], s2)" and "near_crack (c\<lparr>ci_points := pts\<rparr>)"
  shows "run_stress env junk rand now id_text s = Some (Inl (UB ''vector index''), s2)"
proof -
  have "fem_analyze junk rand now new_fem_solver pid [c\<lparr>ci_points := pts\<rparr>] = Inl (UB ''vector index'')"
    by (rule single_point_overruns) (use assms(4) in \<open>simp_all add: new_fem_solver_def\<close>)
  then show ?thesis
    using assms(1-3) by (simp add: run_stress_def then_step_def lift_result_def with_points_def)
qed

text \<open>A database with one crack of one point, two millimetres deep and wide.\<close>

definition one_crack_env :: "unit pg_env" where
  "one_crack_env = \<lparr>pg_exec = (\<lambda>c q db. (Tuples_ok [replicate 9 ''1''], db)), pg_connected = (\<lambda>c db. True),
     pg_parse = (\<lambda>_. Inl Json_error), pg_dump = (\<lambda>j. Inr ''{}''), pg_atoi = (\<lambda>_. 1), pg_atof = (\<lambda>_. D 2)\<rparr>"

theorem stress_endpoint_overruns_witness:
  "\<forall>junk rand now. run_stress one_crack_env junk rand now ''7'' \<lparr>dm_available = [0], dm_server = ()\<rparr>
     = Some (Inl (UB ''vector index''), \<lparr>dm_available = [0], dm_server = ()\<rparr>)"
proof -
  let ?s = "\<lparr>dm_available = [0], dm_server = ()\<rparr>"
  obtain c where c: "get_cracks_by_porcelain one_crack_env 7 100 ?s = Some (Inr [c], ?s)"
      "ci_max_depth c = D 2" "ci_max_width c = D 2"
    by (simp add: get_cracks_by_porcelain_def with_conn_def pool_acquire_def pool_release_def query_rows_def one_crack_env_def
        read_crack_def)
  obtain p where p: "cracks_with_points one_crack_env [c] ?s = Some (Inr [(c, [p])], ?s)" "px p = D 2" "py p = D 2" "pz p = D 2"
    by (simp add: get_crack_points_def with_conn_def pool_acquire_def pool_release_def query_rows_def one_crack_env_def
        read_point_def then_step_def lift_result_def)
  have "D (1 / 10 ^ 6) \<le> D 4" "D 4 \<le> D (10 ^ 6)"
    by (rule D_mono; simp)+
  then have near: "near_crack (c\<lparr>ci_points := [p]\<rparr>)"
    using c p by (simp add: near_crack_def)
  show ?thesis
    by (intro allI stress_endpoint_overruns [OF _ c(1) p(1) near]) (simp add: stoi_def digits_value_def)
qed

lemma strengths_keep_failure [simp]:
  "unrepaired_strength_pa (t\<lparr>bd_failure_load_n := x\<rparr>) crack = unrepaired_strength_pa t crack"
  by (simp add: unrepaired_strength_pa_def crack_influence_factor_def Let_def)

lemma simulated_state:
  "simulate_bending t now pid cid mid crack material repaired = Inr (r, t') \<Longrightarrow> \<exists>x. t' = t\<lparr>bd_failure_load_n := x\<rparr>"
  by (auto simp: simulate_bending_def and_then_eq_Inr_iff Let_def split_beta)

text \<open>What the bending endpoint stores and answers is assembled from two runs of the default specimen: the curve
  is that of the repaired run, two points ending at about 30 N, the repaired strength is not below the
  unrepaired one, and the method, the parameters, the stress distribution and the time are left at their defaults
  (an empty text, null values and the epoch).
\<close>

theorem bending_endpoint_result:
  assumes "ci_max_depth crack \<le> D 100" and "bonding_of material \<le> D 1000"
    and "crack_span default_bending_config crack = (center, half)" and "encl center 0 20" and "encl half 0 7"
  shows "\<exists>r F. two_bending_runs now pid cid mid crack material = Inr r \<and> bt_load r = [0, F] \<and> D 29 < F \<and> F < D 31
    \<and> \<not> bt_repaired_strength_mpa r < bt_unrepaired_strength_mpa r
    \<and> bt_method r = [] \<and> bt_parameters r = JNull \<and> bt_stress_distribution r = JNull \<and> bt_created_at r = 0"
proof -
  have returns: "\<exists>r t'. simulate_bending t now pid cid mid crack material b = Inr (r, t')"
    if "bd_config t = default_bending_config" for t b
    by (rule simulate_bending_returns) (simp add: that default_bending_config_def)
  obtain rep t where rep: "simulate_bending new_bending_test now pid cid mid crack material True = Inr (rep, t)"
    using returns [of new_bending_test True] by auto
  obtain x where t: "t = new_bending_test\<lparr>bd_failure_load_n := x\<rparr>"
    using simulated_state [OF rep] by blast
  obtain unrep t2 where unrep: "simulate_bending t now pid cid mid crack material False = Inr (unrep, t2)"
    using returns [of t False] by (auto simp: t)
  have "\<not> repaired_strength_pa new_bending_test crack material < unrepaired_strength_pa new_bending_test crack"
    by (simp add: repaired_strength_pa_def Let_def std_max_right_not_less)
  then have "\<not> repaired_strength_pa new_bending_test crack material / D (10 ^ 6) < unrepaired_strength_pa new_bending_test crack / D (10 ^ 6)"
    by (intro ddivide_not_less) simp_all
  then have "\<not> bt_repaired_strength_mpa rep < bt_repaired_strength_mpa unrep"
    by (simp add: simulated_strengths [OF rep] simulated_strengths [OF unrep] t)
  moreover obtain F where "bt_load rep = [0, F]" "D 29 < F" "F < D 31"
    using default_specimen_loads [OF assms rep] by blast
  ultimately show ?thesis
    using rep unrep by (simp add: two_bending_runs_def final_bending_result_def new_bending_test_result_def)
qed

theorem bending_endpoint_result_witness:
  "\<exists>r F. two_bending_runs 0 1 1 1 bending_demo_crack bending_demo_material = Inr r \<and> bt_load r = [0, F] \<and> F < D 31 \<and> bt_method r = []"
proof -
  have "\<exists>r F. two_bending_runs 0 1 1 1 bending_demo_crack bending_demo_material = Inr r \<and> bt_load r = [0, F] \<and> D 29 < F \<and> F < D 31
    \<and> \<not> bt_repaired_strength_mpa r < bt_unrepaired_strength_mpa r
    \<and> bt_method r = [] \<and> bt_parameters r = JNull \<and> bt_stress_distribution r = JNull \<and> bt_created_at r = 0"
    by (rule bending_endpoint_result [of _ _ "D 20" 0])
      (simp_all add: bending_demo_crack_def bending_demo_material_def bonding_of_def json_contains_def json_at_def json_get_num_def
        crack_span_def default_bending_config_def encl_def)
  then show ?thesis
    by blast
qed

end
