(* ===== verification/Http_Dispatch.thy ===== *)
theory Http_Dispatch
  imports Analysis_Routes Metrics
begin

section \<open>From a connection to an answer (src/http_server.cpp, src/main.cpp)\<close>

text \<open>
  The handlers behind the table of routes, the connections that read one request each, and the I/O
  threads that run the handlers. What the handlers take from outside (the clock, the files, the
  random engine, uninitialised memory) may differ from request to request, so every request comes
  with its environment. A handler that returns runs in one step. The route table is searched, and
  the handler runs, under the mutex of the table: a handler that waits for ever (\<open>None\<close>) keeps both
  its thread and the mutex, and a request that waits for the mutex keeps its thread.
\<close>

subsection \<open>The handlers\<close>

record 'db http_env =
  he_db :: "'db pg_env"
  he_files :: "string \<Rightarrow> string option"
  he_doc_root :: string
  he_now :: time_point
  he_rnd :: rnd
  he_geometry :: dem_geometry
  he_material :: repair_material
  he_dem :: dem_config
  he_junk :: "nat \<Rightarrow> stress_tensor"
  he_rand :: "nat \<Rightarrow> int"
  he_laser :: "int \<Rightarrow> int \<Rightarrow> ('db dbm, laser_data list) step"
  he_metrics :: "string result"

text \<open>The response of the route \<open>main.cpp\<close> adds; the text is what the registry serialises to.\<close>

definition metrics_response :: "string \<Rightarrow> response" where
  "metrics_response body =
     \<lparr>rs_status = 200, rs_content_type = ''text/plain; version=0.0.4; charset=utf-8'', rs_allow_origin = False, rs_body = body\<rparr>"

definition capture :: "string list \<Rightarrow> nat \<Rightarrow> string" where
  "capture cs k = (if k < length cs then cs ! k else [])"

fun call_endpoint :: "'db http_env \<Rightarrow> string \<Rightarrow> string list \<Rightarrow> endpoint \<Rightarrow> ('db dbm, response) step" where
  "call_endpoint h body cs Metrics = then_step (lift_result (he_metrics h)) (\<lambda>text. lift_result (Inr (metrics_response text)))"
| "call_endpoint h body cs List_porcelains = list_porcelains (he_db h)"
| "call_endpoint h body cs Show_porcelain = show_porcelain (he_db h) (capture cs 0)"
| "call_endpoint h body cs Porcelain_cracks = porcelain_cracks (he_db h) (capture cs 0)"
| "call_endpoint h body cs Crack_points = crack_points (he_db h) (capture cs 0)"
| "call_endpoint h body cs Predict_crack = predict_crack (he_db h) (capture cs 0)"
| "call_endpoint h body cs Simulate_repair =
     simulate_repair (he_db h) (he_rnd h) (he_geometry h) (he_material h) (he_dem h) (capture cs 0) (capture cs 1)"
| "call_endpoint h body cs List_alerts = list_alerts (he_db h)"
| "call_endpoint h body cs Acknowledge_alert = acknowledge_alert (he_db h) (capture cs 0)"
| "call_endpoint h body cs List_materials = list_materials (he_db h)"
| "call_endpoint h body cs Laser_history = laser_history (he_laser h) (he_db h) (capture cs 0)"
| "call_endpoint h body cs Run_stress = run_stress (he_db h) (he_junk h) (he_rand h) (he_now h) (capture cs 0)"
| "call_endpoint h body cs Latest_stress = latest_stress (he_db h) (capture cs 0)"
| "call_endpoint h body cs Penetration_test =
     penetration_test (he_db h) (he_now h) (he_material h) body (capture cs 0) (capture cs 1)"
| "call_endpoint h body cs Bending_test =
     bending_endpoint (he_db h) (he_now h) (he_material h) body (capture cs 0) (capture cs 1)"

record http_request =
  rq_target :: string
  rq_method :: verb
  rq_body :: string

definition answer_request :: "'db http_env \<Rightarrow> http_request \<Rightarrow> ('db dbm, response) step" where
  "answer_request h q =
     (case route_request server_routes (rq_target q) (rq_method q) of
        Serve_file path \<Rightarrow> lift_result (Inr (serve_file (he_files h) (he_doc_root h) path))
      | Call e cs \<Rightarrow> call_endpoint h (rq_body q) cs e
      | Api_not_found \<Rightarrow> lift_result (error_response (he_db h) 404 ''API endpoint not found''))"

definition below_api :: "http_request \<Rightarrow> bool" where
  "below_api q \<longleftrightarrow> take 5 (rq_target q) = ''/api/''"

subsection \<open>The server\<close>

text \<open>\<open>ht_reading\<close> counts the connections whose one read is outstanding, \<open>ht_free\<close> the I/O threads that
  are not stuck, and \<open>ht_written\<close> holds the answers handed to \<open>async_write\<close>.\<close>

record 'db http_server =
  ht_open :: bool
  ht_accepting :: bool
  ht_reading :: nat
  ht_free :: nat
  ht_locked :: bool
  ht_db :: "'db dbm"
  ht_written :: "(http_request \<times> response) list"

definition http_start :: "nat \<Rightarrow> 'db dbm \<Rightarrow> 'db http_server" where
  "http_start threads db =
     \<lparr>ht_open = True, ht_accepting = True, ht_reading = 0, ht_free = threads, ht_locked = False, ht_db = db, ht_written = []\<rparr>"

definition http_stop :: "'db http_server \<Rightarrow> 'db http_server" where
  "http_stop s = s\<lparr>ht_open := False\<rparr>"

text \<open>A new connection starts to read at once; whatever happened, the next accept is started.\<close>

definition http_accept :: "bool \<Rightarrow> 'db http_server \<Rightarrow> 'db http_server" where
  "http_accept ok s = s\<lparr>ht_accepting := True, ht_reading := (if ok then Suc (ht_reading s) else ht_reading s)\<rparr>"

text \<open>The end of the read of a connection: an error drops it. An exception is logged by the thread,
  which goes on; the connection is dropped without an answer. \<open>Inl\<close> is undefined behaviour.\<close>

definition http_read_failed :: "'db http_server \<Rightarrow> 'db http_server" where
  "http_read_failed s = s\<lparr>ht_reading := ht_reading s - 1\<rparr>"

definition http_handle :: "'db http_env \<Rightarrow> http_request \<Rightarrow> 'db http_server \<Rightarrow> 'db http_server result" where
  "http_handle h q s =
     (let s = s\<lparr>ht_reading := ht_reading s - 1\<rparr> in
      if below_api q \<and> ht_locked s then Inr (s\<lparr>ht_free := ht_free s - 1\<rparr>)
      else case answer_request h q (ht_db s) of
          None \<Rightarrow> Inr (s\<lparr>ht_free := ht_free s - 1, ht_locked := True\<rparr>)
        | Some (Inl (UB u), db) \<Rightarrow> Inl (UB u)
        | Some (Inl e, db) \<Rightarrow> Inr (s\<lparr>ht_db := db\<rparr>)
        | Some (Inr r, db) \<Rightarrow> Inr (s\<lparr>ht_db := db, ht_written := ht_written s @ [(q, r)]\<rparr>))"

text \<open>An accept on a closed acceptor completes with an error. Between the steps other threads use the
  database; they never give it more connections than it had.\<close>

inductive http_step :: "'db http_server \<Rightarrow> 'db http_server \<Rightarrow> bool" where
  accept: "ht_accepting s \<Longrightarrow> 0 < ht_free s \<Longrightarrow> (ok \<longrightarrow> ht_open s) \<Longrightarrow>
    http_step s (http_accept ok (s\<lparr>ht_accepting := False\<rparr>))"
| read_failed: "0 < ht_reading s \<Longrightarrow> 0 < ht_free s \<Longrightarrow> http_step s (http_read_failed s)"
| request: "0 < ht_reading s \<Longrightarrow> 0 < ht_free s \<Longrightarrow> http_handle h q s = Inr s' \<Longrightarrow> http_step s s'"
| database: "length (dm_available db) \<le> length (dm_available (ht_db s)) \<Longrightarrow> http_step s (s\<lparr>ht_db := db\<rparr>)"
| stop: "http_step s (http_stop s)"

inductive_cases http_step_cases: "http_step s s'"

subsection \<open>A handler that waits\<close>

definition api_answers :: "'db http_server \<Rightarrow> (http_request \<times> response) list" where
  "api_answers s = filter (below_api \<circ> fst) (ht_written s)"

lemma answer_waits_api: "answer_request h q db = None \<Longrightarrow> below_api q"
  by (auto simp: answer_request_def route_request_def below_api_def lift_result_def split: if_splits option.splits)

lemma http_handle_locked:
  assumes "ht_locked s" and "http_handle h q s = Inr s'"
  shows "ht_locked s'" and "api_answers s' = api_answers s" and "ht_free s' \<le> ht_free s"
    and "below_api q \<Longrightarrow> ht_free s' = ht_free s - 1 \<and> ht_written s' = ht_written s"
  using assms answer_waits_api [of h q "ht_db s"]
  by (auto simp: http_handle_def api_answers_def Let_def split: if_splits option.splits sum.splits cpp_error.splits)

lemma http_step_locked:
  assumes "http_step s s'" and "ht_locked s"
  shows "ht_locked s'" and "api_answers s' = api_answers s" and "ht_free s' \<le> ht_free s"
    and "ht_free s = 0 \<Longrightarrow> ht_written s' = ht_written s"
  using assms
  by (auto elim!: http_step_cases simp: http_accept_def http_read_failed_def http_stop_def api_answers_def
      dest: http_handle_locked)

lemma http_steps_locked:
  assumes "http_step\<^sup>*\<^sup>* s s'" and "ht_locked s"
  shows "ht_locked s' \<and> api_answers s' = api_answers s \<and> ht_free s' \<le> ht_free s
    \<and> (ht_free s = 0 \<longrightarrow> ht_written s' = ht_written s)"
  using assms(1)
proof (induction rule: rtranclp_induct)
  case (step s1 s2)
  then show ?case
    using http_step_locked [of s1 s2] by auto
qed (simp add: assms(2))

lemmas first_queries = get_all_porcelains_def get_porcelain_def get_cracks_by_porcelain_def get_crack_def
  get_crack_points_def get_active_alerts_def update_alert_status_def get_repair_materials_def
  get_latest_stress_analysis_def

lemma handler_waits:
  assumes "dm_available db = []" and "e \<noteq> Metrics" and "e \<noteq> Laser_history"
    and "list_all (\<lambda>ds. digits_value ds < 2 ^ 31) cs"
  shows "call_endpoint h body cs e db = None"
proof -
  have fit: "digits_value (capture cs k) < 2 ^ 31" for k
    using assms(4) by (simp add: capture_def list_all_length digits_value_def)
  then have fit: "stoi (capture cs k) = Inr (digits_value (capture cs k))"
      "stoll (capture cs k) = Inr (digits_value (capture cs k))" for k
    using order.strict_trans [OF fit [of k], of "2 ^ 63"] by (simp_all add: stoi_def stoll_def)
  note handlers = list_porcelains_def show_porcelain_def porcelain_cracks_def crack_points_def predict_crack_def
    simulate_repair_def list_alerts_def acknowledge_alert_def list_materials_def run_stress_def latest_stress_def
    penetration_test_def bending_endpoint_def load_crack_def
  show ?thesis
    using assms(2,3)
    by (cases e) (simp_all add: handlers then_step_def lift_result_def fit first_queries with_conn_def pool_acquire_def assms(1))
qed

text \<open>C12: Without a connection to the database the first request for stored data ends the service. Its handler
  waits for ever and keeps the mutex of the route table; from then on no request below /api/ is
  answered, whatever it asks for, each one takes another I/O thread out of service, and once no
  thread is left nothing is answered at all.
\<close>

theorem waiting_handler_stops_api:
  assumes "dm_available (ht_db s) = []" and "route_request server_routes (rq_target q) (rq_method q) = Call e cs"
    and "e \<noteq> Metrics" and "e \<noteq> Laser_history" and "list_all (\<lambda>ds. digits_value ds < 2 ^ 31) cs"
    and "http_handle h q s = Inr s1" and "http_step\<^sup>*\<^sup>* s1 s2"
  shows "api_answers s2 = api_answers s \<and> ht_free s2 \<le> ht_free s - 1
    \<and> (below_api q' \<longrightarrow> http_handle h' q' s2 = Inr s3 \<longrightarrow> ht_free s3 = ht_free s2 - 1 \<and> ht_written s3 = ht_written s2)
    \<and> (ht_free s2 = 0 \<longrightarrow> http_step\<^sup>*\<^sup>* s2 s4 \<longrightarrow> ht_written s4 = ht_written s2)"
proof -
  have "answer_request h q (ht_db s) = None"
    using assms(1-5) by (simp add: answer_request_def handler_waits)
  then have s1: "ht_locked s1" "api_answers s1 = api_answers s" "ht_free s1 = ht_free s - 1"
    using assms(6) by (auto simp: http_handle_def api_answers_def Let_def split: if_splits)
  then show ?thesis
    using http_steps_locked [OF assms(7)] http_steps_locked [of s2 s4] http_handle_locked(4) [of s2 h' q' s3] by auto
qed

text \<open>Two threads, a database that could not be reached, and a request for the list of the pieces.\<close>

definition unreachable_http :: "unit http_server" where
  "unreachable_http = (http_start 2 \<lparr>dm_available = [], dm_server = ()\<rparr>)\<lparr>ht_reading := 3\<rparr>"

definition pieces_request :: http_request where
  "pieces_request = \<lparr>rq_target = ''/api/porcelains'', rq_method = Verb_get, rq_body = []\<rparr>"

lemma pieces_route: "route_request server_routes (rq_target pieces_request) (rq_method pieces_request) = Call List_porcelains []"
  by code_simp

theorem waiting_handler_stops_api_witness:
  "\<forall>h. \<exists>s1 s2. http_handle h pieces_request unreachable_http = Inr s1 \<and> http_handle h pieces_request s1 = Inr s2
     \<and> ht_free s2 = 0 \<and> \<not> (\<exists>s3. http_step\<^sup>*\<^sup>* s2 s3 \<and> ht_written s3 \<noteq> [])"
proof
  fix h :: "unit http_env"
  have blocked: "answer_request h pieces_request \<lparr>dm_available = [], dm_server = ()\<rparr> = None"
    using handler_waits [of "\<lparr>dm_available = [], dm_server = ()\<rparr>" List_porcelains "[]" h "rq_body pieces_request"]
    by (simp add: answer_request_def pieces_route)
  have api: "below_api pieces_request"
    by (simp add: below_api_def pieces_request_def)
  define s1 where "s1 = unreachable_http\<lparr>ht_reading := 2, ht_free := 1, ht_locked := True\<rparr>"
  have s1: "http_handle h pieces_request unreachable_http = Inr s1"
    by (simp add: http_handle_def s1_def unreachable_http_def http_start_def blocked)
  define s2 where "s2 = s1\<lparr>ht_reading := 1, ht_free := 0\<rparr>"
  have s2: "http_handle h pieces_request s1 = Inr s2"
    by (simp add: http_handle_def s1_def s2_def unreachable_http_def http_start_def api)
  have "http_step s1 s2"
    by (rule http_step.request [OF _ _ s2]) (simp_all add: s1_def)
  then have "ht_written s3 = []" if "http_step\<^sup>*\<^sup>* s2 s3" for s3
    using waiting_handler_stops_api [OF _ pieces_route _ _ _ s1, of s2 pieces_request h s2 s3] that
    by (simp add: s2_def s1_def unreachable_http_def http_start_def r_into_rtranclp)
  then show "\<exists>s1 s2. http_handle h pieces_request unreachable_http = Inr s1 \<and> http_handle h pieces_request s1 = Inr s2
     \<and> ht_free s2 = 0 \<and> \<not> (\<exists>s3. http_step\<^sup>*\<^sup>* s2 s3 \<and> ht_written s3 \<noteq> [])"
    using s1 s2 by (intro exI [of _ s1] exI [of _ s2]) (auto simp: s2_def)
qed

subsection \<open>The invariant of the server\<close>

inductive http_reachable :: "nat \<Rightarrow> 'db http_server \<Rightarrow> bool" for threads where
  start: "http_reachable threads (http_start threads db)"
| step: "http_reachable threads s \<Longrightarrow> http_step s s' \<Longrightarrow> http_reachable threads s'"

text \<open>C35: The acceptor always has an accept outstanding, also after \<open>stop\<close> has closed it: then each accept fails
  and starts the next, so the event loop never runs out of work by itself. No thread is lost while
  the mutex is free, and it is held for good exactly when a thread is.
\<close>

theorem http_server_inv:
  assumes "http_reachable threads s" and "0 < threads"
  shows "ht_accepting s \<and> ht_free s \<le> threads \<and> (ht_locked s \<longleftrightarrow> ht_free s < threads)"
  using assms(1)
proof induction
  case (step s s')
  show ?case
    using step.hyps(2) step.IH answer_waits_api assms(2)
    by cases (auto simp: http_accept_def http_read_failed_def http_stop_def http_handle_def Let_def
        split: if_splits option.splits sum.splits cpp_error.splits)
qed (simp add: http_start_def)

theorem http_server_inv_witness:
  "\<forall>db :: unit dbm. ht_accepting (http_accept False ((http_stop (http_start 4 db))\<lparr>ht_accepting := False\<rparr>))"
proof
  fix db :: "unit dbm"
  have "http_reachable 4 (http_stop (http_start 4 db))"
    by (intro http_reachable.step [OF http_reachable.start http_step.stop])
  then have "http_reachable 4 (http_accept False ((http_stop (http_start 4 db))\<lparr>ht_accepting := False\<rparr>))"
    by (rule http_reachable.step) (rule http_step.accept; simp add: http_stop_def http_start_def)
  then show "ht_accepting (http_accept False ((http_stop (http_start 4 db))\<lparr>ht_accepting := False\<rparr>))"
    using http_server_inv [of 4 "http_accept False ((http_stop (http_start 4 db))\<lparr>ht_accepting := False\<rparr>)"] by simp
qed

end
