(* ===== verification/Server_Lifecycle.thy ===== *)
theory Server_Lifecycle
  imports Config Module_Pipeline Alert_Manager Metrics
begin

section \<open>Logging and the life of the server (include/logger.h, src/main.cpp)\<close>

text \<open>
  \<open>main\<close> as the sequence of its operations (initialisation, start, the waiting loop, stop), run beside
  the threads it creates: one per pipeline module, the worker of the alert sink, the worker of the alert
  manager and the I/O threads. Handlers of SIGINT and SIGTERM may run at any time. The library spdlog,
  the binding of ports and the creation of threads are parameters of the steps.
\<close>

subsection \<open>The logger\<close>

datatype log_level = Debug | Info | Warn | Error_level | Critical

record log_sink =
  ls_file :: "(string \<times> nat \<times> nat) option"
  ls_level :: log_level
  ls_pattern :: string

record logger =
  lg_name :: string
  lg_sinks :: "log_sink list"
  lg_level :: log_level
  lg_flush_on :: log_level

record log_registry =
  lr_loggers :: "string \<Rightarrow> logger option"
  lr_default :: "logger option"

text \<open>What the code uses of spdlog: a rotating file sink is constructed or throws, and a logger is
  registered. The documentation promises that a second logger of a name is refused.\<close>

record spdlog =
  sp_open :: "string \<Rightarrow> bool"
  sp_register :: "logger \<Rightarrow> log_registry \<Rightarrow> log_registry result"

definition register_doc :: "spdlog \<Rightarrow> bool" where
  "register_doc sp \<longleftrightarrow> (\<forall>l r. case sp_register sp l r of
       Inl e \<Rightarrow> lr_loggers r (lg_name l) \<noteq> None \<and> (\<exists>m. e = Runtime_error m)
     | Inr r' \<Rightarrow> lr_loggers r (lg_name l) = None \<and> lr_loggers r' = (lr_loggers r)(lg_name l \<mapsto> l))"

definition pm_log_path :: string where
  "pm_log_path = ''/app/logs/porcelain_monitor.log''"

definition make_logger :: "string \<Rightarrow> string \<Rightarrow> nat \<Rightarrow> nat \<Rightarrow> logger" where
  "make_logger name log_path max_size max_files =
     (let console_sink = \<lparr>ls_file = None, ls_level = Debug,
            ls_pattern = ''[%Y-%m-%d %H:%M:%S.%e] [%^%l%$] [%n] %v''\<rparr>;
          file_sink = \<lparr>ls_file = Some (log_path, max_size, max_files), ls_level = Info,
            ls_pattern = ''[%Y-%m-%d %H:%M:%S.%e] [%l] [%n] [thread %t] %v''\<rparr>
      in \<lparr>lg_name = name, lg_sinks = [console_sink, file_sink], lg_level = Debug, lg_flush_on = Warn\<rparr>)"

definition init_logger ::
  "spdlog \<Rightarrow> string \<Rightarrow> string \<Rightarrow> nat \<Rightarrow> nat \<Rightarrow> log_registry \<Rightarrow> logger result \<times> log_registry" where
  "init_logger sp name log_path max_size max_files r =
     (let logger = make_logger name log_path max_size max_files in
      if \<not> sp_open sp log_path then (Inl (Runtime_error ''Failed opening file''), r)
      else case sp_register sp logger r of
          Inl e \<Rightarrow> (Inl e, r)
        | Inr r \<Rightarrow> (Inr logger, r\<lparr>lr_default := Some logger\<rparr>))"

text \<open>\<open>init_logger()\<close> with its default arguments, and \<open>get\<close>.\<close>

definition init_default_logger :: "spdlog \<Rightarrow> log_registry \<Rightarrow> logger result \<times> log_registry" where
  "init_default_logger sp = init_logger sp ''pm'' pm_log_path (1048576 * 50) 5"

definition logging_get :: "spdlog \<Rightarrow> log_registry \<Rightarrow> logger result \<times> log_registry" where
  "logging_get sp r =
     (case lr_loggers r ''pm'' of Some logger \<Rightarrow> (Inr logger, r) | None \<Rightarrow> init_default_logger sp r)"

subsection \<open>Threads and operations\<close>

datatype server_thread =
    Laser_fanout | Crack_router | Crack_fanout | Fatigue_predictor | Dem_simulator
  | Alert_sink | Alert_queue

text \<open>A worker is at the test of its loop, in a turn, waiting for a database connection that never
  comes (\<open>Blocked\<close>), past its loop, or not there (never started, or joined). The worker of the alert
  manager also stands at the predicate of its wait with the queue's mutex held (\<open>Locked\<close>), between the
  predicate and the wait (\<open>Deciding\<close>), and in the wait.\<close>

datatype thread = No_thread | Testing | Working | Locked | Deciding | Asleep | Blocked | Finished

datatype io_thread = Io_test | Io_run | Io_blocked | Io_done

datatype acceptor = Profinet_port | Http_port | Websocket_port

datatype exit_status = Exit int | Terminated | Undefined

datatype main_op =
    Init_logger | Load_config | Init_database | Make_profinet | Make_alert_ws | Init_alerts | Make_http | Wire
  | Listen acceptor | Set_flag server_thread | Spawn server_thread | Spawn_io | Serve
  | Clear_running | Reset_guard | Close acceptor | Clear_flag server_thread | Notify_alerts | Join server_thread
  | Stop_ioc | Join_io

definition init_ops :: "main_op list" where
  "init_ops = [Init_logger, Load_config, Init_database, Make_profinet, Make_alert_ws, Init_alerts, Make_http, Wire]"

definition worker_start :: "server_thread \<Rightarrow> main_op list" where
  "worker_start w = [Set_flag w, Spawn w]"

definition alert_ws_start :: "main_op list" where
  "alert_ws_start = Listen Websocket_port # worker_start Alert_queue @ worker_start Alert_sink"

definition start_ops :: "main_op list" where
  "start_ops = Listen Profinet_port # worker_start Laser_fanout @ worker_start Crack_router
     @ worker_start Crack_fanout @ worker_start Fatigue_predictor @ worker_start Dem_simulator
     @ alert_ws_start @ [Listen Http_port, Spawn_io]"

definition module_stop_ops :: "server_thread \<Rightarrow> main_op list" where
  "module_stop_ops w = [Clear_flag w, Join w]"

definition alert_manager_stop_ops :: "main_op list" where
  "alert_manager_stop_ops = [Clear_flag Alert_queue, Notify_alerts, Join Alert_queue]"

definition alert_ws_stop :: "main_op list" where
  "alert_ws_stop = module_stop_ops Alert_sink @ alert_manager_stop_ops @ [Close Websocket_port]"

definition stop_ops :: "main_op list" where
  "stop_ops = [Clear_running, Reset_guard, Close Profinet_port] @ module_stop_ops Laser_fanout
     @ module_stop_ops Crack_router @ module_stop_ops Crack_fanout @ module_stop_ops Fatigue_predictor
     @ module_stop_ops Dem_simulator @ alert_ws_stop @ [Close Http_port, Stop_ioc, Join_io]"

definition main_ops :: "main_op list" where
  "main_ops = init_ops @ start_ops @ [Serve] @ stop_ops"

subsection \<open>The state\<close>

record 'db main_env =
  se_log :: spdlog
  se_path :: string
  se_atof :: "string \<Rightarrow> double"
  se_parse :: json_parser
  se_env :: environment
  se_fs :: "string \<Rightarrow> bytes option"
  se_pg :: "'db pg_env"
  se_db :: 'db
  se_bind :: "u16 \<Rightarrow> bool"
  se_clock :: "nat \<Rightarrow> int"

record 'db monitor =
  mo_running :: bool
  mo_logs :: log_registry
  mo_cfg :: config
  mo_global :: config
  mo_db :: "'db dbm option"
  mo_alerts :: alert_manager
  mo_pipeline :: pipeline
  mo_open :: "acceptor \<Rightarrow> bool"
  mo_flag :: "server_thread \<Rightarrow> bool"
  mo_thread :: "server_thread \<Rightarrow> thread"
  mo_queued :: nat
  mo_io :: "io_thread list"
  mo_guard :: bool
  mo_stopped :: bool
  mo_ticks :: nat
  mo_metrics :: registry
  mo_main :: "main_op list"
  mo_exit :: "exit_status option"

definition new_monitor :: "'db monitor" where
  "new_monitor = \<lparr>mo_running = True, mo_logs = \<lparr>lr_loggers = \<lambda>_. None, lr_default = None\<rparr>,
     mo_cfg = default_config, mo_global = default_config, mo_db = None, mo_alerts = new_alert_manager,
     mo_pipeline = new_pipeline, mo_open = \<lambda>_. False, mo_flag = \<lambda>_. False, mo_thread = \<lambda>_. No_thread,
     mo_queued = 0, mo_io = [], mo_guard = True, mo_stopped = False, mo_ticks = 0,
     mo_metrics = new_registry, mo_main = main_ops, mo_exit = None\<rparr>"

definition set_thread :: "server_thread \<Rightarrow> thread \<Rightarrow> 'db monitor \<Rightarrow> 'db monitor" where
  "set_thread w t s = s\<lparr>mo_thread := (mo_thread s)(w := t)\<rparr>"

definition set_io :: "nat \<Rightarrow> io_thread \<Rightarrow> 'db monitor \<Rightarrow> 'db monitor" where
  "set_io k t s = s\<lparr>mo_io := (mo_io s)[k := t]\<rparr>"

text \<open>A notification moves the worker of the alert manager only when it is in the wait.\<close>

definition notify_alerts :: "'db monitor \<Rightarrow> 'db monitor" where
  "notify_alerts s = (if mo_thread s Alert_queue = Asleep then set_thread Alert_queue Locked s else s)"

definition joinable :: "'db monitor \<Rightarrow> server_thread \<Rightarrow> bool" where
  "joinable s w \<longleftrightarrow> mo_thread s w \<noteq> No_thread"

definition signal_handler :: "'db main_env \<Rightarrow> 'db monitor \<Rightarrow> 'db monitor" where
  "signal_handler env s =
     (case logging_get (se_log env) (mo_logs s) of
        (Inl e, r) \<Rightarrow> s\<lparr>mo_running := False, mo_logs := r, mo_exit := Some Terminated\<rparr>
      | (Inr logger, r) \<Rightarrow> s\<lparr>mo_running := False, mo_logs := r\<rparr>)"

subsection \<open>The main thread\<close>

datatype 's op_result = Done 's | Again 's | Wait | Raised cpp_error 's

fun exec_op :: "'db main_env \<Rightarrow> bool \<Rightarrow> main_op \<Rightarrow> 'db monitor \<Rightarrow> 'db monitor op_result" where
  "exec_op env ok Init_logger s =
     (case init_default_logger (se_log env) (mo_logs s) of
        (Inl e, r) \<Rightarrow> Raised e (s\<lparr>mo_logs := r\<rparr>)
      | (Inr logger, r) \<Rightarrow> Done (s\<lparr>mo_logs := r\<rparr>))"
| "exec_op env ok Load_config s =
     (case and_then (load_from_file (se_atof env) (se_parse env) (se_env env) (se_fs env) (se_path env))
             (server_init_config (se_atof env) (se_env env)) of
        Inl e \<Rightarrow> Raised e s
      | Inr (kept, cfg) \<Rightarrow> Done (s\<lparr>mo_cfg := kept, mo_global := cfg\<rparr>))"
| "exec_op env ok Init_database s = Done (s\<lparr>mo_db := Some (server_pool (se_pg env) (mo_global s) (se_db env))\<rparr>)"
| "exec_op env ok Make_profinet s =
     (if se_bind env (sc_profinet_port (cfg_server (mo_global s))) then Done s
      else Raised (Runtime_error ''bind'') s)"
| "exec_op env ok Make_alert_ws s =
     (if se_bind env (sc_websocket_port (cfg_server (mo_global s))) then Done s
      else Raised (Runtime_error ''bind'') s)"
| "exec_op env ok Init_alerts s =
     (let a = cfg_alerts (mo_global s) in
      Done (s\<lparr>mo_alerts := (am_init (ac_depth_threshold a) (ac_width_threshold a) (ac_sms_enabled a)
        (ac_websocket_enabled a) (ac_sms_gateway_url a) (ac_alert_phone_number a) (mo_alerts s))
          \<lparr>am_ws_server := True\<rparr>\<rparr>))"
| "exec_op env ok Make_http s =
     (if se_bind env (sc_http_port (cfg_server (mo_global s))) then Done s
      else Raised (Runtime_error ''bind'') s)"
| "exec_op env ok Wire s = Done (s\<lparr>mo_pipeline := wire_pipeline (mo_pipeline s)\<rparr>)"
| "exec_op env ok (Listen a) s = Done (s\<lparr>mo_open := (mo_open s)(a := True)\<rparr>)"
| "exec_op env ok (Set_flag w) s = Done (s\<lparr>mo_flag := (mo_flag s)(w := True)\<rparr>)"
| "exec_op env ok (Spawn w) s =
     (if ok then Done (set_thread w Testing s) else Raised (Runtime_error ''thread'') s)"
| "exec_op env ok Spawn_io s =
     (if length (mo_io s) < io_thread_count (mo_cfg s) then
        if ok then Again (s\<lparr>mo_io := mo_io s @ [Io_test]\<rparr>) else Raised (Runtime_error ''thread'') s
      else Done s)"
| "exec_op env ok Serve s =
     (if mo_running s then
        Again (s\<lparr>mo_ticks := Suc (mo_ticks s), mo_metrics := set_gauge ''pm_uptime_seconds''
          (D (real_of_int (se_clock env (mo_ticks s)))) [] (mo_metrics s)\<rparr>)
      else Done s)"
| "exec_op env ok Clear_running s = Done (s\<lparr>mo_running := False\<rparr>)"
| "exec_op env ok Reset_guard s = Done (s\<lparr>mo_guard := False\<rparr>)"
| "exec_op env ok (Close a) s = Done (s\<lparr>mo_open := (mo_open s)(a := False)\<rparr>)"
| "exec_op env ok (Clear_flag w) s = Done (s\<lparr>mo_flag := (mo_flag s)(w := False)\<rparr>)"
| "exec_op env ok Notify_alerts s = Done (notify_alerts s)"
| "exec_op env ok (Join w) s =
     (if mo_thread s w \<in> {No_thread, Finished} then Done (set_thread w No_thread s) else Wait)"
| "exec_op env ok Stop_ioc s = Done (s\<lparr>mo_stopped := True\<rparr>)"
| "exec_op env ok Join_io s = (if set (mo_io s) \<subseteq> {Io_done} then Done s else Wait)"

text \<open>The \<open>catch\<close> of \<open>main\<close> runs after the destructor of the server. That destructor ends the program
  when the worker of the sink is still joinable; the destructor of a module that is still running joins
  its thread while the object is being destroyed. Then the error is logged, and logging may throw.\<close>

definition fatal :: "'db main_env \<Rightarrow> cpp_error \<Rightarrow> 'db monitor \<Rightarrow> 'db monitor" where
  "fatal env e s =
     (case e of
        UB m \<Rightarrow> s\<lparr>mo_exit := Some Undefined\<rparr>
      | _ \<Rightarrow>
          if joinable s Alert_sink then s\<lparr>mo_exit := Some Terminated\<rparr>
          else if \<exists>w \<in> {Laser_fanout, Crack_router, Crack_fanout, Fatigue_predictor, Dem_simulator}. joinable s w
          then s\<lparr>mo_exit := Some Undefined\<rparr>
          else (case logging_get (se_log env) (mo_logs s) of
              (Inl e, r) \<Rightarrow> s\<lparr>mo_logs := r, mo_exit := Some Terminated\<rparr>
            | (Inr logger, r) \<Rightarrow> s\<lparr>mo_logs := r, mo_exit := Some (Exit 1)\<rparr>))"

text \<open>One operation of \<open>main\<close>; \<open>None\<close> when it has to wait or has ended.\<close>

definition main_step :: "'db main_env \<Rightarrow> bool \<Rightarrow> 'db monitor \<Rightarrow> 'db monitor option" where
  "main_step env ok s =
     (if mo_exit s \<noteq> None then None
      else case mo_main s of
          [] \<Rightarrow> Some (s\<lparr>mo_exit := Some (Exit 0)\<rparr>)
        | op # ops \<Rightarrow> (case exec_op env ok op s of
              Done s \<Rightarrow> Some (s\<lparr>mo_main := ops\<rparr>)
            | Again s \<Rightarrow> Some s
            | Wait \<Rightarrow> None
            | Raised e s \<Rightarrow> Some (fatal env e s)))"

subsection \<open>The other threads\<close>

text \<open>The steps of the workers. A turn of the sink may put an alert into the queue of the alert manager,
  for which it needs the mutex, and notifies one waiter after that.\<close>

inductive thread_step :: "'db monitor \<Rightarrow> 'db monitor \<Rightarrow> bool" where
  leave: "mo_thread s w = Testing \<Longrightarrow> \<not> mo_flag s w \<Longrightarrow> thread_step s (set_thread w Finished s)"
| enter: "mo_thread s w = Testing \<Longrightarrow> mo_flag s w \<Longrightarrow> w \<noteq> Alert_queue \<Longrightarrow> thread_step s (set_thread w Working s)"
| turn: "mo_thread s w = Working \<Longrightarrow> w \<noteq> Alert_queue \<Longrightarrow> thread_step s (set_thread w Testing s)"
| enqueue: "mo_thread s Alert_sink = Working \<Longrightarrow> mo_thread s Alert_queue \<notin> {Locked, Deciding} \<Longrightarrow>
    thread_step s (notify_alerts (s\<lparr>mo_queued := Suc (mo_queued s)\<rparr>))"
| lock: "mo_thread s Alert_queue = Testing \<Longrightarrow> mo_flag s Alert_queue \<Longrightarrow>
    thread_step s (set_thread Alert_queue Locked s)"
| pass: "mo_thread s Alert_queue = Locked \<Longrightarrow> mo_queued s \<noteq> 0 \<or> \<not> mo_flag s Alert_queue \<Longrightarrow>
    thread_step s (set_thread Alert_queue Working s)"
| decide: "mo_thread s Alert_queue = Locked \<Longrightarrow> mo_queued s = 0 \<Longrightarrow> mo_flag s Alert_queue \<Longrightarrow>
    thread_step s (set_thread Alert_queue Deciding s)"
| sleep: "mo_thread s Alert_queue = Deciding \<Longrightarrow> thread_step s (set_thread Alert_queue Asleep s)"
| deliver: "mo_thread s Alert_queue = Working \<Longrightarrow> mo_queued s = Suc n \<Longrightarrow> thread_step s (s\<lparr>mo_queued := n\<rparr>)"
| drained: "mo_thread s Alert_queue = Working \<Longrightarrow> mo_queued s = 0 \<Longrightarrow> thread_step s (set_thread Alert_queue Testing s)"

inductive io_step :: "'db monitor \<Rightarrow> 'db monitor \<Rightarrow> bool" where
  test: "k < length (mo_io s) \<Longrightarrow> mo_io s ! k = Io_test \<Longrightarrow>
    io_step s (set_io k (if mo_running s then Io_run else Io_done) s)"
| stopped: "k < length (mo_io s) \<Longrightarrow> mo_io s ! k = Io_run \<Longrightarrow> mo_stopped s \<Longrightarrow> io_step s (set_io k Io_test s)"

text \<open>\<open>quiet_step\<close> is what the program does undisturbed; \<open>mo_step\<close> adds what may happen to it: an
  operation of \<open>main\<close> fails, a signal arrives, an exception escapes a handler, \<open>run\<close> finds no work, a
  thread waits for a connection of an exhausted pool. The database steps of the threads never give the pool
  more connections than it had.\<close>

inductive quiet_step :: "'db main_env \<Rightarrow> 'db monitor \<Rightarrow> 'db monitor \<Rightarrow> bool" for env where
  main: "main_step env True s = Some s' \<Longrightarrow> quiet_step env s s'"
| worker: "mo_exit s = None \<Longrightarrow> thread_step s s' \<Longrightarrow> quiet_step env s s'"
| io: "mo_exit s = None \<Longrightarrow> io_step s s' \<Longrightarrow> quiet_step env s s'"

definition exhausted :: "'db monitor \<Rightarrow> bool" where
  "exhausted s \<longleftrightarrow> (\<exists>db. mo_db s = Some db \<and> pool_acquire db = None)"

inductive mo_step :: "'db main_env \<Rightarrow> 'db monitor \<Rightarrow> 'db monitor \<Rightarrow> bool" for env where
  quiet: "quiet_step env s s' \<Longrightarrow> mo_step env s s'"
| failure: "main_step env False s = Some s' \<Longrightarrow> mo_step env s s'"
| signal: "mo_exit s = None \<Longrightarrow> mo_step env s (signal_handler env s)"
| io_exception: "mo_exit s = None \<Longrightarrow> k < length (mo_io s) \<Longrightarrow> mo_io s ! k = Io_run \<Longrightarrow>
    mo_step env s (set_io k Io_test s)"
| io_waits: "mo_exit s = None \<Longrightarrow> k < length (mo_io s) \<Longrightarrow> mo_io s ! k = Io_run \<Longrightarrow> exhausted s \<Longrightarrow>
    mo_step env s (set_io k Io_blocked s)"
| sink_waits: "mo_exit s = None \<Longrightarrow> mo_thread s Alert_sink = Working \<Longrightarrow> exhausted s \<Longrightarrow>
    mo_step env s (set_thread Alert_sink Blocked s)"
| database: "mo_exit s = None \<Longrightarrow> mo_db s = Some db \<Longrightarrow> length (dm_available db') \<le> length (dm_available db) \<Longrightarrow>
    mo_step env s (s\<lparr>mo_db := Some db'\<rparr>)"

inductive mo_reachable :: "'db main_env \<Rightarrow> 'db monitor \<Rightarrow> bool" for env where
  init: "mo_reachable env new_monitor"
| step: "mo_reachable env s \<Longrightarrow> mo_step env s s' \<Longrightarrow> mo_reachable env s'"

inductive_cases thread_stepE: "thread_step s s'"
inductive_cases io_stepE: "io_step s s'"
inductive_cases quiet_stepE: "quiet_step env s s'"
inductive_cases mo_stepE: "mo_step env s s'"

lemma mo_reachable_steps: "(mo_step env)\<^sup>*\<^sup>* s s' \<Longrightarrow> mo_reachable env s \<Longrightarrow> mo_reachable env s'"
  by (induction rule: rtranclp_induct) (auto intro: mo_reachable.step)

lemma quiet_steps_mo: "(quiet_step env)\<^sup>*\<^sup>* s s' \<Longrightarrow> (mo_step env)\<^sup>*\<^sup>* s s'"
  by (induction rule: rtranclp_induct) (auto intro: mo_step.quiet rtranclp.rtrancl_into_rtrancl)

subsection \<open>What holds in every reachable state\<close>

text \<open>What the order of the operations guarantees: threads are created once and joined later, a flag that
  is set is cleared later and before the join, and the alert manager is told to stop when the sink has
  been joined.\<close>

fun well_placed :: "main_op \<Rightarrow> main_op list \<Rightarrow> bool" where
  "well_placed (Set_flag w) ops \<longleftrightarrow> Clear_flag w \<in> set ops"
| "well_placed (Spawn w) ops \<longleftrightarrow> Join w \<in> set ops \<and> Spawn w \<notin> set ops"
| "well_placed Spawn_io ops \<longleftrightarrow> Join_io \<in> set ops"
| "well_placed Notify_alerts ops \<longleftrightarrow>
     Clear_flag Alert_queue \<notin> set ops \<and> Join Alert_sink \<notin> set ops \<and> Join Alert_queue \<in> set ops \<and> Notify_alerts \<notin> set ops"
| "well_placed (Join w) ops \<longleftrightarrow>
     Clear_flag w \<notin> set ops \<and> (w = Alert_queue \<longrightarrow> Notify_alerts \<notin> set ops)
     \<and> (w = Alert_sink \<longrightarrow> Notify_alerts \<in> set ops)"
| "well_placed Join_io ops \<longleftrightarrow> Stop_ioc \<notin> set ops \<and> Clear_running \<notin> set ops"
| "well_placed _ ops \<longleftrightarrow> True"

primrec ordered_ops :: "main_op list \<Rightarrow> bool" where
  "ordered_ops [] \<longleftrightarrow> True"
| "ordered_ops (op # ops) \<longleftrightarrow> well_placed op ops \<and> ordered_ops ops"

lemmas op_lists = main_ops_def init_ops_def start_ops_def worker_start_def alert_ws_start_def
  stop_ops_def module_stop_ops_def alert_ws_stop_def alert_manager_stop_ops_def

lemma main_ops_ordered: "ordered_ops main_ops"
  by (simp add: op_lists)

text \<open>Who has a thread and where it can stand, which flags can be set, and what is true near the end.\<close>

lemma sink_joined_first: "ordered_ops ops \<Longrightarrow> Join Alert_sink \<in> set ops \<Longrightarrow> Notify_alerts \<in> set ops"
  by (induction ops) auto

definition threads_inv :: "main_op list \<Rightarrow> (server_thread \<Rightarrow> thread) \<Rightarrow> bool" where
  "threads_inv ops th \<longleftrightarrow>
     (\<forall>w. Spawn w \<in> set ops \<or> Join w \<notin> set ops \<longrightarrow> th w = No_thread)
     \<and> (\<forall>w. th w \<in> {Locked, Deciding, Asleep} \<longrightarrow> w = Alert_queue)
     \<and> (\<forall>w. th w = Blocked \<longrightarrow> w = Alert_sink)"

definition flags_inv :: "main_op list \<Rightarrow> (server_thread \<Rightarrow> bool) \<Rightarrow> bool" where
  "flags_inv ops flag \<longleftrightarrow> (\<forall>w. flag w \<longrightarrow> Clear_flag w \<in> set ops)"

definition end_inv :: "main_op list \<Rightarrow> bool \<Rightarrow> bool \<Rightarrow> io_thread list \<Rightarrow> bool" where
  "end_inv ops run stop io \<longleftrightarrow>
     (run \<longrightarrow> Clear_running \<in> set ops) \<and> (Stop_ioc \<notin> set ops \<longrightarrow> stop)
     \<and> (Join_io \<notin> set ops \<longrightarrow> set io \<subseteq> {Io_done})"

definition life_inv :: "'db monitor \<Rightarrow> bool" where
  "life_inv s \<longleftrightarrow> ordered_ops (mo_main s) \<and> threads_inv (mo_main s) (mo_thread s)
     \<and> flags_inv (mo_main s) (mo_flag s) \<and> end_inv (mo_main s) (mo_running s) (mo_stopped s) (mo_io s)
     \<and> (mo_exit s = Some (Exit 0) \<longrightarrow> mo_main s = [])"

lemma life_inv_new: "life_inv new_monitor"
proof -
  have "Join w \<in> set main_ops \<and> Clear_flag w \<in> set main_ops" for w
    by (cases w) (simp_all add: op_lists)
  moreover have "Clear_running \<in> set main_ops" "Stop_ioc \<in> set main_ops"
    by (simp_all add: op_lists)
  ultimately show ?thesis
    by (simp add: life_inv_def threads_inv_def flags_inv_def end_inv_def new_monitor_def main_ops_ordered)
qed

lemma fatal_keeps [simp]:
  "mo_main (fatal env e s) = mo_main s" "mo_thread (fatal env e s) = mo_thread s"
  "mo_flag (fatal env e s) = mo_flag s" "mo_running (fatal env e s) = mo_running s"
  "mo_stopped (fatal env e s) = mo_stopped s" "mo_io (fatal env e s) = mo_io s"
  "mo_exit (fatal env e s) \<noteq> None" "mo_exit (fatal env e s) \<noteq> Some (Exit 0)"
  by (auto simp: fatal_def split: cpp_error.splits prod.splits sum.splits)

lemma notify_keeps [simp]:
  "mo_main (notify_alerts s) = mo_main s" "mo_flag (notify_alerts s) = mo_flag s"
  "mo_running (notify_alerts s) = mo_running s" "mo_stopped (notify_alerts s) = mo_stopped s"
  "mo_io (notify_alerts s) = mo_io s" "mo_exit (notify_alerts s) = mo_exit s"
  "mo_queued (notify_alerts s) = mo_queued s"
  "mo_thread (notify_alerts s) =
     (mo_thread s)(Alert_queue := if mo_thread s Alert_queue = Asleep then Locked else mo_thread s Alert_queue)"
  by (auto simp: notify_alerts_def set_thread_def)

lemma set_thread_keeps [simp]:
  "mo_main (set_thread w t s) = mo_main s" "mo_flag (set_thread w t s) = mo_flag s"
  "mo_running (set_thread w t s) = mo_running s" "mo_stopped (set_thread w t s) = mo_stopped s"
  "mo_io (set_thread w t s) = mo_io s" "mo_exit (set_thread w t s) = mo_exit s"
  "mo_queued (set_thread w t s) = mo_queued s" "mo_thread (set_thread w t s) = (mo_thread s)(w := t)"
  "mo_db (set_thread w t s) = mo_db s" "mo_cfg (set_thread w t s) = mo_cfg s"
  by (simp_all add: set_thread_def)

lemma set_io_keeps [simp]:
  "mo_main (set_io k t s) = mo_main s" "mo_flag (set_io k t s) = mo_flag s"
  "mo_running (set_io k t s) = mo_running s" "mo_stopped (set_io k t s) = mo_stopped s"
  "mo_io (set_io k t s) = (mo_io s)[k := t]" "mo_exit (set_io k t s) = mo_exit s"
  "mo_queued (set_io k t s) = mo_queued s" "mo_thread (set_io k t s) = mo_thread s"
  by (simp_all add: set_io_def)

lemma signal_keeps [simp]:
  "mo_main (signal_handler env s) = mo_main s" "mo_thread (signal_handler env s) = mo_thread s"
  "mo_flag (signal_handler env s) = mo_flag s" "\<not> mo_running (signal_handler env s)"
  "mo_stopped (signal_handler env s) = mo_stopped s" "mo_io (signal_handler env s) = mo_io s"
  "mo_exit s = None \<Longrightarrow> mo_exit (signal_handler env s) \<noteq> Some (Exit 0)"
  by (auto simp: signal_handler_def split: prod.splits sum.splits)

lemma main_step_cases:
  assumes "main_step env ok s = Some s'"
  obtains (ends) "mo_exit s = None" "mo_main s = []" "s' = s\<lparr>mo_exit := Some (Exit 0)\<rparr>"
  | (next_op) op ops t where "mo_exit s = None" "mo_main s = op # ops" "exec_op env ok op s = Done t"
      "s' = t\<lparr>mo_main := ops\<rparr>"
  | (again) op ops where "mo_exit s = None" "mo_main s = op # ops" "exec_op env ok op s = Again s'"
  | (throws) op ops e t where "mo_exit s = None" "mo_main s = op # ops" "exec_op env ok op s = Raised e t"
      "s' = fatal env e t"
proof -
  have ex: "mo_exit s = None"
    using assms by (simp add: main_step_def split: if_splits)
  show thesis
  proof (cases "mo_main s")
    case Nil
    then show thesis
      using assms ex by (intro ends) (simp_all add: main_step_def)
  next
    case (Cons op ops)
    then show thesis
      using assms ex by (cases "exec_op env ok op s") (auto simp: main_step_def intro: next_op again throws)
  qed
qed

lemma raised_keeps:
  "exec_op env ok op s = Raised e t \<Longrightarrow> mo_main t = mo_main s \<and> mo_thread t = mo_thread s
     \<and> mo_flag t = mo_flag s \<and> mo_running t = mo_running s \<and> mo_stopped t = mo_stopped s \<and> mo_io t = mo_io s"
  by (cases op) (auto split: prod.splits sum.splits if_splits simp: Let_def)

lemma again_keeps:
  "exec_op env ok op s = Again t \<Longrightarrow> mo_main t = mo_main s \<and> mo_thread t = mo_thread s
     \<and> mo_flag t = mo_flag s \<and> mo_running t = mo_running s \<and> mo_stopped t = mo_stopped s
     \<and> mo_exit t = mo_exit s \<and> (op \<noteq> Spawn_io \<longrightarrow> mo_io t = mo_io s)"
  by (cases op) (auto split: prod.splits sum.splits if_splits simp: Let_def)

lemma done_keeps:
  "exec_op env ok op s = Done t \<Longrightarrow> mo_exit t = mo_exit s
     \<and> mo_running t = (mo_running s \<and> op \<noteq> Clear_running)
     \<and> mo_stopped t = (mo_stopped s \<or> op = Stop_ioc) \<and> mo_io t = mo_io s
     \<and> mo_flag t = (case op of Set_flag w \<Rightarrow> (mo_flag s)(w := True) | Clear_flag w \<Rightarrow> (mo_flag s)(w := False)
         | _ \<Rightarrow> mo_flag s)
     \<and> mo_thread t = (case op of Spawn w \<Rightarrow> (mo_thread s)(w := Testing) | Join w \<Rightarrow> (mo_thread s)(w := No_thread)
         | Notify_alerts \<Rightarrow> (mo_thread s)(Alert_queue :=
             if mo_thread s Alert_queue = Asleep then Locked else mo_thread s Alert_queue)
         | _ \<Rightarrow> mo_thread s)
     \<and> (op = Join_io \<longrightarrow> set (mo_io s) \<subseteq> {Io_done})"
  by (cases op) (auto split: prod.splits sum.splits if_splits simp: Let_def)

lemma done_io: "exec_op env ok op s = Done t \<Longrightarrow> mo_io t = mo_io s \<and> mo_exit t = mo_exit s"
  using done_keeps [of env ok op s t] by blast

lemma threads_inv_done:
  assumes "threads_inv (op # ops) th" and "well_placed op ops"
  shows "threads_inv ops (case op of Spawn w \<Rightarrow> th(w := Testing) | Join w \<Rightarrow> th(w := No_thread)
      | Notify_alerts \<Rightarrow> th(Alert_queue := if th Alert_queue = Asleep then Locked else th Alert_queue)
      | _ \<Rightarrow> th)"
  using assms by (cases op) (auto simp: threads_inv_def)

lemma flags_inv_done:
  assumes "flags_inv (op # ops) flag" and "well_placed op ops"
  shows "flags_inv ops (case op of Set_flag w \<Rightarrow> flag(w := True) | Clear_flag w \<Rightarrow> flag(w := False) | _ \<Rightarrow> flag)"
  using assms by (cases op) (auto simp: flags_inv_def)

lemma life_inv_done:
  assumes inv: "life_inv s" and ex: "mo_exit s = None" and ops: "mo_main s = op # ops"
    and op: "exec_op env ok op s = Done t"
  shows "life_inv (t\<lparr>mo_main := ops\<rparr>)"
proof -
  have "ordered_ops ops" "well_placed op ops" "threads_inv (op # ops) (mo_thread s)"
    "flags_inv (op # ops) (mo_flag s)" and e: "end_inv (op # ops) (mo_running s) (mo_stopped s) (mo_io s)"
    using inv ops by (simp_all add: life_inv_def)
  moreover have "end_inv ops (mo_running t) (mo_stopped t) (mo_io t)"
    using e done_keeps [OF op] by (auto simp: end_inv_def)
  ultimately show ?thesis
    using done_keeps [OF op] threads_inv_done [of op ops "mo_thread s"] flags_inv_done [of op ops "mo_flag s"] ex
    by (simp add: life_inv_def)
qed

lemma life_inv_main:
  assumes inv: "life_inv s" and step: "main_step env ok s = Some s'"
  shows "life_inv s'"
  using step
proof (cases rule: main_step_cases)
  case ends
  then show ?thesis
    using inv by (simp add: life_inv_def)
next
  case (next_op op ops t)
  then show ?thesis
    using life_inv_done [OF inv next_op(1-3)] by simp
next
  case (again op ops)
  have "mo_io s' = mo_io s \<or> Join_io \<in> set (mo_main s)"
    using again inv again_keeps [OF again(3)] by (auto simp: life_inv_def)
  then show ?thesis
    using inv again(1) again_keeps [OF again(3)] by (auto simp: life_inv_def end_inv_def)
next
  case (throws op ops e t)
  then show ?thesis
    using inv raised_keeps [OF throws(3)] by (simp add: life_inv_def)
qed

lemma life_inv_thread:
  assumes inv: "life_inv s" and step: "thread_step s s'" and ex: "mo_exit s = None"
  shows "life_inv s'"
proof -
  have "mo_main s' = mo_main s \<and> mo_flag s' = mo_flag s \<and> mo_running s' = mo_running s
      \<and> mo_stopped s' = mo_stopped s \<and> mo_io s' = mo_io s \<and> mo_exit s' = mo_exit s"
    using step by cases auto
  moreover have "threads_inv (mo_main s) (mo_thread s')"
    using step inv by cases (auto simp: life_inv_def threads_inv_def split: if_splits)
  ultimately show ?thesis
    using inv by (simp add: life_inv_def)
qed

lemma life_inv_io: "life_inv s \<Longrightarrow> k < length (mo_io s) \<Longrightarrow> mo_io s ! k \<noteq> Io_done \<Longrightarrow> life_inv (set_io k t s)"
  by (auto simp: life_inv_def end_inv_def dest: nth_mem)

lemma life_inv_step:
  assumes inv: "life_inv s" and step: "mo_step env s s'"
  shows "life_inv s'"
  using step
proof cases
  case quiet
  then show ?thesis
    using inv by (auto elim!: quiet_stepE io_stepE intro: life_inv_main life_inv_thread life_inv_io)
next
  case failure
  then show ?thesis
    by (rule life_inv_main [OF inv])
next
  case signal
  then show ?thesis
    using inv by (simp add: life_inv_def end_inv_def)
next
  case sink_waits
  then show ?thesis
    using inv by (auto simp: life_inv_def threads_inv_def)
next
  case database
  then show ?thesis
    using inv by (simp add: life_inv_def)
qed (use inv in \<open>auto intro: life_inv_io\<close>)

lemma reachable_life_inv: "mo_reachable env s \<Longrightarrow> life_inv s"
  by (induction rule: mo_reachable.induct) (auto intro: life_inv_new life_inv_step)
subsection \<open>Stopping\<close>

text \<open>After the signal the server can still stop when no thread waits for a connection for ever and the
  worker of the alert manager is not heading for, or in, a wait whose notification has been spent.\<close>

definition initialised :: "'db monitor \<Rightarrow> bool" where
  "initialised s \<longleftrightarrow> set (mo_main s) \<inter> set init_ops = {}"

definition can_stop :: "'db monitor \<Rightarrow> bool" where
  "can_stop s \<longleftrightarrow> mo_thread s Alert_sink \<noteq> Blocked \<and> Io_blocked \<notin> set (mo_io s)
     \<and> (Notify_alerts \<in> set (mo_main s) \<or> mo_thread s Alert_queue \<notin> {Deciding, Asleep})"

definition stopping :: "'db monitor \<Rightarrow> bool" where
  "stopping s \<longleftrightarrow> life_inv s \<and> mo_exit s = None \<and> \<not> mo_running s \<and> initialised s \<and> can_stop s"

text \<open>What a thread's own steps leave alone.\<close>

definition only_thread :: "server_thread \<Rightarrow> 'db monitor \<Rightarrow> 'db monitor \<Rightarrow> bool" where
  "only_thread w s s' \<longleftrightarrow> mo_main s' = mo_main s \<and> mo_flag s' = mo_flag s \<and> mo_running s' = mo_running s
     \<and> mo_stopped s' = mo_stopped s \<and> mo_io s' = mo_io s \<and> mo_exit s' = mo_exit s
     \<and> (\<forall>v. v \<noteq> w \<longrightarrow> mo_thread s' v = mo_thread s v)"

lemma only_thread_refl [simp]: "only_thread w s s"
  by (simp add: only_thread_def)

lemma only_thread_set: "only_thread w s s' \<Longrightarrow> only_thread w s (set_thread w t s')"
  by (simp add: only_thread_def)

lemma only_thread_trans: "only_thread w s t \<Longrightarrow> only_thread w t u \<Longrightarrow> only_thread w s u"
  by (simp add: only_thread_def)

lemma quiet_first:
  "quiet_step env s t \<Longrightarrow> (quiet_step env)\<^sup>*\<^sup>* t u \<Longrightarrow> (quiet_step env)\<^sup>*\<^sup>* s u"
  by (rule converse_rtranclp_into_rtranclp)

lemma finish_testing:
  assumes "mo_exit s = None" and "mo_thread s w = Testing" and "\<not> mo_flag s w"
  shows "\<exists>s'. (quiet_step env)\<^sup>*\<^sup>* s s' \<and> mo_thread s' w = Finished \<and> only_thread w s s'"
  using assms
  by (intro exI [of _ "set_thread w Finished s"])
    (auto intro: quiet_step.worker thread_step.leave only_thread_set)

lemma finish_module:
  assumes "mo_exit s = None" and "mo_thread s w = Working" and "w \<noteq> Alert_queue" and "\<not> mo_flag s w"
  shows "\<exists>s'. (quiet_step env)\<^sup>*\<^sup>* s s' \<and> mo_thread s' w = Finished \<and> only_thread w s s'"
proof -
  have "quiet_step env s (set_thread w Testing s)"
    using assms by (intro quiet_step.worker thread_step.turn)
  moreover obtain s' where "(quiet_step env)\<^sup>*\<^sup>* (set_thread w Testing s) s'" "mo_thread s' w = Finished"
    "only_thread w (set_thread w Testing s) s'"
    using finish_testing [of "set_thread w Testing s" w] assms by auto
  ultimately show ?thesis
    by (meson only_thread_refl only_thread_set only_thread_trans quiet_first)
qed

lemma finish_alert_queue:
  assumes "mo_exit s = None" and "mo_thread s Alert_queue = Working" and "\<not> mo_flag s Alert_queue"
  shows "\<exists>s'. (quiet_step env)\<^sup>*\<^sup>* s s' \<and> mo_thread s' Alert_queue = Finished \<and> only_thread Alert_queue s s'"
  using assms
proof (induction "mo_queued s" arbitrary: s)
  case 0
  let ?t = "set_thread Alert_queue Testing s"
  have "quiet_step env s ?t"
    using 0 by (intro quiet_step.worker thread_step.drained) simp_all
  moreover obtain s' where "(quiet_step env)\<^sup>*\<^sup>* ?t s'" "mo_thread s' Alert_queue = Finished" "only_thread Alert_queue ?t s'"
    using finish_testing [of ?t Alert_queue] 0 by auto
  ultimately show ?case
    by (meson only_thread_refl only_thread_set only_thread_trans quiet_first)
next
  case (Suc n)
  let ?t = "s\<lparr>mo_queued := n\<rparr>"
  have "quiet_step env s ?t"
    using Suc.prems Suc.hyps(2) by (intro quiet_step.worker thread_step.deliver) simp_all
  moreover obtain s' where "(quiet_step env)\<^sup>*\<^sup>* ?t s'" "mo_thread s' Alert_queue = Finished" "only_thread Alert_queue ?t s'"
    using Suc.hyps(1) [of ?t] Suc.prems by auto
  moreover have "only_thread Alert_queue s ?t"
    by (simp add: only_thread_def)
  ultimately show ?case
    by (meson only_thread_trans quiet_first)
qed

lemma finish_worker:
  assumes inv: "life_inv s" and ex: "mo_exit s = None" and fl: "\<not> mo_flag s w"
    and th: "mo_thread s w \<notin> {Blocked, Deciding, Asleep}"
  shows "\<exists>s'. (quiet_step env)\<^sup>*\<^sup>* s s' \<and> mo_thread s' w \<in> {No_thread, Finished} \<and> only_thread w s s'"
proof (cases "mo_thread s w \<in> {No_thread, Finished}")
  case True
  then show ?thesis
    by (intro exI [of _ s]) simp
next
  case False
  then consider "mo_thread s w = Testing" | "mo_thread s w = Working" | "mo_thread s w = Locked"
    using th by (cases "mo_thread s w") auto
  then show ?thesis
  proof cases
    case 1
    then show ?thesis
      using finish_testing [OF ex _ fl, where env = env] by blast
  next
    case 2
    then show ?thesis
      using finish_module [OF ex _ _ fl] finish_alert_queue [OF ex] fl by (cases "w = Alert_queue") blast+
  next
    case 3
    then have w: "w = Alert_queue"
      using inv by (auto simp: life_inv_def threads_inv_def)
    let ?t = "set_thread Alert_queue Working s"
    have "quiet_step env s ?t"
      using 3 w ex fl by (intro quiet_step.worker thread_step.pass) simp_all
    moreover obtain s' where "(quiet_step env)\<^sup>*\<^sup>* ?t s'" "mo_thread s' Alert_queue = Finished" "only_thread Alert_queue ?t s'"
      using finish_alert_queue [of ?t] w ex fl by auto
    ultimately show ?thesis
      unfolding w by (metis insert_iff only_thread_refl only_thread_set only_thread_trans quiet_first)
  qed
qed

text \<open>The I/O threads end once the context is stopped.\<close>

lemma finish_io_at:
  assumes "mo_exit s = None" and "k < length (mo_io s)" and "mo_io s ! k \<noteq> Io_blocked"
    and "mo_stopped s" and "\<not> mo_running s"
  shows "(quiet_step env)\<^sup>*\<^sup>* s (set_io k Io_done s)"
proof -
  have test: "quiet_step env t (set_io k Io_done s)"
    if "t = s\<lparr>mo_io := (mo_io s)[k := Io_test]\<rparr>" for t
  proof -
    have "io_step t (set_io k (if mo_running t then Io_run else Io_done) t)"
      using assms(2) that by (intro io_step.test) simp_all
    then show ?thesis
      using assms(1,5) that by (auto simp: set_io_def intro: quiet_step.io)
  qed
  show ?thesis
  proof (cases "mo_io s ! k")
    case Io_test
    then show ?thesis
      using test [of s] list_update_id [of "mo_io s" k] by (simp add: r_into_rtranclp)
  next
    case Io_run
    then have "quiet_step env s (set_io k Io_test s)"
      using assms by (intro quiet_step.io io_step.stopped)
    then show ?thesis
      using test [of "set_io k Io_test s"] by (simp add: set_io_def converse_rtranclp_into_rtranclp)
  next
    case Io_done
    then have "set_io k Io_done s = s"
      by (simp add: set_io_def list_update_same_conv assms(2))
    then show ?thesis
      by simp
  qed (use assms in simp)
qed

lemma finish_io:
  assumes "mo_exit s = None" and "Io_blocked \<notin> set (mo_io s)" and "mo_stopped s" and "\<not> mo_running s"
  shows "(quiet_step env)\<^sup>*\<^sup>* s (s\<lparr>mo_io := replicate (length (mo_io s)) Io_done\<rparr>)"
proof -
  let ?t = "\<lambda>k. s\<lparr>mo_io := replicate k Io_done @ drop k (mo_io s)\<rparr>"
  have "(quiet_step env)\<^sup>*\<^sup>* s (?t k)" if "k \<le> length (mo_io s)" for k
    using that
  proof (induction k)
    case (Suc k)
    have d: "drop k (mo_io s) = mo_io s ! k # drop (Suc k) (mo_io s)"
      using Suc.prems by (simp add: Cons_nth_drop_Suc)
    have "mo_io s ! k \<noteq> Io_blocked"
      using assms(2) Suc.prems by (metis Suc_le_lessD nth_mem)
    then have "(quiet_step env)\<^sup>*\<^sup>* (?t k) (set_io k Io_done (?t k))"
      using assms Suc.prems by (intro finish_io_at) (auto simp: nth_append)
    moreover have "set_io k Io_done (?t k) = ?t (Suc k)"
      by (simp add: set_io_def d list_update_append replicate_append_same)
    ultimately show ?case
      using Suc by (metis Suc_leD rtranclp_trans)
  qed simp
  from this [of "length (mo_io s)"] show ?thesis
    by simp
qed

text \<open>One operation of a stopping server.\<close>

lemma main_step_done:
  "mo_exit s = None \<Longrightarrow> mo_main s = op # ops \<Longrightarrow> exec_op env True op s = Done t \<Longrightarrow>
     quiet_step env s (t\<lparr>mo_main := ops\<rparr>)"
  by (intro quiet_step.main) (simp add: main_step_def)

lemma stopping_done:
  assumes st: "stopping s" and ops: "mo_main s = op # ops" and op: "exec_op env True op s = Done t"
    and n: "op = Notify_alerts \<Longrightarrow> mo_thread s Alert_queue \<noteq> Deciding"
  shows "stopping (t\<lparr>mo_main := ops\<rparr>)"
proof -
  have "life_inv (t\<lparr>mo_main := ops\<rparr>)"
    using st ops op by (intro life_inv_done [of s]) (simp_all add: stopping_def)
  moreover have "mo_exit t = None" "\<not> mo_running t" "initialised (t\<lparr>mo_main := ops\<rparr>)"
    using st ops done_keeps [OF op] by (auto simp: stopping_def initialised_def)
  moreover have "can_stop (t\<lparr>mo_main := ops\<rparr>)"
    using st ops done_keeps [OF op] n by (cases op) (auto simp: stopping_def can_stop_def)
  ultimately show ?thesis
    by (simp add: stopping_def)
qed

lemma stopping_spawn_io:
  assumes "stopping s" and "mo_main s = Spawn_io # ops"
  shows "\<exists>s'. (quiet_step env)\<^sup>*\<^sup>* s s' \<and> stopping s' \<and> mo_main s' = ops \<and> mo_thread s' = mo_thread s"
  using assms
proof (induction "io_thread_count (mo_cfg s) - length (mo_io s)" arbitrary: s)
  case 0
  then have d: "exec_op env True Spawn_io s = Done s"
    by simp
  then show ?case
    using main_step_done [OF _ 0(3) d] stopping_done [OF 0(2,3) d] 0(2)
    by (intro exI [of _ "s\<lparr>mo_main := ops\<rparr>"]) (simp add: stopping_def r_into_rtranclp)
next
  case (Suc n)
  let ?t = "s\<lparr>mo_io := mo_io s @ [Io_test]\<rparr>"
  have m: "main_step env True s = Some ?t"
    using Suc.hyps(2) Suc.prems by (simp add: main_step_def stopping_def)
  have "stopping ?t"
    using Suc.prems life_inv_main [OF _ m] by (simp add: stopping_def initialised_def can_stop_def)
  moreover have "n = io_thread_count (mo_cfg ?t) - length (mo_io ?t)" "mo_main ?t = Spawn_io # ops"
    using Suc.hyps(2) Suc.prems(2) by simp_all
  ultimately obtain s' where "(quiet_step env)\<^sup>*\<^sup>* ?t s'" "stopping s'" "mo_main s' = ops"
    "mo_thread s' = mo_thread ?t"
    using Suc.hyps(1) by blast
  then show ?case
    using quiet_first [OF quiet_step.main [OF m]] by fastforce
qed

lemma stopping_join:
  assumes st: "stopping s" and ops: "mo_main s = Join w # ops"
  shows "\<exists>s'. (quiet_step env)\<^sup>*\<^sup>* s s' \<and> stopping s' \<and> mo_main s' = ops
    \<and> (\<forall>v. v \<noteq> w \<longrightarrow> mo_thread s' v = mo_thread s v)"
proof -
  have inv: "life_inv s" and ex: "mo_exit s = None"
    using st by (simp_all add: stopping_def)
  have wp: "Clear_flag w \<notin> set (mo_main s)" "w = Alert_queue \<Longrightarrow> Notify_alerts \<notin> set (mo_main s)"
    using inv ops by (auto simp: life_inv_def)
  then have fl: "\<not> mo_flag s w"
    using inv by (auto simp: life_inv_def flags_inv_def)
  have "mo_thread s w \<notin> {Blocked, Deciding, Asleep}"
    using st wp(2) inv by (auto simp: stopping_def can_stop_def life_inv_def threads_inv_def)
  then obtain t where t: "(quiet_step env)\<^sup>*\<^sup>* s t" "mo_thread t w \<in> {No_thread, Finished}" "only_thread w s t"
    using finish_worker [OF inv ex fl, where env = env] by blast
  have lt: "life_inv t"
    using t(1) inv by (induction rule: rtranclp_induct) (auto intro: life_inv_step mo_step.quiet)
  have ct: "can_stop t"
    using t(2,3) st by (auto simp: stopping_def can_stop_def only_thread_def) (metis (full_types) thread.distinct)+
  have st': "stopping t"
    using lt ct st t(3) by (simp add: stopping_def only_thread_def initialised_def)
  have m: "mo_main t = Join w # ops"
    using t(3) ops by (simp add: only_thread_def)
  have d: "exec_op env True (Join w) t = Done (set_thread w No_thread t)"
    using t(2) by auto
  have "quiet_step env t ((set_thread w No_thread t)\<lparr>mo_main := ops\<rparr>)"
    using main_step_done [OF _ m d] st' by (simp add: stopping_def)
  then show ?thesis
    using stopping_done [OF st' m d] t(1,3)
    by (intro exI [of _ "(set_thread w No_thread t)\<lparr>mo_main := ops\<rparr>"]) (auto simp: only_thread_def)
qed

lemma stopping_join_io:
  assumes st: "stopping s" and ops: "mo_main s = Join_io # ops"
  shows "\<exists>s'. (quiet_step env)\<^sup>*\<^sup>* s s' \<and> stopping s' \<and> mo_main s' = ops \<and> mo_thread s' = mo_thread s"
proof -
  let ?t = "s\<lparr>mo_io := replicate (length (mo_io s)) Io_done\<rparr>"
  have wp: "mo_stopped s"
    using st ops by (auto simp: stopping_def life_inv_def end_inv_def)
  have q: "(quiet_step env)\<^sup>*\<^sup>* s ?t"
    using st wp by (intro finish_io) (auto simp: stopping_def can_stop_def)
  have st': "stopping ?t"
    using st by (auto simp: stopping_def life_inv_def end_inv_def initialised_def can_stop_def)
  have d: "exec_op env True Join_io ?t = Done ?t"
    by auto
  have m: "mo_main ?t = Join_io # ops"
    using ops by simp
  have "quiet_step env ?t (?t\<lparr>mo_main := ops\<rparr>)"
    using main_step_done [OF _ m d] st' by (simp add: stopping_def)
  then show ?thesis
    using stopping_done [OF st' m d] q by (intro exI [of _ "?t\<lparr>mo_main := ops\<rparr>"]) auto
qed

lemma stopping_notify:
  assumes st: "stopping s" and ops: "mo_main s = Notify_alerts # ops"
  shows "\<exists>s'. (quiet_step env)\<^sup>*\<^sup>* s s' \<and> stopping s' \<and> mo_main s' = ops"
proof -
  have *: "\<exists>s'. (quiet_step env)\<^sup>*\<^sup>* t s' \<and> stopping s' \<and> mo_main s' = ops"
    if "stopping t" "mo_main t = Notify_alerts # ops" "mo_thread t Alert_queue \<noteq> Deciding" for t
    using main_step_done [of t Notify_alerts ops env] stopping_done [OF that(1,2)] that
    by (intro exI [of _ "(notify_alerts t)\<lparr>mo_main := ops\<rparr>"]) (simp add: stopping_def r_into_rtranclp)
  show ?thesis
  proof (cases "mo_thread s Alert_queue = Deciding")
    case True
    let ?t = "set_thread Alert_queue Asleep s"
    have q: "quiet_step env s ?t"
      using True st by (intro quiet_step.worker thread_step.sleep) (simp_all add: stopping_def)
    have "stopping ?t"
      using st ops life_inv_step [OF _ mo_step.quiet [OF q]]
      by (simp add: stopping_def initialised_def can_stop_def)
    then show ?thesis
      using * [of ?t] ops quiet_first [OF q] by auto
  qed (use * [of s] st ops in simp)
qed

lemma stop_op_kinds:
  assumes "op \<notin> set init_ops" and "\<not> mo_running s"
  shows "op = Spawn_io \<or> (\<exists>w. op = Join w) \<or> op = Join_io \<or> op = Notify_alerts
    \<or> (\<exists>t. exec_op env True op s = Done t)"
  using assms by (cases op) (simp_all add: init_ops_def)

lemma stopping_op:
  assumes st: "stopping s" and ops: "mo_main s = op # ops"
  shows "\<exists>s'. (quiet_step env)\<^sup>*\<^sup>* s s' \<and> stopping s' \<and> mo_main s' = ops
    \<and> (op \<notin> {Notify_alerts, Spawn Alert_queue, Join Alert_queue} \<longrightarrow>
        mo_thread s' Alert_queue = mo_thread s Alert_queue)"
proof -
  have single: ?thesis if "exec_op env True op s = Done t" "op \<noteq> Notify_alerts" for t
    using main_step_done [OF _ ops that(1)] stopping_done [OF st ops that(1)] that(2) st done_keeps [OF that(1)]
    by (intro exI [of _ "t\<lparr>mo_main := ops\<rparr>"]) (auto simp: stopping_def split: main_op.splits)
  have i: "op \<notin> set init_ops" and r: "\<not> mo_running s"
    using st ops by (auto simp: stopping_def initialised_def)
  consider (io) "op = Spawn_io" | (join) w where "op = Join w" | (join_io) "op = Join_io"
    | (notify) "op = Notify_alerts" | (single) t where "exec_op env True op s = Done t" "op \<noteq> Notify_alerts"
    using stop_op_kinds [OF i r] by blast
  then show ?thesis
  proof cases
    case io
    then show ?thesis
      using stopping_spawn_io [OF st, of ops env] ops by auto
  next
    case (join w)
    then show ?thesis
      using stopping_join [OF st, of w ops env] ops by auto
  next
    case join_io
    then show ?thesis
      using stopping_join_io [OF st, of ops env] ops by auto
  next
    case notify
    then show ?thesis
      using stopping_notify [OF st, of ops env] ops by auto
  qed (rule single)
qed

lemma stopping_ends:
  assumes "stopping s"
  shows "\<exists>s'. (quiet_step env)\<^sup>*\<^sup>* s s' \<and> mo_exit s' = Some (Exit 0) \<and> life_inv s' \<and> mo_main s' = []"
  using assms
proof (induction "mo_main s" arbitrary: s)
  case Nil
  let ?t = "s\<lparr>mo_exit := Some (Exit 0)\<rparr>"
  have "main_step env True s = Some ?t"
    using Nil by (simp add: main_step_def stopping_def)
  then show ?case
    using Nil life_inv_main by (intro exI [of _ ?t]) (auto simp: stopping_def intro: quiet_step.main)
next
  case (Cons op ops)
  obtain t where "(quiet_step env)\<^sup>*\<^sup>* s t" "stopping t" "mo_main t = ops"
    using stopping_op [OF Cons.prems, of op ops env] Cons.hyps(2) by metis
  then show ?case
    using Cons.hyps(1) [of t] by (meson rtranclp_trans)
qed

text \<open>A server that cannot stop never can again.\<close>

lemma stuck_main:
  assumes inv: "life_inv s" and stuck: "\<not> can_stop s" and step: "main_step env ok s = Some s'"
  shows "\<not> can_stop s' \<and> mo_exit s' \<noteq> Some (Exit 0)"
  using step
proof (cases rule: main_step_cases)
  case ends
  then have "mo_thread s Alert_sink = No_thread" "mo_thread s Alert_queue = No_thread" "set (mo_io s) \<subseteq> {Io_done}"
    using inv by (auto simp: life_inv_def threads_inv_def end_inv_def)
  then show ?thesis
    using stuck by (auto simp: can_stop_def)
next
  case (next_op op ops t)
  have pending: "Spawn w \<noteq> op \<or> mo_thread s w = No_thread" for w
    using inv next_op(2) by (auto simp: life_inv_def threads_inv_def)
  have joined: "Join w \<noteq> op \<or> mo_thread s w \<in> {No_thread, Finished}" for w
    using next_op(3) by (cases "op = Join w") (simp_all split: if_splits)
  have keeps: "mo_thread t w = mo_thread s w"
    if "op \<noteq> Notify_alerts \<or> w \<noteq> Alert_queue" "mo_thread s w \<notin> {No_thread, Finished}" for w
    using done_keeps [OF next_op(3)] pending [of w] joined [of w] that by (cases op) auto
  have "mo_thread s Alert_sink = Blocked \<longrightarrow> mo_thread t Alert_sink = Blocked"
    using keeps [of Alert_sink] by simp
  moreover have "Notify_alerts \<notin> set (mo_main s) \<and> mo_thread s Alert_queue \<in> {Deciding, Asleep} \<longrightarrow>
      mo_thread t Alert_queue = mo_thread s Alert_queue"
    using keeps [of Alert_queue] next_op(2) by auto
  ultimately show ?thesis
    using stuck next_op(1,2,4) done_io [OF next_op(3)] by (auto simp: can_stop_def)
next
  case (again op ops)
  have "set (mo_io s) \<subseteq> set (mo_io s')"
    using again(3) by (cases op) (auto simp: Let_def split: prod.splits sum.splits if_splits)
  then show ?thesis
    using stuck again(1) again_keeps [OF again(3)] by (auto simp: can_stop_def)
next
  case (throws op ops e t)
  then show ?thesis
    using stuck raised_keeps [OF throws(3)] by (simp add: can_stop_def)
qed

lemma stuck_thread:
  assumes inv: "life_inv s" and stuck: "\<not> can_stop s" and step: "thread_step s s'"
  shows "\<not> can_stop s'"
proof -
  have keep: "mo_io s' = mo_io s" "mo_main s' = mo_main s"
    using step by (cases; auto)+
  have "mo_thread s Alert_sink = Blocked \<longrightarrow> mo_thread s' Alert_sink = Blocked"
    using step by cases auto
  moreover have "mo_thread s' Alert_queue \<in> {Deciding, Asleep}"
    if "Notify_alerts \<notin> set (mo_main s)" "mo_thread s Alert_queue \<in> {Deciding, Asleep}"
  proof -
    have none: "mo_thread s Alert_sink = No_thread"
      using inv sink_joined_first [of "mo_main s"] that(1) by (auto simp: life_inv_def threads_inv_def)
    show ?thesis
      using step none that(2) by cases auto
  qed
  ultimately show ?thesis
    using stuck keep by (auto simp: can_stop_def)
qed

lemma stuck_io_set: "\<not> can_stop s \<Longrightarrow> k < length (mo_io s) \<Longrightarrow> mo_io s ! k \<noteq> Io_blocked \<Longrightarrow> \<not> can_stop (set_io k t s)"
proof -
  assume s: "\<not> can_stop s" and k: "k < length (mo_io s)" "mo_io s ! k \<noteq> Io_blocked"
  have "Io_blocked \<in> set (mo_io s) \<Longrightarrow> Io_blocked \<in> set ((mo_io s)[k := t])"
    using k by (metis in_set_conv_nth length_list_update nth_list_update_neq)
  then show ?thesis
    using s by (auto simp: can_stop_def)
qed

lemma stuck_step:
  assumes inv: "life_inv s" and stuck: "\<not> can_stop s" and ex: "mo_exit s \<noteq> Some (Exit 0)" and step: "mo_step env s s'"
  shows "\<not> can_stop s' \<and> mo_exit s' \<noteq> Some (Exit 0)"
  using step
proof cases
  case quiet
  then show ?thesis
  proof (cases rule: quiet_step.cases)
    case main
    then show ?thesis
      by (rule stuck_main [OF inv stuck])
  next
    case worker
    moreover have "mo_exit s' = mo_exit s"
      using worker(2) by cases auto
    ultimately show ?thesis
      using stuck_thread [OF inv stuck] by simp
  next
    case io
    have "\<not> can_stop s'" "mo_exit s' = mo_exit s"
      using io(2) stuck by (cases; simp add: stuck_io_set)+
    then show ?thesis
      using io(1) by simp
  qed
next
  case failure
  then show ?thesis
    by (rule stuck_main [OF inv stuck])
next
  case signal
  then show ?thesis
    using stuck by (simp add: can_stop_def)
next
  case (io_waits k)
  then have "Io_blocked \<in> set (mo_io s')"
    by (simp add: set_update_memI)
  then show ?thesis
    using io_waits by (simp add: can_stop_def)
next
  case (io_exception k)
  then show ?thesis
    using stuck_io_set [OF stuck] by simp
qed (use stuck in \<open>auto simp: can_stop_def\<close>)

lemma stuck_steps:
  assumes "(mo_step env)\<^sup>*\<^sup>* s s'" and "life_inv s" and "\<not> can_stop s" and "mo_exit s \<noteq> Some (Exit 0)"
  shows "mo_exit s' \<noteq> Some (Exit 0)"
proof -
  have "life_inv s' \<and> \<not> can_stop s' \<and> mo_exit s' \<noteq> Some (Exit 0)"
    using assms by (induction rule: rtranclp_induct) (use life_inv_step stuck_step in blast)+
  then show ?thesis
    by simp
qed


text \<open>A run that keeps the worker of the alert manager between its predicate and its wait until the
  notification has been given.\<close>

lemma reach_notify:
  assumes "stopping s" and "mo_thread s Alert_queue = Deciding" and "mo_main s = ops @ Notify_alerts # rest"
    and "Notify_alerts \<notin> set ops"
  shows "\<exists>s'. (quiet_step env)\<^sup>*\<^sup>* s s' \<and> stopping s' \<and> mo_thread s' Alert_queue = Deciding
    \<and> mo_main s' = Notify_alerts # rest"
  using assms
proof (induction ops arbitrary: s)
  case Nil
  then show ?case
    by (intro exI [of _ s]) simp
next
  case (Cons op ops)
  have main: "mo_main s = op # (ops @ Notify_alerts # rest)"
    using Cons.prems(3) by simp
  have inv: "threads_inv (mo_main s) (mo_thread s)" "ordered_ops (mo_main s)"
    using Cons.prems(1) by (simp_all add: stopping_def life_inv_def)
  have "mo_thread s Alert_queue \<noteq> No_thread"
    using Cons.prems(2) by simp
  then have "Spawn Alert_queue \<notin> set (mo_main s)"
    using inv(1) unfolding threads_inv_def by blast
  moreover have "well_placed op (ops @ Notify_alerts # rest)"
    using inv(2) main by simp
  ultimately have n: "op \<notin> {Notify_alerts, Spawn Alert_queue, Join Alert_queue}"
    using Cons.prems(4) main by auto
  from stopping_op [OF Cons.prems(1) main, where env = env]
  obtain t where t: "(quiet_step env)\<^sup>*\<^sup>* s t" "stopping t" "mo_main t = ops @ Notify_alerts # rest"
    "op \<notin> {Notify_alerts, Spawn Alert_queue, Join Alert_queue} \<longrightarrow> mo_thread t Alert_queue = mo_thread s Alert_queue"
    by (elim exE conjE)
  then obtain s' where "(quiet_step env)\<^sup>*\<^sup>* t s'" "stopping s'" "mo_thread s' Alert_queue = Deciding"
    "mo_main s' = Notify_alerts # rest"
    using Cons.IH [OF t(2) _ t(3)] mp [OF t(4) n] Cons.prems(2,4) by auto
  then show ?case
    using t(1) by (meson rtranclp_trans)
qed

text \<open>\<open>AlertManager::stop\<close> can miss its worker. From every state of a stopping server in which
  nothing is wrong, but the worker has just found its queue empty and the flag set and has not gone to
  sleep yet, two undisturbed runs exist: one ends with status 0, and in the other the notification of
  \<open>stop\<close> comes before the wait and the server never ends, whatever happens later.\<close>

theorem alert_stop_race:
  assumes "mo_reachable env s" and "mo_exit s = None" and "\<not> mo_running s" and "initialised s" and "can_stop s"
    and "mo_thread s Alert_queue = Deciding"
  shows "\<exists>good bad. (quiet_step env)\<^sup>*\<^sup>* s good \<and> mo_exit good = Some (Exit 0)
    \<and> (quiet_step env)\<^sup>*\<^sup>* s bad \<and> (\<forall>t. (mo_step env)\<^sup>*\<^sup>* bad t \<longrightarrow> mo_exit t \<noteq> Some (Exit 0))"
proof -
  have st: "stopping s"
    using assms reachable_life_inv by (simp add: stopping_def)
  then obtain good where good: "(quiet_step env)\<^sup>*\<^sup>* s good" "mo_exit good = Some (Exit 0)"
    using stopping_ends by blast
  have "Notify_alerts \<in> set (mo_main s)"
    using assms(5,6) by (auto simp: can_stop_def)
  then obtain ops rest where "mo_main s = ops @ Notify_alerts # rest" "Notify_alerts \<notin> set ops"
    by (meson split_list_first)
  then obtain t where t: "(quiet_step env)\<^sup>*\<^sup>* s t" "stopping t" "mo_thread t Alert_queue = Deciding"
    "mo_main t = Notify_alerts # rest"
    using reach_notify [OF st assms(6)] by blast
  let ?bad = "(notify_alerts t)\<lparr>mo_main := rest\<rparr>"
  have q: "quiet_step env t ?bad"
    using t(2,4) main_step_done [of t Notify_alerts rest env] by (simp add: stopping_def)
  have "life_inv ?bad"
    using t(2) life_inv_step [OF _ mo_step.quiet [OF q]] by (simp add: stopping_def)
  moreover have "Notify_alerts \<notin> set rest"
    using t(2,4) by (simp add: stopping_def life_inv_def)
  then have "\<not> can_stop ?bad" "mo_exit ?bad = None"
    using t(2,3) by (simp_all add: can_stop_def stopping_def)
  ultimately have "\<forall>u. (mo_step env)\<^sup>*\<^sup>* ?bad u \<longrightarrow> mo_exit u \<noteq> Some (Exit 0)"
    by (simp add: stuck_steps)
  then show ?thesis
    using good rtranclp.rtrancl_into_rtrancl [OF t(1) q] by blast
qed

subsection \<open>Exceptions and the log file\<close>

lemma registers:
  assumes "register_doc sp"
  shows "lr_loggers r (lg_name l) = None \<Longrightarrow>
      \<exists>r'. sp_register sp l r = Inr r' \<and> lr_loggers r' = (lr_loggers r)(lg_name l \<mapsto> l)"
    and "lr_loggers r (lg_name l) \<noteq> None \<Longrightarrow> \<exists>m. sp_register sp l r = Inl (Runtime_error m)"
proof -
  have "case sp_register sp l r of
       Inl e \<Rightarrow> lr_loggers r (lg_name l) \<noteq> None \<and> (\<exists>m. e = Runtime_error m)
     | Inr r' \<Rightarrow> lr_loggers r (lg_name l) = None \<and> lr_loggers r' = (lr_loggers r)(lg_name l \<mapsto> l)"
    using assms unfolding register_doc_def by blast
  then show "lr_loggers r (lg_name l) = None \<Longrightarrow>
      \<exists>r'. sp_register sp l r = Inr r' \<and> lr_loggers r' = (lr_loggers r)(lg_name l \<mapsto> l)"
    and "lr_loggers r (lg_name l) \<noteq> None \<Longrightarrow> \<exists>m. sp_register sp l r = Inl (Runtime_error m)"
    by (cases "sp_register sp l r"; simp)+
qed

lemma make_logger_name [simp]: "lg_name (make_logger n p k m) = n"
  by (simp add: make_logger_def)

lemma first_logger:
  assumes "register_doc sp" and "sp_open sp pm_log_path" and "lr_loggers r ''pm'' = None"
  shows "\<exists>l r'. init_default_logger sp r = (Inr l, r') \<and> lr_loggers r' ''pm'' = Some l"
proof -
  let ?l = "make_logger ''pm'' pm_log_path (1048576 * 50) 5"
  obtain r' where "sp_register sp ?l r = Inr r'" "lr_loggers r' = (lr_loggers r)(''pm'' \<mapsto> ?l)"
    using registers(1) [OF assms(1), of r ?l] assms(3) by auto
  then show ?thesis
    using assms(2) by (simp add: init_default_logger_def init_logger_def Let_def)
qed

lemma second_logger:
  assumes "register_doc sp" and "sp_open sp pm_log_path" and "lr_loggers r ''pm'' \<noteq> None"
  shows "\<exists>m. init_default_logger sp r = (Inl (Runtime_error m), r)"
proof -
  let ?l = "make_logger ''pm'' pm_log_path (1048576 * 50) 5"
  obtain m where "sp_register sp ?l r = Inl (Runtime_error m)"
    using registers(2) [OF assms(1), of r ?l] assms(3) by auto
  then show ?thesis
    using assms(2) by (simp add: init_default_logger_def init_logger_def Let_def)
qed

lemma main_step_first:
  assumes "mo_exit s = None" and "mo_main s = main_ops"
  shows "main_step env ok s =
    (case init_default_logger (se_log env) (mo_logs s) of
       (Inl e, r) \<Rightarrow> Some (fatal env e (s\<lparr>mo_logs := r\<rparr>))
     | (Inr l, r) \<Rightarrow> Some (s\<lparr>mo_logs := r, mo_main := tl main_ops\<rparr>))"
proof -
  have "main_ops = Init_logger # tl main_ops"
    by (simp add: op_lists)
  then have "mo_main s = Init_logger # tl main_ops"
    using assms(2) by simp
  then show ?thesis
    using assms(1) by (simp add: main_step_def split: prod.split sum.split)
qed

lemma unopened_state:
  assumes "mo_reachable env s" and "\<not> sp_open (se_log env) pm_log_path"
  shows "mo_exit s = Some Terminated \<or> (mo_exit s = None \<and> mo_main s = main_ops
    \<and> lr_loggers (mo_logs s) ''pm'' = None \<and> (\<forall>w. mo_thread s w = No_thread) \<and> mo_io s = [] \<and> mo_db s = None)"
  using assms(1)
proof induction
  case init
  then show ?case
    by (simp add: new_monitor_def)
next
  case (step s s')
  have m: "mo_exit s' = Some Terminated" if st: "main_step env ok s = Some s'" for ok
  proof -
    have "mo_exit s = None"
      using st by (simp add: main_step_def split: if_splits)
    then show ?thesis
      using st main_step_first [of s env ok] step.IH assms(2)
      by (simp add: init_default_logger_def init_logger_def Let_def fatal_def joinable_def logging_get_def)
  qed
  from step.hyps(2) show ?case
  proof cases
    case quiet
    then show ?thesis
      using m step.IH by (auto elim!: quiet_stepE thread_stepE io_stepE)
  next
    case failure
    then show ?thesis
      using m by blast
  next
    case signal
    then show ?thesis
      using step.IH assms(2)
      by (auto simp: signal_handler_def logging_get_def init_default_logger_def init_logger_def Let_def)
  qed (use step.IH in auto)
qed

text \<open>The start depends on the log file and on the moment of the first signal. If the log file
  cannot be opened, the program ends through \<open>std::terminate\<close> and in no other way, because the handler
  that should report the failure needs the logger again. If it can, the first step of \<open>main\<close> succeeds,
  but after a signal that arrives before it, it ends the program with status 1: the signal handler has
  already registered a logger of that name.\<close>

theorem start_and_logging:
  assumes "register_doc (se_log env)"
  shows "if sp_open (se_log env) pm_log_path
    then (\<exists>s. main_step env ok new_monitor = Some s \<and> mo_exit s = None \<and> mo_main s = tl main_ops)
      \<and> (\<exists>s. main_step env ok (signal_handler env new_monitor) = Some s \<and> mo_exit s = Some (Exit 1))
    else (\<exists>s. main_step env ok new_monitor = Some s \<and> mo_exit s = Some Terminated)
      \<and> (\<forall>s e. mo_reachable env s \<and> mo_exit s = Some e \<longrightarrow> e = Terminated)"
proof (cases "sp_open (se_log env) pm_log_path")
  case True
  let ?r = "mo_logs (new_monitor :: 'a monitor)"
  obtain l r where l: "init_default_logger (se_log env) ?r = (Inr l, r)" "lr_loggers r ''pm'' = Some l"
    using first_logger [OF assms True, of ?r] by (auto simp: new_monitor_def)
  obtain e where e: "init_default_logger (se_log env) r = (Inl (Runtime_error e), r)"
    using second_logger [OF assms True, of r] l(2) by auto
  have g: "logging_get (se_log env) ?r = (Inr l, r)"
    using l(1) by (simp add: logging_get_def) (simp add: new_monitor_def)
  have n: "mo_exit (new_monitor :: 'a monitor) = None" "mo_main (new_monitor :: 'a monitor) = main_ops"
    "\<And>w. mo_thread (new_monitor :: 'a monitor) w = No_thread"
    by (simp_all add: new_monitor_def)
  let ?s = "signal_handler env new_monitor"
  have s: "mo_logs ?s = r" "mo_exit ?s = None"
    using g n by (simp_all add: signal_handler_def)
  have "mo_exit (fatal env (Runtime_error e) (?s\<lparr>mo_logs := r\<rparr>)) = Some (Exit 1)"
    using l(2) n by (auto simp: fatal_def joinable_def logging_get_def)
  then show ?thesis
    using True l(1) e s n main_step_first [of "new_monitor :: 'a monitor" env ok] main_step_first [of ?s env ok] by simp
next
  case False
  then have "mo_reachable env s \<Longrightarrow> mo_exit s = Some e \<Longrightarrow> e = Terminated" for s e
    using unopened_state by fastforce
  moreover have "\<exists>s. main_step env ok new_monitor = Some s \<and> mo_exit s = Some Terminated"
    using False main_step_first [of new_monitor env ok]
    by (simp add: new_monitor_def init_default_logger_def init_logger_def Let_def fatal_def joinable_def logging_get_def)
  ultimately show ?thesis
    using False by auto
qed


subsection \<open>A concrete server\<close>

primrec main_run :: "'db main_env \<Rightarrow> nat \<Rightarrow> 'db monitor \<Rightarrow> 'db monitor option" where
  "main_run env 0 s = Some s"
| "main_run env (Suc n) s = (case main_run env n s of None \<Rightarrow> None | Some s \<Rightarrow> main_step env True s)"

lemma main_run_reachable: "main_run env n s = Some s' \<Longrightarrow> mo_reachable env s \<Longrightarrow> mo_reachable env s'"
  by (induction n arbitrary: s')
    (auto split: option.splits intro: mo_reachable.step mo_step.quiet quiet_step.main)

definition demo_spdlog :: spdlog where
  "demo_spdlog = \<lparr>sp_open = \<lambda>_. True, sp_register = \<lambda>l r.
     if lr_loggers r (lg_name l) = None then Inr (r\<lparr>lr_loggers := (lr_loggers r)(lg_name l \<mapsto> l)\<rparr>)
     else Inl (Runtime_error ''exists'')\<rparr>"

definition demo_server :: "nat main_env" where
  "demo_server = \<lparr>se_log = demo_spdlog, se_path = ''config.json'', se_atof = \<lambda>_. 0, se_parse = \<lambda>_. Inl Json_error,
     se_env = \<lambda>_. None, se_fs = \<lambda>_. None, se_pg = demo_env, se_db = 0, se_bind = \<lambda>_. True, se_clock = int\<rparr>"

lemma demo_spdlog_doc: "register_doc demo_spdlog"
  by (simp add: register_doc_def demo_spdlog_def)

text \<open>The server after the alert manager was started, with a signal, and with its worker past the
  predicate.\<close>

definition started_ops :: "main_op list" where
  "started_ops = Listen Profinet_port # worker_start Laser_fanout @ worker_start Crack_router
     @ worker_start Crack_fanout @ worker_start Fatigue_predictor @ worker_start Dem_simulator
     @ Listen Websocket_port # worker_start Alert_queue"

definition rest_ops :: "main_op list" where
  "rest_ops = worker_start Alert_sink @ [Listen Http_port, Spawn_io, Serve] @ stop_ops"

definition demo_started :: "nat monitor" where
  "demo_started = signal_handler demo_server
     (the (main_run demo_server (length init_ops + length started_ops) new_monitor))"

definition demo_deciding :: "nat monitor" where
  "demo_deciding = set_thread Alert_queue Deciding (set_thread Alert_queue Locked demo_started)"

lemma demo_default_config:
  "load_from_file f p (\<lambda>_. None) (\<lambda>_. None) q = Inr default_config"
  "server_init_config f (\<lambda>_. None) default_config = Inr (default_config, default_config)"
  by (simp_all add: load_from_file_def server_init_config_def apply_env_def database_env_def server_env_def
      alert_env_def getenv_def default_config_def)

text \<open>The start of the modules, operation by operation.\<close>

fun plain_op :: "main_op \<Rightarrow> bool" where
  "plain_op (Listen a) \<longleftrightarrow> True" | "plain_op (Set_flag w) \<longleftrightarrow> True" | "plain_op (Spawn w) \<longleftrightarrow> True" | "plain_op _ \<longleftrightarrow> False"

lemma plain_run:
  assumes "list_all plain_op ops" and "mo_exit s = None" and "mo_main s = ops @ rest"
  shows "\<exists>t. main_run env (length ops) s = Some t \<and> mo_exit t = None \<and> mo_main t = rest
     \<and> mo_thread t = (\<lambda>w. if Spawn w \<in> set ops then Testing else mo_thread s w)
     \<and> mo_flag t = (\<lambda>w. mo_flag s w \<or> Set_flag w \<in> set ops)
     \<and> mo_queued t = mo_queued s \<and> mo_io t = mo_io s \<and> mo_logs t = mo_logs s"
  using assms
proof (induction ops arbitrary: rest rule: rev_induct)
  case Nil
  then show ?case
    by simp
next
  case (snoc op ops)
  then obtain t where t: "main_run env (length ops) s = Some t" "mo_exit t = None" "mo_main t = op # rest"
     "mo_thread t = (\<lambda>w. if Spawn w \<in> set ops then Testing else mo_thread s w)"
     "mo_flag t = (\<lambda>w. mo_flag s w \<or> Set_flag w \<in> set ops)"
     "mo_queued t = mo_queued s" "mo_io t = mo_io s" "mo_logs t = mo_logs s"
    using snoc.IH [of "op # rest"] by auto
  then show ?case
    using snoc.prems(1) by (cases op) (auto simp: main_step_def set_thread_def fun_eq_iff)
qed

lemma main_run_add:
  "main_run env (m + n) s = (case main_run env m s of None \<Rightarrow> None | Some t \<Rightarrow> main_run env n t)"
  by (induction n) (auto split: option.splits)

lemma main_ops_split: "main_ops = init_ops @ started_ops @ rest_ops"
  by (simp add: op_lists started_ops_def rest_ops_def)

lemma demo_init:
  "\<exists>s. main_run demo_server (length init_ops) new_monitor = Some s \<and> mo_exit s = None
     \<and> mo_main s = started_ops @ rest_ops \<and> mo_thread s = (\<lambda>w. No_thread) \<and> mo_queued s = 0 \<and> mo_io s = []
     \<and> lr_loggers (mo_logs s) ''pm'' \<noteq> None"
  unfolding main_ops_split
  by (simp add: init_ops_def main_step_def new_monitor_def main_ops_split demo_server_def demo_spdlog_def
      init_default_logger_def init_logger_def demo_default_config Let_def)

lemma demo_run:
  "\<exists>s. main_run demo_server (length init_ops + length started_ops) new_monitor = Some s \<and> mo_exit s = None
     \<and> mo_main s = rest_ops \<and> mo_thread s = (\<lambda>w. if w = Alert_sink then No_thread else Testing)
     \<and> mo_flag s Alert_queue \<and> mo_queued s = 0 \<and> mo_io s = [] \<and> lr_loggers (mo_logs s) ''pm'' \<noteq> None"
proof -
  obtain s where s: "main_run demo_server (length init_ops) new_monitor = Some s" "mo_exit s = None"
    "mo_main s = started_ops @ rest_ops" "mo_thread s = (\<lambda>w. No_thread)" "mo_queued s = 0" "mo_io s = []"
    "lr_loggers (mo_logs s) ''pm'' \<noteq> None"
    using demo_init by blast
  have "list_all plain_op started_ops" "Set_flag Alert_queue \<in> set started_ops"
    by (simp_all add: started_ops_def worker_start_def)
  moreover have "Spawn w \<in> set started_ops \<longleftrightarrow> w \<noteq> Alert_sink" for w
    by (cases w) (simp_all add: started_ops_def worker_start_def)
  ultimately show ?thesis
    using plain_run [of started_ops s rest_ops demo_server] s
      main_run_add [of demo_server "length init_ops" "length started_ops" new_monitor]
    by (auto simp: fun_eq_iff)
qed

lemma demo_started_facts:
  "mo_reachable demo_server demo_started" "mo_exit demo_started = None" "\<not> mo_running demo_started"
  "mo_main demo_started = rest_ops"
  "mo_thread demo_started = (\<lambda>w. if w = Alert_sink then No_thread else Testing)"
  "mo_flag demo_started Alert_queue" "mo_queued demo_started = 0" "mo_io demo_started = []"
proof -
  obtain s where s: "main_run demo_server (length init_ops + length started_ops) new_monitor = Some s" "mo_exit s = None" "mo_main s = rest_ops"
    "mo_thread s = (\<lambda>w. if w = Alert_sink then No_thread else Testing)" "mo_flag s Alert_queue"
    "mo_queued s = 0" "mo_io s = []" "lr_loggers (mo_logs s) ''pm'' \<noteq> None"
    using demo_run by blast
  have st: "demo_started = signal_handler demo_server s"
    using s(1) by (simp add: demo_started_def)
  have h: "signal_handler demo_server s = s\<lparr>mo_running := False\<rparr>"
    using s(8) by (auto simp: signal_handler_def logging_get_def)
  show "mo_reachable demo_server demo_started"
    unfolding st by (rule mo_reachable.step [OF main_run_reachable [OF s(1) mo_reachable.init] mo_step.signal [OF s(2)]])
  have e: "demo_started = s\<lparr>mo_running := False\<rparr>"
    using st h by simp
  show "mo_exit demo_started = None" "\<not> mo_running demo_started" "mo_main demo_started = rest_ops"
    "mo_thread demo_started = (\<lambda>w. if w = Alert_sink then No_thread else Testing)"
    "mo_flag demo_started Alert_queue" "mo_queued demo_started = 0" "mo_io demo_started = []"
    unfolding e using s by simp_all
qed

lemma demo_ops: "initialised demo_started" "Notify_alerts \<in> set (mo_main demo_started)"
  by (simp_all add: initialised_def demo_started_facts rest_ops_def op_lists)

lemma demo_deciding_reachable: "mo_reachable demo_server demo_deciding"
proof -
  have "mo_step demo_server demo_started (set_thread Alert_queue Locked demo_started)"
    by (intro mo_step.quiet quiet_step.worker thread_step.lock) (simp_all add: demo_started_facts)
  moreover have "mo_step demo_server (set_thread Alert_queue Locked demo_started) demo_deciding"
    unfolding demo_deciding_def
    by (intro mo_step.quiet quiet_step.worker thread_step.decide) (simp_all add: demo_started_facts)
  ultimately show ?thesis
    using demo_started_facts(1) mo_reachable.step by blast
qed


theorem alert_stop_race_witness:
  "\<exists>bad. (quiet_step demo_server)\<^sup>*\<^sup>* demo_deciding bad
     \<and> (\<forall>t. (mo_step demo_server)\<^sup>*\<^sup>* bad t \<longrightarrow> mo_exit t \<noteq> Some (Exit 0))"
  using alert_stop_race [OF demo_deciding_reachable] demo_ops
  by (auto simp: demo_deciding_def demo_started_facts initialised_def can_stop_def)

theorem start_and_logging_witness:
  "\<exists>s. main_step demo_server True (signal_handler demo_server new_monitor) = Some s \<and> mo_exit s = Some (Exit 1)"
  using start_and_logging [of demo_server True] demo_spdlog_doc
  by (simp add: demo_server_def demo_spdlog_def)

end
