(* ===== verification/Simulator_Main.thy ===== *)
theory Simulator_Main
  imports Sensor_Client Config
begin

section \<open>The simulator's main program (src/simulator/main.cpp)\<close>

text \<open>
  The settings \<open>main\<close> takes from defaults, the environment and the command line, the fleet it starts
  from them, and the shock injector with the detached threads that end a shock after 30 seconds. Time
  is in whole seconds; timers and sleeping threads act when they are due.
\<close>

subsection \<open>Settings\<close>

record sim_settings =
  ss_server_ip :: string
  ss_server_port :: u16
  ss_interval_ms :: int
  ss_laser_count :: int
  ss_vibration_count :: int
  ss_shock_enabled :: bool

definition default_settings :: sim_settings where
  "default_settings = \<lparr>ss_server_ip = ''127.0.0.1'', ss_server_port = 34964, ss_interval_ms = 10800000,
     ss_laser_count = 20, ss_vibration_count = 40, ss_shock_enabled = True\<rparr>"

definition settings_env :: "environment \<Rightarrow> sim_settings \<Rightarrow> sim_settings result" where
  "settings_env env s =
     and_then (getenv env ''SIM_SERVER_IP'' (\<lambda>v s. Inr (s\<lparr>ss_server_ip := v\<rparr>)) s) (\<lambda>s.
     and_then (getenv env ''SIM_SERVER_PORT''
       (\<lambda>v s. and_then (atoi v) (\<lambda>n. Inr (s\<lparr>ss_server_port := word_of_int n\<rparr>))) s) (\<lambda>s.
     and_then (getenv env ''SIM_INTERVAL_MS'' (\<lambda>v s. and_then (atoi v) (\<lambda>n. Inr (s\<lparr>ss_interval_ms := n\<rparr>))) s) (\<lambda>s.
     and_then (getenv env ''SIM_LASER_COUNT'' (\<lambda>v s. and_then (atoi v) (\<lambda>n. Inr (s\<lparr>ss_laser_count := n\<rparr>))) s) (\<lambda>s.
     and_then (getenv env ''SIM_VIBRATION_COUNT''
       (\<lambda>v s. and_then (atoi v) (\<lambda>n. Inr (s\<lparr>ss_vibration_count := n\<rparr>))) s) (\<lambda>s.
     getenv env ''SIM_SHOCK_ENABLED''
       (\<lambda>v s. Inr (s\<lparr>ss_shock_enabled := (v = ''1'' \<or> v = ''true'')\<rparr>)) s)))))"

text \<open>\<open>argv\<close> with the program's name at its head.\<close>

definition settings_args :: "string list \<Rightarrow> sim_settings \<Rightarrow> sim_settings result" where
  "settings_args argv s =
     (let s = (if 2 \<le> length argv then s\<lparr>ss_server_ip := argv ! 1\<rparr> else s) in
      and_then (if 3 \<le> length argv
          then and_then (atoi (argv ! 2)) (\<lambda>n. Inr (s\<lparr>ss_server_port := word_of_int n\<rparr>)) else Inr s) (\<lambda>s.
      if 4 \<le> length argv then and_then (atoi (argv ! 3)) (\<lambda>n. Inr (s\<lparr>ss_interval_ms := n\<rparr>)) else Inr s))"

definition simulator_settings :: "environment \<Rightarrow> string list \<Rightarrow> sim_settings result" where
  "simulator_settings env argv = and_then (settings_env env default_settings) (settings_args argv)"

subsection \<open>The fleet\<close>

text \<open>The interval of a client is computed in \<open>int\<close>.\<close>

definition client_interval :: "int \<Rightarrow> int \<Rightarrow> int result" where
  "client_interval interval_ms i =
     (let v = interval_ms + (i mod 5) * 1000 in
      if v < 2 ^ 31 then Inr v else Inl (UB ''signed overflow''))"

definition start_fleet :: "sim_settings \<Rightarrow> client list result" where
  "start_fleet s =
     and_then (map_result (client_interval (ss_interval_ms s)) [1..ss_laser_count s]) (\<lambda>_.
     and_then (map_result (client_interval (ss_interval_ms s)) [1..ss_vibration_count s]) (\<lambda>_.
     Inr (make_fleet (ss_server_ip s) (ss_server_port s) (ss_interval_ms s)
       (ss_laser_count s) (ss_vibration_count s))))"

subsection \<open>The running simulator\<close>

text \<open>\<open>si_next\<close> is when the injector's timer expires, \<open>si_ends\<close> when the sleeping threads wake up.\<close>

record sim =
  si_now :: int
  si_clients :: "client list"
  si_injector :: injector
  si_next :: int
  si_ends :: "int list"

definition sim_start :: "int \<Rightarrow> sim_settings \<Rightarrow> sim result" where
  "sim_start delay_sec s =
     and_then (start_fleet s) (\<lambda>clients.
     Inr \<lparr>si_now = 0, si_clients = clients,
       si_injector = (if ss_shock_enabled s then in_start delay_sec new_injector else new_injector),
       si_next = delay_sec, si_ends = []\<rparr>)"

text \<open>The callback of the injector: every client goes into shock mode, and a thread is detached that
  waits 30 seconds and takes them back.\<close>

definition inject :: "int \<Rightarrow> sim \<Rightarrow> sim" where
  "inject delay_sec s =
     (let (inj, clients) = in_on_timer delay_sec (si_injector s) (si_clients s) in
      s\<lparr>si_injector := inj, si_clients := clients, si_next := si_now s + delay_sec, si_ends := si_ends s @ [si_now s + 30]\<rparr>)"

definition end_shock :: "int \<Rightarrow> sim \<Rightarrow> sim" where
  "end_shock e s = s\<lparr>si_clients := map (set_shock_mode False) (si_clients s), si_ends := remove1 e (si_ends s)\<rparr>"

definition injector_due :: "sim \<Rightarrow> bool" where
  "injector_due s \<longleftrightarrow> in_armed (si_injector s) \<noteq> None \<and> si_next s \<le> si_now s"

text \<open>\<open>std::uniform_int_distribution(600, 7200)\<close> draws the delays. A handler of a client never touches
  the shock mode.\<close>

inductive sim_step :: "sim \<Rightarrow> sim \<Rightarrow> bool" where
  tick: "\<not> injector_due s \<Longrightarrow> (\<forall>e \<in> set (si_ends s). si_now s < e) \<Longrightarrow> sim_step s (s\<lparr>si_now := si_now s + 1\<rparr>)"
| fire: "injector_due s \<Longrightarrow> 600 \<le> delay \<Longrightarrow> delay \<le> 7200 \<Longrightarrow> sim_step s (inject delay s)"
| wake: "e \<in> set (si_ends s) \<Longrightarrow> e \<le> si_now s \<Longrightarrow> sim_step s (end_shock e s)"
| client: "k < length (si_clients s) \<Longrightarrow> client_step (si_clients s ! k) c \<Longrightarrow>
    cl_shock_mode c = cl_shock_mode (si_clients s ! k) \<Longrightarrow> sim_step s (s\<lparr>si_clients := (si_clients s)[k := c]\<rparr>)"

inductive sim_reachable :: "sim_settings \<Rightarrow> sim \<Rightarrow> bool" for cfg where
  init: "sim_start delay cfg = Inr s \<Longrightarrow> 600 \<le> delay \<Longrightarrow> delay \<le> 7200 \<Longrightarrow> sim_reachable cfg s"
| step: "sim_reachable cfg s \<Longrightarrow> sim_step s s' \<Longrightarrow> sim_reachable cfg s'"

inductive_cases sim_stepE: "sim_step s s'"

subsection \<open>Shocks\<close>

text \<open>At most one thread sleeps; while it does everything shakes, and the next shock is far away.\<close>

definition shock_inv :: "sim_settings \<Rightarrow> sim \<Rightarrow> bool" where
  "shock_inv cfg s \<longleftrightarrow>
     (in_armed (si_injector s) \<noteq> None \<longleftrightarrow> ss_shock_enabled cfg)
     \<and> (ss_shock_enabled cfg \<longrightarrow> in_running (si_injector s) \<and> in_enabled (si_injector s) \<and> si_now s \<le> si_next s)
     \<and> (if si_ends s = [] then \<forall>c \<in> set (si_clients s). \<not> cl_shock_mode c
        else \<exists>e. si_ends s = [e] \<and> si_now s \<le> e \<and> e \<le> si_now s + 30 \<and> e + 570 \<le> si_next s
          \<and> ss_shock_enabled cfg \<and> (\<forall>c \<in> set (si_clients s). cl_shock_mode c))"

lemma fleet_calm: "start_fleet s = Inr cs \<Longrightarrow> c \<in> set cs \<Longrightarrow> \<not> cl_shock_mode c"
  by (auto simp: start_fleet_def and_then_eq_Inr_iff make_fleet_def cl_start_def cl_connect_def new_client_def)

lemma shock_inv_init:
  assumes "sim_start delay cfg = Inr s" and "600 \<le> delay"
  shows "shock_inv cfg s"
  using assms fleet_calm [of cfg]
  by (auto simp: sim_start_def and_then_eq_Inr_iff shock_inv_def in_start_def in_schedule_next_def new_injector_def
      split: if_splits)

lemma shock_inv_step:
  assumes inv: "shock_inv cfg s" and step: "sim_step s s'"
  shows "shock_inv cfg s'"
  using step
proof cases
  case tick
  then show ?thesis
    using inv by (auto simp: shock_inv_def injector_due_def split: if_splits)
next
  case (fire delay)
  then have e: "ss_shock_enabled cfg" "si_ends s = []" "si_next s = si_now s"
    using inv by (auto simp: shock_inv_def injector_due_def split: if_splits)
  then show ?thesis
    using fire inv
    by (auto simp: shock_inv_def inject_def in_on_timer_def in_schedule_next_def set_shock_mode_def Let_def)
next
  case (wake e)
  then show ?thesis
    using inv by (auto simp: shock_inv_def end_shock_def set_shock_mode_def split: if_splits)
next
  case (client k c)
  have "\<forall>x \<in> set ((si_clients s)[k := c]). \<exists>y \<in> set (si_clients s). cl_shock_mode x = cl_shock_mode y"
    using client(2,4) by (auto dest!: set_update_subset_insert [THEN subsetD])
  then show ?thesis
    using inv client(1) by (auto simp: shock_inv_def split: if_splits)
qed

lemma reachable_shock_inv: "sim_reachable cfg s \<Longrightarrow> shock_inv cfg s"
  by (induction rule: sim_reachable.induct) (auto intro: shock_inv_init shock_inv_step)

text \<open>The whole fleet is in shock mode exactly while one of the detached threads sleeps, there is
  never more than one, it has at most 30 seconds left and ends at least 570 seconds before the
  next injection; without \<open>SIM_SHOCK_ENABLED\<close> no shock ever happens.\<close>

theorem shock_windows:
  assumes "sim_reachable cfg s"
  shows "length (si_ends s) \<le> 1
    \<and> (\<forall>c \<in> set (si_clients s). cl_shock_mode c \<longleftrightarrow> si_ends s \<noteq> [])
    \<and> (\<forall>e \<in> set (si_ends s). si_now s \<le> e \<and> e \<le> si_now s + 30 \<and> e + 570 \<le> si_next s)
    \<and> (\<not> ss_shock_enabled cfg \<longrightarrow> si_ends s = [])"
  using reachable_shock_inv [OF assms] by (auto simp: shock_inv_def split: if_splits)

subsection \<open>Which setting counts\<close>

text \<open>One variable: what it leaves in its field.\<close>

lemma getenv_text:
  "getenv env k (\<lambda>v s. Inr (s\<lparr>ss_server_ip := v\<rparr>)) s = Inr t \<Longrightarrow>
     t = s\<lparr>ss_server_ip := case env k of None \<Rightarrow> ss_server_ip s | Some v \<Rightarrow> v\<rparr>"
  "getenv env k (\<lambda>v s. Inr (s\<lparr>ss_shock_enabled := f v\<rparr>)) s = Inr t \<Longrightarrow>
     t = s\<lparr>ss_shock_enabled := case env k of None \<Rightarrow> ss_shock_enabled s | Some v \<Rightarrow> f v\<rparr>"
  by (auto simp: getenv_def split: option.splits)

lemma getenv_number:
  "getenv env k (\<lambda>v s. and_then (atoi v) (\<lambda>n. Inr (s\<lparr>ss_server_port := word_of_int n\<rparr>))) s = Inr t \<Longrightarrow>
     \<exists>p. Inr p = (case env k of None \<Rightarrow> Inr (ss_server_port s) | Some v \<Rightarrow> and_then (atoi v) (\<lambda>n. Inr (word_of_int n)))
       \<and> t = s\<lparr>ss_server_port := p\<rparr>"
  "getenv env k (\<lambda>v s. and_then (atoi v) (\<lambda>n. Inr (s\<lparr>ss_interval_ms := n\<rparr>))) s = Inr t \<Longrightarrow>
     \<exists>n. Inr n = (case env k of None \<Rightarrow> Inr (ss_interval_ms s) | Some v \<Rightarrow> atoi v) \<and> t = s\<lparr>ss_interval_ms := n\<rparr>"
  "getenv env k (\<lambda>v s. and_then (atoi v) (\<lambda>n. Inr (s\<lparr>ss_laser_count := n\<rparr>))) s = Inr t \<Longrightarrow>
     \<exists>n. Inr n = (case env k of None \<Rightarrow> Inr (ss_laser_count s) | Some v \<Rightarrow> atoi v) \<and> t = s\<lparr>ss_laser_count := n\<rparr>"
  "getenv env k (\<lambda>v s. and_then (atoi v) (\<lambda>n. Inr (s\<lparr>ss_vibration_count := n\<rparr>))) s = Inr t \<Longrightarrow>
     \<exists>n. Inr n = (case env k of None \<Rightarrow> Inr (ss_vibration_count s) | Some v \<Rightarrow> atoi v) \<and> t = s\<lparr>ss_vibration_count := n\<rparr>"
  by (auto simp: getenv_def and_then_eq_Inr_iff split: option.splits)

lemma settings_env_fields:
  assumes "settings_env env s = Inr t"
  shows "ss_server_ip t = (case env ''SIM_SERVER_IP'' of None \<Rightarrow> ss_server_ip s | Some v \<Rightarrow> v)"
    and "Inr (ss_server_port t) = (case env ''SIM_SERVER_PORT'' of None \<Rightarrow> Inr (ss_server_port s)
      | Some v \<Rightarrow> and_then (atoi v) (\<lambda>n. Inr (word_of_int n)))"
    and "Inr (ss_interval_ms t) = (case env ''SIM_INTERVAL_MS'' of None \<Rightarrow> Inr (ss_interval_ms s) | Some v \<Rightarrow> atoi v)"
    and "Inr (ss_laser_count t) = (case env ''SIM_LASER_COUNT'' of None \<Rightarrow> Inr (ss_laser_count s) | Some v \<Rightarrow> atoi v)"
    and "Inr (ss_vibration_count t) = (case env ''SIM_VIBRATION_COUNT'' of None \<Rightarrow> Inr (ss_vibration_count s) | Some v \<Rightarrow> atoi v)"
    and "ss_shock_enabled t = (case env ''SIM_SHOCK_ENABLED'' of None \<Rightarrow> ss_shock_enabled s
      | Some v \<Rightarrow> v = ''1'' \<or> v = ''true'')"
proof -
  obtain s1 s2 s3 s4 s5 where
    "getenv env ''SIM_SERVER_IP'' (\<lambda>v s. Inr (s\<lparr>ss_server_ip := v\<rparr>)) s = Inr s1"
    "getenv env ''SIM_SERVER_PORT'' (\<lambda>v s. and_then (atoi v) (\<lambda>n. Inr (s\<lparr>ss_server_port := word_of_int n\<rparr>))) s1 = Inr s2"
    "getenv env ''SIM_INTERVAL_MS'' (\<lambda>v s. and_then (atoi v) (\<lambda>n. Inr (s\<lparr>ss_interval_ms := n\<rparr>))) s2 = Inr s3"
    "getenv env ''SIM_LASER_COUNT'' (\<lambda>v s. and_then (atoi v) (\<lambda>n. Inr (s\<lparr>ss_laser_count := n\<rparr>))) s3 = Inr s4"
    "getenv env ''SIM_VIBRATION_COUNT'' (\<lambda>v s. and_then (atoi v) (\<lambda>n. Inr (s\<lparr>ss_vibration_count := n\<rparr>))) s4 = Inr s5"
    "getenv env ''SIM_SHOCK_ENABLED'' (\<lambda>v s. Inr (s\<lparr>ss_shock_enabled := (v = ''1'' \<or> v = ''true'')\<rparr>)) s5 = Inr t"
    using assms unfolding settings_env_def and_then_eq_Inr_iff by blast
  note steps = getenv_text(1) [OF this(1)] getenv_number(1) [OF this(2)] getenv_number(2) [OF this(3)]
    getenv_number(3) [OF this(4)] getenv_number(4) [OF this(5)] getenv_text(2) [OF this(6)]
  obtain p where p: "Inr p = (case env ''SIM_SERVER_PORT'' of None \<Rightarrow> Inr (ss_server_port s1)
      | Some v \<Rightarrow> and_then (atoi v) (\<lambda>n. Inr (word_of_int n)))" "s2 = s1\<lparr>ss_server_port := p\<rparr>"
    using steps(2) by blast
  obtain n where n: "Inr n = (case env ''SIM_INTERVAL_MS'' of None \<Rightarrow> Inr (ss_interval_ms s2) | Some v \<Rightarrow> atoi v)"
    "s3 = s2\<lparr>ss_interval_ms := n\<rparr>"
    using steps(3) by blast
  obtain l where l: "Inr l = (case env ''SIM_LASER_COUNT'' of None \<Rightarrow> Inr (ss_laser_count s3) | Some v \<Rightarrow> atoi v)"
    "s4 = s3\<lparr>ss_laser_count := l\<rparr>"
    using steps(4) by blast
  obtain c where c: "Inr c = (case env ''SIM_VIBRATION_COUNT'' of None \<Rightarrow> Inr (ss_vibration_count s4) | Some v \<Rightarrow> atoi v)"
    "s5 = s4\<lparr>ss_vibration_count := c\<rparr>"
    using steps(5) by blast
  note eqs = steps(1) p(2) n(2) l(2) c(2) steps(6)
  show "ss_server_ip t = (case env ''SIM_SERVER_IP'' of None \<Rightarrow> ss_server_ip s | Some v \<Rightarrow> v)"
    and "ss_shock_enabled t = (case env ''SIM_SHOCK_ENABLED'' of None \<Rightarrow> ss_shock_enabled s
      | Some v \<Rightarrow> v = ''1'' \<or> v = ''true'')"
    by (simp_all add: eqs split: option.split)
  show "Inr (ss_server_port t) = (case env ''SIM_SERVER_PORT'' of None \<Rightarrow> Inr (ss_server_port s)
      | Some v \<Rightarrow> and_then (atoi v) (\<lambda>n. Inr (word_of_int n)))"
    using p(1) by (cases "env ''SIM_SERVER_PORT''") (simp_all add: eqs)
  show "Inr (ss_interval_ms t) = (case env ''SIM_INTERVAL_MS'' of None \<Rightarrow> Inr (ss_interval_ms s) | Some v \<Rightarrow> atoi v)"
    using n(1) by (cases "env ''SIM_INTERVAL_MS''") (simp_all add: eqs)
  show "Inr (ss_laser_count t) = (case env ''SIM_LASER_COUNT'' of None \<Rightarrow> Inr (ss_laser_count s) | Some v \<Rightarrow> atoi v)"
    using l(1) by (cases "env ''SIM_LASER_COUNT''") (simp_all add: eqs)
  show "Inr (ss_vibration_count t) = (case env ''SIM_VIBRATION_COUNT'' of None \<Rightarrow> Inr (ss_vibration_count s) | Some v \<Rightarrow> atoi v)"
    using c(1) by (cases "env ''SIM_VIBRATION_COUNT''") (simp_all add: eqs)
qed

lemma args_number:
  "(if b then and_then r (\<lambda>n. Inr (s\<lparr>ss_server_port := word_of_int n\<rparr>)) else Inr s) = Inr t \<Longrightarrow>
     \<exists>p. Inr p = (if b then and_then r (\<lambda>n. Inr (word_of_int n)) else Inr (ss_server_port s)) \<and> t = s\<lparr>ss_server_port := p\<rparr>"
  "(if b then and_then r (\<lambda>n. Inr (s\<lparr>ss_interval_ms := n\<rparr>)) else Inr s) = Inr t \<Longrightarrow>
     \<exists>n. Inr n = (if b then r else Inr (ss_interval_ms s)) \<and> t = s\<lparr>ss_interval_ms := n\<rparr>"
  by (auto simp: and_then_eq_Inr_iff split: if_splits)

lemma settings_args_fields:
  assumes "settings_args argv s = Inr t"
  shows "ss_server_ip t = (if 2 \<le> length argv then argv ! 1 else ss_server_ip s)"
    and "Inr (ss_server_port t) = (if 3 \<le> length argv then and_then (atoi (argv ! 2)) (\<lambda>n. Inr (word_of_int n))
      else Inr (ss_server_port s))"
    and "Inr (ss_interval_ms t) = (if 4 \<le> length argv then atoi (argv ! 3) else Inr (ss_interval_ms s))"
    and "ss_laser_count t = ss_laser_count s" and "ss_vibration_count t = ss_vibration_count s"
    and "ss_shock_enabled t = ss_shock_enabled s"
proof -
  define s1 where "s1 = (if 2 \<le> length argv then s\<lparr>ss_server_ip := argv ! 1\<rparr> else s)"
  obtain s2 where s2: "(if 3 \<le> length argv
      then and_then (atoi (argv ! 2)) (\<lambda>n. Inr (s1\<lparr>ss_server_port := word_of_int n\<rparr>)) else Inr s1) = Inr s2"
    "(if 4 \<le> length argv then and_then (atoi (argv ! 3)) (\<lambda>n. Inr (s2\<lparr>ss_interval_ms := n\<rparr>)) else Inr s2) = Inr t"
    using assms unfolding settings_args_def Let_def s1_def and_then_eq_Inr_iff by blast
  obtain p where p: "Inr p = (if 3 \<le> length argv then and_then (atoi (argv ! 2)) (\<lambda>n. Inr (word_of_int n))
      else Inr (ss_server_port s1))" "s2 = s1\<lparr>ss_server_port := p\<rparr>"
    using args_number(1) [OF s2(1)] by blast
  obtain n where n: "Inr n = (if 4 \<le> length argv then atoi (argv ! 3) else Inr (ss_interval_ms s2))"
    "t = s2\<lparr>ss_interval_ms := n\<rparr>"
    using args_number(2) [OF s2(2)] by blast
  show "ss_server_ip t = (if 2 \<le> length argv then argv ! 1 else ss_server_ip s)"
    and "ss_laser_count t = ss_laser_count s" and "ss_vibration_count t = ss_vibration_count s"
    and "ss_shock_enabled t = ss_shock_enabled s"
    by (simp_all add: n(2) p(2) s1_def)
  show "Inr (ss_server_port t) = (if 3 \<le> length argv then and_then (atoi (argv ! 2)) (\<lambda>n. Inr (word_of_int n))
      else Inr (ss_server_port s))"
    using p(1) by (simp add: n(2) p(2) s1_def split: if_splits)
  show "Inr (ss_interval_ms t) = (if 4 \<le> length argv then atoi (argv ! 3) else Inr (ss_interval_ms s))"
    using n(1) by (simp add: n(2) p(2) s1_def split: if_splits)
qed

text \<open>Arguments override the environment, which overrides the defaults, for the address, the port
  and the interval; the numbers of sensors and the shocks come from the environment alone. A port keeps
  its low 16 bits.\<close>

theorem settings_precedence:
  assumes "simulator_settings env argv = Inr s"
  shows "(ss_server_ip s = (if 2 \<le> length argv then argv ! 1
      else case env ''SIM_SERVER_IP'' of None \<Rightarrow> ''127.0.0.1'' | Some v \<Rightarrow> v))
    \<and> (Inr (ss_server_port s) = (if 3 \<le> length argv then and_then (atoi (argv ! 2)) (\<lambda>n. Inr (word_of_int n))
      else case env ''SIM_SERVER_PORT'' of None \<Rightarrow> Inr 34964 | Some v \<Rightarrow> and_then (atoi v) (\<lambda>n. Inr (word_of_int n))))
    \<and> (Inr (ss_interval_ms s) = (if 4 \<le> length argv then atoi (argv ! 3)
      else case env ''SIM_INTERVAL_MS'' of None \<Rightarrow> Inr 10800000 | Some v \<Rightarrow> atoi v))
    \<and> (Inr (ss_laser_count s) = (case env ''SIM_LASER_COUNT'' of None \<Rightarrow> Inr 20 | Some v \<Rightarrow> atoi v))
    \<and> (Inr (ss_vibration_count s) = (case env ''SIM_VIBRATION_COUNT'' of None \<Rightarrow> Inr 40 | Some v \<Rightarrow> atoi v))
    \<and> (ss_shock_enabled s = (case env ''SIM_SHOCK_ENABLED'' of None \<Rightarrow> True | Some v \<Rightarrow> v = ''1'' \<or> v = ''true''))"
proof -
  obtain t where t: "settings_env env default_settings = Inr t" "settings_args argv t = Inr s"
    using assms by (auto simp: simulator_settings_def and_then_eq_Inr_iff)
  note f = settings_env_fields [OF t(1)] settings_args_fields [OF t(2)]
  show ?thesis
    by (intro conjI) (simp_all add: f default_settings_def split: option.split)
qed

definition demo_settings :: sim_settings where
  "demo_settings = default_settings\<lparr>ss_interval_ms := 1000, ss_laser_count := 1, ss_vibration_count := 0\<rparr>"

theorem shock_windows_witness:
  "\<exists>s. sim_start 600 demo_settings = Inr s \<and> (\<forall>c \<in> set (si_clients s). \<not> cl_shock_mode c)"
proof -
  have "\<exists>s. sim_start 600 demo_settings = Inr s \<and> si_ends s = []"
    by (simp add: sim_start_def start_fleet_def demo_settings_def default_settings_def client_interval_def Let_def)
  then obtain s where s: "sim_start 600 demo_settings = Inr s" "si_ends s = []"
    by blast
  then show ?thesis
    using shock_windows [OF sim_reachable.init [OF s(1)]] by simp
qed

theorem settings_precedence_witness:
  "\<exists>s. simulator_settings (\<lambda>_. None) [''sim'', ''backend''] = Inr s \<and> ss_server_ip s = ''backend''"
proof -
  have "\<exists>s. simulator_settings (\<lambda>_. None) [''sim'', ''backend''] = Inr s"
    by (simp add: simulator_settings_def settings_env_def settings_args_def getenv_def Let_def)
  then obtain s where s: "simulator_settings (\<lambda>_. None) [''sim'', ''backend''] = Inr s"
    by blast
  then show ?thesis
    using settings_precedence [OF s] by simp
qed

end
