(* ===== verification/Test_Framework.thy ===== *)
theory Test_Framework
  imports Binary64
begin

section \<open>The test program (src/tests/test_framework.h, test_main.cpp)\<close>

text \<open>
  The assertions, the registry with its filters, the run with its exit status, and the command line. A
  test is the outcome of its body. The texts of failed assertions are arguments: they are built by
  streams. Durations and console output are left out.
\<close>

subsection \<open>Assertions\<close>

definition assert_impl :: "bool \<Rightarrow> string \<Rightarrow> unit result" where
  "assert_impl cond msg = (if \<not> cond then Inl (Runtime_error msg) else Inr ())"

text \<open>The relative error in percent.\<close>

definition relative_error :: "double \<Rightarrow> double \<Rightarrow> double" where
  "relative_error actual expected =
     (if D (1 / 10 ^ 15) < \<bar>expected\<bar> then \<bar>actual - expected\<bar> / \<bar>expected\<bar> * D 100
      else if D (1 / 10 ^ 15) < \<bar>actual\<bar> then D 100 else 0)"

definition assert_near_impl :: "double \<Rightarrow> double \<Rightarrow> double \<Rightarrow> string \<Rightarrow> unit result" where
  "assert_near_impl actual expected tol_pct msg =
     (if tol_pct < relative_error actual expected then Inl (Runtime_error msg) else Inr ())"

definition assert_range_impl :: "double \<Rightarrow> double \<Rightarrow> double \<Rightarrow> string \<Rightarrow> unit result" where
  "assert_range_impl v lo hi msg =
     (if v < lo \<or> hi < v then Inl (Runtime_error msg) else Inr ())"

definition ASSERT_TRUE :: "bool \<Rightarrow> unit result" where
  "ASSERT_TRUE b = assert_impl b ''Assertion failed''"

definition ASSERT_FALSE :: "bool \<Rightarrow> unit result" where
  "ASSERT_FALSE b = assert_impl (\<not> b) ''Assertion failed''"

text \<open>Equality is the one of integers and strings; a NaN differs from itself in the program.\<close>

definition ASSERT_EQ :: "'a \<Rightarrow> 'a \<Rightarrow> unit result" where
  "ASSERT_EQ a b = assert_impl (a = b) ''Assertion failed''"

definition ASSERT_NEAR :: "double \<Rightarrow> double \<Rightarrow> double \<Rightarrow> unit result" where
  "ASSERT_NEAR actual expected tol_pct = assert_near_impl actual expected tol_pct ''Relative error''"

definition ASSERT_RANGE :: "double \<Rightarrow> double \<Rightarrow> double \<Rightarrow> unit result" where
  "ASSERT_RANGE v lo hi = assert_range_impl v lo hi ''Value out of range''"

definition ASSERT_NE :: "'a \<Rightarrow> 'a \<Rightarrow> unit result" where
  "ASSERT_NE a b = assert_impl (a \<noteq> b) ''Assertion failed''"

definition ASSERT_GT :: "double \<Rightarrow> double \<Rightarrow> unit result" where
  "ASSERT_GT a b = assert_impl (b < a) ''Assertion failed''"

definition ASSERT_LT :: "double \<Rightarrow> double \<Rightarrow> unit result" where
  "ASSERT_LT a b = assert_impl (a < b) ''Assertion failed''"

definition ASSERT_GE :: "double \<Rightarrow> double \<Rightarrow> unit result" where
  "ASSERT_GE a b = assert_impl (b \<le> a) ''Assertion failed''"

definition ASSERT_LE :: "double \<Rightarrow> double \<Rightarrow> unit result" where
  "ASSERT_LE a b = assert_impl (a \<le> b) ''Assertion failed''"

text \<open>A body is its assertions in order; the first failing one ends it.\<close>

primrec all_of :: "unit result list \<Rightarrow> unit result" where
  "all_of [] = Inr ()"
| "all_of (r # rs) = and_then r (\<lambda>_. all_of rs)"

subsection \<open>The registry\<close>

datatype test_run = Returns | Std_exception string | Other_exception

record test_entry =
  te_suite :: string
  te_name :: string
  te_fn :: test_run

record test_result =
  tr_suite :: string
  tr_name :: string
  tr_passed :: bool
  tr_message :: string

definition register_test :: "string \<Rightarrow> string \<Rightarrow> test_run \<Rightarrow> test_entry list \<Rightarrow> test_entry list" where
  "register_test suite name fn tests = tests @ [\<lparr>te_suite = suite, te_name = name, te_fn = fn\<rparr>]"

text \<open>\<open>s.find(p) != npos\<close>\<close>

fun found_in :: "string \<Rightarrow> string \<Rightarrow> bool" where
  "found_in p [] \<longleftrightarrow> p = []"
| "found_in p (c # s) \<longleftrightarrow> take (length p) (c # s) = p \<or> found_in p s"

definition skipped :: "string \<Rightarrow> string \<Rightarrow> test_entry \<Rightarrow> bool" where
  "skipped filter_suite filter_test t \<longleftrightarrow>
     (filter_suite \<noteq> [] \<and> te_suite t \<noteq> filter_suite) \<or> (filter_test \<noteq> [] \<and> \<not> found_in filter_test (te_name t))"

definition run_one :: "test_entry \<Rightarrow> test_result" where
  "run_one t =
     (let r = \<lparr>tr_suite = te_suite t, tr_name = te_name t, tr_passed = True, tr_message = []\<rparr> in
      case te_fn t of
        Returns \<Rightarrow> r\<lparr>tr_passed := True\<rparr>
      | Std_exception e \<Rightarrow> r\<lparr>tr_passed := False, tr_message := e\<rparr>
      | Other_exception \<Rightarrow> r\<lparr>tr_passed := False, tr_message := ''Unknown exception''\<rparr>)"

fun run_tests ::
  "string \<Rightarrow> string \<Rightarrow> test_entry list \<Rightarrow> int \<times> int \<times> test_result list \<Rightarrow> int \<times> int \<times> test_result list" where
  "run_tests fs ft [] (passed, failed, results) = (passed, failed, results)"
| "run_tests fs ft (t # ts) (passed, failed, results) =
     (if skipped fs ft t then run_tests fs ft ts (passed, failed, results)
      else let r = run_one t in
        run_tests fs ft ts
          (if tr_passed r then (passed + 1, failed, results @ [r]) else (passed, failed + 1, results @ [r])))"

definition run_all :: "string \<Rightarrow> string \<Rightarrow> test_entry list \<Rightarrow> int" where
  "run_all fs ft tests = (let (passed, failed, results) = run_tests fs ft tests (0, 0, []) in if 0 < failed then 1 else 0)"

subsection \<open>The command line\<close>

text \<open>The arguments after the program's name; \<open>None\<close> when the help text was asked for. An option without
  its value falls through to the last branch and is ignored.\<close>

fun parse_options :: "string list \<Rightarrow> string \<times> string \<Rightarrow> (string \<times> string) option" where
  "parse_options [] fs = Some fs"
| "parse_options [a] (suite, test) = (if a = ''--help'' \<or> a = ''-h'' then None else Some (suite, test))"
| "parse_options (a # b # as) (suite, test) =
     (if a = ''--suite'' then parse_options as (b, test)
      else if a = ''--test'' then parse_options as (suite, b)
      else if a = ''--help'' \<or> a = ''-h'' then None
      else parse_options (b # as) (suite, test))"

definition test_main :: "test_entry list \<Rightarrow> string list \<Rightarrow> int" where
  "test_main tests args =
     (case parse_options args ([], []) of None \<Rightarrow> 0 | Some (suite, test) \<Rightarrow> run_all suite test tests)"

text \<open>The commands \<open>CMakeLists.txt\<close> registers with CTest.\<close>

definition ctest_commands :: "(string \<times> string list) list" where
  "ctest_commands =
     [(''AllTests'', []),
      (''StressAnalysisTests'', [''--suite'', ''StressFEMTests'']),
      (''WashburnModelTests'', [''--suite'', ''WashburnModelTests'']),
      (''FourPointBendingTests'', [''--suite'', ''BendingTestTests'']),
      (''ModuleRegressionTests'', [''--suite'', ''ModuleRegressionTests'']),
      (''StressAcceptance'', [''--suite'', ''StressFEMTests'', ''--test'', ''Acceptance'']),
      (''WashburnAcceptance'', [''--suite'', ''WashburnModelTests'', ''--test'', ''Acceptance'']),
      (''BendingAcceptance'', [''--suite'', ''BendingTestTests'', ''--test'', ''Acceptance'']),
      (''ModuleAcceptance'', [''--suite'', ''ModuleRegressionTests'', ''--test'', ''Acceptance''])]"

subsection \<open>What a run reports\<close>

lemma run_tests_counts:
  "run_tests fs ft ts (p, f, rs) =
     (p + int (length (filter (\<lambda>t. \<not> skipped fs ft t \<and> te_fn t = Returns) ts)),
      f + int (length (filter (\<lambda>t. \<not> skipped fs ft t \<and> te_fn t \<noteq> Returns) ts)),
      rs @ map run_one (filter (\<lambda>t. \<not> skipped fs ft t) ts))"
  by (induction ts arbitrary: p f rs) (auto simp: run_one_def Let_def split: test_run.split)

text \<open>The exit status is 0 exactly when every selected test returned.\<close>

lemma run_all_status: "run_all fs ft ts = (if \<forall>t \<in> set ts. skipped fs ft t \<or> te_fn t = Returns then 0 else 1)"
  by (auto simp: run_all_def run_tests_counts filter_empty_conv)

text \<open>The suites and names the \<open>TEST\<close> macros of the four files register, in their order.\<close>

definition stress_tests :: "(string \<times> string) list" where
  "stress_tests =
     map (Pair ''StressFEM'')
       [''SingleCrack_AnalysisProducesValidStressField'',
        ''MultipleCracks_StressHigherNearCracks'',
        ''StressSymmetry_AxisAlignedCrack'',
        ''UniformCrackDensity_ProportionalStress'',
        ''VonMisesCalculation_PhysicallyValid'',
        ''EmptyCracks_ReturnsZeroStress'',
        ''SinglePointCrack_StressLocalized'',
        ''HighGridResolution_RuntimeReasonable'',
        ''MaxStressClipping_ValuesBounded'',
        ''DuplicateCrackPoints_StableResult'',
        ''VerySmallCrack_NoDegeneracy'',
        ''LargeCoordinateRange_NormalizedProperly'',
        ''Acceptance_ErrorVsAnalyticalLessThan10pct'',
        ''AMR_Enabled_AdaptiveMeshCreated'',
        ''AMR_Disabled_UniformMeshOnly'',
        ''AMR_HighGradientRegion_Refined'',
        ''AMR_MaxLevelRespected'',
        ''AMR_StressConcentration_Captured'',
        ''AMR_StressGradient_Threshold'',
        ''AMR_Coarsening_Works'',
        ''AMR_InvalidConfig_Handled'']"

definition washburn_tests :: "(string \<times> string) list" where
  "washburn_tests =
     map (Pair ''Washburn'')
       [''StandardParams_DepthMatchesAnalytical'',
        ''TimeReachDepth_MatchesDepthFormula'',
        ''PenetrationRate_DecreasesWithDepth'',
        ''DifferentViscosities_LowerViscosityFaster'',
        ''DifferentContactAngles_SmallerAngleBetter'',
        ''FullPredict_ValidOutputFields'',
        ''ZeroTime_DepthIsZero'',
        ''ZeroViscosity_InvalidButNoCrash'',
        ''90DegreeContact_NoPenetration'',
        ''VeryThinCrack_SlowerPenetration'',
        ''LargeTime_DepthSaturationByGravity'',
        ''NegativeTime_HandlesGracefully'',
        ''NegativeViscosity_NoCrash'',
        ''180DegreeContact_Repulsive'',
        ''Acceptance_PredictionErrorLessThan15pct''] @
     map (Pair ''WashburnModelTests'')
       [''RoughnessFactor_ValidRange'',
        ''WenzelContactAngle_Corrected'',
        ''Roughness_IncreasesTortuosity'',
        ''Roughness_ReducesEffectiveRadius'',
        ''PenetrationDepth_RoughnessCorrectionApplied'',
        ''PenetrationRate_WithRoughness'',
        ''RoughnessExtremes_Handled'',
        ''DynamicViscosityCorrection_ShearThinning'',
        ''Predict_OutputsRoughnessParams'']"

definition bending_tests :: "(string \<times> string) list" where
  "bending_tests =
     map (Pair ''FourPointBending'')
       [''Bending_NoCrack_StrengthMatchesMaterial'',
        ''Bending_WithCrack_StrengthReduced'',
        ''Bending_Repaired_HighPermeability_RecoveryAbove80pct'',
        ''Bending_LoadDisplacement_MonotonicallyIncreasing'',
        ''Bending_DifferentCrackDepths_DeeperCrackLowerStrength'',
        ''Bending_MultipleMaterials_BetterMaterialHigherRecovery'',
        ''Bending_MinimalCrack_AlmostFullRecovery'',
        ''Bending_CrackThroughThickness_VeryLowStrength'',
        ''Bending_MaxDisplacementReached_TerminatesGracefully'',
        ''Bending_ZeroBondingMaterial_NoImprovement'',
        ''Bending_MomentDistribution_Symmetric'',
        ''Bending_NegativeCrackDepth_ClampedToZero'',
        ''Bending_ThicknessZero_HandlesGracefully'',
        ''Bending_SpanGreaterThanSpecimen_Warns'',
        ''Bending_Acceptance_HighPermeabilityRecoveryAbove80pct''] @
     map (Pair ''BendingTestTests'')
       [''BayesianOptimizer_CreateAndSetup'',
        ''GaussianProcess_PredictValid'',
        ''ExpectedImprovement_PeaksAtOptimum'',
        ''ParameterBounds_Clamped'',
        ''CalibrateModel_ImprovesMSE'',
        ''CalibrateModel_WithoutBayesian'',
        ''CalibrationResult_JSON_Serializable'',
        ''EmptyDataset_HandledGracefully'',
        ''CrackInfluenceCoeffs_UsedInCalc'',
        ''Bayesian_NoisyData_Robust'']"

definition regression_tests :: "(string \<times> string) list" where
  "regression_tests =
     map (Pair ''ModuleRegressionTests'')
       [''ModuleFactory_Registered'',
        ''FemStressModule_CreateAndDestroy'',
        ''FemStressModule_Initialize'',
        ''FemStressModule_ExecuteSync'',
        ''FemStressModule_ExecuteAsync'',
        ''WashburnModule_CreateAndInitialize'',
        ''WashburnModule_ThreadPool'',
        ''WashburnModule_ExecuteSyncBatch'',
        ''StrengthModule_CreateAndInitialize'',
        ''StrengthModule_ExecuteSync'',
        ''StrengthModule_RepairedVsUnrepaired'',
        ''VrModule_CreateAndInitialize'',
        ''VrModule_ExecuteSync'',
        ''VrModule_BuildPreview'',
        ''ThreadPool_Basic'',
        ''ThreadPool_ReturnValues'',
        ''ThreadPool_WaitAll'',
        ''IpcLocalChannel_Basic'',
        ''IpcLocalChannel_Callback'',
        ''Acceptance_ModulePipeline'']"

definition registered_tests :: "(string \<times> string) list" where
  "registered_tests = stress_tests @ washburn_tests @ bending_tests @ regression_tests"

definition selects :: "string \<Rightarrow> string \<Rightarrow> string \<times> string \<Rightarrow> bool" where
  "selects fs ft p \<longleftrightarrow> (fs = [] \<or> fst p = fs) \<and> (ft = [] \<or> found_in ft (snd p))"

lemma skipped_selects: "skipped fs ft t \<longleftrightarrow> \<not> selects fs ft (te_suite t, te_name t)"
  by (auto simp: skipped_def selects_def)

lemma filter_suite:
  "filter (selects fs ft) (map (Pair s) names) =
     (if fs = [] \<or> s = fs then map (Pair s) (filter (\<lambda>name. ft = [] \<or> found_in ft name) names) else [])"
  by (simp add: filter_map comp_def selects_def)

text \<open>No suite is called \<open>StressFEMTests\<close>, and the acceptance tests are in the suites without \<open>Tests\<close>
  in their names.\<close>

lemma no_stress_selected: "filter (selects ''StressFEMTests'' ft) registered_tests = []"
  unfolding registered_tests_def stress_tests_def washburn_tests_def bending_tests_def regression_tests_def
    filter_append filter_suite by simp

lemma no_washburn_acceptance: "filter (selects ''WashburnModelTests'' ''Acceptance'') registered_tests = []"
  unfolding registered_tests_def stress_tests_def washburn_tests_def bending_tests_def regression_tests_def
    filter_append filter_suite by simp

lemma no_bending_acceptance: "filter (selects ''BendingTestTests'' ''Acceptance'') registered_tests = []"
  unfolding registered_tests_def stress_tests_def washburn_tests_def bending_tests_def regression_tests_def
    filter_append filter_suite by simp

lemma run_nothing:
  assumes "set (map (\<lambda>t. (te_suite t, te_name t)) tests) = set registered_tests" and "filter (selects fs ft) registered_tests = []"
  shows "run_all fs ft tests = 0"
proof -
  have "\<forall>t \<in> set tests. (te_suite t, te_name t) \<in> set registered_tests"
    unfolding assms(1) [symmetric] by simp
  then have "\<forall>t \<in> set tests. skipped fs ft t"
    using assms(2) by (auto simp: skipped_selects filter_empty_conv)
  then show ?thesis
    by (simp add: run_all_status)
qed

text \<open>Four of the nine commands that CTest runs test nothing: the stress tests and the acceptance
  commands of the three algorithms select none of the 90 registered tests, in whatever order the files
  register them, so they succeed whatever the tests do. The whole program fails as soon as one test does
  not return.\<close>

theorem acceptance_tests_never_run:
  assumes "set (map (\<lambda>t. (te_suite t, te_name t)) tests) = set registered_tests"
  shows "map (\<lambda>c. test_main tests (the (map_of ctest_commands c)))
      [''StressAnalysisTests'', ''StressAcceptance'', ''WashburnAcceptance'', ''BendingAcceptance''] = [0, 0, 0, 0]
    \<and> test_main tests (the (map_of ctest_commands ''AllTests'')) = (if \<forall>t \<in> set tests. te_fn t = Returns then 0 else 1)"
proof
  show "map (\<lambda>c. test_main tests (the (map_of ctest_commands c)))
      [''StressAnalysisTests'', ''StressAcceptance'', ''WashburnAcceptance'', ''BendingAcceptance''] = [0, 0, 0, 0]"
    using run_nothing [OF assms no_stress_selected] run_nothing [OF assms no_washburn_acceptance]
      run_nothing [OF assms no_bending_acceptance]
    by (simp add: ctest_commands_def test_main_def)
  show "test_main tests (the (map_of ctest_commands ''AllTests'')) = (if \<forall>t \<in> set tests. te_fn t = Returns then 0 else 1)"
    by (simp add: ctest_commands_def test_main_def run_all_status skipped_def)
qed

text \<open>The two numeric assertions let a NaN pass: \<open>ASSERT_NEAR\<close> accepts it against every expected
  value other than zero and \<open>ASSERT_RANGE\<close> in every range, because their comparisons are false.\<close>

theorem assertions_accept_nan:
  assumes "D (1 / 10 ^ 15) < \<bar>expected\<bar>"
  shows "ASSERT_NEAR NAN expected tol = Inr () \<and> ASSERT_RANGE NAN lo hi = Inr ()"
  using assms by (simp add: ASSERT_NEAR_def assert_near_impl_def relative_error_def ASSERT_RANGE_def assert_range_impl_def)

text \<open>The registered tests with bodies that all fail.\<close>

definition failing_tests :: "test_entry list" where
  "failing_tests = fold (\<lambda>(suite, name). register_test suite name (Std_exception ''wrong'')) registered_tests []"

lemma failing_tests_map:
  "failing_tests = map (\<lambda>(suite, name). \<lparr>te_suite = suite, te_name = name, te_fn = Std_exception ''wrong''\<rparr>) registered_tests"
proof -
  have "fold (\<lambda>(suite, name). register_test suite name f) ps ts =
      ts @ map (\<lambda>(suite, name). \<lparr>te_suite = suite, te_name = name, te_fn = f\<rparr>) ps" for f ps ts
    by (induction ps arbitrary: ts) (auto simp: register_test_def)
  then show ?thesis
    by (simp add: failing_tests_def)
qed

theorem acceptance_tests_never_run_witness:
  "test_main failing_tests [''--suite'', ''BendingTestTests'', ''--test'', ''Acceptance''] = 0
   \<and> test_main failing_tests [] = 1"
proof -
  have r: "set (map (\<lambda>t. (te_suite t, te_name t)) failing_tests) = set registered_tests"
    by (simp add: failing_tests_map comp_def case_prod_beta)
  have "\<not> (\<forall>t \<in> set failing_tests. te_fn t = Returns)"
    by (simp add: failing_tests_map registered_tests_def stress_tests_def)
  then show ?thesis
    using acceptance_tests_never_run [OF r] by (simp add: ctest_commands_def)
qed

theorem assertions_accept_nan_witness: "ASSERT_NEAR NAN (D 1) (D 1) = Inr () \<and> ASSERT_RANGE NAN 0 (D 1) = Inr ()"
proof (rule assertions_accept_nan)
  have "D (1 / 10 ^ 15) \<le> D (1 / 2)"
    by (rule D_mono) simp
  moreover have "D (1 / 2) < D 1"
    using exact_dyadic [of 1 1] by (subst D_less) simp_all
  ultimately have "D (1 / 10 ^ 15) < D 1"
    by (rule dle_less_trans)
  then show "D (1 / 10 ^ 15) < \<bar>D 1\<bar>"
    using D_abs [of 1] by simp
qed

end
