(* ===== verification/Absolute_Errors.thy ===== *)
theory Absolute_Errors
  imports Relative_Errors
begin

section \<open>Absolute errors of double expressions\<close>

text \<open>
  A third calculus, for sums with terms of both signs: \<open>about x r e\<close> says that the double \<open>x\<close> is
  finite and at most \<open>e\<close> away from the real \<open>r\<close>. Every operation adds one rounding, at most
  \<open>(\<bar>r\<bar> + 1) / 10 ^ 15\<close>, to the error its operands bring along.
\<close>

definition about :: "double \<Rightarrow> real \<Rightarrow> real \<Rightarrow> bool" where
  "about x r e \<longleftrightarrow> isfinite x \<and> \<bar>val x - r\<bar> \<le> e"

lemma aboutE:
  assumes "about x r e"
  obtains a where "x = D a" and "exact a" and "\<bar>a - r\<bar> \<le> e"
  using assms by (cases x) (auto simp: about_def)

lemma about_encl: "about x r e \<longleftrightarrow> encl x (r - e) (r + e)"
  by (auto simp: about_def encl_def abs_le_iff)

lemma about_val: "isfinite x \<Longrightarrow> about x (val x) 0"
  by (simp add: about_def)

lemma about_exact: "exact r \<Longrightarrow> about (D r) r 0"
  by (simp add: about_def)

lemma about_weaken: "about x r e \<Longrightarrow> e + \<bar>r - s\<bar> \<le> f \<Longrightarrow> about x s f"
  by (auto simp: about_def)

lemma about_nonneg: "about x r e \<Longrightarrow> 0 \<le> e"
  by (auto simp: about_def)

lemma about_finite: "about x r e \<Longrightarrow> isfinite x"
  by (simp add: about_def)

subsection \<open>One rounding\<close>

lemma tiny_round: "0 \<le> r \<Longrightarrow> r \<le> 1 / 2 ^ 400 \<Longrightarrow> 0 \<le> round64 r \<and> round64 r \<le> 1 / 2 ^ 400"
  using round64_mono [of r "1 / 2 ^ 400"] round64_representable [of "1 / 2 ^ 400"] representable_dyadic [of 1 400]
  by (simp add: round64_nonneg)

lemma round64_error_pos:
  assumes "0 \<le> r" and "r \<le> 2 ^ 400"
  shows "\<bar>round64 r - r\<bar> \<le> (r + 1) / 10 ^ 15"
proof (cases "r \<le> 1 / 2 ^ 400")
  case True
  have "1 / 2 ^ 400 \<le> (1 :: real) / 10 ^ 15"
    by simp
  moreover have "1 / 10 ^ 15 \<le> (r + 1) / 10 ^ 15"
    using assms(1) by (intro divide_right_mono) simp_all
  ultimately show ?thesis
    using tiny_round [OF assms(1) True] assms(1) True by (simp only: abs_le_iff) linarith
next
  case False
  then have r: "1 / 2 ^ 400 \<le> r" "0 < r"
    by (simp_all add: less_le_trans [of 0 "1 / 2 ^ 400"])
  have "2 powi (- 1022) \<le> (1 :: real) / 2 ^ 400"
    by (simp add: power_int_minus divide_simps)
  then have "\<bar>round64 r - r\<bar> \<le> r / 2 ^ 53"
    using round_pos_error [of r] r by (simp add: round64_def)
  also have "\<dots> \<le> (r + 1) / 10 ^ 15"
    using r(2) by (simp add: field_simps)
  finally show ?thesis .
qed

lemma round64_error: "\<bar>r\<bar> \<le> 2 ^ 400 \<Longrightarrow> \<bar>round64 r - r\<bar> \<le> (\<bar>r\<bar> + 1) / 10 ^ 15"
  using round64_error_pos [of r] round64_error_pos [of "- r"] by (cases "0 \<le> r") (auto simp: abs_if split: if_splits)

lemma about_round:
  assumes "\<bar>a - r\<bar> \<le> e" and "\<bar>r\<bar> + e \<le> 10 ^ 100" and "e + (\<bar>r\<bar> + e + 1) / 10 ^ 15 \<le> e'"
  shows "about (D a) r e'"
proof -
  have a: "\<bar>a\<bar> \<le> \<bar>r\<bar> + e"
    using assms(1) by linarith
  have big: "(10 :: real) ^ 100 \<le> 2 ^ 400"
    by simp
  have "\<bar>a\<bar> \<le> 2 ^ 400"
    using a assms(2) big by linarith
  from round64_error [OF this] have err: "\<bar>round64 a - a\<bar> \<le> (\<bar>a\<bar> + 1) / 10 ^ 15" .
  also have "\<dots> \<le> (\<bar>r\<bar> + e + 1) / 10 ^ 15"
    using a by (intro divide_right_mono) simp_all
  finally have d: "\<bar>round64 a - r\<bar> \<le> e'"
    using assms(1,3) by linarith
  have "(\<bar>a\<bar> + 1) / 10 ^ 15 \<le> \<bar>a\<bar> + 1"
    by (simp add: divide_le_eq)
  then have "\<bar>round64 a\<bar> \<le> 2 * 2 ^ 400 + 1"
    using err \<open>\<bar>a\<bar> \<le> 2 ^ 400\<close> by linarith
  also have "\<dots> < (2 :: real) ^ 1024"
    by simp
  finally have "D a = D (round64 a)" "exact (round64 a)"
    using D_cases [of a] by auto
  then show ?thesis
    using d by (simp add: about_def)
qed

lemma about_D: "\<bar>r\<bar> \<le> 10 ^ 100 \<Longrightarrow> (\<bar>r\<bar> + 1) / 10 ^ 15 \<le> e \<Longrightarrow> about (D r) r e"
  by (rule about_round [of r r 0]) simp_all

subsection \<open>Operations\<close>

lemma about_plus:
  assumes "about x r e" and "about y s f" and "\<bar>r + s\<bar> + (e + f) \<le> 10 ^ 100"
    and "(e + f) + (\<bar>r + s\<bar> + (e + f) + 1) / 10 ^ 15 \<le> e'"
  shows "about (x + y) (r + s) e'"
  using assms(1,2)
proof (elim aboutE)
  fix a b
  assume "x = D a" "exact a" "\<bar>a - r\<bar> \<le> e" "y = D b" "exact b" "\<bar>b - s\<bar> \<le> f"
  then show ?thesis
    using about_round [of "a + b" "r + s" "e + f" e'] assms(3,4) by simp
qed

lemma about_uminus: "about x r e \<Longrightarrow> about (- x) (- r) e"
  by (erule aboutE) (simp add: about_def)

lemma about_minus:
  assumes "about x r e" and "about y s f" and "\<bar>r - s\<bar> + (e + f) \<le> 10 ^ 100"
    and "(e + f) + (\<bar>r - s\<bar> + (e + f) + 1) / 10 ^ 15 \<le> e'"
  shows "about (x - y) (r - s) e'"
  using about_plus [OF assms(1) about_uminus [OF assms(2)]] assms(3,4) by (simp add: minus_double_def)

lemma product_error:
  fixes a b r s :: real
  assumes "\<bar>a - r\<bar> \<le> e" and "\<bar>b - s\<bar> \<le> f"
  shows "\<bar>a * b - r * s\<bar> \<le> \<bar>r\<bar> * f + \<bar>s\<bar> * e + e * f"
proof -
  have "a * b - r * s = r * (b - s) + s * (a - r) + (a - r) * (b - s)"
    by (simp add: algebra_simps)
  also have "\<bar>\<dots>\<bar> \<le> \<bar>r\<bar> * \<bar>b - s\<bar> + \<bar>s\<bar> * \<bar>a - r\<bar> + \<bar>a - r\<bar> * \<bar>b - s\<bar>"
    unfolding abs_mult [symmetric] by linarith
  also have "\<dots> \<le> \<bar>r\<bar> * f + \<bar>s\<bar> * e + e * f"
    using assms by (intro add_mono mult_left_mono mult_mono) auto
  finally show ?thesis .
qed

lemma about_times:
  assumes "about x r e" and "about y s f" and "\<bar>r * s\<bar> + (\<bar>r\<bar> * f + \<bar>s\<bar> * e + e * f) \<le> 10 ^ 100"
    and "(\<bar>r\<bar> * f + \<bar>s\<bar> * e + e * f) + (\<bar>r * s\<bar> + (\<bar>r\<bar> * f + \<bar>s\<bar> * e + e * f) + 1) / 10 ^ 15 \<le> e'"
  shows "about (x * y) (r * s) e'"
  using assms(1,2)
proof (elim aboutE)
  fix a b
  assume "x = D a" "exact a" "\<bar>a - r\<bar> \<le> e" "y = D b" "exact b" "\<bar>b - s\<bar> \<le> f"
  then show ?thesis
    using about_round [OF product_error, of a r e b s f e'] assms(3,4) by simp
qed

lemma quotient_error:
  fixes a b r s :: real
  assumes "\<bar>a - r\<bar> \<le> e" and "\<bar>b - s\<bar> \<le> f" and "f < s"
  shows "\<bar>a / b - r / s\<bar> \<le> (e + \<bar>r / s\<bar> * f) / (s - f)"
proof -
  have f: "0 \<le> f"
    using assms(2) by linarith
  have b: "s - f \<le> b" "0 < s - f" "0 < b" "0 < s"
    using assms(2,3) f by linarith+
  have "a / b - r / s = ((a - r) - r / s * (b - s)) / b"
    using b by (simp add: field_simps)
  also have "\<bar>\<dots>\<bar> = \<bar>(a - r) - r / s * (b - s)\<bar> / b"
    using b by simp
  also have "\<dots> \<le> (\<bar>a - r\<bar> + \<bar>r / s\<bar> * \<bar>b - s\<bar>) / b"
    using b(3) unfolding abs_mult [symmetric] by (intro divide_right_mono abs_triangle_ineq4) simp
  also have "\<dots> \<le> (e + \<bar>r / s\<bar> * f) / b"
    using b assms(1,2) by (intro divide_right_mono add_mono mult_left_mono) auto
  also have "\<dots> \<le> (e + \<bar>r / s\<bar> * f) / (s - f)"
    using b f assms(1) by (intro divide_left_mono) auto
  finally show ?thesis .
qed

lemma about_divide:
  assumes "about x r e" and "about y s f" and "f < s" and "\<bar>r / s\<bar> + (e + \<bar>r / s\<bar> * f) / (s - f) \<le> 10 ^ 100"
    and "(e + \<bar>r / s\<bar> * f) / (s - f) + (\<bar>r / s\<bar> + (e + \<bar>r / s\<bar> * f) / (s - f) + 1) / 10 ^ 15 \<le> e'"
  shows "about (x / y) (r / s) e'"
  using assms(1,2)
proof (elim aboutE)
  fix a b
  assume a: "x = D a" "exact a" "\<bar>a - r\<bar> \<le> e" "y = D b" "exact b" "\<bar>b - s\<bar> \<le> f"
  then have "b \<noteq> 0"
    using assms(3) by auto
  then show ?thesis
    using about_round [OF quotient_error [OF a(3,6) assms(3)], of e'] a assms(4,5) by simp
qed

text \<open>The same with bounds instead of the reals themselves, so that the conditions on the errors are about
  numerals: on the result, on the divisor and on the error before rounding.\<close>

lemma about_add:
  assumes "about x r e" and "about y s f" and "\<bar>r + s\<bar> \<le> q" and "q + (e + f) \<le> 10 ^ 100"
    and "(e + f) + (q + (e + f) + 1) / 10 ^ 15 \<le> e'"
  shows "about (x + y) (r + s) e'"
proof (rule about_plus [OF assms(1,2)])
  show "\<bar>r + s\<bar> + (e + f) \<le> 10 ^ 100"
    using assms(3,4) by linarith
  have "(\<bar>r + s\<bar> + (e + f) + 1) / 10 ^ 15 \<le> (q + (e + f) + 1) / 10 ^ 15"
    using assms(3) by (intro divide_right_mono) simp_all
  then show "(e + f) + (\<bar>r + s\<bar> + (e + f) + 1) / 10 ^ 15 \<le> e'"
    using assms(5) by linarith
qed

lemma about_subtract:
  assumes "about x r e" and "about y s f" and "\<bar>r - s\<bar> \<le> q" and "q + (e + f) \<le> 10 ^ 100"
    and "(e + f) + (q + (e + f) + 1) / 10 ^ 15 \<le> e'"
  shows "about (x - y) (r - s) e'"
  using about_add [OF assms(1) about_uminus [OF assms(2)]] assms(3-5) by (simp add: minus_double_def)

lemma about_product:
  assumes "about x r e" and "about y s f" and "\<bar>r\<bar> \<le> R" and "\<bar>s\<bar> \<le> S" and "R * f + S * e + e * f \<le> w"
    and "R * S + w \<le> 10 ^ 100" and "w + (R * S + w + 1) / 10 ^ 15 \<le> e'"
  shows "about (x * y) (r * s) e'"
proof (rule about_times [OF assms(1,2)])
  have e: "0 \<le> e" "0 \<le> f"
    using assms(1,2) by (simp_all add: about_nonneg)
  have p: "\<bar>r * s\<bar> \<le> R * S"
    using assms(3,4) unfolding abs_mult by (intro mult_mono) auto
  have "\<bar>r\<bar> * f \<le> R * f" "\<bar>s\<bar> * e \<le> S * e"
    using e assms(3,4) by (simp_all add: mult_right_mono)
  then have w: "\<bar>r\<bar> * f + \<bar>s\<bar> * e + e * f \<le> w"
    using assms(5) by linarith
  show "\<bar>r * s\<bar> + (\<bar>r\<bar> * f + \<bar>s\<bar> * e + e * f) \<le> 10 ^ 100"
    by (rule order_trans [OF add_mono [OF p w] assms(6)])
  have "(\<bar>r * s\<bar> + (\<bar>r\<bar> * f + \<bar>s\<bar> * e + e * f) + 1) / 10 ^ 15 \<le> (R * S + w + 1) / 10 ^ 15"
    using add_mono [OF p w] by (intro divide_right_mono add_right_mono) simp_all
  from order_trans [OF add_mono [OF w this] assms(7)]
  show "(\<bar>r\<bar> * f + \<bar>s\<bar> * e + e * f) + (\<bar>r * s\<bar> + (\<bar>r\<bar> * f + \<bar>s\<bar> * e + e * f) + 1) / 10 ^ 15 \<le> e'" .
qed

lemma about_quotient:
  assumes "about x r e" and "about y s f" and "0 < m" and "m \<le> s - f" and "\<bar>r / s\<bar> \<le> q" and "(e + q * f) / m \<le> w"
    and "q + w \<le> 10 ^ 100" and "w + (q + w + 1) / 10 ^ 15 \<le> e'"
  shows "about (x / y) (r / s) e'"
proof (rule about_divide [OF assms(1,2)])
  have e: "0 \<le> e" "0 \<le> f"
    using assms(1,2) by (simp_all add: about_nonneg)
  then show "f < s"
    using assms(3,4) by linarith
  have q: "0 \<le> q"
    using assms(5) by linarith
  have "(e + \<bar>r / s\<bar> * f) / (s - f) \<le> (e + q * f) / m"
    using e q assms(3,4,5) by (intro frac_le add_left_mono mult_right_mono) simp_all
  then have w: "(e + \<bar>r / s\<bar> * f) / (s - f) \<le> w"
    using assms(6) by linarith
  from add_mono [OF assms(5) this] assms(7)
  show "\<bar>r / s\<bar> + (e + \<bar>r / s\<bar> * f) / (s - f) \<le> 10 ^ 100"
    by (rule order_trans)
  have "(\<bar>r / s\<bar> + (e + \<bar>r / s\<bar> * f) / (s - f) + 1) / 10 ^ 15 \<le> (q + w + 1) / 10 ^ 15"
    using add_mono [OF assms(5) w] by (intro divide_right_mono add_right_mono) simp_all
  from add_mono [OF w this] assms(8)
  show "(e + \<bar>r / s\<bar> * f) / (s - f) + (\<bar>r / s\<bar> + (e + \<bar>r / s\<bar> * f) / (s - f) + 1) / 10 ^ 15 \<le> e'"
    by (rule order_trans)
qed

lemma about_std_max: "about x r e \<Longrightarrow> about y s f \<Longrightarrow> about (std_max x y) (max r s) (max e f)"
  by (elim aboutE) (auto simp: std_max_def about_def max_def abs_le_iff)

lemma about_std_min: "about x r e \<Longrightarrow> about y s f \<Longrightarrow> about (std_min x y) (min r s) (max e f)"
  by (elim aboutE) (auto simp: std_min_def about_def min_def max_def abs_le_iff)

lemma about_abs: "about x r e \<Longrightarrow> about \<bar>x\<bar> \<bar>r\<bar> e"
proof (erule aboutE)
  fix a
  assume a: "x = D a" "exact a" "\<bar>a - r\<bar> \<le> e"
  then have "exact \<bar>a\<bar>"
    by (simp add: abs_if)
  then show ?thesis
    using a by (simp add: about_def)
qed

text \<open>A root near \<open>c\<close>, when the square of \<open>c\<close> is near the operand.\<close>

lemma about_dsqrt:
  assumes "about x r e" and "e \<le> r" and "0 < c" and "\<bar>r - c * c\<bar> + e \<le> d * c" and "c + d \<le> 10 ^ 100"
    and "d + (c + d + 1) / 10 ^ 15 \<le> e'"
  shows "about (dsqrt x) c e'"
  using assms(1)
proof (rule aboutE)
  fix a
  assume a: "x = D a" "exact a" "\<bar>a - r\<bar> \<le> e"
  then have a0: "0 \<le> a"
    using assms(2) by linarith
  have "\<bar>sqrt a - c\<bar> * c \<le> \<bar>sqrt a - c\<bar> * (sqrt a + c)"
    using a0 assms(3) by (intro mult_left_mono) simp_all
  also have "\<dots> = \<bar>(sqrt a - c) * (sqrt a + c)\<bar>"
    using a0 assms(3) by (simp add: abs_mult)
  also have "\<dots> = \<bar>a - c * c\<bar>"
    using a0 by (simp add: algebra_simps)
  also have "\<dots> \<le> d * c"
    using a(3) assms(4) by linarith
  finally have "\<bar>sqrt a - c\<bar> \<le> d"
    using assms(3) by simp
  then have "about (D (sqrt a)) c e'"
    using assms(3,5,6) by (intro about_round) simp_all
  then show ?thesis
    using a a0 by (simp add: dsqrt_def)
qed

subsection \<open>Comparisons\<close>

lemma about_less: "about x r e \<Longrightarrow> about y s f \<Longrightarrow> r + e < s - f \<Longrightarrow> x < y"
  by (elim aboutE) simp

lemma about_le: "about x r e \<Longrightarrow> about y s f \<Longrightarrow> r + e \<le> s - f \<Longrightarrow> x \<le> y"
  by (elim aboutE) simp

lemma about_not_nan: "about x r e \<Longrightarrow> x \<noteq> NAN"
  by (erule aboutE) simp

end
