(* ===== verification/Bending_Expectations.thy ===== *)
theory Bending_Expectations
  imports Bending_Test Test_Framework Absolute_Errors
begin

section \<open>The tests of the bending test (src/tests/test_four_point_bending.cpp)\<close>

text \<open>
  The suite \<open>FourPointBending\<close>, each test as the outcome of its body over the model of Bending_Test, and
  its registration. The time a crack was detected at is an argument.
\<close>

subsection \<open>Helpers\<close>

definition bending_crack :: "time_point \<Rightarrow> double \<Rightarrow> double \<Rightarrow> crack_info" where
  "bending_crack now depth_mm width_um =
     (let p = \<lparr>px = D 15, py = 0, pz = 0, pdepth = depth_mm, pwidth = width_um * D (1 / 10 ^ 3),
          pnormal = None, pcurvature = None\<rparr>
      in \<lparr>ci_id = 1, ci_porcelain_id = 1, ci_crack_code = ''TEST_CRACK'', ci_max_depth = depth_mm,
          ci_max_width = width_um * D (1 / 10 ^ 3), ci_total_length = D 10, ci_status = ''active'',
          ci_points = [p, p\<lparr>px := D 25\<rparr>], ci_detected_at = now\<rparr>)"

definition bending_material :: "double \<Rightarrow> double \<Rightarrow> double \<Rightarrow> repair_material" where
  "bending_material bonding_strength viscosity youngs_gpa =
     \<lparr>rm_id = 1, rm_type = SILICA, rm_name = ''TestMaterial'', rm_manufacturer = ''Test'',
      rm_particle_size_nm = D 100, rm_purity = D (99/100), rm_viscosity = viscosity, rm_refractive_index = D (15/10),
      rm_thermal_expansion_coeff = D (1 / 10 ^ 6),
      rm_properties = JObj [(''bonding_strength'', JNum bonding_strength), (''youngs_modulus_gpa'', JNum youngs_gpa)]\<rparr>"

fun monotonic_increasing :: "double list \<Rightarrow> bool" where
  "monotonic_increasing (a # b # v) \<longleftrightarrow> \<not> b \<le> a \<and> monotonic_increasing (b # v)"
| "monotonic_increasing _ \<longleftrightarrow> True"

definition isinf :: "double \<Rightarrow> bool" where
  "isinf x \<longleftrightarrow> x = PINF \<or> x = NINF"

text \<open>A fresh object with a configuration, one simulation, and the assertions about its result.\<close>

definition simulation :: "bending_test_config \<Rightarrow> time_point \<Rightarrow> int \<Rightarrow> int \<Rightarrow> crack_info \<Rightarrow> repair_material \<Rightarrow> bool \<Rightarrow>
    bending_test_result result" where
  "simulation config now crack_id material_id crack material repaired =
     and_then (simulate_bending (set_bending_config config new_bending_test) now 1 crack_id material_id crack material repaired)
       (\<lambda>(r, t). Inr r)"

definition test_config :: bending_test_config where
  "test_config = default_bending_config\<lparr>tc_specimen_thickness_mm := D 5, tc_porcelain_strength_mpa := D 120\<rparr>"

subsection \<open>The tests\<close>

definition Bending_NoCrack_StrengthMatchesMaterial :: "time_point \<Rightarrow> unit result" where
  "Bending_NoCrack_StrengthMatchesMaterial now =
     and_then (simulation (default_bending_config\<lparr>tc_porcelain_strength_mpa := D 120\<rparr>) now 0 0
         (bending_crack now 0 0) (bending_material 0 (D 1) (D 70)) False) (\<lambda>r.
       all_of [ASSERT_RANGE (bt_original_strength_mpa r) (D 80) (D 150),
               ASSERT_NEAR (bt_original_strength_mpa r) (D 120) (D 1)])"

definition Bending_WithCrack_StrengthReduced :: "time_point \<Rightarrow> unit result" where
  "Bending_WithCrack_StrengthReduced now =
     and_then (simulation test_config now 1 0 (bending_crack now (D 2) (D 50)) (bending_material 0 (D 1) (D 70)) False) (\<lambda>r.
       all_of [ASSERT_LT (bt_unrepaired_strength_mpa r) (bt_original_strength_mpa r),
               ASSERT_RANGE (bt_unrepaired_strength_mpa r / bt_original_strength_mpa r) (D (3/10)) (D (8/10))])"

definition Bending_Repaired_HighPermeability_RecoveryAbove80pct :: "time_point \<Rightarrow> unit result" where
  "Bending_Repaired_HighPermeability_RecoveryAbove80pct now =
     and_then (simulation (test_config\<lparr>tc_repair_interface_strength_ratio := D (85/100)\<rparr>) now 1 1
         (bending_crack now (D 2) (D 50)) (bending_material (D 80) (D (5/100)) (D 70)) True) (\<lambda>r.
       all_of [ASSERT_GE (bt_strength_recovery_ratio r) (D (80/100))])"

definition Bending_LoadDisplacement_MonotonicallyIncreasing :: "time_point \<Rightarrow> unit result" where
  "Bending_LoadDisplacement_MonotonicallyIncreasing now =
     and_then (simulation (default_bending_config\<lparr>tc_load_steps := 50, tc_max_displacement_mm := D 2\<rparr>) now 1 1
         (bending_crack now (D 1) (D 50)) (bending_material (D 50) (D 1) (D 70)) True) (\<lambda>r.
       all_of [ASSERT_FALSE (bt_load r = []), ASSERT_FALSE (bt_disp r = []),
               ASSERT_TRUE (monotonic_increasing (bt_load r)), ASSERT_TRUE (monotonic_increasing (bt_disp r))])"

definition Bending_DifferentCrackDepths_DeeperCrackLowerStrength :: "time_point \<Rightarrow> unit result" where
  "Bending_DifferentCrackDepths_DeeperCrackLowerStrength now =
     and_then (simulation test_config now 1 0 (bending_crack now (D 1) (D 50)) (bending_material 0 (D 1) (D 70)) False) (\<lambda>shallow.
     and_then (simulation test_config now 2 0 (bending_crack now (D 3) (D 50)) (bending_material 0 (D 1) (D 70)) False) (\<lambda>deep.
       all_of [ASSERT_LT (bt_unrepaired_strength_mpa deep) (bt_unrepaired_strength_mpa shallow)]))"

definition Bending_MultipleMaterials_BetterMaterialHigherRecovery :: "time_point \<Rightarrow> unit result" where
  "Bending_MultipleMaterials_BetterMaterialHigherRecovery now =
     and_then (simulation test_config now 1 1 (bending_crack now (D 2) (D 50)) (bending_material (D 80) (D (1/10)) (D 70)) True) (\<lambda>a.
     and_then (simulation test_config now 1 2 (bending_crack now (D 2) (D 50)) (bending_material (D 30) (D 1) (D 70)) True) (\<lambda>b.
       all_of [ASSERT_GT (bt_strength_recovery_ratio a) (bt_strength_recovery_ratio b)]))"

definition Bending_MinimalCrack_AlmostFullRecovery :: "time_point \<Rightarrow> unit result" where
  "Bending_MinimalCrack_AlmostFullRecovery now =
     and_then (simulation test_config now 1 1 (bending_crack now (D (1/100)) (D 10)) (bending_material (D 80) (D (1/10)) (D 70)) True) (\<lambda>r.
       all_of [ASSERT_GT (bt_strength_recovery_ratio r) (D (95/100))])"

definition Bending_CrackThroughThickness_VeryLowStrength :: "time_point \<Rightarrow> unit result" where
  "Bending_CrackThroughThickness_VeryLowStrength now =
     and_then (simulation test_config now 1 0 (bending_crack now (D (49/10)) (D 100)) (bending_material 0 (D 1) (D 70)) False) (\<lambda>r.
       all_of [ASSERT_LT (bt_unrepaired_strength_mpa r) (D (1/10) * bt_original_strength_mpa r)])"

text \<open>\<open>back()\<close> of an empty vector is undefined; the first assertion excludes it.\<close>

definition Bending_MaxDisplacementReached_TerminatesGracefully :: "time_point \<Rightarrow> unit result" where
  "Bending_MaxDisplacementReached_TerminatesGracefully now =
     (let config = default_bending_config\<lparr>tc_max_displacement_mm := D (5/10), tc_load_steps := 100\<rparr> in
      and_then (simulation config now 0 0 (bending_crack now 0 0) (bending_material 0 (D 1) (D 70)) False) (\<lambda>r.
        all_of [ASSERT_FALSE (bt_disp r = []), assert_impl (0 < length (bt_disp r)) ''Assertion failed'',
                ASSERT_LE (last (bt_disp r)) (tc_max_displacement_mm config * D (11/10))]))"

definition Bending_ZeroBondingMaterial_NoImprovement :: "time_point \<Rightarrow> unit result" where
  "Bending_ZeroBondingMaterial_NoImprovement now =
     and_then (simulation test_config now 1 0 (bending_crack now (D 2) (D 50)) (bending_material 0 (D 1) (D 70)) False) (\<lambda>u.
     and_then (simulation test_config now 1 1 (bending_crack now (D 2) (D 50)) (bending_material 0 (D 1) (D 70)) True) (\<lambda>r.
       all_of [ASSERT_LT
         (if D (1 / 10 ^ 12) < bt_unrepaired_strength_mpa u then
            \<bar>bt_repaired_strength_mpa r - bt_unrepaired_strength_mpa u\<bar> / bt_unrepaired_strength_mpa u * D 100
          else 0) (D 5)]))"

definition Bending_MomentDistribution_Symmetric :: "unit result" where
  "Bending_MomentDistribution_Symmetric =
     (let config = default_bending_config\<lparr>tc_support_span_mm := D 40, tc_loading_span_mm := D 20, tc_mesh_elements := 100\<rparr>;
          moments = compute_bending_moment_distribution config 100 (D 100); n = int (length moments);
          load_left = (tc_support_span_mm config - tc_loading_span_mm config) / D 2;
          load_right = tc_support_span_mm config - load_left;
          dx = tc_support_span_mm config / of_i (n - 1)
      in and_then (all_of (map (\<lambda>i. ASSERT_NEAR (moments ! i) (moments ! (length moments - 1 - i)) (D 1)) [0..<length moments div 2])) (\<lambda>_.
         and_then (to_int32 (load_left / dx)) (\<lambda>k. let first_load_idx = k + 1 in
         and_then (to_int32 (load_right / dx)) (\<lambda>k. let second_load_idx = (if n \<le> k then n - 1 else k) in
           all_of ([assert_impl (0 \<le> first_load_idx) ''Assertion failed'', assert_impl (second_load_idx < n) ''Assertion failed''] @
             (if first_load_idx < second_load_idx then
                map (\<lambda>i. ASSERT_NEAR (moments ! nat i) (moments ! nat first_load_idx) (D 1)) [first_load_idx..second_load_idx]
              else []))))))"

definition Bending_NegativeCrackDepth_ClampedToZero :: "time_point \<Rightarrow> unit result" where
  "Bending_NegativeCrackDepth_ClampedToZero now =
     and_then (simulation (default_bending_config\<lparr>tc_porcelain_strength_mpa := D 120\<rparr>) now 1 0
         (bending_crack now (D (- 1)) (D 50)) (bending_material 0 (D 1) (D 70)) False) (\<lambda>r.
       all_of [ASSERT_FALSE (isnan (bt_original_strength_mpa r)), ASSERT_FALSE (isinf (bt_original_strength_mpa r)),
               ASSERT_GE (bt_unrepaired_strength_mpa r) 0,
               ASSERT_NEAR (bt_unrepaired_strength_mpa r) (bt_original_strength_mpa r) (D 5)])"

definition Bending_ThicknessZero_HandlesGracefully :: "time_point \<Rightarrow> unit result" where
  "Bending_ThicknessZero_HandlesGracefully now =
     and_then (simulation (default_bending_config\<lparr>tc_specimen_thickness_mm := 0\<rparr>) now 1 0
         (bending_crack now (D 1) (D 50)) (bending_material 0 (D 1) (D 70)) False) (\<lambda>r.
       all_of [ASSERT_FALSE (isnan (bt_original_strength_mpa r)), ASSERT_FALSE (isinf (bt_original_strength_mpa r)),
               ASSERT_FALSE (isnan (bt_unrepaired_strength_mpa r)), ASSERT_FALSE (isinf (bt_unrepaired_strength_mpa r))])"

definition Bending_SpanGreaterThanSpecimen_Warns :: "time_point \<Rightarrow> unit result" where
  "Bending_SpanGreaterThanSpecimen_Warns now =
     and_then (simulation (default_bending_config\<lparr>tc_support_span_mm := D 100, tc_loading_span_mm := D 50\<rparr>) now 1 0
         ((bending_crack now (D 1) (D 50))\<lparr>ci_total_length := D 50\<rparr>) (bending_material 0 (D 1) (D 70)) False) (\<lambda>r.
       all_of [ASSERT_FALSE (isnan (bt_original_strength_mpa r)), ASSERT_FALSE (isinf (bt_original_strength_mpa r)),
               ASSERT_GE (bt_unrepaired_strength_mpa r) 0])"

definition Bending_Acceptance_HighPermeabilityRecoveryAbove80pct :: "time_point \<Rightarrow> unit result" where
  "Bending_Acceptance_HighPermeabilityRecoveryAbove80pct now =
     and_then (simulation (default_bending_config\<lparr>tc_specimen_thickness_mm := D 5, tc_specimen_width_mm := D 10,
           tc_support_span_mm := D 40, tc_loading_span_mm := D 20, tc_porcelain_strength_mpa := D 120,
           tc_porcelain_youngs_modulus_gpa := D 70, tc_repair_interface_strength_ratio := D (93/100)\<rparr>) now 1 1
         (bending_crack now (D 2) (D 50)) (bending_material (D 65) (D (5/100)) (D 70)) True) (\<lambda>r.
       all_of [ASSERT_GE (bt_strength_recovery_ratio r) (D (80/100)),
               ASSERT_GT (bt_repaired_strength_mpa r) (bt_unrepaired_strength_mpa r)])"


subsection \<open>Assertions that hold\<close>

lemma all_of_passes: "all_of rs = Inr () \<longleftrightarrow> list_all (\<lambda>r. r = Inr ()) rs"
  by (induction rs) (auto simp: and_then_eq_Inr_iff)

lemma assertions [simp]:
  "assert_impl b m = Inr () \<longleftrightarrow> b"
  "ASSERT_TRUE b = Inr () \<longleftrightarrow> b" "ASSERT_FALSE b = Inr () \<longleftrightarrow> \<not> b"
  "ASSERT_LT x y = Inr () \<longleftrightarrow> x < y" "ASSERT_GT x y = Inr () \<longleftrightarrow> y < x"
  "ASSERT_LE x y = Inr () \<longleftrightarrow> x \<le> y" "ASSERT_GE x y = Inr () \<longleftrightarrow> y \<le> x"
  "ASSERT_RANGE x l h = Inr () \<longleftrightarrow> \<not> x < l \<and> \<not> h < x"
  by (simp_all add: assert_impl_def ASSERT_TRUE_def ASSERT_FALSE_def ASSERT_LT_def ASSERT_GT_def ASSERT_LE_def
      ASSERT_GE_def ASSERT_RANGE_def assert_range_impl_def)

lemma about_percent:
  assumes "about z q (1 / 10 ^ 5)" and "0 \<le> q" and "q \<le> 10 ^ 6"
  shows "about (z * D 100) (q * 100) (1 / 10 ^ 3 + 1 / 10 ^ 6)"
  by (rule about_times [OF assms(1) about_exact [of 100]]) (use assms(2,3) in simp_all)

lemma near_passes:
  assumes "about x r e" and "about y s f" and "\<bar>r - s\<bar> + e + f \<le> u" and "u \<le> 1000" and "m \<le> \<bar>s\<bar> - f" and "1 / 10 ^ 3 \<le> m"
    and "u / m * 100 + 1 / 10 ^ 2 \<le> t" and "exact t"
  shows "ASSERT_NEAR x y (D t) = Inr ()"
proof -
  obtain a b where x: "x = D a" "exact a" "\<bar>a - r\<bar> \<le> e" and y: "y = D b" "exact b" "\<bar>b - s\<bar> \<le> f"
    using assms(1,2) by (elim aboutE)
  have u: "\<bar>a - b\<bar> \<le> u" and b: "m \<le> \<bar>b\<bar>"
    using x(3) y(3) assms(3,5) by linarith+
  have m: "0 < m" "0 < \<bar>b\<bar>"
    using b assms(6) less_le_trans [of 0 "1 / 10 ^ 3" m] by simp_all
  have q: "\<bar>a - b\<bar> / \<bar>b\<bar> \<le> u / m"
    using u b m by (intro frac_le) auto
  also have "\<dots> \<le> 1000 / (1 / 10 ^ 3)"
    using u assms(4,6) by (intro frac_le) auto
  finally have q6: "\<bar>a - b\<bar> / \<bar>b\<bar> \<le> 10 ^ 6"
    by simp
  have "about (x - y) (a - b) (1 / 10 ^ 9)"
    unfolding x y using x(2) y(2) u assms(4) by (simp, intro about_D) (simp_all add: abs_le_iff)
  then have d: "about \<bar>x - y\<bar> \<bar>a - b\<bar> (1 / 10 ^ 9)"
    by (rule about_abs)
  have n: "about \<bar>y\<bar> \<bar>b\<bar> 0"
    unfolding y(1) by (rule about_abs [OF about_exact [OF y(2)]])
  have "about (\<bar>x - y\<bar> / \<bar>y\<bar>) (\<bar>a - b\<bar> / \<bar>b\<bar>) (1 / 10 ^ 5)"
    by (rule about_quotient [OF d n, where m = "1 / 10 ^ 3" and q = "10 ^ 6" and w = "1 / 10 ^ 6"]) (use q6 b assms(6) in simp_all)
  then have "about (\<bar>x - y\<bar> / \<bar>y\<bar> * D 100) (\<bar>a - b\<bar> / \<bar>b\<bar> * 100) (1 / 10 ^ 3 + 1 / 10 ^ 6)"
    using q6 by (intro about_percent) simp_all
  then have "\<bar>x - y\<bar> / \<bar>y\<bar> * D 100 \<le> D t"
    by (rule about_le [OF _ about_exact [OF assms(8)]]) (use q assms(7) in simp)
  then have "\<not> D t < \<bar>x - y\<bar> / \<bar>y\<bar> * D 100"
    by (rule contrapos_pn) (rule dless_not_sym)
  moreover have "D (1 / 10 ^ 15) < \<bar>y\<bar>"
  proof (rule about_less [OF _ n])
    show "about (D (1 / 10 ^ 15)) (1 / 10 ^ 15) (1 / 10 ^ 10)"
      by (rule about_D) simp_all
    show "1 / 10 ^ 15 + 1 / 10 ^ 10 < \<bar>b\<bar> - 0"
      using b assms(6) less_le_trans [of "1 / 10 ^ 15 + 1 / 10 ^ 10" "1 / 10 ^ 3" "\<bar>b\<bar>"] by simp
  qed
  ultimately show ?thesis
    by (simp add: ASSERT_NEAR_def assert_near_impl_def relative_error_def)
qed

subsection \<open>A simulation and its strengths\<close>

lemma simulation_strengths:
  assumes "0 \<le> tc_mesh_elements c"
  obtains r where "simulation c now cid mid crack material repaired = Inr r"
    and "bt_original_strength_mpa r = tc_porcelain_strength_mpa c"
    and "bt_unrepaired_strength_mpa r = unrepaired_strength_pa (set_bending_config c new_bending_test) crack / D (10 ^ 6)"
    and "bt_repaired_strength_mpa r = (if repaired then repaired_strength_pa (set_bending_config c new_bending_test) crack material
        else unrepaired_strength_pa (set_bending_config c new_bending_test) crack) / D (10 ^ 6)"
    and "bt_strength_recovery_ratio r = (if 0 < tc_porcelain_strength_mpa c
        then bt_repaired_strength_mpa r / tc_porcelain_strength_mpa c else 0)"
proof -
  obtain r t where r: "simulate_bending (set_bending_config c new_bending_test) now 1 cid mid crack material repaired = Inr (r, t)"
    using simulate_bending_returns [of "set_bending_config c new_bending_test"] assms by (force simp: set_bending_config_def)
  then have "bt_original_strength_mpa r = tc_porcelain_strength_mpa c"
    "bt_strength_recovery_ratio r = (if 0 < tc_porcelain_strength_mpa c
        then bt_repaired_strength_mpa r / tc_porcelain_strength_mpa c else 0)"
    by (auto simp: simulate_bending_def and_then_eq_Inr_iff bending_strengths_def Let_def split_beta set_bending_config_def)
  then show thesis
    using r simulated_strengths [OF r] by (intro that) (simp_all add: simulation_def)
qed

subsection \<open>The influence of a crack\<close>

definition influence :: "real \<Rightarrow> real" where
  "influence v = 112 / 100 - 23 / 100 * v + 106 / 10 * v * v - 217 / 10 * v * v * v + 304 / 10 * v * v * v * v"

lemma about_scaled:
  assumes "about x r e" and "about y v 0" and "0 \<le> v" and "v \<le> 1" and "\<bar>r\<bar> \<le> 32" and "e \<le> 1"
  shows "about (x * y) (r * v) (e + 1 / 10 ^ 13)" and "\<bar>r * v\<bar> \<le> 32"
proof -
  have le: "\<bar>r\<bar> * v \<le> 32" "v * e \<le> e" "0 \<le> e"
    using assms mult_mono [of "\<bar>r\<bar>" 32 v 1] mult_left_le_one_le [of e v] about_nonneg [OF assms(1)] by simp_all
  then show "\<bar>r * v\<bar> \<le> 32"
    using assms(3) by (simp add: abs_mult)
  show "about (x * y) (r * v) (e + 1 / 10 ^ 13)"
  proof (rule about_times [OF assms(1,2)])
    show "\<bar>r * v\<bar> + (\<bar>r\<bar> * 0 + \<bar>v\<bar> * e + e * 0) \<le> 10 ^ 100"
      using le assms(3,6) by (simp add: abs_mult)
    have "v * e + (\<bar>r\<bar> * v + v * e + 1) / 10 ^ 15 \<le> e + 1 / 10 ^ 13"
      using le assms(6) by (simp add: field_simps) 
    then show "(\<bar>r\<bar> * 0 + \<bar>v\<bar> * e + e * 0) + (\<bar>r * v\<bar> + (\<bar>r\<bar> * 0 + \<bar>v\<bar> * e + e * 0) + 1) / 10 ^ 15 \<le> e + 1 / 10 ^ 13"
      using assms(3) by (simp add: abs_mult)
  qed
qed

lemma about_term:
  assumes "about (D c) c (1 / 10 ^ 13)" and "\<bar>c\<bar> \<le> 32" and "about y v 0" and "0 \<le> v" and "v \<le> 1"
  shows "about (D c * y) (c * v) (2 / 10 ^ 13)" and "about (D c * y * y) (c * v * v) (3 / 10 ^ 13)"
    and "about (D c * y * y * y) (c * v * v * v) (4 / 10 ^ 13)" and "about (D c * y * y * y * y) (c * v * v * v * v) (5 / 10 ^ 13)"
    and "\<bar>c * v\<bar> \<le> 32" and "\<bar>c * v * v\<bar> \<le> 32" and "\<bar>c * v * v * v\<bar> \<le> 32" and "\<bar>c * v * v * v * v\<bar> \<le> 32"
proof -
  note s = about_scaled [OF _ assms(3-5)]
  show 1: "about (D c * y) (c * v) (2 / 10 ^ 13)"
    using s(1) [OF assms(1,2)] by simp
  show b1: "\<bar>c * v\<bar> \<le> 32"
    by (rule s(2) [OF assms(1,2)]) simp
  show 2: "about (D c * y * y) (c * v * v) (3 / 10 ^ 13)"
    using s(1) [OF 1 b1] by simp
  show b2: "\<bar>c * v * v\<bar> \<le> 32"
    by (rule s(2) [OF 1 b1]) simp
  show 3: "about (D c * y * y * y) (c * v * v * v) (4 / 10 ^ 13)"
    using s(1) [OF 2 b2] by simp
  show b3: "\<bar>c * v * v * v\<bar> \<le> 32"
    by (rule s(2) [OF 2 b2]) simp
  show "about (D c * y * y * y * y) (c * v * v * v * v) (5 / 10 ^ 13)"
    using s(1) [OF 3 b3] by simp
  show "\<bar>c * v * v * v * v\<bar> \<le> 32"
    by (rule s(2) [OF 3 b3]) simp
qed

lemma about_sum:
  "about x r e \<Longrightarrow> about y s f \<Longrightarrow> \<bar>r\<bar> \<le> 10 ^ 3 \<Longrightarrow> \<bar>s\<bar> \<le> 10 ^ 3 \<Longrightarrow> e \<le> 1 \<Longrightarrow> f \<le> 1 \<Longrightarrow> about (x + y) (r + s) (e + f + 1 / 10 ^ 11)"
  using abs_triangle_ineq [of r s] by (intro about_plus) (assumption | simp)+

lemma influence_about:
  assumes "about y v 0" and "0 \<le> v" and "v \<le> 1"
  shows "about (D (112 / 100) + D (- 23 / 100) * y + D (106 / 10) * y * y + D (- 217 / 10) * y * y * y
      + D (304 / 10) * y * y * y * y) (influence v) (1 / 10 ^ 10)"
proof -
  have c: "about (D (112 / 100)) (112 / 100) (1 / 10 ^ 13)" "about (D (- 23 / 100)) (- 23 / 100) (1 / 10 ^ 13)"
      "about (D (106 / 10)) (106 / 10) (1 / 10 ^ 13)" "about (D (- 217 / 10)) (- 217 / 10) (1 / 10 ^ 13)"
      "about (D (304 / 10)) (304 / 10) (1 / 10 ^ 13)"
    by (rule about_D; simp)+
  note t1 = about_term(1,5) [OF c(2) _ assms] and t2 = about_term(2,6) [OF c(3) _ assms]
    and t3 = about_term(3,7) [OF c(4) _ assms] and t4 = about_term(4,8) [OF c(5) _ assms]
  note add = about_weaken [OF about_sum]
  have 1: "about (D (112 / 100) + D (- 23 / 100) * y) (112 / 100 + - 23 / 100 * v) (2 / 10 ^ 11)"
    by (rule add [OF c(1) t1(1)]) (use t1(2) in simp_all)
  have b1: "\<bar>112 / 100 + - 23 / 100 * v\<bar> \<le> 40"
    using t1(2) by (simp add: abs_le_iff)
  have 2: "about (D (112 / 100) + D (- 23 / 100) * y + D (106 / 10) * y * y)
      (112 / 100 + - 23 / 100 * v + 106 / 10 * v * v) (4 / 10 ^ 11)"
    by (rule add [OF 1 t2(1)]) (use b1 t2(2) in simp_all)
  have b2: "\<bar>112 / 100 + - 23 / 100 * v + 106 / 10 * v * v\<bar> \<le> 80"
    using order_trans [OF abs_triangle_ineq add_mono [OF b1 t2(2)]] by linarith
  have 3: "about (D (112 / 100) + D (- 23 / 100) * y + D (106 / 10) * y * y + D (- 217 / 10) * y * y * y)
      (112 / 100 + - 23 / 100 * v + 106 / 10 * v * v + - 217 / 10 * v * v * v) (6 / 10 ^ 11)"
    by (rule add [OF 2 t3(1)]) (use b2 t3(2) in simp_all)
  have b3: "\<bar>112 / 100 + - 23 / 100 * v + 106 / 10 * v * v + - 217 / 10 * v * v * v\<bar> \<le> 120"
    using order_trans [OF abs_triangle_ineq add_mono [OF b2 t3(2)]] by linarith
  show ?thesis
    by (rule add [OF 3 t4(1)]) (use b3 t4(2) in \<open>simp_all add: influence_def\<close>)
qed

lemma unit_product:
  fixes a b v w :: real
  assumes "0 \<le> a" "a \<le> 1" "0 \<le> b" "b \<le> 1" "0 \<le> v" "v \<le> 1" "0 \<le> w" "w \<le> 1"
  shows "\<bar>a * v - b * w\<bar> \<le> \<bar>a - b\<bar> + \<bar>v - w\<bar>"
proof -
  have "\<bar>a * v - b * w\<bar> = \<bar>a * (v - w) + (a - b) * w\<bar>"
    by (simp add: algebra_simps)
  also have "\<dots> \<le> a * \<bar>v - w\<bar> + \<bar>a - b\<bar> * w"
    using abs_triangle_ineq [of "a * (v - w)" "(a - b) * w"] assms(1,7) by (simp add: abs_mult)
  also have "\<dots> \<le> \<bar>v - w\<bar> + \<bar>a - b\<bar>"
    using assms by (intro add_mono mult_left_le_one_le mult_right_le_one_le) simp_all
  finally show ?thesis
    by simp
qed

lemma influence_lipschitz:
  assumes "0 \<le> v" "v \<le> 1" "0 \<le> w" "w \<le> 1"
  shows "\<bar>influence v - influence w\<bar> \<le> 300 * \<bar>v - w\<bar>"
proof -
  have p: "0 \<le> v * v" "v * v \<le> 1" "0 \<le> w * w" "w * w \<le> 1" "0 \<le> v * v * v" "v * v * v \<le> 1" "0 \<le> w * w * w" "w * w * w \<le> 1"
    using assms by (simp_all add: mult_le_one)
  have "\<bar>v * v - w * w\<bar> \<le> 2 * \<bar>v - w\<bar>"
    using unit_product [OF assms(1,2,3,4) assms(1,2,3,4)] by simp
  moreover from this have "\<bar>v * v * v - w * w * w\<bar> \<le> 3 * \<bar>v - w\<bar>"
    using unit_product [OF p(1-4) assms(1,2,3,4)] by simp
  moreover from this have "\<bar>v * v * v * v - w * w * w * w\<bar> \<le> 4 * \<bar>v - w\<bar>"
    using unit_product [OF p(5-8) assms(1,2,3,4)] by simp
  moreover have "influence v - influence w = - 23 / 100 * (v - w) + 106 / 10 * (v * v - w * w)
      - 217 / 10 * (v * v * v - w * w * w) + 304 / 10 * (v * v * v * v - w * w * w * w)"
    by (simp add: influence_def field_simps)
  moreover have "\<bar>- 23 / 100 * d + 106 / 10 * d2 - 217 / 10 * d3 + 304 / 10 * d4\<bar> \<le> 300 * \<bar>d\<bar>"
    if "\<bar>d2\<bar> \<le> 2 * \<bar>d\<bar>" "\<bar>d3\<bar> \<le> 3 * \<bar>d\<bar>" "\<bar>d4\<bar> \<le> 4 * \<bar>d\<bar>" for d d2 d3 d4 :: real
    using that by linarith
  ultimately show ?thesis
    by metis
qed

lemma about_zero: "about 0 0 0"
  using about_exact [OF exact_zero] by simp

lemma influence_factor_about:
  assumes "0 < a" and "0 < h" and "about (a / h) q (1 / 10 ^ 11)" and "0 \<le> q" and "q \<le> 1"
  shows "about (crack_influence_factor new_bending_test a h) (influence (min (9 / 10) q)) (1 / 10 ^ 7)"
proof -
  let ?y = "std_min (D (9 / 10)) (std_max 0 (a / h))" and ?w = "min (9 / 10) q"
  have "about (D (9 / 10)) (9 / 10) (1 / 10 ^ 11)"
    by (rule about_D) simp_all
  from about_std_min [OF this about_std_max [OF about_zero assms(3)]] have y: "about ?y ?w (1 / 10 ^ 11)"
    using assms(4) by simp
  have v: "0 \<le> val ?y" "val ?y \<le> 1" "isfinite ?y"
    using clamped_encl [of "a / h"] by (simp_all add: encl_def)
  have "\<bar>influence (val ?y) - influence ?w\<bar> \<le> 300 * \<bar>val ?y - ?w\<bar>"
    using v assms(4,5) by (intro influence_lipschitz) simp_all
  also have "\<bar>val ?y - ?w\<bar> \<le> 1 / 10 ^ 11"
    using y by (simp add: about_def)
  finally have d: "\<bar>influence (val ?y) - influence ?w\<bar> \<le> 300 * (1 / 10 ^ 11)"
    by simp
  show ?thesis
    unfolding influence_polynomial [OF assms(1,2)]
    by (rule about_weaken [OF influence_about [OF about_val [OF v(3)] v(1,2)]]) (use d in simp)
qed

subsection \<open>The strength without repair\<close>

lemma influence_of_config [simp]:
  "crack_influence_factor (set_bending_config c t) a h = crack_influence_factor t a h" "bd_config (set_bending_config c t) = c"
  by (simp_all add: crack_influence_factor_def set_bending_config_def)

lemma thickness_about: "about (millimetres (D 5)) (1 / 200) (1 / 10 ^ 14)"
proof -
  have "about (D 5 * D (1 / 10 ^ 3)) (5 * (1 / 10 ^ 3)) (1 / 10 ^ 14)"
    by (rule about_times [OF about_exact about_D [of _ "11 / 10 ^ 16"]]) simp_all
  then show ?thesis
    by (simp add: millimetres_def)
qed

lemma quotient_about:
  assumes "about x s (1 / 25000)" and "1 \<le> s" and "s \<le> 20"
  shows "about (D 120000000 / x / D (10 ^ 6)) (120 / s) (1 / 100)"
proof -
  have b: "\<bar>120000000 / s\<bar> \<le> 120000000"
    using assms(2) by (simp add: divide_le_eq)
  have "about (D 120000000 / x) (120000000 / s) 5401"
    by (rule about_quotient [OF about_exact assms(1), where m = "9 / 10" and q = 120000000 and w = 5400]) (use b assms(2) in simp_all)
  then have "about (D 120000000 / x / D (10 ^ 6)) (120000000 / s / 10 ^ 6) (1 / 100)"
    by (rule about_quotient [OF _ about_exact, where m = "10 ^ 6" and q = 120 and w = "1 / 150"]) (use b in simp_all)
  then show ?thesis
    by simp
qed


lemma ratio_about:
  assumes "about x a (1 / 10 ^ 14)" and "0 \<le> a" and "a \<le> 1 / 200" and "about y (1 / 200) (1 / 10 ^ 14)"
  shows "about (x / y) (a * 200) (1 / 10 ^ 11)"
proof -
  have "about (x / y) (a / (1 / 200)) (1 / 10 ^ 11)"
    by (rule about_quotient [OF assms(1,4), where m = "1 / 300" and q = 1 and w = "6 / 10 ^ 12"]) (use assms(2,3) in simp_all)
  then show ?thesis
    by simp
qed

lemma floor_thickness_about: "about (std_max (millimetres (D 5)) (D (1 / 10 ^ 9))) (1 / 200) (1 / 10 ^ 14)"
  using about_std_max [OF thickness_about about_D [of "1 / 10 ^ 9" "1 / 10 ^ 14"]] by (simp add: max_def)

lemma unrepaired_about:
  assumes "tc_specimen_thickness_mm cfg = D 5" and "tc_porcelain_strength_mpa cfg = D 120"
    and "about (crack_depth_m crack) a (1 / 10 ^ 14)" and "1 / 10 ^ 13 \<le> a" and "a \<le> 1 / 200"
    and "1 / 10 ^ 5 \<le> c" and "c \<le> 1" and "\<bar>a * 200 - c * c\<bar> + 1 / 10 ^ 10 \<le> c / 10 ^ 6"
    and "influence (min (9 / 10) (a * 200)) = p" and "1 \<le> p" and "p \<le> 14"
  shows "about (unrepaired_strength_pa (set_bending_config cfg new_bending_test) crack / D (10 ^ 6)) (120 / (1 + p * c)) (1 / 100)"
proof -
  let ?A = "crack_depth_m crack" and ?H = "millimetres (D 5)"
  have A: "0 < ?A" and H: "0 < ?H"
    using assms(4) by (auto intro: about_less [OF about_zero assms(3)] about_less [OF about_zero thickness_about])
  have F: "about (crack_influence_factor new_bending_test ?A ?H) p (1 / 10 ^ 7)"
    using influence_factor_about [OF A H ratio_about [OF assms(3) _ assms(5) thickness_about]] assms(4,5,9) by simp
  have "about (?A / std_max ?H (D (1 / 10 ^ 9))) (a * 200) (1 / 10 ^ 11)"
    using assms(4) by (intro ratio_about [OF assms(3) _ assms(5) floor_thickness_about]) simp
  from about_std_max [OF about_std_min [OF about_exact [OF exact_one] this] about_zero]
  have "about (std_max (std_min (D 1) (?A / std_max ?H (D (1 / 10 ^ 9)))) 0) (a * 200) (1 / 10 ^ 11)"
    using assms(4,5) by (simp add: min_def max_def)
  then have S: "about (dsqrt (std_max (std_min (D 1) (?A / std_max ?H (D (1 / 10 ^ 9)))) 0)) c (2 / 10 ^ 6)"
    by (rule about_dsqrt [where d = "1 / 10 ^ 6"]) (use assms(4,6,7,8) in \<open>simp_all add: field_simps\<close>)
  have pc: "0 \<le> p * c" "p * c \<le> 14"
    using assms(6,7,10,11) mult_mono [of p 14 c 1] by simp_all
  have "about (crack_influence_factor new_bending_test ?A ?H * dsqrt (std_max (std_min (D 1) (?A / std_max ?H (D (1 / 10 ^ 9)))) 0))
      (p * c) (3 / 10 ^ 5)"
    by (rule about_product [OF F S, where R = 14 and S = 1 and w = "29 / 10 ^ 6"]) (use assms(6,7,10,11) in simp_all)
  from about_add [OF about_exact [OF exact_one] this, of 15 "1 / 25000"]
  have "about (D 1 + crack_influence_factor new_bending_test ?A ?H * dsqrt (std_max (std_min (D 1) (?A / std_max ?H (D (1 / 10 ^ 9)))) 0))
      (1 + p * c) (1 / 25000)"
    using pc by simp
  from about_std_max [OF this about_exact [OF exact_one]]
  have "about (std_max (D 1 + crack_influence_factor new_bending_test ?A ?H * dsqrt (std_max (std_min (D 1) (?A / std_max ?H (D (1 / 10 ^ 9)))) 0)) (D 1))
      (1 + p * c) (1 / 25000)"
    using pc by simp
  from quotient_about [OF this] show ?thesis
    using pc assms(1,2) by (simp add: unrepaired_strength_pa_def Let_def megapascals_def)
qed

subsection \<open>The strength with repair\<close>

lemma repaired_about:
  assumes "tc_specimen_thickness_mm cfg = D 5" and "tc_porcelain_strength_mpa cfg = D 120"
    and "tc_repair_interface_strength_ratio cfg = D i" and "0 \<le> i" and "i \<le> 1"
    and "bonding_of material = D b" and "exact b" and "1 < b" and "b \<le> 100"
    and "about (crack_depth_m crack) a (1 / 10 ^ 14)" and "1 / 10 ^ 13 \<le> a" and "a \<le> 1 / 200"
    and "about (unrepaired_strength_pa (set_bending_config cfg new_bending_test) crack / D (10 ^ 6)) u (1 / 100)"
  shows "about (repaired_strength_pa (set_bending_config cfg new_bending_test) crack material / D (10 ^ 6))
      (max (120 * (1 - a * 200) + b * (a * 200) * i) u) (1 / 20)"
proof -
  let ?t = "set_bending_config cfg new_bending_test" and ?q = "a * 200"
  let ?R = "std_min (D 1) (crack_depth_m crack / millimetres (D 5))"
  have q: "0 \<le> ?q" "?q \<le> 1"
    using assms(11,12) by simp_all
  have bq: "0 \<le> b * 10 ^ 6 * ?q" "b * 10 ^ 6 * ?q \<le> 10 ^ 8" "0 \<le> b * 10 ^ 6 * ?q * i" "b * 10 ^ 6 * ?q * i \<le> 10 ^ 8"
    using q assms(4,5,8,9) mult_mono [of "b * 10 ^ 6" "10 ^ 8" ?q 1] mult_mono [of "b * 10 ^ 6 * ?q" "10 ^ 8" i 1] by simp_all
  have "\<bar>120000000 * (1 - ?q)\<bar> \<le> 120000000" "\<bar>b * 10 ^ 6 * ?q * i\<bar> \<le> 10 ^ 8"
    using q bq(3,4) by (simp_all add: abs_mult)
  note xs = order_trans [OF abs_triangle_ineq add_mono [OF this]]
  have xb: "\<bar>120000000 * (1 - ?q) + b * 10 ^ 6 * ?q * i\<bar> \<le> 3 * 10 ^ 8"
    by (rule order_trans [OF xs]) simp
  define X where "X = D 120000000 * (D 1 - ?R) + megapascals (D b) * ?R * D i"
  define U where "U = unrepaired_strength_pa ?t crack"
  have "about (crack_depth_m crack / millimetres (D 5)) ?q (1 / 10 ^ 11)"
    using assms(11) by (intro ratio_about [OF assms(10) _ assms(12) thickness_about]) simp
  from about_std_min [OF about_exact [OF exact_one] this] have R: "about ?R ?q (1 / 10 ^ 11)"
    using assms(12) by (simp add: min_def)
  have s: "about (D 120000000) 120000000 0"
    by (rule about_exact) simp
  have "about (D 1 - ?R) (1 - ?q) (2 / 10 ^ 11)"
    by (rule about_subtract [OF about_exact [OF exact_one] R, of 1]) (use assms(11,12) in simp_all)
  then have "about (D 120000000 * (D 1 - ?R)) (120000000 * (1 - ?q)) (1 / 100)"
    by (rule about_product [OF s, where R = 120000000 and S = 1 and w = "1 / 200"]) (use assms(11,12) in simp_all)
  moreover have "about (megapascals (D b)) (b * 10 ^ 6) (1 / 10 ^ 6)"
    unfolding megapascals_def by (rule about_product [OF about_exact about_exact, where R = 100 and S = "10 ^ 6" and w = 0]) (use assms(7-9) in simp_all)
  then have "about (megapascals (D b) * ?R) (b * 10 ^ 6 * ?q) (2 / 10 ^ 3)"
    by (rule about_product [OF _ R, where R = "10 ^ 8" and S = 1 and w = "11 / 10 ^ 4"]) (use assms(8,9,11,12) in simp_all)
  then have "about (megapascals (D b) * ?R * D i) (b * 10 ^ 6 * ?q * i) (3 / 10 ^ 3)"
    by (rule about_product [OF _ about_D [of i "2 / 10 ^ 15"], where R = "10 ^ 8" and S = 1 and w = "21 / 10 ^ 4"])
      (use assms(4,5,8,9,11,12) bq in simp_all)
  ultimately have "about X (120000000 * (1 - ?q) + b * 10 ^ 6 * ?q * i) (2 / 100)"
    unfolding X_def by (rule about_add [where q = "3 * 10 ^ 8"]) (use xb in simp_all)
  then have "about (X / D (10 ^ 6)) ((120000000 * (1 - ?q) + b * 10 ^ 6 * ?q * i) / 10 ^ 6) (1 / 100)"
    by (rule about_quotient [OF _ about_exact, where m = "10 ^ 6" and q = 300 and w = "1 / 10 ^ 7"]) (use xb in simp_all)
  then have "about (X / D (10 ^ 6)) (120 * (1 - ?q) + b * ?q * i) (1 / 100)"
    by (simp add: add_divide_distrib diff_divide_distrib mult_ac)
  then obtain x where x: "x = 120 * (1 - ?q) + b * ?q * i" "about (X / D (10 ^ 6)) x (1 / 100)"
    by blast
  have "repaired_strength_pa ?t crack material = std_max X U"
    using assms(1-3,6-8) by (simp add: repaired_strength_pa_def Let_def megapascals_def X_def U_def del: D_one)
  then have rep: "repaired_strength_pa ?t crack material / D (10 ^ 6) = (if X < U then U / D (10 ^ 6) else X / D (10 ^ 6))"
    by (simp add: std_max_def)
  have u: "about (U / D (10 ^ 6)) u (1 / 100)"
    using assms(13) by (simp add: U_def)
  show ?thesis
  proof (cases "X < U")
    case True
    then have "\<not> U / D (10 ^ 6) < X / D (10 ^ 6)"
      using dless_asym by (intro ddivide_not_less) simp_all
    then have "x \<le> u + 1 / 50"
      using about_less [OF u x(2)] by (force simp: not_le)
    then have "about (U / D (10 ^ 6)) (max x u) (1 / 20)"
      by (intro about_weaken [OF u]) (simp add: max_def)
    then show ?thesis
      using True rep x(1) by simp
  next
    case False
    then have "\<not> X / D (10 ^ 6) < U / D (10 ^ 6)"
      by (intro ddivide_not_less) simp_all
    then have "u \<le> x + 1 / 50"
      using about_less [OF x(2) u] by (force simp: not_le)
    then have "about (X / D (10 ^ 6)) (max x u) (1 / 20)"
      by (intro about_weaken [OF x(2)]) (simp add: max_def)
    then show ?thesis
      using False rep x(1) by simp
  qed
qed

subsection \<open>The tests pass\<close>

lemma default_geometry [simp]:
  "tc_specimen_thickness_mm default_bending_config = D 5" "tc_porcelain_strength_mpa default_bending_config = D 120"
  "tc_mesh_elements default_bending_config = 100" "tc_repair_interface_strength_ratio default_bending_config = D (93 / 100)"
  "test_config = default_bending_config"
  by (simp_all add: test_config_def default_bending_config_def)

lemma bending_crack_depth [simp]: "ci_max_depth (bending_crack now d w) = d"
  by (simp add: bending_crack_def Let_def)

lemma bonding_of_bending_material [simp]: "bonding_of (bending_material b v y) = b"
  by (simp add: bonding_of_def bending_material_def json_contains_def json_at_def json_get_num_def)

text \<open>Depths of some millimetres, and the depth that stands for none.\<close>

lemma depth_about:
  assumes "about (D d) d (6 / 10 ^ 15)" and "1 / 200 \<le> d" and "d \<le> 5"
  shows "about (crack_depth_m (bending_crack now (D d) w)) (d / 1000) (1 / 10 ^ 14)"
proof -
  have "0 < D d"
    by (rule about_less [OF about_zero assms(1)]) (use assms(2) in simp)
  moreover have "about (millimetres (D d)) (d * (1 / 10 ^ 3)) (1 / 10 ^ 14)"
    unfolding millimetres_def
    by (rule about_product [OF assms(1) about_D [of _ "11 / 10 ^ 16"], where R = 5 and S = "1 / 10 ^ 3" and w = "6 / 10 ^ 15"])
      (use assms(2,3) in simp_all)
  ultimately show ?thesis
    by (simp add: crack_depth_m_def)
qed

lemma no_depth_about: "\<not> 0 < d \<Longrightarrow> about (crack_depth_m (bending_crack now d w)) (1 / 10 ^ 9) (1 / 10 ^ 14)"
  by (simp add: crack_depth_m_def) (rule about_D, simp_all)

text \<open>Strengths of the cracks in the tests, from the root of their depth in specimen thicknesses and
  the influence of that depth.\<close>

lemma strengths_of_depths:
  assumes "tc_specimen_thickness_mm cfg = D 5" and "tc_porcelain_strength_mpa cfg = D 120"
  shows "about (unrepaired_strength_pa (set_bending_config cfg new_bending_test) (bending_crack now (D 1) w) / D (10 ^ 6))
      (120 / (1 + 17163 / 12500 * (447213595 / 10 ^ 9))) (1 / 100)"
    and "about (unrepaired_strength_pa (set_bending_config cfg new_bending_test) (bending_crack now (D 2) w) / D (10 ^ 6))
      (120 / (1 + 13209 / 6250 * (632455532 / 10 ^ 9))) (1 / 100)"
    and "about (unrepaired_strength_pa (set_bending_config cfg new_bending_test) (bending_crack now (D 3) w) / D (10 ^ 6))
      (120 / (1 + 50633 / 12500 * (774596669 / 10 ^ 9))) (1 / 100)"
    and "about (unrepaired_strength_pa (set_bending_config cfg new_bending_test) (bending_crack now (D (49 / 10)) w) / D (10 ^ 6))
      (120 / (1 + 681257 / 50000 * (989949494 / 10 ^ 9))) (1 / 100)"
    and "about (unrepaired_strength_pa (set_bending_config cfg new_bending_test) (bending_crack now (D (1 / 100)) w) / D (10 ^ 6))
      (120 / (1 + 174934722951 / 156250000000 * (44721360 / 10 ^ 9))) (1 / 100)"
  by (rule unrepaired_about [OF assms depth_about]; (rule about_D)?; simp add: influence_def)+

lemma strength_without_depth:
  assumes "tc_specimen_thickness_mm cfg = D 5" and "tc_porcelain_strength_mpa cfg = D 120" and "\<not> 0 < d"
  shows "about (unrepaired_strength_pa (set_bending_config cfg new_bending_test) (bending_crack now d w) / D (10 ^ 6))
      (120 / (1 + 437499982031415624932187519 / 390625000000000000000000000 * (4472136 / 10 ^ 10))) (1 / 100)"
  by (rule unrepaired_about [OF assms(1,2) no_depth_about [OF assms(3)]]) (simp_all add: influence_def)


lemma passes_simulation:
  assumes "0 \<le> tc_mesh_elements c"
    and "\<And>r. bt_original_strength_mpa r = tc_porcelain_strength_mpa c \<Longrightarrow>
      bt_unrepaired_strength_mpa r = unrepaired_strength_pa (set_bending_config c new_bending_test) crack / D (10 ^ 6) \<Longrightarrow>
      bt_repaired_strength_mpa r = (if repaired then repaired_strength_pa (set_bending_config c new_bending_test) crack material
        else unrepaired_strength_pa (set_bending_config c new_bending_test) crack) / D (10 ^ 6) \<Longrightarrow>
      bt_strength_recovery_ratio r = (if 0 < tc_porcelain_strength_mpa c
        then bt_repaired_strength_mpa r / tc_porcelain_strength_mpa c else 0) \<Longrightarrow> f r = Inr ()"
  shows "and_then (simulation c now cid mid crack material repaired) f = Inr ()"
proof -
  obtain r where "simulation c now cid mid crack material repaired = Inr r" "f r = Inr ()"
    by (rule simulation_strengths [OF assms(1), of now cid mid crack material repaired]) (use assms(2) in blast)
  then show ?thesis
    by simp
qed

lemma no_crack_test: "Bending_NoCrack_StrengthMatchesMaterial now = Inr ()"
  unfolding Bending_NoCrack_StrengthMatchesMaterial_def
proof (rule passes_simulation)
  have "ASSERT_NEAR (D 120) (D 120) (D 1) = Inr ()"
    by (rule near_passes [OF about_exact about_exact, where u = 0 and m = 100]) simp_all
  then show "all_of [ASSERT_RANGE (bt_original_strength_mpa r) (D 80) (D 150),
      ASSERT_NEAR (bt_original_strength_mpa r) (D 120) (D 1)] = Inr ()"
    if "bt_original_strength_mpa r = tc_porcelain_strength_mpa (default_bending_config\<lparr>tc_porcelain_strength_mpa := D 120\<rparr>)" for r
    by (simp add: that all_of_passes del: all_of.simps)
qed simp

lemma with_crack_test: "Bending_WithCrack_StrengthReduced now = Inr ()"
  unfolding Bending_WithCrack_StrengthReduced_def
proof (rule passes_simulation)
  fix r
  assume o: "bt_original_strength_mpa r = tc_porcelain_strength_mpa test_config"
    and u: "bt_unrepaired_strength_mpa r =
      unrepaired_strength_pa (set_bending_config test_config new_bending_test) (bending_crack now (D 2) (D 50)) / D (10 ^ 6)"
  note a = strengths_of_depths(2) [of default_bending_config now "D 50"]
  have "about (bt_unrepaired_strength_mpa r) (120 / (1 + 13209 / 6250 * (632455532 / 10 ^ 9))) (1 / 100)"
    using a by (simp add: u)
  then have "about (bt_unrepaired_strength_mpa r / D 120) (120 / (1 + 13209 / 6250 * (632455532 / 10 ^ 9)) / 120) (1 / 1000)"
    by (rule about_quotient [OF _ about_exact, where m = 120 and q = 1 and w = "1 / 2000"]) simp_all
  note b = about_less [OF about_D this, of "3 / 10" "1 / 100"] about_less [OF this about_D, of "8 / 10" "1 / 100"]
    about_less [OF a about_exact [of 120]]
  show "all_of [ASSERT_LT (bt_unrepaired_strength_mpa r) (bt_original_strength_mpa r),
      ASSERT_RANGE (bt_unrepaired_strength_mpa r / bt_original_strength_mpa r) (D (3/10)) (D (8/10))] = Inr ()"
    using b by (simp add: o u dless_asym all_of_passes del: all_of.simps)
qed simp


lemma recovery_about:
  assumes "tc_specimen_thickness_mm cfg = D 5" and "tc_porcelain_strength_mpa cfg = D 120"
    and "tc_repair_interface_strength_ratio cfg = D i" and "0 \<le> i" and "i \<le> 1" and "exact b" and "1 < b" and "b \<le> 100"
    and "about (D d) d (6 / 10 ^ 15)" and "1 / 200 \<le> d" and "d \<le> 5"
    and "about (unrepaired_strength_pa (set_bending_config cfg new_bending_test) (bending_crack now (D d) w) / D (10 ^ 6)) u (1 / 100)"
    and "max (120 * (1 - d / 1000 * 200) + b * (d / 1000 * 200) * i) u = m" and "0 \<le> m" and "m \<le> 120"
  shows "about (repaired_strength_pa (set_bending_config cfg new_bending_test) (bending_crack now (D d) w) (bending_material (D b) v y)
      / D (10 ^ 6) / D 120) (m / 120) (1 / 2000)"
proof -
  have "about (repaired_strength_pa (set_bending_config cfg new_bending_test) (bending_crack now (D d) w) (bending_material (D b) v y)
      / D (10 ^ 6)) m (1 / 20)"
    unfolding assms(13) [symmetric]
    by (rule repaired_about [OF assms(1-5) _ assms(6-8) depth_about [OF assms(9-11)]]) (use assms(10-12) in simp_all)
  then show ?thesis
    by (rule about_quotient [OF _ about_exact, where m = 120 and q = 1 and w = "1 / 2400"]) (use assms(14,15) in simp_all)
qed

lemma repaired_test: "Bending_Repaired_HighPermeability_RecoveryAbove80pct now = Inr ()"
  unfolding Bending_Repaired_HighPermeability_RecoveryAbove80pct_def
proof (rule passes_simulation)
  let ?c = "test_config\<lparr>tc_repair_interface_strength_ratio := D (85/100)\<rparr>"
  note u = strengths_of_depths(2) [of ?c now "D 50"]
  have "about (repaired_strength_pa (set_bending_config ?c new_bending_test) (bending_crack now (D 2) (D 50))
      (bending_material (D 80) (D (5/100)) (D 70)) / D (10 ^ 6) / D 120) (992 / 10 / 120) (1 / 2000)"
    by (rule recovery_about [OF _ _ _ _ _ _ _ _ _ _ _ u, of "85 / 100"]) (simp_all add: about_D)
  from about_le [OF about_D this, of "80 / 100" "1 / 1000"]
  show "all_of [ASSERT_GE (bt_strength_recovery_ratio r) (D (80/100))] = Inr ()"
    if "bt_repaired_strength_mpa r = (if True then repaired_strength_pa (set_bending_config ?c new_bending_test)
        (bending_crack now (D 2) (D 50)) (bending_material (D 80) (D (5/100)) (D 70)) else x) / D (10 ^ 6)"
      and "bt_strength_recovery_ratio r = (if 0 < tc_porcelain_strength_mpa ?c
        then bt_repaired_strength_mpa r / tc_porcelain_strength_mpa ?c else 0)" for r x
    using that by (simp add: all_of_passes del: all_of.simps)
qed simp

lemma depths_test: "Bending_DifferentCrackDepths_DeeperCrackLowerStrength now = Inr ()"
  unfolding Bending_DifferentCrackDepths_DeeperCrackLowerStrength_def
proof (intro passes_simulation)
  from about_less [OF strengths_of_depths(3) strengths_of_depths(1), of test_config test_config now "D 50" now "D 50"]
  show "all_of [ASSERT_LT (bt_unrepaired_strength_mpa deep) (bt_unrepaired_strength_mpa shallow)] = Inr ()"
    if "bt_unrepaired_strength_mpa shallow =
          unrepaired_strength_pa (set_bending_config test_config new_bending_test) (bending_crack now (D 1) (D 50)) / D (10 ^ 6)"
      and "bt_unrepaired_strength_mpa deep =
          unrepaired_strength_pa (set_bending_config test_config new_bending_test) (bending_crack now (D 3) (D 50)) / D (10 ^ 6)"
    for shallow deep
    using that by (simp add: all_of_passes del: all_of.simps)
qed simp_all

lemma materials_test: "Bending_MultipleMaterials_BetterMaterialHigherRecovery now = Inr ()"
  unfolding Bending_MultipleMaterials_BetterMaterialHigherRecovery_def
proof (intro passes_simulation)
  let ?rep = "\<lambda>b v. repaired_strength_pa (set_bending_config test_config new_bending_test) (bending_crack now (D 2) (D 50))
      (bending_material (D b) (D v) (D 70)) / D (10 ^ 6)"
  note u = strengths_of_depths(2) [of test_config now "D 50"]
  have "about (?rep 80 (1/10) / D 120) (10176 / 100 / 120) (1 / 2000)" "about (?rep 30 1 / D 120) (8316 / 100 / 120) (1 / 2000)"
    by (rule recovery_about [OF _ _ _ _ _ _ _ _ _ _ _ u, of "93 / 100"]; simp add: about_D)+
  from about_less [OF this(2,1)]
  show "all_of [ASSERT_GT (bt_strength_recovery_ratio a) (bt_strength_recovery_ratio b)] = Inr ()"
    if "bt_repaired_strength_mpa a = (if True then repaired_strength_pa (set_bending_config test_config new_bending_test)
        (bending_crack now (D 2) (D 50)) (bending_material (D 80) (D (1/10)) (D 70)) else x) / D (10 ^ 6)"
      and "bt_repaired_strength_mpa b = (if True then repaired_strength_pa (set_bending_config test_config new_bending_test)
        (bending_crack now (D 2) (D 50)) (bending_material (D 30) (D 1) (D 70)) else y) / D (10 ^ 6)"
      and "bt_strength_recovery_ratio a = (if 0 < tc_porcelain_strength_mpa test_config
        then bt_repaired_strength_mpa a / tc_porcelain_strength_mpa test_config else 0)"
      and "bt_strength_recovery_ratio b = (if 0 < tc_porcelain_strength_mpa test_config
        then bt_repaired_strength_mpa b / tc_porcelain_strength_mpa test_config else 0)" for a b x y
    using that by (simp add: all_of_passes del: all_of.simps)
qed simp_all


lemma minimal_crack_test: "Bending_MinimalCrack_AlmostFullRecovery now = Inr ()"
  unfolding Bending_MinimalCrack_AlmostFullRecovery_def
proof (rule passes_simulation)
  note u = strengths_of_depths(5) [of test_config now "D 10"]
  have "about (repaired_strength_pa (set_bending_config test_config new_bending_test) (bending_crack now (D (1/100)) (D 10))
      (bending_material (D 80) (D (1/10)) (D 70)) / D (10 ^ 6) / D 120) (1199088 / 10000 / 120) (1 / 2000)"
    by (rule recovery_about [OF _ _ _ _ _ _ _ _ _ _ _ u, of "93 / 100"]) (simp_all add: about_D)
  from about_less [OF about_D this, of "95 / 100" "1 / 1000"]
  show "all_of [ASSERT_GT (bt_strength_recovery_ratio r) (D (95/100))] = Inr ()"
    if "bt_repaired_strength_mpa r = (if True then repaired_strength_pa (set_bending_config test_config new_bending_test)
        (bending_crack now (D (1/100)) (D 10)) (bending_material (D 80) (D (1/10)) (D 70)) else x) / D (10 ^ 6)"
      and "bt_strength_recovery_ratio r = (if 0 < tc_porcelain_strength_mpa test_config
        then bt_repaired_strength_mpa r / tc_porcelain_strength_mpa test_config else 0)" for r x
    using that by (simp add: all_of_passes del: all_of.simps)
qed simp

lemma through_crack_test: "Bending_CrackThroughThickness_VeryLowStrength now = Inr ()"
  unfolding Bending_CrackThroughThickness_VeryLowStrength_def
proof (rule passes_simulation)
  have "about (D (1/10) * D 120) (1 / 10 * 120) (1 / 10 ^ 6)"
    by (rule about_product [OF about_D [of "1 / 10" "1 / 10 ^ 10"] about_exact, where R = 1 and S = 120 and w = "12 / 10 ^ 9"]) simp_all
  from about_less [OF strengths_of_depths(4) this, of test_config now "D 100"]
  show "all_of [ASSERT_LT (bt_unrepaired_strength_mpa r) (D (1/10) * bt_original_strength_mpa r)] = Inr ()"
    if "bt_original_strength_mpa r = tc_porcelain_strength_mpa test_config"
      and "bt_unrepaired_strength_mpa r = unrepaired_strength_pa (set_bending_config test_config new_bending_test)
        (bending_crack now (D (49/10)) (D 100)) / D (10 ^ 6)" for r
    using that by (simp add: all_of_passes del: all_of.simps)
qed simp

lemma zero_bonding_test: "Bending_ZeroBondingMaterial_NoImprovement now = Inr ()"
  unfolding Bending_ZeroBondingMaterial_NoImprovement_def
proof (intro passes_simulation)
  define x where "x = unrepaired_strength_pa (set_bending_config test_config new_bending_test) (bending_crack now (D 2) (D 50)) / D (10 ^ 6)"
  have "about x (120 / (1 + 13209 / 6250 * (632455532 / 10 ^ 9))) (1 / 100)"
    unfolding x_def by (rule strengths_of_depths) simp_all
  then have "0 < x" "isfinite x"
    by (auto intro: about_less [OF about_zero] about_finite)
  then obtain a where a: "x = D a" "exact a" "0 < a"
    by (rule finite_posE)
  have same: "repaired_strength_pa (set_bending_config test_config new_bending_test) (bending_crack now (D 2) (D 50)) (bending_material 0 (D 1) (D 70))
      = unrepaired_strength_pa (set_bending_config test_config new_bending_test) (bending_crack now (D 2) (D 50))"
    by (simp add: repaired_strength_pa_def)
  show "all_of [ASSERT_LT
       (if D (1 / 10 ^ 12) < bt_unrepaired_strength_mpa u then
          \<bar>bt_repaired_strength_mpa r - bt_unrepaired_strength_mpa u\<bar> / bt_unrepaired_strength_mpa u * D 100 else 0) (D 5)] = Inr ()"
    if "bt_unrepaired_strength_mpa u =
        unrepaired_strength_pa (set_bending_config test_config new_bending_test) (bending_crack now (D 2) (D 50)) / D (10 ^ 6)"
      and "bt_repaired_strength_mpa r = (if True then repaired_strength_pa (set_bending_config test_config new_bending_test)
        (bending_crack now (D 2) (D 50)) (bending_material 0 (D 1) (D 70)) else y) / D (10 ^ 6)" for u r y
    unfolding that if_True same x_def [symmetric] using a D_divide [of 0 a] by (simp add: all_of_passes del: all_of.simps)
qed simp_all

lemma negative_depth_test: "Bending_NegativeCrackDepth_ClampedToZero now = Inr ()"
  unfolding Bending_NegativeCrackDepth_ClampedToZero_def
proof (rule passes_simulation)
  let ?c = "default_bending_config\<lparr>tc_porcelain_strength_mpa := D 120\<rparr>"
  have u: "about (unrepaired_strength_pa (set_bending_config ?c new_bending_test) (bending_crack now (D (- 1)) (D 50)) / D (10 ^ 6))
      (120 / (1 + 437499982031415624932187519 / 390625000000000000000000000 * (4472136 / 10 ^ 10))) (1 / 100)"
    by (rule strength_without_depth) simp_all
  from near_passes [OF u about_exact [of 120], where u = "1 / 10" and m = 120 and t = 5] about_le [OF about_zero u]
  show "all_of [ASSERT_FALSE (isnan (bt_original_strength_mpa r)), ASSERT_FALSE (isinf (bt_original_strength_mpa r)),
               ASSERT_GE (bt_unrepaired_strength_mpa r) 0,
               ASSERT_NEAR (bt_unrepaired_strength_mpa r) (bt_original_strength_mpa r) (D 5)] = Inr ()"
    if "bt_original_strength_mpa r = tc_porcelain_strength_mpa ?c"
      and "bt_unrepaired_strength_mpa r =
        unrepaired_strength_pa (set_bending_config ?c new_bending_test) (bending_crack now (D (- 1)) (D 50)) / D (10 ^ 6)" for r
    using that by (simp add: isinf_def all_of_passes del: all_of.simps)
qed simp

lemma thickness_zero_test: "Bending_ThicknessZero_HandlesGracefully now = Inr ()"
  unfolding Bending_ThicknessZero_HandlesGracefully_def
proof (rule passes_simulation)
  let ?c = "default_bending_config\<lparr>tc_specimen_thickness_mm := 0\<rparr>"
  define y where "y = crack_depth_m (bending_crack now (D 1) (D 50)) / std_max (millimetres 0) (D (1 / 10 ^ 9))"
  have "encl (std_max (std_min (D 1) y) 0) 0 (1 * 1)"
    by (cases y) (auto simp: std_max_def std_min_def encl_def simp del: D_one)
  then have "encl (dsqrt (std_max (std_min (D 1) y) 0)) 0 1"
    by (rule encl_dsqrt) simp_all
  then have "encl (D 1 + dsqrt (std_max (std_min (D 1) y) 0)) 1 2"
    by (rule encl_plus [OF encl_exact [OF exact_one]]) simp_all
  then have "encl (std_max (D 1 + dsqrt (std_max (std_min (D 1) y) 0)) (D 1)) 1 2"
    by (rule encl_std_max [OF _ encl_exact [OF exact_one]]) simp_all
  then have "encl (D 120000000 / std_max (D 1 + dsqrt (std_max (std_min (D 1) y) 0)) (D 1)) 60000000 120000000"
    by (rule encl_divide [OF encl_exact [of 120000000], rotated]) simp_all
  then have "encl (D 120000000 / std_max (D 1 + dsqrt (std_max (std_min (D 1) y) 0)) (D 1) / D (10 ^ 6)) 60 120"
    by (rule encl_divide [OF _ encl_exact [of "10 ^ 6"]]) simp_all
  moreover have "crack_influence_factor new_bending_test a (millimetres 0) = D 1" for a
    by (simp add: crack_influence_factor_def millimetres_def)
  ultimately have "isfinite (unrepaired_strength_pa (set_bending_config ?c new_bending_test) (bending_crack now (D 1) (D 50)) / D (10 ^ 6))"
    using encl_finite by (simp add: unrepaired_strength_pa_def Let_def megapascals_def y_def)
  then show "all_of [ASSERT_FALSE (isnan (bt_original_strength_mpa r)), ASSERT_FALSE (isinf (bt_original_strength_mpa r)),
               ASSERT_FALSE (isnan (bt_unrepaired_strength_mpa r)), ASSERT_FALSE (isinf (bt_unrepaired_strength_mpa r))] = Inr ()"
    if "bt_original_strength_mpa r = tc_porcelain_strength_mpa ?c"
      and "bt_unrepaired_strength_mpa r =
        unrepaired_strength_pa (set_bending_config ?c new_bending_test) (bending_crack now (D 1) (D 50)) / D (10 ^ 6)" for r
    unfolding that by (auto simp: isnan_iff isinf_def all_of_passes simp del: all_of.simps)
qed simp

lemma span_test: "Bending_SpanGreaterThanSpecimen_Warns now = Inr ()"
  unfolding Bending_SpanGreaterThanSpecimen_Warns_def
proof (rule passes_simulation)
  let ?c = "default_bending_config\<lparr>tc_support_span_mm := D 100, tc_loading_span_mm := D 50\<rparr>"
  have "unrepaired_strength_pa t (crack\<lparr>ci_total_length := l\<rparr>) = unrepaired_strength_pa t crack" for t crack l
    by (simp add: unrepaired_strength_pa_def crack_depth_m_def)
  with about_le [OF about_zero strengths_of_depths(1), of ?c now "D 50"]
  show "all_of [ASSERT_FALSE (isnan (bt_original_strength_mpa r)), ASSERT_FALSE (isinf (bt_original_strength_mpa r)),
               ASSERT_GE (bt_unrepaired_strength_mpa r) 0] = Inr ()"
    if "bt_original_strength_mpa r = tc_porcelain_strength_mpa ?c"
      and "bt_unrepaired_strength_mpa r = unrepaired_strength_pa (set_bending_config ?c new_bending_test)
        ((bending_crack now (D 1) (D 50))\<lparr>ci_total_length := D 50\<rparr>) / D (10 ^ 6)" for r
    unfolding that by (simp add: isinf_def all_of_passes del: all_of.simps)
qed simp

lemma acceptance_test: "Bending_Acceptance_HighPermeabilityRecoveryAbove80pct now = Inr ()"
proof -
  let ?rep = "repaired_strength_pa (set_bending_config default_bending_config new_bending_test) (bending_crack now (D 2) (D 50))
      (bending_material (D 65) (D (5/100)) (D 70)) / D (10 ^ 6)"
  have c: "default_bending_config\<lparr>tc_specimen_thickness_mm := D 5, tc_specimen_width_mm := D 10,
      tc_support_span_mm := D 40, tc_loading_span_mm := D 20, tc_porcelain_strength_mpa := D 120,
      tc_porcelain_youngs_modulus_gpa := D 70, tc_repair_interface_strength_ratio := D (93/100)\<rparr> = default_bending_config"
    by (simp add: default_bending_config_def)
  note u = strengths_of_depths(2) [of default_bending_config now "D 50"]
  have "about (?rep / D 120) (9618 / 100 / 120) (1 / 2000)"
    by (rule recovery_about [OF _ _ _ _ _ _ _ _ _ _ _ u, of "93 / 100"]) (simp_all add: about_D)
  note ratio = about_le [OF about_D this, of "80 / 100" "1 / 10 ^ 10"]
  have "about ?rep (max (120 * (1 - 2 / 1000 * 200) + 65 * (2 / 1000 * 200) * (93 / 100)) (120 / (1 + 13209 / 6250 * (632455532 / 10 ^ 9)))) (1 / 20)"
    by (rule repaired_about [OF _ _ _ _ _ _ _ _ _ depth_about _ _ u]) (simp_all add: about_D)
  note strength = about_less [OF u this]
  show ?thesis
    unfolding Bending_Acceptance_HighPermeabilityRecoveryAbove80pct_def c
  proof (rule passes_simulation)
    show "all_of [ASSERT_GE (bt_strength_recovery_ratio r) (D (80/100)),
               ASSERT_GT (bt_repaired_strength_mpa r) (bt_unrepaired_strength_mpa r)] = Inr ()"
      if "bt_unrepaired_strength_mpa r =
          unrepaired_strength_pa (set_bending_config default_bending_config new_bending_test) (bending_crack now (D 2) (D 50)) / D (10 ^ 6)"
        and "bt_repaired_strength_mpa r = (if True then repaired_strength_pa (set_bending_config default_bending_config new_bending_test)
          (bending_crack now (D 2) (D 50)) (bending_material (D 65) (D (5/100)) (D 70)) else x) / D (10 ^ 6)"
        and "bt_strength_recovery_ratio r = (if 0 < tc_porcelain_strength_mpa default_bending_config
          then bt_repaired_strength_mpa r / tc_porcelain_strength_mpa default_bending_config else 0)" for r x
      using that ratio strength by (simp add: all_of_passes del: all_of.simps)
  qed simp
qed


subsection \<open>The curves of loads and displacements\<close>

definition with_steps :: "int \<Rightarrow> double \<Rightarrow> bending_test_config" where
  "with_steps n m = default_bending_config\<lparr>tc_max_displacement_mm := m, tc_load_steps := n\<rparr>"

lemma with_steps_fields [simp]:
  "tc_load_steps (with_steps n m) = n" "tc_max_displacement_mm (with_steps n m) = m" "tc_mesh_elements (with_steps n m) = 100"
  by (simp_all add: with_steps_def)

lemma with_steps_others [simp]:
  "tc_support_span_mm (with_steps n m) = tc_support_span_mm default_bending_config"
  "tc_loading_span_mm (with_steps n m) = tc_loading_span_mm default_bending_config"
  "tc_specimen_width_mm (with_steps n m) = tc_specimen_width_mm default_bending_config"
  "tc_specimen_thickness_mm (with_steps n m) = D 5" "tc_porcelain_strength_mpa (with_steps n m) = D 120"
  "tc_porcelain_youngs_modulus_gpa (with_steps n m) = tc_porcelain_youngs_modulus_gpa default_bending_config"
  "tc_repair_interface_strength_ratio (with_steps n m) = D (93 / 100)"
  by (simp_all add: with_steps_def)

lemma let_config: "Let (c :: bending_test_config) f = f c"
  by (simp add: Let_def)

lemma moment_of_inertia_with_steps [simp]: "moment_of_inertia (with_steps n m) = moment_of_inertia default_bending_config"
  by (simp add: moment_of_inertia_def)

lemma step_displacement_with_steps [simp]: "step_displacement (with_steps n m) = step_displacement default_bending_config"
  by (intro ext) (simp add: step_displacement_def)

lemma bending_moment_with_steps [simp]: "bending_moment (with_steps n m) = bending_moment default_bending_config"
  by (intro ext) (simp add: bending_moment_def)

lemma crack_span_with_steps [simp]: "crack_span (with_steps n m) = crack_span default_bending_config"
  by (intro ext) (simp only: crack_span_def with_steps_others)

lemma mesh_element_with_steps [simp]: "mesh_element (with_steps n m) = mesh_element default_bending_config"
  by (intro ext) (simp only: mesh_element_def crack_span_with_steps with_steps_others with_steps_fields default_geometry)

lemma fresh_default: "new_bending_test = set_bending_config default_bending_config new_bending_test"
  by (simp add: set_bending_config_def new_bending_test_def)

lemma element_strength_with_steps [simp]:
  "element_strength (set_bending_config (with_steps n m) new_bending_test) = element_strength new_bending_test"
  by (subst (2) fresh_default) (intro ext, simp add: element_strength_def let_config cong: if_cong)

lemma load_element_with_steps [simp]:
  "load_element (set_bending_config (with_steps n m) new_bending_test) = load_element new_bending_test"
  by (subst (2) fresh_default) (intro ext, simp add: load_element_def let_config cong: if_cong)

lemma damage_element_with_steps [simp]:
  "damage_element (set_bending_config (with_steps n m) new_bending_test) = damage_element new_bending_test"
  by (subst (2) fresh_default) (intro ext, simp add: damage_element_def let_config cong: if_cong)

lemma mesh_with_steps [simp]:
  "apply_four_point_loads (set_bending_config (with_steps n m) new_bending_test) = apply_four_point_loads new_bending_test"
  "update_damage (set_bending_config (with_steps n m) new_bending_test) = update_damage new_bending_test"
  "strength_limit (set_bending_config (with_steps n m) new_bending_test) = strength_limit new_bending_test"
  "build_mesh (with_steps n m) = build_mesh default_bending_config"
  by (simp_all add: fun_eq_iff apply_four_point_loads_def compute_bending_moment_distribution_def update_damage_def
      strength_limit_def build_mesh_def cong: if_cong)

lemma with_steps_load:
  "step_load (with_steps n m) step = of_i step / of_i n
     * (D 4 * (D 120000000 * moment_of_inertia default_bending_config / (millimetres (D 5) / D 2))
    / (millimetres (D 40) - millimetres (D 20))) * D (3 / 2)"
  using default_strength by (simp add: step_load_def Let_def) (simp add: default_bending_config_def)

text \<open>A specimen breaks at the first load, however many steps there are, if that load is between 14 and 31 N.\<close>

lemma breaks_at_once:
  assumes "ci_max_depth crack \<le> D 100" and "bonding_of material \<le> D 1000"
    and "crack_span default_bending_config crack = (center, half)" and "encl center 0 20" and "encl half 0 7"
    and "step_load (with_steps n m) 0 = 0" and "step_load (with_steps n m) 1 = F" and "encl F 14 31" and "1 \<le> n" and "\<not> m < 0"
    and "simulation (with_steps n m) now cid mid crack material repaired = Inr r"
  shows "bt_load r = [0, F] \<and> bt_disp r = [0, step_displacement default_bending_config F]"
proof -
  let ?t = "set_bending_config (with_steps n m) new_bending_test"
  define mesh where "mesh = map (mesh_element default_bending_config crack material repaired) [0..<100]"
  define mesh' where "mesh' = update_damage new_bending_test (apply_four_point_loads new_bending_test F (map at_rest mesh))"
  have mod: "list_all moderate mesh" and len: "length mesh = 100"
    using mesh_moderate [OF assms(1-5)] by (auto simp: mesh_def list_all_iff)
  have "\<not> be_has_crack (map at_rest mesh ! 70)"
    using middle_uncracked [OF assms(3-5)] by (simp add: mesh_def)
  then have breaks: "strength_limit new_bending_test mesh' \<le> peak_stress mesh'"
    unfolding mesh'_def by (intro second_step_breaks assms(8)) (simp_all add: len)
  have "0 < strength_limit new_bending_test (map at_rest mesh)"
    using mod by (intro limit_positive) (simp add: list_all_iff)
  then have holds: "\<not> strength_limit new_bending_test (map at_rest mesh) \<le> 0"
    by (rule dless_not_sym)
  have steps: "[0..n] = 0 # 1 # [2..n]"
    using assms(9) by (simp add: upto_rec1)
  have "run_bending_steps ?t [0..n] (mesh, [], []) = ((mesh', [0, F], [0, step_displacement default_bending_config F]), F)"
    using breaks holds assms(6,7,10) unfolding steps
    by (simp add: Let_def no_displacement first_step_at_rest [OF mod len] peak_at_rest mesh'_def [symmetric])
  then have "run_load_steps ?t mesh = ((mesh', [0, F], [0, step_displacement default_bending_config F]), F) \<or>
      fst (run_load_steps ?t mesh) = (mesh', [0, F], [0, step_displacement default_bending_config F])"
    by (simp add: run_load_steps_def)
  then have "fst (run_load_steps ?t mesh) = (mesh', [0, F], [0, step_displacement default_bending_config F])"
    by auto
  moreover have "build_mesh default_bending_config crack material repaired = Inr mesh"
    by (simp add: build_mesh_def mesh_def)
  ultimately show ?thesis
    using assms(11)
    by (cases "run_load_steps ?t mesh") (auto simp: simulation_def simulate_bending_def Let_def)
qed

lemma bending_crack_span [simp]: "crack_span default_bending_config (bending_crack now d w) = (D 20, D 5)"
proof -
  have "\<not> D 5 < D (1 / 10 ^ 6)"
    by (rule dless_asym, rule about_less [OF about_D [of _ "1 / 10 ^ 6"] about_exact]) simp_all
  moreover have "representable (10 ^ 18)"
    unfolding representable_def by (rule exI [of _ "5 ^ 18"], rule exI [of _ 18]) simp
  then have "exact (10 ^ 18)"
    by (simp add: exact_def)
  ultimately show ?thesis
    by (simp add: crack_span_def bending_crack_def Let_def std_min_def std_max_def)
qed

lemma displacement_encl:
  assumes "encl F 14 31"
  shows "encl (step_displacement default_bending_config F) (1 / 2048) (1 / 8)"
proof -
  let ?L1 = "millimetres (D 40)" and ?L2 = "millimetres (D 20)" and ?I = "moment_of_inertia default_bending_config"
  define a where "a = (?L1 - ?L2) / D 2"
  have e: "exact (1 / 2048)" "exact (1 / 8)" "exact (1 / 128)" "exact (1 / 64)" "exact (15 / 128)" "exact (1 / 256)"
      "exact (1 / 16)" "exact (1 / 1024)" "exact (1 / 512)" "exact (1 / 2)" "exact (5 / 512)" "exact (1 / 1048576)" "exact (1 / 16384)"
    using exact_dyadic [of 1 11] exact_dyadic [of 1 3] exact_dyadic [of 1 7] exact_dyadic [of 1 6] exact_dyadic [of 15 7]
      exact_dyadic [of 1 8] exact_dyadic [of 1 4] exact_dyadic [of 1 10] exact_dyadic [of 1 9] exact_dyadic [of 1 1]
      exact_dyadic [of 5 9] exact_dyadic [of 1 20] exact_dyadic [of 1 14] by simp_all
  have a: "encl a (5 / 512) (1 / 64)"
    unfolding a_def by (rule encl_divide [OF arm_encl encl_exact [of 2]]) (simp_all add: e)
  have "encl (F * a) (1 / 8) (1 / 2)"
    by (rule encl_times [OF assms a]) (simp_all add: e)
  moreover have den: "encl (D 1680000000000 * ?I) 100 200"
    by (rule encl_times [OF encl_exact inertia_encl]) simp_all
  ultimately have q: "encl (F * a / (D 1680000000000 * ?I)) (1 / 2048) (1 / 128)"
    by (rule encl_divide) (simp_all add: e)
  have "encl (D 3 * ?L1) (15 / 128) (1 / 8)"
    by (rule encl_times [OF encl_exact span_encl(1)]) (simp_all add: e)
  then have l: "encl (D 3 * ?L1 * ?L1) (1 / 256) (1 / 128)"
    by (rule encl_times [OF _ span_encl(1)]) (simp_all add: e)
  have "encl (D 4 * a) 0 (1 / 16)"
    by (rule encl_times [OF encl_exact a]) (simp_all add: e)
  then have "encl (D 4 * a * a) 0 (1 / 1024)"
    by (rule encl_times [OF _ a]) (simp_all add: e)
  with l have "encl (D 3 * ?L1 * ?L1 - D 4 * a * a) (1 / 512) (1 / 128)"
    by (rule encl_minus) (simp_all add: e)
  with q have "encl (F * a / (D 1680000000000 * ?I) * (D 3 * ?L1 * ?L1 - D 4 * a * a)) (1 / 1048576) (1 / 16384)"
    by (rule encl_times) (simp_all add: e)
  then have "encl (F * a / (D 1680000000000 * ?I) * (D 3 * ?L1 * ?L1 - D 4 * a * a) * D (10 ^ 3)) (1 / 2048) (1 / 8)"
    by (rule encl_times [OF _ encl_exact]) (simp_all add: e)
  moreover have "D (1 / 10 ^ 18) < ?I"
    using encl_less [OF encl_D [of 0 "1 / 2 ^ 40"] inertia_encl, of "1 / 10 ^ 18"] exact_dyadic [of 1 40] by simp
  ultimately show ?thesis
    by (simp add: step_displacement_def default_bending_config_def Let_def a_def)
qed

lemma curve_passes:
  assumes "d \<le> D 100" and "b \<le> D 1000"
    and "step_load (with_steps n m) 0 = 0" and "encl (step_load (with_steps n m) 1) 14 31" and "1 \<le> n" and "\<not> m < 0"
    and "simulation (with_steps n m) now cid mid (bending_crack now d w) (bending_material b v y) repaired = Inr r"
  shows "monotonic_increasing (bt_load r)" and "monotonic_increasing (bt_disp r)"
    and "bt_load r \<noteq> []" and "bt_disp r \<noteq> []" and "last (bt_disp r) \<le> D (1 / 8)" and "length (bt_disp r) = 2"
proof -
  define F where "F = step_load (with_steps n m) 1"
  have F: "encl F 14 31" and disp: "encl (step_displacement default_bending_config F) (1 / 2048) (1 / 8)"
    using assms(4) displacement_encl by (simp_all add: F_def)
  have curve: "bt_load r = [0, F] \<and> bt_disp r = [0, step_displacement default_bending_config F]"
    by (rule breaks_at_once [OF _ _ bending_crack_span _ _ assms(3) F_def [symmetric] F assms(5-7)])
      (use assms(1,2) in \<open>simp_all add: encl_def\<close>)
  have "0 < F" "0 < step_displacement default_bending_config F"
    by (rule encl_less [OF encl_exact [OF exact_zero, unfolded D_zero] F], simp)
      (rule encl_less [OF encl_exact [OF exact_zero, unfolded D_zero] disp], simp)
  then show "monotonic_increasing (bt_load r)" "monotonic_increasing (bt_disp r)" "bt_load r \<noteq> []" "bt_disp r \<noteq> []" "length (bt_disp r) = 2"
    using curve dless_not_sym by auto
  show "last (bt_disp r) \<le> D (1 / 8)"
    using curve disp exact_dyadic [of 1 3] by (auto elim!: enclE)
qed

lemma load_displacement_test: "Bending_LoadDisplacement_MonotonicallyIncreasing now = Inr ()"
proof -
  have c: "default_bending_config\<lparr>tc_load_steps := 50, tc_max_displacement_mm := D 2\<rparr> = with_steps 50 (D 2)"
    and d: "with_steps 50 (D 2) = default_bending_config"
    by (simp_all add: with_steps_def default_bending_config_def)
  obtain r where r: "simulation (with_steps 50 (D 2)) now 1 1 (bending_crack now (D 1) (D 50)) (bending_material (D 50) (D 1) (D 70)) True = Inr r"
    by (rule simulation_strengths [of "with_steps 50 (D 2)"]) auto
  have F: "encl (step_load (with_steps 50 (D 2)) 1) 14 31"
    unfolding d by (rule encl_weaken [OF first_load_encl]) simp_all
  note passes = curve_passes [OF _ _ _ F _ _ r, unfolded d, OF _ _ no_load]
  have "all_of [ASSERT_FALSE (bt_load r = []), ASSERT_FALSE (bt_disp r = []),
               ASSERT_TRUE (monotonic_increasing (bt_load r)), ASSERT_TRUE (monotonic_increasing (bt_disp r))] = Inr ()"
    using passes by (simp add: all_of_passes del: all_of.simps D_one)
  then show ?thesis
    using r by (simp add: Bending_LoadDisplacement_MonotonicallyIncreasing_def c del: all_of.simps D_one)
qed

lemma hundred_steps: "step_load (with_steps 100 m) 0 = 0" "encl (step_load (with_steps 100 m) 1) 14 31"
proof -
  let ?M = "D 4 * (D 120000000 * moment_of_inertia default_bending_config / (millimetres (D 5) / D 2))
      / (millimetres (D 40) - millimetres (D 20))"
  have e: "exact (10485 / 2 ^ 20)" "exact (10486 / 2 ^ 20)" "exact (39 / 4)" "exact (41 / 4)" "exact (3 / 2)"
    using exact_dyadic [of 10485 20] exact_dyadic [of 10486 20] exact_dyadic [of 39 2] exact_dyadic [of 41 2] exact_dyadic [of 3 1] by simp_all
  have "isfinite ?M"
    using max_load_encl by (rule encl_finite)
  then show "step_load (with_steps 100 m) 0 = 0"
    unfolding with_steps_load using D_divide [of 0 100] e by (simp add: of_i_def)
  have "encl (of_i 1 / of_i 100) (10485 / 2 ^ 20) (10486 / 2 ^ 20)"
    using e by (simp add: of_i_def encl_D flip: D_one)
  from encl_times [OF this max_load_encl, of "39 / 4" "41 / 4"] have "encl (of_i 1 / of_i 100 * ?M) (39 / 4) (41 / 4)"
    using e by simp
  then show "encl (step_load (with_steps 100 m) 1) 14 31"
    unfolding with_steps_load by (rule encl_times [OF _ encl_exact]) (simp_all add: e)
qed

lemma max_displacement_curve:
  obtains r where "simulation (default_bending_config\<lparr>tc_max_displacement_mm := D (5/10), tc_load_steps := 100\<rparr>) now 0 0
      (bending_crack now 0 0) (bending_material 0 (D 1) (D 70)) False = Inr r"
    and "length (bt_disp r) = 2" and "last (bt_disp r) \<le> D (1 / 8)"
proof -
  have c: "default_bending_config\<lparr>tc_max_displacement_mm := D (5/10), tc_load_steps := 100\<rparr> = with_steps 100 (D (5/10))"
    by (simp add: with_steps_def)
  obtain r where r: "simulation (with_steps 100 (D (5/10))) now 0 0 (bending_crack now 0 0) (bending_material 0 (D 1) (D 70)) False = Inr r"
    by (rule simulation_strengths [of "with_steps 100 (D (5/10))"]) auto
  have "exact (1 / 2)"
    using exact_dyadic [of 1 1] by simp
  then show thesis
    using r curve_passes(5,6) [OF _ _ hundred_steps _ _ r] by (intro that) (simp_all only: c, simp_all)
qed

lemma max_displacement_test: "Bending_MaxDisplacementReached_TerminatesGracefully now = Inr ()"
proof -
  obtain r where r: "simulation (default_bending_config\<lparr>tc_max_displacement_mm := D (5/10), tc_load_steps := 100\<rparr>) now 0 0
      (bending_crack now 0 0) (bending_material 0 (D 1) (D 70)) False = Inr r"
    and l: "length (bt_disp r) = 2" "last (bt_disp r) \<le> D (1 / 8)"
    by (rule max_displacement_curve)
  have "exact (1 / 2)"
    using exact_dyadic [of 1 1] by simp
  from about_exact [OF this] have "about (D (5/10)) (1 / 2) 0"
    by simp
  from about_product [OF this about_D, of "11 / 10" "1 / 1000" 1 2 "1 / 1000" "1 / 100"]
  have "about (D (5/10) * D (11/10)) (1 / 2 * (11 / 10)) (1 / 100)"
    by simp
  from about_le [OF about_exact this, of "1 / 8"] have "D (1 / 8) \<le> D (5/10) * D (11/10)"
    using exact_dyadic [of 1 3] by simp
  with l have "all_of [ASSERT_FALSE (bt_disp r = []), assert_impl (0 < length (bt_disp r)) ''Assertion failed'',
                ASSERT_LE (last (bt_disp r)) (D (5/10) * D (11/10))] = Inr ()"
    by (auto simp: all_of_passes dle_trans simp del: all_of.simps)
  then show ?thesis
    using r unfolding Bending_MaxDisplacementReached_TerminatesGracefully_def Let_def by (simp del: all_of.simps D_one)
qed

subsection \<open>The moments along the specimen\<close>

text \<open>The position of a point in millimetres, and the moment there under 100 N.\<close>

definition position :: "nat \<Rightarrow> real" where
  "position i = real i * 40 / 99"

lemma position_about:
  assumes "i < 100"
  shows "about (of_i (int i) * (D 40 / of_i 99)) (position i) (1 / 10 ^ 12)"
proof -
  have "exact (of_int (int i))"
    using assms exact_dyadic [of "int i" 0] by simp
  then have i: "about (of_i (int i)) (real i) 0"
    unfolding of_i_def using about_exact by force
  have "about (of_i 99) 99 0"
    unfolding of_i_def using about_exact [of 99] by simp
  from about_quotient [OF about_exact this, of 40 99 1 0 "2 / 10 ^ 15"] have "about (D 40 / of_i 99) (40 / 99) (2 / 10 ^ 15)"
    by simp
  from about_product [OF i this, of 100 1 "2 / 10 ^ 13" "1 / 10 ^ 12"] show ?thesis
    using assms by (simp add: position_def)
qed

lemma moment_positions:
  "i \<le> 24 \<Longrightarrow> position i \<le> 10 - 1 / 10" "25 \<le> i \<Longrightarrow> 10 + 1 / 100 \<le> position i"
  "i \<le> 74 \<Longrightarrow> position i \<le> 30 - 1 / 100" "75 \<le> i \<Longrightarrow> 30 + 1 / 10 \<le> position i"
  "i \<le> 99 \<Longrightarrow> position (99 - i) = 40 - position i" "1 \<le> i \<Longrightarrow> 4 / 10 \<le> position i"
  by (simp_all add: position_def of_nat_diff field_simps)

lemma bending_moment_at:
  "bending_moment default_bending_config 100 (D 100) i =
     (if i = 0 \<or> i = 99 then 0
      else let x = of_i (int i) * (D 40 / of_i 99) in
        if x < D 10 then D 50 * x else if x \<le> D 30 then D 500 else D 50 * (D 40 - x))"
  by (simp add: bending_moment_def default_bending_config_def Let_def del: D_one)

lemma left_moment:
  assumes "1 \<le> i" and "i \<le> 24"
  shows "about (bending_moment default_bending_config 100 (D 100) i) (50 * position i) (1 / 10 ^ 6)"
proof -
  have x: "about (of_i (int i) * (D 40 / of_i 99)) (position i) (1 / 10 ^ 12)"
    using assms by (intro position_about) simp
  have "of_i (int i) * (D 40 / of_i 99) < D 10"
    by (rule about_less [OF x about_exact]) (use moment_positions(1) [OF assms(2)] in simp_all)
  moreover have "about (D 50 * (of_i (int i) * (D 40 / of_i 99))) (50 * position i) (1 / 10 ^ 6)"
    by (rule about_product [OF about_exact x, where R = 50 and S = 10 and w = "1 / 10 ^ 10"])
      (use moment_positions(1) [OF assms(2)] moment_positions(6) [OF assms(1)] in simp_all)
  ultimately show ?thesis
    using assms by (simp add: bending_moment_at Let_def)
qed

lemma plateau_moment:
  assumes "25 \<le> i" and "i \<le> 74"
  shows "bending_moment default_bending_config 100 (D 100) i = D 500"
proof -
  have x: "about (of_i (int i) * (D 40 / of_i 99)) (position i) (1 / 10 ^ 12)"
    using assms by (intro position_about) simp
  have "\<not> of_i (int i) * (D 40 / of_i 99) < D 10"
    by (rule dless_asym, rule about_less [OF about_exact x]) (use moment_positions(2) [OF assms(1)] in simp_all)
  moreover have "of_i (int i) * (D 40 / of_i 99) \<le> D 30"
    by (rule about_le [OF x about_exact]) (use moment_positions(3) [OF assms(2)] in simp_all)
  ultimately show ?thesis
    using assms by (simp add: bending_moment_at Let_def)
qed

lemma right_moment:
  assumes "75 \<le> i" and "i \<le> 98"
  shows "about (bending_moment default_bending_config 100 (D 100) i) (50 * (40 - position i)) (1 / 10 ^ 6)"
proof -
  have x: "about (of_i (int i) * (D 40 / of_i 99)) (position i) (1 / 10 ^ 12)"
    using assms by (intro position_about) simp
  have b: "30 + 1 / 10 \<le> position i" "position i \<le> 40"
    using assms moment_positions(4) [OF assms(1)] by (simp_all add: position_def)
  have "\<not> of_i (int i) * (D 40 / of_i 99) < D 10"
    by (rule dless_asym, rule about_less [OF about_exact x]) (use b in simp_all)
  moreover have "\<not> of_i (int i) * (D 40 / of_i 99) \<le> D 30"
    by (rule dless_not_sym, rule about_less [OF about_exact x]) (use b in simp_all)
  moreover have "about (D 40 - of_i (int i) * (D 40 / of_i 99)) (40 - position i) (1 / 10 ^ 11)"
    by (rule about_subtract [OF about_exact x, where q = 10]) (use b in simp_all)
  from about_product [OF about_exact this, of 50 50 10 "1 / 10 ^ 9" "1 / 10 ^ 6"]
  have "about (D 50 * (D 40 - of_i (int i) * (D 40 / of_i 99))) (50 * (40 - position i)) (1 / 10 ^ 6)"
    using b by simp
  ultimately show ?thesis
    using assms by (simp add: bending_moment_at Let_def)
qed

lemma symmetric_moment:
  assumes "i < 50"
  shows "ASSERT_NEAR (bending_moment default_bending_config 100 (D 100) i) (bending_moment default_bending_config 100 (D 100) (99 - i)) (D 1)
    = Inr ()"
proof -
  consider "i = 0" | "1 \<le> i" "i \<le> 24" | "25 \<le> i"
    by linarith
  then show ?thesis
  proof cases
    case 1
    moreover have "D (1 / 10 ^ 15) \<noteq> NAN" "\<not> D (1 / 10 ^ 15) < 0"
      using D_nonneg [of "1 / 10 ^ 15"] dless_not_sym by auto
    ultimately show ?thesis
      by (simp add: bending_moment_at ASSERT_NEAR_def assert_near_impl_def relative_error_def)
  next
    case 2
    have r: "about (bending_moment default_bending_config 100 (D 100) (99 - i)) (50 * position i) (1 / 10 ^ 6)"
      using right_moment [of "99 - i"] moment_positions(5) [of i] 2 by simp
    show ?thesis
      by (rule near_passes [OF left_moment [OF 2] r, where u = "1 / 10 ^ 5" and m = 10])
        (use moment_positions(6) [OF 2(1)] in simp_all)
  next
    case 3
    then have "bending_moment default_bending_config 100 (D 100) i = D 500" "bending_moment default_bending_config 100 (D 100) (99 - i) = D 500"
      using assms by (intro plateau_moment; simp)+
    then show ?thesis
      using near_passes [OF about_exact about_exact, of 500 500 0 500 1] by simp
  qed
qed

lemma to_int32_about:
  assumes "about x r e" and "of_int k + e \<le> r" and "r + e < of_int k + 1" and "0 \<le> k" and "k < 2 ^ 31"
  shows "to_int32 x = Inr k"
proof -
  have "isfinite x" "of_int k \<le> val x" "val x < of_int k + 1"
    using assms(1-3) by (auto simp: about_def abs_le_iff)
  moreover from this have "\<lfloor>val x\<rfloor> = k"
    by (simp add: floor_eq_iff)
  moreover have "0 \<le> val x"
    using calculation(2) assms(4) order_trans [of 0 "real_of_int k" "val x"] by simp
  ultimately show ?thesis
    using assms(4,5) by (simp add: to_int32_def trunc_to_def)
qed

lemma load_indices: "to_int32 (D 10 / (D 40 / of_i 99)) = Inr 24" "to_int32 (D 30 / (D 40 / of_i 99)) = Inr 74"
proof -
  have "about (of_i 99) 99 0"
    unfolding of_i_def using about_exact [of 99] by simp
  from about_quotient [OF about_exact this, of 40 99 1 0 "1 / 10 ^ 14"] have dx: "about (D 40 / of_i 99) (40 / 99) (1 / 10 ^ 14)"
    by simp
  have "about (D 10 / (D 40 / of_i 99)) (10 / (40 / 99)) (1 / 100)"
    by (rule about_quotient [OF about_exact dx, where m = "1 / 3" and q = 30 and w = "1 / 10 ^ 9"]) simp_all
  then show "to_int32 (D 10 / (D 40 / of_i 99)) = Inr 24"
    by (rule to_int32_about) simp_all
  have "about (D 30 / (D 40 / of_i 99)) (30 / (40 / 99)) (1 / 100)"
    by (rule about_quotient [OF about_exact dx, where m = "1 / 3" and q = 90 and w = "1 / 10 ^ 9"]) simp_all
  then show "to_int32 (D 30 / (D 40 / of_i 99)) = Inr 74"
    by (rule to_int32_about) simp_all
qed

lemma moment_test: "Bending_MomentDistribution_Symmetric = Inr ()"
proof -
  let ?m = "compute_bending_moment_distribution default_bending_config 100 (D 100)"
  have c: "default_bending_config\<lparr>tc_support_span_mm := D 40, tc_loading_span_mm := D 20, tc_mesh_elements := 100\<rparr> = default_bending_config"
    and s: "tc_support_span_mm default_bending_config = D 40" "tc_loading_span_mm default_bending_config = D 20"
    by (simp_all add: default_bending_config_def)
  have m: "?m ! i = bending_moment default_bending_config 100 (D 100) i" if "i < 100" for i
    using that by (simp add: compute_bending_moment_distribution_def)
  have len: "length ?m = 100"
    by (simp add: compute_bending_moment_distribution_def)
  have sym: "all_of (map (\<lambda>i. ASSERT_NEAR (?m ! i) (?m ! (100 - 1 - i)) (D 1)) [0..<100 div 2]) = Inr ()"
    by (simp add: all_of_passes list_all_iff m symmetric_moment del: all_of.simps D_one upt_rec_numeral)
  have near: "ASSERT_NEAR (D 500) (D 500) (D 1) = Inr ()"
    using near_passes [OF about_exact about_exact, of 500 500 0 500 1] by simp
  have "?m ! nat i = D 500" if "25 \<le> i" "i \<le> 74" for i
    using that m [of "nat i"] plateau_moment [of "nat i"] by simp
  note flat = this this [of 25, simplified]
  have plateau: "all_of ([assert_impl (0 \<le> (24 :: int) + 1) ''Assertion failed'', assert_impl ((74 :: int) < 100) ''Assertion failed''] @
      map (\<lambda>i. ASSERT_NEAR (?m ! nat i) (?m ! nat (24 + 1)) (D 1)) [24 + 1..74]) = Inr ()"
    using near flat by (simp add: all_of_passes list_all_iff del: all_of.simps D_one upto_rec_numeral)
  show ?thesis
    using sym plateau load_indices
    by (simp add: Bending_MomentDistribution_Symmetric_def Let_def c s len del: all_of.simps D_one upt_rec_numeral)
qed

subsection \<open>The suite\<close>

text \<open>What a body does to the loop over the tests; the text of a JSON error is left out.\<close>

fun run_of_body :: "unit result \<Rightarrow> test_run result" where
  "run_of_body (Inr _) = Inr Returns"
| "run_of_body (Inl (Runtime_error m)) = Inr (Std_exception m)"
| "run_of_body (Inl (Out_of_range m)) = Inr (Std_exception m)"
| "run_of_body (Inl (Invalid_argument m)) = Inr (Std_exception m)"
| "run_of_body (Inl (Length_error m)) = Inr (Std_exception m)"
| "run_of_body (Inl Json_error) = Inr (Std_exception [])"
| "run_of_body (Inl (UB m)) = Inl (UB m)"

definition bending_bodies :: "time_point \<Rightarrow> (string \<times> unit result) list" where
  "bending_bodies now =
     [(''Bending_NoCrack_StrengthMatchesMaterial'', Bending_NoCrack_StrengthMatchesMaterial now),
      (''Bending_WithCrack_StrengthReduced'', Bending_WithCrack_StrengthReduced now),
      (''Bending_Repaired_HighPermeability_RecoveryAbove80pct'', Bending_Repaired_HighPermeability_RecoveryAbove80pct now),
      (''Bending_LoadDisplacement_MonotonicallyIncreasing'', Bending_LoadDisplacement_MonotonicallyIncreasing now),
      (''Bending_DifferentCrackDepths_DeeperCrackLowerStrength'', Bending_DifferentCrackDepths_DeeperCrackLowerStrength now),
      (''Bending_MultipleMaterials_BetterMaterialHigherRecovery'', Bending_MultipleMaterials_BetterMaterialHigherRecovery now),
      (''Bending_MinimalCrack_AlmostFullRecovery'', Bending_MinimalCrack_AlmostFullRecovery now),
      (''Bending_CrackThroughThickness_VeryLowStrength'', Bending_CrackThroughThickness_VeryLowStrength now),
      (''Bending_MaxDisplacementReached_TerminatesGracefully'', Bending_MaxDisplacementReached_TerminatesGracefully now),
      (''Bending_ZeroBondingMaterial_NoImprovement'', Bending_ZeroBondingMaterial_NoImprovement now),
      (''Bending_MomentDistribution_Symmetric'', Bending_MomentDistribution_Symmetric),
      (''Bending_NegativeCrackDepth_ClampedToZero'', Bending_NegativeCrackDepth_ClampedToZero now),
      (''Bending_ThicknessZero_HandlesGracefully'', Bending_ThicknessZero_HandlesGracefully now),
      (''Bending_SpanGreaterThanSpecimen_Warns'', Bending_SpanGreaterThanSpecimen_Warns now),
      (''Bending_Acceptance_HighPermeabilityRecoveryAbove80pct'', Bending_Acceptance_HighPermeabilityRecoveryAbove80pct now)]"

fun register_bodies :: "(string \<times> unit result) list \<Rightarrow> test_entry list \<Rightarrow> test_entry list result" where
  "register_bodies [] tests = Inr tests"
| "register_bodies ((name, body) # bodies) tests =
     and_then (run_of_body body) (\<lambda>fn. register_bodies bodies (register_test ''FourPointBending'' name fn tests))"

lemma register_bodies_pass:
  assumes "\<forall>b \<in> set bodies. snd b = Inr ()"
  shows "register_bodies bodies tests =
    Inr (tests @ map (\<lambda>b. \<lparr>te_suite = ''FourPointBending'', te_name = fst b, te_fn = Returns\<rparr>) bodies)"
  using assms by (induction bodies arbitrary: tests) (auto simp: register_test_def)

lemmas bending_bodies_pass = no_crack_test with_crack_test repaired_test load_displacement_test depths_test materials_test
  minimal_crack_test through_crack_test max_displacement_test zero_bonding_test moment_test negative_depth_test
  thickness_zero_test span_test acceptance_test

text \<open>C28: The suite of the bending test passes: each of its fifteen tests returns, in rounded arithmetic and
  at every time, so the program ends with status 0. The test that should reach the largest displacement
  accepts a curve of two points: of its 100 load steps the specimen survives only the one without a load.\<close>

theorem bending_suite_passes:
  "and_then (register_bodies (bending_bodies now) []) (\<lambda>tests.
      Inr (map (\<lambda>t. (te_suite t, te_name t)) tests, map te_fn tests, test_main tests [''--suite'', ''FourPointBending'']))
   = Inr (take 15 bending_tests, replicate 15 Returns, 0)
  \<and> and_then (simulation (default_bending_config\<lparr>tc_max_displacement_mm := D (5/10), tc_load_steps := 100\<rparr>) now 0 0
      (bending_crack now 0 0) (bending_material 0 (D 1) (D 70)) False) (\<lambda>r. Inr (length (bt_disp r))) = Inr 2"
proof
  have "\<forall>b \<in> set (bending_bodies now). snd b = Inr ()"
    by (simp add: bending_bodies_def bending_bodies_pass)
  from register_bodies_pass [OF this]
  show "and_then (register_bodies (bending_bodies now) []) (\<lambda>tests.
      Inr (map (\<lambda>t. (te_suite t, te_name t)) tests, map te_fn tests, test_main tests [''--suite'', ''FourPointBending'']))
    = Inr (take 15 bending_tests, replicate 15 Returns, 0)"
    by (simp add: bending_bodies_def bending_tests_def test_main_def run_all_status numeral_eq_Suc)
  show "and_then (simulation (default_bending_config\<lparr>tc_max_displacement_mm := D (5/10), tc_load_steps := 100\<rparr>) now 0 0
      (bending_crack now 0 0) (bending_material 0 (D 1) (D 70)) False) (\<lambda>r. Inr (length (bt_disp r))) = Inr 2"
    by (rule max_displacement_curve [of now]) simp
qed

end
