(* ===== verification/Spec2Isabelle.thy ===== *)
theory Spec2Isabelle
  imports Sensor_Client Tcp_Session Fatigue_Predictor Database_Extensions
    Http_Server Thread_Pool Web_Socket Metrics Dem_Module Vr_Preview Washburn_Module
    Stress_Analysis Bayesian Bending_Test Strength_Dealii Fem_Module Http_Dispatch
    Server_Lifecycle Simulator_Main Bending_Expectations
begin

text \<open>
  A verification library for the backend and the sensor simulator of the porcelain crack monitoring system
  (C++ sources under \<open>src/backend\<close> and \<open>src/simulator\<close>).

  \<^bold>\<open>The program.\<close> Simulated laser and vibration sensors
  (\<open>simulator/main.cpp\<close>) send PROFINET frames to the backend
  (\<open>src/tcp_server.cpp\<close>), which cuts the byte stream into frames, decodes them
  (\<open>src/profinet_parser.cpp\<close>) and pushes the records into lock-free queues
  (\<open>include/lockfree_queue.h\<close>). A pipeline of modules (\<open>include/module_base.h\<close>,
  wired in \<open>src/main.cpp\<close>) copies them to the alert sink and through a router to the fatigue
  predictor (\<open>algorithms/crack_propagation.cpp\<close>). The sink
  (\<open>include/modules/alert_ws_module.h\<close>) stores everything in PostgreSQL
  (\<open>src/database.cpp\<close>, \<open>src/database_extensions.cpp\<close>), raises alerts
  (\<open>src/alert_manager.cpp\<close>) and broadcasts summaries to web-socket sessions
  (\<open>src/websocket_server.cpp\<close>). Clients query data and start analyses over HTTP
  (\<open>src/http_server.cpp\<close>): the prediction, the repair simulation
  (\<open>algorithms/dem_simulation.cpp\<close>), the stress analysis
  (\<open>algorithms/stress_analysis.cpp\<close>), the penetration of a repair material
  (\<open>algorithms/washburn_model.cpp\<close>) and the bending test of the repaired piece
  (\<open>algorithms/four_point_bending.cpp\<close>, calibrated with
  \<open>include/bayesian_optimization.h\<close>). Stand-alone modules wrap the analyses for other callers
  (\<open>modules/washburn_penetration\<close>, \<open>modules/fem_stress\<close>,
  \<open>modules/strength_fem\<close>, \<open>modules/vr_preview\<close>), with pools of threads and
  channels to server processes. \<open>src/main.cpp\<close> creates all of it, waits for a signal and stops
  it again. Configuration comes from a file and the environment
  (\<open>include/config.h\<close>, \<open>src/config_loader.cpp\<close>); counters and histograms are
  printed for Prometheus (\<open>include/prometheus_metrics.h\<close>). The tests bring a framework of
  their own (\<open>src/tests/test_framework.h\<close>).

  \<^bold>\<open>Theories and what they model.\<close>
  \<^item> Prelude: machine words, error values (\<open>Inl\<close> an exception,
    \<open>Inl (UB _)\<close> undefined behaviour, \<open>Inr\<close> a return), the result monad.
  \<^item> Binary64: \<open>double\<close> as the finite binary64 numbers, infinities and NaN with every
    operation rounded to nearest even; the two zeros are one value; \<open>cmath\<close> functions are
    correctly rounded. Enclosures: an interval calculus to bound such expressions.
  \<^item> Json, Data_Model: JSON values and the records of \<open>common.h\<close>; a field the code
    leaves unset is \<open>indeterminate\<close>.
  \<^item> Profinet: every read and write of the parser, with its bounds checks and their gaps.
  \<^item> Simulator, Sensor_Client: the payload builders (random draws are arguments) and the client's
    timers and reconnections as a step relation over any interleaving of handlers. Simulator_Main: the
    settings of the simulator's \<open>main\<close> and the threads that end an injected shock.
  \<^item> Tcp_Session: frame splitting, dispatch and the session buffer.
  \<^item> Lockfree_Queue: the queue at the level of its atomic steps, for any number of producers; the
    locale of queue laws and its interpretation on the sequential operations.
  \<^item> Module_Pipeline: the module loop, fan-out, router, and the queues as \<open>main.cpp\<close>
    wires them.
  \<^item> Database, Database_Batch, Database_Extensions: the connection pool and every operation, over
    libpq as the parameter \<open>pg_env\<close>; \<open>None\<close> is a caller that waits for ever.
  \<^item> Alert_Manager, Alert_Ws: threshold checks, the persisted alert queue, delivery, and the sink
    with its four queues.
  \<^item> Crack_Propagation, Fatigue_Predictor: the Paris-law model in rounded arithmetic and the module
    that runs it.
  \<^item> Config: the configuration structures, the environment overrides, the file loader with its
    ranges, the singletons with the copies they hand out, and the connection string.
  \<^item> Http_Routes, Http_Server, Analysis_Routes: the path matcher and routing table, and the handlers
    of all requests over the database operations and the analyses; Analysis_Routes also has the stress
    stage of the pipeline. Http_Dispatch: the handlers behind the table, with the connections, the mutex
    of the table and the I/O threads as a step relation.
  \<^item> Web_Socket: sessions and server as step relations over handlers in any order.
  \<^item> Thread_Pool: \<open>include/thread_pool.h\<close> at the level of its critical sections, for
    any number of workers, waiters and submitters; Ipc_Channel: the in-process channel pairs over an
    explicit store of channels, the factory, and the module factory.
  \<^item> Metrics: the registry and its text format.
  \<^item> Dem_Simulation, Dem_Module: particle generation, contacts, integration and the figures of the
    repair simulation in rounded arithmetic, and the module that keeps its jobs.
  \<^item> Vr_Preview: mesh construction, vertex and index layout, parameters, and the previews built on
    the module's own pool.
  \<^item> Relative_Errors: bounds on the relative error of products, quotients and roots, beside the
    intervals of Enclosures; Absolute_Errors: a value known up to an absolute error.
  \<^item> Washburn_Model, Washburn_Module: both integration loops of the penetration model and its
    prediction; the module with batches, chunks, per-thread models and its status.
  \<^item> Module_Interface: the contract of \<open>imodule.h\<close> (status, cancellation, end of a run)
    as a locale, interpreted on the Washburn, preview and solver modules.
  \<^item> Stress_Analysis: grid, crack density, relaxation, stresses, smoothing, and the refinement of
    the mesh with the connectivity it rebuilds.
  \<^item> Bayesian, Bending_Test: matrices, the Gaussian process and the optimiser; the mesh, the load
    steps, the strengths and the calibration of the bending test.
  \<^item> Worker_Module, Strength_Module, Fem_Module: what the two solver modules share (a thread per
    request, a channel to another process and its table of requests), and each module with its adapter,
    its requests and its server process. Strength_Dealii: the strength adapter's solver over deal.II, with
    the library as a parameter.
  \<^item> Server_Lifecycle: the loggers, and \<open>main\<close> of the server as a list of operations (the
    constructors, \<open>start\<close>, the wait for a signal, \<open>stop\<close>) executed beside the threads
    it creates, a step relation over any interleaving with signals and exceptions.
  \<^item> Test_Framework: assertions, registry, filters and exit status of the test program, the names
    the test files register and the commands of CTest. Bending_Expectations: the tests of the suite
    \<open>FourPointBending\<close> as functions over Bending_Test.

  \<^bold>\<open>What the lemmas show.\<close> Encoding and decoding are inverse (Simulator, Ipc_Channel);
  parsing is decided on every input (Profinet); feeding a stream in any chunks gives the same deliveries
  and a bounded buffer (Tcp_Session); the queue is first-in first-out for many producers and one consumer,
  and unsafe with two consumers (Lockfree_Queue); a module processes each message once and in order
  (Module_Pipeline); a crack batch commits entirely or rolls back (Database_Batch); alerts are queued and
  delivered in order (Alert_Manager); predictions return and have the shape the API promises
  (Crack_Propagation); the path matcher agrees with a declarative meaning of route patterns (Http_Routes);
  a waiter of the pool returns only when all work is done (Thread_Pool); the meshes of a preview have
  indices within their vertices (Vr_Preview); a finished simulation reports every step (Dem_Simulation); a
  penetration prediction returns for every input, and a chunked batch answers like the sequential model
  (Washburn_Model, Washburn_Module); without refinement a stress analysis returns the whole grid with
  non-negative figures (Stress_Analysis); the matrix operations keep the shapes of linear algebra and the
  Cholesky factor is lower triangular (Bayesian); a repair never makes a simulated specimen weaker
  (Bending_Test); the acceptor always has an accept outstanding and no thread is lost while the route
  table is free (Http_Dispatch); whether a stopping server can still end is decided by which threads wait
  for a connection and whether the alert worker missed its notification (Server_Lifecycle); an injected
  shock is ended by exactly one thread before the next (Simulator_Main); the fifteen tests of the suite
  \<open>FourPointBending\<close> pass in rounded arithmetic (Bending_Expectations). Some theorems state what the code does where that is not what it means to
  do: the laser branch of the pipeline is not connected, acknowledging a frame writes out of bounds,
  printing and parsing errors leak database connections, the crack predictor never predicts growth,
  contact forces never reach the particles of the repair simulation, no broadcast is ever sent, histograms
  make every scrape fail, a batch of previews can block its own pool, the front of a penetration passes
  every reachable depth in its first step, the default stress analysis reads past its grid, the
  calibration of the bending test learns nothing and its default specimen breaks at the first load, the
  strength module knows no repair, its solver on deal.II does not see the crack, its second asynchronous
  request ends the program, the external
  processes are never used, one handler that waits for a connection stops the whole API, stopping the
  server races with the alert worker, a log file that cannot be opened ends the program abruptly, the
  assertions of the tests accept NaN, and four of the nine CTest commands run no test. This theory
  states what holds from the simulator to the alerts.

  \<^bold>\<open>Parameters, bounds and fuel.\<close> Parameters of the definitions are code outside the
  sources: the JSON parser and printer, libpq, the clock, the random engine, the outcomes of Boost.Beast's
  reads and writes, the decimal rendering of doubles, the walking order of hash maps, the environment, the
  file system, the contents of uninitialised memory and \<open>rand()\<close> (Stress_Analysis), the
  solvers on deal.II and the answers of the other process (Strength_Module, Fem_Module), and the
  laser-data query, which the sources declare without a body (Analysis_Routes). Loops without a structural
  measure are functions with a termination proof, except the life estimate and the two integration loops of
  the penetration model: these are partial functions, shown to return, the first within 27778 steps. The
  module loop takes the number of turns as an argument; \<open>drain_alerts\<close> takes the queue length,
  which is enough by \<open>drain_alerts_all\<close>. The refinement of the mesh and the optimiser run for
  the configured number of rounds, as in the code.

  \<^bold>\<open>Not modelled.\<close> \<open>solve_dealii\<close> of the stress adapter is compiled in only with the
  library deal.II and then does not compile (it indexes a number). Texts on the console and in the log are
  left out. SQL statements are data: their texts are not rendered. The bodies of the tests outside the suite
  \<open>FourPointBending\<close> are left out; their names and the program that runs them are modelled. The operations the database header
  declares without a body, the vendored JSON library, the web frontend, the database schema, the deployment
  files and the Python and HTML tests are not part of the program's own C++.
\<close>

section \<open>From the simulator to the alerts\<close>

text \<open>The alerts a simulated laser report should raise: for each generated crack in order, its depth
  and its width against the thresholds.\<close>

definition expected_alerts :: "alert_manager \<Rightarrow> laser_draws \<Rightarrow> nat \<Rightarrow> (alert_type \<times> double) list" where
  "expected_alerts m dr i =
     (if am_depth_threshold m < \<bar>dr_max_depth dr i\<bar> then [(CRACK_DEPTH_EXCEEDED, \<bar>dr_max_depth dr i\<bar>)] else []) @
     (if am_width_threshold m < \<bar>dr_max_width dr i\<bar> then [(CRACK_WIDTH_EXCEEDED, \<bar>dr_max_width dr i\<bar>)] else [])"

lemma sim_crack_alerts:
  "map (\<lambda>a. (al_type a, al_actual_value a)) (check_crack_thresholds fmt now m (sim_crack dr pid i)) = expected_alerts m dr i"
  "a \<in> set (check_crack_thresholds fmt now m (sim_crack dr pid i)) \<Longrightarrow>
     al_crack_id a = wrap32 indeterminate \<and> al_porcelain_id a = pid"
  by (auto simp: check_crack_thresholds_def depth_alert_def width_alert_def blank_alert_def
      expected_alerts_def sim_crack_def Let_def)

lemma sim_report_alerts:
  "map (\<lambda>a. (al_type a, al_actual_value a)) (laser_alerts fmt now m (sim_laser_data cfg shock cycle dr)) =
     concat (map (expected_alerts m dr) [0..<unat (laser_crack_count shock cycle dr)])"
proof (cases "laser_flag shock cycle dr")
  case True
  then show ?thesis
    by (simp add: laser_alerts_def sim_laser_data_def Let_def map_concat comp_def sim_crack_alerts(1))
next
  case False
  then show ?thesis
    by (simp add: laser_alerts_def sim_laser_data_def Let_def laser_crack_count_def)
qed



lemma sim_crack_long: "\<not> short_crack (sim_crack dr pid i)"
proof -
  have c: "critical_crack_length default_paris < D (1 / 2 ^ 10)"
    by (rule encl_less [OF critical_length_encl encl_exact]) (use exact_dyadic [of 1 10] in simp_all)
  have "D 5 + \<bar>dr_length dr i\<bar> = NAN \<or> D 5 \<le> D 5 + \<bar>dr_length dr i\<bar>"
  proof (cases "dr_length dr i = NAN")
    case False
    then have "0 \<le> \<bar>dr_length dr i\<bar>"
      by (cases "dr_length dr i") (auto intro: D_nonneg)
    then have "0 + D 5 \<le> \<bar>dr_length dr i\<bar> + D 5"
      by (rule dplus_mono) simp
    then show ?thesis
      by (simp add: dplus_commute)
  qed simp
  then have "D (1 / 2 ^ 10) \<le> start_length (sim_crack dr pid i)"
  proof
    assume "D 5 + \<bar>dr_length dr i\<bar> = NAN"
    then show ?thesis
      by (simp add: start_length_def sim_crack_def Let_def D_mono)
  next
    assume le: "D 5 \<le> D 5 + \<bar>dr_length dr i\<bar>"
    have "0 < D 5" "D (1 / 2 ^ 10) \<le> D 5"
      by (simp_all add: D_mono)
    with le have "0 < D 5 + \<bar>dr_length dr i\<bar>" "D (1 / 2 ^ 10) \<le> D 5 + \<bar>dr_length dr i\<bar>"
      using dless_le_trans dle_trans by blast+
    then show ?thesis
      by (simp add: start_length_def sim_crack_def Let_def)
  qed
  with c show ?thesis
    unfolding short_crack_def by (meson dless_imp_le dless_le_trans dless_not_sym)
qed

text \<open>C22: No crack of a simulated report is ever graded a propagation risk: the simulator's cracks
  are at least five units long, the prediction takes its lengths for metres, and whatever is
  longer than half a millimetre is NEGLIGIBLE, so the CRACK_PROPAGATION_RISK alert cannot be
  raised by the monitored fleet, however deep the cracks are.\<close>

theorem simulated_cracks_never_escalate:
  assumes "1 < h" and "h < 2 ^ 31" and "queue_ok q"
  shows "\<exists>q' ms. fatigue_process default_paris h (detection_of (sim_laser_data cfg shock cycle dr)) (Some q)
      = Some (Some q', None)
    \<and> queue_contents q' = queue_contents q @ ms
    \<and> length ms = unat (laser_crack_count shock cycle dr)
    \<and> (\<forall>m \<in> set ms. prediction_alerts fmt now (pm_prediction m) = [])"
proof -
  let ?d = "sim_laser_data cfg shock cycle dr"
  have cracks: "cd_cracks (detection_of ?d) = map (sim_crack dr (int_of_u32 (word_of_int (sc_porcelain_id cfg))))
      [0..<unat (laser_crack_count shock cycle dr)]"
    by (simp add: detection_of_def sim_laser_data_def Let_def)
  obtain q' ms where ms: "fatigue_process default_paris h (detection_of ?d) (Some q) = Some (Some q', None)"
      "queue_contents q' = queue_contents q @ ms" "map pm_crack ms = cd_cracks (detection_of ?d)"
      "list_all no_growth_message ms"
    using fatigue_loop_default [OF assms] unfolding fatigue_process_def by blast
  have "prediction_alerts fmt now (pm_prediction m) = []" if "m \<in> set ms" for m
  proof -
    have "pm_crack m \<in> set (cd_cracks (detection_of ?d))"
      using that by (simp flip: ms(3))
    then have "\<not> short_crack (pm_crack m)"
      using sim_crack_long by (auto simp: cracks)
    then show ?thesis
      using no_growth_alert [of m fmt now] ms(4) that by (auto simp: list_all_iff)
  qed
  moreover have "length ms = unat (laser_crack_count shock cycle dr)"
    using arg_cong [OF ms(3), of length] by (simp add: cracks)
  ultimately show ?thesis
    using ms(1,2) by blast
qed

theorem simulated_cracks_never_escalate_witness:
  "\<exists>q' ms. fatigue_process default_paris 720 (detection_of (sim_laser_data demo_config False 3 demo_laser_draws))
      (Some new_queue) = Some (Some q', None)
    \<and> queue_contents q' = queue_contents new_queue @ ms
    \<and> length ms = unat (laser_crack_count False 3 demo_laser_draws)
    \<and> (\<forall>m \<in> set ms. prediction_alerts (\<lambda>_. ''x'') 0 (pm_prediction m) = [])"
  by (rule simulated_cracks_never_escalate) (simp_all add: lfq.new_ok)

end
